(* ===== verification/Punks_Prelude.thy ===== *)
theory Punks_Prelude
  imports Main "HOL-Library.AList" "HOL-Library.Word"
begin

text \<open>
  The prelude of the Punks development: the names of the model's base types, the result
  type that stands for Rust's \<open>Result\<close>, the association-list lemmas that stand behind every
  \<open>HashMap\<close>, \<open>BTreeMap\<close> and \<open>DashMap\<close> of the sources, and the string operations
  (\<open>starts_with\<close>, \<open>split\<close>) that the parsers use.

  Conventions.  Opaque identifiers (UUIDs, public keys, event ids) are naturals or byte
  lists and are only compared.  A hash map is an association list with distinct keys: its
  order stands for the unspecified iteration order of the Rust map, and no property depends
  on it.  Counters that wrap in the sources are machine words.
\<close>

section \<open>Collections of facts\<close>

named_theorems kind_consts \<open>numeric values of the kind registry\<close>
named_theorems registry_simps \<open>projections of the subscription registry\<close>
named_theorems room_simps \<open>projections of the audio room\<close>
named_theorems session_defs \<open>the operations of a pairing session\<close>

section \<open>Base types\<close>

type_synonym uuid = nat
type_synonym kind = nat
type_synonym timestamp = nat
type_synonym u8 = "8 word"
type_synonym u32 = "32 word"
type_synonym u64 = "64 word"
type_synonym bytes = "u8 list"
type_synonym ('e, 'a) result = "'e + 'a"

section \<open>Results\<close>

text \<open>The \<open>?\<close> operator: stop at the first error.\<close>

definition and_then :: "'e + 'a \<Rightarrow> ('a \<Rightarrow> 'e + 'b) \<Rightarrow> 'e + 'b" where
  "and_then r f = (case r of Inl e \<Rightarrow> Inl e | Inr x \<Rightarrow> f x)"

lemma and_then_simps [simp]:
  "and_then (Inl e) f = Inl e"
  "and_then (Inr x) f = f x"
  by (simp_all add: and_then_def)

lemma and_then_Inr_iff: "and_then r f = Inr y \<longleftrightarrow> (\<exists>x. r = Inr x \<and> f x = Inr y)"
  by (cases r) simp_all

lemma and_then_Inl_iff:
  "and_then r f = Inl e \<longleftrightarrow> r = Inl e \<or> (\<exists>x. r = Inr x \<and> f x = Inl e)"
  by (cases r) simp_all

lemma case_err_Inr_iff:
  "(case r of Inl e \<Rightarrow> Inl (g e) | Inr x \<Rightarrow> f x) = Inr y \<longleftrightarrow> (\<exists>x. r = Inr x \<and> f x = Inr y)"
  by (cases r) simp_all

text \<open>A guard: \<open>if !ok { return Err(e) }\<close>.\<close>

definition guard :: "bool \<Rightarrow> 'e \<Rightarrow> 'e + unit" where
  "guard ok e = (if ok then Inr () else Inl e)"

lemma guard_simps [simp]:
  "guard True e = Inr ()"
  "guard False e = Inl e"
  by (simp_all add: guard_def)

lemma guard_Inr_iff: "guard ok e = Inr u \<longleftrightarrow> ok"
  by (simp add: guard_def)

lemma guard_Inl_iff: "guard ok e = Inl e' \<longleftrightarrow> \<not> ok \<and> e' = e"
  by (auto simp: guard_def)

definition is_ok :: "'e + 'a \<Rightarrow> bool" where
  "is_ok r = (case r of Inl _ \<Rightarrow> False | Inr _ \<Rightarrow> True)"

lemma is_ok_simps [simp]: "is_ok (Inl e) = False" "is_ok (Inr x) = True"
  by (simp_all add: is_ok_def)

lemma is_ok_iff: "is_ok r \<longleftrightarrow> (\<exists>x. r = Inr x)"
  by (cases r) simp_all

section \<open>Association lists as hash maps\<close>

lemma map_of_update [simp]: "map_of (AList.update k v al) = (map_of al)(k \<mapsto> v)"
  by (simp add: update_conv')

lemma map_of_delete [simp]: "map_of (AList.delete k al) = (map_of al)(k := None)"
  by (simp add: delete_conv')

lemma distinct_update [simp]:
  "distinct (map fst al) \<Longrightarrow> distinct (map fst (AList.update k v al))"
  by (rule distinct_update)

lemma distinct_delete [simp]:
  "distinct (map fst al) \<Longrightarrow> distinct (map fst (AList.delete k al))"
  by (rule distinct_delete)

lemma map_of_distinct_iff:
  "distinct (map fst al) \<Longrightarrow> map_of al k = Some v \<longleftrightarrow> (k, v) \<in> set al"
  by (simp add: map_of_eq_Some_iff)

lemma set_delete: "set (AList.delete k al) = {p \<in> set al. fst p \<noteq> k}"
  by (auto simp: AList.delete_eq)

lemma set_update_distinct:
  "distinct (map fst al) \<Longrightarrow>
   set (AList.update k v al) = insert (k, v) {p \<in> set al. fst p \<noteq> k}"
proof (induction al)
  case (Cons p al)
  then show ?case by (cases p) force
qed simp

lemma length_update_le: "length (AList.update k v al) \<le> Suc (length al)"
  by (induction al) auto

lemma length_update_fresh: "k \<notin> set (map fst al) \<Longrightarrow> length (AList.update k v al) = Suc (length al)"
  by (induction al) auto

section \<open>Lists\<close>

text \<open>A vector filled by pushing each element the first time it is seen
  (\<open>if seen.insert(x) { out.push(x) }\<close>).\<close>

fun push_new :: "'a list \<Rightarrow> 'a list \<Rightarrow> 'a list" where
  "push_new out [] = out"
| "push_new out (x # xs) = push_new (if x \<in> set out then out else out @ [x]) xs"

lemma set_push_new [simp]: "set (push_new out xs) = set out \<union> set xs"
  by (induction xs arbitrary: out) auto

lemma push_new_append: "push_new out (xs @ ys) = push_new (push_new out xs) ys"
  by (induction xs arbitrary: out) simp_all

lemma set_map_filter: "set (List.map_filter f xs) = {y. \<exists>x \<in> set xs. f x = Some y}"
  by (induction xs) (auto simp: List.map_filter_simps split: option.splits)

lemma distinct_push_new: "distinct out \<Longrightarrow> distinct (push_new out xs)"
  by (induction xs arbitrary: out) auto

lemma list_all_zip_iff:
  "length xs = length ys \<Longrightarrow>
   list_all (\<lambda>(x, y). P x y) (zip xs ys) \<longleftrightarrow> list_all2 P xs ys"
  by (induction xs ys rule: list_induct2) auto

section \<open>Strings\<close>

definition starts_with :: "string \<Rightarrow> string \<Rightarrow> bool" where
  "starts_with s p = (take (length p) s = p)"

lemma starts_with_iff: "starts_with s p \<longleftrightarrow> (\<exists>r. s = p @ r)"
  by (metis append_eq_conv_conj append_take_drop_id starts_with_def)

text \<open>\<open>str::split\<close> on a single character: always at least one part.\<close>

fun split_on :: "char \<Rightarrow> string \<Rightarrow> string list" where
  "split_on d [] = [[]]"
| "split_on d (c # cs) =
     (if c = d then [] # split_on d cs
      else (case split_on d cs of [] \<Rightarrow> [[c]] | w # ws \<Rightarrow> (c # w) # ws))"

fun join_with :: "char \<Rightarrow> string list \<Rightarrow> string" where
  "join_with d [] = []"
| "join_with d [w] = w"
| "join_with d (w # ws) = w @ d # join_with d ws"

lemma split_on_nonempty [simp]: "split_on d s \<noteq> []"
  by (induction d s rule: split_on.induct) (auto split: list.splits)

lemma join_split [simp]: "join_with d (split_on d s) = s"
proof (induction s)
  case (Cons c cs)
  show ?case
  proof (cases "split_on d cs")
    case (Cons w ws)
    with Cons.IH show ?thesis by (cases ws) auto
  qed simp
qed simp

lemma split_on_no_sep: "w \<in> set (split_on d s) \<Longrightarrow> d \<notin> set w"
proof (induction s arbitrary: w)
  case (Cons c cs)
  then show ?case by (cases "split_on d cs") (auto split: if_splits)
qed simp

lemma split_on_sep_free: "d \<notin> set w \<Longrightarrow> split_on d w = [w]"
  by (induction w) auto

lemma split_on_append: "d \<notin> set w \<Longrightarrow> split_on d (w @ d # s) = w # split_on d s"
  by (induction w) auto

lemma split_join:
  "ws \<noteq> [] \<Longrightarrow> (\<And>w. w \<in> set ws \<Longrightarrow> d \<notin> set w) \<Longrightarrow> split_on d (join_with d ws) = ws"
proof (induction d ws rule: join_with.induct)
  case (3 d w v va)
  then show ?case by (simp add: split_on_append)
qed (simp_all add: split_on_sep_free)

definition is_ascii_digit :: "char \<Rightarrow> bool" where
  "is_ascii_digit c = (of_char c \<ge> (48::nat) \<and> of_char c \<le> (57::nat))"

definition is_ascii_alpha :: "char \<Rightarrow> bool" where
  "is_ascii_alpha c =
     ((of_char c \<ge> (65::nat) \<and> of_char c \<le> (90::nat)) \<or>
      (of_char c \<ge> (97::nat) \<and> of_char c \<le> (122::nat)))"

definition is_ascii_alphanumeric :: "char \<Rightarrow> bool" where
  "is_ascii_alphanumeric c = (is_ascii_digit c \<or> is_ascii_alpha c)"

definition is_ascii_hexdigit :: "char \<Rightarrow> bool" where
  "is_ascii_hexdigit c =
     (is_ascii_digit c \<or>
      (of_char c \<ge> (65::nat) \<and> of_char c \<le> (70::nat)) \<or>
      (of_char c \<ge> (97::nat) \<and> of_char c \<le> (102::nat)))"

definition to_ascii_lower :: "char \<Rightarrow> char" where
  "to_ascii_lower c =
     (if of_char c \<ge> (65::nat) \<and> of_char c \<le> (90::nat)
      then char_of ((of_char c :: nat) + 32) else c)"

text \<open>White space, of the ASCII characters.\<close>

definition is_whitespace :: "char \<Rightarrow> bool" where
  "is_whitespace c = (of_char c = (32::nat) \<or> (of_char c \<ge> (9::nat) \<and> of_char c \<le> (13::nat)))"

definition trim :: "string \<Rightarrow> string" where
  "trim s = rev (dropWhile is_whitespace (rev (dropWhile is_whitespace s)))"

definition eq_ignore_ascii_case :: "string \<Rightarrow> string \<Rightarrow> bool" where
  "eq_ignore_ascii_case a b = (map to_ascii_lower a = map to_ascii_lower b)"


text \<open>\<open>to_string\<close> of an unsigned integer.\<close>

fun decimal :: "nat \<Rightarrow> string" where
  "decimal n = (if n < 10 then [char_of (48 + n)] else decimal (n div 10) @ [char_of (48 + n mod 10)])"

declare decimal.simps [simp del]

lemma digit_char: "n < 10 \<Longrightarrow> is_ascii_digit (char_of (48 + n :: nat))"
  by (simp add: is_ascii_digit_def)

lemma decimal_digits: "list_all is_ascii_digit (decimal n)"
proof (induction n rule: decimal.induct)
  case (1 n)
  then show ?case by (subst decimal.simps) (simp add: digit_char)
qed

definition undecimal :: "string \<Rightarrow> nat" where
  "undecimal s = foldl (\<lambda>a c. 10 * a + (of_char c - 48)) 0 s"

lemma undecimal_decimal: "undecimal (decimal n) = n"
proof (induction n rule: decimal.induct)
  case (1 n)
  show ?case
  proof (cases "n < 10")
    case True
    then show ?thesis by (subst decimal.simps) (simp add: undecimal_def)
  next
    case False
    have "undecimal (decimal n) = 10 * undecimal (decimal (n div 10)) + n mod 10"
      using False by (subst decimal.simps) (simp add: undecimal_def)
    then show ?thesis using 1 False by simp
  qed
qed

lemma decimal_inj: "decimal m = decimal n \<longleftrightarrow> m = n"
  by (metis undecimal_decimal)

lemma distinct_set_singleton_iff: "distinct xs \<Longrightarrow> set xs = {x} \<longleftrightarrow> xs = [x]"
  by (cases xs; cases "tl xs") auto

lemma distinct_set_singleton: "distinct xs \<Longrightarrow> set xs = {x} \<Longrightarrow> xs = [x]"
  by (simp add: distinct_set_singleton_iff)

section \<open>Bytes\<close>

lemma unat_u8: "unat (c :: u8) < 256"
  using unsigned_less [of c] by simp

lemma unat_u8_mod: "word_of_nat (unat (w :: u8) mod 256) = w"
  using unat_u8 [of w] by simp

text \<open>The low bytes of a number, most significant first.\<close>

definition byte_digits :: "nat \<Rightarrow> nat \<Rightarrow> bytes" where
  "byte_digits n u = map (\<lambda>i. word_of_nat (u div 256 ^ i)) (rev [0..<n])"

definition byte_value :: "bytes \<Rightarrow> nat" where
  "byte_value bs = foldl (\<lambda>acc b. acc * 256 + unat b) 0 bs"

lemma byte_digits_Suc: "byte_digits (Suc n) u = byte_digits n (u div 256) @ [word_of_nat u]"
proof -
  have "rev [0..<Suc n] = map Suc (rev [0..<n]) @ [0]"
    by (metis map_Suc_upt rev_map rev.simps(2) upt_conv_Cons zero_less_Suc)
  then show ?thesis by (simp add: byte_digits_def div_mult2_eq del: upt_Suc)
qed

lemma byte_value_snoc: "byte_value (bs @ [b]) = byte_value bs * 256 + unat b"
  by (simp add: byte_value_def)

lemma unat_byte_of_nat: "unat (word_of_nat u :: u8) = u mod 256"
  by (simp add: unsigned_of_nat take_bit_eq_mod)

lemma unat_byte_inj: "unat (a :: u8) = unat b \<Longrightarrow> a = b"
  by (simp add: word_unat_eq_iff)

lemma byte_value_digits: "u < 256 ^ n \<Longrightarrow> byte_value (byte_digits n u) = u"
proof (induction n arbitrary: u)
  case 0
  then show ?case by (simp add: byte_digits_def byte_value_def)
next
  case (Suc n)
  then have "u div 256 < 256 ^ n" by (simp add: less_mult_imp_div_less mult.commute)
  with Suc.IH show ?case by (simp add: byte_digits_Suc byte_value_snoc unat_byte_of_nat)
qed

lemma byte_digits_value: "byte_value bs < 256 ^ length bs \<and> byte_digits (length bs) (byte_value bs) = bs"
proof (induction bs rule: rev_induct)
  case Nil
  then show ?case by (simp add: byte_digits_def byte_value_def)
next
  case (snoc b bs)
  have b: "unat b < 256" by (rule unat_u8)
  then have d: "byte_value (bs @ [b]) div 256 = byte_value bs" by (simp add: byte_value_snoc)
  have "word_of_nat (byte_value bs * 256 + unat b) = b"
    by (rule unat_byte_inj, unfold unat_byte_of_nat) (simp add: b)
  with snoc d b show ?case by (simp add: byte_digits_Suc) (simp add: byte_value_snoc)
qed

lemma length_byte_digits [simp]: "length (byte_digits n u) = n"
  by (simp add: byte_digits_def)

lemma byte_digits_inj: "u < 256 ^ n \<Longrightarrow> v < 256 ^ n \<Longrightarrow> byte_digits n u = byte_digits n v \<longleftrightarrow> u = v"
  by (metis byte_value_digits)

text \<open>\<open>str::as_bytes\<close>: the bytes of a string.\<close>

definition as_bytes :: "string \<Rightarrow> bytes" where
  "as_bytes s = map (\<lambda>c. word_of_nat (of_char c)) s"

lemma as_bytes_inj [simp]: "as_bytes s = as_bytes t \<longleftrightarrow> s = t"
proof -
  have "inj (\<lambda>c :: char. word_of_nat (of_char c) :: u8)"
  proof (rule injI)
    fix c d :: char
    assume "(word_of_nat (of_char c) :: u8) = word_of_nat (of_char d)"
    then have "unat (word_of_nat (of_char c) :: u8) = unat (word_of_nat (of_char d) :: u8)" by simp
    then have "of_char c mod (256 :: nat) = of_char d mod 256" by (simp only: unat_byte_of_nat)
    then show "c = d" by simp
  qed
  then show ?thesis by (simp add: as_bytes_def inj_map_eq_map)
qed

lemma as_bytes_append [simp]: "as_bytes (s @ t) = as_bytes s @ as_bytes t"
  by (simp add: as_bytes_def)

lemma length_as_bytes [simp]: "length (as_bytes s) = length s"
  by (simp add: as_bytes_def)

end
