(* ===== verification/Nostr_Events.thy ===== *)
theory Nostr_Events
  imports Kinds
begin

text \<open>
  Events, filters and thread markers: \<open>crates/punks-core/src/event.rs\<close>, \<open>filter.rs\<close>,
  \<open>nip10.rs\<close> and the per-event predicates of \<open>kind.rs\<close>.

  The \<open>nostr\<close>, \<open>uuid\<close> and \<open>hex\<close> crates are outside the repository.  Their data is modelled
  as the wire format has it (a tag is a list of strings, whose first element is its kind and
  whose second is its content; a public key and an event id are their bytes; a single-letter
  tag key is a character), and the encoders the code calls are the fields of the parameter
  record \<open>nostr_lib\<close>, about which nothing is assumed unless a property says so.
\<close>

section \<open>Data\<close>

type_synonym pubkey = bytes
type_synonym event_id = bytes
type_synonym tag = "string list"
type_synonym community_id = uuid
type_synonym channel_id = uuid

record nostr_lib =
  uuid_to_string :: "uuid \<Rightarrow> string"
  uuid_parse :: "string \<Rightarrow> uuid option"
  id_to_hex :: "event_id \<Rightarrow> string"
  pubkey_to_hex :: "pubkey \<Rightarrow> string"
  hex_encode :: "bytes \<Rightarrow> string"

record event =
  ev_id :: event_id
  ev_pubkey :: pubkey
  ev_created_at :: timestamp
  ev_kind :: kind
  ev_tags :: "tag list"
  ev_content :: string

record stored_event =
  se_event :: event
  se_received_at :: timestamp
  se_channel_id :: "channel_id option"
  se_verified :: bool

definition stored_event_new :: "timestamp \<Rightarrow> event \<Rightarrow> channel_id option \<Rightarrow> stored_event" where
  "stored_event_new now e ch =
     \<lparr>se_event = e, se_received_at = now, se_channel_id = ch, se_verified = False\<rparr>"

lemma stored_event_new_simps [simp]:
  "se_event (stored_event_new now e ch) = e"
  "se_channel_id (stored_event_new now e ch) = ch"
  by (simp_all add: stored_event_new_def)

record nfilter =
  f_ids :: "event_id list option"
  f_authors :: "pubkey list option"
  f_kinds :: "kind list option"
  f_since :: "timestamp option"
  f_until :: "timestamp option"
  f_limit :: "nat option"
  f_search :: "string option"
  f_generic_tags :: "(char \<times> string list) list"

fun tag_kind :: "tag \<Rightarrow> string" where
  "tag_kind [] = []"
| "tag_kind (k # _) = k"

fun tag_content :: "tag \<Rightarrow> string option" where
  "tag_content (_ # c # _) = Some c"
| "tag_content _ = None"

section \<open>Filter matching\<close>

definition has_tag_value :: "event \<Rightarrow> string \<Rightarrow> string \<Rightarrow> bool" where
  "has_tag_value e key v = (\<exists>t \<in> set (ev_tags e). tag_kind t = key \<and> tag_content t = Some v)"

definition generic_tag_ok :: "nostr_lib \<Rightarrow> stored_event \<Rightarrow> char \<times> string list \<Rightarrow> bool" where
  "generic_tag_ok lib se = (\<lambda>(key, values).
     let has_match = (\<exists>v \<in> set values. has_tag_value (se_event se) [key] v) in
     if \<not> has_match \<and> key = CHR ''h'' then
       (let event_has_h_tags = (\<exists>t \<in> set (ev_tags (se_event se)). tag_kind t = ''h'') in
        if \<not> event_has_h_tags then
          (case se_channel_id se of
             Some ch \<Rightarrow> uuid_to_string lib ch \<in> set values
           | None \<Rightarrow> False)
        else False)
     else has_match)"

definition filter_match_one :: "nostr_lib \<Rightarrow> nfilter \<Rightarrow> stored_event \<Rightarrow> bool" where
  "filter_match_one lib f se = (let e = se_event se in
     (case f_kinds f of Some ks \<Rightarrow> ev_kind e \<in> set ks | None \<Rightarrow> True) \<and>
     (case f_authors f of Some as \<Rightarrow> ev_pubkey e \<in> set as | None \<Rightarrow> True) \<and>
     (case f_since f of Some s \<Rightarrow> \<not> ev_created_at e < s | None \<Rightarrow> True) \<and>
     (case f_until f of Some u \<Rightarrow> \<not> ev_created_at e > u | None \<Rightarrow> True) \<and>
     (case f_ids f of
        Some ids \<Rightarrow> (\<exists>i \<in> set ids. starts_with (id_to_hex lib (ev_id e)) (id_to_hex lib i))
      | None \<Rightarrow> True) \<and>
     list_all (generic_tag_ok lib se) (f_generic_tags f))"

definition filters_match :: "nostr_lib \<Rightarrow> nfilter list \<Rightarrow> stored_event \<Rightarrow> bool" where
  "filters_match lib fs se = (\<exists>f \<in> set fs. filter_match_one lib f se)"

lemma filters_match_Nil [simp]: "\<not> filters_match lib [] se"
  by (simp add: filters_match_def)

text \<open>What the indexes of the subscription registry need from a matching filter: its kind
  constraint admits the event's kind, and every constraint other than \<open>#h\<close> is met by a tag
  of the event.\<close>

lemma filter_match_one_kind:
  "filter_match_one lib f se \<Longrightarrow> f_kinds f = Some ks \<Longrightarrow> ev_kind (se_event se) \<in> set ks"
  by (auto simp: filter_match_one_def Let_def)

lemma filter_match_one_tag:
  assumes "filter_match_one lib f se" and "(c, vs) \<in> set (f_generic_tags f)" and "c \<noteq> CHR ''h''"
  shows "\<exists>v \<in> set vs. has_tag_value (se_event se) [c] v"
proof -
  from assms(1,2) have "generic_tag_ok lib se (c, vs)"
    by (auto simp: filter_match_one_def Let_def list_all_iff)
  with assms(3) show ?thesis by (simp add: generic_tag_ok_def Let_def)
qed

text \<open>The \<open>#h\<close> constraint: explicit \<open>h\<close> tags of the event are authoritative, and the channel
  the relay derived is used only for an event that has none.\<close>

definition h_constraint_spec :: "nostr_lib \<Rightarrow> stored_event \<Rightarrow> string list \<Rightarrow> bool" where
  "h_constraint_spec lib se vs =
     (if \<exists>t \<in> set (ev_tags (se_event se)). tag_kind t = ''h''
      then \<exists>v \<in> set vs. has_tag_value (se_event se) ''h'' v
      else \<exists>ch. se_channel_id se = Some ch \<and> uuid_to_string lib ch \<in> set vs)"

lemma generic_tag_ok_h: "generic_tag_ok lib se (CHR ''h'', vs) = h_constraint_spec lib se vs"
  by (auto simp: generic_tag_ok_def h_constraint_spec_def has_tag_value_def Let_def
           split: option.splits)

section \<open>Per-event read predicates\<close>

definition reader_authorized_for_event :: "event \<Rightarrow> string \<Rightarrow> bool" where
  "reader_authorized_for_event e reader_hex =
     (if ev_kind e \<noteq> KIND_DM_VISIBILITY \<and> ev_kind e \<noteq> KIND_AGENT_TURN_METRIC then True
      else \<exists>t \<in> set (ev_tags e). tag_kind t = ''p'' \<and> tag_content t = Some reader_hex)"

fun shared_count :: "tag list \<Rightarrow> nat \<Rightarrow> nat option" where
  "shared_count [] n = Some n"
| "shared_count (t # ts) n =
     (if length t = 2 \<and> t ! 0 = ''shared'' then
        (if t ! 1 \<noteq> ''true'' then None else shared_count ts (Suc n))
      else if t \<noteq> [] \<and> t ! 0 = ''shared'' then None
      else shared_count ts n)"

definition event_is_shared :: "event \<Rightarrow> bool" where
  "event_is_shared e = (shared_count (ev_tags e) 0 = Some 1)"

definition is_unshared_gated_event :: "event \<Rightarrow> bytes \<Rightarrow> bool" where
  "is_unshared_gated_event e requester =
     (if \<not> is_shared_gated_kind (ev_kind e) then False
      else if ev_pubkey e = requester then False
      else \<not> event_is_shared e)"

text \<open>The loop accepts exactly the events with one \<open>shared\<close> tag, and that tag is
  \<open>["shared", "true"]\<close>.\<close>

definition shared_tags :: "tag list \<Rightarrow> tag list" where
  "shared_tags ts = filter (\<lambda>t. tag_kind t = ''shared'') ts"

lemma shared_count_eq:
  "shared_count ts n =
     (if \<forall>t \<in> set (shared_tags ts). t = [''shared'', ''true'']
      then Some (n + length (shared_tags ts)) else None)"
proof (induction ts arbitrary: n)
  case (Cons t ts)
  consider "t = []" | a where "t = [a]" | a b where "t = [a, b]"
    | a b c r where "t = a # b # c # r"
    by (metis neq_Nil_conv)
  then show ?case
    by cases (auto simp: Cons.IH shared_tags_def)
qed (simp add: shared_tags_def)

lemma event_is_shared_iff:
  "event_is_shared e \<longleftrightarrow> shared_tags (ev_tags e) = [[''shared'', ''true'']]"
  by (cases "shared_tags (ev_tags e)")
     (auto simp: event_is_shared_def shared_count_eq split: if_splits)

section \<open>NIP-10 thread markers\<close>

record thread_markers =
  tm_root :: "string option"
  tm_reply :: "string option"

definition resolve :: "thread_markers \<Rightarrow> (string \<times> string) option" where
  "resolve m = (case (tm_root m, tm_reply m) of
     (Some root, Some reply) \<Rightarrow> Some (root, reply)
   | (None, Some reply) \<Rightarrow> Some (reply, reply)
   | (Some _, None) \<Rightarrow> None
   | (None, None) \<Rightarrow> None)"

definition is_event_id_hex :: "string \<Rightarrow> bool" where
  "is_event_id_hex s = (length s = 64 \<and> list_all is_ascii_hexdigit s)"

definition marker_step :: "thread_markers \<Rightarrow> tag \<Rightarrow> thread_markers" where
  "marker_step m parts =
     (if length parts \<ge> 4 \<and> parts ! 0 = ''e'' \<and> is_event_id_hex (parts ! 1) then
        (if parts ! 3 = ''root'' then m\<lparr>tm_root := Some (parts ! 1)\<rparr>
         else if parts ! 3 = ''reply'' then m\<lparr>tm_reply := Some (parts ! 1)\<rparr>
         else m)
      else m)"

definition parse_thread_markers_from_parts :: "tag list \<Rightarrow> thread_markers" where
  "parse_thread_markers_from_parts ts = foldl marker_step \<lparr>tm_root = None, tm_reply = None\<rparr> ts"

definition parse_thread_markers :: "event \<Rightarrow> thread_markers" where
  "parse_thread_markers e = parse_thread_markers_from_parts (ev_tags e)"

text \<open>The reference reading: the last valid marker of each kind.\<close>

definition marks :: "string \<Rightarrow> tag \<Rightarrow> bool" where
  "marks m parts =
     (length parts \<ge> 4 \<and> parts ! 0 = ''e'' \<and> is_event_id_hex (parts ! 1) \<and> parts ! 3 = m)"

definition last_marked :: "string \<Rightarrow> tag list \<Rightarrow> string option" where
  "last_marked m ts = map_option (\<lambda>parts. parts ! 1) (find (marks m) (rev ts))"

lemma last_marked_snoc:
  "last_marked m (ts @ [t]) = (if marks m t then Some (t ! 1) else last_marked m ts)"
  by (simp add: last_marked_def)

lemma marker_step_eq:
  "marker_step m t =
     \<lparr>tm_root = (if marks ''root'' t then Some (t ! 1) else tm_root m),
      tm_reply = (if marks ''reply'' t then Some (t ! 1) else tm_reply m)\<rparr>"
  by (simp add: marker_step_def marks_def)

lemma parse_thread_markers_from_parts_eq:
  "parse_thread_markers_from_parts ts =
     \<lparr>tm_root = last_marked ''root'' ts, tm_reply = last_marked ''reply'' ts\<rparr>"
proof (induction ts rule: rev_induct)
  case Nil
  show ?case by (simp add: parse_thread_markers_from_parts_def last_marked_def)
next
  case (snoc t ts)
  then show ?case
    by (simp add: parse_thread_markers_from_parts_def marker_step_eq last_marked_snoc)
qed

lemma last_marked_valid: "last_marked m ts = Some i \<Longrightarrow> is_event_id_hex i"
  by (auto simp: last_marked_def find_Some_iff marks_def)

end
