(* ===== verification/Subscriptions.thy ===== *)
theory Subscriptions
  imports Nostr_Events
begin

text \<open>
  The subscription registry of \<open>crates/punks-relay/src/subscription.rs\<close>: the table of live
  subscriptions, the five in-memory indexes that serve targeted fan-out, and the operations
  that register, replace, narrow and remove subscriptions.

  The abstract view is the table alone.  The main result is that index-driven fan-out returns
  exactly what a linear scan of the table would return, in every registry the operations can
  reach.  The concurrency of the \<open>DashMap\<close> is not modelled: each operation is one step here,
  although in the code it changes the table and the indexes one after the other, each under a lock of its own.
  The metrics gauges the code updates have no effect on routing and are left out.
\<close>

section \<open>State\<close>

type_synonym conn_id = uuid
type_synonym sub_id = string
type_synonym recipient = "conn_id \<times> sub_id"

datatype subscription_scope = Global | Channels "channel_id list"

type_synonym sub_entry = "nfilter list \<times> community_id \<times> subscription_scope"

fun matches_channel :: "subscription_scope \<Rightarrow> channel_id option \<Rightarrow> bool" where
  "matches_channel Global None = True"
| "matches_channel (Channels chs) (Some ch) = (ch \<in> set chs)"
| "matches_channel _ _ = False"

fun channel_ids :: "subscription_scope \<Rightarrow> channel_id list" where
  "channel_ids Global = []"
| "channel_ids (Channels chs) = chs"

fun is_global :: "subscription_scope \<Rightarrow> bool" where
  "is_global Global = True"
| "is_global (Channels _) = False"

record index_key =
  ik_channel_id :: channel_id
  ik_kind :: kind

record global_p_key =
  gp_community_id :: community_id
  gp_kind :: kind
  gp_p :: string

record removed_subscription =
  rs_community_id :: community_id
  rs_scope :: subscription_scope

record channel_subscription_update =
  cu_sub_id :: sub_id
  cu_removed :: bool

record registry =
  subs :: "(conn_id \<times> (sub_id \<times> sub_entry) list) list"
  channel_kind_index :: "((community_id \<times> index_key) \<times> recipient list) list"
  channel_wildcard_index :: "((community_id \<times> channel_id) \<times> recipient list) list"
  global_kind_index :: "((community_id \<times> kind) \<times> recipient list) list"
  global_p_kind_index :: "(global_p_key \<times> recipient list) list"
  global_wildcard_index :: "(community_id \<times> recipient list) list"

definition registry_new :: registry where
  "registry_new =
     \<lparr>subs = [], channel_kind_index = [], channel_wildcard_index = [], global_kind_index = [],
      global_p_kind_index = [], global_wildcard_index = []\<rparr>"

section \<open>Index keys\<close>

fun collect_kinds :: "kind list \<Rightarrow> nfilter list \<Rightarrow> kind list option" where
  "collect_kinds kinds [] = Some kinds"
| "collect_kinds kinds (f # fs) = (case f_kinds f of
     Some ks \<Rightarrow> collect_kinds (push_new kinds ks) fs
   | None \<Rightarrow> None)"

definition extract_kinds_from_filters :: "nfilter list \<Rightarrow> kind list option" where
  "extract_kinds_from_filters fs = collect_kinds [] fs"

fun collect_p_keys :: "community_id \<Rightarrow> global_p_key list \<Rightarrow> nfilter list \<Rightarrow> global_p_key list option" where
  "collect_p_keys com keys [] = Some keys"
| "collect_p_keys com keys (f # fs) = (case f_kinds f of
     None \<Rightarrow> None
   | Some ks \<Rightarrow>
       if ks = [] then collect_p_keys com keys fs
       else (case map_of (f_generic_tags f) (CHR ''p'') of
         None \<Rightarrow> None
       | Some ps \<Rightarrow>
           if ps = [] then None
           else collect_p_keys com
             (push_new keys
               (concat (map (\<lambda>k. map (\<lambda>p. \<lparr>gp_community_id = com, gp_kind = k, gp_p = p\<rparr>) ps) ks)))
             fs))"

definition extract_global_p_kind_index_keys ::
    "community_id \<Rightarrow> nfilter list \<Rightarrow> global_p_key list option" where
  "extract_global_p_kind_index_keys com fs = collect_p_keys com [] fs"

definition event_p_tag_values :: "stored_event \<Rightarrow> string list" where
  "event_p_tag_values se =
     push_new [] (List.map_filter (\<lambda>t. if tag_kind t \<noteq> ''p'' then None else tag_content t)
                   (ev_tags (se_event se)))"

section \<open>Index entries\<close>

text \<open>\<open>index.entry(key).or_default().push(v)\<close>, and the removal pattern of
  \<open>remove_from_index\<close>: \<open>retain\<close> the other recipients and drop the entry when none is left.\<close>

definition entry_push :: "'k \<Rightarrow> 'v \<Rightarrow> ('k \<times> 'v list) list \<Rightarrow> ('k \<times> 'v list) list" where
  "entry_push k v al =
     AList.update k ((case map_of al k of None \<Rightarrow> [] | Some vs \<Rightarrow> vs) @ [v]) al"

definition entry_remove :: "'k \<Rightarrow> 'v \<Rightarrow> ('k \<times> 'v list) list \<Rightarrow> ('k \<times> 'v list) list" where
  "entry_remove k v al = (case map_of al k of
     None \<Rightarrow> al
   | Some vs \<Rightarrow>
       let vs' = filter (\<lambda>x. x \<noteq> v) vs in
       if vs' = [] then AList.delete k al else AList.update k vs' al)"

definition entry_get :: "('k \<times> 'v list) list \<Rightarrow> 'k \<Rightarrow> 'v list" where
  "entry_get al k = (case map_of al k of None \<Rightarrow> [] | Some vs \<Rightarrow> vs)"

section \<open>Operations\<close>

definition add_channel_index ::
    "community_id \<Rightarrow> recipient \<Rightarrow> nfilter list \<Rightarrow> channel_id \<Rightarrow> registry \<Rightarrow> registry" where
  "add_channel_index com v fs ch r = (case extract_kinds_from_filters fs of
     None \<Rightarrow> r\<lparr>channel_wildcard_index := entry_push (com, ch) v (channel_wildcard_index r)\<rparr>
   | Some kinds \<Rightarrow>
       fold (\<lambda>k r. r\<lparr>channel_kind_index :=
               entry_push (com, \<lparr>ik_channel_id = ch, ik_kind = k\<rparr>) v (channel_kind_index r)\<rparr>) kinds r)"

definition add_global_index ::
    "community_id \<Rightarrow> recipient \<Rightarrow> nfilter list \<Rightarrow> registry \<Rightarrow> registry" where
  "add_global_index com v fs r = (case extract_global_p_kind_index_keys com fs of
     Some keys \<Rightarrow>
       fold (\<lambda>key r. r\<lparr>global_p_kind_index := entry_push key v (global_p_kind_index r)\<rparr>) keys r
   | None \<Rightarrow> (case extract_kinds_from_filters fs of
       None \<Rightarrow> r\<lparr>global_wildcard_index := entry_push com v (global_wildcard_index r)\<rparr>
     | Some kinds \<Rightarrow>
         fold (\<lambda>k r. r\<lparr>global_kind_index := entry_push (com, k) v (global_kind_index r)\<rparr>) kinds r))"

definition remove_from_index ::
    "conn_id \<Rightarrow> sub_id \<Rightarrow> nfilter list \<Rightarrow> community_id \<Rightarrow> subscription_scope \<Rightarrow> registry \<Rightarrow> registry" where
  "remove_from_index c s fs com scope r = (case scope of
     Channels chs \<Rightarrow>
       fold (\<lambda>ch r. case extract_kinds_from_filters fs of
           None \<Rightarrow> r\<lparr>channel_wildcard_index := entry_remove (com, ch) (c, s) (channel_wildcard_index r)\<rparr>
         | Some kinds \<Rightarrow>
             fold (\<lambda>k r. r\<lparr>channel_kind_index :=
                     entry_remove (com, \<lparr>ik_channel_id = ch, ik_kind = k\<rparr>) (c, s) (channel_kind_index r)\<rparr>)
               kinds r) chs r
   | Global \<Rightarrow> (case extract_global_p_kind_index_keys com fs of
       Some keys \<Rightarrow>
         fold (\<lambda>key r. r\<lparr>global_p_kind_index := entry_remove key (c, s) (global_p_kind_index r)\<rparr>) keys r
     | None \<Rightarrow> (case extract_kinds_from_filters fs of
         None \<Rightarrow> r\<lparr>global_wildcard_index := entry_remove com (c, s) (global_wildcard_index r)\<rparr>
       | Some kinds \<Rightarrow>
           fold (\<lambda>k r. r\<lparr>global_kind_index := entry_remove (com, k) (c, s) (global_kind_index r)\<rparr>) kinds r)))"

definition remove_subscription ::
    "registry \<Rightarrow> conn_id \<Rightarrow> sub_id \<Rightarrow> registry \<times> removed_subscription option" where
  "remove_subscription r c s = (case map_of (subs r) c of
     None \<Rightarrow> (r, None)
   | Some m \<Rightarrow> (case map_of m s of
       None \<Rightarrow> (r, None)
     | Some (fs, com, scope) \<Rightarrow>
         (remove_from_index c s fs com scope (r\<lparr>subs := AList.update c (AList.delete s m) (subs r)\<rparr>),
          Some \<lparr>rs_community_id = com, rs_scope = scope\<rparr>)))"

definition insert_entry :: "conn_id \<Rightarrow> sub_id \<Rightarrow> sub_entry \<Rightarrow> registry \<Rightarrow> registry" where
  "insert_entry c s e r =
     r\<lparr>subs := AList.update c
        (AList.update s e (case map_of (subs r) c of None \<Rightarrow> [] | Some m \<Rightarrow> m)) (subs r)\<rparr>"

definition register_with_scope ::
    "registry \<Rightarrow> community_id \<Rightarrow> conn_id \<Rightarrow> sub_id \<Rightarrow> nfilter list \<Rightarrow> subscription_scope \<Rightarrow>
     registry \<times> removed_subscription option" where
  "register_with_scope r com c s fs scope =
     (let (r1, removed) = remove_subscription r c s;
          r2 = insert_entry c s (fs, com, scope) r1;
          r3 = (case scope of
                  Channels chs \<Rightarrow> fold (add_channel_index com (c, s) fs) chs r2
                | Global \<Rightarrow> add_global_index com (c, s) fs r2)
      in (r3, removed))"

definition register_scoped ::
    "registry \<Rightarrow> community_id \<Rightarrow> conn_id \<Rightarrow> sub_id \<Rightarrow> nfilter list \<Rightarrow> channel_id option \<Rightarrow>
     registry \<times> removed_subscription option" where
  "register_scoped r com c s fs ch =
     register_with_scope r com c s fs (case ch of Some i \<Rightarrow> Channels [i] | None \<Rightarrow> Global)"

definition register_channels_scoped ::
    "registry \<Rightarrow> community_id \<Rightarrow> conn_id \<Rightarrow> sub_id \<Rightarrow> nfilter list \<Rightarrow> channel_id list \<Rightarrow>
     registry \<times> removed_subscription option" where
  "register_channels_scoped r com c s fs chs = register_with_scope r com c s fs (Channels chs)"

definition remove_connection :: "registry \<Rightarrow> conn_id \<Rightarrow> registry \<times> removed_subscription list" where
  "remove_connection r c = (case map_of (subs r) c of
     None \<Rightarrow> (r, [])
   | Some m \<Rightarrow>
       (fold (\<lambda>(s, fs, com, scope). remove_from_index c s fs com scope) m
          (r\<lparr>subs := AList.delete c (subs r)\<rparr>),
        map (\<lambda>(s, fs, com, scope). \<lparr>rs_community_id = com, rs_scope = scope\<rparr>) m))"

definition revoke_channel_step ::
    "community_id \<Rightarrow> conn_id \<Rightarrow> channel_id \<Rightarrow> sub_id \<Rightarrow>
     registry \<times> channel_subscription_update list \<Rightarrow> registry \<times> channel_subscription_update list" where
  "revoke_channel_step com c ch s = (\<lambda>(r, updates).
     case map_of (subs r) c of
       None \<Rightarrow> (r, updates)
     | Some m \<Rightarrow> (case map_of m s of
         Some (fs, com', Channels chs) \<Rightarrow>
           (let chs' = filter (\<lambda>x. x \<noteq> ch) chs;
                removed = (chs' = []);
                m' = AList.update s (fs, com', Channels chs') m;
                r1 = remove_from_index c s fs com (Channels [ch])
                       (r\<lparr>subs := AList.update c m' (subs r)\<rparr>);
                r2 = (if removed then r1\<lparr>subs := AList.update c (AList.delete s m') (subs r1)\<rparr> else r1)
            in (r2, updates @ [\<lparr>cu_sub_id = s, cu_removed = removed\<rparr>]))
       | _ \<Rightarrow> (r, updates)))"

definition revoked_sub_ids :: "registry \<Rightarrow> community_id \<Rightarrow> conn_id \<Rightarrow> channel_id \<Rightarrow> sub_id list" where
  "revoked_sub_ids r com c ch = (case map_of (subs r) c of
     None \<Rightarrow> []
   | Some m \<Rightarrow>
       map fst (filter (\<lambda>(s, fs, com', scope). com' = com \<and> ch \<in> set (channel_ids scope)) m))"

definition remove_channel_subscriptions_scoped ::
    "registry \<Rightarrow> community_id \<Rightarrow> conn_id \<Rightarrow> channel_id \<Rightarrow> registry \<times> channel_subscription_update list" where
  "remove_channel_subscriptions_scoped r com c ch =
     fold (revoke_channel_step com c ch) (revoked_sub_ids r com c ch) (r, [])"

section \<open>Queries\<close>

definition channel_subscriber_conns_scoped :: "registry \<Rightarrow> community_id \<Rightarrow> channel_id \<Rightarrow> conn_id list" where
  "channel_subscriber_conns_scoped r com ch =
     remdups
       (concat (map (\<lambda>(key, vs). if fst key = com \<and> ik_channel_id (snd key) = ch then map fst vs else [])
                 (channel_kind_index r)) @
        map fst (entry_get (channel_wildcard_index r) (com, ch)))"

definition push_match ::
    "nostr_lib \<Rightarrow> registry \<Rightarrow> community_id \<Rightarrow> stored_event \<Rightarrow> recipient \<Rightarrow> recipient list \<Rightarrow> recipient list" where
  "push_match lib r com se = (\<lambda>(c, s) results.
     case map_of (subs r) c of
       None \<Rightarrow> results
     | Some m \<Rightarrow> (case map_of m s of
         None \<Rightarrow> results
       | Some (fs, com', scope) \<Rightarrow>
           if com' = com \<and> matches_channel scope (se_channel_id se) \<and> filters_match lib fs se
              \<and> (c, s) \<notin> set results
           then results @ [(c, s)] else results))"

definition fan_out_candidates :: "registry \<Rightarrow> community_id \<Rightarrow> stored_event \<Rightarrow> recipient list" where
  "fan_out_candidates r com se = (let k = ev_kind (se_event se) in
     case se_channel_id se of
       Some ch \<Rightarrow>
         entry_get (channel_kind_index r) (com, \<lparr>ik_channel_id = ch, ik_kind = k\<rparr>) @
         entry_get (channel_wildcard_index r) (com, ch)
     | None \<Rightarrow>
         concat (map (\<lambda>p. entry_get (global_p_kind_index r)
                        \<lparr>gp_community_id = com, gp_kind = k, gp_p = p\<rparr>) (event_p_tag_values se)) @
         entry_get (global_kind_index r) (com, k) @
         entry_get (global_wildcard_index r) com)"

definition fan_out_scoped :: "nostr_lib \<Rightarrow> registry \<Rightarrow> community_id \<Rightarrow> stored_event \<Rightarrow> recipient list" where
  "fan_out_scoped lib r com se = fold (push_match lib r com se) (fan_out_candidates r com se) []"

definition get_filters :: "registry \<Rightarrow> conn_id \<Rightarrow> sub_id \<Rightarrow> nfilter list option" where
  "get_filters r c s = (case map_of (subs r) c of
     None \<Rightarrow> None
   | Some m \<Rightarrow> map_option fst (map_of m s))"

definition total_subscriptions :: "registry \<Rightarrow> nat" where
  "total_subscriptions r = sum_list (map (\<lambda>(c, m). length m) (subs r))"

definition total_connections :: "registry \<Rightarrow> nat" where
  "total_connections r = length (subs r)"

definition per_community_subscriptions :: "registry \<Rightarrow> (community_id \<times> nat) list" where
  "per_community_subscriptions r =
     fold (\<lambda>(c, m). fold (\<lambda>(s, fs, com, scope) counts.
             AList.update com (Suc (case map_of counts com of None \<Rightarrow> 0 | Some n \<Rightarrow> n)) counts) m)
       (subs r) []"

end
