(* ===== verification/Read_Gates.thy ===== *)
theory Read_Gates
  imports Subscriptions
begin

text \<open>
  The pure part of the read path, \<open>crates/punks-relay/src/handlers/req.rs\<close>: the gates a
  request's filters pass before any query runs, the per-event visibility check every read
  surface applies to a row, the channel scope of a request, and the translation of a filter to
  a database query.

  A single-letter tag key is a character and \<open>generic_tags\<close> an association list with distinct
  keys, whose values are the distinct strings of the set, in order.  \<open>DateTime::from_timestamp\<close> of the \<open>chrono\<close> crate
  is the parameter \<open>from_ts\<close> of the query translation.
\<close>

section \<open>Gates on filters\<close>

definition MAX_SUBSCRIPTIONS :: nat where "MAX_SUBSCRIPTIONS = 1024"
definition MAX_EXPLICIT_CHANNEL_VALUES :: nat where "MAX_EXPLICIT_CHANNEL_VALUES = 128"
definition DEFAULT_MAX_PAGE_LIMIT :: nat where "DEFAULT_MAX_PAGE_LIMIT = 1000"
definition SEARCH_PAGE_SIZE :: nat where "SEARCH_PAGE_SIZE = 100"
definition MAX_SEARCH_PAGES :: nat where
  "MAX_SEARCH_PAGES = (DEFAULT_MAX_PAGE_LIMIT + SEARCH_PAGE_SIZE - 1) div SEARCH_PAGE_SIZE"
definition COUNT_FALLBACK_CANDIDATE_LIMIT :: nat where "COUNT_FALLBACK_CANDIDATE_LIMIT = 5000"

definition tag_values :: "nfilter \<Rightarrow> char \<Rightarrow> string list option" where
  "tag_values f c = map_of (f_generic_tags f) c"

definition none_or :: "('a \<Rightarrow> bool) \<Rightarrow> 'a option \<Rightarrow> bool" where
  "none_or P x = (case x of None \<Rightarrow> True | Some v \<Rightarrow> P v)"

definition some_and :: "('a \<Rightarrow> bool) \<Rightarrow> 'a option \<Rightarrow> bool" where
  "some_and P x = (case x of None \<Rightarrow> False | Some v \<Rightarrow> P v)"

definition all_equal_to :: "string \<Rightarrow> string list \<Rightarrow> bool" where
  "all_equal_to me vs = (vs \<noteq> [] \<and> list_all (\<lambda>v. v = me) vs)"

definition authors_are_self :: "nostr_lib \<Rightarrow> string \<Rightarrow> nfilter \<Rightarrow> bool" where
  "authors_are_self lib me f = some_and
     (\<lambda>authors. authors \<noteq> [] \<and>
        list_all (\<lambda>a. eq_ignore_ascii_case (pubkey_to_hex lib a) me) authors) (f_authors f)"

definition p_gated_filter_ok :: "string \<Rightarrow> nfilter \<Rightarrow> bool" where
  "p_gated_filter_ok me f =
     (if \<not> none_or (list_ex (\<lambda>k. k \<in> set P_GATED_KINDS)) (f_kinds f) then True
      else
        let explicitly_no_ids_exemption =
              some_and (list_ex (\<lambda>k. k = KIND_DM_VISIBILITY \<or> k = KIND_AGENT_TURN_METRIC)) (f_kinds f)
        in if \<not> explicitly_no_ids_exemption \<and> some_and (\<lambda>ids. ids \<noteq> []) (f_ids f) then True
           else some_and (all_equal_to me) (tag_values f (CHR ''p'')))"

definition p_gated_filters_authorized :: "nfilter list \<Rightarrow> string \<Rightarrow> bool" where
  "p_gated_filters_authorized fs me = list_all (p_gated_filter_ok me) fs"

definition engram_filter_ok :: "nostr_lib \<Rightarrow> string \<Rightarrow> nfilter \<Rightarrow> bool" where
  "engram_filter_ok lib me f =
     (if some_and (\<lambda>ids. ids \<noteq> []) (f_ids f) then True
      else if \<not> none_or (list_ex (\<lambda>k. k = KIND_AGENT_ENGRAM)) (f_kinds f) then True
      else if authors_are_self lib me f then True
      else some_and (all_equal_to me) (tag_values f (CHR ''p'')))"

definition engram_filters_authorized :: "nostr_lib \<Rightarrow> nfilter list \<Rightarrow> string \<Rightarrow> bool" where
  "engram_filters_authorized lib fs me = list_all (engram_filter_ok lib me) fs"

definition filter_can_match_author_only_kinds :: "nfilter \<Rightarrow> bool" where
  "filter_can_match_author_only_kinds f =
     none_or (list_ex (\<lambda>k. k \<in> set AUTHOR_ONLY_KINDS)) (f_kinds f)"

definition filter_can_match_shared_gated_kinds :: "nfilter \<Rightarrow> bool" where
  "filter_can_match_shared_gated_kinds f =
     none_or (list_ex (\<lambda>k. k \<in> set SHARED_GATED_KINDS)) (f_kinds f)"

definition filter_can_match_result_gated_kinds :: "nfilter \<Rightarrow> bool" where
  "filter_can_match_result_gated_kinds f =
     none_or (list_ex (\<lambda>k. k \<in> set RESULT_GATED_KINDS)) (f_kinds f)"

definition result_gated_count_safe_for_pushdown :: "nfilter \<Rightarrow> string \<Rightarrow> bool" where
  "result_gated_count_safe_for_pushdown f me = some_and (all_equal_to me) (tag_values f (CHR ''p''))"

definition author_only_filter_ok :: "nostr_lib \<Rightarrow> string \<Rightarrow> nfilter \<Rightarrow> bool" where
  "author_only_filter_ok lib me f =
     (if \<not> some_and (\<lambda>ks. ks \<noteq> [] \<and> list_all (\<lambda>k. k \<in> set AUTHOR_ONLY_KINDS) ks) (f_kinds f)
      then True else authors_are_self lib me f)"

definition author_only_filters_authorized :: "nostr_lib \<Rightarrow> nfilter list \<Rightarrow> string \<Rightarrow> bool" where
  "author_only_filters_authorized lib fs me = list_all (author_only_filter_ok lib me) fs"

section \<open>The gate on rows\<close>

definition is_author_only_event :: "event \<Rightarrow> bytes \<Rightarrow> bool" where
  "is_author_only_event e requester =
     (ev_kind e \<in> set AUTHOR_ONLY_KINDS \<and> ev_pubkey e \<noteq> requester)"

definition event_visible_to_reader :: "nostr_lib \<Rightarrow> event \<Rightarrow> bytes \<Rightarrow> bool" where
  "event_visible_to_reader lib e requester =
     (if is_author_only_event e requester then False
      else if is_unshared_gated_event e requester then False
      else if \<not> reader_authorized_for_event e (hex_encode lib requester) then False
      else True)"

section \<open>The channel scope of a request\<close>

text \<open>The budget is counted before any value is parsed; the count is a \<open>usize\<close> and its sum is
  checked.\<close>

fun count_h_values :: "nat \<Rightarrow> nfilter list \<Rightarrow> (unit, nat) result" where
  "count_h_values n [] = Inr n"
| "count_h_values n (f # fs) =
     (let additional = (case tag_values f (CHR ''h'') of None \<Rightarrow> 0 | Some vs \<Rightarrow> length vs) in
      if n + additional < 2 ^ 64 then count_h_values (n + additional) fs else Inl ())"

fun collect_channel_ids :: "nostr_lib \<Rightarrow> channel_id list \<Rightarrow> nfilter list \<Rightarrow> channel_id list option" where
  "collect_channel_ids lib acc [] = Some acc"
| "collect_channel_ids lib acc (f # fs) = (case tag_values f (CHR ''h'') of
     None \<Rightarrow> None
   | Some vs \<Rightarrow> collect_channel_ids lib (push_new acc (List.map_filter (uuid_parse lib) vs)) fs)"

definition extract_channel_ids_from_filters :: "nostr_lib \<Rightarrow> nfilter list \<Rightarrow> channel_id list option" where
  "extract_channel_ids_from_filters lib fs = collect_channel_ids lib [] fs"

definition extract_channel_ids_from_filters_limited ::
    "nostr_lib \<Rightarrow> nfilter list \<Rightarrow> (unit, channel_id list option) result" where
  "extract_channel_ids_from_filters_limited lib fs = (case count_h_values 0 fs of
     Inl e \<Rightarrow> Inl e
   | Inr n \<Rightarrow>
       if n > MAX_EXPLICIT_CHANNEL_VALUES then Inl ()
       else Inr (extract_channel_ids_from_filters lib fs))"

text \<open>The inner loop of \<open>extract_channel_id_from_filters\<close> over the values of one \<open>h\<close> entry: the
  outer \<open>None\<close> is its early return, otherwise the flag and the id found so far.\<close>

fun scan_h_values ::
    "nostr_lib \<Rightarrow> bool \<Rightarrow> channel_id option \<Rightarrow> string list \<Rightarrow> (bool \<times> channel_id option) option" where
  "scan_h_values lib seen found [] = Some (seen, found)"
| "scan_h_values lib seen found (v # vs) = (case uuid_parse lib v of
     None \<Rightarrow> scan_h_values lib seen found vs
   | Some i \<Rightarrow> (case found of
       Some existing \<Rightarrow> if existing \<noteq> i then None else scan_h_values lib True (Some i) vs
     | None \<Rightarrow> scan_h_values lib True (Some i) vs))"

fun single_channel :: "nostr_lib \<Rightarrow> channel_id option \<Rightarrow> nfilter list \<Rightarrow> channel_id option" where
  "single_channel lib found [] = found"
| "single_channel lib found (f # fs) =
     (case scan_h_values lib False found
             (case tag_values f (CHR ''h'') of None \<Rightarrow> [] | Some vs \<Rightarrow> vs) of
        None \<Rightarrow> None
      | Some (has_channel, found') \<Rightarrow>
          if \<not> has_channel then None else single_channel lib found' fs)"

definition extract_channel_id_from_filters :: "nostr_lib \<Rightarrow> nfilter list \<Rightarrow> channel_id option" where
  "extract_channel_id_from_filters lib fs = single_channel lib None fs"

definition extract_channel_id_from_filter :: "nostr_lib \<Rightarrow> nfilter \<Rightarrow> channel_id option" where
  "extract_channel_id_from_filter lib f = (case tag_values f (CHR ''h'') of
     None \<Rightarrow> None
   | Some vs \<Rightarrow> if length vs \<noteq> 1 then None else uuid_parse lib (hd vs))"

definition filters_are_nip43_membership_only :: "nfilter list \<Rightarrow> bool" where
  "filters_are_nip43_membership_only fs =
     (fs \<noteq> [] \<and> list_all (\<lambda>f. some_and
        (\<lambda>ks. ks \<noteq> [] \<and> list_all (\<lambda>k. k = KIND_NIP43_MEMBERSHIP_LIST) ks) (f_kinds f)) fs)"

definition resolve_request_local_access ::
    "channel_id list \<Rightarrow> channel_id \<Rightarrow> bool \<Rightarrow> bool option \<Rightarrow> channel_id list \<times> bool" where
  "resolve_request_local_access accessible ch token_allows db_is_member =
     (if \<not> token_allows then (accessible, False)
      else if ch \<in> set accessible then (accessible, True)
      else (case db_is_member of
         Some True \<Rightarrow> (accessible @ [ch], True)
       | _ \<Rightarrow> (accessible, False)))"

datatype search_scope =
    AnyScope
  | ChannelLessOnly
  | SearchChannels "channel_id list"
  | ChannelsOrChannelLess "channel_id list"

definition build_search_channel_scope_filter :: "channel_id list \<Rightarrow> bool \<Rightarrow> search_scope option" where
  "build_search_channel_scope_filter accessible include_global =
     (if accessible = [] then (if include_global then Some ChannelLessOnly else None)
      else Some (if include_global then ChannelsOrChannelLess accessible else SearchChannels accessible))"

section \<open>Database queries\<close>

text \<open>\<open>EventQuery\<close> of \<open>crates/punks-db/src/event.rs\<close>.  A cast \<open>as i64\<close> of an unsigned value
  keeps the low 64 bits.\<close>

definition as_i64 :: "nat \<Rightarrow> int" where
  "as_i64 n = sint (of_nat n :: 64 word)"

record 'd event_query =
  q_community_id :: community_id
  q_channel_id :: "channel_id option"
  q_kinds :: "kind list option"
  q_pubkey :: "bytes option"
  q_since :: "'d option"
  q_until :: "'d option"
  q_limit :: "int option"
  q_offset :: "int option"
  q_p_tag_hex :: "string option"
  q_d_tag :: "string option"
  q_d_tags :: "string list option"
  q_before_id :: "bytes option"
  q_global_only :: bool
  q_authors :: "bytes list option"
  q_ids :: "bytes list option"
  q_e_tags :: "string list option"
  q_channel_ids :: "channel_id list option"
  q_channel_ids_include_global :: bool
  q_max_limit :: "int option"
  q_shared_gated_reader :: "bytes option"

definition for_community :: "community_id \<Rightarrow> 'd event_query" where
  "for_community com =
     \<lparr>q_community_id = com, q_channel_id = None, q_kinds = None, q_pubkey = None, q_since = None,
      q_until = None, q_limit = None, q_offset = None, q_p_tag_hex = None, q_d_tag = None,
      q_d_tags = None, q_before_id = None, q_global_only = False, q_authors = None, q_ids = None,
      q_e_tags = None, q_channel_ids = None, q_channel_ids_include_global = True,
      q_max_limit = None, q_shared_gated_reader = None\<rparr>"

definition non_empty :: "'a list option \<Rightarrow> 'a list option" where
  "non_empty x = (case x of None \<Rightarrow> None | Some vs \<Rightarrow> if vs = [] then None else Some vs)"

definition the_only :: "'a list option \<Rightarrow> 'a option" where
  "the_only x = (case x of None \<Rightarrow> None | Some vs \<Rightarrow> if length vs = 1 then Some (hd vs) else None)"

definition nip33_only :: "nfilter \<Rightarrow> bool" where
  "nip33_only f = some_and (\<lambda>ks. ks \<noteq> [] \<and> list_all is_parameterized_replaceable ks) (f_kinds f)"

definition filter_to_query_params ::
    "(int \<Rightarrow> 'd option) \<Rightarrow> nfilter \<Rightarrow> channel_id option \<Rightarrow> community_id \<Rightarrow> 'd event_query" where
  "filter_to_query_params from_ts f ch com =
     (for_community com)
       \<lparr>q_channel_id := ch,
        q_kinds := f_kinds f,
        q_pubkey := the_only (f_authors f),
        q_since := Option.bind (f_since f) (\<lambda>s. from_ts (as_i64 s)),
        q_until := Option.bind (f_until f) (\<lambda>u. from_ts (as_i64 u)),
        q_limit := Some (case f_limit f of
            Some l \<Rightarrow> min (as_i64 l) (int DEFAULT_MAX_PAGE_LIMIT)
          | None \<Rightarrow> int DEFAULT_MAX_PAGE_LIMIT),
        q_p_tag_hex := the_only (tag_values f (CHR ''p'')),
        q_d_tag := (if nip33_only f then the_only (tag_values f (CHR ''d'')) else None),
        q_d_tags := (if nip33_only f
           then (case tag_values f (CHR ''d'') of
                   Some vs \<Rightarrow> if length vs > 1 then Some vs else None
                 | None \<Rightarrow> None)
           else None),
        q_authors := (case f_authors f of
            Some as \<Rightarrow> if length as = 1 then None else non_empty (Some as)
          | None \<Rightarrow> None),
        q_ids := non_empty (f_ids f),
        q_e_tags := non_empty (tag_values f (CHR ''e''))\<rparr>"

definition build_event_query_from_filter ::
    "nostr_lib \<Rightarrow> (int \<Rightarrow> 'd option) \<Rightarrow> nfilter \<Rightarrow> community_id \<Rightarrow> 'd event_query" where
  "build_event_query_from_filter lib from_ts f com =
     filter_to_query_params from_ts f (extract_channel_id_from_filter lib f) com"

definition apply_channel_scope_to_query ::
    "nostr_lib \<Rightarrow> nfilter \<Rightarrow> channel_id option \<Rightarrow> channel_id list \<Rightarrow> 'd event_query \<Rightarrow> 'd event_query" where
  "apply_channel_scope_to_query lib f ch accessible q =
     (if ch \<noteq> None then q
      else (case tag_values f (CHR ''h'') of
         Some vs \<Rightarrow>
           q\<lparr>q_channel_ids := Some (filter (\<lambda>c. c \<in> set accessible) (List.map_filter (uuid_parse lib) vs)),
             q_channel_ids_include_global := False\<rparr>
       | None \<Rightarrow> q\<lparr>q_channel_ids := Some accessible\<rparr>))"

definition apply_count_fallback_limit :: "'d event_query \<Rightarrow> 'd event_query" where
  "apply_count_fallback_limit q =
     (let fetch_limit = int COUNT_FALLBACK_CANDIDATE_LIMIT + 1 in
      q\<lparr>q_limit := Some fetch_limit, q_max_limit := Some fetch_limit\<rparr>)"

definition count_fallback_exceeded :: "nat \<Rightarrow> bool" where
  "count_fallback_exceeded n = (n > COUNT_FALLBACK_CANDIDATE_LIMIT)"

definition pushable_tag :: "bool \<Rightarrow> char \<times> string list \<Rightarrow> bool" where
  "pushable_tag is_nip33_only = (\<lambda>(key, values).
     if key = CHR ''h'' then True
     else if key = CHR ''p'' then length values \<le> 1
     else if key = CHR ''d'' then values = [] \<or> is_nip33_only
     else if key = CHR ''e'' then True
     else values = [])"

definition filter_fully_pushable :: "nfilter \<Rightarrow> bool" where
  "filter_fully_pushable f =
     (list_all (pushable_tag (nip33_only f)) (f_generic_tags f) \<and> f_search f = None)"

section \<open>What the gates guarantee\<close>

lemma some_and_iff: "some_and P x \<longleftrightarrow> (\<exists>v. x = Some v \<and> P v)"
  by (auto simp: some_and_def split: option.splits)

lemma none_or_iff: "none_or P x \<longleftrightarrow> (\<forall>v. x = Some v \<longrightarrow> P v)"
  by (auto simp: none_or_def split: option.splits)

lemmas gate_simps = some_and_iff none_or_iff all_equal_to_def list_all_iff list_ex_iff

text \<open>A filter whose \<open>#p\<close> values are all the reader's key only matches events tagged with it.\<close>

lemma pinned_p_matches_own:
  assumes "some_and (all_equal_to me) (tag_values f (CHR ''p''))"
    and "filter_match_one lib f se"
  shows "has_tag_value (se_event se) ''p'' me"
proof -
  from assms(1) obtain vs where vs: "map_of (f_generic_tags f) (CHR ''p'') = Some vs"
    and me: "\<forall>v \<in> set vs. v = me"
    by (auto simp: gate_simps tag_values_def)
  from filter_match_one_tag [OF assms(2) map_of_SomeD [OF vs]] me
  show ?thesis by auto
qed

lemma filter_match_one_author:
  "filter_match_one lib f se \<Longrightarrow> f_authors f = Some as \<Longrightarrow> ev_pubkey (se_event se) \<in> set as"
  by (auto simp: filter_match_one_def Let_def)

lemma self_authors_match_own:
  assumes "authors_are_self lib me f" and "filter_match_one lib f se"
  shows "eq_ignore_ascii_case (pubkey_to_hex lib (ev_pubkey (se_event se))) me"
  using assms filter_match_one_author [OF assms(2)]
  by (auto simp: authors_are_self_def gate_simps)

lemma reader_authorized_iff:
  "reader_authorized_for_event e me \<longleftrightarrow>
     ev_kind e \<in> set RESULT_GATED_KINDS \<longrightarrow> has_tag_value e ''p'' me"
  by (auto simp: reader_authorized_for_event_def has_tag_value_def RESULT_GATED_KINDS_def)

lemma event_visible_iff:
  "event_visible_to_reader lib e pk \<longleftrightarrow>
     (ev_kind e \<in> set AUTHOR_ONLY_KINDS \<longrightarrow> ev_pubkey e = pk) \<and>
     (ev_kind e \<in> set SHARED_GATED_KINDS \<longrightarrow> ev_pubkey e = pk \<or> event_is_shared e) \<and>
     (ev_kind e \<in> set RESULT_GATED_KINDS \<longrightarrow> has_tag_value e ''p'' (hex_encode lib pk))"
  by (auto simp: event_visible_to_reader_def is_author_only_event_def is_unshared_gated_event_def
        is_shared_gated_kind_def reader_authorized_iff)

text \<open>The gated classes are checked in sequence but never overlap, so a row is subject to at most
  one of the three checks.\<close>

definition ids_exempt :: "nfilter \<Rightarrow> bool" where
  "ids_exempt f =
     (some_and (\<lambda>ids. ids \<noteq> []) (f_ids f) \<and>
      \<not> some_and (list_ex (\<lambda>k. k \<in> set RESULT_GATED_KINDS)) (f_kinds f))"

lemma p_gated_filter_sound:
  assumes "p_gated_filter_ok me f" and "filter_match_one lib f se"
    and "ev_kind (se_event se) \<in> set P_GATED_KINDS" and "\<not> ids_exempt f"
  shows "has_tag_value (se_event se) ''p'' me"
proof -
  have "none_or (list_ex (\<lambda>k. k \<in> set P_GATED_KINDS)) (f_kinds f)"
    using filter_match_one_kind [OF assms(2)] assms(3) by (auto simp: gate_simps)
  with assms(1,4) have "some_and (all_equal_to me) (tag_values f (CHR ''p''))"
    by (auto simp: p_gated_filter_ok_def ids_exempt_def RESULT_GATED_KINDS_def Let_def split: if_splits)
  then show ?thesis by (rule pinned_p_matches_own [OF _ assms(2)])
qed

lemma engram_filter_sound:
  assumes "engram_filter_ok lib me f" and "filter_match_one lib f se"
    and "ev_kind (se_event se) = KIND_AGENT_ENGRAM" and "f_ids f = None \<or> f_ids f = Some []"
  shows "eq_ignore_ascii_case (pubkey_to_hex lib (ev_pubkey (se_event se))) me \<or>
    has_tag_value (se_event se) ''p'' me"
proof -
  have "none_or (list_ex (\<lambda>k. k = KIND_AGENT_ENGRAM)) (f_kinds f)"
    using filter_match_one_kind [OF assms(2)] assms(3) by (auto simp: gate_simps)
  with assms(1,4) have "authors_are_self lib me f \<or>
      some_and (all_equal_to me) (tag_values f (CHR ''p''))"
    by (auto simp: engram_filter_ok_def some_and_iff split: if_splits)
  then show ?thesis using self_authors_match_own pinned_p_matches_own assms(2) by blast
qed

lemma author_only_filter_sound:
  assumes "author_only_filter_ok lib me f" and "filter_match_one lib f se"
    and "f_kinds f = Some ks" and "set ks \<subseteq> set AUTHOR_ONLY_KINDS"
  shows "eq_ignore_ascii_case (pubkey_to_hex lib (ev_pubkey (se_event se))) me"
proof -
  have "ks \<noteq> []" using filter_match_one_kind [OF assms(2,3)] by auto
  with assms(1,3,4) have "authors_are_self lib me f"
    by (auto simp: author_only_filter_ok_def gate_simps split: if_splits)
  then show ?thesis by (rule self_authors_match_own [OF _ assms(2)])
qed

section \<open>What the channel scope guarantees\<close>

lemma collect_channel_ids_spec:
  "collect_channel_ids lib acc fs =
     (if \<exists>f \<in> set fs. tag_values f (CHR ''h'') = None then None
      else Some (push_new acc
        (concat (map (\<lambda>f. List.map_filter (uuid_parse lib) (the (tag_values f (CHR ''h'')))) fs))))"
  by (induction fs arbitrary: acc) (auto simp: push_new_append split: option.splits)

lemma extract_channel_ids_distinct:
  "extract_channel_ids_from_filters lib fs = Some chs \<Longrightarrow> distinct chs"
  by (auto simp: extract_channel_ids_from_filters_def collect_channel_ids_spec distinct_push_new
      split: if_splits)

lemma extract_channel_ids_set:
  assumes "extract_channel_ids_from_filters lib fs = Some chs"
  shows "ch \<in> set chs \<longleftrightarrow> (\<exists>f \<in> set fs. \<exists>vs. tag_values f (CHR ''h'') = Some vs \<and>
            (\<exists>v \<in> set vs. uuid_parse lib v = Some ch))"
proof -
  from assms have "\<forall>f \<in> set fs. tag_values f (CHR ''h'') \<noteq> None"
    and chs: "chs = push_new []
        (concat (map (\<lambda>f. List.map_filter (uuid_parse lib) (the (tag_values f (CHR ''h'')))) fs))"
    by (auto simp: extract_channel_ids_from_filters_def collect_channel_ids_spec split: if_splits)
  moreover from this(1) have "tag_values f (CHR ''h'') = Some (the (tag_values f (CHR ''h'')))"
    if "f \<in> set fs" for f using that by force
  ultimately show ?thesis by (auto simp: set_map_filter) (metis option.sel)+
qed

text \<open>When the gates are skipped because the request names one channel, the subscription is
  registered for exactly that channel.\<close>

abbreviation parsed_h :: "nostr_lib \<Rightarrow> string list \<Rightarrow> channel_id list" where
  "parsed_h lib vs \<equiv> List.map_filter (uuid_parse lib) vs"

lemma scan_h_values_spec:
  "scan_h_values lib seen found vs = Some (seen', found') \<Longrightarrow>
     seen' = (seen \<or> parsed_h lib vs \<noteq> []) \<and> set (parsed_h lib vs) \<subseteq> set_option found' \<and>
     (found = None \<or> found' = found)"
proof (induction vs arbitrary: seen found)
  case (Cons v vs)
  then show ?case
    by (fastforce simp: List.map_filter_simps split: option.splits if_splits)
qed (simp add: List.map_filter_simps)

lemma single_channel_spec:
  "single_channel lib found fs = Some ch \<Longrightarrow>
     set_option found \<subseteq> {ch} \<and>
     (\<forall>f \<in> set fs. \<exists>vs. tag_values f (CHR ''h'') = Some vs \<and> set (parsed_h lib vs) = {ch})"
proof (induction fs arbitrary: found)
  case (Cons f fs)
  let ?vs = "case tag_values f (CHR ''h'') of None \<Rightarrow> [] | Some vs \<Rightarrow> vs"
  from Cons.prems obtain found' where scan: "scan_h_values lib False found ?vs = Some (True, found')"
    and rest: "single_channel lib found' fs = Some ch"
    by (auto split: option.splits if_splits prod.splits)
  note step = scan_h_values_spec [OF scan] and IH = Cons.IH [OF rest]
  from step have "parsed_h lib ?vs \<noteq> []" by simp
  moreover from step IH have "set (parsed_h lib ?vs) \<subseteq> {ch}" by auto
  ultimately have "set (parsed_h lib ?vs) = {ch}"
    by (metis set_empty subset_singleton_iff)
  then have "\<exists>vs. tag_values f (CHR ''h'') = Some vs \<and> set (parsed_h lib vs) = {ch}"
    by (auto simp: List.map_filter_simps split: option.splits)
  with IH step show ?case by auto
qed simp

lemma single_channel_scope:
  assumes "extract_channel_id_from_filters lib fs = Some ch"
  shows "extract_channel_ids_from_filters lib fs = Some [ch]"
proof -
  note one = single_channel_spec [OF assms [unfolded extract_channel_id_from_filters_def]]
  have "fs \<noteq> []" using assms by (auto simp: extract_channel_id_from_filters_def)
  from one have "\<not> (\<exists>f \<in> set fs. tag_values f (CHR ''h'') = None)" by fastforce
  then obtain chs where chs: "extract_channel_ids_from_filters lib fs = Some chs"
    by (simp add: extract_channel_ids_from_filters_def collect_channel_ids_spec)
  have "c \<in> set chs \<longleftrightarrow> c = ch" for c
    using one \<open>fs \<noteq> []\<close> by (fastforce simp: extract_channel_ids_set [OF chs] set_map_filter neq_Nil_conv)
  then have "set chs = {ch}" by auto
  with chs extract_channel_ids_distinct [OF chs] show ?thesis
    by (simp add: distinct_set_singleton)
qed

text \<open>Scoping loses no delivery: an event of a channel that some filter of a channel-scoped request
  matches belongs to one of the extracted channels, provided the event's own \<open>h\<close> tags, which
  are authoritative in matching, name the channel it is stored under.\<close>

lemma channel_scope_covers:
  assumes "extract_channel_ids_from_filters lib fs = Some chs"
    and "filters_match lib fs se" and "se_channel_id se = Some ch"
    and "uuid_parse lib (uuid_to_string lib ch) = Some ch"
    and "\<And>v. has_tag_value (se_event se) ''h'' v \<Longrightarrow> uuid_parse lib v = Some ch"
  shows "ch \<in> set chs"
proof -
  from assms(2) obtain f where f: "f \<in> set fs" "filter_match_one lib f se"
    by (auto simp: filters_match_def)
  with assms(1) obtain vs where vs: "tag_values f (CHR ''h'') = Some vs"
    by (auto simp: extract_channel_ids_from_filters_def collect_channel_ids_spec split: if_splits)
  then have "(CHR ''h'', vs) \<in> set (f_generic_tags f)"
    by (auto simp: tag_values_def dest: map_of_SomeD)
  with f have "h_constraint_spec lib se vs"
    by (auto simp: filter_match_one_def Let_def list_all_iff generic_tag_ok_h [symmetric])
  with assms(3-5) have "\<exists>v \<in> set vs. uuid_parse lib v = Some ch"
    by (auto simp: h_constraint_spec_def split: if_splits)
  with f(1) vs show ?thesis by (auto simp: extract_channel_ids_set [OF assms(1)])
qed

lemma resolve_request_local_access_spec:
  "set (fst (resolve_request_local_access acc ch allows dbm)) =
     set acc \<union> (if allows \<and> dbm = Some True then {ch} else {})"
  "snd (resolve_request_local_access acc ch allows dbm) \<longleftrightarrow>
     allows \<and> ch \<in> set (fst (resolve_request_local_access acc ch allows dbm))"
  by (auto simp: resolve_request_local_access_def split: option.splits bool.splits)

end
