(* ===== verification/Subscription_Routing.thy ===== *)
theory Subscription_Routing
  imports Subscriptions
begin

text \<open>
  Correctness of the subscription registry: the five indexes seen as one, the invariant that
  ties them to the subscription table, its preservation by every operation, and the
  equivalence of index-driven fan-out with a linear scan.  The contract that delivery code
  relies on is the locale \<open>subscription_routing\<close>, interpreted on the model below.
\<close>

section \<open>One view of the five indexes\<close>

datatype idx_key =
    IxChannelKind community_id channel_id kind
  | IxChannelWild community_id channel_id
  | IxGlobalKind community_id kind
  | IxGlobalP global_p_key
  | IxGlobalWild community_id

fun idx_get :: "registry \<Rightarrow> idx_key \<Rightarrow> recipient list" where
  "idx_get r (IxChannelKind com ch k) =
     entry_get (channel_kind_index r) (com, \<lparr>ik_channel_id = ch, ik_kind = k\<rparr>)"
| "idx_get r (IxChannelWild com ch) = entry_get (channel_wildcard_index r) (com, ch)"
| "idx_get r (IxGlobalKind com k) = entry_get (global_kind_index r) (com, k)"
| "idx_get r (IxGlobalP key) = entry_get (global_p_kind_index r) key"
| "idx_get r (IxGlobalWild com) = entry_get (global_wildcard_index r) com"

fun idx_push :: "recipient \<Rightarrow> idx_key \<Rightarrow> registry \<Rightarrow> registry" where
  "idx_push v (IxChannelKind com ch k) r =
     r\<lparr>channel_kind_index := entry_push (com, \<lparr>ik_channel_id = ch, ik_kind = k\<rparr>) v (channel_kind_index r)\<rparr>"
| "idx_push v (IxChannelWild com ch) r =
     r\<lparr>channel_wildcard_index := entry_push (com, ch) v (channel_wildcard_index r)\<rparr>"
| "idx_push v (IxGlobalKind com k) r =
     r\<lparr>global_kind_index := entry_push (com, k) v (global_kind_index r)\<rparr>"
| "idx_push v (IxGlobalP key) r =
     r\<lparr>global_p_kind_index := entry_push key v (global_p_kind_index r)\<rparr>"
| "idx_push v (IxGlobalWild com) r =
     r\<lparr>global_wildcard_index := entry_push com v (global_wildcard_index r)\<rparr>"

fun idx_remove :: "recipient \<Rightarrow> idx_key \<Rightarrow> registry \<Rightarrow> registry" where
  "idx_remove v (IxChannelKind com ch k) r =
     r\<lparr>channel_kind_index := entry_remove (com, \<lparr>ik_channel_id = ch, ik_kind = k\<rparr>) v (channel_kind_index r)\<rparr>"
| "idx_remove v (IxChannelWild com ch) r =
     r\<lparr>channel_wildcard_index := entry_remove (com, ch) v (channel_wildcard_index r)\<rparr>"
| "idx_remove v (IxGlobalKind com k) r =
     r\<lparr>global_kind_index := entry_remove (com, k) v (global_kind_index r)\<rparr>"
| "idx_remove v (IxGlobalP key) r =
     r\<lparr>global_p_kind_index := entry_remove key v (global_p_kind_index r)\<rparr>"
| "idx_remove v (IxGlobalWild com) r =
     r\<lparr>global_wildcard_index := entry_remove com v (global_wildcard_index r)\<rparr>"

text \<open>The keys under which a subscription is indexed.\<close>

definition channel_keys :: "community_id \<Rightarrow> nfilter list \<Rightarrow> channel_id \<Rightarrow> idx_key list" where
  "channel_keys com fs ch = (case extract_kinds_from_filters fs of
     None \<Rightarrow> [IxChannelWild com ch]
   | Some ks \<Rightarrow> map (IxChannelKind com ch) ks)"

definition global_keys :: "community_id \<Rightarrow> nfilter list \<Rightarrow> idx_key list" where
  "global_keys com fs = (case extract_global_p_kind_index_keys com fs of
     Some keys \<Rightarrow> map IxGlobalP keys
   | None \<Rightarrow> (case extract_kinds_from_filters fs of
       None \<Rightarrow> [IxGlobalWild com]
     | Some ks \<Rightarrow> map (IxGlobalKind com) ks))"

definition index_keys :: "community_id \<Rightarrow> nfilter list \<Rightarrow> subscription_scope \<Rightarrow> idx_key list" where
  "index_keys com fs scope = (case scope of
     Channels chs \<Rightarrow> concat (map (channel_keys com fs) chs)
   | Global \<Rightarrow> global_keys com fs)"

lemma entry_get_push:
  "set (entry_get (entry_push k v al) k') = set (entry_get al k') \<union> (if k' = k then {v} else {})"
  by (auto simp: entry_get_def entry_push_def split: option.splits)

lemma entry_get_remove:
  "set (entry_get (entry_remove k v al) k') = set (entry_get al k') - (if k' = k then {v} else {})"
  by (auto simp: entry_get_def entry_remove_def Let_def filter_empty_conv split: option.splits)

lemma idx_get_push:
  "set (idx_get (idx_push v key r) key') = set (idx_get r key') \<union> (if key' = key then {v} else {})"
  by (cases key; cases key') (simp_all add: entry_get_push)

lemma idx_get_remove:
  "set (idx_get (idx_remove v key r) key') = set (idx_get r key') - (if key' = key then {v} else {})"
  by (cases key; cases key') (simp_all add: entry_get_remove)

lemma subs_idx_push [simp]: "subs (idx_push v key r) = subs r"
  by (cases key) simp_all

lemma subs_idx_remove [simp]: "subs (idx_remove v key r) = subs r"
  by (cases key) simp_all

lemma subs_fold_push [simp]: "subs (fold (idx_push v) keys r) = subs r"
  by (induction keys arbitrary: r) simp_all

lemma subs_fold_remove [simp]: "subs (fold (idx_remove v) keys r) = subs r"
  by (induction keys arbitrary: r) simp_all

lemma idx_get_fold_push:
  "set (idx_get (fold (idx_push v) keys r) key) =
     set (idx_get r key) \<union> (if key \<in> set keys then {v} else {})"
  by (induction keys arbitrary: r) (auto simp: idx_get_push)

lemma idx_get_fold_remove:
  "set (idx_get (fold (idx_remove v) keys r) key) =
     set (idx_get r key) - (if key \<in> set keys then {v} else {})"
  by (induction keys arbitrary: r) (auto simp: idx_get_remove)

lemma idx_get_subs_update [simp]: "idx_get (r\<lparr>subs := x\<rparr>) key = idx_get r key"
  by (cases key) simp_all

lemma fold_concat_map: "fold f (concat (map g xs)) r = fold (\<lambda>x. fold f (g x)) xs r"
  by (induction xs arbitrary: r) simp_all

lemmas idx_ops_fun =
  idx_push.simps [abs_def] idx_remove.simps [abs_def]

lemma add_channel_index_eq:
  "add_channel_index com v fs ch = fold (idx_push v) (channel_keys com fs ch)"
  by (rule ext)
     (simp add: add_channel_index_def channel_keys_def fold_map comp_def idx_ops_fun split: option.splits)

lemma add_global_index_eq:
  "add_global_index com v fs r = fold (idx_push v) (global_keys com fs) r"
  by (simp add: add_global_index_def global_keys_def fold_map comp_def idx_ops_fun split: option.splits)

lemma remove_from_index_eq:
  "remove_from_index c s fs com scope r = fold (idx_remove (c, s)) (index_keys com fs scope) r"
proof (cases scope)
  case Global
  then show ?thesis
    by (simp add: remove_from_index_def index_keys_def global_keys_def fold_map comp_def
          idx_ops_fun split: option.splits)
next
  case (Channels chs)
  show ?thesis
    unfolding Channels
    by (cases "extract_kinds_from_filters fs")
       (simp_all add: remove_from_index_def index_keys_def fold_concat_map channel_keys_def
          fold_map comp_def idx_ops_fun)
qed

lemma subs_remove_from_index [simp]: "subs (remove_from_index c s fs com scope r) = subs r"
  by (simp add: remove_from_index_eq)

section \<open>The abstract table and the invariant\<close>

definition sub_lookup :: "registry \<Rightarrow> conn_id \<Rightarrow> sub_id \<Rightarrow> sub_entry option" where
  "sub_lookup r c s = (case map_of (subs r) c of None \<Rightarrow> None | Some m \<Rightarrow> map_of m s)"

definition wf_subs :: "registry \<Rightarrow> bool" where
  "wf_subs r = (distinct (map fst (subs r)) \<and> list_all (\<lambda>(c, m). distinct (map fst m)) (subs r))"

definition indexed :: "registry \<Rightarrow> conn_id \<Rightarrow> sub_id \<Rightarrow> idx_key \<Rightarrow> bool" where
  "indexed r c s key =
     (case sub_lookup r c s of
        None \<Rightarrow> False
      | Some (fs, com, scope) \<Rightarrow> key \<in> set (index_keys com fs scope))"

definition registry_inv :: "registry \<Rightarrow> bool" where
  "registry_inv r =
     (wf_subs r \<and> (\<forall>key c s. (c, s) \<in> set (idx_get r key) \<longleftrightarrow> indexed r c s key))"

lemma wf_subs_lookup: "wf_subs r \<Longrightarrow> map_of (subs r) c = Some m \<Longrightarrow> distinct (map fst m)"
  by (auto simp: wf_subs_def list_all_iff dest: map_of_SomeD)

lemma wf_subs_cong: "subs r = subs r' \<Longrightarrow> wf_subs r = wf_subs r'"
  by (simp add: wf_subs_def)

lemma wf_subs_update:
  "wf_subs r \<Longrightarrow> distinct (map fst m) \<Longrightarrow> wf_subs (r\<lparr>subs := AList.update c m (subs r)\<rparr>)"
  by (auto simp: wf_subs_def list_all_iff set_update_distinct)

lemma wf_subs_delete: "wf_subs r \<Longrightarrow> wf_subs (r\<lparr>subs := AList.delete c (subs r)\<rparr>)"
  by (auto simp: wf_subs_def list_all_iff set_delete)

lemma sub_lookup_cong: "subs r = subs r' \<Longrightarrow> sub_lookup r c s = sub_lookup r' c s"
  by (simp add: sub_lookup_def)

lemma registry_invD:
  "registry_inv r \<Longrightarrow> (c, s) \<in> set (idx_get r key) \<longleftrightarrow> indexed r c s key"
  by (simp add: registry_inv_def)

lemma registry_inv_new: "registry_inv registry_new"
proof -
  have "idx_get registry_new key = []" for key
    by (cases key) (simp_all add: registry_new_def entry_get_def)
  then show ?thesis
    by (simp add: registry_inv_def wf_subs_def indexed_def sub_lookup_def registry_new_def)
qed

section \<open>Removal\<close>

lemma sub_lookup_remove_subscription:
  "sub_lookup (fst (remove_subscription r c s)) c' s' =
     (if c' = c \<and> s' = s then None else sub_lookup r c' s')"
  by (auto simp: remove_subscription_def sub_lookup_def split: option.splits prod.splits)

lemma idx_get_remove_subscription:
  assumes "registry_inv r"
  shows "set (idx_get (fst (remove_subscription r c s)) key) = set (idx_get r key) - {(c, s)}"
proof (cases "sub_lookup r c s")
  case None
  then have "fst (remove_subscription r c s) = r"
    by (auto simp: remove_subscription_def sub_lookup_def split: option.splits)
  moreover from None have "(c, s) \<notin> set (idx_get r key)"
    using registry_invD [OF assms] by (simp add: indexed_def)
  ultimately show ?thesis by simp
next
  case (Some e)
  obtain fs com scope where e: "e = (fs, com, scope)" by (cases e)
  then have eq: "set (idx_get (fst (remove_subscription r c s)) key) =
      set (idx_get r key) - (if key \<in> set (index_keys com fs scope) then {(c, s)} else {})"
    using Some by (auto simp: remove_subscription_def sub_lookup_def remove_from_index_eq
        idx_get_fold_remove split: option.splits)
  have "(c, s) \<in> set (idx_get r key) \<longleftrightarrow> key \<in> set (index_keys com fs scope)"
    using registry_invD [OF assms] Some e by (simp add: indexed_def)
  with eq show ?thesis by auto
qed

lemma wf_subs_remove_subscription: "wf_subs r \<Longrightarrow> wf_subs (fst (remove_subscription r c s))"
proof -
  assume wf: "wf_subs r"
  show ?thesis
  proof (cases "map_of (subs r) c")
    case None
    with wf show ?thesis by (simp add: remove_subscription_def)
  next
    case (Some m)
    have "wf_subs (r\<lparr>subs := AList.update c (AList.delete s m) (subs r)\<rparr>)"
      using wf wf_subs_lookup [OF wf Some] by (intro wf_subs_update) simp_all
    with wf Some show ?thesis
      by (auto simp: remove_subscription_def wf_subs_def split: option.splits)
  qed
qed

lemma registry_inv_remove_subscription:
  assumes "registry_inv r" shows "registry_inv (fst (remove_subscription r c s))"
proof -
  have "wf_subs (fst (remove_subscription r c s))"
    using assms by (intro wf_subs_remove_subscription) (simp add: registry_inv_def)
  moreover have "(c', s') \<in> set (idx_get (fst (remove_subscription r c s)) key) \<longleftrightarrow>
      indexed (fst (remove_subscription r c s)) c' s' key" for c' s' key
    using registry_invD [OF assms, of c' s' key]
    by (simp add: idx_get_remove_subscription [OF assms] indexed_def sub_lookup_remove_subscription)
  ultimately show ?thesis by (simp add: registry_inv_def)
qed

section \<open>Registration\<close>

lemma sub_lookup_insert_entry:
  "sub_lookup (insert_entry c s e r) c' s' =
     (if c' = c \<and> s' = s then Some e else sub_lookup r c' s')"
  by (auto simp: insert_entry_def sub_lookup_def split: option.splits)

lemma wf_subs_insert_entry: "wf_subs r \<Longrightarrow> wf_subs (insert_entry c s e r)"
  unfolding insert_entry_def
  by (rule wf_subs_update) (auto simp: wf_subs_lookup split: option.splits)

lemma register_with_scope_eq:
  "fst (register_with_scope r com c s fs scope) =
     fold (idx_push (c, s)) (index_keys com fs scope)
       (insert_entry c s (fs, com, scope) (fst (remove_subscription r c s)))"
  by (simp add: register_with_scope_def Let_def index_keys_def add_global_index_eq
        add_channel_index_eq [abs_def] fold_concat_map split: prod.splits subscription_scope.splits)

lemma sub_lookup_register:
  "sub_lookup (fst (register_with_scope r com c s fs scope)) c' s' =
     (if c' = c \<and> s' = s then Some (fs, com, scope) else sub_lookup r c' s')"
proof -
  have "sub_lookup (fst (register_with_scope r com c s fs scope)) c' s' =
      sub_lookup (insert_entry c s (fs, com, scope) (fst (remove_subscription r c s))) c' s'"
    by (rule sub_lookup_cong) (simp add: register_with_scope_eq)
  then show ?thesis
    by (simp add: sub_lookup_insert_entry sub_lookup_remove_subscription)
qed

lemma idx_get_insert_entry [simp]: "idx_get (insert_entry c s e r) key = idx_get r key"
  by (simp add: insert_entry_def)

lemma registry_inv_register:
  assumes "registry_inv r"
  shows "registry_inv (fst (register_with_scope r com c s fs scope))"
proof -
  let ?r = "fst (register_with_scope r com c s fs scope)"
  have "wf_subs (insert_entry c s (fs, com, scope) (fst (remove_subscription r c s)))"
    using assms by (intro wf_subs_insert_entry wf_subs_remove_subscription) (simp add: registry_inv_def)
  then have "wf_subs ?r"
    by (rule wf_subs_cong [THEN iffD1, rotated]) (simp add: register_with_scope_eq)
  moreover have "(c', s') \<in> set (idx_get ?r key) \<longleftrightarrow> indexed ?r c' s' key" for c' s' key
  proof -
    have "set (idx_get ?r key) =
        (set (idx_get r key) - {(c, s)}) \<union> (if key \<in> set (index_keys com fs scope) then {(c, s)} else {})"
      by (simp add: register_with_scope_eq idx_get_fold_push idx_get_remove_subscription [OF assms])
    with registry_invD [OF assms, of c' s' key] show ?thesis
      by (auto simp: indexed_def sub_lookup_register)
  qed
  ultimately show ?thesis by (simp add: registry_inv_def)
qed

section \<open>Removing a connection\<close>

definition entries_keys :: "(sub_id \<times> sub_entry) list \<Rightarrow> sub_id \<Rightarrow> idx_key set" where
  "entries_keys m s = {key. \<exists>fs com scope. (s, fs, com, scope) \<in> set m \<and> key \<in> set (index_keys com fs scope)}"

lemma entries_keys_map_of:
  assumes "distinct (map fst m)"
  shows "key \<in> entries_keys m s \<longleftrightarrow>
     (case map_of m s of None \<Rightarrow> False | Some (fs, com, scope) \<Rightarrow> key \<in> set (index_keys com fs scope))"
proof -
  have "(s, e) \<in> set m \<longleftrightarrow> map_of m s = Some e" for e
    by (simp only: map_of_distinct_iff [OF assms])
  then show ?thesis by (cases "map_of m s") (auto simp: entries_keys_def)
qed

lemma idx_get_remove_entries:
  "set (idx_get (fold (\<lambda>(s, fs, com, scope). remove_from_index c s fs com scope) m r) key) =
     {(c', s') \<in> set (idx_get r key). \<not> (c' = c \<and> key \<in> entries_keys m s')}"
proof (induction m arbitrary: r)
  case Nil
  show ?case by (simp add: entries_keys_def)
next
  case (Cons e m)
  obtain s fs com scope where e: "e = (s, fs, com, scope)" by (cases e)
  show ?case
    unfolding e fold.simps comp_def split Cons.IH
    by (auto simp: remove_from_index_eq idx_get_fold_remove entries_keys_def split: if_splits)
qed

lemma subs_remove_entries [simp]:
  "subs (fold (\<lambda>(s, fs, com, scope). remove_from_index c s fs com scope) m r) = subs r"
  by (induction m arbitrary: r) (auto simp: split: prod.splits)

lemma sub_lookup_remove_connection:
  "sub_lookup (fst (remove_connection r c)) c' s = (if c' = c then None else sub_lookup r c' s)"
  by (auto simp: remove_connection_def sub_lookup_def split: option.splits)

lemma idx_get_remove_connection:
  assumes "registry_inv r"
  shows "set (idx_get (fst (remove_connection r c)) key) = {(c', s) \<in> set (idx_get r key). c' \<noteq> c}"
proof (cases "map_of (subs r) c")
  case None
  then have "(c, s) \<notin> set (idx_get r key)" for s
    using registry_invD [OF assms, of c s key] by (simp add: indexed_def sub_lookup_def)
  with None show ?thesis by (auto simp: remove_connection_def)
next
  case (Some m)
  then have d: "distinct (map fst m)"
    using assms by (auto simp: registry_inv_def intro: wf_subs_lookup)
  have "(c, s) \<in> set (idx_get r key) \<longleftrightarrow> key \<in> entries_keys m s" for s
    using registry_invD [OF assms, of c s key] Some d
    by (simp add: indexed_def sub_lookup_def entries_keys_map_of)
  with Some show ?thesis
    by (auto simp: remove_connection_def idx_get_remove_entries)
qed

lemma registry_inv_remove_connection:
  assumes "registry_inv r" shows "registry_inv (fst (remove_connection r c))"
proof -
  let ?r = "fst (remove_connection r c)"
  have "wf_subs (r\<lparr>subs := AList.delete c (subs r)\<rparr>)"
    using assms by (intro wf_subs_delete) (simp add: registry_inv_def)
  then have "wf_subs ?r"
    using assms
    by (auto simp: remove_connection_def registry_inv_def wf_subs_def split: option.splits)
  moreover have "(c', s) \<in> set (idx_get ?r key) \<longleftrightarrow> indexed ?r c' s key" for c' s key
    using registry_invD [OF assms, of c' s key]
    by (auto simp: idx_get_remove_connection [OF assms] indexed_def sub_lookup_remove_connection)
  ultimately show ?thesis by (simp add: registry_inv_def)
qed

section \<open>Revoking one channel\<close>

text \<open>What revoking channel \<open>ch\<close> does to one entry of the table.\<close>

definition revoke_entry :: "community_id \<Rightarrow> channel_id \<Rightarrow> sub_entry \<Rightarrow> sub_entry option" where
  "revoke_entry com ch e = (case e of
     (fs, com', Channels chs) \<Rightarrow>
       if com' = com \<and> ch \<in> set chs then
         (let chs' = filter (\<lambda>x. x \<noteq> ch) chs in
          if chs' = [] then None else Some (fs, com', Channels chs'))
       else Some e
   | _ \<Rightarrow> Some e)"

lemma index_keys_filter:
  "set (index_keys com fs (Channels (filter (\<lambda>x. x \<noteq> ch) chs))) =
     set (index_keys com fs (Channels chs)) - set (index_keys com fs (Channels [ch]))"
  by (auto simp: index_keys_def channel_keys_def split: option.splits)

lemma revoke_channel_step_effect:
  assumes inv: "registry_inv r"
    and e: "sub_lookup r c s = Some (fs, com, Channels chs)"
    and r'_def: "r' = fst (revoke_channel_step com c ch s (r, us))"
  shows "sub_lookup r' c' s' =
      (if c' = c \<and> s' = s
       then (if filter (\<lambda>x. x \<noteq> ch) chs = [] then None else Some (fs, com, Channels (filter (\<lambda>x. x \<noteq> ch) chs)))
       else sub_lookup r c' s')"
    and "set (idx_get r' key) =
      set (idx_get r key) - (if key \<in> set (index_keys com fs (Channels [ch])) then {(c, s)} else {})"
    and "wf_subs r'"
proof -
  from e obtain m where m: "map_of (subs r) c = Some m" "map_of m s = Some (fs, com, Channels chs)"
    by (auto simp: sub_lookup_def split: option.splits)
  show "sub_lookup r' c' s' =
      (if c' = c \<and> s' = s
       then (if filter (\<lambda>x. x \<noteq> ch) chs = [] then None else Some (fs, com, Channels (filter (\<lambda>x. x \<noteq> ch) chs)))
       else sub_lookup r c' s')"
    using m by (auto simp: r'_def revoke_channel_step_def sub_lookup_def Let_def)
  show "set (idx_get r' key) =
      set (idx_get r key) - (if key \<in> set (index_keys com fs (Channels [ch])) then {(c, s)} else {})"
    using m by (auto simp: r'_def revoke_channel_step_def Let_def remove_from_index_eq idx_get_fold_remove)
  have wf: "wf_subs r" using inv by (simp add: registry_inv_def)
  let ?m = "AList.update s (fs, com, Channels (filter (\<lambda>x. x \<noteq> ch) chs)) m"
  have d: "distinct (map fst ?m)" using wf_subs_lookup [OF wf m(1)] by simp
  have 1: "wf_subs (r\<lparr>subs := AList.update c ?m (subs r)\<rparr>)" by (rule wf_subs_update [OF wf d])
  have 2: "wf_subs (r\<lparr>subs := AList.update c (AList.delete s ?m) (AList.update c ?m (subs r))\<rparr>)"
    using wf_subs_update [OF 1, of "AList.delete s ?m" c] d by (simp add: wf_subs_def)
  show "wf_subs r'"
    using m 1 2 by (auto simp: r'_def revoke_channel_step_def Let_def wf_subs_def)
qed

lemma revoke_channel_step_inv:
  assumes inv: "registry_inv r"
    and e: "sub_lookup r c s = Some (fs, com, Channels chs)"
  shows "registry_inv (fst (revoke_channel_step com c ch s (r, us)))"
proof -
  note eff = revoke_channel_step_effect [OF inv e refl, of ch us]
  let ?r = "fst (revoke_channel_step com c ch s (r, us))"
  have empty: "filter (\<lambda>x. x \<noteq> ch) chs = [] \<Longrightarrow>
      set (index_keys com fs (Channels chs)) \<subseteq> set (index_keys com fs (Channels [ch]))"
    using index_keys_filter [of com fs ch chs] by (auto simp: index_keys_def)
  have "(c', s') \<in> set (idx_get ?r key) \<longleftrightarrow> indexed ?r c' s' key" for c' s' key
  proof (cases "c' = c \<and> s' = s")
    case True
    have "(c, s) \<in> set (idx_get r key) \<longleftrightarrow> key \<in> set (index_keys com fs (Channels chs))"
      using registry_invD [OF inv, of c s key] e by (simp add: indexed_def)
    with True show ?thesis
      using empty index_keys_filter [of com fs ch chs] by (auto simp: eff indexed_def)
  next
    case False
    with registry_invD [OF inv, of c' s' key] show ?thesis
      by (auto simp: eff indexed_def)
  qed
  with eff(3) show ?thesis by (simp add: registry_inv_def)
qed

text \<open>The loop over the collected subscription ids: each id still holds the entry it was
  collected for, because the earlier rounds only touched other ids.\<close>

lemma revoke_channel_fold:
  assumes "registry_inv r" and "distinct ids"
    and "\<And>s. s \<in> set ids \<Longrightarrow> \<exists>fs chs. sub_lookup r c s = Some (fs, com, Channels chs) \<and> ch \<in> set chs"
  shows "registry_inv (fst (fold (revoke_channel_step com c ch) ids (r, us))) \<and>
    (\<forall>c' s'. sub_lookup (fst (fold (revoke_channel_step com c ch) ids (r, us))) c' s' =
       (if c' = c \<and> s' \<in> set ids
        then Option.bind (sub_lookup r c s') (revoke_entry com ch)
        else sub_lookup r c' s'))"
  using assms
proof (induction ids arbitrary: r us)
  case Nil
  then show ?case by simp
next
  case (Cons s ids)
  obtain fs chs where e: "sub_lookup r c s = Some (fs, com, Channels chs)" and ch: "ch \<in> set chs"
    using Cons.prems(3) by (meson list.set_intros(1))
  obtain r1 us1 where step: "revoke_channel_step com c ch s (r, us) = (r1, us1)"
    by (cases "revoke_channel_step com c ch s (r, us)")
  have inv1: "registry_inv r1"
    using revoke_channel_step_inv [OF Cons.prems(1) e, of ch us] by (simp add: step)
  have look1: "sub_lookup r1 c' s' =
      (if c' = c \<and> s' = s
       then (if filter (\<lambda>x. x \<noteq> ch) chs = [] then None else Some (fs, com, Channels (filter (\<lambda>x. x \<noteq> ch) chs)))
       else sub_lookup r c' s')" for c' s'
    using revoke_channel_step_effect(1) [OF Cons.prems(1) e refl, of ch us] by (simp add: step)
  have "\<exists>fs chs. sub_lookup r1 c s' = Some (fs, com, Channels chs) \<and> ch \<in> set chs"
    if "s' \<in> set ids" for s'
    using Cons.prems(2,3) that by (auto simp: look1)
  from Cons.IH [OF inv1 _ this, of us1] Cons.prems(2)
  have inv2: "registry_inv (fst (fold (revoke_channel_step com c ch) ids (r1, us1)))"
    and look2: "\<And>c' s'. sub_lookup (fst (fold (revoke_channel_step com c ch) ids (r1, us1))) c' s' =
       (if c' = c \<and> s' \<in> set ids
        then Option.bind (sub_lookup r1 c s') (revoke_entry com ch)
        else sub_lookup r1 c' s')"
    by simp_all
  have "sub_lookup (fst (fold (revoke_channel_step com c ch) ids (r1, us1))) c' s' =
       (if c' = c \<and> s' \<in> set (s # ids)
        then Option.bind (sub_lookup r c s') (revoke_entry com ch)
        else sub_lookup r c' s')" for c' s'
    using Cons.prems(2) ch by (auto simp: look2 look1 e revoke_entry_def Let_def)
  with inv2 show ?case by (simp add: step)
qed

lemma revoked_sub_ids_props:
  assumes "registry_inv r"
  shows "distinct (revoked_sub_ids r com c ch)"
    and "s \<in> set (revoked_sub_ids r com c ch) \<longleftrightarrow>
      (\<exists>fs chs. sub_lookup r c s = Some (fs, com, Channels chs) \<and> ch \<in> set chs)"
proof -
  have wf: "wf_subs r" using assms by (simp add: registry_inv_def)
  show "distinct (revoked_sub_ids r com c ch)"
    by (auto simp: revoked_sub_ids_def distinct_map_filter wf_subs_lookup [OF wf] split: option.splits)
  show "s \<in> set (revoked_sub_ids r com c ch) \<longleftrightarrow>
      (\<exists>fs chs. sub_lookup r c s = Some (fs, com, Channels chs) \<and> ch \<in> set chs)"
  proof (cases "map_of (subs r) c")
    case (Some m)
    have "x \<in> set (channel_ids scope) \<longleftrightarrow> (\<exists>chs. scope = Channels chs \<and> x \<in> set chs)" for x scope
      by (cases scope) simp_all
    with Some show ?thesis
      by (auto simp: revoked_sub_ids_def sub_lookup_def map_of_distinct_iff wf_subs_lookup [OF wf]
            image_iff)
  qed (simp add: revoked_sub_ids_def sub_lookup_def)
qed

lemma revoke_channel_correct:
  assumes "registry_inv r"
    and r'_def: "r' = fst (remove_channel_subscriptions_scoped r com c ch)"
  shows "registry_inv r'"
    and "sub_lookup r' c' s =
      (if c' = c then Option.bind (sub_lookup r c s) (revoke_entry com ch) else sub_lookup r c' s)"
proof -
  note ids = revoked_sub_ids_props [OF assms(1)]
  note fold = revoke_channel_fold [OF assms(1) ids(1), of com c ch c com ch "[]"]
  from fold ids(2) show "registry_inv r'"
    by (simp add: r'_def remove_channel_subscriptions_scoped_def)
  have untouched: "sub_lookup r c s = Option.bind (sub_lookup r c s) (revoke_entry com ch)"
    if "s \<notin> set (revoked_sub_ids r com c ch)"
    using that
    by (cases "sub_lookup r c s")
       (auto simp: ids(2) revoke_entry_def split: subscription_scope.splits)
  from fold ids(2) untouched
  show "sub_lookup r' c' s =
      (if c' = c then Option.bind (sub_lookup r c s) (revoke_entry com ch) else sub_lookup r c' s)"
    by (auto simp: r'_def remove_channel_subscriptions_scoped_def)
qed

section \<open>Fan-out is a linear scan\<close>

text \<open>The reference: the subscriptions of the table that a scan would deliver to.\<close>

definition delivers :: "nostr_lib \<Rightarrow> registry \<Rightarrow> community_id \<Rightarrow> stored_event \<Rightarrow> recipient \<Rightarrow> bool" where
  "delivers lib r com se = (\<lambda>(c, s).
     case sub_lookup r c s of
       None \<Rightarrow> False
     | Some (fs, com', scope) \<Rightarrow>
         com' = com \<and> matches_channel scope (se_channel_id se) \<and> filters_match lib fs se)"

definition candidate_keys :: "community_id \<Rightarrow> stored_event \<Rightarrow> idx_key list" where
  "candidate_keys com se = (let k = ev_kind (se_event se) in
     case se_channel_id se of
       Some ch \<Rightarrow> [IxChannelKind com ch k, IxChannelWild com ch]
     | None \<Rightarrow>
         map (\<lambda>p. IxGlobalP \<lparr>gp_community_id = com, gp_kind = k, gp_p = p\<rparr>) (event_p_tag_values se) @
         [IxGlobalKind com k, IxGlobalWild com])"

lemma fan_out_candidates_eq:
  "fan_out_candidates r com se = concat (map (idx_get r) (candidate_keys com se))"
  by (simp add: fan_out_candidates_def candidate_keys_def Let_def comp_def split: option.splits)

lemma push_match_eq:
  "push_match lib r com se v results =
     (if delivers lib r com se v \<and> v \<notin> set results then results @ [v] else results)"
  by (auto simp: push_match_def delivers_def sub_lookup_def split: option.splits prod.splits)

lemma fold_push_match:
  "set (fold (push_match lib r com se) vs results) =
     set results \<union> {v \<in> set vs. delivers lib r com se v}"
  "distinct results \<Longrightarrow> distinct (fold (push_match lib r com se) vs results)"
  by (induction vs arbitrary: results) (auto simp: push_match_eq)

lemma collect_kinds_covers:
  assumes "collect_kinds acc fs = Some ks"
  shows "set acc \<subseteq> set ks \<and> (\<forall>f \<in> set fs. \<exists>k'. f_kinds f = Some k' \<and> set k' \<subseteq> set ks)"
  using assms
  by (induction acc fs rule: collect_kinds.induct) (fastforce split: option.splits)+

lemma collect_p_keys_mono:
  "collect_p_keys com acc fs = Some keys \<Longrightarrow> set acc \<subseteq> set keys"
  by (induction com acc fs rule: collect_p_keys.induct) (auto split: option.splits if_splits)

lemma collect_p_keys_kinds:
  "collect_p_keys com acc fs = Some keys \<Longrightarrow> f \<in> set fs \<Longrightarrow> f_kinds f \<noteq> None"
  by (induction com acc fs rule: collect_p_keys.induct) (auto split: option.splits if_splits)

lemma collect_p_keys_covers:
  assumes "collect_p_keys com acc fs = Some keys" and "f \<in> set fs"
    and "f_kinds f = Some ks" and "k \<in> set ks"
  shows "\<exists>ps. map_of (f_generic_tags f) (CHR ''p'') = Some ps \<and>
    (\<forall>p \<in> set ps. \<lparr>gp_community_id = com, gp_kind = k, gp_p = p\<rparr> \<in> set keys)"
  using assms
proof (induction com acc fs rule: collect_p_keys.induct)
  case (2 com acc f' fs)
  show ?case
  proof (cases "f = f'")
    case True
    with 2 obtain ps where ps: "map_of (f_generic_tags f) (CHR ''p'') = Some ps"
      and "collect_p_keys com (push_new acc
         (concat (map (\<lambda>k. map (\<lambda>p. \<lparr>gp_community_id = com, gp_kind = k, gp_p = p\<rparr>) ps) ks))) fs = Some keys"
      by (auto split: option.splits if_splits)
    with collect_p_keys_mono have
      "set (push_new acc (concat (map (\<lambda>k. map (\<lambda>p. \<lparr>gp_community_id = com, gp_kind = k, gp_p = p\<rparr>) ps) ks)))
         \<subseteq> set keys" by blast
    then have "\<forall>p \<in> set ps. \<lparr>gp_community_id = com, gp_kind = k, gp_p = p\<rparr> \<in> set keys"
      using "2.prems"(4) by auto
    with ps show ?thesis by blast
  next
    case False
    with 2 show ?thesis by (auto split: option.splits if_splits)
  qed
qed simp

lemma event_p_tag_values_iff: "v \<in> set (event_p_tag_values se) \<longleftrightarrow> has_tag_value (se_event se) ''p'' v"
  by (auto simp: event_p_tag_values_def has_tag_value_def List.map_filter_def image_iff)

lemma candidate_hit:
  assumes "filters_match lib fs se" and "matches_channel scope (se_channel_id se)"
  shows "\<exists>key \<in> set (index_keys com fs scope). key \<in> set (candidate_keys com se)"
proof -
  from assms(1) obtain f where f: "f \<in> set fs" "filter_match_one lib f se"
    by (auto simp: filters_match_def)
  let ?k = "ev_kind (se_event se)"
  have kinds: "?k \<in> set ks" if "extract_kinds_from_filters fs = Some ks" for ks
    using collect_kinds_covers [of "[]" fs ks] that f filter_match_one_kind [OF f(2)]
    by (auto simp: extract_kinds_from_filters_def)
  show ?thesis
  proof (cases scope)
    case (Channels chs)
    with assms(2) obtain ch where "se_channel_id se = Some ch" "ch \<in> set chs"
      by (cases "se_channel_id se") auto
    with Channels kinds show ?thesis
      by (cases "extract_kinds_from_filters fs")
         (auto simp: index_keys_def channel_keys_def candidate_keys_def Let_def)
  next
    case Global
    with assms(2) have no_ch: "se_channel_id se = None" by (cases "se_channel_id se") auto
    show ?thesis
    proof (cases "extract_global_p_kind_index_keys com fs")
      case None
      with Global no_ch kinds show ?thesis
        by (cases "extract_kinds_from_filters fs")
           (auto simp: index_keys_def global_keys_def candidate_keys_def Let_def)
    next
      case (Some keys)
      then have ck: "collect_p_keys com [] fs = Some keys"
        by (simp add: extract_global_p_kind_index_keys_def)
      then obtain ks where ks: "f_kinds f = Some ks"
        using collect_p_keys_kinds [OF _ f(1)] by blast
      obtain ps where ps: "map_of (f_generic_tags f) (CHR ''p'') = Some ps"
        and keys: "\<forall>p \<in> set ps. \<lparr>gp_community_id = com, gp_kind = ?k, gp_p = p\<rparr> \<in> set keys"
        using collect_p_keys_covers [OF ck f(1) ks filter_match_one_kind [OF f(2) ks]] by blast
      obtain v where v: "v \<in> set ps" "v \<in> set (event_p_tag_values se)"
        using filter_match_one_tag [OF f(2) map_of_SomeD [OF ps]] by (auto simp: event_p_tag_values_iff)
      let ?key = "IxGlobalP \<lparr>gp_community_id = com, gp_kind = ?k, gp_p = v\<rparr>"
      have "?key \<in> set (index_keys com fs scope)"
        using v(1) keys Some Global by (simp add: index_keys_def global_keys_def)
      moreover have "?key \<in> set (candidate_keys com se)"
        using v(2) no_ch by (simp add: candidate_keys_def Let_def)
      ultimately show ?thesis by blast
    qed
  qed
qed

lemma fan_out_scoped_correct:
  assumes "registry_inv r"
  shows "set (fan_out_scoped lib r com se) = {v. delivers lib r com se v}"
    and "distinct (fan_out_scoped lib r com se)"
proof -
  have "v \<in> set (fan_out_candidates r com se)" if "delivers lib r com se v" for v
  proof -
    obtain c s where v: "v = (c, s)" by (cases v)
    with that obtain fs scope where e: "sub_lookup r c s = Some (fs, com, scope)"
      and m: "filters_match lib fs se" "matches_channel scope (se_channel_id se)"
      by (auto simp: delivers_def split: option.splits prod.splits)
    from candidate_hit [OF m] obtain key
      where key: "key \<in> set (index_keys com fs scope)" "key \<in> set (candidate_keys com se)" by blast
    with e have "(c, s) \<in> set (idx_get r key)"
      by (simp add: registry_invD [OF assms] indexed_def)
    with key(2) v show ?thesis by (auto simp: fan_out_candidates_eq)
  qed
  then show "set (fan_out_scoped lib r com se) = {v. delivers lib r com se v}"
    by (auto simp: fan_out_scoped_def fold_push_match(1))
  show "distinct (fan_out_scoped lib r com se)"
    by (simp add: fan_out_scoped_def fold_push_match(2))
qed

section \<open>Reachable registries\<close>

inductive registry_step :: "registry \<Rightarrow> registry \<Rightarrow> bool" where
  step_register: "registry_step r (fst (register_with_scope r com c s fs scope))"
| step_close: "registry_step r (fst (remove_subscription r c s))"
| step_disconnect: "registry_step r (fst (remove_connection r c))"
| step_revoke: "registry_step r (fst (remove_channel_subscriptions_scoped r com c ch))"

inductive registry_reachable :: "registry \<Rightarrow> bool" where
  reach_new: "registry_reachable registry_new"
| reach_step: "registry_reachable r \<Longrightarrow> registry_step r r' \<Longrightarrow> registry_reachable r'"

lemma registry_step_inv: "registry_step r r' \<Longrightarrow> registry_inv r \<Longrightarrow> registry_inv r'"
  by (induction rule: registry_step.induct)
     (auto intro: registry_inv_register registry_inv_remove_subscription
        registry_inv_remove_connection revoke_channel_correct(1))

lemma registry_reachable_inv: "registry_reachable r \<Longrightarrow> registry_inv r"
  by (induction rule: registry_reachable.induct)
     (auto intro: registry_inv_new registry_step_inv)

section \<open>The contract of live routing\<close>

text \<open>What the delivery code relies on: a routing table with a lookup and a fan-out that
  agree.  The isolation lemmas follow from the contract alone.\<close>

locale subscription_routing =
  fixes ok :: "'r \<Rightarrow> bool"
    and lookup :: "'r \<Rightarrow> conn_id \<Rightarrow> sub_id \<Rightarrow> sub_entry option"
    and fan_out :: "'r \<Rightarrow> community_id \<Rightarrow> stored_event \<Rightarrow> recipient list"
    and matches :: "nfilter list \<Rightarrow> stored_event \<Rightarrow> bool"
  assumes fan_out_iff: "ok r \<Longrightarrow> (c, s) \<in> set (fan_out r com se) \<longleftrightarrow>
      (\<exists>fs scope. lookup r c s = Some (fs, com, scope) \<and>
         matches_channel scope (se_channel_id se) \<and> matches fs se)"
    and fan_out_distinct: "ok r \<Longrightarrow> distinct (fan_out r com se)"
begin

lemma tenant_isolation:
  assumes "ok r" and "v \<in> set (fan_out r com se)" and "v \<in> set (fan_out r com' se')"
  shows "com = com'"
  using assms by (cases v) (auto simp: fan_out_iff)

lemma scope_isolation:
  assumes "ok r" and "v \<in> set (fan_out r com se)" and "v \<in> set (fan_out r com' se')"
  shows "se_channel_id se = None \<longleftrightarrow> se_channel_id se' = None"
  using assms
  by (cases v) (auto simp: fan_out_iff elim!: matches_channel.elims(2))

lemma channel_delivery_authorized:
  assumes "ok r" and "(c, s) \<in> set (fan_out r com se)" and "se_channel_id se = Some ch"
  shows "\<exists>fs chs. lookup r c s = Some (fs, com, Channels chs) \<and> ch \<in> set chs \<and> matches fs se"
  using assms by (auto simp: fan_out_iff elim!: matches_channel.elims(2))

lemma unknown_not_delivered:
  assumes "ok r" and "lookup r c s = None"
  shows "(c, s) \<notin> set (fan_out r com se)"
  using assms by (simp add: fan_out_iff)

end

lemma delivers_iff:
  "delivers lib r com se (c, s) \<longleftrightarrow>
     (\<exists>fs scope. sub_lookup r c s = Some (fs, com, scope) \<and>
        matches_channel scope (se_channel_id se) \<and> filters_match lib fs se)"
  by (auto simp: delivers_def split: option.splits)

interpretation routing: subscription_routing registry_inv sub_lookup "fan_out_scoped lib" "filters_match lib"
  for lib
  by unfold_locales (simp_all add: fan_out_scoped_correct delivers_iff)

section \<open>Properties\<close>

text \<open>C4.  Fan-out through the five indexes delivers to exactly the subscriptions a linear scan
  of the table would find (same community, scope covers the event's channel, filters match),
  each once, in every registry the operations can produce.\<close>

theorem fan_out_equals_scan:
  assumes "registry_reachable r"
  shows "set (fan_out_scoped lib r com se) =
      {(c, s). \<exists>fs scope. sub_lookup r c s = Some (fs, com, scope) \<and>
         matches_channel scope (se_channel_id se) \<and> filters_match lib fs se} \<and>
    distinct (fan_out_scoped lib r com se)"
  using routing.fan_out_iff [OF registry_reachable_inv [OF assms]]
    routing.fan_out_distinct [OF registry_reachable_inv [OF assms]] by auto

definition ex_lib :: nostr_lib where
  "ex_lib = \<lparr>uuid_to_string = (\<lambda>n. replicate n (CHR ''u'')), uuid_parse = (\<lambda>s. Some (length s)),
     id_to_hex = (\<lambda>b. map (\<lambda>w. char_of (unat w)) b), pubkey_to_hex = (\<lambda>b. map (\<lambda>w. char_of (unat w)) b),
     hex_encode = (\<lambda>b. map (\<lambda>w. char_of (unat w)) b)\<rparr>"

definition ex_filter :: "kind list option \<Rightarrow> (char \<times> string list) list \<Rightarrow> nfilter" where
  "ex_filter ks tags = \<lparr>f_ids = None, f_authors = None, f_kinds = ks, f_since = None,
     f_until = None, f_limit = None, f_search = None, f_generic_tags = tags\<rparr>"

definition ex_event :: "kind \<Rightarrow> tag list \<Rightarrow> channel_id option \<Rightarrow> stored_event" where
  "ex_event k ts ch = stored_event_new 0
     \<lparr>ev_id = [1], ev_pubkey = [2], ev_created_at = 5, ev_kind = k, ev_tags = ts, ev_content = []\<rparr> ch"

definition ex_registry :: registry where
  "ex_registry =
     fst (register_with_scope
       (fst (register_with_scope registry_new 1 10 ''live'' [ex_filter (Some [9]) []] (Channels [4, 5])))
       1 11 ''me'' [ex_filter (Some [1059]) [(CHR ''p'', [''alice''])]] Global)"

lemma ex_registry_reachable: "registry_reachable ex_registry"
  unfolding ex_registry_def
  by (intro reach_step [OF _ step_register] reach_new)

lemma ex_registry_fan_out:
  "fan_out_scoped ex_lib ex_registry 1 (ex_event 9 [] (Some 5)) = [(10, ''live'')]"
  "fan_out_scoped ex_lib ex_registry 1 (ex_event 1059 [[''p'', ''alice'']] None) = [(11, ''me'')]"
  "fan_out_scoped ex_lib ex_registry 2 (ex_event 9 [] (Some 5)) = []"
  by code_simp+

theorem fan_out_equals_scan_witness:
  "set (fan_out_scoped ex_lib ex_registry 1 (ex_event 9 [] (Some 5))) =
     {(c, s). \<exists>fs scope. sub_lookup ex_registry c s = Some (fs, 1, scope) \<and>
        matches_channel scope (Some 5) \<and> filters_match ex_lib fs (ex_event 9 [] (Some 5))} \<and>
   fan_out_scoped ex_lib ex_registry 1 (ex_event 9 [] (Some 5)) = [(10, ''live'')]"
  using fan_out_equals_scan [OF ex_registry_reachable, of ex_lib 1 "ex_event 9 [] (Some 5)"]
    ex_registry_fan_out(1)
  by (simp add: ex_event_def stored_event_new_def)

text \<open>Isolation of live delivery: a recipient of a channel event holds a subscription of
  that event's community whose authorized channels contain the event's channel, and no
  subscription ever receives events of two communities, or both channel events and
  community-global events.\<close>

lemma fan_out_isolation:
  assumes "registry_reachable r" and "(c, s) \<in> set (fan_out_scoped lib r com se)"
  shows "(\<forall>ch. se_channel_id se = Some ch \<longrightarrow>
        (\<exists>fs chs. sub_lookup r c s = Some (fs, com, Channels chs) \<and> ch \<in> set chs)) \<and>
    (\<forall>com' se'. (c, s) \<in> set (fan_out_scoped lib r com' se') \<longrightarrow>
        com' = com \<and> (se_channel_id se' = None \<longleftrightarrow> se_channel_id se = None))"
proof -
  note inv = registry_reachable_inv [OF assms(1)]
  show ?thesis
    using routing.channel_delivery_authorized [OF inv assms(2)]
      routing.tenant_isolation [OF inv assms(2)] routing.scope_isolation [OF inv assms(2)]
    by blast
qed

text \<open>Registration replaces (NIP-01): afterwards the table holds the new entry under that id
  and is unchanged elsewhere, and the returned scope is that of the entry it replaced.\<close>

lemma register_replaces:
  "sub_lookup (fst (register_with_scope r com c s fs scope)) c' s' =
     (if c' = c \<and> s' = s then Some (fs, com, scope) else sub_lookup r c' s') \<and>
   snd (register_with_scope r com c s fs scope) =
     map_option (\<lambda>(fs, com, scope). \<lparr>rs_community_id = com, rs_scope = scope\<rparr>) (sub_lookup r c s)"
proof -
  have "snd (register_with_scope r com c s fs scope) = snd (remove_subscription r c s)"
    by (simp add: register_with_scope_def Let_def split: prod.splits)
  also have "\<dots> = map_option (\<lambda>(fs, com, scope). \<lparr>rs_community_id = com, rs_scope = scope\<rparr>) (sub_lookup r c s)"
    by (auto simp: remove_subscription_def sub_lookup_def split: option.splits prod.splits)
  finally show ?thesis by (simp add: sub_lookup_register)
qed

text \<open>C24.  Revoking a channel from a connection takes effect at once: no later event of that
  channel in that community reaches the connection, and every other delivery is as before.\<close>

theorem revoke_channel_stops_delivery:
  assumes "registry_reachable r"
  shows "(c', s) \<in> set (fan_out_scoped lib (fst (remove_channel_subscriptions_scoped r com c ch)) com' se) \<longleftrightarrow>
    (c', s) \<in> set (fan_out_scoped lib r com' se) \<and>
      \<not> (c' = c \<and> com' = com \<and> se_channel_id se = Some ch)"
proof -
  note inv = registry_reachable_inv [OF assms]
  note rev = revoke_channel_correct [OF inv refl]
  show ?thesis
  proof (cases "c' = c")
    case True
    show ?thesis
    proof (cases "sub_lookup r c s")
      case (Some e)
      obtain fs com0 scope0 where "e = (fs, com0, scope0)" by (cases e)
      with True Some show ?thesis
        by (cases scope0; cases "se_channel_id se")
           (auto simp: routing.fan_out_iff [OF inv] routing.fan_out_iff [OF rev(1)] rev(2)
              revoke_entry_def Let_def filter_empty_conv split: if_splits)
    qed (simp add: True routing.fan_out_iff [OF inv] routing.fan_out_iff [OF rev(1)] rev(2))
  qed (simp add: routing.fan_out_iff [OF inv] routing.fan_out_iff [OF rev(1)] rev(2))
qed

theorem revoke_channel_stops_delivery_witness:
  "(10, ''live'') \<in> set (fan_out_scoped ex_lib ex_registry 1 (ex_event 9 [] (Some 5))) \<and>
   (10, ''live'') \<notin> set (fan_out_scoped ex_lib
      (fst (remove_channel_subscriptions_scoped ex_registry 1 10 5)) 1 (ex_event 9 [] (Some 5)))"
  using revoke_channel_stops_delivery [OF ex_registry_reachable, of 10 "''live''" ex_lib 1 10 5 1
      "ex_event 9 [] (Some 5)"] ex_registry_fan_out(1)
  by (simp add: ex_event_def stored_event_new_def)

text \<open>A closed connection leaves nothing behind: no index entry of any kind mentions it, it
  receives no event, and every other recipient is unaffected.\<close>

theorem remove_connection_cleans_up:
  assumes "registry_reachable r"
  shows "(\<forall>key s. (c, s) \<notin> set (idx_get (fst (remove_connection r c)) key)) \<and>
    (\<forall>c' s com se. (c', s) \<in> set (fan_out_scoped lib (fst (remove_connection r c)) com se) \<longleftrightarrow>
       c' \<noteq> c \<and> (c', s) \<in> set (fan_out_scoped lib r com se))"
proof -
  note inv = registry_reachable_inv [OF assms]
  note inv' = registry_inv_remove_connection [OF inv]
  show ?thesis
    by (auto simp: idx_get_remove_connection [OF inv] routing.fan_out_iff [OF inv]
          routing.fan_out_iff [OF inv'] sub_lookup_remove_connection)
qed

theorem remove_connection_cleans_up_witness:
  "\<forall>key s. (10, s) \<notin> set (idx_get (fst (remove_connection ex_registry 10)) key)"
  using remove_connection_cleans_up [OF ex_registry_reachable] by blast

end
