(* ===== verification/Topics.thy ===== *)
theory Topics
  imports Nostr_Events
begin

text \<open>
  Event topics of the bus that joins relay nodes, \<open>crates/punks-pubsub/src/\<close>: the names of the
  topics (\<open>topic.rs\<close>), the reference counts a node keeps for the topics its subscriptions need
  (\<open>lib.rs\<close>), and the task that keeps the Redis subscription in step with them
  (\<open>subscriber.rs\<close>).

  The debounce timer of a release is an element of \<open>debounced\<close> that fires at any later time,
  and the command channel between the manager and the task is a queue.  A counter is a natural;
  that an entry is never zero, so that the decrement cannot underflow, is part of the
  invariant.  The reconnect loop appears as the step that opens a fresh connection.
\<close>

section \<open>Topic names\<close>

datatype event_topic = TopicChannel channel_id | TopicGlobal

record event_topic_key =
  tk_community_id :: community_id
  tk_topic :: event_topic

definition from_context :: "community_id \<Rightarrow> event_topic \<Rightarrow> event_topic_key" where
  "from_context com topic = \<lparr>tk_community_id = com, tk_topic = topic\<rparr>"

definition PUNKS_PREFIX :: string where "PUNKS_PREFIX = ''punks''"

definition redis_channel :: "nostr_lib \<Rightarrow> event_topic_key \<Rightarrow> string" where
  "redis_channel lib k = (case tk_topic k of
     TopicChannel ch \<Rightarrow>
       PUNKS_PREFIX @ '':'' @ uuid_to_string lib (tk_community_id k) @ '':channel:'' @ uuid_to_string lib ch
   | TopicGlobal \<Rightarrow> PUNKS_PREFIX @ '':'' @ uuid_to_string lib (tk_community_id k) @ '':global'')"

datatype pubsub_error = InvalidChannelKey string

definition parse_redis_channel :: "nostr_lib \<Rightarrow> string \<Rightarrow> (pubsub_error, event_topic_key) result" where
  "parse_redis_channel lib channel =
     (let invalid = Inl (InvalidChannelKey channel) in
      case split_on (CHR '':'') channel of
        [] \<Rightarrow> invalid
      | prefix # rest \<Rightarrow>
          if prefix \<noteq> PUNKS_PREFIX then invalid
          else (case rest of
            [] \<Rightarrow> invalid
          | community # rest1 \<Rightarrow>
              (case uuid_parse lib community of
                 None \<Rightarrow> invalid
               | Some com \<Rightarrow>
                   (case rest1 of
                      [] \<Rightarrow> invalid
                    | scope # rest2 \<Rightarrow>
                        if scope = ''global'' then
                          (case rest2 of
                             [] \<Rightarrow> Inr \<lparr>tk_community_id = com, tk_topic = TopicGlobal\<rparr>
                           | _ # _ \<Rightarrow> invalid)
                        else if scope = ''channel'' then
                          (case rest2 of
                             [] \<Rightarrow> invalid
                           | channel_id # rest3 \<Rightarrow>
                               (case rest3 of
                                  _ # _ \<Rightarrow> invalid
                                | [] \<Rightarrow>
                                    (case uuid_parse lib channel_id of
                                       None \<Rightarrow> invalid
                                     | Some ch \<Rightarrow>
                                         Inr \<lparr>tk_community_id = com, tk_topic = TopicChannel ch\<rparr>)))
                        else invalid))))"

section \<open>Reference counts\<close>

datatype subscription_command = Subscribe event_topic_key | UnsubscribeIfIdle event_topic_key

record bus =
  desired_topics :: "(event_topic_key \<times> nat) list"
  command_queue :: "subscription_command list"
  debounced :: "event_topic_key list"
  active_topics :: "string list"

definition bus_new :: bus where
  "bus_new = \<lparr>desired_topics = [], command_queue = [], debounced = [], active_topics = []\<rparr>"

definition topic_refcount :: "bus \<Rightarrow> event_topic_key \<Rightarrow> nat" where
  "topic_refcount b k = (case map_of (desired_topics b) k of Some n \<Rightarrow> n | None \<Rightarrow> 0)"

definition retain_topic :: "event_topic_key \<Rightarrow> bus \<Rightarrow> bus" where
  "retain_topic k b =
     (let count = (case map_of (desired_topics b) k of Some n \<Rightarrow> n | None \<Rightarrow> 0);
          was_zero = (count = 0);
          b1 = b\<lparr>desired_topics := AList.update k (count + 1) (desired_topics b)\<rparr>
      in if was_zero then b1\<lparr>command_queue := command_queue b1 @ [Subscribe k]\<rparr> else b1)"

definition release_topic :: "event_topic_key \<Rightarrow> bus \<Rightarrow> bus" where
  "release_topic k b = (case map_of (desired_topics b) k of
     None \<Rightarrow> b
   | Some count \<Rightarrow>
       let count' = count - 1 in
       if count' = 0
       then b\<lparr>desired_topics := AList.delete k (desired_topics b), debounced := debounced b @ [k]\<rparr>
       else b\<lparr>desired_topics := AList.update k count' (desired_topics b)\<rparr>)"

section \<open>The subscriber task\<close>

definition fire_debounce :: "event_topic_key \<Rightarrow> bus \<Rightarrow> bus" where
  "fire_debounce k b =
     b\<lparr>debounced := remove1 k (debounced b), command_queue := command_queue b @ [UnsubscribeIfIdle k]\<rparr>"

definition connect_and_subscribe :: "nostr_lib \<Rightarrow> bus \<Rightarrow> bus" where
  "connect_and_subscribe lib b =
     b\<lparr>active_topics :=
         fold (\<lambda>k active. List.insert (redis_channel lib k) active)
           (map fst (filter (\<lambda>(k, count). count > 0) (desired_topics b))) []\<rparr>"

definition handle_command :: "nostr_lib \<Rightarrow> subscription_command \<Rightarrow> bus \<Rightarrow> bus" where
  "handle_command lib cmd b = (case cmd of
     Subscribe k \<Rightarrow> b\<lparr>active_topics := List.insert (redis_channel lib k) (active_topics b)\<rparr>
   | UnsubscribeIfIdle k \<Rightarrow>
       if topic_refcount b k = 0
       then b\<lparr>active_topics := removeAll (redis_channel lib k) (active_topics b)\<rparr>
       else b)"

definition recv_command :: "nostr_lib \<Rightarrow> bus \<Rightarrow> bus" where
  "recv_command lib b = (case command_queue b of
     [] \<Rightarrow> b
   | cmd # rest \<Rightarrow> handle_command lib cmd (b\<lparr>command_queue := rest\<rparr>))"

section \<open>Topic names are unambiguous\<close>

definition uuid_codec :: "nostr_lib \<Rightarrow> bool" where
  "uuid_codec lib =
     (\<forall>u. uuid_parse lib (uuid_to_string lib u) = Some u \<and> CHR '':'' \<notin> set (uuid_to_string lib u))"

lemma redis_channel_split:
  assumes "uuid_codec lib"
  shows "split_on (CHR '':'') (redis_channel lib k) =
     [PUNKS_PREFIX, uuid_to_string lib (tk_community_id k)] @
     (case tk_topic k of TopicChannel ch \<Rightarrow> [''channel'', uuid_to_string lib ch] | TopicGlobal \<Rightarrow> [''global''])"
proof -
  let ?parts = "[PUNKS_PREFIX, uuid_to_string lib (tk_community_id k)] @
     (case tk_topic k of TopicChannel ch \<Rightarrow> [''channel'', uuid_to_string lib ch] | TopicGlobal \<Rightarrow> [''global''])"
  have "redis_channel lib k = join_with (CHR '':'') ?parts"
    by (simp add: redis_channel_def split: event_topic.splits)
  moreover have "CHR '':'' \<notin> set w" if "w \<in> set ?parts" for w
    using that assms by (auto simp: uuid_codec_def PUNKS_PREFIX_def split: event_topic.splits)
  ultimately show ?thesis using split_join [of ?parts "CHR '':''"] by (simp only:) simp
qed

lemma parse_redis_channel_inverse:
  "uuid_codec lib \<Longrightarrow> parse_redis_channel lib (redis_channel lib k) = Inr k"
  by (cases k) (auto simp: parse_redis_channel_def redis_channel_split uuid_codec_def split: event_topic.splits)

lemma redis_channel_inj: "uuid_codec lib \<Longrightarrow> redis_channel lib k = redis_channel lib k' \<longleftrightarrow> k = k'"
  by (metis parse_redis_channel_inverse sum.inject(2))

section \<open>The subscription follows the counts\<close>

abbreviation wanted :: "bus \<Rightarrow> event_topic_key \<Rightarrow> bool" where
  "wanted b k \<equiv> topic_refcount b k > 0"

fun unsub_after :: "event_topic_key \<Rightarrow> subscription_command list \<Rightarrow> bool" where
  "unsub_after k [] = False"
| "unsub_after k (cmd # q) =
     (unsub_after k q \<or> (cmd = UnsubscribeIfIdle k \<and> Subscribe k \<notin> set q))"

definition bus_inv :: "nostr_lib \<Rightarrow> bus \<Rightarrow> bool" where
  "bus_inv lib b =
     ((\<forall>p \<in> set (desired_topics b). snd p > 0) \<and>
      distinct (map fst (desired_topics b)) \<and>
      set (active_topics b) \<subseteq> range (redis_channel lib) \<and>
      (\<forall>k. wanted b k \<longrightarrow>
         redis_channel lib k \<in> set (active_topics b) \<or> Subscribe k \<in> set (command_queue b)) \<and>
      (\<forall>k. \<not> wanted b k \<longrightarrow>
         k \<in> set (debounced b) \<or> unsub_after k (command_queue b) \<or>
         (redis_channel lib k \<notin> set (active_topics b) \<and> Subscribe k \<notin> set (command_queue b))))"

lemma unsub_after_append:
  "unsub_after k (q @ [Subscribe k']) = (unsub_after k q \<and> k \<noteq> k')"
  "unsub_after k (q @ [UnsubscribeIfIdle k']) = (unsub_after k q \<or> k = k')"
  by (induction q) auto

lemma topic_refcount_retain:
  "topic_refcount (retain_topic k b) k' = topic_refcount b k' + (if k' = k then 1 else 0)"
  by (simp add: topic_refcount_def retain_topic_def Let_def update_conv')

lemma topic_refcount_release:
  "topic_refcount (release_topic k b) k' = topic_refcount b k' - (if k' = k then 1 else 0)"
  by (auto simp: topic_refcount_def release_topic_def Let_def update_conv' delete_conv' split: option.splits)

lemma bus_inv_retain: "bus_inv lib b \<Longrightarrow> bus_inv lib (retain_topic k b)"
  unfolding bus_inv_def topic_refcount_retain
  by (auto simp: retain_topic_def Let_def set_update_distinct unsub_after_append distinct_update
      topic_refcount_def split: option.splits if_splits)

lemma bus_inv_release: "bus_inv lib b \<Longrightarrow> bus_inv lib (release_topic k b)"
  unfolding bus_inv_def topic_refcount_release
  by (auto simp: release_topic_def Let_def set_update_distinct set_delete distinct_update distinct_delete
      topic_refcount_def split: option.splits if_splits)

lemma topic_refcount_task [simp]:
  "topic_refcount (fire_debounce k b) = topic_refcount b"
  "topic_refcount (connect_and_subscribe lib b) = topic_refcount b"
  "topic_refcount (b\<lparr>command_queue := q\<rparr>) = topic_refcount b"
  "topic_refcount (b\<lparr>active_topics := a\<rparr>) = topic_refcount b"
  by (simp_all add: topic_refcount_def fire_debounce_def connect_and_subscribe_def fun_eq_iff)

lemma topic_refcount_recv [simp]: "topic_refcount (recv_command lib b) = topic_refcount b"
  by (simp add: recv_command_def handle_command_def split: list.splits subscription_command.splits)

lemma bus_inv_fire: "bus_inv lib b \<Longrightarrow> bus_inv lib (fire_debounce k b)"
  unfolding bus_inv_def topic_refcount_task
  by (simp add: fire_debounce_def unsub_after_append) (metis in_set_remove1)

lemma set_connect:
  assumes "uuid_codec lib" and "bus_inv lib b"
  shows "redis_channel lib k \<in> set (active_topics (connect_and_subscribe lib b)) \<longleftrightarrow> wanted b k"
    and "set (active_topics (connect_and_subscribe lib b)) \<subseteq> range (redis_channel lib)"
proof -
  have fold: "set (fold (\<lambda>k active. List.insert (redis_channel lib k) active) ks acc) =
      redis_channel lib ` set ks \<union> set acc" for ks acc
    by (induction ks arbitrary: acc) auto
  have "wanted b k \<longleftrightarrow> (\<exists>n. (k, n) \<in> set (desired_topics b) \<and> n > 0)"
    using assms(2) by (auto simp: topic_refcount_def bus_inv_def split: option.splits dest: map_of_is_SomeI)
  then show "redis_channel lib k \<in> set (active_topics (connect_and_subscribe lib b)) \<longleftrightarrow> wanted b k"
    by (simp add: connect_and_subscribe_def fold image_image image_iff redis_channel_inj [OF assms(1)])
  show "set (active_topics (connect_and_subscribe lib b)) \<subseteq> range (redis_channel lib)"
    by (auto simp: connect_and_subscribe_def fold)
qed

lemma bus_inv_connect:
  "uuid_codec lib \<Longrightarrow> bus_inv lib b \<Longrightarrow> bus_inv lib (connect_and_subscribe lib b)"
  using set_connect [of lib b]
  by (simp add: bus_inv_def) (simp add: connect_and_subscribe_def, blast)

lemma bus_inv_recv:
  assumes "uuid_codec lib" and "bus_inv lib b"
  shows "bus_inv lib (recv_command lib b)"
proof (cases "command_queue b")
  case (Cons cmd rest)
  show ?thesis
  proof (cases cmd)
    case (Subscribe k)
    with assms(2) Cons show ?thesis
      by (auto simp: bus_inv_def recv_command_def handle_command_def redis_channel_inj [OF assms(1)])
  next
    case (UnsubscribeIfIdle k)
    show ?thesis
    proof (cases "topic_refcount b k = 0")
      case True
      with assms(2) Cons UnsubscribeIfIdle show ?thesis
        by (auto simp: bus_inv_def recv_command_def handle_command_def redis_channel_inj [OF assms(1)])
    next
      case False
      then have "topic_refcount b k' = 0 \<Longrightarrow> k \<noteq> k'" for k' by auto
      with False assms(2) Cons UnsubscribeIfIdle show ?thesis
        by (simp add: bus_inv_def recv_command_def handle_command_def)
    qed
  qed
qed (use assms in \<open>simp add: recv_command_def\<close>)

text \<open>The steps of a node's bus, in any order: the relay retains and releases topics, timers fire, the
  task receives commands, and the connection is lost and opened again.\<close>

inductive bus_step :: "nostr_lib \<Rightarrow> bus \<Rightarrow> bus \<Rightarrow> bool" for lib where
  bus_retain: "bus_step lib b (retain_topic k b)"
| bus_release: "bus_step lib b (release_topic k b)"
| bus_fire: "k \<in> set (debounced b) \<Longrightarrow> bus_step lib b (fire_debounce k b)"
| bus_recv: "bus_step lib b (recv_command lib b)"
| bus_connect: "bus_step lib b (connect_and_subscribe lib b)"

inductive bus_reachable :: "nostr_lib \<Rightarrow> bus \<Rightarrow> bool" for lib where
  bus_init: "bus_reachable lib bus_new"
| bus_next: "bus_reachable lib b \<Longrightarrow> bus_step lib b b' \<Longrightarrow> bus_reachable lib b'"

lemma bus_reachable_inv:
  assumes "uuid_codec lib"
  shows "bus_reachable lib b \<Longrightarrow> bus_inv lib b"
proof (induction rule: bus_reachable.induct)
  case bus_init
  show ?case by (simp add: bus_inv_def bus_new_def topic_refcount_def)
next
  case (bus_next b b')
  from bus_next.hyps(2) bus_next.IH show ?case
    by cases (auto intro: bus_inv_retain bus_inv_release bus_inv_fire bus_inv_recv bus_inv_connect assms)
qed

text \<open>Draining: every timer fires, then every queued command is received.\<close>

definition settle :: "nostr_lib \<Rightarrow> bus \<Rightarrow> bus" where
  "settle lib b =
     (let b1 = fold fire_debounce (debounced b) b
      in (recv_command lib ^^ length (command_queue b1)) b1)"

lemma fire_all:
  "bus_inv lib b \<Longrightarrow> debounced b = ks @ rest \<Longrightarrow>
     bus_inv lib (fold fire_debounce ks b) \<and> debounced (fold fire_debounce ks b) = rest \<and>
     topic_refcount (fold fire_debounce ks b) = topic_refcount b"
proof (induction ks arbitrary: b)
  case (Cons k ks)
  have "debounced (fire_debounce k b) = ks @ rest" using Cons.prems by (simp add: fire_debounce_def)
  from Cons.IH [OF bus_inv_fire [OF Cons.prems(1)] this] show ?case by simp
qed simp

lemma recv_all:
  assumes "uuid_codec lib"
  shows "bus_inv lib b \<Longrightarrow> length (command_queue b) = n \<Longrightarrow>
     bus_inv lib ((recv_command lib ^^ n) b) \<and> command_queue ((recv_command lib ^^ n) b) = [] \<and>
     debounced ((recv_command lib ^^ n) b) = debounced b \<and>
     topic_refcount ((recv_command lib ^^ n) b) = topic_refcount b"
proof (induction n arbitrary: b)
  case (Suc n)
  have "length (command_queue (recv_command lib b)) = n" "debounced (recv_command lib b) = debounced b"
    using Suc.prems(2)
    by (auto simp: recv_command_def handle_command_def length_Suc_conv split: subscription_command.splits)
  with Suc.IH [OF bus_inv_recv [OF assms Suc.prems(1)]] show ?case
    by (simp add: funpow_swap1)
qed simp

lemma quiet_bus:
  assumes "bus_inv lib b" "command_queue b = []" "debounced b = []"
  shows "set (active_topics b) = redis_channel lib ` {k. wanted b k}"
  using assms by (fastforce simp: bus_inv_def)

text \<open>The bus subscription converges on the reference counts: from any state the relay can reach,
  reconnects and reordered timers included, once the pending timers have fired and the queued
  commands are received the node is subscribed to exactly the topics with a positive count.\<close>

lemma settle_active:
  assumes "uuid_codec lib" and "bus_reachable lib b"
  shows "set (active_topics (settle lib b)) = redis_channel lib ` {k. topic_refcount b k > 0} \<and>
    command_queue (settle lib b) = [] \<and> debounced (settle lib b) = []"
proof -
  define b1 where "b1 = fold fire_debounce (debounced b) b"
  have b1: "bus_inv lib b1" "debounced b1 = []" "topic_refcount b1 = topic_refcount b"
    using fire_all [OF bus_reachable_inv [OF assms], of "debounced b" "[]"] by (auto simp: b1_def)
  have "settle lib b = (recv_command lib ^^ length (command_queue b1)) b1"
    by (simp add: settle_def b1_def Let_def)
  with recv_all [OF assms(1) b1(1) refl] b1 quiet_bus [of lib "settle lib b"] show ?thesis by simp
qed

definition ex_codec :: nostr_lib where
  "ex_codec = \<lparr>uuid_to_string = decimal, uuid_parse = (\<lambda>s. Some (undecimal s)),
     id_to_hex = (\<lambda>b. map (\<lambda>w. char_of (unat w)) b), pubkey_to_hex = (\<lambda>b. map (\<lambda>w. char_of (unat w)) b),
     hex_encode = (\<lambda>b. map (\<lambda>w. char_of (unat w)) b)\<rparr>"

lemma ex_codec_ok: "uuid_codec ex_codec"
proof -
  have "\<not> is_ascii_digit (CHR '':'')" by (simp add: is_ascii_digit_def)
  then have "CHR '':'' \<notin> set (decimal u)" for u
    using decimal_digits [of u] by (auto simp: list_all_iff)
  then show ?thesis by (simp add: uuid_codec_def ex_codec_def undecimal_decimal)
qed

text \<open>A topic's name on the bus identifies its community and channel: parsing the name gives the
  key back, so no two topics share a name.\<close>

theorem topic_name_round_trip:
  assumes "uuid_codec lib"
  shows "parse_redis_channel lib (redis_channel lib k) = Inr k \<and>
    (redis_channel lib k = redis_channel lib k' \<longleftrightarrow> k = k')"
  using parse_redis_channel_inverse [OF assms] redis_channel_inj [OF assms] by simp

theorem topic_name_round_trip_witness:
  "parse_redis_channel ex_codec (redis_channel ex_codec (from_context 1 (TopicChannel 5))) =
     Inr (from_context 1 (TopicChannel 5))"
  using topic_name_round_trip [OF ex_codec_ok] by simp

end
