(* ===== verification/Live_Delivery.thy ===== *)
theory Live_Delivery
  imports Read_Gates Subscription_Routing Topics
begin

text \<open>
  Live delivery, \<open>crates/punks-relay/src/handlers/event.rs\<close> with the caches of
  \<open>crates/punks-relay/src/state.rs\<close>: the access gate every recipient of a fan-out passes, the
  relay-local fan-out, the fan-out of an event that arrives from another node, and the
  post-commit dispatch of a stored event.

  The state of a relay node is the record \<open>relay\<close>.  What the node calls outside its own memory
  is the parameter record \<open>relay_env\<close>: the database's answers, the publication to the event
  bus, the serialiser, and whether a connection's buffer accepts a frame.  A cache entry that
  expires or is evicted is an environment step (\<open>cache_step\<close>), so a lookup may miss at any
  time.  Metrics and log lines have no counterpart.
\<close>

section \<open>State\<close>

type_synonym db_error = string

record conn_entry =
  ce_community_id :: community_id
  ce_authenticated_pubkey :: "bytes option"

record threaded_channel_visibility =
  tv_community_id :: community_id
  tv_channel_id :: channel_id
  tv_visibility :: string

record relay =
  connections :: "(conn_id \<times> conn_entry) list"
  sub_registry :: registry
  membership_cache :: "((community_id \<times> channel_id \<times> bytes) \<times> bool) list"
  channel_visibility_cache :: "((community_id \<times> channel_id) \<times> string) list"
  accessible_channels_cache :: "((community_id \<times> bytes) \<times> channel_id list) list"
  local_event_ids :: "(community_id \<times> event_id) list"

record relay_env =
  env_lib :: nostr_lib
  db_is_member :: "community_id \<Rightarrow> channel_id \<Rightarrow> bytes \<Rightarrow> (db_error, bool) result"
  db_channel_visibility :: "community_id \<Rightarrow> channel_id \<Rightarrow> (db_error, string) result"
  db_accessible_channel_ids :: "community_id \<Rightarrow> bytes \<Rightarrow> (db_error, channel_id list) result"
  publish_event :: "community_id \<Rightarrow> event_topic \<Rightarrow> event \<Rightarrow> bool"
  event_to_json :: "event \<Rightarrow> string option"
  send_text_bytes :: "conn_id \<Rightarrow> string \<Rightarrow> bool"
  relay_public_key :: pubkey

section \<open>Lookups\<close>

definition community_for_conn :: "relay \<Rightarrow> conn_id \<Rightarrow> community_id option" where
  "community_for_conn r c = map_option ce_community_id (map_of (connections r) c)"

definition pubkey_for_conn :: "relay \<Rightarrow> conn_id \<Rightarrow> bytes option" where
  "pubkey_for_conn r c = Option.bind (map_of (connections r) c) ce_authenticated_pubkey"

definition is_member_cached ::
    "relay_env \<Rightarrow> community_id \<Rightarrow> channel_id \<Rightarrow> bytes \<Rightarrow> relay \<Rightarrow> (db_error, bool) result \<times> relay" where
  "is_member_cached env com ch pk r = (case map_of (membership_cache r) (com, ch, pk) of
     Some cached \<Rightarrow> (Inr cached, r)
   | None \<Rightarrow> (case db_is_member env com ch pk of
       Inl e \<Rightarrow> (Inl e, r)
     | Inr b \<Rightarrow> (Inr b, r\<lparr>membership_cache := AList.update (com, ch, pk) b (membership_cache r)\<rparr>)))"

definition get_accessible_channel_ids_cached ::
    "relay_env \<Rightarrow> community_id \<Rightarrow> bytes \<Rightarrow> relay \<Rightarrow> (db_error, channel_id list) result \<times> relay" where
  "get_accessible_channel_ids_cached env com pk r = (case map_of (accessible_channels_cache r) (com, pk) of
     Some cached \<Rightarrow> (Inr cached, r)
   | None \<Rightarrow> (case db_accessible_channel_ids env com pk of
       Inl e \<Rightarrow> (Inl e, r)
     | Inr chs \<Rightarrow>
         (Inr chs, r\<lparr>accessible_channels_cache := AList.update (com, pk) chs (accessible_channels_cache r)\<rparr>)))"

definition channel_visibility_cached ::
    "relay_env \<Rightarrow> community_id \<Rightarrow> channel_id \<Rightarrow> string option \<Rightarrow> relay \<Rightarrow>
     (db_error, string) result \<times> relay" where
  "channel_visibility_cached env com ch prefetched r = (case map_of (channel_visibility_cache r) (com, ch) of
     Some cached \<Rightarrow> (Inr cached, r)
   | None \<Rightarrow>
       (case (case prefetched of Some v \<Rightarrow> Inr v | None \<Rightarrow> db_channel_visibility env com ch) of
          Inl e \<Rightarrow> (Inl e, r)
        | Inr v \<Rightarrow>
            (Inr v,
             if v = ''private''
             then r\<lparr>channel_visibility_cache := AList.update (com, ch) v (channel_visibility_cache r)\<rparr>
             else r)))"

definition mark_local_event :: "community_id \<Rightarrow> event_id \<Rightarrow> relay \<Rightarrow> relay" where
  "mark_local_event com i r = r\<lparr>local_event_ids := List.insert (com, i) (local_event_ids r)\<rparr>"

definition unmark_local_event :: "community_id \<Rightarrow> event_id \<Rightarrow> relay \<Rightarrow> relay" where
  "unmark_local_event com i r = r\<lparr>local_event_ids := removeAll (com, i) (local_event_ids r)\<rparr>"

definition invalidate_membership_local :: "community_id \<Rightarrow> channel_id \<Rightarrow> bytes \<Rightarrow> relay \<Rightarrow> relay" where
  "invalidate_membership_local com ch pk r =
     r\<lparr>membership_cache := AList.delete (com, ch, pk) (membership_cache r),
       accessible_channels_cache := AList.delete (com, pk) (accessible_channels_cache r)\<rparr>"

section \<open>The access gate\<close>

definition author_gate :: "relay \<Rightarrow> stored_event \<Rightarrow> recipient list \<Rightarrow> recipient list" where
  "author_gate r se matches =
     (if ev_kind (se_event se) \<in> set AUTHOR_ONLY_KINDS then
        filter (\<lambda>(c, s). some_and (\<lambda>pk. pk = ev_pubkey (se_event se)) (pubkey_for_conn r c)) matches
      else matches)"

definition shared_gate :: "relay \<Rightarrow> stored_event \<Rightarrow> recipient list \<Rightarrow> recipient list" where
  "shared_gate r se matches =
     (if is_shared_gated_kind (ev_kind (se_event se)) then
        filter (\<lambda>(c, s). case pubkey_for_conn r c of
            None \<Rightarrow> False
          | Some pk \<Rightarrow>
              if pk = ev_pubkey (se_event se) then True
              else \<not> is_unshared_gated_event (se_event se) pk) matches
      else matches)"

fun keep_members ::
    "relay_env \<Rightarrow> community_id \<Rightarrow> channel_id \<Rightarrow> recipient list \<Rightarrow> relay \<Rightarrow> recipient list \<times> relay" where
  "keep_members env com ch [] r = ([], r)"
| "keep_members env com ch ((c, s) # ms) r = (case pubkey_for_conn r c of
     None \<Rightarrow> keep_members env com ch ms r
   | Some pk \<Rightarrow>
       (case is_member_cached env com ch pk r of
          (Inr True, r1) \<Rightarrow> (case keep_members env com ch ms r1 of (rest, r2) \<Rightarrow> ((c, s) # rest, r2))
        | (_, r1) \<Rightarrow> keep_members env com ch ms r1))"

definition filter_fanout_by_access ::
    "relay_env \<Rightarrow> community_id \<Rightarrow> stored_event \<Rightarrow> recipient list \<Rightarrow>
     threaded_channel_visibility option \<Rightarrow> relay \<Rightarrow> recipient list \<times> relay" where
  "filter_fanout_by_access env com se matches threaded r =
     (let m1 = filter (\<lambda>(c, s). community_for_conn r c = Some com) matches;
          m2 = author_gate r se m1;
          m3 = shared_gate r se m2
      in case se_channel_id se of
           None \<Rightarrow> (m3, r)
         | Some ch \<Rightarrow>
             (let (visibility, r1) =
                (case threaded of
                   Some t \<Rightarrow>
                     if tv_community_id t = com \<and> tv_channel_id t = ch then (Inr (tv_visibility t), r)
                     else channel_visibility_cached env com ch None r
                 | None \<Rightarrow> channel_visibility_cached env com ch None r)
              in case visibility of
                   Inl e \<Rightarrow> ([], r1)
                 | Inr v \<Rightarrow> if v \<noteq> ''private'' then (m3, r1) else keep_members env com ch m3 r1))"

section \<open>Frames\<close>

definition event_frame_for_sub :: "sub_id \<Rightarrow> string \<Rightarrow> string" where
  "event_frame_for_sub s json =
     ''['' @ [CHR 0x22] @ ''EVENT'' @ [CHR 0x22] @ '','' @ [CHR 0x22] @ s @ [CHR 0x22] @ '','' @ json @ '']''"

definition fanout_frame_cache :: "sub_id list \<Rightarrow> string \<Rightarrow> (sub_id \<times> string) list" where
  "fanout_frame_cache ss json =
     fold (\<lambda>s frames. case map_of frames s of
         Some _ \<Rightarrow> frames
       | None \<Rightarrow> frames @ [(s, event_frame_for_sub s json)]) ss []"

text \<open>The frames handed to the connections, in order, and the number the connections refused.  A
  missing frame is the \<open>expect\<close> of the source, a panic: the outcome \<open>None\<close>.\<close>

fun send_fanout_frames ::
    "relay_env \<Rightarrow> recipient list \<Rightarrow> (sub_id \<times> string) list \<Rightarrow> ((conn_id \<times> string) list \<times> nat) option" where
  "send_fanout_frames env [] frames = Some ([], 0)"
| "send_fanout_frames env ((c, s) # rs) frames = (case map_of frames s of
     None \<Rightarrow> None
   | Some frame \<Rightarrow> (case send_fanout_frames env rs frames of
       None \<Rightarrow> None
     | Some (sent, dropped) \<Rightarrow>
         Some ((c, frame) # sent, if send_text_bytes env c frame then dropped else Suc dropped)))"

definition send_event :: "relay_env \<Rightarrow> recipient list \<Rightarrow> string \<Rightarrow> ((conn_id \<times> string) list \<times> nat) option" where
  "send_event env rs json = send_fanout_frames env rs (fanout_frame_cache (map snd rs) json)"

section \<open>The three fan-out paths\<close>

definition fan_out_event_to_local_subscribers ::
    "relay_env \<Rightarrow> community_id \<Rightarrow> stored_event \<Rightarrow> relay \<Rightarrow>
     ((conn_id \<times> string) list \<times> nat) option \<times> relay" where
  "fan_out_event_to_local_subscribers env com se r =
     (let (matches, r1) =
            filter_fanout_by_access env com se (fan_out_scoped (env_lib env) (sub_registry r) com se) None r
      in if matches = [] then (Some ([], 0), r1)
         else case event_to_json env (se_event se) of
                None \<Rightarrow> (Some ([], 0), r1)
              | Some json \<Rightarrow> (send_event env matches json, r1))"

definition fan_out_pubsub_event ::
    "relay_env \<Rightarrow> timestamp \<Rightarrow> community_id \<Rightarrow> event_topic \<Rightarrow> event \<Rightarrow> relay \<Rightarrow>
     ((conn_id \<times> string) list \<times> nat) option \<times> relay" where
  "fan_out_pubsub_event env now com topic e r =
     (let ch = (case topic of TopicChannel i \<Rightarrow> Some i | TopicGlobal \<Rightarrow> None);
          se = stored_event_new now e ch
      in if (com, ev_id e) \<in> set (local_event_ids r) then
           (Some ([], 0), unmark_local_event com (ev_id e) r)
         else
           (let (matches, r1) =
                  filter_fanout_by_access env com se (fan_out_scoped (env_lib env) (sub_registry r) com se) None r
            in if matches = [] then (Some ([], 0), r1)
               else case event_to_json env (se_event se) of
                      None \<Rightarrow> (Some ([], 0), r1)
                    | Some json \<Rightarrow> (send_event env matches json, r1)))"

definition private_event_owner :: "event \<Rightarrow> kind \<Rightarrow> string option" where
  "private_event_owner e k =
     (if k = KIND_DM_VISIBILITY \<or> k = KIND_AGENT_TURN_METRIC
      then (case List.map_filter tag_content (filter (\<lambda>t. tag_kind t = ''p'') (ev_tags e)) of
              [] \<Rightarrow> None
            | owner # _ \<Rightarrow> Some owner)
      else None)"

definition owner_gate :: "relay_env \<Rightarrow> relay \<Rightarrow> string option \<Rightarrow> recipient list \<Rightarrow> recipient list" where
  "owner_gate env r owner matches = (case owner of
     None \<Rightarrow> matches
   | Some owner_hex \<Rightarrow>
       filter (\<lambda>(c, s). some_and (\<lambda>pk. hex_encode (env_lib env) pk = owner_hex) (pubkey_for_conn r c)) matches)"

definition triggers_workflows :: "relay_env \<Rightarrow> event \<Rightarrow> kind \<Rightarrow> bool" where
  "triggers_workflows env e k =
     (let is_relay_workflow_msg =
            (ev_pubkey e = relay_public_key env \<and>
             (\<exists>t \<in> set (ev_tags e). t \<noteq> [] \<and> hd t = ''punks:workflow''))
      in \<not> is_workflow_execution_kind k \<and> \<not> is_command_kind k \<and> \<not> is_relay_workflow_msg \<and>
         k \<noteq> KIND_GIFT_WRAP)"

text \<open>The outcome of a dispatch: the frames sent, the frames refused, the number the function
  returns, and the event it hands to the workflow engine, if any, with its community.\<close>

record dispatch_outcome =
  d_sent :: "(conn_id \<times> string) list"
  d_dropped :: nat
  d_returned :: nat
  d_workflow :: "(community_id \<times> stored_event) option"

definition dispatch_persistent_event_inner ::
    "relay_env \<Rightarrow> community_id \<Rightarrow> stored_event \<Rightarrow> kind \<Rightarrow> threaded_channel_visibility option \<Rightarrow> relay \<Rightarrow>
     dispatch_outcome option \<times> relay" where
  "dispatch_persistent_event_inner env com se k threaded r =
     (let e = se_event se;
          topic = (case se_channel_id se of Some ch \<Rightarrow> TopicChannel ch | None \<Rightarrow> TopicGlobal);
          r1 = mark_local_event com (ev_id e) r;
          r2 = (if publish_event env com topic e then r1 else unmark_local_event com (ev_id e) r1);
          (matches, r3) =
            filter_fanout_by_access env com se (fan_out_scoped (env_lib env) (sub_registry r2) com se) threaded r2
      in case event_to_json env e of
           None \<Rightarrow> (Some \<lparr>d_sent = [], d_dropped = 0, d_returned = 0, d_workflow = None\<rparr>, r3)
         | Some json \<Rightarrow>
             (case send_event env (owner_gate env r3 (private_event_owner e k) matches) json of
                None \<Rightarrow> (None, r3)
              | Some (sent, dropped) \<Rightarrow>
                  (Some \<lparr>d_sent = sent, d_dropped = dropped, d_returned = length matches,
                     d_workflow = (if triggers_workflows env e k then Some (com, se) else None)\<rparr>, r3)))"

section \<open>Read-through caches\<close>

text \<open>The interface of a cached lookup: it answers what the node currently believes, and filling the
  cache changes neither the beliefs nor the part of the state the callers look at.  A loop that
  filters a list with such a lookup, threading the state, is a plain filter.\<close>

fun keep_by ::
    "('s \<Rightarrow> 'a \<Rightarrow> 'k option) \<Rightarrow> ('k \<Rightarrow> 's \<Rightarrow> ('e, bool) result \<times> 's) \<Rightarrow> 'a list \<Rightarrow> 's \<Rightarrow> 'a list \<times> 's" where
  "keep_by key lookup [] s = ([], s)"
| "keep_by key lookup (x # xs) s = (case key s x of
     None \<Rightarrow> keep_by key lookup xs s
   | Some k \<Rightarrow>
       (case lookup k s of
          (Inr True, s1) \<Rightarrow> (case keep_by key lookup xs s1 of (rest, s2) \<Rightarrow> (x # rest, s2))
        | (_, s1) \<Rightarrow> keep_by key lookup xs s1))"

locale read_through =
  fixes lookup :: "'k \<Rightarrow> 's \<Rightarrow> ('e, 'v) result \<times> 's"
    and belief :: "'s \<Rightarrow> 'k \<Rightarrow> ('e, 'v) result"
    and view :: "'s \<Rightarrow> 'w"
  assumes lookup_answer: "fst (lookup k s) = belief s k"
    and lookup_belief: "belief (snd (lookup k s)) = belief s"
    and lookup_view: "view (snd (lookup k s)) = view s"
begin

lemma lookup_cases:
  obtains s' where "lookup k s = (belief s k, s')" "belief s' = belief s" "view s' = view s"
  using lookup_answer [of k s] lookup_belief [of k s] lookup_view [of k s]
  by (cases "lookup k s") auto

end

locale read_through_filter = read_through lookup belief view
  for lookup :: "'k \<Rightarrow> 's \<Rightarrow> ('e, bool) result \<times> 's" and belief and view :: "'s \<Rightarrow> 'w" +
  fixes key :: "'s \<Rightarrow> 'a \<Rightarrow> 'k option"
  assumes key_view: "view s = view s' \<Longrightarrow> key s = key s'"
begin

lemma keep_by_filter:
  "fst (keep_by key lookup xs s) =
     filter (\<lambda>x. \<exists>k. key s x = Some k \<and> belief s k = Inr True) xs \<and>
   belief (snd (keep_by key lookup xs s)) = belief s \<and>
   view (snd (keep_by key lookup xs s)) = view s"
proof (induction xs arbitrary: s)
  case (Cons x xs)
  show ?case
  proof (cases "key s x")
    case (Some k)
    obtain s' where s': "lookup k s = (belief s k, s')" "belief s' = belief s" "view s' = view s"
      by (rule lookup_cases)
    note IH = Cons.IH [of s'] and key = key_view [OF s'(3)]
    show ?thesis
    proof (cases "belief s k = Inr True")
      case True
      with Some s' IH key show ?thesis by (auto split: prod.splits)
    next
      case False
      then have "keep_by key lookup (x # xs) s = keep_by key lookup xs s'"
        using Some s'(1) by (auto split: sum.splits bool.splits)
      with False Some s' IH key show ?thesis by auto
    qed
  qed (simp add: Cons.IH)
qed simp

end

section \<open>Beliefs\<close>

definition believed_member ::
    "relay_env \<Rightarrow> relay \<Rightarrow> community_id \<times> channel_id \<times> bytes \<Rightarrow> (db_error, bool) result" where
  "believed_member env r = (\<lambda>(com, ch, pk). case map_of (membership_cache r) (com, ch, pk) of
     Some b \<Rightarrow> Inr b | None \<Rightarrow> db_is_member env com ch pk)"

definition believed_visibility ::
    "relay_env \<Rightarrow> relay \<Rightarrow> community_id \<times> channel_id \<Rightarrow> (db_error, string) result" where
  "believed_visibility env r = (\<lambda>(com, ch). case map_of (channel_visibility_cache r) (com, ch) of
     Some v \<Rightarrow> Inr v | None \<Rightarrow> db_channel_visibility env com ch)"

definition believed_accessible ::
    "relay_env \<Rightarrow> relay \<Rightarrow> community_id \<times> bytes \<Rightarrow> (db_error, channel_id list) result" where
  "believed_accessible env r = (\<lambda>(com, pk). case map_of (accessible_channels_cache r) (com, pk) of
     Some chs \<Rightarrow> Inr chs | None \<Rightarrow> db_accessible_channel_ids env com pk)"

text \<open>Everything but the cache a lookup fills.\<close>

definition all_but_members :: "relay \<Rightarrow> relay" where
  "all_but_members r = r\<lparr>membership_cache := []\<rparr>"

definition all_but_visibility :: "relay \<Rightarrow> relay" where
  "all_but_visibility r = r\<lparr>channel_visibility_cache := []\<rparr>"

definition all_but_accessible :: "relay \<Rightarrow> relay" where
  "all_but_accessible r = r\<lparr>accessible_channels_cache := []\<rparr>"

lemmas cache_views = all_but_members_def all_but_visibility_def all_but_accessible_def

lemma pubkey_for_conn_cong: "connections r = connections r' \<Longrightarrow> pubkey_for_conn r = pubkey_for_conn r'"
  by (simp add: pubkey_for_conn_def fun_eq_iff)

lemma all_but_members_eqD:
  assumes "all_but_members r = all_but_members r'"
  shows "connections r = connections r'" "sub_registry r = sub_registry r'"
    "channel_visibility_cache r = channel_visibility_cache r'"
    "accessible_channels_cache r = accessible_channels_cache r'" "local_event_ids r = local_event_ids r'"
  using assms by (cases r; cases r'; simp add: all_but_members_def)+

definition member_key :: "community_id \<Rightarrow> channel_id \<Rightarrow> relay \<Rightarrow> recipient \<Rightarrow> (community_id \<times> channel_id \<times> bytes) option" where
  "member_key com ch r = (\<lambda>(c, s). map_option (\<lambda>pk. (com, ch, pk)) (pubkey_for_conn r c))"

interpretation members: read_through_filter "\<lambda>(com, ch, pk). is_member_cached env com ch pk"
    "believed_member env" all_but_members "member_key comm chan" for env comm chan
  by unfold_locales
    (auto simp: is_member_cached_def believed_member_def all_but_members_def member_key_def fun_eq_iff
       update_conv' dest: all_but_members_eqD(1) [unfolded all_but_members_def, THEN pubkey_for_conn_cong]
       split: option.splits sum.splits if_splits)

interpretation visibility: read_through "\<lambda>(com, ch). channel_visibility_cached env com ch None"
    "believed_visibility env" all_but_visibility for env
  by unfold_locales
    (auto simp: channel_visibility_cached_def believed_visibility_def all_but_visibility_def fun_eq_iff
       update_conv' split: option.splits sum.splits if_splits)

interpretation accessible: read_through "\<lambda>(com, pk). get_accessible_channel_ids_cached env com pk"
    "believed_accessible env" all_but_accessible for env
  by unfold_locales
    (auto simp: get_accessible_channel_ids_cached_def believed_accessible_def all_but_accessible_def
       fun_eq_iff update_conv' split: option.splits sum.splits if_splits)

lemma keep_members_eq:
  "keep_members env com ch ms r =
     keep_by (member_key com ch) (\<lambda>(com, ch, pk). is_member_cached env com ch pk) ms r"
proof (induction ms arbitrary: r)
  case (Cons m ms)
  obtain c s where "m = (c, s)" by (cases m)
  then show ?case
    by (cases "pubkey_for_conn r c")
       (auto simp: member_key_def Cons.IH split: prod.splits sum.splits bool.splits)
qed simp

section \<open>The gate is a pointwise check\<close>

text \<open>What a connection needs to receive an event, given the node's beliefs.\<close>

definition class_gates_ok :: "relay \<Rightarrow> event \<Rightarrow> conn_id \<Rightarrow> bool" where
  "class_gates_ok r e c =
     ((ev_kind e \<in> set AUTHOR_ONLY_KINDS \<longrightarrow> pubkey_for_conn r c = Some (ev_pubkey e)) \<and>
      (ev_kind e \<in> set SHARED_GATED_KINDS \<longrightarrow>
         (\<exists>pk. pubkey_for_conn r c = Some pk \<and> (pk = ev_pubkey e \<or> event_is_shared e))))"

definition effective_visibility ::
    "relay_env \<Rightarrow> relay \<Rightarrow> community_id \<Rightarrow> channel_id \<Rightarrow> threaded_channel_visibility option \<Rightarrow>
     (db_error, string) result" where
  "effective_visibility env r com ch threaded = (case threaded of
     Some t \<Rightarrow>
       if tv_community_id t = com \<and> tv_channel_id t = ch then Inr (tv_visibility t)
       else believed_visibility env r (com, ch)
   | None \<Rightarrow> believed_visibility env r (com, ch))"

definition channel_gate_ok ::
    "relay_env \<Rightarrow> relay \<Rightarrow> community_id \<Rightarrow> channel_id option \<Rightarrow> threaded_channel_visibility option \<Rightarrow>
     conn_id \<Rightarrow> bool" where
  "channel_gate_ok env r com ch_opt threaded c = (case ch_opt of
     None \<Rightarrow> True
   | Some ch \<Rightarrow> (case effective_visibility env r com ch threaded of
       Inl _ \<Rightarrow> False
     | Inr v \<Rightarrow> v \<noteq> ''private'' \<or>
         (\<exists>pk. pubkey_for_conn r c = Some pk \<and> believed_member env r (com, ch, pk) = Inr True)))"

definition may_receive ::
    "relay_env \<Rightarrow> relay \<Rightarrow> community_id \<Rightarrow> stored_event \<Rightarrow> threaded_channel_visibility option \<Rightarrow> conn_id \<Rightarrow> bool" where
  "may_receive env r com se threaded c =
     (community_for_conn r c = Some com \<and> class_gates_ok r (se_event se) c \<and>
      channel_gate_ok env r com (se_channel_id se) threaded c)"

lemma author_gate_eq:
  "author_gate r se ms = filter (\<lambda>(c, s). ev_kind (se_event se) \<in> set AUTHOR_ONLY_KINDS \<longrightarrow>
     pubkey_for_conn r c = Some (ev_pubkey (se_event se))) ms"
  by (auto simp: author_gate_def some_and_iff intro!: filter_cong)

lemma shared_gate_eq:
  "shared_gate r se ms = filter (\<lambda>(c, s). ev_kind (se_event se) \<in> set SHARED_GATED_KINDS \<longrightarrow>
     (\<exists>pk. pubkey_for_conn r c = Some pk \<and>
        (pk = ev_pubkey (se_event se) \<or> event_is_shared (se_event se)))) ms"
  by (auto simp: shared_gate_def is_shared_gated_kind_def is_unshared_gated_event_def
      intro!: filter_cong split: option.splits)

lemma class_gates_eq:
  "shared_gate r se (author_gate r se (filter (\<lambda>(c, s). community_for_conn r c = Some com) ms)) =
     filter (\<lambda>(c, s). community_for_conn r c = Some com \<and> class_gates_ok r (se_event se) c) ms"
  by (auto simp: author_gate_eq shared_gate_eq class_gates_ok_def intro!: filter_cong)

text \<open>What a lookup leaves unchanged, as far as any later gate can tell.\<close>

definition same_beliefs :: "relay_env \<Rightarrow> relay \<Rightarrow> relay \<Rightarrow> bool" where
  "same_beliefs env r r' =
     (connections r' = connections r \<and> sub_registry r' = sub_registry r \<and>
      local_event_ids r' = local_event_ids r \<and>
      believed_member env r' = believed_member env r \<and>
      believed_visibility env r' = believed_visibility env r \<and>
      believed_accessible env r' = believed_accessible env r)"

lemma same_beliefs_refl [simp]: "same_beliefs env r r"
  by (simp add: same_beliefs_def)

lemma same_beliefs_trans:
  "same_beliefs env r1 r2 \<Longrightarrow> same_beliefs env r2 r3 \<Longrightarrow> same_beliefs env r1 r3"
  by (simp add: same_beliefs_def)

lemma same_beliefs_keep_members: "same_beliefs env r (snd (keep_members env com ch ms r))"
  using members.keep_by_filter [where env = env and comm = com and chan = ch and xs = ms and s = r]
  by (auto simp: keep_members_eq same_beliefs_def believed_visibility_def believed_accessible_def
      dest: all_but_members_eqD)

lemma same_beliefs_visibility: "same_beliefs env r (snd (channel_visibility_cached env com ch pre r))
    \<and> fst (channel_visibility_cached env com ch None r) = believed_visibility env r (com, ch)"
  if "pre = None"
proof -
  have *: "connections r' = connections r" "sub_registry r' = sub_registry r"
      "membership_cache r' = membership_cache r" "local_event_ids r' = local_event_ids r"
      "accessible_channels_cache r' = accessible_channels_cache r"
    if "all_but_visibility r' = all_but_visibility r" for r'
    using that by (cases r; cases r'; simp add: all_but_visibility_def)+
  show ?thesis
    using visibility.lookup_answer [of env "(com, ch)" r] visibility.lookup_belief [of env "(com, ch)" r]
      * [OF visibility.lookup_view [of env "(com, ch)" r]]
    by (simp add: that same_beliefs_def believed_member_def believed_accessible_def)
qed

text \<open>The channel stage of the gate: the visibility lookup, then the membership loop.\<close>

definition channel_stage ::
    "relay_env \<Rightarrow> community_id \<Rightarrow> channel_id \<Rightarrow> recipient list \<Rightarrow> (db_error, string) result \<times> relay \<Rightarrow>
     recipient list \<times> relay" where
  "channel_stage env com ch ms = (\<lambda>(visibility, r1). case visibility of
     Inl e \<Rightarrow> ([], r1)
   | Inr v \<Rightarrow> if v \<noteq> ''private'' then (ms, r1) else keep_members env com ch ms r1)"

lemma channel_stage_eq:
  assumes "same_beliefs env r r1"
  shows "fst (channel_stage env com ch ms (vis, r1)) =
      filter (\<lambda>(c, s). case vis of Inl _ \<Rightarrow> False | Inr v \<Rightarrow> v \<noteq> ''private'' \<or>
         (\<exists>pk. pubkey_for_conn r c = Some pk \<and> believed_member env r (com, ch, pk) = Inr True)) ms \<and>
    same_beliefs env r (snd (channel_stage env com ch ms (vis, r1)))"
proof -
  have "pubkey_for_conn r1 = pubkey_for_conn r" "believed_member env r1 = believed_member env r"
    using assms by (auto simp: same_beliefs_def intro: pubkey_for_conn_cong)
  then have "fst (keep_members env com ch ms r1) =
      filter (\<lambda>(c, s). \<exists>pk. pubkey_for_conn r c = Some pk \<and> believed_member env r (com, ch, pk) = Inr True) ms"
    using members.keep_by_filter [where env = env and comm = com and chan = ch and xs = ms and s = r1]
    by (auto simp: keep_members_eq member_key_def intro!: filter_cong)
  with assms same_beliefs_trans [OF assms same_beliefs_keep_members] show ?thesis
    by (auto simp: channel_stage_def split: sum.splits)
qed

lemma filter_fanout_by_access_stages:
  "filter_fanout_by_access env com se ms threaded r =
     (let m = filter (\<lambda>(c, s). community_for_conn r c = Some com \<and> class_gates_ok r (se_event se) c) ms
      in case se_channel_id se of
           None \<Rightarrow> (m, r)
         | Some ch \<Rightarrow> channel_stage env com ch m
             (case threaded of
                Some t \<Rightarrow>
                  if tv_community_id t = com \<and> tv_channel_id t = ch then (Inr (tv_visibility t), r)
                  else channel_visibility_cached env com ch None r
              | None \<Rightarrow> channel_visibility_cached env com ch None r))"
  by (simp only: filter_fanout_by_access_def Let_def class_gates_eq channel_stage_def)

lemma effective_visibility_lookup:
  "\<exists>r1. (case threaded of
       Some t \<Rightarrow>
         if tv_community_id t = com \<and> tv_channel_id t = ch then (Inr (tv_visibility t), r)
         else channel_visibility_cached env com ch None r
     | None \<Rightarrow> channel_visibility_cached env com ch None r) = (effective_visibility env r com ch threaded, r1) \<and>
     same_beliefs env r r1"
  using same_beliefs_visibility [OF refl, of env r com ch]
  by (cases "channel_visibility_cached env com ch None r")
     (auto simp: effective_visibility_def split: option.splits)

lemma filter_fanout_by_access_eq:
  "fst (filter_fanout_by_access env com se ms threaded r) =
     filter (\<lambda>(c, s). may_receive env r com se threaded c) ms \<and>
   same_beliefs env r (snd (filter_fanout_by_access env com se ms threaded r))"
proof (cases "se_channel_id se")
  case None
  then show ?thesis
    by (simp add: filter_fanout_by_access_stages may_receive_def channel_gate_ok_def)
next
  case (Some ch)
  obtain r1 where r1: "(case threaded of
       Some t \<Rightarrow>
         if tv_community_id t = com \<and> tv_channel_id t = ch then (Inr (tv_visibility t), r)
         else channel_visibility_cached env com ch None r
     | None \<Rightarrow> channel_visibility_cached env com ch None r) = (effective_visibility env r com ch threaded, r1)"
    and same: "same_beliefs env r r1"
    using effective_visibility_lookup by metis
  show ?thesis
    using channel_stage_eq [OF same]
    by (auto simp: filter_fanout_by_access_stages Let_def Some r1 may_receive_def channel_gate_ok_def
        split: sum.splits intro!: filter_cong)
qed

end
