(* ===== verification/Delivery_Safety.thy ===== *)
theory Delivery_Safety
  imports Live_Delivery
begin

text \<open>
  Who receives a live event.  The three fan-out paths of \<open>Live_Delivery\<close> are put under one
  function, and every frame they send is shown to go to a connection of the event's community
  that subscribed to it, that passes the class gates, and that is a member when the channel is
  private, stale caches included.  The paths differ in one gate: only the dispatch path checks
  the owner of a result-gated event, and the last section shows what that means.
\<close>

section \<open>Frames\<close>

lemma frame_cache_fold:
  "map_of (fold (\<lambda>s frames. case map_of frames s of
         Some _ \<Rightarrow> frames
       | None \<Rightarrow> frames @ [(s, event_frame_for_sub s json)]) ss acc) s =
     (case map_of acc s of
        Some x \<Rightarrow> Some x
      | None \<Rightarrow> if s \<in> set ss then Some (event_frame_for_sub s json) else None)"
proof (induction ss arbitrary: acc)
  case (Cons a ss)
  show ?case
    by (cases "map_of acc a") (auto simp: Cons.IH map_add_def split: option.splits)
qed (simp split: option.splits)

lemma fanout_frame_cache_get:
  "map_of (fanout_frame_cache ss json) s =
     (if s \<in> set ss then Some (event_frame_for_sub s json) else None)"
  by (simp add: fanout_frame_cache_def frame_cache_fold)

definition frames_for :: "string \<Rightarrow> recipient list \<Rightarrow> (conn_id \<times> string) list" where
  "frames_for json rs = map (\<lambda>(c, s). (c, event_frame_for_sub s json)) rs"

definition refused :: "relay_env \<Rightarrow> (conn_id \<times> string) list \<Rightarrow> nat" where
  "refused env frames = length (filter (\<lambda>(c, frame). \<not> send_text_bytes env c frame) frames)"

lemma send_fanout_frames_total:
  assumes "\<And>c s. (c, s) \<in> set rs \<Longrightarrow> map_of frames s = Some (event_frame_for_sub s json)"
  shows "send_fanout_frames env rs frames = Some (frames_for json rs, refused env (frames_for json rs))"
  using assms
proof (induction rs)
  case (Cons m rs)
  obtain c s where m: "m = (c, s)" by (cases m)
  have "send_fanout_frames env rs frames = Some (frames_for json rs, refused env (frames_for json rs))"
    using Cons.prems by (intro Cons.IH) auto
  moreover have "map_of frames s = Some (event_frame_for_sub s json)"
    using Cons.prems [of c s] m by simp
  ultimately show ?case by (simp add: m frames_for_def refused_def)
qed (simp add: frames_for_def refused_def)

lemma send_event_eq:
  "send_event env rs json = Some (frames_for json rs, refused env (frames_for json rs))"
  unfolding send_event_def
  by (rule send_fanout_frames_total) (force simp: fanout_frame_cache_get)

section \<open>The paths under one function\<close>

datatype live_path =
    LocalFanOut
  | CrossNode timestamp
  | Dispatch kind "threaded_channel_visibility option"

fun path_threaded :: "live_path \<Rightarrow> threaded_channel_visibility option" where
  "path_threaded (Dispatch k t) = t"
| "path_threaded _ = None"

definition topic_of :: "channel_id option \<Rightarrow> event_topic" where
  "topic_of ch = (case ch of Some i \<Rightarrow> TopicChannel i | None \<Rightarrow> TopicGlobal)"

fun live_sent :: "relay_env \<Rightarrow> live_path \<Rightarrow> community_id \<Rightarrow> stored_event \<Rightarrow> relay \<Rightarrow> (conn_id \<times> string) list option" where
  "live_sent env LocalFanOut com se r =
     map_option fst (fst (fan_out_event_to_local_subscribers env com se r))"
| "live_sent env (CrossNode now) com se r =
     map_option fst (fst (fan_out_pubsub_event env now com (topic_of (se_channel_id se)) (se_event se) r))"
| "live_sent env (Dispatch k threaded) com se r =
     map_option d_sent (fst (dispatch_persistent_event_inner env com se k threaded r))"

lemma fan_out_scoped_cong:
  assumes "se_event se = se_event se'" and "se_channel_id se = se_channel_id se'"
  shows "fan_out_scoped lib g com se = fan_out_scoped lib g com se'"
proof -
  have "filters_match lib fs se = filters_match lib fs se'" for fs
    using assms by (simp add: filters_match_def filter_match_one_def generic_tag_ok_def case_prod_beta
        cong: list.pred_cong)
  with assms have "push_match lib g com se = push_match lib g com se'"
    by (auto simp: push_match_def fun_eq_iff split: option.splits)
  moreover from assms(1) have "event_p_tag_values se = event_p_tag_values se'"
    by (simp add: event_p_tag_values_def)
  ultimately show ?thesis
    using assms by (simp add: fan_out_scoped_def fan_out_candidates_def Let_def split: option.splits)
qed

lemma may_receive_cong:
  assumes "se_event se = se_event se'" and "se_channel_id se = se_channel_id se'"
  shows "may_receive env r com se threaded c = may_receive env r com se' threaded c"
  using assms by (simp add: may_receive_def)

lemma may_receive_beliefs:
  assumes "connections r' = connections r" "believed_visibility env r' = believed_visibility env r"
    and "believed_member env r' = believed_member env r"
  shows "may_receive env r' = may_receive env r"
proof -
  have "pubkey_for_conn r' = pubkey_for_conn r" "community_for_conn r' = community_for_conn r"
    using assms(1) by (simp_all add: pubkey_for_conn_def community_for_conn_def fun_eq_iff)
  moreover from assms(2) have "effective_visibility env r' = effective_visibility env r"
    by (simp add: effective_visibility_def fun_eq_iff split: option.splits)
  ultimately show ?thesis using assms(3)
    by (simp add: may_receive_def class_gates_ok_def channel_gate_ok_def fun_eq_iff
        split: option.splits sum.splits)
qed

lemma marks_irrelevant [simp]:
  "sub_registry (mark_local_event com i r) = sub_registry r"
  "sub_registry (unmark_local_event com i r) = sub_registry r"
  "connections (mark_local_event com i r) = connections r"
  "connections (unmark_local_event com i r) = connections r"
  by (simp_all add: mark_local_event_def unmark_local_event_def)

lemma marks_beliefs [simp]:
  "believed_visibility env (mark_local_event com i r) = believed_visibility env r"
  "believed_visibility env (unmark_local_event com i r) = believed_visibility env r"
  "believed_member env (mark_local_event com i r) = believed_member env r"
  "believed_member env (unmark_local_event com i r) = believed_member env r"
  by (simp_all add: mark_local_event_def unmark_local_event_def believed_visibility_def
      believed_member_def fun_eq_iff)

lemma marks_may_receive [simp]:
  "may_receive env (mark_local_event com i r) = may_receive env r"
  "may_receive env (unmark_local_event com i r) = may_receive env r"
  by (rule may_receive_beliefs; simp)+

definition gated_recipients ::
    "relay_env \<Rightarrow> relay \<Rightarrow> community_id \<Rightarrow> stored_event \<Rightarrow> threaded_channel_visibility option \<Rightarrow> recipient list" where
  "gated_recipients env r com se threaded =
     filter (\<lambda>(c, s). may_receive env r com se threaded c)
       (fan_out_scoped (env_lib env) (sub_registry r) com se)"

lemma gate_result:
  obtains r' where
    "filter_fanout_by_access env com se (fan_out_scoped (env_lib env) (sub_registry r) com se) threaded r =
       (gated_recipients env r com se threaded, r')" "same_beliefs env r r'"
  using filter_fanout_by_access_eq [of env com se "fan_out_scoped (env_lib env) (sub_registry r) com se" threaded r]
  by (cases "filter_fanout_by_access env com se (fan_out_scoped (env_lib env) (sub_registry r) com se) threaded r")
     (auto simp: gated_recipients_def)

lemma gated_recipients_marks [simp]:
  "gated_recipients env (mark_local_event com' i r) com se threaded = gated_recipients env r com se threaded"
  "gated_recipients env (unmark_local_event com' i r) com se threaded = gated_recipients env r com se threaded"
  by (simp_all add: gated_recipients_def)

text \<open>What each path sends.\<close>

definition frames_of :: "relay_env \<Rightarrow> event \<Rightarrow> recipient list \<Rightarrow> (conn_id \<times> string) list" where
  "frames_of env e rs = (case event_to_json env e of None \<Rightarrow> [] | Some json \<Rightarrow> frames_for json rs)"

lemma frames_of_Nil [simp]: "frames_of env e [] = []"
  by (simp add: frames_of_def frames_for_def split: option.splits)

lemma live_sent_local:
  "live_sent env LocalFanOut com se r = Some (frames_of env (se_event se) (gated_recipients env r com se None))"
proof -
  obtain r' where g: "filter_fanout_by_access env com se
      (fan_out_scoped (env_lib env) (sub_registry r) com se) None r = (gated_recipients env r com se None, r')"
    by (rule gate_result)
  show ?thesis
    by (simp add: fan_out_event_to_local_subscribers_def g send_event_eq frames_of_def frames_for_def
        split: option.splits)
qed

lemma live_sent_cross_node:
  "live_sent env (CrossNode now) com se r =
     Some (if (com, ev_id (se_event se)) \<in> set (local_event_ids r) then []
           else frames_of env (se_event se) (gated_recipients env r com se None))"
proof -
  let ?se = "stored_event_new now (se_event se) (se_channel_id se)"
  have se: "gated_recipients env r com ?se None = gated_recipients env r com se None"
    using fan_out_scoped_cong [of ?se se] may_receive_cong [of ?se se]
    by (simp add: gated_recipients_def)
  have topic: "(case topic_of (se_channel_id se) of TopicChannel i \<Rightarrow> Some i | TopicGlobal \<Rightarrow> None) = se_channel_id se"
    by (simp add: topic_of_def split: option.splits)
  obtain r' where g: "filter_fanout_by_access env com ?se
      (fan_out_scoped (env_lib env) (sub_registry r) com ?se) None r = (gated_recipients env r com ?se None, r')"
    by (rule gate_result)
  show ?thesis
    by (simp add: fan_out_pubsub_event_def topic Let_def g se send_event_eq frames_of_def frames_for_def
        split: option.splits)
qed

lemma dispatch_eq:
  obtains r' where
    "dispatch_persistent_event_inner env com se k threaded r =
       (Some (case event_to_json env (se_event se) of
           None \<Rightarrow> \<lparr>d_sent = [], d_dropped = 0, d_returned = 0, d_workflow = None\<rparr>
         | Some json \<Rightarrow>
             (let frames = frames_for json (owner_gate env r (private_event_owner (se_event se) k)
                             (gated_recipients env r com se threaded))
              in \<lparr>d_sent = frames, d_dropped = refused env frames,
                  d_returned = length (gated_recipients env r com se threaded),
                  d_workflow = (if triggers_workflows env (se_event se) k then Some (com, se) else None)\<rparr>)), r')"
    "connections r' = connections r" "sub_registry r' = sub_registry r"
    "local_event_ids r' =
       (if publish_event env com (topic_of (se_channel_id se)) (se_event se)
        then List.insert (com, ev_id (se_event se)) (local_event_ids r)
        else removeAll (com, ev_id (se_event se)) (local_event_ids r))"
proof -
  let ?i = "ev_id (se_event se)"
  let ?r2 = "if publish_event env com (topic_of (se_channel_id se)) (se_event se)
             then mark_local_event com ?i r else unmark_local_event com ?i (mark_local_event com ?i r)"
  obtain r' where g: "filter_fanout_by_access env com se
      (fan_out_scoped (env_lib env) (sub_registry ?r2) com se) threaded ?r2 =
        (gated_recipients env ?r2 com se threaded, r')" and same: "same_beliefs env ?r2 r'"
    by (rule gate_result)
  have conns: "connections r' = connections r" "sub_registry r' = sub_registry r"
    using same by (auto simp: same_beliefs_def split: if_splits)
  have owner: "owner_gate env r' = owner_gate env r"
    by (simp add: owner_gate_def fun_eq_iff pubkey_for_conn_cong [OF conns(1)] split: option.splits)
  have rec: "gated_recipients env ?r2 com se threaded = gated_recipients env r com se threaded" by simp
  have ids: "local_event_ids r' =
       (if publish_event env com (topic_of (se_channel_id se)) (se_event se)
        then List.insert (com, ?i) (local_event_ids r) else removeAll (com, ?i) (local_event_ids r))"
    using same by (auto simp: same_beliefs_def mark_local_event_def unmark_local_event_def
        List.insert_def split: if_splits)
  show thesis
    by (rule that [OF _ conns ids])
       (simp add: dispatch_persistent_event_inner_def Let_def topic_of_def [symmetric] g
          [unfolded rec] owner send_event_eq split: option.splits)
qed

lemma live_sent_dispatch:
  "live_sent env (Dispatch k threaded) com se r =
     Some (frames_of env (se_event se)
       (owner_gate env r (private_event_owner (se_event se) k) (gated_recipients env r com se threaded)))"
  by (rule dispatch_eq [of env com se k threaded r])
     (simp add: frames_of_def Let_def split: option.splits)

declare live_sent.simps [simp del]

section \<open>Reachable relays\<close>

text \<open>A node runs any of its operations in any order; between two of them the database may change
  (each step has an environment of its own), connections come, authenticate and go, and cache
  entries expire.  The visibility cache only ever holds \<open>private\<close>: a stale entry can hide a
  channel that was opened, never expose one that was closed.\<close>

inductive relay_step :: "relay \<Rightarrow> relay \<Rightarrow> bool" where
  step_connections: "relay_step r (r\<lparr>connections := cs\<rparr>)"
| step_subscriptions: "registry_step (sub_registry r) g \<Longrightarrow> relay_step r (r\<lparr>sub_registry := g\<rparr>)"
| step_expire_member: "relay_step r (r\<lparr>membership_cache := AList.delete k (membership_cache r)\<rparr>)"
| step_expire_visibility: "relay_step r (r\<lparr>channel_visibility_cache := AList.delete k' (channel_visibility_cache r)\<rparr>)"
| step_expire_accessible: "relay_step r (r\<lparr>accessible_channels_cache := AList.delete k'' (accessible_channels_cache r)\<rparr>)"
| step_expire_local_id: "relay_step r (unmark_local_event com i r)"
| step_invalidate: "relay_step r (invalidate_membership_local com ch pk r)"
| step_accessible: "relay_step r (snd (get_accessible_channel_ids_cached env com pk r))"
| step_visibility: "relay_step r (snd (channel_visibility_cached env com ch pre r))"
| step_local: "relay_step r (snd (fan_out_event_to_local_subscribers env com se r))"
| step_pubsub: "relay_step r (snd (fan_out_pubsub_event env now com topic e r))"
| step_dispatch: "relay_step r (snd (dispatch_persistent_event_inner env com se kd threaded r))"

definition relay_new :: relay where
  "relay_new = \<lparr>connections = [], sub_registry = registry_new, membership_cache = [],
     channel_visibility_cache = [], accessible_channels_cache = [], local_event_ids = []\<rparr>"

inductive relay_reachable :: "relay \<Rightarrow> bool" where
  relay_init: "relay_reachable relay_new"
| relay_next: "relay_reachable r \<Longrightarrow> relay_step r r' \<Longrightarrow> relay_reachable r'"

definition only_private_cached :: "relay \<Rightarrow> bool" where
  "only_private_cached r = (\<forall>k v. map_of (channel_visibility_cache r) k = Some v \<longrightarrow> v = ''private'')"

definition relay_inv :: "relay \<Rightarrow> bool" where
  "relay_inv r = (registry_inv (sub_registry r) \<and> only_private_cached r)"

lemma relay_inv_visibility:
  "relay_inv r \<Longrightarrow> relay_inv (snd (channel_visibility_cached env com ch pre r))"
  by (auto simp: relay_inv_def only_private_cached_def channel_visibility_cached_def update_conv'
      split: option.splits sum.splits if_splits)

lemma relay_inv_frame:
  assumes "sub_registry r' = sub_registry r" "channel_visibility_cache r' = channel_visibility_cache r"
  shows "relay_inv r' = relay_inv r"
  by (simp add: relay_inv_def only_private_cached_def assms)

lemma relay_inv_keep_members: "relay_inv r \<Longrightarrow> relay_inv (snd (keep_members env com ch ms r))"
  using members.keep_by_filter [where env = env and comm = com and chan = ch and xs = ms and s = r]
    relay_inv_frame [of "snd (keep_members env com ch ms r)" r]
  by (auto simp: keep_members_eq dest: all_but_members_eqD)

lemma relay_inv_gate:
  "relay_inv r \<Longrightarrow> relay_inv (snd (filter_fanout_by_access env com se ms threaded r))"
  using relay_inv_visibility [of r env com _ None]
  by (auto simp: filter_fanout_by_access_stages channel_stage_def Let_def
      split: option.splits sum.splits prod.splits intro!: relay_inv_keep_members)
     (metis snd_conv)+

lemma relay_inv_marks [simp]:
  "relay_inv (mark_local_event com i r) = relay_inv r"
  "relay_inv (unmark_local_event com i r) = relay_inv r"
  by (simp_all add: relay_inv_def only_private_cached_def mark_local_event_def unmark_local_event_def)

lemma relay_step_inv: "relay_step r r' \<Longrightarrow> relay_inv r \<Longrightarrow> relay_inv r'"
proof (induction rule: relay_step.induct)
  case (step_local r env com se)
  then show ?case
    using relay_inv_gate [OF step_local, of env com se "fan_out_scoped (env_lib env) (sub_registry r) com se" None]
    by (auto simp: fan_out_event_to_local_subscribers_def split: prod.splits option.splits)
next
  case (step_pubsub r env now com topic e)
  then show ?case
    using relay_inv_gate [OF step_pubsub, of env com]
    by (auto simp: fan_out_pubsub_event_def Let_def split: prod.splits option.splits event_topic.splits)
       (metis snd_conv)+
next
  case (step_dispatch r env com se kd threaded)
  define r2 where "r2 = (if publish_event env com (topic_of (se_channel_id se)) (se_event se)
     then mark_local_event com (ev_id (se_event se)) r
     else unmark_local_event com (ev_id (se_event se)) (mark_local_event com (ev_id (se_event se)) r))"
  have "relay_inv r2" using step_dispatch by (simp add: r2_def)
  from relay_inv_gate [OF this, of env com se "fan_out_scoped (env_lib env) (sub_registry r2) com se" threaded]
  show ?case
    by (auto simp: dispatch_persistent_event_inner_def Let_def topic_of_def [symmetric] r2_def [symmetric]
        split: prod.splits option.splits)
next
  case (step_subscriptions r g)
  then show ?case by (auto simp: relay_inv_def only_private_cached_def intro: registry_step_inv)
next
  case (step_visibility r env com ch pre)
  then show ?case by (rule relay_inv_visibility)
qed (auto simp: relay_inv_def only_private_cached_def invalidate_membership_local_def
    unmark_local_event_def get_accessible_channel_ids_cached_def delete_conv'
    split: option.splits sum.splits if_splits)

lemma relay_inv_new: "relay_inv relay_new"
  by (simp add: relay_inv_def relay_new_def only_private_cached_def registry_inv_new)

lemma relay_reachable_inv: "relay_reachable r \<Longrightarrow> relay_inv r"
  by (induction rule: relay_reachable.induct) (auto intro: relay_inv_new relay_step_inv)

section \<open>Who receives a live event\<close>

lemma live_sent_gated:
  assumes "live_sent env path com se r = Some sent" and "(c, frame) \<in> set sent"
  shows "\<exists>s json. event_to_json env (se_event se) = Some json \<and> frame = event_frame_for_sub s json \<and>
    (c, s) \<in> set (fan_out_scoped (env_lib env) (sub_registry r) com se) \<and>
    may_receive env r com se (path_threaded path) c"
proof (cases path)
  case LocalFanOut
  with assms show ?thesis
    by (auto simp: live_sent_local frames_of_def frames_for_def gated_recipients_def split: option.splits)
next
  case (CrossNode now)
  with assms show ?thesis
    by (auto simp: live_sent_cross_node frames_of_def frames_for_def gated_recipients_def
        split: option.splits if_splits)
next
  case (Dispatch k t)
  with assms show ?thesis
    by (auto simp: live_sent_dispatch frames_of_def frames_for_def gated_recipients_def owner_gate_def
        split: option.splits)
qed

definition ex_env :: relay_env where
  "ex_env = \<lparr>env_lib = ex_lib, db_is_member = (\<lambda>com ch pk. Inr (pk = [7])),
     db_channel_visibility = (\<lambda>com ch. Inr ''private''), db_accessible_channel_ids = (\<lambda>com pk. Inr [5]),
     publish_event = (\<lambda>com t e. True), event_to_json = (\<lambda>e. Some ''{}''),
     send_text_bytes = (\<lambda>c f. True), relay_public_key = [99]\<rparr>"

definition ex_relay :: relay where
  "ex_relay = relay_new\<lparr>connections :=
     [(10, \<lparr>ce_community_id = 1, ce_authenticated_pubkey = Some [7]\<rparr>),
      (11, \<lparr>ce_community_id = 1, ce_authenticated_pubkey = Some [8]\<rparr>)], sub_registry := ex_registry\<rparr>"

lemma relay_reachable_registry:
  "registry_reachable g \<Longrightarrow> relay_reachable (relay_new\<lparr>sub_registry := g\<rparr>)"
proof (induction rule: registry_reachable.induct)
  case reach_new
  show ?case using relay_init by (simp add: relay_new_def)
next
  case (reach_step g g')
  from relay_next [OF reach_step.IH step_subscriptions, of g'] reach_step.hyps(2)
  show ?case by simp
qed

lemma ex_relay_reachable: "relay_reachable ex_relay"
  using relay_next [OF relay_reachable_registry [OF ex_registry_reachable] step_connections]
  by (simp add: ex_relay_def relay_new_def)

lemma ex_live_sent:
  "live_sent ex_env LocalFanOut 1 (ex_event 9 [] (Some 5)) ex_relay =
     Some [(10, event_frame_for_sub ''live'' ''{}'')]"
  using ex_registry_fan_out(1)
  by (simp add: live_sent_local gated_recipients_def ex_relay_def relay_new_def ex_env_def frames_of_def
      frames_for_def may_receive_def community_for_conn_def pubkey_for_conn_def class_gates_ok_def
      channel_gate_ok_def effective_visibility_def believed_visibility_def believed_member_def
      ex_event_def kind_consts)

text \<open>C2.  Every frame a node sends for an event, on any of the three fan-out paths, goes to a
  connection bound to the event's community, for a subscription of that community whose scope and
  filters admit the event, and to a connection that passes the author-only and shared gates.\<close>

theorem live_delivery_authorized:
  assumes "relay_reachable r"
    and "live_sent env path com se r = Some sent" and "(c, frame) \<in> set sent"
  shows "\<exists>s fs scope json. event_to_json env (se_event se) = Some json \<and>
    frame = event_frame_for_sub s json \<and>
    sub_lookup (sub_registry r) c s = Some (fs, com, scope) \<and>
    matches_channel scope (se_channel_id se) \<and> filters_match (env_lib env) fs se \<and>
    community_for_conn r c = Some com \<and> class_gates_ok r (se_event se) c"
proof -
  from live_sent_gated [OF assms(2,3)] obtain s json where
      json: "event_to_json env (se_event se) = Some json" "frame = event_frame_for_sub s json"
    and cand: "(c, s) \<in> set (fan_out_scoped (env_lib env) (sub_registry r) com se)"
    and may: "may_receive env r com se (path_threaded path) c"
    by blast
  from relay_reachable_inv [OF assms(1)] have "registry_inv (sub_registry r)"
    by (simp add: relay_inv_def)
  with cand have "\<exists>fs scope. sub_lookup (sub_registry r) c s = Some (fs, com, scope) \<and>
      matches_channel scope (se_channel_id se) \<and> filters_match (env_lib env) fs se"
    by (simp add: routing.fan_out_iff)
  with json may show ?thesis by (auto simp: may_receive_def)
qed

theorem live_delivery_authorized_witness:
  "community_for_conn ex_relay 10 = Some 1 \<and> class_gates_ok ex_relay (se_event (ex_event 9 [] (Some 5))) 10"
  using live_delivery_authorized [OF ex_relay_reachable ex_live_sent, of 10 "event_frame_for_sub ''live'' ''{}''"]
  by auto

text \<open>A channel the database holds as private delivers to members only, however stale the
  node's visibility cache is: each receiving connection is authenticated, and the node's membership
  lookup (cached or fresh) says it is a member.  A visibility read threaded from ingest has to be as
  recent.\<close>

theorem private_channel_members_only:
  assumes "relay_reachable r" and "se_channel_id se = Some ch"
    and "db_channel_visibility env com ch = Inr ''private''"
    and "\<And>t. path_threaded path = Some t \<Longrightarrow> tv_community_id t = com \<Longrightarrow> tv_channel_id t = ch \<Longrightarrow>
            tv_visibility t = ''private''"
    and "live_sent env path com se r = Some sent" and "(c, frame) \<in> set sent"
  shows "\<exists>pk. pubkey_for_conn r c = Some pk \<and> believed_member env r (com, ch, pk) = Inr True"
proof -
  from relay_reachable_inv [OF assms(1)]
  have "map_of (channel_visibility_cache r) (com, ch) = Some v \<Longrightarrow> v = ''private''" for v
    by (simp add: relay_inv_def only_private_cached_def)
  then have "believed_visibility env r (com, ch) = Inr ''private''"
    using assms(3) by (simp add: believed_visibility_def split: option.splits)
  then have "effective_visibility env r com ch (path_threaded path) = Inr ''private''"
    using assms(4) by (simp add: effective_visibility_def split: option.splits)
  with live_sent_gated [OF assms(5,6)] assms(2) show ?thesis
    by (auto simp: may_receive_def channel_gate_ok_def)
qed

theorem private_channel_members_only_witness:
  "\<exists>pk. pubkey_for_conn ex_relay 10 = Some pk \<and> believed_member ex_env ex_relay (1, 5, pk) = Inr True"
  using private_channel_members_only [OF ex_relay_reachable, of "ex_event 9 [] (Some 5)" 5 ex_env 1 LocalFanOut,
      OF _ _ _ ex_live_sent]
  by (simp add: ex_event_def ex_env_def)

text \<open>C10.  The gate is exact: the staged filters, the threaded visibility and the cached, state
  changing membership loop together keep precisely the recipients that pass one stateless check, in
  their order, and leave the node's beliefs as they were.\<close>

theorem access_gate_exact:
  "fst (filter_fanout_by_access env com se ms threaded r) =
     filter (\<lambda>(c, s). may_receive env r com se threaded c) ms \<and>
   same_beliefs env r (snd (filter_fanout_by_access env com se ms threaded r))"
  by (rule filter_fanout_by_access_eq)

text \<open>Building and sending the frames never panics: the frame cache has an entry for every
  recipient, and each recipient gets the frame of its own subscription id.\<close>

lemma frames_cover_recipients:
  "send_event env rs json =
     Some (map (\<lambda>(c, s). (c, event_frame_for_sub s json)) rs,
           length (filter (\<lambda>(c, s). \<not> send_text_bytes env c (event_frame_for_sub s json)) rs))"
  by (simp add: send_event_eq frames_for_def refused_def filter_map comp_def case_prod_unfold)

text \<open>The echo of an event a node dispatched is suppressed once: when the event comes back over
  the bus in its own community, the node sends nothing and forgets the mark, so a repeated arrival
  is handled as new; marks of other events and of other communities are untouched.\<close>

theorem local_echo_suppressed_once:
  assumes "publish_event env com (topic_of (se_channel_id se)) (se_event se)"
  shows "let r' = snd (dispatch_persistent_event_inner env com se k threaded r);
             echo = fan_out_pubsub_event env' now com (topic_of (se_channel_id se)) (se_event se) r'
         in fst echo = Some ([], 0) \<and>
            set (local_event_ids (snd echo)) =
              set (local_event_ids r) - {(com, ev_id (se_event se))} \<and>
            sub_registry (snd echo) = sub_registry r"
proof -
  obtain r' where "snd (dispatch_persistent_event_inner env com se k threaded r) = r'"
      "local_event_ids r' = List.insert (com, ev_id (se_event se)) (local_event_ids r)"
      "sub_registry r' = sub_registry r"
    using assms by (auto intro: dispatch_eq [of env com se k threaded r])
  then show ?thesis
    by (auto simp: Let_def fan_out_pubsub_event_def unmark_local_event_def)
qed

theorem local_echo_suppressed_once_witness:
  "fst (fan_out_pubsub_event ex_env 0 1 (TopicChannel 5) (se_event (ex_event 9 [] (Some 5)))
     (snd (dispatch_persistent_event_inner ex_env 1 (ex_event 9 [] (Some 5)) 9 None ex_relay))) =
   Some ([], 0)"
  using local_echo_suppressed_once [of ex_env 1 "ex_event 9 [] (Some 5)" 9 None ex_relay ex_env 0]
  by (simp add: ex_env_def topic_of_def ex_event_def Let_def)

section \<open>Result-gated events\<close>

lemma private_event_owner_Some:
  assumes "ev_kind e \<in> set RESULT_GATED_KINDS" and "has_tag_value e ''p'' owner"
  shows "\<exists>o1. private_event_owner e (ev_kind e) = Some o1 \<and> has_tag_value e ''p'' o1"
proof -
  let ?os = "List.map_filter tag_content (filter (\<lambda>t. tag_kind t = ''p'') (ev_tags e))"
  have os: "o1 \<in> set ?os \<longleftrightarrow> has_tag_value e ''p'' o1" for o1
    by (auto simp: set_map_filter has_tag_value_def)
  with assms(2) obtain o1 rest where "?os = o1 # rest"
    by (cases ?os) auto
  with os [of o1] assms(1) show ?thesis
    by (auto simp: private_event_owner_def RESULT_GATED_KINDS_def)
qed

text \<open>On the dispatch path a recipient that is authenticated could also have read the
  event: the delivery gates together are as strict as the check every pull path applies, provided
  an owner-only event names its owner in one p tag.\<close>

theorem dispatch_respects_read_gate:
  assumes "live_sent env (Dispatch (ev_kind (se_event se)) threaded) com se r = Some sent"
    and "(c, frame) \<in> set sent" and "pubkey_for_conn r c = Some pk"
    and "ev_kind (se_event se) \<in> set RESULT_GATED_KINDS \<Longrightarrow> \<exists>owner. has_tag_value (se_event se) ''p'' owner"
  shows "event_visible_to_reader (env_lib env) (se_event se) pk"
proof -
  have "class_gates_ok r (se_event se) c"
    using live_sent_gated [OF assms(1,2)] by (auto simp: may_receive_def)
  moreover have "has_tag_value (se_event se) ''p'' (hex_encode (env_lib env) pk)"
    if gated: "ev_kind (se_event se) \<in> set RESULT_GATED_KINDS"
  proof -
    from private_event_owner_Some [OF gated] assms(4) [OF gated] obtain o1 where
      o1: "private_event_owner (se_event se) (ev_kind (se_event se)) = Some o1"
      "has_tag_value (se_event se) ''p'' o1" by blast
    with assms(1-3) have "hex_encode (env_lib env) pk = o1"
      by (auto simp: live_sent_dispatch frames_of_def frames_for_def owner_gate_def some_and_iff
          split: option.splits)
    with o1(2) show ?thesis by simp
  qed
  ultimately show ?thesis
    using assms(3) by (auto simp: event_visible_iff class_gates_ok_def)
qed

lemma live_sent_one:
  assumes "fan_out_scoped (env_lib env) (sub_registry r) com se = [(c, s)]" and "may_receive env r com se threaded c"
  shows "gated_recipients env r com se threaded = [(c, s)]"
  using assms by (simp add: gated_recipients_def)

definition leak_filter :: nfilter where
  "leak_filter = (ex_filter None [])\<lparr>f_ids := Some [[1]]\<rparr>"

definition leak_registry :: registry where
  "leak_registry = fst (register_with_scope registry_new 2 11 ''x'' [leak_filter] Global)"

definition leak_relay :: relay where
  "leak_relay = relay_new\<lparr>connections := [(11, \<lparr>ce_community_id = 2, ce_authenticated_pubkey = Some [8]\<rparr>)],
     sub_registry := leak_registry\<rparr>"

abbreviation metric_event :: "string \<Rightarrow> stored_event" where
  "metric_event owner \<equiv> ex_event KIND_AGENT_TURN_METRIC [[''p'', owner]] None"

lemma leak_registry_reachable: "registry_reachable leak_registry"
  unfolding leak_registry_def by (intro reach_step [OF _ step_register] reach_new)

lemma leak_relay_reachable: "relay_reachable leak_relay"
  using relay_next [OF relay_reachable_registry [OF leak_registry_reachable] step_connections]
  by (simp add: leak_relay_def relay_new_def)

lemma leak_lookup:
  "sub_lookup leak_registry c s = (if c = 11 \<and> s = ''x'' then Some ([leak_filter], 2, Global) else None)"
  by (simp add: leak_registry_def sub_lookup_register) (simp add: sub_lookup_def registry_new_def)

lemma leak_filter_matches: "filters_match ex_lib [leak_filter] (metric_event owner)"
  by (simp add: filters_match_def filter_match_one_def leak_filter_def ex_filter_def ex_event_def
      ex_lib_def starts_with_def)

lemma leak_registry_fan_out:
  "fan_out_scoped ex_lib leak_registry 2 (metric_event owner) = [(11, ''x'')]"
proof (rule distinct_set_singleton)
  note inv = registry_reachable_inv [OF leak_registry_reachable]
  show "distinct (fan_out_scoped ex_lib leak_registry 2 (metric_event owner))"
    by (rule routing.fan_out_distinct [OF inv])
  show "set (fan_out_scoped ex_lib leak_registry 2 (metric_event owner)) = {(11, ''x'')}"
    using leak_filter_matches [of owner]
    by (auto simp: routing.fan_out_iff [OF inv] leak_lookup ex_event_def split: if_splits)
qed

lemma leak_gated:
  "gated_recipients ex_env leak_relay 2 (metric_event owner) None = [(11, ''x'')]"
  by (rule live_sent_one)
     (use leak_registry_fan_out [of owner] in \<open>simp_all add: ex_env_def leak_relay_def relay_new_def
        may_receive_def community_for_conn_def class_gates_ok_def channel_gate_ok_def ex_event_def kind_consts\<close>)

theorem dispatch_respects_read_gate_witness:
  "event_visible_to_reader (env_lib ex_env) (se_event (metric_event (hex_encode ex_lib [8]))) [8]"
proof (rule dispatch_respects_read_gate [of ex_env "metric_event (hex_encode ex_lib [8])" None 2 leak_relay _ 11])
  show "live_sent ex_env (Dispatch (ev_kind (se_event (metric_event (hex_encode ex_lib [8])))) None) 2
      (metric_event (hex_encode ex_lib [8])) leak_relay = Some [(11, event_frame_for_sub ''x'' ''{}'')]"
    by (simp add: live_sent_dispatch leak_gated)
       (simp add: private_event_owner_def ex_event_def List.map_filter_simps owner_gate_def some_and_iff
          pubkey_for_conn_def leak_relay_def ex_env_def frames_of_def frames_for_def)
qed (simp_all add: pubkey_for_conn_def leak_relay_def has_tag_value_def ex_event_def)

text \<open>The fan-out of an event from another node has no owner check.  A subscription by event id
  without kinds passes every filter gate; the node that stored the event does not send it to a
  reader that is not its owner, and every other node does, although the read check refuses it.\<close>

theorem cross_node_delivers_unreadable_event:
  "relay_reachable leak_relay \<and> pubkey_for_conn leak_relay 11 = Some [8] \<and>
   sub_lookup (sub_registry leak_relay) 11 ''x'' = Some ([leak_filter], 2, Global) \<and>
   p_gated_filters_authorized [leak_filter] (hex_encode ex_lib [8]) \<and>
   engram_filters_authorized ex_lib [leak_filter] (hex_encode ex_lib [8]) \<and>
   author_only_filters_authorized ex_lib [leak_filter] (hex_encode ex_lib [8]) \<and>
   \<not> event_visible_to_reader ex_lib (se_event (metric_event ''owner'')) [8] \<and>
   live_sent ex_env (Dispatch KIND_AGENT_TURN_METRIC None) 2 (metric_event ''owner'') leak_relay = Some [] \<and>
   live_sent ex_env (CrossNode 0) 2 (metric_event ''owner'') leak_relay =
     Some [(11, event_frame_for_sub ''x'' ''{}'')]"
proof (intro conjI)
  show "live_sent ex_env (Dispatch KIND_AGENT_TURN_METRIC None) 2 (metric_event ''owner'') leak_relay = Some []"
    by (simp add: live_sent_dispatch leak_gated)
       (simp add: private_event_owner_def ex_event_def List.map_filter_simps owner_gate_def some_and_iff
          pubkey_for_conn_def leak_relay_def ex_env_def ex_lib_def)
  show "live_sent ex_env (CrossNode 0) 2 (metric_event ''owner'') leak_relay =
     Some [(11, event_frame_for_sub ''x'' ''{}'')]"
    by (simp add: live_sent_cross_node leak_gated)
       (simp add: leak_relay_def relay_new_def ex_env_def frames_of_def frames_for_def)
  show "sub_lookup (sub_registry leak_relay) 11 ''x'' = Some ([leak_filter], 2, Global)"
    by (simp add: leak_relay_def leak_lookup)
qed (rule leak_relay_reachable, simp_all add: pubkey_for_conn_def leak_relay_def leak_filter_def ex_filter_def
    p_gated_filters_authorized_def p_gated_filter_ok_def engram_filters_authorized_def engram_filter_ok_def
    author_only_filters_authorized_def author_only_filter_ok_def some_and_def none_or_def Let_def
    event_visible_iff ex_event_def ex_lib_def has_tag_value_def kind_consts)

end
