(* ===== verification/Requests.thy ===== *)
theory Requests
  imports Delivery_Safety
begin

text \<open>
  The request handlers of a connection: REQ and the search lane
  (\<open>crates/punks-relay/src/handlers/req.rs\<close>), COUNT (\<open>count.rs\<close>), CLOSE (\<open>close.rs\<close>), the
  eviction of channel subscriptions (\<open>side_effects.rs\<close>) and the cleanup when a connection ends
  (\<open>connection.rs\<close>).

  A node is its \<open>relay\<close> state, its \<open>bus\<close> reference counts and the subscription maps of its
  connections.  A handler returns the node and the messages the connection's buffer accepted;
  whether it accepts the next one is the parameter \<open>re_accepts\<close>, and the handlers stop where the
  source checks the result of a send.  Messages are the values the formatting functions of
  \<open>protocol.rs\<close> turn into text.  Queries and full-text search are parameters.  The conformance trace and the
  metrics have no counterpart.
\<close>

section \<open>Data\<close>

datatype auth_scope =
    MessagesRead | MessagesWrite | ChannelsRead | ChannelsWrite | AdminChannels | UsersRead
  | UsersWrite | AdminUsers | JobsRead | JobsWrite | SubscriptionsRead | SubscriptionsWrite
  | FilesRead | FilesWrite | ReposRead | ReposWrite | UnknownScope string

datatype auth_method = Nip42 | Nip98

record auth_context =
  ac_pubkey :: pubkey
  ac_scopes :: "auth_scope list"
  ac_channel_ids :: "channel_id list option"
  ac_auth_method :: auth_method
  ac_agent_owner_pubkey :: "pubkey option"

datatype auth_state = Pending string | Authenticated auth_context | AuthFailed

record connection =
  cn_conn_id :: conn_id
  cn_community :: community_id
  cn_auth_state :: auth_state

datatype relay_message =
    AuthChallenge string
  | EventMsg sub_id event
  | Notice string
  | Eose sub_id
  | OkMsg string bool string
  | Closed sub_id string
  | CountMsg sub_id nat

record search_query =
  sq_community :: community_id
  sq_q :: string
  sq_channel_scope :: search_scope
  sq_kinds :: "kind list option"
  sq_authors :: "bytes list option"
  sq_since :: "int option"
  sq_until :: "int option"
  sq_page :: nat
  sq_per_page :: nat

record node =
  n_relay :: relay
  n_bus :: bus
  n_conn_subs :: "(conn_id \<times> (sub_id \<times> nfilter list) list) list"

record 'd req_env =
  re_env :: relay_env
  re_from_ts :: "int \<Rightarrow> 'd option"
  re_query_events :: "'d event_query \<Rightarrow> (db_error, stored_event list) result"
  re_query_events_bounded :: "'d event_query \<Rightarrow> (db_error, stored_event list) result"
  re_count_events :: "'d event_query \<Rightarrow> (db_error, nat) result"
  re_search :: "search_query \<Rightarrow> (db_error, event_id list) result"
  re_events_by_ids :: "community_id \<Rightarrow> event_id list \<Rightarrow> (db_error, stored_event list) result"
  re_accepts :: "relay_message list \<Rightarrow> relay_message \<Rightarrow> bool"

abbreviation re_lib :: "'d req_env \<Rightarrow> nostr_lib" where
  "re_lib env \<equiv> env_lib (re_env env)"

definition send_msg :: "'d req_env \<Rightarrow> relay_message \<Rightarrow> relay_message list \<Rightarrow> relay_message list \<times> bool" where
  "send_msg env msg out = (if re_accepts env out msg then (out @ [msg], True) else (out, False))"

definition send_all :: "'d req_env \<Rightarrow> relay_message list \<Rightarrow> relay_message list \<Rightarrow> relay_message list" where
  "send_all env msgs out = fold (\<lambda>m out. fst (send_msg env m out)) msgs out"

definition conn_subs :: "node \<Rightarrow> conn_id \<Rightarrow> (sub_id \<times> nfilter list) list" where
  "conn_subs n c = (case map_of (n_conn_subs n) c of Some m \<Rightarrow> m | None \<Rightarrow> [])"

section \<open>REQ: what the request may do\<close>

definition req_auth ::
    "connection \<Rightarrow> sub_id \<Rightarrow> node \<Rightarrow> (relay_message list, bytes \<times> channel_id list option) result" where
  "req_auth conn s n = (case cn_auth_state conn of
     Authenticated ctx \<Rightarrow>
       if ac_scopes ctx \<noteq> [] \<and> MessagesRead \<notin> set (ac_scopes ctx) then
         Inl [Notice ''restricted: insufficient scope'', Closed s ''restricted: insufficient scope'']
       else
         (let subs = conn_subs n (cn_conn_id conn) in
          if map_of subs s = None \<and> length subs \<ge> MAX_SUBSCRIPTIONS then
            Inl [Closed s ''error: too many subscriptions'']
          else Inr (ac_pubkey ctx, ac_channel_ids ctx))
   | _ \<Rightarrow>
       Inl [Notice ''auth-required: authenticate before subscribing'',
            Closed s ''auth-required: not authenticated''])"

definition token_allows :: "channel_id list option \<Rightarrow> channel_id \<Rightarrow> bool" where
  "token_allows token ch = none_or (\<lambda>allowed. ch \<in> set allowed) token"

definition narrow_to_token :: "channel_id list option \<Rightarrow> channel_id list \<Rightarrow> channel_id list" where
  "narrow_to_token token accessible = (case token of
     Some allowed \<Rightarrow> filter (\<lambda>ch. ch \<in> set allowed) accessible
   | None \<Rightarrow> accessible)"

definition req_accessible ::
    "relay_env \<Rightarrow> community_id \<Rightarrow> bytes \<Rightarrow> channel_id list option \<Rightarrow> nfilter list \<Rightarrow> relay \<Rightarrow>
     (db_error, channel_id list) result \<times> relay" where
  "req_accessible env com pk token fs r =
     (let (res, r1) =
        (if filters_are_nip43_membership_only fs then (Inr [], r)
         else get_accessible_channel_ids_cached env com pk r)
      in (map_sum id (narrow_to_token token) res, r1))"

fun confirm_channels ::
    "relay_env \<Rightarrow> community_id \<Rightarrow> bytes \<Rightarrow> channel_id list option \<Rightarrow> channel_id list \<Rightarrow> channel_id list \<Rightarrow>
     (db_error, channel_id list) result" where
  "confirm_channels env com pk token [] accessible = Inr accessible"
| "confirm_channels env com pk token (ch # chs) accessible =
     (let allows = token_allows token ch in
      if \<not> allows \<or> ch \<in> set accessible then
        confirm_channels env com pk token chs (fst (resolve_request_local_access accessible ch allows None))
      else (case db_is_member env com ch pk of
         Inl e \<Rightarrow> Inl e
       | Inr member \<Rightarrow>
           confirm_channels env com pk token chs
             (fst (resolve_request_local_access accessible ch allows (Some member)))))"

definition req_gates :: "nostr_lib \<Rightarrow> nfilter list \<Rightarrow> bytes \<Rightarrow> (string, unit) result" where
  "req_gates lib fs pk =
     (let me = hex_encode lib pk in
      if \<not> p_gated_filters_authorized fs me then
        Inl ''restricted: p-gated events require #p matching your pubkey''
      else if \<not> engram_filters_authorized lib fs me then
        Inl ''restricted: agent-engram reads require authors=[self] or #p=[self]''
      else if \<not> author_only_filters_authorized lib fs me then
        Inl ''restricted: author-only kinds require authors=[self]''
      else Inr ())"

text \<open>The outcome of the checks at the head of \<open>handle_req\<close>: a rejection with its messages, the search
  lane, or a live subscription with its history.\<close>

record req_grant =
  rg_pubkey :: bytes
  rg_token :: "channel_id list option"
  rg_channel_id :: "channel_id option"
  rg_accessible :: "channel_id list"
  rg_authorized :: "channel_id list option"

datatype req_plan =
    PlanReject "relay_message list"
  | PlanSearch req_grant
  | PlanStream req_grant

definition plan_req ::
    "'d req_env \<Rightarrow> connection \<Rightarrow> sub_id \<Rightarrow> nfilter list \<Rightarrow> node \<Rightarrow> req_plan \<times> relay" where
  "plan_req env conn s fs n =
     (let lib = re_lib env; com = cn_community conn; r = n_relay n;
          reject = (\<lambda>text r. (PlanReject [Closed s text], r))
      in case req_auth conn s n of
           Inl msgs \<Rightarrow> (PlanReject msgs, r)
         | Inr (pk, token) \<Rightarrow>
             (case extract_channel_ids_from_filters_limited lib fs of
                Inl _ \<Rightarrow> reject ''restricted: too many explicit channels'' r
              | Inr requested \<Rightarrow>
                  (case req_accessible (re_env env) com pk token fs r of
                     (Inl _, r1) \<Rightarrow> reject ''error: database error'' r1
                   | (Inr accessible0, r1) \<Rightarrow>
                       (case (case requested of
                                None \<Rightarrow> Inr accessible0
                              | Some chs \<Rightarrow> confirm_channels (re_env env) com pk token chs accessible0) of
                          Inl _ \<Rightarrow> reject ''error: database error'' r1
                        | Inr accessible \<Rightarrow>
                            (let channel_id = extract_channel_id_from_filters lib fs;
                                 authorized = map_option (filter (\<lambda>ch. ch \<in> set accessible)) requested;
                                 grant = \<lparr>rg_pubkey = pk, rg_token = token, rg_channel_id = channel_id,
                                          rg_accessible = accessible, rg_authorized = authorized\<rparr>
                             in if authorized = Some [] then reject ''restricted: not a channel member'' r1
                                else (case (if channel_id = None then req_gates lib fs pk else Inr ()) of
                                   Inl text \<Rightarrow> reject text r1
                                 | Inr _ \<Rightarrow>
                                     if list_ex (\<lambda>f. f_search f \<noteq> None) fs then
                                       (if list_ex (\<lambda>f. f_search f = None) fs
                                        then reject ''error: mixed search and non-search filters not supported'' r1
                                        else (PlanSearch grant, r1))
                                     else (PlanStream grant, r1)))))))"

section \<open>REQ: registration\<close>

definition scope_topics :: "community_id \<Rightarrow> subscription_scope \<Rightarrow> event_topic_key list" where
  "scope_topics com scope =
     (if is_global scope then [from_context com TopicGlobal]
      else map (\<lambda>ch. from_context com (TopicChannel ch)) (channel_ids scope))"

text \<open>A handler is a task of its own.  It changes the subscription table in one step, and then retains and releases
  topics one after the other; between two of these operations it waits for the lock on the counts, and other
  tasks run.  The operations are therefore kept as a list; the handlers below run theirs to the end.\<close>

datatype topic_op = Retain event_topic_key | Release event_topic_key

fun run_topic_op :: "topic_op \<Rightarrow> bus \<Rightarrow> bus" where
  "run_topic_op (Retain k) b = retain_topic k b"
| "run_topic_op (Release k) b = release_topic k b"

definition run_topic_ops :: "topic_op list \<Rightarrow> node \<Rightarrow> node" where
  "run_topic_ops ops n = n\<lparr>n_bus := fold run_topic_op ops (n_bus n)\<rparr>"

definition release_subscription_topics :: "community_id \<Rightarrow> subscription_scope \<Rightarrow> topic_op list" where
  "release_subscription_topics com scope = map Release (scope_topics com scope)"

definition retain_topics :: "community_id \<Rightarrow> channel_id list option \<Rightarrow> topic_op list" where
  "retain_topics com authorized = (case authorized of
     Some chs \<Rightarrow> map (\<lambda>ch. Retain (from_context com (TopicChannel ch))) chs
   | None \<Rightarrow> [Retain (from_context com TopicGlobal)])"

text \<open>The table after the request, and what is left to do.\<close>

definition register_subscription ::
    "community_id \<Rightarrow> conn_id \<Rightarrow> sub_id \<Rightarrow> nfilter list \<Rightarrow> channel_id list option \<Rightarrow> node \<Rightarrow> node \<times> topic_op list" where
  "register_subscription com c s fs authorized n =
     (let r = n_relay n;
          (g, replaced) = (case authorized of
             Some chs \<Rightarrow> register_channels_scoped (sub_registry r) com c s fs chs
           | None \<Rightarrow> register_scoped (sub_registry r) com c s fs None);
          released = (case replaced of
             Some rs \<Rightarrow> release_subscription_topics com (rs_scope rs)
           | None \<Rightarrow> [])
      in (n\<lparr>n_conn_subs := AList.update c (AList.update s fs (conn_subs n c)) (n_conn_subs n),
            n_relay := r\<lparr>sub_registry := g\<rparr>\<rparr>,
          released @ retain_topics com authorized))"

definition register_request ::
    "community_id \<Rightarrow> conn_id \<Rightarrow> sub_id \<Rightarrow> nfilter list \<Rightarrow> channel_id list option \<Rightarrow> node \<Rightarrow> node" where
  "register_request com c s fs authorized n =
     (case register_subscription com c s fs authorized n of (n1, ops) \<Rightarrow> run_topic_ops ops n1)"

section \<open>REQ: history\<close>

definition row_deliverable ::
    "nostr_lib \<Rightarrow> nfilter \<Rightarrow> channel_id list \<Rightarrow> bytes \<Rightarrow> stored_event \<Rightarrow> bool" where
  "row_deliverable lib f accessible pk se =
     (if \<not> filters_match lib [f] se then False
      else if (case se_channel_id se of Some ch \<Rightarrow> ch \<notin> set accessible | None \<Rightarrow> False) then False
      else event_visible_to_reader lib (se_event se) pk)"

text \<open>The loop over the rows of one filter; the flag is false when the connection refused a message,
  which ends the handler.\<close>

fun deliver_rows ::
    "'d req_env \<Rightarrow> sub_id \<Rightarrow> nfilter \<Rightarrow> channel_id list \<Rightarrow> bytes \<Rightarrow> stored_event list \<Rightarrow>
     event_id list \<Rightarrow> relay_message list \<Rightarrow> bool \<times> event_id list \<times> relay_message list" where
  "deliver_rows env s f accessible pk [] seen out = (True, seen, out)"
| "deliver_rows env s f accessible pk (se # rows) seen out =
     (if \<not> row_deliverable (re_lib env) f accessible pk se then
        deliver_rows env s f accessible pk rows seen out
      else if ev_id (se_event se) \<in> set seen then deliver_rows env s f accessible pk rows seen out
      else (case send_msg env (EventMsg s (se_event se)) out of
         (out', False) \<Rightarrow> (False, ev_id (se_event se) # seen, out')
       | (out', True) \<Rightarrow> deliver_rows env s f accessible pk rows (ev_id (se_event se) # seen) out'))"

definition historical_query ::
    "'d req_env \<Rightarrow> community_id \<Rightarrow> req_grant \<Rightarrow> nfilter \<Rightarrow> 'd event_query" where
  "historical_query env com grant f =
     (let lib = re_lib env;
          per_filter_channel = (case extract_channel_id_from_filter lib f of
             Some ch \<Rightarrow> Some ch | None \<Rightarrow> rg_channel_id grant);
          q = apply_channel_scope_to_query lib f per_filter_channel (rg_accessible grant)
                (filter_to_query_params (re_from_ts env) f per_filter_channel com)
      in if filter_can_match_shared_gated_kinds f
         then q\<lparr>q_shared_gated_reader := Some (rg_pubkey grant)\<rparr> else q)"

fun deliver_history ::
    "'d req_env \<Rightarrow> community_id \<Rightarrow> sub_id \<Rightarrow> req_grant \<Rightarrow> nfilter list \<Rightarrow> event_id list \<Rightarrow>
     relay_message list \<Rightarrow> relay_message list" where
  "deliver_history env com s grant [] seen out = fst (send_msg env (Eose s) out)"
| "deliver_history env com s grant (f # fs) seen out =
     (case re_query_events env (historical_query env com grant f) of
        Inl _ \<Rightarrow> fst (send_msg env (Eose s) out)
      | Inr rows \<Rightarrow>
          (case deliver_rows env s f (rg_accessible grant) (rg_pubkey grant) rows seen out of
             (False, _, out') \<Rightarrow> out'
           | (True, seen', out') \<Rightarrow> deliver_history env com s grant fs seen' out'))"

section \<open>REQ: the search lane\<close>

fun deliver_hits ::
    "'d req_env \<Rightarrow> sub_id \<Rightarrow> nfilter \<Rightarrow> channel_id list \<Rightarrow> bytes \<Rightarrow> (event_id \<Rightarrow> stored_event option) \<Rightarrow> nat \<Rightarrow>
     event_id list \<Rightarrow> nat \<Rightarrow> event_id list \<Rightarrow> relay_message list \<Rightarrow>
     bool \<times> nat \<times> event_id list \<times> relay_message list" where
  "deliver_hits env s f accessible pk event_map limit [] emitted seen out = (True, emitted, seen, out)"
| "deliver_hits env s f accessible pk event_map limit (i # ids) emitted seen out =
     (if emitted \<ge> limit then (True, emitted, seen, out)
      else (case event_map i of
         None \<Rightarrow> deliver_hits env s f accessible pk event_map limit ids emitted seen out
       | Some se \<Rightarrow>
           if \<not> row_deliverable (re_lib env) f accessible pk se then
             deliver_hits env s f accessible pk event_map limit ids emitted seen out
           else if ev_id (se_event se) \<in> set seen then
             deliver_hits env s f accessible pk event_map limit ids emitted seen out
           else (case send_msg env (EventMsg s (se_event se)) out of
              (out', False) \<Rightarrow> (False, emitted, ev_id (se_event se) # seen, out')
            | (out', True) \<Rightarrow>
                deliver_hits env s f accessible pk event_map limit ids (Suc emitted)
                  (ev_id (se_event se) # seen) out')))"

definition search_limit :: "nfilter \<Rightarrow> nat" where
  "search_limit f = (case f_limit f of
     Some l \<Rightarrow> min (l mod 2 ^ 32) DEFAULT_MAX_PAGE_LIMIT | None \<Rightarrow> DEFAULT_MAX_PAGE_LIMIT)"

definition search_channel_scope ::
    "nostr_lib \<Rightarrow> channel_id list \<Rightarrow> search_scope \<Rightarrow> nfilter \<Rightarrow> search_scope option" where
  "search_channel_scope lib accessible all_channels_scope f =
     (case non_empty (tag_values f (CHR ''h'')) of
        Some vs \<Rightarrow>
          (let valid = filter (\<lambda>ch. ch \<in> set accessible) (List.map_filter (uuid_parse lib) vs) in
           if valid = [] then None else Some (SearchChannels valid))
      | None \<Rightarrow> Some all_channels_scope)"

definition search_query_for :: "community_id \<Rightarrow> string \<Rightarrow> search_scope \<Rightarrow> nfilter \<Rightarrow> nat \<Rightarrow> search_query" where
  "search_query_for com text scope f page =
     \<lparr>sq_community = com, sq_q = text, sq_channel_scope = scope, sq_kinds = non_empty (f_kinds f),
      sq_authors = non_empty (f_authors f), sq_since = map_option as_i64 (f_since f),
      sq_until = map_option as_i64 (f_until f), sq_page = page, sq_per_page = SEARCH_PAGE_SIZE\<rparr>"

fun search_pages ::
    "'d req_env \<Rightarrow> community_id \<Rightarrow> sub_id \<Rightarrow> nfilter \<Rightarrow> string \<Rightarrow> search_scope \<Rightarrow> channel_id list \<Rightarrow> bytes \<Rightarrow>
     nat list \<Rightarrow> nat \<Rightarrow> event_id list \<Rightarrow> relay_message list \<Rightarrow> bool \<times> event_id list \<times> relay_message list" where
  "search_pages env com s f text scope accessible pk [] emitted seen out = (True, seen, out)"
| "search_pages env com s f text scope accessible pk (page # pages) emitted seen out =
     (if emitted \<ge> search_limit f then (True, seen, out)
      else (case re_search env (search_query_for com text scope f page) of
         Inl _ \<Rightarrow> (True, seen, out)
       | Inr hits \<Rightarrow>
           if hits = [] then (True, seen, out)
           else (case re_events_by_ids env com hits of
              Inl _ \<Rightarrow> (True, seen, out)
            | Inr events \<Rightarrow>
                (case deliver_hits env s f accessible pk
                        (map_of (rev (map (\<lambda>se. (ev_id (se_event se), se)) events)))
                        (search_limit f) hits emitted seen out of
                   (False, _, seen', out') \<Rightarrow> (False, seen', out')
                 | (True, emitted', seen', out') \<Rightarrow>
                     if length hits < SEARCH_PAGE_SIZE then (True, seen', out')
                     else search_pages env com s f text scope accessible pk pages emitted' seen' out'))))"

fun search_filters ::
    "'d req_env \<Rightarrow> community_id \<Rightarrow> sub_id \<Rightarrow> search_scope \<Rightarrow> channel_id list \<Rightarrow> bytes \<Rightarrow> nfilter list \<Rightarrow>
     event_id list \<Rightarrow> relay_message list \<Rightarrow> relay_message list" where
  "search_filters env com s all_scope accessible pk [] seen out = fst (send_msg env (Eose s) out)"
| "search_filters env com s all_scope accessible pk (f # fs) seen out =
     (case f_search f of
        None \<Rightarrow> search_filters env com s all_scope accessible pk fs seen out
      | Some text \<Rightarrow>
          if text = [] \<or> search_limit f = 0 then search_filters env com s all_scope accessible pk fs seen out
          else (case search_channel_scope (re_lib env) accessible all_scope f of
             None \<Rightarrow> search_filters env com s all_scope accessible pk fs seen out
           | Some scope \<Rightarrow>
               (case search_pages env com s f text scope accessible pk [1..<Suc MAX_SEARCH_PAGES] 0 seen out of
                  (False, _, out') \<Rightarrow> out'
                | (True, seen', out') \<Rightarrow>
                    search_filters env com s all_scope accessible pk fs seen' out')))"

definition handle_search_req ::
    "'d req_env \<Rightarrow> community_id \<Rightarrow> sub_id \<Rightarrow> nfilter list \<Rightarrow> req_grant \<Rightarrow> relay_message list" where
  "handle_search_req env com s fs grant =
     (case build_search_channel_scope_filter (rg_accessible grant) (rg_token grant = None) of
        None \<Rightarrow> fst (send_msg env (Eose s) [])
      | Some scope \<Rightarrow> search_filters env com s scope (rg_accessible grant) (rg_pubkey grant) fs [] [])"

definition handle_req ::
    "'d req_env \<Rightarrow> connection \<Rightarrow> sub_id \<Rightarrow> nfilter list \<Rightarrow> node \<Rightarrow> node \<times> relay_message list" where
  "handle_req env conn s fs n =
     (let (plan, r1) = plan_req env conn s fs n; com = cn_community conn; n1 = n\<lparr>n_relay := r1\<rparr>
      in case plan of
           PlanReject msgs \<Rightarrow> (n1, send_all env msgs [])
         | PlanSearch grant \<Rightarrow> (n1, handle_search_req env com s fs grant)
         | PlanStream grant \<Rightarrow>
             (register_request com (cn_conn_id conn) s fs (rg_authorized grant) n1,
              deliver_history env com s grant fs [] []))"

section \<open>CLOSE, eviction and disconnect\<close>

definition close_subscription :: "connection \<Rightarrow> sub_id \<Rightarrow> node \<Rightarrow> node \<times> topic_op list" where
  "close_subscription conn s n =
     (let c = cn_conn_id conn; r = n_relay n;
          (g, removed) = remove_subscription (sub_registry r) c s
      in (n\<lparr>n_conn_subs := AList.update c (AList.delete s (conn_subs n c)) (n_conn_subs n),
            n_relay := r\<lparr>sub_registry := g\<rparr>\<rparr>,
          case removed of Some rs \<Rightarrow> release_subscription_topics (cn_community conn) (rs_scope rs) | None \<Rightarrow> []))"

definition handle_close :: "'d req_env \<Rightarrow> connection \<Rightarrow> sub_id \<Rightarrow> node \<Rightarrow> node \<times> relay_message list" where
  "handle_close env conn s n =
     (case close_subscription conn s n of
        (n1, ops) \<Rightarrow> (run_topic_ops ops n1, fst (send_msg env (Closed s []) [])))"

definition revoke_conn_channel ::
    "community_id \<Rightarrow> channel_id \<Rightarrow> conn_id \<Rightarrow> node \<Rightarrow> node \<times> topic_op list \<times> (conn_id \<times> relay_message) list" where
  "revoke_conn_channel com ch c n =
     (let r = n_relay n;
          (g, updates) = remove_channel_subscriptions_scoped (sub_registry r) com c ch;
          closed = filter cu_removed updates
      in if updates = [] then (n\<lparr>n_relay := r\<lparr>sub_registry := g\<rparr>\<rparr>, [], [])
         else
           (n\<lparr>n_relay := r\<lparr>sub_registry := g\<rparr>,
              n_conn_subs := (case map_of (n_conn_subs n) c of
                  None \<Rightarrow> n_conn_subs n
                | Some m \<Rightarrow> AList.update c (fold (\<lambda>u. AList.delete (cu_sub_id u)) closed m) (n_conn_subs n))\<rparr>,
            map (\<lambda>u. Release (from_context com (TopicChannel ch))) updates,
            map (\<lambda>u. (c, Closed (cu_sub_id u) ''restricted: channel access revoked'')) closed))"

definition evict_conn_channel_subscriptions ::
    "community_id \<Rightarrow> channel_id \<Rightarrow> conn_id \<Rightarrow> node \<Rightarrow> node \<times> (conn_id \<times> relay_message) list" where
  "evict_conn_channel_subscriptions com ch c n =
     (case revoke_conn_channel com ch c n of (n1, ops, msgs) \<Rightarrow> (run_topic_ops ops n1, msgs))"

definition evict_conns ::
    "community_id \<Rightarrow> channel_id \<Rightarrow> conn_id list \<Rightarrow> node \<Rightarrow> node \<times> (conn_id \<times> relay_message) list" where
  "evict_conns com ch cs n =
     fold (\<lambda>c (n, sent). case evict_conn_channel_subscriptions com ch c n of (n', msgs) \<Rightarrow> (n', sent @ msgs))
       cs (n, [])"

definition evict_all_channel_subscriptions ::
    "community_id \<Rightarrow> channel_id \<Rightarrow> node \<Rightarrow> node \<times> (conn_id \<times> relay_message) list" where
  "evict_all_channel_subscriptions com ch n =
     evict_conns com ch (channel_subscriber_conns_scoped (sub_registry (n_relay n)) com ch) n"

definition evict_non_member_channel_subscriptions ::
    "(db_error, bytes list) result \<Rightarrow> community_id \<Rightarrow> channel_id \<Rightarrow> node \<Rightarrow>
     (db_error, node \<times> (conn_id \<times> relay_message) list) result" where
  "evict_non_member_channel_subscriptions members com ch n = (case members of
     Inl e \<Rightarrow> Inl e
   | Inr member_pubkeys \<Rightarrow>
       Inr (evict_conns com ch
         (filter (\<lambda>c. case pubkey_for_conn (n_relay n) c of
               Some pk \<Rightarrow> pk \<notin> set member_pubkeys | None \<Rightarrow> True)
            (channel_subscriber_conns_scoped (sub_registry (n_relay n)) com ch)) n))"

text \<open>The end of a connection: its subscriptions are dropped and their topics released, then it is deregistered.\<close>

definition drop_subscriptions :: "connection \<Rightarrow> node \<Rightarrow> node \<times> topic_op list" where
  "drop_subscriptions conn n =
     (let r = n_relay n; (g, removed) = remove_connection (sub_registry r) (cn_conn_id conn)
      in (n\<lparr>n_relay := r\<lparr>sub_registry := g\<rparr>\<rparr>,
          concat (map (\<lambda>rs. release_subscription_topics (cn_community conn) (rs_scope rs)) removed)))"

definition deregister :: "connection \<Rightarrow> node \<Rightarrow> node" where
  "deregister conn n =
     (let c = cn_conn_id conn; r = n_relay n
      in n\<lparr>n_relay := r\<lparr>connections := AList.delete c (connections r)\<rparr>, n_conn_subs := AList.delete c (n_conn_subs n)\<rparr>)"

definition end_connection :: "connection \<Rightarrow> node \<Rightarrow> node" where
  "end_connection conn n =
     (case drop_subscriptions conn n of (n1, ops) \<Rightarrow> deregister conn (run_topic_ops ops n1))"

section \<open>COUNT\<close>

fun count_confirm ::
    "relay_env \<Rightarrow> community_id \<Rightarrow> bytes \<Rightarrow> channel_id list option \<Rightarrow> channel_id list \<Rightarrow> channel_id list \<Rightarrow>
     (db_error, channel_id list) result" where
  "count_confirm env com pk token [] accessible = Inr accessible"
| "count_confirm env com pk token (ch # chs) accessible =
     (if ch \<in> set accessible then count_confirm env com pk token chs accessible
      else if token_allows token ch then
        (case db_is_member env com ch pk of
           Inl e \<Rightarrow> Inl e
         | Inr member \<Rightarrow>
             count_confirm env com pk token chs
               (fst (resolve_request_local_access accessible ch True (Some member))))
      else count_confirm env com pk token chs
             (fst (resolve_request_local_access accessible ch False None)))"

definition count_gates :: "nostr_lib \<Rightarrow> nfilter list \<Rightarrow> string \<Rightarrow> (string, unit) result" where
  "count_gates lib fs me =
     (if \<not> p_gated_filters_authorized fs me then
        Inl ''restricted: p-gated kinds require #p tag matching your pubkey''
      else if \<not> engram_filters_authorized lib fs me then
        Inl ''restricted: agent-engram reads require authors=[self] or #p=[self]''
      else if \<not> author_only_filters_authorized lib fs me then
        Inl ''restricted: author-only kinds require authors=[self]''
      else Inr ())"

definition count_pushdown_ok :: "nostr_lib \<Rightarrow> string \<Rightarrow> nfilter \<Rightarrow> bool" where
  "count_pushdown_ok lib me f =
     (let needs_author_only_filtering = filter_can_match_author_only_kinds f;
          needs_shared_gate_filtering = filter_can_match_shared_gated_kinds f;
          needs_result_gated_filtering =
            (filter_can_match_result_gated_kinds f \<and> \<not> result_gated_count_safe_for_pushdown f me)
      in filter_fully_pushable f \<and> (\<not> needs_author_only_filtering \<or> authors_are_self lib me f) \<and>
         \<not> needs_result_gated_filtering \<and> \<not> needs_shared_gate_filtering)"

definition count_rows :: "nostr_lib \<Rightarrow> nfilter \<Rightarrow> bytes \<Rightarrow> stored_event list \<Rightarrow> nat" where
  "count_rows lib f pk rows =
     fold (\<lambda>se tally.
        if \<not> filters_match lib [f] se then tally
        else if \<not> event_visible_to_reader lib (se_event se) pk then tally
        else Suc tally) rows 0"

definition count_query ::
    "'d req_env \<Rightarrow> bytes \<Rightarrow> nfilter \<Rightarrow> 'd event_query \<Rightarrow> 'd event_query \<Rightarrow> (string, nat) result" where
  "count_query env pk f fast_query query =
     (if count_pushdown_ok (re_lib env) (hex_encode (re_lib env) pk) f then
        (case re_count_events env fast_query of
           Inr tally \<Rightarrow> Inr tally
         | Inl e \<Rightarrow> Inl (''error: '' @ e))
      else
        (case re_query_events_bounded env (apply_count_fallback_limit query) of
           Inr rows \<Rightarrow>
             if count_fallback_exceeded (length rows)
             then Inl ''restricted: count filter requires narrower constraints''
             else Inr (count_rows (re_lib env) f pk rows)
         | Inl e \<Rightarrow> Inl (''error: '' @ e)))"

definition with_shared_reader :: "nfilter \<Rightarrow> bytes \<Rightarrow> 'd event_query \<Rightarrow> 'd event_query" where
  "with_shared_reader f pk q =
     (if filter_can_match_shared_gated_kinds f then q\<lparr>q_shared_gated_reader := Some pk\<rparr> else q)"

definition count_filter ::
    "'d req_env \<Rightarrow> community_id \<Rightarrow> bytes \<Rightarrow> channel_id list option \<Rightarrow> nfilter \<Rightarrow> channel_id list \<Rightarrow>
     (string, channel_id list \<times> nat) result" where
  "count_filter env com pk token f accessible =
     (let lib = re_lib env;
          base = build_event_query_from_filter lib (re_from_ts env) f com
      in case extract_channel_ids_from_filters lib [f] of
           Some requested \<Rightarrow>
             (case count_confirm (re_env env) com pk token requested accessible of
                Inl _ \<Rightarrow> Inl ''error: database error''
              | Inr accessible' \<Rightarrow>
                  (let authorized = filter (\<lambda>ch. ch \<in> set accessible') requested in
                   if authorized = [] then Inr (accessible', 0)
                   else
                     (let ch = (if length requested = 1 then Some (hd authorized) else None);
                          q = with_shared_reader f pk (apply_channel_scope_to_query lib f ch accessible' base)
                      in map_sum id (Pair accessible') (count_query env pk f q q))))
         | None \<Rightarrow>
             (let q = with_shared_reader f pk (base\<lparr>q_channel_ids := Some accessible\<rparr>)
              in map_sum id (Pair accessible) (count_query env pk f (q\<lparr>q_limit := None\<rparr>) q)))"

fun count_filters ::
    "'d req_env \<Rightarrow> community_id \<Rightarrow> bytes \<Rightarrow> channel_id list option \<Rightarrow> nfilter list \<Rightarrow> channel_id list \<Rightarrow> nat \<Rightarrow>
     (string, nat) result" where
  "count_filters env com pk token [] accessible tally = Inr tally"
| "count_filters env com pk token (f # fs) accessible tally =
     (case count_filter env com pk token f accessible of
        Inl text \<Rightarrow> Inl text
      | Inr (accessible', m) \<Rightarrow> count_filters env com pk token fs accessible' (tally + m))"

definition handle_count ::
    "'d req_env \<Rightarrow> connection \<Rightarrow> sub_id \<Rightarrow> nfilter list \<Rightarrow> node \<Rightarrow> node \<times> relay_message list" where
  "handle_count env conn s fs n =
     (let lib = re_lib env; com = cn_community conn;
          reply = (\<lambda>msg n. (n, fst (send_msg env msg [])))
      in case cn_auth_state conn of
           Authenticated ctx \<Rightarrow>
             (let pk = ac_pubkey ctx; token = ac_channel_ids ctx in
              case count_gates lib fs (hex_encode lib pk) of
                Inl text \<Rightarrow> reply (Closed s text) n
              | Inr _ \<Rightarrow>
                  (case extract_channel_ids_from_filters_limited lib fs of
                     Inl _ \<Rightarrow> reply (Closed s ''restricted: too many explicit channels'') n
                   | Inr _ \<Rightarrow>
                       (case get_accessible_channel_ids_cached (re_env env) com pk (n_relay n) of
                          (Inl _, r1) \<Rightarrow> reply (Closed s ''error: database error'') (n\<lparr>n_relay := r1\<rparr>)
                        | (Inr chs, r1) \<Rightarrow>
                            (case count_filters env com pk token fs (narrow_to_token token chs) 0 of
                               Inl text \<Rightarrow> reply (Closed s text) (n\<lparr>n_relay := r1\<rparr>)
                             | Inr tally \<Rightarrow> reply (CountMsg s tally) (n\<lparr>n_relay := r1\<rparr>)))))
         | _ \<Rightarrow> reply (Closed s ''auth-required: not authenticated'') n)"

end
