(* ===== verification/Request_Safety.thy ===== *)
theory Request_Safety
  imports Requests
begin

text \<open>
  What a client learns from a request.  The checks at the head of REQ yield a grant whose channels
  the reader may access; the history and search loops send only rows the grant and the per-event
  gate admit, each once, and end the stream; registration follows the grant; COUNT counts what
  REQ would deliver.
\<close>

section \<open>The grant\<close>

text \<open>A channel a reader may read: inside the token's bound, and accessible by the node's belief or a
  member by the database.\<close>

definition reader_may_access ::
    "relay_env \<Rightarrow> relay \<Rightarrow> community_id \<Rightarrow> bytes \<Rightarrow> channel_id list option \<Rightarrow> channel_id \<Rightarrow> bool" where
  "reader_may_access env r com pk token ch =
     (token_allows token ch \<and>
      ((\<exists>chs. believed_accessible env r (com, pk) = Inr chs \<and> ch \<in> set chs) \<or>
       db_is_member env com ch pk = Inr True))"

lemma set_narrow_to_token: "set (narrow_to_token token chs) = {ch \<in> set chs. token_allows token ch}"
  by (auto simp: narrow_to_token_def token_allows_def none_or_def split: option.splits)

lemma req_accessible_sound:
  assumes "req_accessible env com pk token fs r = (Inr accessible, r1)" and "ch \<in> set accessible"
  shows "reader_may_access env r com pk token ch"
proof -
  from assms(1) have "accessible = [] \<or>
      (\<exists>chs. believed_accessible env r (com, pk) = Inr chs \<and> accessible = narrow_to_token token chs)"
    using accessible.lookup_answer [of env "(com, pk)" r]
    by (auto simp: req_accessible_def narrow_to_token_def map_sum_def split: prod.splits if_splits
        sum.splits option.splits)
  with assms(2) show ?thesis
    by (auto simp: reader_may_access_def set_narrow_to_token)
qed

lemma confirm_channels_sound:
  assumes "confirm_channels env com pk token chs accessible = Inr accessible'"
    and "\<And>ch. ch \<in> set accessible \<Longrightarrow> reader_may_access env r com pk token ch"
  shows "ch \<in> set accessible' \<Longrightarrow> reader_may_access env r com pk token ch"
  using assms
proof (induction env com pk token chs accessible rule: confirm_channels.induct)
  case (2 env com pk token c chs accessible)
  show ?case
  proof (cases "\<not> token_allows token c \<or> c \<in> set accessible")
    case True
    with 2 show ?thesis
      by (auto simp: Let_def resolve_request_local_access_spec)
  next
    case False
    then obtain m where m: "db_is_member env com c pk = Inr m"
      using 2(4) by (auto simp: Let_def split: sum.splits)
    with False 2(4) have "confirm_channels env com pk token chs
        (fst (resolve_request_local_access accessible c True (Some m))) = Inr accessible'"
      by (simp add: Let_def)
    moreover have "reader_may_access env r com pk token c'"
      if "c' \<in> set (fst (resolve_request_local_access accessible c True (Some m)))" for c'
      using that False m 2(5) by (auto simp: resolve_request_local_access_spec reader_may_access_def split: if_splits)
    ultimately show ?thesis using 2(2) [OF refl _ m] False 2(3) by simp
  qed
qed simp

definition grant_ok :: "'d req_env \<Rightarrow> connection \<Rightarrow> nfilter list \<Rightarrow> relay \<Rightarrow> req_grant \<Rightarrow> bool" where
  "grant_ok env conn fs r g =
     ((\<exists>ctx. cn_auth_state conn = Authenticated ctx \<and> rg_pubkey g = ac_pubkey ctx \<and>
         rg_token g = ac_channel_ids ctx) \<and>
      (\<forall>ch \<in> set (rg_accessible g).
         reader_may_access (re_env env) r (cn_community conn) (rg_pubkey g) (rg_token g) ch) \<and>
      (case rg_authorized g of
         None \<Rightarrow> req_gates (re_lib env) fs (rg_pubkey g) = Inr ()
       | Some chs \<Rightarrow> chs \<noteq> [] \<and> distinct chs \<and> set chs \<subseteq> set (rg_accessible g) \<and>
           extract_channel_ids_from_filters (re_lib env) fs \<noteq> None))"

lemma extract_limited_Inr:
  "extract_channel_ids_from_filters_limited lib fs = Inr requested \<Longrightarrow>
     extract_channel_ids_from_filters lib fs = requested"
  by (auto simp: extract_channel_ids_from_filters_limited_def split: sum.splits if_splits)

lemma req_auth_Inr:
  "req_auth conn s n = Inr (pk, token) \<Longrightarrow>
     \<exists>ctx. cn_auth_state conn = Authenticated ctx \<and> pk = ac_pubkey ctx \<and> token = ac_channel_ids ctx"
  by (auto simp: req_auth_def Let_def split: auth_state.splits if_splits)

text \<open>The stages a request passes on its way to a grant.\<close>

lemma plan_req_grantD:
  assumes "fst (plan_req env conn s fs n) = PlanStream g \<or> fst (plan_req env conn s fs n) = PlanSearch g"
  obtains accessible0 r1 where
    "req_auth conn s n = Inr (rg_pubkey g, rg_token g)"
    "req_accessible (re_env env) (cn_community conn) (rg_pubkey g) (rg_token g) fs (n_relay n) = (Inr accessible0, r1)"
    "(case extract_channel_ids_from_filters (re_lib env) fs of
        None \<Rightarrow> Inr accessible0
      | Some chs \<Rightarrow> confirm_channels (re_env env) (cn_community conn) (rg_pubkey g) (rg_token g) chs accessible0) =
        Inr (rg_accessible g)"
    "rg_channel_id g = extract_channel_id_from_filters (re_lib env) fs"
    "rg_authorized g = map_option (filter (\<lambda>ch. ch \<in> set (rg_accessible g)))
        (extract_channel_ids_from_filters (re_lib env) fs)"
    "rg_authorized g \<noteq> Some []"
    "rg_channel_id g = None \<longrightarrow> req_gates (re_lib env) fs (rg_pubkey g) = Inr ()"
  using assms
  by (auto simp: plan_req_def Let_def dest!: extract_limited_Inr
      split: sum.splits prod.splits if_splits option.splits)

lemma plan_req_grant:
  assumes "fst (plan_req env conn s fs n) = PlanStream g \<or> fst (plan_req env conn s fs n) = PlanSearch g"
  shows "grant_ok env conn fs (n_relay n) g"
  using assms
proof (rule plan_req_grantD)
  fix accessible0 r1
  let ?lib = "re_lib env"
  assume auth: "req_auth conn s n = Inr (rg_pubkey g, rg_token g)"
    and acc: "req_accessible (re_env env) (cn_community conn) (rg_pubkey g) (rg_token g) fs (n_relay n) = (Inr accessible0, r1)"
    and conf: "(case extract_channel_ids_from_filters ?lib fs of
        None \<Rightarrow> Inr accessible0
      | Some chs \<Rightarrow> confirm_channels (re_env env) (cn_community conn) (rg_pubkey g) (rg_token g) chs accessible0) =
        Inr (rg_accessible g)"
    and ch: "rg_channel_id g = extract_channel_id_from_filters ?lib fs"
    and authz: "rg_authorized g = map_option (filter (\<lambda>ch. ch \<in> set (rg_accessible g)))
        (extract_channel_ids_from_filters ?lib fs)"
    and nonempty: "rg_authorized g \<noteq> Some []"
    and gates: "rg_channel_id g = None \<longrightarrow> req_gates ?lib fs (rg_pubkey g) = Inr ()"
  have "reader_may_access (re_env env) (n_relay n) (cn_community conn) (rg_pubkey g) (rg_token g) c"
    if "c \<in> set (rg_accessible g)" for c
    using conf that confirm_channels_sound [OF _ req_accessible_sound [OF acc]] req_accessible_sound [OF acc]
    by (auto split: option.splits)
  moreover have "case rg_authorized g of
         None \<Rightarrow> req_gates ?lib fs (rg_pubkey g) = Inr ()
       | Some chs \<Rightarrow> chs \<noteq> [] \<and> distinct chs \<and> set chs \<subseteq> set (rg_accessible g) \<and>
           extract_channel_ids_from_filters ?lib fs \<noteq> None"
  proof (cases "extract_channel_ids_from_filters ?lib fs")
    case None
    then have "extract_channel_id_from_filters ?lib fs = None"
      using single_channel_scope [of ?lib fs] by (cases "extract_channel_id_from_filters ?lib fs") auto
    with None authz ch gates show ?thesis by simp
  next
    case (Some chs)
    with authz nonempty extract_channel_ids_distinct [OF Some] show ?thesis by auto
  qed
  ultimately show ?thesis using req_auth_Inr [OF auth] by (auto simp: grant_ok_def)
qed

lemma same_beliefs_accessible:
  "same_beliefs env r (snd (get_accessible_channel_ids_cached env com pk r))"
proof -
  have *: "connections r' = connections r" "sub_registry r' = sub_registry r"
      "membership_cache r' = membership_cache r" "local_event_ids r' = local_event_ids r"
      "channel_visibility_cache r' = channel_visibility_cache r"
    if "all_but_accessible r' = all_but_accessible r" for r'
    using that by (cases r; cases r'; simp add: all_but_accessible_def)+
  show ?thesis
    using accessible.lookup_belief [of env "(com, pk)" r]
      * [OF accessible.lookup_view [of env "(com, pk)" r]]
    by (simp add: same_beliefs_def believed_member_def believed_visibility_def)
qed

lemma plan_req_state: "same_beliefs (re_env env) (n_relay n) (snd (plan_req env conn s fs n))"
proof -
  have "same_beliefs (re_env env) (n_relay n) (snd (req_accessible (re_env env) com pk token fs (n_relay n)))"
    for com pk token
    using same_beliefs_accessible [of "re_env env" "n_relay n" com pk]
    by (auto simp: req_accessible_def split: prod.splits)
  then show ?thesis
    by (auto simp: plan_req_def Let_def split: sum.splits prod.splits) (metis snd_conv)+
qed

section \<open>The delivery loops\<close>

definition row_id :: "stored_event \<Rightarrow> event_id" where
  "row_id se = ev_id (se_event se)"

definition event_msgs :: "sub_id \<Rightarrow> stored_event list \<Rightarrow> relay_message list" where
  "event_msgs s rows = map (\<lambda>se. EventMsg s (se_event se)) rows"

text \<open>A batch of sent rows: each passed the check, each id is new and recorded.\<close>

definition sent_batch ::
    "(stored_event \<Rightarrow> bool) \<Rightarrow> event_id list \<Rightarrow> stored_event list \<Rightarrow> event_id list \<Rightarrow> bool" where
  "sent_batch P seen sent seen' =
     (list_all P sent \<and> distinct (map row_id sent) \<and> set (map row_id sent) \<inter> set seen = {} \<and>
      set seen' \<supseteq> set seen \<union> set (map row_id sent))"

lemma sent_batch_Nil [simp]: "sent_batch P seen [] seen"
  by (simp add: sent_batch_def)

lemma sent_batch_append:
  "sent_batch P seen sent1 seen1 \<Longrightarrow> sent_batch P seen1 sent2 seen2 \<Longrightarrow> sent_batch P seen (sent1 @ sent2) seen2"
  by (auto simp: sent_batch_def) (metis IntI empty_iff imageI subsetD)

lemma sent_batch_Cons:
  "P se \<Longrightarrow> row_id se \<notin> set seen \<Longrightarrow> sent_batch P (row_id se # seen) sent seen' \<Longrightarrow>
     sent_batch P seen (se # sent) seen'"
  by (auto simp: sent_batch_def)

lemma sent_batch_mono:
  "sent_batch P seen sent seen' \<Longrightarrow> (\<And>se. P se \<Longrightarrow> Q se) \<Longrightarrow> sent_batch Q seen sent seen'"
  by (auto simp: sent_batch_def list_all_iff)

lemma event_msgs_append: "event_msgs s (a @ b) = event_msgs s a @ event_msgs s b"
  by (simp add: event_msgs_def)

lemma event_msgs_Cons: "event_msgs s (se # b) = EventMsg s (se_event se) # event_msgs s b"
  by (simp add: event_msgs_def)

lemma send_msg_cases:
  obtains "send_msg env m out = (out @ [m], True)" "re_accepts env out m"
    | "send_msg env m out = (out, False)" "\<not> re_accepts env out m"
  by (cases "re_accepts env out m") (auto simp: send_msg_def)

lemma deliver_rows_sends:
  assumes "\<forall>se \<in> set rows. Q se"
  shows "\<exists>sent ok seen'. deliver_rows env s f accessible pk rows seen out = (ok, seen', out @ event_msgs s sent) \<and>
     sent_batch (\<lambda>se. Q se \<and> row_deliverable (re_lib env) f accessible pk se) seen sent seen'"
  using assms
proof (induction rows arbitrary: seen out)
  case Nil
  show ?case by (auto simp: event_msgs_def intro: exI [of _ "[]"])
next
  case (Cons se rows)
  show ?case
  proof (cases "row_deliverable (re_lib env) f accessible pk se \<and> ev_id (se_event se) \<notin> set seen")
    case True
    show ?thesis
    proof (rule send_msg_cases [of env "EventMsg s (se_event se)" out])
      assume ok: "send_msg env (EventMsg s (se_event se)) out = (out @ [EventMsg s (se_event se)], True)"
      from Cons.IH [of "ev_id (se_event se) # seen" "out @ [EventMsg s (se_event se)]"] Cons.prems obtain sent okf seen' where
        "deliver_rows env s f accessible pk rows (ev_id (se_event se) # seen) (out @ [EventMsg s (se_event se)]) =
          (okf, seen', (out @ [EventMsg s (se_event se)]) @ event_msgs s sent)"
        "sent_batch (\<lambda>se. Q se \<and> row_deliverable (re_lib env) f accessible pk se) (ev_id (se_event se) # seen) sent seen'"
        by auto
      with True ok Cons.prems show ?thesis
        by (intro exI [of _ "se # sent"] exI [of _ okf] exI [of _ seen'])
           (auto simp: event_msgs_Cons row_id_def intro!: sent_batch_Cons)
    next
      assume "send_msg env (EventMsg s (se_event se)) out = (out, False)"
      with True show ?thesis
        by (intro exI [of _ "[]"]) (auto simp: event_msgs_def sent_batch_def)
    qed
  next
    case False
    with Cons show ?thesis by auto
  qed
qed

text \<open>The row is one the database returned for this filter in this community: to the query of the history, or as
  an event that the search had found.\<close>

definition fetched :: "'d req_env \<Rightarrow> community_id \<Rightarrow> nfilter \<Rightarrow> stored_event \<Rightarrow> bool" where
  "fetched env com f se \<longleftrightarrow>
     (\<exists>g rows. re_query_events env (historical_query env com g f) = Inr rows \<and> se \<in> set rows) \<or>
     (\<exists>text scope page hits rows. f_search f = Some text \<and> re_search env (search_query_for com text scope f page) = Inr hits \<and>
        re_events_by_ids env com hits = Inr rows \<and> se \<in> set rows)"

lemma deliver_history_sends:
  "\<exists>sent seen'. deliver_history env com s g fs seen out \<in> {out @ event_msgs s sent, out @ event_msgs s sent @ [Eose s]} \<and>
     sent_batch (\<lambda>se. \<exists>f \<in> set fs. fetched env com f se \<and> row_deliverable (re_lib env) f (rg_accessible g) (rg_pubkey g) se) seen sent seen'"
proof (induction fs arbitrary: seen out)
  case Nil
  show ?case by (auto simp: send_msg_def event_msgs_def intro!: exI [of _ "[]"] exI [of _ seen])
next
  case (Cons f fs)
  let ?P = "\<lambda>fs se. \<exists>f \<in> set fs. fetched env com f se \<and> row_deliverable (re_lib env) f (rg_accessible g) (rg_pubkey g) se"
  show ?case
  proof (cases "re_query_events env (historical_query env com g f)")
    case (Inl e)
    then show ?thesis by (auto simp: send_msg_def event_msgs_def intro!: exI [of _ "[]"] exI [of _ seen])
  next
    case (Inr rows)
    obtain sent ok seen' where d: "deliver_rows env s f (rg_accessible g) (rg_pubkey g) rows seen out =
        (ok, seen', out @ event_msgs s sent)"
      and b: "sent_batch (\<lambda>se. se \<in> set rows \<and> row_deliverable (re_lib env) f (rg_accessible g) (rg_pubkey g) se) seen sent seen'"
      using deliver_rows_sends [of rows "\<lambda>se. se \<in> set rows"] by blast
    have b1: "sent_batch (?P (f # fs)) seen sent seen'" by (rule sent_batch_mono [OF b]) (use Inr in \<open>auto simp: fetched_def\<close>)
    show ?thesis
    proof (cases ok)
      case True
      from Cons.IH [of seen' "out @ event_msgs s sent"] obtain sent2 seen2 where
        h: "deliver_history env com s g fs seen' (out @ event_msgs s sent) \<in>
          {(out @ event_msgs s sent) @ event_msgs s sent2, (out @ event_msgs s sent) @ event_msgs s sent2 @ [Eose s]}"
        and b2: "sent_batch (?P fs) seen' sent2 seen2" by blast
      have "sent_batch (?P (f # fs)) seen (sent @ sent2) seen2"
        by (rule sent_batch_append [OF b1 sent_batch_mono [OF b2]]) auto
      with True d h Inr show ?thesis
        by (intro exI [of _ "sent @ sent2"] exI [of _ seen2]) (auto simp: event_msgs_append)
    next
      case False
      with d b1 Inr show ?thesis by (intro exI [of _ sent] exI [of _ seen']) auto
    qed
  qed
qed

lemma deliver_hits_sends:
  assumes Q: "\<forall>i se. event_map i = Some se \<longrightarrow> Q se"
  shows "\<exists>sent ok emitted' seen'. deliver_hits env s f accessible pk event_map limit ids emitted seen out =
       (ok, emitted', seen', out @ event_msgs s sent) \<and> emitted' = emitted + length sent \<and>
     (emitted \<le> limit \<longrightarrow> emitted' \<le> limit) \<and>
     sent_batch (\<lambda>se. Q se \<and> row_deliverable (re_lib env) f accessible pk se) seen sent seen'"
proof (induction ids arbitrary: emitted seen out)
  case Nil
  show ?case by (auto simp: event_msgs_def intro: exI [of _ "[]"])
next
  case (Cons i ids)
  show ?case
  proof (cases "emitted < limit \<and> (\<exists>se. event_map i = Some se \<and>
      row_deliverable (re_lib env) f accessible pk se \<and> ev_id (se_event se) \<notin> set seen)")
    case True
    then obtain se where se: "emitted < limit" "event_map i = Some se"
      "row_deliverable (re_lib env) f accessible pk se" "ev_id (se_event se) \<notin> set seen" by blast
    show ?thesis
    proof (rule send_msg_cases [of env "EventMsg s (se_event se)" out])
      assume ok: "send_msg env (EventMsg s (se_event se)) out = (out @ [EventMsg s (se_event se)], True)"
      from Cons.IH [of "Suc emitted" "ev_id (se_event se) # seen" "out @ [EventMsg s (se_event se)]"]
      obtain sent okf em seen' where
        "deliver_hits env s f accessible pk event_map limit ids (Suc emitted) (ev_id (se_event se) # seen)
            (out @ [EventMsg s (se_event se)]) =
          (okf, em, seen', (out @ [EventMsg s (se_event se)]) @ event_msgs s sent)"
        "em = Suc emitted + length sent" "Suc emitted \<le> limit \<longrightarrow> em \<le> limit"
        "sent_batch (\<lambda>se. Q se \<and> row_deliverable (re_lib env) f accessible pk se) (ev_id (se_event se) # seen) sent seen'"
        by blast
      with se ok Q show ?thesis
        by (intro exI [of _ "se # sent"] exI [of _ okf] exI [of _ em] exI [of _ seen'])
           (auto simp: event_msgs_Cons row_id_def intro!: sent_batch_Cons)
    next
      assume "send_msg env (EventMsg s (se_event se)) out = (out, False)"
      with se show ?thesis
        by (intro exI [of _ "[]"]) (auto simp: event_msgs_def sent_batch_def)
    qed
  next
    case False
    show ?thesis
    proof (cases "emitted \<ge> limit")
      case True
      then show ?thesis by (auto simp: event_msgs_def intro!: exI [of _ "[]"])
    next
      case lt: False
      with False have "deliver_hits env s f accessible pk event_map limit (i # ids) emitted seen out =
          deliver_hits env s f accessible pk event_map limit ids emitted seen out"
        by (auto split: option.splits)
      then show ?thesis using Cons.IH [of emitted seen out] by simp
    qed
  qed
qed

lemma search_pages_sends:
  assumes "emitted \<le> search_limit f" and words: "f_search f = Some words"
  shows "\<exists>sent ok seen'. search_pages env com s f words scope accessible pk pages emitted seen out =
       (ok, seen', out @ event_msgs s sent) \<and> emitted + length sent \<le> search_limit f \<and>
     sent_batch (\<lambda>se. fetched env com f se \<and> row_deliverable (re_lib env) f accessible pk se) seen sent seen'"
  using assms(1)
proof (induction pages arbitrary: emitted seen out)
  case Nil
  then show ?case by (auto simp: event_msgs_def intro: exI [of _ "[]"])
next
  case (Cons page pages)
  have stop: ?case if "search_pages env com s f words scope accessible pk (page # pages) emitted seen out = (True, seen, out)"
    using that Cons.prems by (auto simp: event_msgs_def intro: exI [of _ "[]"])
  show ?case
  proof (cases "re_search env (search_query_for com words scope f page)")
    case (Inr hits)
    show ?thesis
    proof (cases "re_events_by_ids env com hits")
      case ev: (Inr events)
      let ?m = "map_of (rev (map (\<lambda>se. (ev_id (se_event se), se)) events))"
      have "fetched env com f se" if "?m i = Some se" for i se
        using map_of_SomeD [OF that] words Inr ev unfolding fetched_def by auto
      then have row: "\<forall>i se. ?m i = Some se \<longrightarrow> fetched env com f se" by blast
      obtain sent ok em seen' where d: "deliver_hits env s f accessible pk ?m (search_limit f) hits emitted seen out =
            (ok, em, seen', out @ event_msgs s sent)"
        and em: "em = emitted + length sent" "emitted \<le> search_limit f \<longrightarrow> em \<le> search_limit f"
        and b: "sent_batch (\<lambda>se. fetched env com f se \<and> row_deliverable (re_lib env) f accessible pk se) seen sent seen'"
        using deliver_hits_sends [OF row, of env s f accessible pk "search_limit f" hits emitted seen out] by blast
      have le: "em \<le> search_limit f" using em Cons.prems by simp
      show ?thesis
      proof (cases "emitted \<ge> search_limit f \<or> hits = []")
        case True
        with Inr show ?thesis by (intro stop) auto
      next
        case False
        show ?thesis
        proof (cases "ok \<and> \<not> length hits < SEARCH_PAGE_SIZE")
          case True
          from Cons.IH [OF le, of seen' "out @ event_msgs s sent"] obtain sent2 ok2 seen2 where
            "search_pages env com s f words scope accessible pk pages em seen' (out @ event_msgs s sent) =
              (ok2, seen2, (out @ event_msgs s sent) @ event_msgs s sent2)"
            "em + length sent2 \<le> search_limit f"
            "sent_batch (\<lambda>se. fetched env com f se \<and> row_deliverable (re_lib env) f accessible pk se) seen' sent2 seen2" by blast
          with True False Inr ev d em b show ?thesis
            by (intro exI [of _ "sent @ sent2"] exI [of _ ok2] exI [of _ seen2])
               (auto simp: event_msgs_append intro: sent_batch_append)
        next
          case stopped: False
          with False Inr ev d le em b show ?thesis
            by (intro exI [of _ sent] exI [of _ ok] exI [of _ seen']) (auto split: bool.splits)
        qed
      qed
    qed (use Inr in \<open>intro stop, auto\<close>)
  qed (intro stop, auto)
qed

lemma search_filters_sends:
  "\<exists>sent seen'. search_filters env com s all_scope accessible pk fs seen out \<in>
       {out @ event_msgs s sent, out @ event_msgs s sent @ [Eose s]} \<and>
     sent_batch (\<lambda>se. \<exists>f \<in> set fs. fetched env com f se \<and> row_deliverable (re_lib env) f accessible pk se) seen sent seen'"
proof (induction fs arbitrary: seen out)
  case Nil
  show ?case by (auto simp: send_msg_def event_msgs_def intro!: exI [of _ "[]"] exI [of _ seen])
next
  case (Cons f fs)
  let ?P = "\<lambda>fs se. \<exists>f \<in> set fs. fetched env com f se \<and> row_deliverable (re_lib env) f accessible pk se"
  have skip: ?case if "search_filters env com s all_scope accessible pk (f # fs) seen out =
      search_filters env com s all_scope accessible pk fs seen out"
  proof -
    obtain sent seen' where "search_filters env com s all_scope accessible pk fs seen out \<in>
        {out @ event_msgs s sent, out @ event_msgs s sent @ [Eose s]}"
      and b: "sent_batch (?P fs) seen sent seen'" using Cons.IH by blast
    moreover have "sent_batch (?P (f # fs)) seen sent seen'" by (rule sent_batch_mono [OF b]) auto
    ultimately show ?thesis unfolding that by (intro exI [of _ sent] exI [of _ seen'] conjI)
  qed
  show ?case
  proof (cases "f_search f")
    case (Some words)
    show ?thesis
    proof (cases "search_channel_scope (re_lib env) accessible all_scope f")
      case scope: (Some scope)
      obtain sent ok seen' where d: "search_pages env com s f words scope accessible pk [1..<Suc MAX_SEARCH_PAGES] 0 seen out =
          (ok, seen', out @ event_msgs s sent)"
        and b: "sent_batch (\<lambda>se. fetched env com f se \<and> row_deliverable (re_lib env) f accessible pk se) seen sent seen'"
        using search_pages_sends [of 0 f words env com s scope accessible pk "[1..<Suc MAX_SEARCH_PAGES]" seen out] Some by blast
      have b1: "sent_batch (?P (f # fs)) seen sent seen'" by (rule sent_batch_mono [OF b]) simp
      from Cons.IH [of seen' "out @ event_msgs s sent"] obtain sent2 seen2 where
        h: "search_filters env com s all_scope accessible pk fs seen' (out @ event_msgs s sent) \<in>
          {(out @ event_msgs s sent) @ event_msgs s sent2, (out @ event_msgs s sent) @ event_msgs s sent2 @ [Eose s]}"
        and b2: "sent_batch (?P fs) seen' sent2 seen2" by blast
      have b3: "sent_batch (?P (f # fs)) seen (sent @ sent2) seen2"
        by (rule sent_batch_append [OF b1 sent_batch_mono [OF b2]]) auto
      show ?thesis
      proof (cases "words = [] \<or> search_limit f = 0")
        case True
        with Some show ?thesis by (intro skip) auto
      next
        case False
        show ?thesis
        proof (cases ok)
          case True
          with False Some scope d h b3 show ?thesis
            by (intro exI [of _ "sent @ sent2"] exI [of _ seen2]) (auto simp: event_msgs_append simp del: upt_Suc)
        next
          case nok: False
          with False Some scope d b1 show ?thesis
            by (intro exI [of _ sent] exI [of _ seen']) (auto simp del: upt_Suc)
        qed
      qed
    qed (use Some in \<open>intro skip, auto\<close>)
  qed (intro skip, auto)
qed

text \<open>Both lanes together.\<close>

lemma handle_req_sends:
  assumes "fst (plan_req env conn s fs n) = PlanStream g \<or> fst (plan_req env conn s fs n) = PlanSearch g"
  shows "\<exists>sent. snd (handle_req env conn s fs n) \<in> {event_msgs s sent, event_msgs s sent @ [Eose s]} \<and>
     distinct (map row_id sent) \<and>
     list_all (\<lambda>se. \<exists>f \<in> set fs. fetched env (cn_community conn) f se \<and>
       row_deliverable (re_lib env) f (rg_accessible g) (rg_pubkey g) se) sent"
proof -
  obtain plan r1 where plan: "plan_req env conn s fs n = (plan, r1)" by (cases "plan_req env conn s fs n")
  from assms plan consider "plan = PlanStream g" | "plan = PlanSearch g" by auto
  then show ?thesis
  proof cases
    case 1
    with plan deliver_history_sends [of env "cn_community conn" s g fs "[]" "[]"] show ?thesis
      by (auto simp: handle_req_def Let_def sent_batch_def)
  next
    case 2
    show ?thesis
    proof (cases "build_search_channel_scope_filter (rg_accessible g) (rg_token g = None)")
      case None
      with plan 2 show ?thesis
        by (auto simp: handle_req_def Let_def handle_search_req_def send_msg_def event_msgs_def
            intro!: exI [of _ "[]"])
    next
      case (Some scope)
      with plan 2 search_filters_sends [of env "cn_community conn" s scope "rg_accessible g" "rg_pubkey g" fs "[]" "[]"]
      show ?thesis by (auto simp: handle_req_def Let_def handle_search_req_def sent_batch_def)
    qed
  qed
qed

lemma send_all_prefix:
  "\<exists>sent. send_all env msgs out = out @ sent \<and> set sent \<subseteq> set msgs"
proof (induction msgs arbitrary: out)
  case Nil
  show ?case by (simp add: send_all_def)
next
  case (Cons m msgs)
  show ?case
  proof (rule send_msg_cases [of env m out])
    assume "send_msg env m out = (out @ [m], True)"
    with Cons [of "out @ [m]"] show ?thesis by (force simp: send_all_def)
  next
    assume "send_msg env m out = (out, False)"
    with Cons [of out] show ?thesis by (force simp: send_all_def)
  qed
qed

lemma plan_reject_msgs:
  assumes "fst (plan_req env conn s fs n) = PlanReject msgs"
  shows "\<exists>notices words. msgs = notices @ [Closed s words] \<and> list_all (\<lambda>m. \<exists>t. m = Notice t) notices"
proof -
  have auth: "req_auth conn s n = Inl msgs \<Longrightarrow>
      \<exists>notices words. msgs = notices @ [Closed s words] \<and> list_all (\<lambda>m. \<exists>t. m = Notice t) notices" for msgs
    by (force simp: req_auth_def Let_def Cons_eq_append_conv split: auth_state.splits if_splits)
  have one: "\<exists>notices words. [Closed s t] = notices @ [Closed s words] \<and> list_all (\<lambda>m. \<exists>t. m = Notice t) notices" for t
    by (rule exI [of _ "[]"]) simp
  from assms auth one show ?thesis
    by (auto simp: plan_req_def Let_def split: sum.splits prod.splits if_splits option.splits)
qed

section \<open>An accepting connection\<close>

text \<open>The reference for the deduplication: the first row of each id, in order.\<close>

fun first_by_id :: "event_id list \<Rightarrow> stored_event list \<Rightarrow> stored_event list" where
  "first_by_id seen [] = []"
| "first_by_id seen (se # rows) =
     (if row_id se \<in> set seen then first_by_id seen rows else se # first_by_id (row_id se # seen) rows)"

lemma first_by_id_cong: "set seen = set seen' \<Longrightarrow> first_by_id seen rows = first_by_id seen' rows"
proof (induction rows arbitrary: seen seen')
  case (Cons se rows)
  from Cons.IH [of "row_id se # seen" "row_id se # seen'"] Cons.IH [OF Cons.prems] Cons.prems
  show ?case by auto
qed simp

lemma first_by_id_append:
  "first_by_id seen (xs @ ys) = first_by_id seen xs @ first_by_id (map row_id xs @ seen) ys"
proof (induction xs arbitrary: seen)
  case (Cons x xs)
  have "first_by_id (row_id x # map row_id xs @ seen) ys = first_by_id (map row_id xs @ row_id x # seen) ys"
    by (rule first_by_id_cong) auto
  moreover have "row_id x \<in> set seen \<Longrightarrow>
      first_by_id (row_id x # map row_id xs @ seen) ys = first_by_id (map row_id xs @ seen) ys"
    by (rule first_by_id_cong) auto
  ultimately show ?case using Cons.IH by auto
qed simp

definition accepts_all :: "'d req_env \<Rightarrow> bool" where
  "accepts_all env = (\<forall>out m. re_accepts env out m)"

lemma accepts_all_send: "accepts_all env \<Longrightarrow> send_msg env m out = (out @ [m], True)"
  by (simp add: accepts_all_def send_msg_def)

lemma deliver_rows_exact:
  assumes "accepts_all env"
  shows "\<exists>seen'. deliver_rows env s f accessible pk rows seen out =
       (True, seen', out @ event_msgs s (first_by_id seen (filter (row_deliverable (re_lib env) f accessible pk) rows))) \<and>
     set seen' = set (map row_id (filter (row_deliverable (re_lib env) f accessible pk) rows) @ seen)"
proof (induction rows arbitrary: seen out)
  case Nil
  show ?case by (simp add: event_msgs_def)
next
  case (Cons se rows)
  from Cons.IH [of "ev_id (se_event se) # seen" "out @ [EventMsg s (se_event se)]"] Cons.IH [of seen out]
  show ?case by (auto simp: accepts_all_send [OF assms] event_msgs_Cons row_id_def)
qed

lemma deliver_history_exact:
  assumes "accepts_all env" and "\<And>f. f \<in> set fs \<Longrightarrow> re_query_events env (historical_query env com g f) = Inr (rows f)"
  shows "deliver_history env com s g fs seen out =
     out @ event_msgs s (first_by_id seen
       (concat (map (\<lambda>f. filter (row_deliverable (re_lib env) f (rg_accessible g) (rg_pubkey g)) (rows f)) fs))) @ [Eose s]"
  using assms(2)
proof (induction fs arbitrary: seen out)
  case Nil
  show ?case by (simp add: accepts_all_send [OF assms(1)] event_msgs_def)
next
  case (Cons f fs)
  let ?new = "filter (row_deliverable (re_lib env) f (rg_accessible g) (rg_pubkey g)) (rows f)"
  obtain seen' where d: "deliver_rows env s f (rg_accessible g) (rg_pubkey g) (rows f) seen out =
      (True, seen', out @ event_msgs s (first_by_id seen ?new))"
    and seen': "set seen' = set (map row_id ?new @ seen)"
    using deliver_rows_exact [OF assms(1)] by blast
  have "deliver_history env com s g (f # fs) seen out =
      deliver_history env com s g fs seen' (out @ event_msgs s (first_by_id seen ?new))"
    using Cons.prems by (simp add: d)
  with Cons.IH [of seen' "out @ event_msgs s (first_by_id seen ?new)"] Cons.prems
    first_by_id_cong [OF seen'] show ?case
    by (simp add: first_by_id_append event_msgs_append)
qed

lemma deliver_history_ends:
  assumes "accepts_all env"
  shows "\<exists>pre. deliver_history env com s g fs seen out = pre @ [Eose s]"
proof (induction fs arbitrary: seen out)
  case (Cons f fs)
  show ?case
  proof (cases "re_query_events env (historical_query env com g f)")
    case (Inr rows)
    obtain seen' sent where "deliver_rows env s f (rg_accessible g) (rg_pubkey g) rows seen out = (True, seen', sent)"
      using deliver_rows_exact [OF assms] by blast
    with Inr Cons.IH show ?thesis by simp
  qed (simp add: accepts_all_send [OF assms])
qed (simp add: accepts_all_send [OF assms])

lemma deliver_hits_ok:
  "accepts_all env \<Longrightarrow> fst (deliver_hits env s f accessible pk event_map limit ids emitted seen out)"
  by (induction ids arbitrary: emitted seen out) (auto simp: accepts_all_send split: option.splits)

lemma search_pages_ok:
  assumes "accepts_all env"
  shows "\<exists>seen' out'. search_pages env com s f words scope accessible pk pages emitted seen out = (True, seen', out')"
proof (induction pages arbitrary: emitted seen out)
  case (Cons page pages)
  show ?case
  proof (cases "re_search env (search_query_for com words scope f page)")
    case (Inr hits)
    show ?thesis
    proof (cases "re_events_by_ids env com hits")
      case ev: (Inr events)
      let ?m = "map_of (rev (map (\<lambda>se. (ev_id (se_event se), se)) events))"
      obtain em seen' out' where
        "deliver_hits env s f accessible pk ?m (search_limit f) hits emitted seen out = (True, em, seen', out')"
        using deliver_hits_ok [OF assms, of s f accessible pk ?m "search_limit f" hits emitted seen out]
        by (cases "deliver_hits env s f accessible pk ?m (search_limit f) hits emitted seen out") auto
      with Inr ev Cons.IH [of em seen' out'] show ?thesis by simp
    qed (simp add: Inr)
  qed simp
qed simp

lemma search_filters_ends:
  assumes "accepts_all env"
  shows "\<exists>pre. search_filters env com s all_scope accessible pk fs seen out = pre @ [Eose s]"
proof (induction fs arbitrary: seen out)
  case (Cons f fs)
  show ?case
  proof (cases "f_search f")
    case (Some words)
    show ?thesis
    proof (cases "search_channel_scope (re_lib env) accessible all_scope f")
      case scope: (Some scope)
      obtain seen' out' where
        "search_pages env com s f words scope accessible pk [1..<Suc MAX_SEARCH_PAGES] 0 seen out = (True, seen', out')"
        using search_pages_ok [OF assms] by blast
      with Some scope Cons.IH show ?thesis by (simp del: upt_Suc)
    qed (use Some Cons.IH in simp)
  qed (use Cons.IH in simp)
qed (simp add: accepts_all_send [OF assms])

lemma send_all_accepts: "accepts_all env \<Longrightarrow> send_all env msgs out = out @ msgs"
  by (induction msgs arbitrary: out) (auto simp: send_all_def accepts_all_send)

section \<open>What a request delivers\<close>

definition ex_grant_conn :: connection where
  "ex_grant_conn = \<lparr>cn_conn_id = 10, cn_community = 2, cn_auth_state =
     Authenticated \<lparr>ac_pubkey = [7], ac_scopes = [], ac_channel_ids = None, ac_auth_method = Nip42,
       ac_agent_owner_pubkey = None\<rparr>\<rparr>"

definition ex_req_env :: "int req_env" where
  "ex_req_env = \<lparr>re_env = ex_env, re_from_ts = Some,
     re_query_events = (\<lambda>q. Inr [ex_event 9 [] (Some 5), ex_event 9 [] (Some 6), ex_event 9 [] None]),
     re_query_events_bounded = (\<lambda>q. Inr [ex_event 9 [] (Some 5)]), re_count_events = (\<lambda>q. Inr 1),
     re_search = (\<lambda>q. Inr []), re_events_by_ids = (\<lambda>com ids. Inr []), re_accepts = (\<lambda>out m. True)\<rparr>"

definition ex_node :: node where
  "ex_node = \<lparr>n_relay = relay_new, n_bus = bus_new, n_conn_subs = []\<rparr>"

abbreviation ex_filters :: "nfilter list" where
  "ex_filters \<equiv> [ex_filter (Some [9]) []]"

lemma ex_accepts_all: "accepts_all ex_req_env"
  by (simp add: accepts_all_def ex_req_env_def)

lemma ex_plan_node:
  assumes "n_conn_subs n = []" and "accessible_channels_cache (n_relay n) = []"
  shows "fst (plan_req ex_req_env ex_grant_conn ''q'' ex_filters n) =
     PlanStream \<lparr>rg_pubkey = [7], rg_token = None, rg_channel_id = None, rg_accessible = [5], rg_authorized = None\<rparr>"
  by (simp add: assms plan_req_def ex_grant_conn_def ex_req_env_def ex_filter_def ex_env_def
      req_auth_def conn_subs_def MAX_SUBSCRIPTIONS_def extract_channel_ids_from_filters_limited_def
      tag_values_def MAX_EXPLICIT_CHANNEL_VALUES_def extract_channel_ids_from_filters_def req_accessible_def
      filters_are_nip43_membership_only_def some_and_def get_accessible_channel_ids_cached_def narrow_to_token_def
      extract_channel_id_from_filters_def req_gates_def p_gated_filters_authorized_def p_gated_filter_ok_def
      engram_filters_authorized_def engram_filter_ok_def author_only_filters_authorized_def
      author_only_filter_ok_def none_or_def kind_consts Let_def)

lemma ex_plan:
  "fst (plan_req ex_req_env ex_grant_conn ''q'' ex_filters ex_node) =
     PlanStream \<lparr>rg_pubkey = [7], rg_token = None, rg_channel_id = None, rg_accessible = [5], rg_authorized = None\<rparr>"
  by (rule ex_plan_node) (simp_all add: ex_node_def relay_new_def)

text \<open>C1.  A client reads only what it may read.  Every event a REQ returns, from history or from search, is that of a row
  which the database returned for a filter of this request in the community of the connection; the row matches
  that filter and passes the per-event visibility check for the authenticated key, and when the row belongs to
  a channel, that channel is inside the token's bound and accessible to the reader.\<close>

theorem req_reads_only_authorized:
  assumes "EventMsg s' e \<in> set (snd (handle_req env conn s fs n))"
  shows "s' = s \<and> (\<exists>ctx f se. cn_auth_state conn = Authenticated ctx \<and> f \<in> set fs \<and> se_event se = e \<and>
    fetched env (cn_community conn) f se \<and>
    filter_match_one (re_lib env) f se \<and> event_visible_to_reader (re_lib env) e (ac_pubkey ctx) \<and>
    (\<forall>ch. se_channel_id se = Some ch \<longrightarrow>
       reader_may_access (re_env env) (n_relay n) (cn_community conn) (ac_pubkey ctx) (ac_channel_ids ctx) ch))"
proof (cases "fst (plan_req env conn s fs n)")
  case (PlanReject msgs)
  then have "snd (handle_req env conn s fs n) = send_all env msgs []"
    by (auto simp: handle_req_def Let_def split: prod.splits)
  with assms send_all_prefix [of env msgs "[]"] have "EventMsg s' e \<in> set msgs" by auto
  with plan_reject_msgs [OF PlanReject] have False by (auto simp: list_all_iff)
  then show ?thesis ..
next
  case (PlanSearch g)
  note plan = disjI2 [OF PlanSearch, of "fst (plan_req env conn s fs n) = PlanStream g"]
  from handle_req_sends [OF plan] plan_req_grant [OF plan] assms show ?thesis
    by (fastforce simp: event_msgs_def list_all_iff grant_ok_def row_deliverable_def filters_match_def
        split: if_splits option.splits)
next
  case (PlanStream g)
  note plan = disjI1 [OF PlanStream, of "fst (plan_req env conn s fs n) = PlanSearch g"]
  from handle_req_sends [OF plan] plan_req_grant [OF plan] assms show ?thesis
    by (fastforce simp: event_msgs_def list_all_iff grant_ok_def row_deliverable_def filters_match_def
        split: if_splits option.splits)
qed

definition event_ids :: "relay_message list \<Rightarrow> event_id list" where
  "event_ids = List.map_filter (\<lambda>m. case m of EventMsg _ e \<Rightarrow> Some (ev_id e) | _ \<Rightarrow> None)"

lemma event_msgs_ids:
  "event_ids (event_msgs s sent) = map row_id sent"
  by (induction sent) (simp_all add: event_ids_def event_msgs_def List.map_filter_simps row_id_def)

lemma event_msgs_not_Eose: "event_msgs s sent \<noteq> pre @ [Eose s]"
proof
  assume eq: "event_msgs s sent = pre @ [Eose s]"
  then have "Eose s \<in> set (event_msgs s sent)" by simp
  then show False by (auto simp: event_msgs_def)
qed

lemma handle_req_stream_ends:
  assumes "accepts_all env"
    and "fst (plan_req env conn s fs n) = PlanStream g \<or> fst (plan_req env conn s fs n) = PlanSearch g"
  shows "\<exists>pre. snd (handle_req env conn s fs n) = pre @ [Eose s]"
proof -
  have "\<exists>pre. handle_search_req env com s fs g = pre @ [Eose s]" for com
    using search_filters_ends [OF assms(1)]
    by (simp add: handle_search_req_def accepts_all_send [OF assms(1)] split: option.splits)
  with deliver_history_ends [OF assms(1)] assms(2) show ?thesis
    by (auto simp: handle_req_def Let_def split: prod.splits)
qed

text \<open>C30.  On a connection that keeps up, REQ answers with a complete stream: any notices, then events with
  pairwise distinct ids, then exactly one terminal message for the subscription, EOSE or CLOSED.\<close>

theorem req_stream_terminates:
  assumes "accepts_all env"
  shows "\<exists>pre t. snd (handle_req env conn s fs n) = pre @ [t] \<and> (t = Eose s \<or> (\<exists>why. t = Closed s why)) \<and>
    list_all (\<lambda>m. (\<exists>t. m = Notice t) \<or> (\<exists>e. m = EventMsg s e)) pre \<and>
    distinct (event_ids pre)"
proof -
  have granted: ?thesis
    if plan: "fst (plan_req env conn s fs n) = PlanStream g \<or> fst (plan_req env conn s fs n) = PlanSearch g" for g
  proof -
    obtain sent where sent: "snd (handle_req env conn s fs n) \<in> {event_msgs s sent, event_msgs s sent @ [Eose s]}"
      "distinct (map row_id sent)"
      using handle_req_sends [OF plan] by blast
    with handle_req_stream_ends [OF assms plan] event_msgs_not_Eose
    have "snd (handle_req env conn s fs n) = event_msgs s sent @ [Eose s]" by auto
    moreover have "list_all (\<lambda>m. (\<exists>t. m = Notice t) \<or> (\<exists>e. m = EventMsg s e)) (event_msgs s sent)"
      by (auto simp: event_msgs_def list_all_iff)
    ultimately show ?thesis using sent(2)
      by (intro exI [of _ "event_msgs s sent"] exI [of _ "Eose s"] conjI) (simp_all add: event_msgs_ids)
  qed
  show ?thesis
  proof (cases "fst (plan_req env conn s fs n)")
    case (PlanReject msgs)
    then have "snd (handle_req env conn s fs n) = msgs"
      by (auto simp: handle_req_def Let_def send_all_accepts [OF assms] split: prod.splits)
    moreover have "event_ids notices = []"
      if "list_all (\<lambda>m. \<exists>t. m = Notice t) notices" for notices
      using that by (induction notices) (auto simp: event_ids_def List.map_filter_simps)
    ultimately show ?thesis using plan_reject_msgs [OF PlanReject] by (fastforce simp: list_all_iff)
  qed (auto intro: granted)
qed

theorem req_stream_terminates_witness:
  "\<exists>pre t. snd (handle_req ex_req_env ex_grant_conn ''q'' ex_filters ex_node) = pre @ [t] \<and>
     distinct (event_ids pre)"
  using req_stream_terminates [OF ex_accepts_all] by blast

lemma handle_req_history:
  assumes "accepts_all env" and "fst (plan_req env conn s fs n) = PlanStream g"
    and "\<And>f. f \<in> set fs \<Longrightarrow> re_query_events env (historical_query env (cn_community conn) g f) = Inr (rows f)"
  shows "snd (handle_req env conn s fs n) =
    event_msgs s (first_by_id []
      (concat (map (\<lambda>f. filter (row_deliverable (re_lib env) f (rg_accessible g) (rg_pubkey g)) (rows f)) fs))) @ [Eose s]"
  using deliver_history_exact [OF assms(1,3)] assms(2)
  by (auto simp: handle_req_def Let_def split: prod.splits)

text \<open>The history is exact: when the queries answer and the connection keeps up, the stream is the
  deliverable rows of each filter in turn, in the order of the query, the first row of each event
  id, and then EOSE.\<close>

theorem req_history_exact:
  assumes "accepts_all env" and "fst (plan_req env conn s fs n) = PlanStream g"
    and "\<And>f. f \<in> set fs \<Longrightarrow> re_query_events env (historical_query env (cn_community conn) g f) = Inr (rows f)"
  shows "snd (handle_req env conn s fs n) =
    event_msgs s (first_by_id []
      (concat (map (\<lambda>f. filter (row_deliverable (re_lib env) f (rg_accessible g) (rg_pubkey g)) (rows f)) fs))) @ [Eose s]"
  using assms by (rule handle_req_history)

lemma ex_deliverable:
  "row_deliverable ex_lib (ex_filter (Some [9]) []) [5] [7] (ex_event 9 [] ch) \<longleftrightarrow> ch = None \<or> ch = Some 5"
  by (auto simp: row_deliverable_def filters_match_def filter_match_one_def ex_filter_def ex_event_def
      event_visible_iff kind_consts split: option.splits)

definition ex_rows :: "stored_event list" where
  "ex_rows = [ex_event 9 [] (Some 5), ex_event 9 [] (Some 6), ex_event 9 [] None]"

lemma ex_env_simps:
  "env_lib ex_env = ex_lib" "re_env ex_req_env = ex_env" "re_query_events ex_req_env q = Inr ex_rows"
  by (simp_all add: ex_req_env_def ex_env_def ex_rows_def)

lemma ex_stream:
  "event_msgs ''q'' (first_by_id [] (filter (row_deliverable ex_lib (ex_filter (Some [9]) []) [5] [7]) ex_rows)) =
     [EventMsg ''q'' (se_event (ex_event 9 [] (Some 5)))]"
  by (simp add: ex_rows_def ex_deliverable event_msgs_def row_id_def) (simp add: ex_event_def)

theorem req_history_exact_witness:
  "snd (handle_req ex_req_env ex_grant_conn ''q'' ex_filters ex_node) =
     [EventMsg ''q'' (se_event (ex_event 9 [] (Some 5))), Eose ''q'']"
  using req_history_exact [OF ex_accepts_all ex_plan, of "\<lambda>f. ex_rows"]
  by (simp add: ex_env_simps ex_stream)

lemma ex_req_out:
  "snd (handle_req ex_req_env ex_grant_conn ''q'' ex_filters ex_node) =
     [EventMsg ''q'' (se_event (ex_event 9 [] (Some 5))), Eose ''q'']"
  using handle_req_history [OF ex_accepts_all ex_plan, of "\<lambda>f. ex_rows"]
  by (simp add: ex_env_simps ex_stream)

theorem req_reads_only_authorized_witness:
  "event_visible_to_reader ex_lib (se_event (ex_event 9 [] (Some 5))) [7] \<and>
   (\<exists>f se. fetched ex_req_env 2 f se \<and> se_event se = se_event (ex_event 9 [] (Some 5)))"
  using req_reads_only_authorized [of "''q''" "se_event (ex_event 9 [] (Some 5))" ex_req_env ex_grant_conn
      "''q''" ex_filters ex_node]
  by (simp add: ex_req_out ex_env_simps) (auto simp: ex_grant_conn_def)

section \<open>What a request registers\<close>

lemma same_beliefs_registry: "same_beliefs env r r' \<Longrightarrow> sub_registry r' = sub_registry r"
  by (simp add: same_beliefs_def)

lemma sub_lookup_register_request:
  "sub_lookup (sub_registry (n_relay (register_request com c s fs authorized n))) c' s' =
     (if c' = c \<and> s' = s
      then Some (fs, com, case authorized of Some chs \<Rightarrow> Channels chs | None \<Rightarrow> Global)
      else sub_lookup (sub_registry (n_relay n)) c' s')"
  by (auto simp: register_request_def register_subscription_def run_topic_ops_def Let_def register_channels_scoped_def register_scoped_def sub_lookup_register
      split: option.splits prod.splits)
     (metis fst_conv sub_lookup_register)+

text \<open>C13.  Registration follows authorization.  A REQ changes the subscription table at most at its own
  connection and id.  The new entry is either scoped to channels the reader may access, at least
  one, or is community wide and then its filters passed every gate on private kinds.\<close>

theorem req_registers_only_authorized:
  "(\<forall>c' s'. sub_lookup (sub_registry (n_relay (fst (handle_req env conn s fs n)))) c' s' =
      sub_lookup (sub_registry (n_relay n)) c' s') \<or>
   (\<exists>ctx scope. cn_auth_state conn = Authenticated ctx \<and>
     (\<forall>c' s'. sub_lookup (sub_registry (n_relay (fst (handle_req env conn s fs n)))) c' s' =
        (if c' = cn_conn_id conn \<and> s' = s then Some (fs, cn_community conn, scope)
         else sub_lookup (sub_registry (n_relay n)) c' s')) \<and>
     (case scope of
        Global \<Rightarrow> req_gates (re_lib env) fs (ac_pubkey ctx) = Inr ()
      | Channels chs \<Rightarrow> chs \<noteq> [] \<and> distinct chs \<and>
          list_all (reader_may_access (re_env env) (n_relay n) (cn_community conn) (ac_pubkey ctx) (ac_channel_ids ctx)) chs))"
proof -
  obtain plan r1 where plan: "plan_req env conn s fs n = (plan, r1)" by (cases "plan_req env conn s fs n")
  with plan_req_state [of env n conn s fs] have reg: "sub_registry r1 = sub_registry (n_relay n)"
    by (simp add: same_beliefs_registry)
  show ?thesis
  proof (cases plan)
    case (PlanStream g)
    have ok: "grant_ok env conn fs (n_relay n) g"
      by (rule plan_req_grant [where s = s]) (simp add: plan PlanStream)
    then obtain ctx where ctx: "cn_auth_state conn = Authenticated ctx" "rg_pubkey g = ac_pubkey ctx"
        "rg_token g = ac_channel_ids ctx"
      by (auto simp: grant_ok_def)
    show ?thesis
    proof (intro disjI2 exI [of _ ctx] exI [of _ "case rg_authorized g of Some chs \<Rightarrow> Channels chs | None \<Rightarrow> Global"] conjI)
      show "\<forall>c' s'. sub_lookup (sub_registry (n_relay (fst (handle_req env conn s fs n)))) c' s' =
          (if c' = cn_conn_id conn \<and> s' = s
           then Some (fs, cn_community conn, case rg_authorized g of Some chs \<Rightarrow> Channels chs | None \<Rightarrow> Global)
           else sub_lookup (sub_registry (n_relay n)) c' s')"
        by (simp add: handle_req_def Let_def plan PlanStream sub_lookup_register_request reg)
    qed (use ok ctx in \<open>auto simp: grant_ok_def list_all_iff split: option.splits\<close>)
  qed (auto simp: handle_req_def Let_def plan reg)
qed

section \<open>COUNT\<close>

lemma count_rows_eq:
  "count_rows lib f pk rows =
     length (filter (\<lambda>se. filter_match_one lib f se \<and> event_visible_to_reader lib (se_event se) pk) rows)"
proof -
  have "fold (\<lambda>se tally. if \<not> filters_match lib [f] se then tally
        else if \<not> event_visible_to_reader lib (se_event se) pk then tally else Suc tally) rows k =
      k + length (filter (\<lambda>se. filter_match_one lib f se \<and> event_visible_to_reader lib (se_event se) pk) rows)" for k
    by (induction rows arbitrary: k) (simp_all add: filters_match_def)
  then show ?thesis by (simp add: count_rows_def)
qed

definition hex_faithful :: "nostr_lib \<Rightarrow> bool" where
  "hex_faithful lib = (\<forall>a b. eq_ignore_ascii_case (pubkey_to_hex lib a) (hex_encode lib b) \<longrightarrow> a = b)"

lemma pushdown_rows_visible:
  assumes "hex_faithful lib" and "count_pushdown_ok lib (hex_encode lib pk) f" and "filter_match_one lib f se"
  shows "event_visible_to_reader lib (se_event se) pk"
proof -
  let ?k = "ev_kind (se_event se)"
  have kinds: "none_or (list_ex (\<lambda>k. k \<in> K)) (f_kinds f)" if "?k \<in> K" for K
    using filter_match_one_kind [OF assms(3)] that by (auto simp: gate_simps)
  have "ev_pubkey (se_event se) = pk" if "?k \<in> set AUTHOR_ONLY_KINDS"
  proof -
    have "authors_are_self lib (hex_encode lib pk) f"
      using kinds [OF that] assms(2) by (simp add: count_pushdown_ok_def filter_can_match_author_only_kinds_def)
    from self_authors_match_own [OF this assms(3)] assms(1) show ?thesis by (auto simp: hex_faithful_def)
  qed
  moreover have "?k \<notin> set SHARED_GATED_KINDS"
    using kinds assms(2) by (auto simp: count_pushdown_ok_def filter_can_match_shared_gated_kinds_def)
  moreover have "has_tag_value (se_event se) ''p'' (hex_encode lib pk)" if "?k \<in> set RESULT_GATED_KINDS"
  proof (rule pinned_p_matches_own [OF _ assms(3)])
    show "some_and (all_equal_to (hex_encode lib pk)) (tag_values f (CHR ''p''))"
      using kinds [OF that] assms(2)
      by (simp add: count_pushdown_ok_def filter_can_match_result_gated_kinds_def
          result_gated_count_safe_for_pushdown_def)
  qed
  ultimately show ?thesis by (simp add: event_visible_iff)
qed

text \<open>C23.  COUNT reveals nothing REQ would hide.  The fast path is taken only for filters all of whose
  matches the reader may see, so no per-row check is needed there; otherwise the answer is the
  number of fetched rows that match the filter and are visible to the reader, and a candidate set
  over the budget is refused instead of truncated.\<close>

theorem count_agrees_with_visibility:
  assumes "hex_faithful (re_lib env)"
  shows "(count_pushdown_ok (re_lib env) (hex_encode (re_lib env) pk) f \<longrightarrow>
      filter (\<lambda>se. filter_match_one (re_lib env) f se \<and> event_visible_to_reader (re_lib env) (se_event se) pk) rows =
      filter (filter_match_one (re_lib env) f) rows) \<and>
    (\<not> count_pushdown_ok (re_lib env) (hex_encode (re_lib env) pk) f \<longrightarrow>
      re_query_events_bounded env (apply_count_fallback_limit q) = Inr rows \<longrightarrow>
      count_query env pk f fast_q q =
        (if length rows \<le> COUNT_FALLBACK_CANDIDATE_LIMIT
         then Inr (length (filter (\<lambda>se. filter_match_one (re_lib env) f se \<and>
                event_visible_to_reader (re_lib env) (se_event se) pk) rows))
         else Inl ''restricted: count filter requires narrower constraints''))"
  using pushdown_rows_visible [OF assms]
  by (auto simp: count_query_def count_fallback_exceeded_def count_rows_eq intro!: filter_cong)

text \<open>A concrete byte encoding that meets the hypothesis.\<close>

definition ex_nibble :: "nat \<Rightarrow> char" where
  "ex_nibble k = char_of (97 + k)"

fun ex_hex :: "bytes \<Rightarrow> string" where
  "ex_hex [] = []"
| "ex_hex (w # ws) = ex_nibble (unat w div 16) # ex_nibble (unat w mod 16) # ex_hex ws"

lemma ex_nibble_lower: "k < 16 \<Longrightarrow> to_ascii_lower (ex_nibble k) = ex_nibble k"
  by (simp add: to_ascii_lower_def ex_nibble_def)

lemma ex_nibble_inj: "j < 16 \<Longrightarrow> k < 16 \<Longrightarrow> ex_nibble j = ex_nibble k \<longleftrightarrow> j = k"
  by (simp add: ex_nibble_def char_of_eq_iff take_bit_nat_eq_self)

lemma u8_div16: "unat (w :: u8) div 16 < 16"
  using unsigned_less [where ?'a = nat, of w] by simp

lemma u8_eq_nibbles: "(v :: u8) = w \<longleftrightarrow> unat v div 16 = unat w div 16 \<and> unat v mod 16 = unat w mod 16"
  by (metis div_mult_mod_eq word_unat_eq_iff)

lemma ex_hex_inj: "eq_ignore_ascii_case (ex_hex a) (ex_hex b) \<Longrightarrow> a = b"
proof (induction a arbitrary: b)
  case Nil
  then show ?case by (cases b) (simp_all add: eq_ignore_ascii_case_def)
next
  case (Cons w ws)
  then obtain v vs where b: "b = v # vs" by (cases b) (simp_all add: eq_ignore_ascii_case_def)
  with Cons show ?case
    by (simp add: eq_ignore_ascii_case_def ex_nibble_lower u8_div16 ex_nibble_inj u8_eq_nibbles [of w v])
qed

definition ex_hex_lib :: nostr_lib where
  "ex_hex_lib = ex_codec\<lparr>pubkey_to_hex := ex_hex, hex_encode := ex_hex\<rparr>"

lemma ex_hex_lib_faithful: "hex_faithful ex_hex_lib"
  by (auto simp: hex_faithful_def ex_hex_lib_def intro: ex_hex_inj)

theorem count_agrees_with_visibility_witness:
  "count_query (ex_req_env\<lparr>re_env := ex_env\<lparr>env_lib := ex_hex_lib\<rparr>\<rparr>) [7] (ex_filter None [])
     (for_community 2) (for_community 2) = Inr 1"
proof -
  let ?env = "ex_req_env\<lparr>re_env := ex_env\<lparr>env_lib := ex_hex_lib\<rparr>\<rparr>"
  have lib: "env_lib (re_env ?env) = ex_hex_lib" by simp
  have "\<not> count_pushdown_ok ex_hex_lib (hex_encode ex_hex_lib [7]) (ex_filter None [])"
    by (simp add: count_pushdown_ok_def filter_can_match_shared_gated_kinds_def ex_filter_def none_or_def)
  moreover have "re_query_events_bounded ?env (apply_count_fallback_limit (for_community 2)) =
      Inr [ex_event 9 [] (Some 5)]"
    by (simp add: ex_req_env_def)
  moreover have "filter_match_one ex_hex_lib (ex_filter None []) (ex_event 9 [] (Some 5)) \<and>
      event_visible_to_reader ex_hex_lib (se_event (ex_event 9 [] (Some 5))) [7]"
    by (simp add: filter_match_one_def ex_filter_def ex_event_def event_visible_iff kind_consts)
  ultimately show ?thesis
    using count_agrees_with_visibility [of ?env "[7]" "ex_filter None []" "[ex_event 9 [] (Some 5)]"
        "for_community 2" "for_community 2"] ex_hex_lib_faithful
    by (simp add: lib COUNT_FALLBACK_CANDIDATE_LIMIT_def)
qed

text \<open>An empty author list is lost in the translation to SQL: such a filter matches no event, is
  reported as fully pushable exactly when the filter without the list is, and becomes the same
  query, so the fast COUNT path counts every author's events for it.\<close>

theorem empty_authors_not_pushed_down:
  "\<not> filter_match_one lib (f\<lparr>f_authors := Some []\<rparr>) se \<and>
   filter_fully_pushable (f\<lparr>f_authors := Some []\<rparr>) = filter_fully_pushable (f\<lparr>f_authors := None\<rparr>) \<and>
   filter_to_query_params from_ts (f\<lparr>f_authors := Some []\<rparr>) ch com =
     filter_to_query_params from_ts (f\<lparr>f_authors := None\<rparr>) ch com"
  by (simp add: filter_match_one_def Let_def filter_fully_pushable_def nip33_only_def tag_values_def
      filter_to_query_params_def the_only_def non_empty_def)

end
