(* ===== verification/Topic_Refcounts.thy ===== *)
theory Topic_Refcounts
  imports Request_Safety
begin

text \<open>
  The composition of the subscription table, the tasks of the request handlers and the bus.  The handlers run
  concurrently: a task changes the table, and its topic operations follow one by one between those of the other
  tasks.  In every state a node can reach, what the live subscriptions need of a topic and the releases still
  to come are at most its count and the retains still to come; they are equal as long as no
  release came to a topic nobody held.
\<close>

section \<open>The need for a topic\<close>

definition sub_weight :: "event_topic_key \<Rightarrow> sub_entry option \<Rightarrow> nat" where
  "sub_weight k e = (case e of None \<Rightarrow> 0 | Some (fs, com, scope) \<Rightarrow> count_list (scope_topics com scope) k)"

definition sub_table :: "registry \<Rightarrow> recipient \<Rightarrow> sub_entry option" where
  "sub_table r = (\<lambda>(c, s). sub_lookup r c s)"

definition needed :: "registry \<Rightarrow> event_topic_key \<Rightarrow> nat" where
  "needed r k = (\<Sum>p \<in> dom (sub_table r). sub_weight k (sub_table r p))"

lemma finite_sub_table: "finite (dom (sub_table r))"
proof (rule finite_subset)
  show "dom (sub_table r) \<subseteq> (\<Union>(c, m) \<in> set (subs r). {c} \<times> fst ` set m)"
    by (force simp: sub_table_def sub_lookup_def split: option.splits dest!: map_of_SomeD)
qed auto

lemma needed_superset:
  assumes "finite A" and "dom (sub_table r) \<subseteq> A"
  shows "needed r k = (\<Sum>p \<in> A. sub_weight k (sub_table r p))"
  unfolding needed_def
  by (rule sum.mono_neutral_left [OF assms]) (auto simp: sub_weight_def split: option.splits)

text \<open>Changing the table at one entry, and dropping all entries of a connection.\<close>

lemma needed_change_one:
  assumes "sub_table r' = (sub_table r)(p := e)"
  shows "needed r' k + sub_weight k (sub_table r p) = needed r k + sub_weight k e"
proof -
  let ?A = "insert p (dom (sub_table r))"
  have fin: "finite ?A" by (simp add: finite_sub_table)
  have split: "(\<Sum>q \<in> ?A. sub_weight k (t q)) = sub_weight k (t p) + (\<Sum>q \<in> ?A - {p}. sub_weight k (t q))" for t
    using fin by (subst sum.remove [of _ p]) auto
  have "needed r' k = sub_weight k e + (\<Sum>q \<in> ?A - {p}. sub_weight k (sub_table r q))"
    by (subst needed_superset [OF fin]) (auto simp: assms split split: if_splits)
  moreover have "needed r k = sub_weight k (sub_table r p) + (\<Sum>q \<in> ?A - {p}. sub_weight k (sub_table r q))"
    by (subst needed_superset [OF fin]) (auto simp: split)
  ultimately show ?thesis by simp
qed

lemma needed_pointwise:
  assumes "\<And>p. sub_weight k (sub_table r p) = sub_weight k (sub_table r' p) + d p"
    and "dom (sub_table r') \<subseteq> dom (sub_table r)"
  shows "needed r k = needed r' k + (\<Sum>p \<in> dom (sub_table r). d p)"
  using needed_superset [OF finite_sub_table assms(2)] assms(1)
  by (simp add: needed_def sum.distrib)

lemma sub_table_register:
  "sub_table (fst (register_with_scope r com c s fs scope)) = (sub_table r)((c, s) \<mapsto> (fs, com, scope))"
  by (auto simp: sub_table_def sub_lookup_register fun_eq_iff)

lemma sub_table_remove_subscription:
  "sub_table (fst (remove_subscription r c s)) = (sub_table r)((c, s) := None)"
  by (auto simp: sub_table_def sub_lookup_remove_subscription fun_eq_iff)

lemma remove_subscription_snd:
  "snd (remove_subscription r c s) =
     map_option (\<lambda>(fs, com, scope). \<lparr>rs_community_id = com, rs_scope = scope\<rparr>) (sub_lookup r c s)"
  by (auto simp: remove_subscription_def sub_lookup_def split: option.splits prod.splits)

lemma register_with_scope_snd:
  "snd (register_with_scope r com c s fs scope) = snd (remove_subscription r c s)"
  by (simp add: register_with_scope_def Let_def split: prod.splits)

section \<open>Disconnect\<close>

lemma sum_table_connection:
  assumes "wf_subs r" and "map_of (subs r) c = Some m"
  shows "(\<Sum>p \<in> dom (sub_table r). if fst p = c then sub_weight k (sub_table r p) else 0) =
     (\<Sum>(s, e) \<leftarrow> m. sub_weight k (Some e))"
proof -
  have d: "distinct (map fst m)" by (rule wf_subs_lookup [OF assms])
  have lookup: "sub_table r (c, s) = map_of m s" for s
    by (simp add: sub_table_def sub_lookup_def assms(2))
  have dom: "{p \<in> dom (sub_table r). fst p = c} = Pair c ` fst ` set m"
    by (force simp: lookup dom_def map_of_distinct_iff [OF d] image_iff)
  have "(\<Sum>p \<in> dom (sub_table r). if fst p = c then sub_weight k (sub_table r p) else 0) =
      (\<Sum>p \<in> {p \<in> dom (sub_table r). fst p = c}. sub_weight k (sub_table r p))"
    by (simp add: sum.inter_filter [OF finite_sub_table] Int_def)
  also have "\<dots> = (\<Sum>s \<in> fst ` set m. sub_weight k (map_of m s))"
    unfolding dom by (subst sum.reindex) (auto simp: inj_on_def lookup)
  also have "\<dots> = (\<Sum>(s, e) \<in> set m. sub_weight k (Some e))"
    using d by (subst sum.reindex) (auto simp: distinct_map case_prod_beta map_of_distinct_iff [OF d]
        intro!: sum.cong)
  also have "\<dots> = (\<Sum>(s, e) \<leftarrow> m. sub_weight k (Some e))"
    using d by (simp add: sum_list_distinct_conv_sum_set distinct_map)
  finally show ?thesis .
qed

lemma needed_remove_connection:
  assumes "registry_inv r" and "\<And>s fs com' scope. sub_lookup r c s = Some (fs, com', scope) \<Longrightarrow> com' = com"
  shows "needed r k = needed (fst (remove_connection r c)) k +
     (\<Sum>rs \<leftarrow> snd (remove_connection r c). count_list (scope_topics com (rs_scope rs)) k)"
proof -
  let ?r = "fst (remove_connection r c)"
  have t: "sub_table ?r p = (if fst p = c then None else sub_table r p)" for p
    by (simp add: sub_table_def sub_lookup_remove_connection case_prod_beta)
  have "needed r k = needed ?r k +
      (\<Sum>p \<in> dom (sub_table r). if fst p = c then sub_weight k (sub_table r p) else 0)"
    by (rule needed_pointwise) (auto simp: t sub_weight_def split: if_splits)
  also have "(\<Sum>p \<in> dom (sub_table r). if fst p = c then sub_weight k (sub_table r p) else 0) =
      (\<Sum>rs \<leftarrow> snd (remove_connection r c). count_list (scope_topics com (rs_scope rs)) k)"
  proof (cases "map_of (subs r) c")
    case None
    then have "sub_table r (c, s) = None" for s by (simp add: sub_table_def sub_lookup_def)
    with None show ?thesis by (auto simp: remove_connection_def sub_weight_def intro!: sum.neutral)
  next
    case (Some m)
    have wf: "wf_subs r" using assms(1) by (simp add: registry_inv_def)
    have com: "com' = com" if "(s, fs, com', scope) \<in> set m" for s fs com' scope
      using assms(2) [of s fs com' scope] that
      by (simp add: sub_lookup_def Some map_of_distinct_iff [OF wf_subs_lookup [OF wf Some]])
    then show ?thesis
      unfolding sum_table_connection [OF wf Some]
      by (auto simp: remove_connection_def Some sub_weight_def comp_def case_prod_beta
          intro!: arg_cong [where f = sum_list] map_cong)
  qed
  finally show ?thesis .
qed

section \<open>Eviction\<close>

lemma revoke_step_updates:
  assumes "sub_lookup r c s = Some (fs, com', Channels chs)"
  shows "length (snd (revoke_channel_step com c ch s (r, us))) = Suc (length us)"
  using assms by (auto simp: revoke_channel_step_def sub_lookup_def Let_def split: option.splits)

lemma revoke_fold_updates:
  assumes "registry_inv r" and "distinct ids"
    and "\<And>s. s \<in> set ids \<Longrightarrow> \<exists>fs chs. sub_lookup r c s = Some (fs, com, Channels chs)"
  shows "length (snd (fold (revoke_channel_step com c ch) ids (r, us))) = length us + length ids"
  using assms
proof (induction ids arbitrary: r us)
  case (Cons s ids)
  obtain fs chs where e: "sub_lookup r c s = Some (fs, com, Channels chs)"
    using Cons.prems(3) by (meson list.set_intros(1))
  obtain r1 us1 where step: "revoke_channel_step com c ch s (r, us) = (r1, us1)"
    by (cases "revoke_channel_step com c ch s (r, us)")
  have "registry_inv r1"
    using revoke_channel_step_inv [OF Cons.prems(1) e, of ch us] by (simp add: step)
  moreover have "\<exists>fs chs. sub_lookup r1 c s' = Some (fs, com, Channels chs)" if "s' \<in> set ids" for s'
    using revoke_channel_step_effect(1) [OF Cons.prems(1) e refl, of ch us c s'] Cons.prems(2,3) that
    by (auto simp: step)
  ultimately have "length (snd (fold (revoke_channel_step com c ch) ids (r1, us1))) = length us1 + length ids"
    using Cons.prems(2) by (intro Cons.IH) auto
  with revoke_step_updates [OF e, of com ch us] show ?case by (simp add: step)
qed simp

lemma channel_topics_filter:
  assumes "distinct chs" and "ch \<in> set chs"
  shows "count_list (scope_topics com (Channels chs)) k =
    count_list (scope_topics com (Channels (filter (\<lambda>x. x \<noteq> ch) chs))) k +
    (if k = from_context com (TopicChannel ch) then 1 else 0)"
proof -
  have absent: "count_list (map (\<lambda>ch. from_context com (TopicChannel ch)) xs) k =
      count_list (map (\<lambda>ch. from_context com (TopicChannel ch)) (filter (\<lambda>x. x \<noteq> ch) xs)) k"
    if "ch \<notin> set xs" for xs
    using that by (induction xs) auto
  show ?thesis
    using assms
  proof (induction chs)
    case (Cons x xs)
    show ?case
    proof (cases "x = ch")
      case True
      with Cons.prems absent [of xs] show ?thesis by (auto simp: scope_topics_def from_context_def)
    next
      case False
      with Cons show ?thesis by (auto simp: scope_topics_def)
    qed
  qed simp
qed

lemma needed_revoke:
  assumes "registry_inv r"
    and "\<And>s fs com' chs. sub_lookup r c s = Some (fs, com', Channels chs) \<Longrightarrow> distinct chs"
  shows "needed r k = needed (fst (remove_channel_subscriptions_scoped r com c ch)) k +
    (if k = from_context com (TopicChannel ch)
     then length (snd (remove_channel_subscriptions_scoped r com c ch)) else 0)"
proof -
  let ?r = "fst (remove_channel_subscriptions_scoped r com c ch)" and ?ids = "revoked_sub_ids r com c ch"
  let ?key = "from_context com (TopicChannel ch)"
  note ids = revoked_sub_ids_props [OF assms(1)]
  have look: "sub_table ?r p =
      (if fst p = c then Option.bind (sub_table r p) (revoke_entry com ch) else sub_table r p)" for p
    using revoke_channel_correct(2) [OF assms(1) refl, of com c ch "fst p" "snd p"]
    by (simp add: sub_table_def case_prod_beta)
  have "length (snd (remove_channel_subscriptions_scoped r com c ch)) = length ?ids"
    using revoke_fold_updates [OF assms(1) ids(1), of com c ch c com ch "[]"] ids(2)
    by (auto simp: remove_channel_subscriptions_scoped_def)
  moreover have "length ?ids = card (Pair c ` set ?ids)"
    by (simp add: card_image inj_on_def distinct_card [OF ids(1)])
  moreover have "needed r k = needed ?r k +
      (\<Sum>p \<in> dom (sub_table r). if k = ?key \<and> p \<in> Pair c ` set ?ids then 1 else 0)"
  proof (rule needed_pointwise)
    show "sub_weight k (sub_table r p) = sub_weight k (sub_table ?r p) +
        (if k = ?key \<and> p \<in> Pair c ` set ?ids then 1 else 0)" for p
    proof (cases "fst p = c")
      case True
      then obtain s where p: "p = (c, s)" by (cases p) auto
      note look1 = revoke_channel_correct(2) [OF assms(1) refl, of com c ch c s]
      show ?thesis
      proof (cases "sub_lookup r c s")
        case None
        then show ?thesis using ids(2) [of s com c ch] by (auto simp: p look1 sub_table_def sub_weight_def)
      next
        case (Some e)
        obtain fs com' scope where e: "e = (fs, com', scope)" by (cases e)
        show ?thesis
        proof (cases scope)
          case Global
          then show ?thesis using Some ids(2) [of s com c ch]
            by (auto simp: p e look1 sub_table_def sub_weight_def revoke_entry_def)
        next
          case (Channels chs)
          have "distinct chs" using assms(2) Some by (simp add: e Channels)
          with channel_topics_filter [of chs ch com k] Some ids(2) [of s com c ch] show ?thesis
            by (auto simp: p e Channels look1 sub_table_def sub_weight_def revoke_entry_def Let_def scope_topics_def)
        qed
      qed
    qed (auto simp: look)
  qed (auto simp: look bind_eq_Some_conv split: if_splits)
  moreover have "(\<Sum>p \<in> dom (sub_table r). if k = ?key \<and> p \<in> Pair c ` set ?ids then 1 else 0) =
      (if k = ?key then card (Pair c ` set ?ids) else 0)"
  proof -
    have "Pair c ` set ?ids \<subseteq> dom (sub_table r)"
      using ids(2) by (auto simp: sub_table_def)
    then show ?thesis
      by (cases "k = ?key") (simp_all add: sum.If_cases [OF finite_sub_table] Int_absorb1 Collect_mem_eq)
  qed
  ultimately show ?thesis by simp
qed

lemma revoke_entry_Some:
  assumes "revoke_entry com ch (fs, com', scope) = Some (fs2, com2, scope2)" and "distinct (channel_ids scope)"
  shows "com2 = com' \<and> distinct (channel_ids scope2)"
  using assms by (cases scope) (auto simp: revoke_entry_def Let_def split: if_splits)

section \<open>Tasks\<close>

text \<open>What the tasks still have to do to a topic.\<close>

definition to_retain :: "topic_op list list \<Rightarrow> event_topic_key \<Rightarrow> nat" where
  "to_retain ts k = count_list (concat ts) (Retain k)"

definition to_release :: "topic_op list list \<Rightarrow> event_topic_key \<Rightarrow> nat" where
  "to_release ts k = count_list (concat ts) (Release k)"

text \<open>The entries of the table belong to the community of their connection (\<open>home\<close>), which a connection keeps for
  life.\<close>

definition table_wf :: "(conn_id \<Rightarrow> community_id) \<Rightarrow> registry \<Rightarrow> bool" where
  "table_wf home r \<longleftrightarrow> registry_inv r \<and>
     (\<forall>c s fs com scope. sub_lookup r c s = Some (fs, com, scope) \<longrightarrow> com = home c \<and> distinct (channel_ids scope))"

text \<open>The table changes, and a task is left with topic operations that make up for the difference.\<close>

definition balanced :: "registry \<Rightarrow> registry \<Rightarrow> topic_op list \<Rightarrow> bool" where
  "balanced r r' ops \<longleftrightarrow>
     (\<forall>k. needed r' k + count_list ops (Release k) = needed r k + count_list ops (Retain k))"

lemma count_map_ops [simp]:
  "count_list (map Release ks) (Release k) = count_list ks k" "count_list (map Release ks) (Retain k) = 0"
  "count_list (map Retain ks) (Retain k) = count_list ks k" "count_list (map Retain ks) (Release k) = 0"
  by (induction ks) auto

lemma release_ops_eq: "release_subscription_topics com scope = map Release (scope_topics com scope)"
  by (simp add: release_subscription_topics_def)

lemma retain_ops_eq:
  "retain_topics com authorized =
     map Retain (scope_topics com (case authorized of Some chs \<Rightarrow> Channels chs | None \<Rightarrow> Global))"
  by (simp add: retain_topics_def scope_topics_def split: option.splits)

lemma register_subscription_eq:
  fixes n authorized
  defines "r \<equiv> sub_registry (n_relay n)"
  defines "scope \<equiv> (case authorized of Some chs \<Rightarrow> Channels chs | None \<Rightarrow> Global)"
  shows "sub_registry (n_relay (fst (register_subscription com c s fs authorized n))) = fst (register_with_scope r com c s fs scope)"
    and "snd (register_subscription com c s fs authorized n) =
      (case sub_lookup r c s of Some (fs0, com0, scope0) \<Rightarrow> map Release (scope_topics com scope0) | None \<Rightarrow> []) @
      map Retain (scope_topics com scope)"
    and "n_bus (fst (register_subscription com c s fs authorized n)) = n_bus n"
proof -
  obtain g replaced where reg: "register_with_scope r com c s fs scope = (g, replaced)"
    by (cases "register_with_scope r com c s fs scope")
  then have replaced: "replaced = map_option (\<lambda>(fs, com, scope). \<lparr>rs_community_id = com, rs_scope = scope\<rparr>) (sub_lookup r c s)"
    using register_with_scope_snd [of r com c s fs scope] by (simp add: remove_subscription_snd)
  have eq: "(case authorized of
      Some chs \<Rightarrow> register_channels_scoped (sub_registry (n_relay n)) com c s fs chs
    | None \<Rightarrow> register_scoped (sub_registry (n_relay n)) com c s fs None) = (g, replaced)"
    using reg by (cases authorized) (simp_all add: register_channels_scoped_def register_scoped_def r_def scope_def)
  show "sub_registry (n_relay (fst (register_subscription com c s fs authorized n))) = fst (register_with_scope r com c s fs scope)"
    "n_bus (fst (register_subscription com c s fs authorized n)) = n_bus n"
    by (simp_all add: register_subscription_def Let_def eq reg)
  show "snd (register_subscription com c s fs authorized n) =
      (case sub_lookup r c s of Some (fs0, com0, scope0) \<Rightarrow> map Release (scope_topics com scope0) | None \<Rightarrow> []) @
      map Retain (scope_topics com scope)"
    by (simp add: register_subscription_def Let_def eq replaced release_ops_eq retain_ops_eq scope_def split: option.splits)
qed

lemma register_balanced:
  fixes n authorized
  assumes "table_wf home (sub_registry (n_relay n))" "com = home c" "\<And>chs. authorized = Some chs \<Longrightarrow> distinct chs"
  shows "table_wf home (sub_registry (n_relay (fst (register_subscription com c s fs authorized n))))"
    and "balanced (sub_registry (n_relay n)) (sub_registry (n_relay (fst (register_subscription com c s fs authorized n))))
      (snd (register_subscription com c s fs authorized n))"
proof -
  let ?r = "sub_registry (n_relay n)" and ?scope = "case authorized of Some chs \<Rightarrow> Channels chs | None \<Rightarrow> Global"
  note eq = register_subscription_eq [where n = n and com = com and c = c and s = s and fs = fs and authorized = authorized]
  show "table_wf home (sub_registry (n_relay (fst (register_subscription com c s fs authorized n))))"
    using assms unfolding eq(1) table_wf_def
    by (auto simp: registry_inv_register sub_lookup_register split: option.splits if_splits)
  have old: "sub_lookup ?r c s = Some (fs0, com0, scope0) \<Longrightarrow> com0 = com" for fs0 com0 scope0
    using assms(1,2) by (auto simp: table_wf_def)
  show "balanced ?r (sub_registry (n_relay (fst (register_subscription com c s fs authorized n))))
      (snd (register_subscription com c s fs authorized n))"
    unfolding balanced_def eq(1,2)
  proof
    fix k
    from needed_change_one [OF sub_table_register [of ?r com c s fs ?scope], of k] old
    show "needed (fst (register_with_scope ?r com c s fs ?scope)) k +
        count_list ((case sub_lookup ?r c s of Some (fs0, com0, scope0) \<Rightarrow> map Release (scope_topics com scope0) | None \<Rightarrow> []) @
          map Retain (scope_topics com ?scope)) (Release k) =
      needed ?r k +
        count_list ((case sub_lookup ?r c s of Some (fs0, com0, scope0) \<Rightarrow> map Release (scope_topics com scope0) | None \<Rightarrow> []) @
          map Retain (scope_topics com ?scope)) (Retain k)"
      by (cases "sub_lookup ?r c s") (auto simp: sub_table_def sub_weight_def)
  qed
qed

lemma close_balanced:
  assumes "table_wf home (sub_registry (n_relay n))" "cn_community conn = home (cn_conn_id conn)"
  shows "table_wf home (sub_registry (n_relay (fst (close_subscription conn s n))))"
    and "balanced (sub_registry (n_relay n)) (sub_registry (n_relay (fst (close_subscription conn s n)))) (snd (close_subscription conn s n))"
    and "n_bus (fst (close_subscription conn s n)) = n_bus n"
proof -
  let ?c = "cn_conn_id conn" and ?r = "sub_registry (n_relay n)"
  obtain g removed where rem: "remove_subscription ?r ?c s = (g, removed)" by (cases "remove_subscription ?r ?c s")
  have g: "g = fst (remove_subscription ?r ?c s)" by (simp add: rem)
  have removed: "removed = map_option (\<lambda>(fs, com, scope). \<lparr>rs_community_id = com, rs_scope = scope\<rparr>) (sub_lookup ?r ?c s)"
    using remove_subscription_snd [of ?r ?c s] by (simp add: rem)
  have eq: "sub_registry (n_relay (fst (close_subscription conn s n))) = g"
      "snd (close_subscription conn s n) = (case sub_lookup ?r ?c s of
         Some (fs0, com0, scope0) \<Rightarrow> map Release (scope_topics (cn_community conn) scope0) | None \<Rightarrow> [])"
    by (simp_all add: close_subscription_def Let_def rem removed release_ops_eq split: option.splits)
  show "n_bus (fst (close_subscription conn s n)) = n_bus n" by (simp add: close_subscription_def Let_def rem)
  show "table_wf home (sub_registry (n_relay (fst (close_subscription conn s n))))"
    using assms unfolding eq(1) g table_wf_def
    by (auto simp: registry_inv_remove_subscription sub_lookup_remove_subscription split: if_splits)
  have old: "sub_lookup ?r ?c s = Some (fs0, com0, scope0) \<Longrightarrow> com0 = cn_community conn" for fs0 com0 scope0
    using assms by (auto simp: table_wf_def)
  show "balanced ?r (sub_registry (n_relay (fst (close_subscription conn s n)))) (snd (close_subscription conn s n))"
    unfolding balanced_def eq g
  proof
    fix k
    from needed_change_one [OF sub_table_remove_subscription [of ?r ?c s], of k] old
    show "needed (fst (remove_subscription ?r ?c s)) k + count_list (case sub_lookup ?r ?c s of
         Some (fs0, com0, scope0) \<Rightarrow> map Release (scope_topics (cn_community conn) scope0) | None \<Rightarrow> []) (Release k) =
      needed ?r k + count_list (case sub_lookup ?r ?c s of
         Some (fs0, com0, scope0) \<Rightarrow> map Release (scope_topics (cn_community conn) scope0) | None \<Rightarrow> []) (Retain k)"
      by (cases "sub_lookup ?r ?c s") (auto simp: sub_table_def sub_weight_def)
  qed
qed

lemma count_concat_release:
  "count_list (concat (map (\<lambda>rs. map Release (f rs)) xs)) (Release k) = (\<Sum>rs \<leftarrow> xs. count_list (f rs) k)"
  "count_list (concat (map (\<lambda>rs. map Release (f rs)) xs)) (Retain k) = 0"
  by (induction xs) simp_all

lemma drop_balanced:
  assumes "table_wf home (sub_registry (n_relay n))" "cn_community conn = home (cn_conn_id conn)"
  shows "table_wf home (sub_registry (n_relay (fst (drop_subscriptions conn n))))"
    and "balanced (sub_registry (n_relay n)) (sub_registry (n_relay (fst (drop_subscriptions conn n)))) (snd (drop_subscriptions conn n))"
    and "n_bus (fst (drop_subscriptions conn n)) = n_bus n"
proof -
  let ?c = "cn_conn_id conn" and ?r = "sub_registry (n_relay n)"
  obtain g removed where rem: "remove_connection ?r ?c = (g, removed)" by (cases "remove_connection ?r ?c")
  have eq: "sub_registry (n_relay (fst (drop_subscriptions conn n))) = g"
      "snd (drop_subscriptions conn n) = concat (map (\<lambda>rs. map Release (scope_topics (cn_community conn) (rs_scope rs))) removed)"
    by (simp_all add: drop_subscriptions_def Let_def rem release_ops_eq)
  show "n_bus (fst (drop_subscriptions conn n)) = n_bus n" by (simp add: drop_subscriptions_def Let_def rem)
  have inv: "registry_inv ?r" using assms(1) by (simp add: table_wf_def)
  have com: "sub_lookup ?r ?c s = Some (fs, com', scope) \<Longrightarrow> com' = cn_community conn" for s fs com' scope
    using assms by (auto simp: table_wf_def)
  have "registry_inv g" "sub_lookup g c' s' = (if c' = ?c then None else sub_lookup ?r c' s')" for c' s'
    using registry_inv_remove_connection [OF inv, of ?c] sub_lookup_remove_connection [of ?r ?c c' s'] by (simp_all add: rem)
  with assms(1) show "table_wf home (sub_registry (n_relay (fst (drop_subscriptions conn n))))"
    unfolding eq(1) table_wf_def by (auto split: if_splits)
  show "balanced ?r (sub_registry (n_relay (fst (drop_subscriptions conn n)))) (snd (drop_subscriptions conn n))"
    using needed_remove_connection [OF inv com]
    unfolding balanced_def eq count_concat_release by (simp add: rem)
qed

lemma count_same_release:
  "count_list (map (\<lambda>u. Release key) us) (Release k) = (if k = key then length us else 0)"
  "count_list (map (\<lambda>u. Release key) us) (Retain k) = 0"
  by (induction us) auto

lemma revoke_balanced:
  assumes "table_wf home (sub_registry (n_relay n))"
  shows "table_wf home (sub_registry (n_relay (fst (revoke_conn_channel com ch c n))))"
    and "balanced (sub_registry (n_relay n)) (sub_registry (n_relay (fst (revoke_conn_channel com ch c n))))
      (fst (snd (revoke_conn_channel com ch c n)))"
    and "n_bus (fst (revoke_conn_channel com ch c n)) = n_bus n"
proof -
  let ?r = "sub_registry (n_relay n)"
  obtain g us where rem: "remove_channel_subscriptions_scoped ?r com c ch = (g, us)"
    by (cases "remove_channel_subscriptions_scoped ?r com c ch")
  have eq: "sub_registry (n_relay (fst (revoke_conn_channel com ch c n))) = g"
      "fst (snd (revoke_conn_channel com ch c n)) = map (\<lambda>u. Release (from_context com (TopicChannel ch))) us"
    by (simp_all add: revoke_conn_channel_def Let_def rem)
  show "n_bus (fst (revoke_conn_channel com ch c n)) = n_bus n" by (simp add: revoke_conn_channel_def Let_def rem)
  have inv: "registry_inv ?r" and ent: "\<And>c s fs com scope. sub_lookup ?r c s = Some (fs, com, scope) \<Longrightarrow>
      com = home c \<and> distinct (channel_ids scope)"
    using assms by (auto simp: table_wf_def)
  have "com2 = home c' \<and> distinct (channel_ids scope2)"
    if e2: "sub_lookup g c' s = Some (fs2, com2, scope2)" for c' s fs2 com2 scope2
  proof (cases "c' = c")
    case True
    have "Option.bind (sub_lookup ?r c s) (revoke_entry com ch) = Some (fs2, com2, scope2)"
      using revoke_channel_correct(2) [OF inv refl, of com c ch c' s] e2 True by (simp add: rem)
    then obtain fs1 com1 scope1 where e1: "sub_lookup ?r c s = Some (fs1, com1, scope1)"
      and "revoke_entry com ch (fs1, com1, scope1) = Some (fs2, com2, scope2)"
      by (auto simp: bind_eq_Some_conv)
    with revoke_entry_Some ent [OF e1] True show ?thesis by blast
  next
    case False
    then have "sub_lookup ?r c' s = Some (fs2, com2, scope2)"
      using revoke_channel_correct(2) [OF inv refl, of com c ch c' s] e2 by (simp add: rem)
    then show ?thesis by (rule ent)
  qed
  moreover have "registry_inv g" using revoke_channel_correct(1) [OF inv refl, of com c ch] by (simp add: rem)
  ultimately show "table_wf home (sub_registry (n_relay (fst (revoke_conn_channel com ch c n))))"
    by (simp add: eq(1) table_wf_def)
  have distinct: "sub_lookup ?r c s = Some (fs, com', Channels chs) \<Longrightarrow> distinct chs" for s fs com' chs
    using ent by fastforce
  show "balanced ?r (sub_registry (n_relay (fst (revoke_conn_channel com ch c n)))) (fst (snd (revoke_conn_channel com ch c n)))"
    using needed_revoke [OF inv distinct, where com = com and ch = ch]
    unfolding balanced_def eq count_same_release by (simp add: rem)
qed

section \<open>Reachable nodes\<close>

text \<open>A node with the topic operations its tasks still have to do, and whether every release so far came to a topic
  that was held.  The table changes at once, in the handlers of REQ, CLOSE, eviction and the end of a
  connection, and a new task holds the operations that follow; a task does its next operation at any
  time, also when its connection is gone.  A REQ was planned on some earlier state of the node.  Whatever else
  happens to connections and caches leaves the table and the bus alone.\<close>

inductive node_reachable :: "nostr_lib \<Rightarrow> (conn_id \<Rightarrow> community_id) \<Rightarrow> bool \<Rightarrow> node \<Rightarrow> topic_op list list \<Rightarrow> bool"
  for lib home where
  node_init: "node_reachable lib home True \<lparr>n_relay = relay_new, n_bus = bus_new, n_conn_subs = []\<rparr> []"
| node_req: "node_reachable lib home held n ts \<Longrightarrow> cn_community conn = home (cn_conn_id conn) \<Longrightarrow>
    fst (plan_req (env :: int req_env) conn s fs n0) = PlanStream g \<Longrightarrow>
    register_subscription (cn_community conn) (cn_conn_id conn) s fs (rg_authorized g) n = (n', ops) \<Longrightarrow>
    node_reachable lib home held n' (ts @ [ops])"
| node_close: "node_reachable lib home held n ts \<Longrightarrow> cn_community conn = home (cn_conn_id conn) \<Longrightarrow>
    close_subscription conn s n = (n', ops) \<Longrightarrow> node_reachable lib home held n' (ts @ [ops])"
| node_evict: "node_reachable lib home held n ts \<Longrightarrow> revoke_conn_channel com ch c n = (n', ops, msgs) \<Longrightarrow>
    node_reachable lib home held n' (ts @ [ops])"
| node_end: "node_reachable lib home held n ts \<Longrightarrow> cn_community conn = home (cn_conn_id conn) \<Longrightarrow>
    drop_subscriptions conn n = (n', ops) \<Longrightarrow> node_reachable lib home held n' (ts @ [ops])"
| node_retain: "node_reachable lib home held n (pre @ (Retain k # ops) # post) \<Longrightarrow>
    node_reachable lib home held (n\<lparr>n_bus := retain_topic k (n_bus n)\<rparr>) (pre @ ops # post)"
| node_release: "node_reachable lib home held n (pre @ (Release k # ops) # post) \<Longrightarrow>
    node_reachable lib home (held \<and> topic_refcount (n_bus n) k > 0) (n\<lparr>n_bus := release_topic k (n_bus n)\<rparr>) (pre @ ops # post)"
| node_other: "node_reachable lib home held n ts \<Longrightarrow> sub_registry r = sub_registry (n_relay n) \<Longrightarrow>
    node_reachable lib home held (n\<lparr>n_relay := r, n_conn_subs := m\<rparr>) ts"
| node_bus_fire: "node_reachable lib home held n ts \<Longrightarrow> k \<in> set (debounced (n_bus n)) \<Longrightarrow>
    node_reachable lib home held (n\<lparr>n_bus := fire_debounce k (n_bus n)\<rparr>) ts"
| node_bus_recv: "node_reachable lib home held n ts \<Longrightarrow>
    node_reachable lib home held (n\<lparr>n_bus := recv_command lib (n_bus n)\<rparr>) ts"
| node_bus_connect: "node_reachable lib home held n ts \<Longrightarrow>
    node_reachable lib home held (n\<lparr>n_bus := connect_and_subscribe lib (n_bus n)\<rparr>) ts"

definition counts_inv :: "(conn_id \<Rightarrow> community_id) \<Rightarrow> bool \<Rightarrow> registry \<Rightarrow> bus \<Rightarrow> topic_op list list \<Rightarrow> bool" where
  "counts_inv home held r b ts \<longleftrightarrow> table_wf home r \<and>
     (\<forall>k. needed r k + to_release ts k \<le> topic_refcount b k + to_retain ts k) \<and>
     (held \<longrightarrow> (\<forall>k. needed r k + to_release ts k = topic_refcount b k + to_retain ts k))"

lemma pending_simps:
  "to_release (ts @ [ops]) k = to_release ts k + count_list ops (Release k)"
  "to_retain (ts @ [ops]) k = to_retain ts k + count_list ops (Retain k)"
  "to_release (pre @ (Release k' # ops) # post) k = to_release (pre @ ops # post) k + (if k = k' then 1 else 0)"
  "to_retain (pre @ (Release k' # ops) # post) k = to_retain (pre @ ops # post) k"
  "to_release (pre @ (Retain k' # ops) # post) k = to_release (pre @ ops # post) k"
  "to_retain (pre @ (Retain k' # ops) # post) k = to_retain (pre @ ops # post) k + (if k = k' then 1 else 0)"
  by (auto simp: to_release_def to_retain_def)

text \<open>The balance at one topic: \<open>x\<close> is what is needed and to be released, \<open>y\<close> what is counted and to be retained.\<close>

definition covered :: "bool \<Rightarrow> nat \<Rightarrow> nat \<Rightarrow> bool" where
  "covered held x y \<longleftrightarrow> x \<le> y \<and> (held \<longrightarrow> x = y)"

lemma counts_inv_covered:
  "counts_inv home held r b ts \<longleftrightarrow> table_wf home r \<and>
     (\<forall>k. covered held (needed r k + to_release ts k) (topic_refcount b k + to_retain ts k))"
  by (auto simp: counts_inv_def covered_def)

lemma counts_inv_table:
  assumes "counts_inv home held r b ts" "table_wf home r'" "balanced r r' ops"
  shows "counts_inv home held r' b (ts @ [ops])"
  unfolding counts_inv_covered pending_simps
proof (intro conjI allI assms(2))
  fix k
  have "needed r' k + count_list ops (Release k) = needed r k + count_list ops (Retain k)"
    using assms(3) by (simp add: balanced_def)
  moreover have "covered held (needed r k + to_release ts k) (topic_refcount b k + to_retain ts k)"
    using assms(1) by (simp add: counts_inv_covered)
  ultimately show "covered held (needed r' k + (to_release ts k + count_list ops (Release k)))
      (topic_refcount b k + (to_retain ts k + count_list ops (Retain k)))"
    unfolding covered_def by linarith
qed

lemma counts_inv_retain:
  "counts_inv home held r b (pre @ (Retain k # ops) # post) \<Longrightarrow> counts_inv home held r (retain_topic k b) (pre @ ops # post)"
  by (simp add: counts_inv_covered pending_simps topic_refcount_retain add.commute add.left_commute)

lemma counts_inv_release:
  assumes "counts_inv home held r b (pre @ (Release k # ops) # post)"
  shows "counts_inv home (held \<and> topic_refcount b k > 0) r (release_topic k b) (pre @ ops # post)"
  unfolding counts_inv_covered topic_refcount_release
proof (intro conjI allI)
  show "table_wf home r" using assms by (simp add: counts_inv_covered)
  fix k'
  have "covered held (needed r k' + (to_release (pre @ ops # post) k' + (if k' = k then 1 else 0)))
      (topic_refcount b k' + to_retain (pre @ ops # post) k')"
    using assms by (simp add: counts_inv_covered pending_simps)
  then show "covered (held \<and> topic_refcount b k > 0) (needed r k' + to_release (pre @ ops # post) k')
      (topic_refcount b k' - (if k' = k then 1 else 0) + to_retain (pre @ ops # post) k')"
    by (auto simp: covered_def split: if_splits)
qed

lemma counts_inv_bus [simp]:
  "counts_inv home held r (fire_debounce k b) ts = counts_inv home held r b ts"
  "counts_inv home held r (recv_command lib b) ts = counts_inv home held r b ts"
  "counts_inv home held r (connect_and_subscribe lib b) ts = counts_inv home held r b ts"
  by (simp_all add: counts_inv_def)

lemma node_reachable_inv:
  "node_reachable lib home held n ts \<Longrightarrow>
   counts_inv home held (sub_registry (n_relay n)) (n_bus n) ts \<and> bus_reachable lib (n_bus n)"
proof (induction rule: node_reachable.induct)
  case node_init
  have none: "sub_lookup registry_new c s = None" for c s
    by (simp add: sub_lookup_def registry_new_def)
  then have "sub_table registry_new = (\<lambda>p. None)" by (auto simp: sub_table_def)
  then show ?case
    by (simp add: counts_inv_def table_wf_def to_release_def to_retain_def relay_new_def registry_inv_new needed_def none bus_init)
       (simp add: topic_refcount_def bus_new_def)
next
  case (node_req held n ts conn env s fs n0 g n' ops)
  have "grant_ok env conn fs (n_relay n0) g" by (rule plan_req_grant [where s = s]) (simp add: node_req)
  then have d: "distinct chs" if "rg_authorized g = Some chs" for chs using that by (simp add: grant_ok_def)
  have wf: "table_wf home (sub_registry (n_relay n))" using node_req.IH by (simp add: counts_inv_def)
  note reg = register_balanced [OF wf node_req.hyps(2) d, where s = s and fs = fs and authorized = "rg_authorized g", unfolded node_req.hyps(4) fst_conv snd_conv]
  have "n_bus n' = n_bus n"
    using register_subscription_eq(3) [of "cn_community conn" "cn_conn_id conn" s fs "rg_authorized g" n] node_req.hyps(4) by simp
  with counts_inv_table [OF conjunct1 [OF node_req.IH] reg] node_req.IH show ?case by simp
next
  case (node_close held n ts conn s n' ops)
  have wf: "table_wf home (sub_registry (n_relay n))" using node_close.IH by (simp add: counts_inv_def)
  note c = close_balanced [OF wf node_close.hyps(2), of s, unfolded node_close.hyps(3) fst_conv snd_conv]
  from counts_inv_table [OF conjunct1 [OF node_close.IH] c(1,2)] node_close.IH c(3) show ?case by simp
next
  case (node_evict held n ts com ch c n' ops msgs)
  have wf: "table_wf home (sub_registry (n_relay n))" using node_evict.IH by (simp add: counts_inv_def)
  note e = revoke_balanced [OF wf, of com ch c, unfolded node_evict.hyps(2) fst_conv snd_conv]
  from counts_inv_table [OF conjunct1 [OF node_evict.IH] e(1,2)] node_evict.IH e(3) show ?case by simp
next
  case (node_end held n ts conn n' ops)
  have wf: "table_wf home (sub_registry (n_relay n))" using node_end.IH by (simp add: counts_inv_def)
  note c = drop_balanced [OF wf node_end.hyps(2), unfolded node_end.hyps(3) fst_conv snd_conv]
  from counts_inv_table [OF conjunct1 [OF node_end.IH] c(1,2)] node_end.IH c(3) show ?case by simp
next
  case (node_retain held n pre k ops post)
  then show ?case by (auto intro: counts_inv_retain bus_next bus_retain)
next
  case (node_release held n pre k ops post)
  then show ?case using counts_inv_release by (auto intro: bus_next bus_release)
qed (auto intro: bus_next bus_fire bus_recv bus_connect)

lemma needed_positive:
  "needed r k > 0 \<longleftrightarrow> (\<exists>c s fs com scope. sub_lookup r c s = Some (fs, com, scope) \<and> k \<in> set (scope_topics com scope))"
proof -
  have "needed r k > 0 \<longleftrightarrow> (\<exists>p \<in> dom (sub_table r). sub_weight k (sub_table r p) > 0)"
    by (simp add: needed_def sum_eq_0_iff [OF finite_sub_table] flip: neq0_conv)
  also have "\<dots> \<longleftrightarrow> (\<exists>c s e. sub_lookup r c s = Some e \<and> sub_weight k (Some e) > 0)"
    by (auto simp: sub_table_def dom_def) (metis surj_pair)+
  also have "\<dots> \<longleftrightarrow> (\<exists>c s fs com scope. sub_lookup r c s = Some (fs, com, scope) \<and> k \<in> set (scope_topics com scope))"
    by (simp add: sub_weight_def count_list_0_iff flip: neq0_conv)
  finally show ?thesis .
qed

text \<open>C9.  The node listens to what its clients need.  Whatever requests, closes, evictions, disconnects,
  deliveries, timers and reconnects a node has gone through, with the tasks of its handlers interleaved in any
  way, once no task has a topic operation left and the bus has settled the node is subscribed to every topic that
  some registered subscription has in its scope: no delivery is missed for want of a subscription.  If
  besides no release ever came to a topic that nobody held, it is subscribed to no other topic.\<close>

theorem node_listens_to_live_subscriptions:
  assumes "uuid_codec lib" and "node_reachable lib home held n ts" and "list_all (\<lambda>ops. ops = []) ts"
  shows "redis_channel lib ` {k. \<exists>c s fs com scope.
      sub_lookup (sub_registry (n_relay n)) c s = Some (fs, com, scope) \<and> k \<in> set (scope_topics com scope)}
    \<subseteq> set (active_topics (settle lib (n_bus n))) \<and>
    (held \<longrightarrow> set (active_topics (settle lib (n_bus n))) =
      redis_channel lib ` {k. \<exists>c s fs com scope.
        sub_lookup (sub_registry (n_relay n)) c s = Some (fs, com, scope) \<and> k \<in> set (scope_topics com scope)})"
proof -
  from node_reachable_inv [OF assms(2)] have inv: "counts_inv home held (sub_registry (n_relay n)) (n_bus n) ts"
    and bus: "bus_reachable lib (n_bus n)" by auto
  have "concat ts = []" using assms(3) by (simp add: list_all_iff)
  then have none: "to_release ts k = 0" "to_retain ts k = 0" for k
    by (simp_all add: to_release_def to_retain_def del: concat_eq_Nil_conv)
  have active: "set (active_topics (settle lib (n_bus n))) = redis_channel lib ` {k. topic_refcount (n_bus n) k > 0}"
    using settle_active [OF assms(1) bus] by simp
  have le: "needed (sub_registry (n_relay n)) k \<le> topic_refcount (n_bus n) k"
    and eq: "held \<Longrightarrow> needed (sub_registry (n_relay n)) k = topic_refcount (n_bus n) k" for k
    using inv none by (simp_all add: counts_inv_def)
  have "needed (sub_registry (n_relay n)) k > 0 \<Longrightarrow> topic_refcount (n_bus n) k > 0" for k using le [of k] by simp
  then show ?thesis unfolding active needed_positive [symmetric] using eq by auto
qed

text \<open>A topic is leaked when its connection ends between the registration of a subscription and the retain of the
  topic: the release finds the topic unheld and does nothing, the retain comes after it, and the node stays
  subscribed to a topic that no subscription needs.\<close>


definition ex_topic :: event_topic_key where
  "ex_topic = from_context 2 TopicGlobal"

definition ex_live_node :: node where
  "ex_live_node = fst (register_subscription 2 10 ''q'' ex_filters None ex_node)"

definition ex_ended_node :: node where
  "ex_ended_node = fst (drop_subscriptions ex_grant_conn ex_live_node)"

lemma ex_live_step: "register_subscription 2 10 ''q'' ex_filters None ex_node = (ex_live_node, [Retain ex_topic])"
  by (simp add: ex_live_node_def register_subscription_def ex_node_def relay_new_def registry_new_def retain_topics_def
      register_scoped_def register_with_scope_def remove_subscription_def ex_topic_def Let_def)

lemma ex_live_subs: "subs (sub_registry (n_relay ex_live_node)) = [(10, [(''q'', ex_filters, 2, Global)])]"
  by (simp add: ex_live_node_def register_subscription_def ex_node_def relay_new_def registry_new_def
      register_scoped_def register_with_scope_def remove_subscription_def insert_entry_def add_global_index_eq Let_def)

lemma ex_live_lookup:
  "sub_lookup (sub_registry (n_relay ex_live_node)) c s = (if c = 10 \<and> s = ''q'' then Some (ex_filters, 2, Global) else None)"
  using register_subscription_eq(1) [of 2 10 "''q''" ex_filters None ex_node]
  by (simp add: ex_live_step sub_lookup_register) (simp add: ex_node_def relay_new_def registry_new_def sub_lookup_def)

lemma ex_live_reachable: "node_reachable lib (\<lambda>_. 2) True ex_live_node [[Retain ex_topic]]"
proof -
  have init: "node_reachable lib (\<lambda>_. 2) True ex_node []" unfolding ex_node_def by (rule node_init)
  have plan: "fst (plan_req ex_req_env ex_grant_conn ''q'' ex_filters ex_node) =
      PlanStream \<lparr>rg_pubkey = [7], rg_token = None, rg_channel_id = None, rg_accessible = [5], rg_authorized = None\<rparr>"
    by (rule ex_plan_node) (simp_all add: ex_node_def relay_new_def)
  have "register_subscription (cn_community ex_grant_conn) (cn_conn_id ex_grant_conn) ''q'' ex_filters None ex_node =
      (ex_live_node, [Retain ex_topic])"
    using ex_live_step by (simp add: ex_grant_conn_def)
  with node_req [OF init _ plan, of ex_live_node "[Retain ex_topic]"] show ?thesis by (simp add: ex_grant_conn_def)
qed

theorem disconnect_leaks_topic:
  assumes "uuid_codec lib"
  shows "\<exists>n ts. node_reachable lib (\<lambda>_. 2) False n ts \<and> list_all (\<lambda>ops. ops = []) ts \<and>
    (\<forall>c s. sub_lookup (sub_registry (n_relay n)) c s = None) \<and>
    redis_channel lib ex_topic \<in> set (active_topics (settle lib (n_bus n)))"
proof -
  have drop: "drop_subscriptions ex_grant_conn ex_live_node = (ex_ended_node, [Release ex_topic])"
    by (simp add: ex_ended_node_def drop_subscriptions_def remove_connection_def ex_live_subs ex_grant_conn_def
        release_subscription_topics_def scope_topics_def ex_topic_def Let_def)
  have bus: "n_bus ex_ended_node = bus_new"
    unfolding ex_ended_node_def ex_live_node_def
    by (simp add: drop_subscriptions_def register_subscription_def ex_node_def Let_def split: prod.splits)
  let ?n = "ex_ended_node\<lparr>n_bus := retain_topic ex_topic (release_topic ex_topic bus_new)\<rparr>"
  have "node_reachable lib (\<lambda>_. 2) True ex_ended_node [[Retain ex_topic], [Release ex_topic]]"
    using node_end [OF ex_live_reachable _ drop, of lib] by (simp add: ex_grant_conn_def)
  from node_release [of lib "\<lambda>_. 2" True ex_ended_node "[[Retain ex_topic]]" ex_topic "[]" "[]"] this
  have "node_reachable lib (\<lambda>_. 2) False (ex_ended_node\<lparr>n_bus := release_topic ex_topic bus_new\<rparr>) [[Retain ex_topic], []]"
    by (simp add: bus topic_refcount_def bus_new_def)
  from node_retain [of lib "\<lambda>_. 2" False _ "[]" ex_topic "[]" "[[]]"] this
  have reach: "node_reachable lib (\<lambda>_. 2) False ?n [[], []]" by fastforce
  have none: "sub_lookup (sub_registry (n_relay ?n)) c s = None" for c s
    using sub_lookup_remove_connection [of "sub_registry (n_relay ex_live_node)" 10 c s]
    by (auto simp: ex_ended_node_def drop_subscriptions_def ex_grant_conn_def ex_live_lookup Let_def split: prod.splits if_splits)
  have "topic_refcount (n_bus ?n) ex_topic > 0" by (simp add: topic_refcount_retain)
  with settle_active [OF assms conjunct2 [OF node_reachable_inv [OF reach]]]
  have "redis_channel lib ex_topic \<in> set (active_topics (settle lib (n_bus ?n)))" by auto
  with reach none show ?thesis by (intro exI [of _ ?n] exI [of _ "[[], []]"]) simp
qed

theorem node_listens_to_live_subscriptions_witness:
  "set (active_topics (settle ex_codec (retain_topic ex_topic (n_bus ex_live_node)))) = {redis_channel ex_codec ex_topic}"
proof -
  let ?n = "ex_live_node\<lparr>n_bus := retain_topic ex_topic (n_bus ex_live_node)\<rparr>"
  have reach: "node_reachable ex_codec (\<lambda>_. 2) True ?n [[]]"
    using node_retain [of ex_codec "\<lambda>_. 2" True ex_live_node "[]" ex_topic "[]" "[]"] ex_live_reachable by simp
  have "{k. \<exists>c s fs com scope. sub_lookup (sub_registry (n_relay ?n)) c s = Some (fs, com, scope) \<and>
      k \<in> set (scope_topics com scope)} = {ex_topic}"
    by (auto simp: ex_live_lookup scope_topics_def ex_topic_def split: if_splits)
  with node_listens_to_live_subscriptions [OF ex_codec_ok reach] show ?thesis by simp
qed

end
