(* ===== verification/Conformance.thy ===== *)
theory Conformance
  imports Punks_Prelude "HOL-Library.Char_ord" "HOL-Library.List_Lexorder"
begin

text \<open>The runtime-conformance gate of crates/punks-conformance: the trace schema (lib.rs), the
  per-step transition check (transitions.rs) and the replay checker with its coverage stage
  (checker.rs).  Opaque labels are values compared for equality only; the formatted detail text
  of an error is kept as the values it interpolates.  The lemmas show that the checker accepts
  exactly the traces the non-interference specification accepts, and that a rejection names the
  first offending step and the reason it offends.\<close>

section \<open>Trace schema (lib.rs)\<close>

type_synonym community_label = uuid
type_synonym opaque_id = string
type_synonym host_label = string
type_synonym channel_label = uuid
type_synonym actor_label = string

definition SCHEMA_VERSION :: u32 where
  "SCHEMA_VERSION = 1"

datatype verdict = Allow | Deny

datatype sanitized_reason = Restricted | Invalid | ServerError

record abstract_state =
  resolved_community :: community_label
  bound_host :: host_label
  actor :: actor_label

datatype trace_action =
    WriteInsert (msg_id: opaque_id) channel_label "community_label option"
  | WriteInsertGlobal (msg_id: opaque_id) "community_label option"
  | WriteDuplicate (msg_id: opaque_id) channel_label "community_label option"
  | SanitizedError sanitized_reason
  | AuthCheck channel_label "community_label option" verdict
  | ReadMessageRows "channel_label option" "community_label list"
  | ReadByIdRows "channel_label option" "community_label list"
  | ReadHostFeedRows "community_label list"
  | ImplBug string

fun action_kind :: "trace_action \<Rightarrow> string" where
  "action_kind (WriteInsert _ _ _) = ''write_insert''"
| "action_kind (WriteInsertGlobal _ _) = ''write_insert_global''"
| "action_kind (WriteDuplicate _ _ _) = ''write_duplicate''"
| "action_kind (SanitizedError _) = ''sanitized_error''"
| "action_kind (AuthCheck _ _ _) = ''auth_check''"
| "action_kind (ReadMessageRows _ _) = ''read_message_rows''"
| "action_kind (ReadByIdRows _ _) = ''read_by_id_rows''"
| "action_kind (ReadHostFeedRows _) = ''read_host_feed_rows''"
| "action_kind (ImplBug _) = ''impl_bug''"

definition is_critical :: "trace_action \<Rightarrow> bool" where
  "is_critical a = True"

record trace_step =
  schema_version :: u32
  step_action :: trace_action
  state_after :: abstract_state

definition trace_step_new :: "trace_action \<Rightarrow> abstract_state \<Rightarrow> trace_step" where
  "trace_step_new a st = \<lparr>schema_version = SCHEMA_VERSION, step_action = a, state_after = st\<rparr>"

section \<open>Transition relation (transitions.rs)\<close>

datatype error_detail =
    CommunityChanged community_label community_label
  | HostChanged host_label host_label
  | ActorChanged actor_label actor_label
  | AllowWithForeignClaim community_label community_label
  | ForeignRow community_label community_label
  | ImplBugEmitted string
  | EmptyTrace
  | SchemaVersionMismatch u32 u32
  | MissingActions "string list"

datatype transition_error =
    IllegalTransition nat error_detail
  | StateMismatch nat error_detail
  | NonInterference nat error_detail
  | CoverageBreach error_detail

record model_state =
  m_resolved_community :: community_label
  m_bound_host :: host_label
  m_actor :: actor_label

definition bootstrap :: "abstract_state \<Rightarrow> model_state" where
  "bootstrap st = \<lparr>m_resolved_community = resolved_community st, m_bound_host = bound_host st,
     m_actor = actor st\<rparr>"

definition check_row_labels ::
  "nat \<Rightarrow> model_state \<Rightarrow> community_label list \<Rightarrow> (transition_error, unit) result" where
  "check_row_labels i m rows =
     (case find (\<lambda>c. c \<noteq> m_resolved_community m) rows of
        Some foreign \<Rightarrow> Inl (NonInterference i (ForeignRow foreign (m_resolved_community m)))
      | None \<Rightarrow> Inr ())"

definition check_action ::
  "nat \<Rightarrow> model_state \<Rightarrow> trace_action \<Rightarrow> (transition_error, unit) result" where
  "check_action i m a =
     (case a of
        WriteInsert _ _ _ \<Rightarrow> Inr ()
      | WriteInsertGlobal _ _ \<Rightarrow> Inr ()
      | WriteDuplicate _ _ _ \<Rightarrow> Inr ()
      | SanitizedError _ \<Rightarrow> Inr ()
      | AuthCheck _ claimed v \<Rightarrow>
          (case (v, claimed) of
             (Allow, Some c) \<Rightarrow>
               if c \<noteq> m_resolved_community m
               then Inl (IllegalTransition i (AllowWithForeignClaim c (m_resolved_community m)))
               else Inr ()
           | _ \<Rightarrow> Inr ())
      | ReadMessageRows _ rows \<Rightarrow> check_row_labels i m rows
      | ReadByIdRows _ rows \<Rightarrow> check_row_labels i m rows
      | ReadHostFeedRows rows \<Rightarrow> check_row_labels i m rows
      | ImplBug k \<Rightarrow> Inl (CoverageBreach (ImplBugEmitted k)))"

definition check_step ::
  "nat \<Rightarrow> model_state \<Rightarrow> trace_step \<Rightarrow> (transition_error, unit) result" where
  "check_step i m step =
     (let st = state_after step in
      if resolved_community st \<noteq> m_resolved_community m
      then Inl (StateMismatch i (CommunityChanged (m_resolved_community m) (resolved_community st)))
      else if bound_host st \<noteq> m_bound_host m
      then Inl (StateMismatch i (HostChanged (m_bound_host m) (bound_host st)))
      else if actor st \<noteq> m_actor m
      then Inl (StateMismatch i (ActorChanged (m_actor m) (actor st)))
      else check_action i m (step_action step))"

fun action_channel :: "trace_action \<Rightarrow> channel_label option" where
  "action_channel (WriteInsert _ ch _) = Some ch"
| "action_channel (WriteDuplicate _ ch _) = Some ch"
| "action_channel (AuthCheck ch _ _) = Some ch"
| "action_channel (ReadMessageRows ch _) = ch"
| "action_channel (ReadByIdRows ch _) = ch"
| "action_channel _ = None"

section \<open>Replay (checker.rs)\<close>

record scenario =
  trace :: "trace_step list"
  required_critical_actions :: "string list"

definition unstructured :: "trace_step list \<Rightarrow> scenario" where
  "unstructured t = \<lparr>trace = t, required_critical_actions = []\<rparr>"

definition require :: "scenario \<Rightarrow> string \<Rightarrow> scenario" where
  "require sc k = sc\<lparr>required_critical_actions := List.insert k (required_critical_actions sc)\<rparr>"

fun check_steps ::
  "nat \<Rightarrow> model_state \<Rightarrow> trace_step list \<Rightarrow> (transition_error, unit) result" where
  "check_steps i m [] = Inr ()"
| "check_steps i m (step # rest) =
     (if schema_version step \<noteq> SCHEMA_VERSION
      then Inl (IllegalTransition i (SchemaVersionMismatch (schema_version step) SCHEMA_VERSION))
      else and_then (check_step i m step) (\<lambda>_. check_steps (Suc i) m rest))"

definition check_coverage :: "scenario \<Rightarrow> (transition_error, unit) result" where
  "check_coverage sc =
     (let seen = map (\<lambda>s. action_kind (step_action s)) (trace sc);
          missing = filter (\<lambda>k. k \<notin> set seen) (required_critical_actions sc)
      in if missing \<noteq> [] then Inl (CoverageBreach (MissingActions (sort missing))) else Inr ())"

definition check_trace :: "scenario \<Rightarrow> (transition_error, unit) result" where
  "check_trace sc =
     (case trace sc of
        [] \<Rightarrow> Inl (CoverageBreach EmptyTrace)
      | first # _ \<Rightarrow>
          if schema_version first \<noteq> SCHEMA_VERSION
          then Inl (IllegalTransition 0 (SchemaVersionMismatch (schema_version first) SCHEMA_VERSION))
          else and_then (check_steps 0 (bootstrap (state_after first)) (trace sc))
                 (\<lambda>_. check_coverage sc))"

section \<open>Specification of a conforming trace\<close>

text \<open>The labels an observation exposes, as in the specification's \<open>RowLabels\<close>, and what one
  step owes to the tenant the request was bound to.\<close>

fun row_labels :: "trace_action \<Rightarrow> community_label list" where
  "row_labels (ReadMessageRows _ rows) = rows"
| "row_labels (ReadByIdRows _ rows) = rows"
| "row_labels (ReadHostFeedRows rows) = rows"
| "row_labels _ = []"

fun allow_claim :: "trace_action \<Rightarrow> community_label option" where
  "allow_claim (AuthCheck _ claimed Allow) = claimed"
| "allow_claim _ = None"

fun is_impl_bug :: "trace_action \<Rightarrow> bool" where
  "is_impl_bug (ImplBug _) = True"
| "is_impl_bug _ = False"

definition action_conforms :: "community_label \<Rightarrow> trace_action \<Rightarrow> bool" where
  "action_conforms com a \<longleftrightarrow> set (row_labels a) \<subseteq> {com} \<and> set_option (allow_claim a) \<subseteq> {com} \<and>
     \<not> is_impl_bug a"

definition trace_conforms :: "scenario \<Rightarrow> bool" where
  "trace_conforms sc \<longleftrightarrow> (\<exists>st. trace sc \<noteq> [] \<and>
     (\<forall>step \<in> set (trace sc). schema_version step = SCHEMA_VERSION \<and> state_after step = st \<and>
        action_conforms (resolved_community st) (step_action step)) \<and>
     set (required_critical_actions sc) \<subseteq> (\<lambda>s. action_kind (step_action s)) ` set (trace sc))"

section \<open>Correctness of the step check\<close>

lemma check_row_labels_ok:
  "check_row_labels i m rows = Inr () \<longleftrightarrow> set rows \<subseteq> {m_resolved_community m}"
  using find_None_iff [of "\<lambda>c. c \<noteq> m_resolved_community m" rows]
  by (auto simp: check_row_labels_def split: option.splits)

lemma check_row_labels_err:
  "check_row_labels i m rows = Inl e \<Longrightarrow>
     \<exists>c \<in> set rows. c \<noteq> m_resolved_community m \<and> e = NonInterference i (ForeignRow c (m_resolved_community m))"
  by (auto simp: check_row_labels_def find_Some_iff split: option.splits)

lemma check_action_ok:
  "check_action i m a = Inr () \<longleftrightarrow> action_conforms (m_resolved_community m) a"
  by (cases a)
     (auto simp: check_action_def action_conforms_def check_row_labels_ok
        split: verdict.splits option.splits)

lemma state_eq_bootstrap:
  fixes st st' :: abstract_state
  shows "st = st' \<longleftrightarrow> resolved_community st = m_resolved_community (bootstrap st') \<and>
     bound_host st = m_bound_host (bootstrap st') \<and> actor st = m_actor (bootstrap st')"
  by (cases st; cases st') (simp add: bootstrap_def)

lemma check_step_ok:
  "check_step i (bootstrap st) step = Inr () \<longleftrightarrow>
     state_after step = st \<and> action_conforms (resolved_community st) (step_action step)"
  unfolding state_eq_bootstrap
  by (simp add: check_step_def Let_def check_action_ok) (auto simp: bootstrap_def)

lemma check_steps_ok:
  "check_steps i (bootstrap st) steps = Inr () \<longleftrightarrow>
     (\<forall>step \<in> set steps. schema_version step = SCHEMA_VERSION \<and> state_after step = st \<and>
        action_conforms (resolved_community st) (step_action step))"
proof (induction steps arbitrary: i)
  case (Cons step rest)
  then show ?case by (simp add: and_then_Inr_iff check_step_ok)
qed simp

lemma check_coverage_ok:
  "check_coverage sc = Inr () \<longleftrightarrow>
     set (required_critical_actions sc) \<subseteq> (\<lambda>s. action_kind (step_action s)) ` set (trace sc)"
  by (auto simp: check_coverage_def Let_def filter_empty_conv)

section \<open>What a rejection means\<close>

definition error_explains :: "nat \<Rightarrow> abstract_state \<Rightarrow> trace_step \<Rightarrow> transition_error \<Rightarrow> bool" where
  "error_explains k st step e =
     (case e of
        IllegalTransition i (SchemaVersionMismatch v w) \<Rightarrow>
          i = k \<and> v = schema_version step \<and> w = SCHEMA_VERSION \<and> v \<noteq> w
      | IllegalTransition i (AllowWithForeignClaim c r) \<Rightarrow>
          i = k \<and> allow_claim (step_action step) = Some c \<and> r = resolved_community st \<and> c \<noteq> r
      | StateMismatch i d \<Rightarrow> i = k \<and> state_after step \<noteq> st
      | NonInterference i (ForeignRow c r) \<Rightarrow>
          i = k \<and> c \<in> set (row_labels (step_action step)) \<and> r = resolved_community st \<and> c \<noteq> r
      | CoverageBreach (ImplBugEmitted b) \<Rightarrow> step_action step = ImplBug b
      | _ \<Rightarrow> False)"

definition step_conforms :: "abstract_state \<Rightarrow> trace_step \<Rightarrow> bool" where
  "step_conforms st step \<longleftrightarrow> schema_version step = SCHEMA_VERSION \<and> state_after step = st \<and>
     action_conforms (resolved_community st) (step_action step)"

lemma check_action_err:
  "check_action i (bootstrap st) (step_action step) = Inl e \<Longrightarrow> error_explains i st step e"
  by (cases "step_action step")
     (auto simp: check_action_def error_explains_def bootstrap_def dest!: check_row_labels_err
        split: verdict.splits option.splits if_splits)

lemma check_step_err:
  "check_step i (bootstrap st) step = Inl e \<Longrightarrow> error_explains i st step e"
  using check_action_err [of i st step e]
  by (auto simp: check_step_def Let_def bootstrap_def error_explains_def split: if_splits)

lemma check_steps_err:
  assumes "check_steps i (bootstrap st) steps = Inl e"
  shows "\<exists>k < length steps. (\<forall>j < k. step_conforms st (steps ! j)) \<and> \<not> step_conforms st (steps ! k) \<and>
    error_explains (i + k) st (steps ! k) e"
  using assms
proof (induction steps arbitrary: i)
  case (Cons step rest)
  show ?case
  proof (cases "schema_version step = SCHEMA_VERSION \<and> check_step i (bootstrap st) step = Inr ()")
    case True
    with Cons.prems have "check_steps (Suc i) (bootstrap st) rest = Inl e" by simp
    from Cons.IH [OF this] obtain k where k: "k < length rest" "\<forall>j < k. step_conforms st (rest ! j)"
      "\<not> step_conforms st (rest ! k)" "error_explains (Suc i + k) st (rest ! k) e" by blast
    have "step_conforms st step" using True by (simp add: step_conforms_def check_step_ok)
    with k show ?thesis by (intro exI [of _ "Suc k"]) (auto simp: less_Suc_eq_0_disj)
  next
    case False
    then have "\<not> step_conforms st step" by (auto simp: step_conforms_def check_step_ok)
    moreover have "error_explains i st step e"
    proof (cases "schema_version step = SCHEMA_VERSION")
      case True
      with False Cons.prems have "check_step i (bootstrap st) step = Inl e"
        by (cases "check_step i (bootstrap st) step") simp_all
      then show ?thesis by (rule check_step_err)
    next
      case False
      with Cons.prems show ?thesis by (auto simp: error_explains_def)
    qed
    ultimately show ?thesis by (intro exI [of _ 0]) simp
  qed
qed simp

lemma check_trace_Cons:
  assumes "trace sc = first # rest"
  shows "check_trace sc =
    and_then (check_steps 0 (bootstrap (state_after first)) (trace sc)) (\<lambda>_. check_coverage sc)"
  using assms by (simp add: check_trace_def)

section \<open>Properties\<close>

text \<open>C35.  The replay checker is a decision procedure for conformance: it accepts a scenario iff
  one tenant state is kept through a non-empty trace of the current schema, every row label and
  every claim behind an Allow verdict is that tenant's community, no step reports a missing
  emit, and every required action occurs.\<close>

theorem check_trace_decides:
  "check_trace sc = Inr () \<longleftrightarrow> trace_conforms sc"
proof (cases "trace sc")
  case Nil
  then show ?thesis by (simp add: check_trace_def trace_conforms_def)
next
  case (Cons first rest)
  have "trace_conforms sc \<longleftrightarrow>
      (\<forall>step \<in> set (trace sc). schema_version step = SCHEMA_VERSION \<and> state_after step = state_after first \<and>
        action_conforms (resolved_community (state_after first)) (step_action step)) \<and>
      set (required_critical_actions sc) \<subseteq> (\<lambda>s. action_kind (step_action s)) ` set (trace sc)"
    using Cons by (auto simp: trace_conforms_def)
  then show ?thesis
    by (simp add: check_trace_Cons [OF Cons] and_then_Inr_iff check_steps_ok check_coverage_ok)
qed

text \<open>A rejection is diagnosed at the first fault: the trace was empty, or the error describes
  the earliest step that does not conform, at its own index, or every step conforms and the
  error lists, sorted, exactly the required actions that never occurred.\<close>

theorem check_trace_fails_fast:
  assumes "check_trace sc = Inl e"
  shows "(trace sc = [] \<and> e = CoverageBreach EmptyTrace) \<or>
    (\<exists>k < length (trace sc). (\<forall>j < k. step_conforms (state_after (hd (trace sc))) (trace sc ! j)) \<and>
       \<not> step_conforms (state_after (hd (trace sc))) (trace sc ! k) \<and>
       error_explains k (state_after (hd (trace sc))) (trace sc ! k) e) \<or>
    (\<exists>ms. e = CoverageBreach (MissingActions ms) \<and> sorted ms \<and> ms \<noteq> [] \<and>
       set ms = set (required_critical_actions sc) - (\<lambda>s. action_kind (step_action s)) ` set (trace sc) \<and>
       (\<forall>step \<in> set (trace sc). step_conforms (state_after (hd (trace sc))) step))"
proof (cases "trace sc")
  case Nil
  then show ?thesis using assms by (simp add: check_trace_def)
next
  case (Cons first rest)
  show ?thesis
  proof (cases "check_steps 0 (bootstrap (state_after first)) (trace sc)")
    case (Inl e')
    with assms Cons have "e' = e" by (simp add: check_trace_Cons)
    with check_steps_err [OF Inl] Cons show ?thesis by simp
  next
    case (Inr u)
    with assms Cons have cov: "check_coverage sc = Inl e" by (simp add: check_trace_Cons)
    have "\<forall>step \<in> set (trace sc). step_conforms (state_after first) step"
      using Inr by (simp add: check_steps_ok step_conforms_def)
    moreover have "\<exists>ms. e = CoverageBreach (MissingActions ms) \<and> sorted ms \<and> ms \<noteq> [] \<and>
       set ms = set (required_critical_actions sc) - (\<lambda>s. action_kind (step_action s)) ` set (trace sc)"
      using cov by (auto simp: check_coverage_def Let_def filter_empty_conv set_empty [symmetric]
          simp del: set_empty split: if_splits)
    ultimately show ?thesis using Cons by auto
  qed
qed

definition ex_leak :: scenario where
  "ex_leak =
     (let st = \<lparr>resolved_community = 1, bound_host = ''h'', actor = ''a''\<rparr>
      in require (unstructured [trace_step_new (AuthCheck 10 (Some 1) Allow) st,
           trace_step_new (ReadMessageRows (Some 10) [1, 2]) st]) ''write_insert'')"

lemma ex_leak_rejected: "check_trace ex_leak = Inl (NonInterference 1 (ForeignRow 2 1))"
  by code_simp

theorem check_trace_fails_fast_witness:
  "\<exists>k < length (trace ex_leak).
      \<not> step_conforms (state_after (hd (trace ex_leak))) (trace ex_leak ! k) \<and>
      error_explains k (state_after (hd (trace ex_leak))) (trace ex_leak ! k)
        (NonInterference 1 (ForeignRow 2 1))"
  using check_trace_fails_fast [OF ex_leak_rejected] by blast

end
