(* ===== verification/Audio_Room.thy ===== *)
theory Audio_Room
  imports Nostr_Events
begin

text \<open>The huddle audio rooms of crates/punks-relay/src/audio/room.rs: admission under one lock
  (index allocation, protocol pin, per-index epochs, the ended gate), ordered roster
  publication, frame fan-out and the room manager.  Bounded channels belong to a third-party
  runtime and are the fields of the parameter record \<open>chan_lib\<close>; a fresh peer id is an
  argument of the admission; the deltas handed to the roster broadcast are kept in
  \<open>roster_log\<close>, oldest first.  The manager shares rooms by reference, so it is modelled over an
  explicit store.  Integers keep their width and arithmetic on them wraps, as in a release build; a debug
  build panics where it would wrap (an assigned index of 255).\<close>

section \<open>Data\<close>

record ('a, 'c) chan_lib =
  mk_audio :: "nat \<Rightarrow> 'a"
  mk_ctrl :: "nat \<Rightarrow> 'c"
  try_send_audio :: "'a \<Rightarrow> bytes \<Rightarrow> 'a option"
  try_send_ctrl :: "'c \<Rightarrow> string \<Rightarrow> 'c option"
  drop_ctrl_rx :: "'c \<Rightarrow> 'c"

record ('a, 'c) audio_peer =
  ap_pubkey :: string
  audio_tx :: 'a
  ctrl_tx :: 'c
  peer_index :: u8
  epoch :: u8
  protocol_version :: u8

definition AUDIO_CHANNEL_CAPACITY :: nat where
  "AUDIO_CHANNEL_CAPACITY = 8"

definition CTRL_CHANNEL_CAPACITY :: nat where
  "CTRL_CHANNEL_CAPACITY = 32"

definition MAX_PEERS_PER_ROOM :: nat where
  "MAX_PEERS_PER_ROOM = 25"

record roster_peer =
  rp_pubkey :: string
  rp_peer_index :: u8
  rp_epoch :: u8

record roster_snapshot =
  sn_revision :: u64
  sn_peers :: "roster_peer list"

record roster_delta =
  rd_revision :: u64
  rd_joined :: "roster_peer option"
  rd_left :: "roster_peer option"

datatype admission_error = Ended | Full | VersionMismatch (pinned: u8) (requested: u8)

record admission_guard =
  next_candidate :: u8
  active_indices :: "u8 list"
  index_epochs :: "(u8 \<times> u8) list"
  ended :: bool
  pinned_version :: "u8 option"
  roster_revision :: u64

definition admission_guard_new :: admission_guard where
  "admission_guard_new = \<lparr>next_candidate = 0, active_indices = [], index_epochs = [], ended = False,
     pinned_version = None, roster_revision = 0\<rparr>"

definition next_index :: "u8 \<Rightarrow> u8" where
  "next_index idx = (if idx = 254 then 0 else idx + 1)"

definition next_epoch_for :: "admission_guard \<Rightarrow> u8 \<Rightarrow> admission_guard \<times> u8" where
  "next_epoch_for g idx =
     (let slot = (case map_of (index_epochs g) idx of Some e \<Rightarrow> e | None \<Rightarrow> 0)
      in (g\<lparr>index_epochs := AList.update idx (slot + 1) (index_epochs g)\<rparr>, slot))"

fun alloc_loop :: "nat \<Rightarrow> admission_guard \<Rightarrow> admission_guard \<times> (u8 \<times> u8) option" where
  "alloc_loop 0 g = (g, None)"
| "alloc_loop (Suc n) g =
     (let idx = next_candidate g;
          g1 = g\<lparr>next_candidate := next_index idx\<rparr>
      in if idx \<in> set (active_indices g1) then alloc_loop n g1
         else (let (g2, e) = next_epoch_for (g1\<lparr>active_indices := idx # active_indices g1\<rparr>) idx
               in (g2, Some (idx, e))))"

definition alloc :: "admission_guard \<Rightarrow> admission_guard \<times> (u8 \<times> u8) option" where
  "alloc g = alloc_loop 255 g"

record ('a, 'c) room =
  r_community_id :: community_id
  r_channel_id :: channel_id
  peers :: "(uuid \<times> ('a, 'c) audio_peer) list"
  guard_of :: admission_guard
  poisoned :: bool
  roster_log :: "roster_delta list"

definition room_new :: "community_id \<Rightarrow> channel_id \<Rightarrow> ('a, 'c) room" where
  "room_new com ch = \<lparr>r_community_id = com, r_channel_id = ch, peers = [],
     guard_of = admission_guard_new, poisoned = False, roster_log = []\<rparr>"

section \<open>Admission and removal\<close>

definition mark_ended :: "('a, 'c) room \<Rightarrow> ('a, 'c) room \<times> bool" where
  "mark_ended r =
     (if poisoned r then (r, False)
      else (r\<lparr>guard_of := (guard_of r)\<lparr>ended := True\<rparr>\<rparr>, peers r = []))"

definition clear_ended :: "('a, 'c) room \<Rightarrow> ('a, 'c) room" where
  "clear_ended r = (if poisoned r then r else r\<lparr>guard_of := (guard_of r)\<lparr>ended := False\<rparr>\<rparr>)"

definition publish :: "roster_delta \<Rightarrow> ('a, 'c) room \<Rightarrow> ('a, 'c) room" where
  "publish d r = r\<lparr>roster_log := roster_log r @ [d]\<rparr>"

definition roster_peer_of :: "('a, 'c) audio_peer \<Rightarrow> roster_peer" where
  "roster_peer_of p = \<lparr>rp_pubkey = ap_pubkey p, rp_peer_index = peer_index p, rp_epoch = epoch p\<rparr>"

definition version_check :: "admission_guard \<Rightarrow> u8 \<Rightarrow> (admission_error, unit) result" where
  "version_check g v =
     (case pinned_version g of
        Some p \<Rightarrow> guard (p = v) (VersionMismatch p v)
      | None \<Rightarrow> Inr ())"

definition pin_version :: "u8 \<Rightarrow> admission_guard \<Rightarrow> admission_guard" where
  "pin_version v g =
     (case pinned_version g of Some _ \<Rightarrow> g | None \<Rightarrow> g\<lparr>pinned_version := Some v\<rparr>)"

definition insert_peer ::
  "('a, 'c) chan_lib \<Rightarrow> ('a, 'c) room \<Rightarrow> admission_guard \<Rightarrow> uuid \<Rightarrow> string \<Rightarrow> u8 \<Rightarrow> u8 \<Rightarrow> u8 \<Rightarrow>
     ('a, 'c) room \<times> u64" where
  "insert_peer lib r g pid pubkey v idx ep =
     (let p = \<lparr>ap_pubkey = pubkey, audio_tx = mk_audio lib AUDIO_CHANNEL_CAPACITY,
                ctrl_tx = mk_ctrl lib CTRL_CHANNEL_CAPACITY, peer_index = idx, epoch = ep,
                protocol_version = v\<rparr>;
          revision = roster_revision g + 1;
          delta = \<lparr>rd_revision = revision, rd_joined = Some (roster_peer_of p), rd_left = None\<rparr>
      in (publish delta (r\<lparr>peers := AList.update pid p (peers r),
                           guard_of := g\<lparr>roster_revision := revision\<rparr>\<rparr>), revision))"

definition add_peer ::
  "('a, 'c) chan_lib \<Rightarrow> ('a, 'c) room \<Rightarrow> uuid \<Rightarrow> string \<Rightarrow> u8 \<Rightarrow>
     ('a, 'c) room \<times> (admission_error, uuid \<times> u8 \<times> u8 \<times> u64) result" where
  "add_peer lib r pid pubkey v =
     (let g = guard_of r in
      if poisoned r then (r, Inl Ended)
      else if ended g then (r, Inl Ended)
      else if length (peers r) \<ge> MAX_PEERS_PER_ROOM then (r, Inl Full)
      else case version_check g v of
        Inl e \<Rightarrow> (r, Inl e)
      | Inr _ \<Rightarrow>
          (case alloc g of
             (g1, None) \<Rightarrow> (r\<lparr>guard_of := g1\<rparr>, Inl Full)
           | (g1, Some (idx, ep)) \<Rightarrow>
               (let (r', revision) = insert_peer lib r (pin_version v g1) pid pubkey v idx ep
                in (r', Inr (pid, idx, ep, revision)))))"

definition add_peer_at_index ::
  "('a, 'c) chan_lib \<Rightarrow> ('a, 'c) room \<Rightarrow> uuid \<Rightarrow> string \<Rightarrow> u8 \<Rightarrow> u8 \<Rightarrow>
     ('a, 'c) room \<times> (admission_error, uuid \<times> u8 \<times> u64) result" where
  "add_peer_at_index lib r pid pubkey v idx =
     (let g = guard_of r in
      if poisoned r then (r, Inl Ended)
      else if ended g then (r, Inl Ended)
      else if length (peers r) \<ge> MAX_PEERS_PER_ROOM \<or> idx \<in> set (active_indices g) then (r, Inl Full)
      else case version_check g v of
        Inl e \<Rightarrow> (r, Inl e)
      | Inr _ \<Rightarrow>
          (let g1 = pin_version v g;
               (g2, ep) = next_epoch_for (g1\<lparr>active_indices := idx # active_indices g1\<rparr>) idx;
               g3 = g2\<lparr>next_candidate := next_index idx\<rparr>;
               (r', revision) = insert_peer lib r g3 pid pubkey v idx ep
           in (r', Inr (pid, ep, revision))))"

definition release_peer ::
  "('a, 'c) room \<Rightarrow> uuid \<Rightarrow> ('a, 'c) audio_peer \<Rightarrow> ('a, 'c) room \<times> roster_delta" where
  "release_peer r pid p =
     (let g = guard_of r;
          revision = roster_revision g + 1;
          delta = \<lparr>rd_revision = revision, rd_joined = None, rd_left = Some (roster_peer_of p)\<rparr>
      in (r\<lparr>peers := AList.delete pid (peers r),
            guard_of := g\<lparr>active_indices := removeAll (peer_index p) (active_indices g),
                          roster_revision := revision\<rparr>\<rparr>, delta))"

definition remove_peer :: "('a, 'c) room \<Rightarrow> uuid \<Rightarrow> ('a, 'c) room \<times> roster_delta option" where
  "remove_peer r pid =
     (if poisoned r then (r, None)
      else case map_of (peers r) pid of
        None \<Rightarrow> (r, None)
      | Some p \<Rightarrow> (let (r', delta) = release_peer r pid p in (publish delta r', Some delta)))"

definition remove_peer_and_check_ended ::
  "('a, 'c) room \<Rightarrow> uuid \<Rightarrow> ('a, 'c) room \<times> (roster_delta \<times> bool) option" where
  "remove_peer_and_check_ended r pid =
     (if poisoned r then (r, None)
      else case map_of (peers r) pid of
        None \<Rightarrow> (r, None)
      | Some p \<Rightarrow>
          (let (r', delta) = release_peer r pid p;
               should_end = (\<not> ended (guard_of r') \<and> peers r' = []);
               r'' = (if should_end then r'\<lparr>guard_of := (guard_of r')\<lparr>ended := True\<rparr>\<rparr> else r')
           in (publish delta r'', Some (delta, should_end))))"

section \<open>Fan-out\<close>

definition send_audio :: "('a, 'c) chan_lib \<Rightarrow> bytes \<Rightarrow> ('a, 'c) audio_peer \<Rightarrow> ('a, 'c) audio_peer" where
  "send_audio lib f p =
     (case try_send_audio lib (audio_tx p) f of Some q \<Rightarrow> p\<lparr>audio_tx := q\<rparr> | None \<Rightarrow> p)"

definition frame_prefix :: "('a, 'c) audio_peer \<Rightarrow> bytes" where
  "frame_prefix p = (if protocol_version p \<ge> 3 then [peer_index p, epoch p] else [peer_index p])"

definition broadcast_frame :: "('a, 'c) chan_lib \<Rightarrow> ('a, 'c) room \<Rightarrow> uuid \<Rightarrow> bytes \<Rightarrow> ('a, 'c) room" where
  "broadcast_frame lib r sender frame =
     (case map_of (peers r) sender of
        None \<Rightarrow> r
      | Some s \<Rightarrow> r\<lparr>peers := map (\<lambda>(pid, p).
            (pid, if pid = sender then p else send_audio lib (frame_prefix s @ frame) p)) (peers r)\<rparr>)"

definition deliver_prefixed :: "('a, 'c) chan_lib \<Rightarrow> ('a, 'c) room \<Rightarrow> u8 \<Rightarrow> bytes \<Rightarrow> ('a, 'c) room" where
  "deliver_prefixed lib r author prefixed =
     r\<lparr>peers := map (\<lambda>(pid, p).
        (pid, if peer_index p = author then p else send_audio lib prefixed p)) (peers r)\<rparr>"

definition broadcast_control :: "('a, 'c) chan_lib \<Rightarrow> ('a, 'c) room \<Rightarrow> string \<Rightarrow> ('a, 'c) room" where
  "broadcast_control lib r json =
     r\<lparr>peers := map (\<lambda>(pid, p).
        (pid, case try_send_ctrl lib (ctrl_tx p) json of
                Some q \<Rightarrow> p\<lparr>ctrl_tx := q\<rparr>
              | None \<Rightarrow> p\<lparr>ctrl_tx := drop_ctrl_rx lib (mk_ctrl lib 1)\<rparr>)) (peers r)\<rparr>"

definition roster_snapshot_of :: "('a, 'c) room \<Rightarrow> roster_snapshot" where
  "roster_snapshot_of r =
     \<lparr>sn_revision = roster_revision (guard_of r),
      sn_peers = sort_key rp_peer_index (map (\<lambda>(pid, p). roster_peer_of p) (peers r))\<rparr>"

definition peer_pubkeys :: "('a, 'c) room \<Rightarrow> (string \<times> u8) list" where
  "peer_pubkeys r = map (\<lambda>(pid, p). (ap_pubkey p, peer_index p)) (peers r)"

definition room_is_empty :: "('a, 'c) room \<Rightarrow> bool" where
  "room_is_empty r = (peers r = [])"

section \<open>Room manager\<close>

text \<open>\<open>rooms\<close> maps a community-local channel to the address of its shared room, \<open>heap\<close> is the
  store the references point into and \<open>next_addr\<close> its next free address.\<close>

type_synonym room_ref = nat

record ('a, 'c) room_manager =
  rooms :: "((community_id \<times> channel_id) \<times> room_ref) list"
  heap :: "(room_ref \<times> ('a, 'c) room) list"
  next_addr :: room_ref

definition room_manager_new :: "('a, 'c) room_manager" where
  "room_manager_new = \<lparr>rooms = [], heap = [], next_addr = 0\<rparr>"

definition get_or_create ::
  "('a, 'c) room_manager \<Rightarrow> community_id \<Rightarrow> channel_id \<Rightarrow> ('a, 'c) room_manager \<times> room_ref" where
  "get_or_create m com ch =
     (case map_of (rooms m) (com, ch) of
        Some a \<Rightarrow> (m, a)
      | None \<Rightarrow> (m\<lparr>rooms := AList.update (com, ch) (next_addr m) (rooms m),
                    heap := AList.update (next_addr m) (room_new com ch) (heap m),
                    next_addr := Suc (next_addr m)\<rparr>, next_addr m))"

definition get_room :: "('a, 'c) room_manager \<Rightarrow> community_id \<Rightarrow> channel_id \<Rightarrow> room_ref option" where
  "get_room m com ch = map_of (rooms m) (com, ch)"

definition get_unambiguous_by_channel :: "('a, 'c) room_manager \<Rightarrow> channel_id \<Rightarrow> room_ref option" where
  "get_unambiguous_by_channel m ch =
     (case filter (\<lambda>((com, ch'), a). ch' = ch) (rooms m) of
        [] \<Rightarrow> None
      | [(k, a)] \<Rightarrow> Some a
      | _ \<Rightarrow> None)"

definition cleanup_if_empty ::
  "('a, 'c) room_manager \<Rightarrow> community_id \<Rightarrow> channel_id \<Rightarrow> ('a, 'c) room_manager \<times> bool" where
  "cleanup_if_empty m com ch =
     (case map_of (rooms m) (com, ch) of
        None \<Rightarrow> (m, False)
      | Some a \<Rightarrow>
          (case map_of (heap m) a of
             Some r \<Rightarrow> if room_is_empty r then (m\<lparr>rooms := AList.delete (com, ch) (rooms m)\<rparr>, True)
                       else (m, False)
           | None \<Rightarrow> (m, False)))"

definition update_room :: "('a, 'c) room_manager \<Rightarrow> room_ref \<Rightarrow> ('a, 'c) room \<Rightarrow> ('a, 'c) room_manager" where
  "update_room m a r = m\<lparr>heap := AList.update a r (heap m)\<rparr>"

end
