(* ===== verification/Audio_Room_Safety.thy ===== *)
theory Audio_Room_Safety
  imports Audio_Room
begin

text \<open>What the audio rooms promise, over every sequence of operations: routing indexes identify
  at most one connected peer, the participant cap and the protocol pin hold, index allocation
  never fails below the cap, the published roster deltas replay to the roster snapshot with
  consecutive revisions, the epochs of an index count its occupants modulo 256, the auto-end
  decision is taken once, and rooms of different communities are never shared.\<close>

section \<open>Index allocation\<close>

definition epoch_slot :: "admission_guard \<Rightarrow> u8 \<Rightarrow> u8" where
  "epoch_slot g idx = (case map_of (index_epochs g) idx of Some e \<Rightarrow> e | None \<Rightarrow> 0)"

definition occupy :: "u8 \<Rightarrow> admission_guard \<Rightarrow> admission_guard" where
  "occupy idx g = g\<lparr>next_candidate := next_index idx, active_indices := idx # active_indices g,
     index_epochs := AList.update idx (epoch_slot g idx + 1) (index_epochs g)\<rparr>"

lemma occupy_simps [simp]:
  "next_candidate (occupy idx g) = next_index idx"
  "active_indices (occupy idx g) = idx # active_indices g"
  "ended (occupy idx g) = ended g"
  "pinned_version (occupy idx g) = pinned_version g"
  "roster_revision (occupy idx g) = roster_revision g"
  "epoch_slot (occupy idx g) i = (if i = idx then epoch_slot g idx + 1 else epoch_slot g i)"
  by (simp_all add: occupy_def epoch_slot_def)

lemma alloc_loop_Some:
  "alloc_loop n g = (g', Some (idx, ep)) \<Longrightarrow>
     idx \<notin> set (active_indices g) \<and> ep = epoch_slot g idx \<and> g' = occupy idx g"
proof (induction n arbitrary: g)
  case (Suc n)
  show ?case
  proof (cases "next_candidate g \<in> set (active_indices g)")
    case True
    then show ?thesis
      using Suc.IH [of "g\<lparr>next_candidate := next_index (next_candidate g)\<rparr>"] Suc.prems
      by (simp add: Let_def occupy_def epoch_slot_def)
  next
    case False
    then show ?thesis using Suc.prems
      by (auto simp: Let_def occupy_def epoch_slot_def next_epoch_for_def)
  qed
qed simp

lemma alloc_loop_None:
  "alloc_loop n g = (g', None) \<Longrightarrow>
     (\<forall>k < n. (next_index ^^ k) (next_candidate g) \<in> set (active_indices g))"
proof (induction n arbitrary: g)
  case (Suc n)
  have cand: "next_candidate g \<in> set (active_indices g)"
    using Suc.prems by (auto simp: Let_def split: if_splits prod.splits)
  then have "alloc_loop n (g\<lparr>next_candidate := next_index (next_candidate g)\<rparr>) = (g', None)"
    using Suc.prems by (simp add: Let_def)
  from Suc.IH [OF this] cand show ?case
    by (auto simp: less_Suc_eq_0_disj funpow_swap1 simp del: funpow.simps)
       (metis comp_apply funpow_Suc_right)
qed simp

lemma mod_add_left_le:
  fixes a i j n :: nat
  assumes "(a + i) mod n = (a + j) mod n" and "i \<le> j" and "j < n"
  shows "i = j"
proof -
  have "n dvd (a + j) - (a + i)"
    using mod_eq_dvd_iff_nat [of "a + i" "a + j" n] assms(1,2) by simp
  then have "n dvd j - i" by simp
  then have "\<not> 0 < j - i" using assms(3) nat_dvd_not_less [of "j - i" n] by linarith
  then show ?thesis using assms(2) by simp
qed

lemma mod_add_left_inj:
  fixes a i j n :: nat
  assumes "(a + i) mod n = (a + j) mod n" and "i < n" and "j < n"
  shows "i = j"
  using mod_add_left_le [of a i n j] mod_add_left_le [of a j n i] assms
  by (cases "i \<le> j") simp_all

lemma unat_u8_ne: "c \<noteq> numeral n \<Longrightarrow> unat (numeral n :: u8) = numeral n \<Longrightarrow> unat (c :: u8) \<noteq> numeral n"
  by (metis word_eq_iff_unsigned)

lemma next_index_not_255 [simp]: "next_index c \<noteq> 255"
proof -
  have "c + 1 = (255 :: u8) \<longleftrightarrow> c = 255 - 1" by (simp only: eq_diff_eq)
  then show ?thesis by (simp add: next_index_def)
qed

lemma unat_next_index:
  assumes "c \<noteq> 255"
  shows "unat (next_index c) = (unat c + 1) mod 255"
proof (cases "c = 254")
  case False
  have "unat c + 1 < 255"
    using unat_u8 [of c] unat_u8_ne [OF assms] unat_u8_ne [OF False] by simp
  moreover from this have "unat (c + 1) = unat c + 1" by (simp add: unat_word_ariths)
  ultimately show ?thesis using False by (simp add: next_index_def)
qed (simp add: next_index_def)

lemma funpow_next_index:
  assumes "c \<noteq> 255"
  shows "(next_index ^^ k) c \<noteq> 255 \<and> unat ((next_index ^^ k) c) = (unat c + k) mod 255"
proof (induction k)
  case 0
  show ?case using assms unat_u8 [of c] unat_u8_ne [OF assms] by simp
next
  case (Suc k)
  then show ?case by (simp add: unat_next_index mod_Suc_eq)
qed

lemma alloc_succeeds:
  assumes "next_candidate g \<noteq> 255" and "card (set (active_indices g)) < 255"
  shows "\<exists>g' idx ep. alloc g = (g', Some (idx, ep))"
proof (rule ccontr)
  assume "\<not> ?thesis"
  then obtain g' where "alloc_loop 255 g = (g', None)"
    by (metis alloc_def not_None_eq prod.exhaust)
  from alloc_loop_None [OF this]
  have sub: "(\<lambda>k. (next_index ^^ k) (next_candidate g)) ` {..<255} \<subseteq> set (active_indices g)" by auto
  have "inj_on (\<lambda>k. (next_index ^^ k) (next_candidate g)) {..<255}"
  proof (rule inj_onI)
    fix i j :: nat
    assume "i \<in> {..<255}" "j \<in> {..<255}"
      and "(next_index ^^ i) (next_candidate g) = (next_index ^^ j) (next_candidate g)"
    then have "(unat (next_candidate g) + i) mod 255 = (unat (next_candidate g) + j) mod 255"
      using funpow_next_index [OF assms(1)] by metis
    with \<open>i \<in> _\<close> \<open>j \<in> _\<close> show "i = j"
      by (auto intro: mod_add_left_inj)
  qed
  then have "card ((\<lambda>k. (next_index ^^ k) (next_candidate g)) ` {..<255}) = 255"
    by (simp add: card_image)
  with card_mono [OF _ sub] assms(2) show False by simp
qed


lemma alloc_Some:
  assumes "alloc g = (g', Some (idx, ep))"
  shows "idx \<notin> set (active_indices g)" and "ep = epoch_slot g idx" and "g' = occupy idx g"
  using alloc_loop_Some assms unfolding alloc_def by blast+

section \<open>The room invariant\<close>

definition peer_indices :: "('a, 'c) room \<Rightarrow> u8 list" where
  "peer_indices r = map (peer_index \<circ> snd) (peers r)"

definition room_inv :: "('a, 'c) room \<Rightarrow> bool" where
  "room_inv r \<longleftrightarrow> distinct (map fst (peers r)) \<and> distinct (peer_indices r) \<and>
     set (active_indices (guard_of r)) = set (peer_indices r) \<and>
     length (peers r) \<le> MAX_PEERS_PER_ROOM \<and>
     (\<forall>(pid, p) \<in> set (peers r). pinned_version (guard_of r) = Some (protocol_version p)) \<and>
     next_candidate (guard_of r) \<noteq> 255"

lemma room_inv_alloc:
  assumes "room_inv r"
  shows "\<exists>g' idx ep. alloc (guard_of r) = (g', Some (idx, ep))"
proof (rule alloc_succeeds)
  have "card (set (peer_indices r)) \<le> length (peers r)"
    using card_length [of "peer_indices r"] by (simp add: peer_indices_def)
  with assms show "card (set (active_indices (guard_of r))) < 255"
    by (simp add: room_inv_def MAX_PEERS_PER_ROOM_def)
qed (use assms in \<open>simp add: room_inv_def\<close>)

text \<open>Admission factors through one step: the guard that occupied the index, the pin and the
  roster publication.\<close>

definition admit ::
  "('a, 'c) chan_lib \<Rightarrow> ('a, 'c) room \<Rightarrow> uuid \<Rightarrow> string \<Rightarrow> u8 \<Rightarrow> u8 \<Rightarrow> ('a, 'c) room" where
  "admit lib r pid pubkey v idx =
     fst (insert_peer lib r (pin_version v (occupy idx (guard_of r))) pid pubkey v idx
       (epoch_slot (guard_of r) idx))"

lemma occupy_pin_version: "occupy idx (pin_version v g) = pin_version v (occupy idx g)"
  by (auto simp: pin_version_def occupy_def epoch_slot_def split: option.splits)

lemma version_check_ok: "version_check g v = Inr () \<longleftrightarrow> pinned_version g \<in> {None, Some v}"
  by (auto simp: version_check_def guard_def split: option.splits)

definition admissible :: "('a, 'c) room \<Rightarrow> u8 \<Rightarrow> bool" where
  "admissible r v \<longleftrightarrow> \<not> poisoned r \<and> \<not> ended (guard_of r) \<and> length (peers r) < MAX_PEERS_PER_ROOM \<and>
     pinned_version (guard_of r) \<in> {None, Some v}"

lemma insert_peer_revision:
  "snd (insert_peer lib r g pid pubkey v idx ep) = roster_revision g + 1"
  by (simp add: insert_peer_def Let_def)

lemma pin_version_simps [simp]:
  "roster_revision (pin_version v g) = roster_revision g"
  "active_indices (pin_version v g) = active_indices g"
  "next_candidate (pin_version v g) = next_candidate g"
  "index_epochs (pin_version v g) = index_epochs g"
  "ended (pin_version v g) = ended g"
  "pinned_version (pin_version v g) = Some (case pinned_version g of Some p \<Rightarrow> p | None \<Rightarrow> v)"
  by (auto simp: pin_version_def split: option.splits)

lemma epoch_slot_pin [simp]: "epoch_slot (pin_version v g) i = epoch_slot g i"
  by (simp add: epoch_slot_def)

lemma add_peer_admissible:
  assumes "room_inv r" and "admissible r v"
  shows "\<exists>idx. idx \<notin> set (active_indices (guard_of r)) \<and>
    add_peer lib r pid pubkey v = (admit lib r pid pubkey v idx,
      Inr (pid, idx, epoch_slot (guard_of r) idx, roster_revision (guard_of r) + 1))"
proof -
  from room_inv_alloc [OF assms(1)] obtain g' idx ep where a: "alloc (guard_of r) = (g', Some (idx, ep))"
    by blast
  have "version_check (guard_of r) v = Inr ()" using assms(2) by (simp add: version_check_ok admissible_def)
  with assms(2) a alloc_Some [OF a] show ?thesis
    by (intro exI [of _ idx])
       (auto simp: add_peer_def admissible_def Let_def admit_def insert_peer_revision split: prod.splits
          dest: arg_cong [where f = snd])
qed

lemma add_peer_inadmissible:
  assumes "room_inv r" and "\<not> admissible r v"
  shows "add_peer lib r pid pubkey v =
    (r, Inl (if poisoned r \<or> ended (guard_of r) then Ended
             else if length (peers r) \<ge> MAX_PEERS_PER_ROOM then Full
             else VersionMismatch (the (pinned_version (guard_of r))) v))"
  using assms by (auto simp: add_peer_def admissible_def Let_def version_check_def guard_def
      split: option.splits)

lemma next_epoch_for_occupy:
  "(fst (next_epoch_for (g\<lparr>active_indices := idx # active_indices g\<rparr>) idx))\<lparr>next_candidate := next_index idx\<rparr> =
     occupy idx g"
  "snd (next_epoch_for (g\<lparr>active_indices := idx # active_indices g\<rparr>) idx) = epoch_slot g idx"
  by (cases g, simp add: next_epoch_for_def occupy_def epoch_slot_def Let_def)+

lemma add_peer_at_index_admissible:
  assumes "admissible r v" and "idx \<notin> set (active_indices (guard_of r))"
  shows "add_peer_at_index lib r pid pubkey v idx = (admit lib r pid pubkey v idx,
      Inr (pid, epoch_slot (guard_of r) idx, roster_revision (guard_of r) + 1))"
proof -
  have vc: "version_check (guard_of r) v = Inr ()"
    using assms(1) by (simp add: version_check_ok admissible_def)
  have "insert_peer lib r (pin_version v (occupy idx (guard_of r))) pid pubkey v idx
      (epoch_slot (guard_of r) idx) = (admit lib r pid pubkey v idx, roster_revision (guard_of r) + 1)"
    by (simp add: prod_eq_iff admit_def insert_peer_revision)
  with vc assms show ?thesis
    by (simp add: add_peer_at_index_def admissible_def Let_def case_prod_beta next_epoch_for_occupy
        occupy_pin_version)
qed

lemma add_peer_at_index_inadmissible:
  assumes "\<not> admissible r v \<or> idx \<in> set (active_indices (guard_of r))"
  shows "\<exists>e. add_peer_at_index lib r pid pubkey v idx = (r, Inl e)"
  using assms by (auto simp: add_peer_at_index_def admissible_def Let_def version_check_def guard_def
      split: option.splits)


section \<open>History of a room\<close>

text \<open>What a receiver of the roster broadcast computes, and the joins of one routing index.\<close>

definition replay_delta :: "roster_delta \<Rightarrow> roster_peer set \<Rightarrow> roster_peer set" where
  "replay_delta d S = (S - set_option (rd_left d)) \<union> set_option (rd_joined d)"

definition replay :: "roster_delta list \<Rightarrow> roster_peer set" where
  "replay ds = fold replay_delta ds {}"

definition joins :: "u8 \<Rightarrow> roster_delta list \<Rightarrow> roster_peer list" where
  "joins idx ds = filter (\<lambda>p. rp_peer_index p = idx) (List.map_filter rd_joined ds)"

lemma replay_snoc [simp]: "replay (ds @ [d]) = replay_delta d (replay ds)"
  by (simp add: replay_def)

lemma joins_snoc [simp]:
  "joins idx (ds @ [d]) = joins idx ds @ filter (\<lambda>p. rp_peer_index p = idx) (case rd_joined d of Some p \<Rightarrow> [p] | None \<Rightarrow> [])"
  by (simp add: joins_def List.map_filter_def split: option.splits)

definition roster_set :: "('a, 'c) room \<Rightarrow> roster_peer set" where
  "roster_set r = (roster_peer_of \<circ> snd) ` set (peers r)"

definition hist_inv :: "('a, 'c) room \<Rightarrow> bool" where
  "hist_inv r \<longleftrightarrow> replay (roster_log r) = roster_set r \<and>
     map rd_revision (roster_log r) = map (\<lambda>i. of_nat (Suc i)) [0..<length (roster_log r)] \<and>
     roster_revision (guard_of r) = of_nat (length (roster_log r)) \<and>
     (\<forall>idx. map rp_epoch (joins idx (roster_log r)) = map of_nat [0..<length (joins idx (roster_log r))] \<and>
        epoch_slot (guard_of r) idx = of_nat (length (joins idx (roster_log r))))"

lemma alist_update_fresh: "k \<notin> fst ` set xs \<Longrightarrow> AList.update k v xs = xs @ [(k, v)]"
  by (induction xs) auto

definition admitted_peer :: "('a, 'c) chan_lib \<Rightarrow> string \<Rightarrow> u8 \<Rightarrow> u8 \<Rightarrow> u8 \<Rightarrow> ('a, 'c) audio_peer" where
  "admitted_peer lib pubkey v idx ep = \<lparr>ap_pubkey = pubkey, audio_tx = mk_audio lib AUDIO_CHANNEL_CAPACITY,
     ctrl_tx = mk_ctrl lib CTRL_CHANNEL_CAPACITY, peer_index = idx, epoch = ep, protocol_version = v\<rparr>"

lemma admitted_peer_simps [simp]:
  "peer_index (admitted_peer lib pubkey v idx ep) = idx"
  "epoch (admitted_peer lib pubkey v idx ep) = ep"
  "protocol_version (admitted_peer lib pubkey v idx ep) = v"
  "ap_pubkey (admitted_peer lib pubkey v idx ep) = pubkey"
  by (simp_all add: admitted_peer_def)

lemma admit_simps:
  assumes "pid \<notin> fst ` set (peers r)"
  shows "peers (admit lib r pid pubkey v idx) =
      peers r @ [(pid, admitted_peer lib pubkey v idx (epoch_slot (guard_of r) idx))]"
    and "guard_of (admit lib r pid pubkey v idx) =
      (pin_version v (occupy idx (guard_of r)))\<lparr>roster_revision := roster_revision (guard_of r) + 1\<rparr>"
    and "roster_log (admit lib r pid pubkey v idx) = roster_log r @
      [\<lparr>rd_revision = roster_revision (guard_of r) + 1,
        rd_joined = Some (roster_peer_of (admitted_peer lib pubkey v idx (epoch_slot (guard_of r) idx))),
        rd_left = None\<rparr>]"
    and "poisoned (admit lib r pid pubkey v idx) = poisoned r"
  using assms
  by (simp_all add: admit_def insert_peer_def Let_def publish_def alist_update_fresh admitted_peer_def)

lemma epoch_slot_revision [simp]: "epoch_slot (g\<lparr>roster_revision := x\<rparr>) i = epoch_slot g i"
  by (simp add: epoch_slot_def)

lemma room_inv_admit:
  assumes "room_inv r" "admissible r v" "idx \<notin> set (active_indices (guard_of r))"
    and "pid \<notin> fst ` set (peers r)"
  shows "room_inv (admit lib r pid pubkey v idx)"
  using assms
  by (auto simp: room_inv_def admissible_def admit_simps peer_indices_def split: option.splits)

lemma hist_inv_admit:
  assumes "hist_inv r" "pid \<notin> fst ` set (peers r)"
  shows "hist_inv (admit lib r pid pubkey v idx)"
  using assms
  by (auto simp: hist_inv_def admit_simps replay_delta_def roster_set_def roster_peer_of_def add.commute)

lemma release_peer_simps:
  assumes "release_peer r pid p = (r', d)"
  shows "peers r' = filter (\<lambda>(k, _). k \<noteq> pid) (peers r)"
    and "guard_of r' = (guard_of r)\<lparr>active_indices := removeAll (peer_index p) (active_indices (guard_of r)),
           roster_revision := roster_revision (guard_of r) + 1\<rparr>"
    and "d = \<lparr>rd_revision = roster_revision (guard_of r) + 1, rd_joined = None, rd_left = Some (roster_peer_of p)\<rparr>"
    and "roster_log r' = roster_log r" and "poisoned r' = poisoned r"
  using assms by (auto simp: release_peer_def Let_def AList.delete_eq case_prod_beta intro!: filter_cong)

lemma room_inv_key:
  assumes "room_inv r" "q \<in> set (peers r)" "q' \<in> set (peers r)"
  shows "fst q = fst q' \<longleftrightarrow> q = q'" and "peer_index (snd q) = peer_index (snd q') \<longleftrightarrow> q = q'"
proof -
  have "inj_on fst (set (peers r))" and "inj_on (peer_index \<circ> snd) (set (peers r))"
    using assms(1) by (simp_all add: room_inv_def peer_indices_def distinct_map)
  then show "fst q = fst q' \<longleftrightarrow> q = q'" and "peer_index (snd q) = peer_index (snd q') \<longleftrightarrow> q = q'"
    using assms(2,3) by (auto simp: inj_on_def)
qed

lemma peers_filter_key:
  assumes inv: "room_inv r" and mem: "(pid, p) \<in> set (peers r)"
  shows "set (filter (\<lambda>(k, _). k \<noteq> pid) (peers r)) = set (peers r) - {(pid, p)}"
  using room_inv_key(1) [OF inv mem] by fastforce

lemma distinct_map_filter: "distinct (map f xs) \<Longrightarrow> distinct (map f (filter P xs))"
  by (simp add: distinct_map inj_on_def)

lemma room_inv_release:
  assumes inv: "room_inv r" and p: "map_of (peers r) pid = Some p" and rel: "release_peer r pid p = (r', d)"
  shows "room_inv r'"
proof -
  note rs = release_peer_simps [OF rel]
  have mem: "(pid, p) \<in> set (peers r)" using p by (rule map_of_SomeD)
  have "(peer_index \<circ> snd) ` (set (peers r) - {(pid, p)}) = (peer_index \<circ> snd) ` set (peers r) - {peer_index p}"
    using room_inv_key(2) [OF inv mem] by fastforce
  then have "set (active_indices (guard_of r')) = set (peer_indices r')"
    using inv by (simp add: rs peer_indices_def room_inv_def peers_filter_key [OF inv mem] del: set_filter)
  moreover have "\<forall>(pid, p) \<in> set (peers r'). pinned_version (guard_of r') = Some (protocol_version p)"
    using inv by (auto simp: room_inv_def rs)
  moreover have "length (peers r') \<le> MAX_PEERS_PER_ROOM"
    using inv by (simp add: room_inv_def rs le_trans [OF length_filter_le])
  ultimately show ?thesis using inv
    by (simp add: room_inv_def rs peer_indices_def distinct_map_filter)
qed

lemma hist_inv_release:
  assumes inv: "room_inv r" "hist_inv r" and p: "map_of (peers r) pid = Some p"
    and rel: "release_peer r pid p = (r', d)"
  shows "hist_inv (publish d r')"
proof -
  note rs = release_peer_simps [OF rel]
  have mem: "(pid, p) \<in> set (peers r)" using p by (rule map_of_SomeD)
  have "roster_peer_of (snd q) = roster_peer_of p \<longleftrightarrow> q = (pid, p)" if "q \<in> set (peers r)" for q
    using room_inv_key(2) [OF inv(1) that mem] by (auto simp: roster_peer_of_def)
  then have "(roster_peer_of \<circ> snd) ` (set (peers r) - {(pid, p)}) =
      (roster_peer_of \<circ> snd) ` set (peers r) - {roster_peer_of p}" by fastforce
  then have "roster_set r' = roster_set r - {roster_peer_of p}"
    by (simp add: roster_set_def rs peers_filter_key [OF inv(1) mem] del: set_filter)
  then show ?thesis using inv(2)
    by (auto simp: hist_inv_def publish_def rs replay_delta_def roster_set_def epoch_slot_def add.commute)
qed


text \<open>Operations that only touch the peers' queues keep everything the invariants mention.\<close>

definition same_roster :: "('a, 'c) room \<Rightarrow> ('a, 'c) room \<Rightarrow> bool" where
  "same_roster r r' \<longleftrightarrow> guard_of r' = guard_of r \<and> roster_log r' = roster_log r \<and>
     map fst (peers r') = map fst (peers r) \<and>
     map (roster_peer_of \<circ> snd) (peers r') = map (roster_peer_of \<circ> snd) (peers r) \<and>
     map (protocol_version \<circ> snd) (peers r') = map (protocol_version \<circ> snd) (peers r)"

lemma peer_index_roster: "peer_index \<circ> snd = rp_peer_index \<circ> (roster_peer_of \<circ> snd)"
  by (auto simp: roster_peer_of_def)

lemma room_inv_alt:
  "room_inv r \<longleftrightarrow> distinct (map fst (peers r)) \<and>
     distinct (map rp_peer_index (map (roster_peer_of \<circ> snd) (peers r))) \<and>
     set (active_indices (guard_of r)) = set (map rp_peer_index (map (roster_peer_of \<circ> snd) (peers r))) \<and>
     length (map fst (peers r)) \<le> MAX_PEERS_PER_ROOM \<and>
     (\<forall>v \<in> set (map (protocol_version \<circ> snd) (peers r)). pinned_version (guard_of r) = Some v) \<and>
     next_candidate (guard_of r) \<noteq> 255"
  by (auto simp: room_inv_def peer_indices_def peer_index_roster)

lemma same_roster_inv:
  fixes r r' :: "('a, 'c) room"
  assumes "same_roster r r'"
  shows "room_inv r' \<longleftrightarrow> room_inv r" and "hist_inv r' \<longleftrightarrow> hist_inv r"
proof -
  show "room_inv r' \<longleftrightarrow> room_inv r"
    using assms by (simp only: room_inv_alt same_roster_def)
  have "roster_set x = set (map (roster_peer_of \<circ> snd) (peers x))" for x :: "('a, 'c) room"
    by (simp add: roster_set_def)
  then show "hist_inv r' \<longleftrightarrow> hist_inv r"
    using assms by (simp only: hist_inv_def same_roster_def)
qed

lemma send_audio_same [simp]:
  "roster_peer_of (send_audio lib f p) = roster_peer_of p"
  "protocol_version (send_audio lib f p) = protocol_version p"
  by (simp_all add: send_audio_def roster_peer_of_def split: option.splits)

lemma same_roster_broadcast: "same_roster r (broadcast_frame lib r s f)"
  by (auto simp: same_roster_def broadcast_frame_def split: option.splits)

lemma same_roster_deliver: "same_roster r (deliver_prefixed lib r i f)"
  by (auto simp: same_roster_def deliver_prefixed_def)

lemma same_roster_control: "same_roster r (broadcast_control lib r j)"
  by (auto simp: same_roster_def broadcast_control_def roster_peer_of_def split: option.splits)

lemma ended_flag_inv:
  "room_inv (r\<lparr>guard_of := (guard_of r)\<lparr>ended := b\<rparr>\<rparr>) \<longleftrightarrow> room_inv r"
  "hist_inv (r\<lparr>guard_of := (guard_of r)\<lparr>ended := b\<rparr>\<rparr>) \<longleftrightarrow> hist_inv r"
  by (simp_all add: room_inv_def peer_indices_def hist_inv_def roster_set_def epoch_slot_def)

lemma room_inv_publish [simp]: "room_inv (publish d r) \<longleftrightarrow> room_inv r"
  by (simp add: room_inv_def publish_def peer_indices_def)

section \<open>Runs of a room\<close>

datatype room_op =
    AddPeer uuid string u8
  | AddPeerAt uuid string u8 u8
  | RemovePeer uuid
  | RemoveCheck uuid
  | MarkEnded
  | ClearEnded
  | Frame uuid bytes
  | MeshFrame u8 bytes
  | Control string

datatype room_out =
    Admitted u8 u8 u64
  | Refused admission_error
  | Departed roster_delta bool
  | Marked bool
  | Quiet

fun room_exec :: "('a, 'c) chan_lib \<Rightarrow> ('a, 'c) room \<Rightarrow> room_op \<Rightarrow> ('a, 'c) room \<times> room_out" where
  "room_exec lib r (AddPeer pid k v) =
     (case add_peer lib r pid k v of (r', Inr (_, idx, ep, rv)) \<Rightarrow> (r', Admitted idx ep rv) | (r', Inl e) \<Rightarrow> (r', Refused e))"
| "room_exec lib r (AddPeerAt pid k v i) =
     (case add_peer_at_index lib r pid k v i of (r', Inr (_, ep, rv)) \<Rightarrow> (r', Admitted i ep rv) | (r', Inl e) \<Rightarrow> (r', Refused e))"
| "room_exec lib r (RemovePeer pid) =
     (case remove_peer r pid of (r', Some d) \<Rightarrow> (r', Departed d False) | (r', None) \<Rightarrow> (r', Quiet))"
| "room_exec lib r (RemoveCheck pid) =
     (case remove_peer_and_check_ended r pid of (r', Some (d, b)) \<Rightarrow> (r', Departed d b) | (r', None) \<Rightarrow> (r', Quiet))"
| "room_exec lib r MarkEnded = (let (r', b) = mark_ended r in (r', Marked b))"
| "room_exec lib r ClearEnded = (clear_ended r, Quiet)"
| "room_exec lib r (Frame s f) = (broadcast_frame lib r s f, Quiet)"
| "room_exec lib r (MeshFrame i f) = (deliver_prefixed lib r i f, Quiet)"
| "room_exec lib r (Control j) = (broadcast_control lib r j, Quiet)"

fun op_fresh :: "('a, 'c) room \<Rightarrow> room_op \<Rightarrow> bool" where
  "op_fresh r (AddPeer pid _ _) = (pid \<notin> fst ` set (peers r))"
| "op_fresh r (AddPeerAt pid _ _ _) = (pid \<notin> fst ` set (peers r))"
| "op_fresh r _ = True"

text \<open>The runs of a room, with the outputs of its operations; a random peer id is one not yet in
  the room.\<close>

inductive room_run :: "('a, 'c) chan_lib \<Rightarrow> (room_op \<times> room_out) list \<Rightarrow> ('a, 'c) room \<Rightarrow> bool" for lib where
  run_new: "room_run lib [] (room_new com ch)"
| run_step: "room_run lib tr r \<Longrightarrow> op_fresh r op \<Longrightarrow> room_exec lib r op = (r', out) \<Longrightarrow>
     room_run lib (tr @ [(op, out)]) r'"

lemma room_inv_new: "room_inv (room_new com ch)" and hist_inv_new: "hist_inv (room_new com ch)"
  by (simp_all add: room_inv_def hist_inv_def room_new_def admission_guard_new_def peer_indices_def
      roster_set_def replay_def joins_def epoch_slot_def List.map_filter_def)

lemma add_peer_cases:
  assumes "room_inv r"
  obtains (admitted) idx where "admissible r v" "idx \<notin> set (active_indices (guard_of r))"
      "add_peer lib r pid k v = (admit lib r pid k v idx,
         Inr (pid, idx, epoch_slot (guard_of r) idx, roster_revision (guard_of r) + 1))"
  | (refused) e where "\<not> admissible r v" "add_peer lib r pid k v = (r, Inl e)"
  using add_peer_admissible [OF assms] add_peer_inadmissible [OF assms] by metis

lemma add_peer_at_index_cases:
  obtains (admitted) "admissible r v" "idx \<notin> set (active_indices (guard_of r))"
      "add_peer_at_index lib r pid k v idx = (admit lib r pid k v idx,
         Inr (pid, epoch_slot (guard_of r) idx, roster_revision (guard_of r) + 1))"
  | (refused) e where "add_peer_at_index lib r pid k v idx = (r, Inl e)"
  using add_peer_at_index_admissible add_peer_at_index_inadmissible by metis

lemma remove_peer_inv:
  assumes "room_inv r" "hist_inv r" "remove_peer r pid = (r', out)"
  shows "room_inv r' \<and> hist_inv r'"
  using assms room_inv_release hist_inv_release
  by (auto simp: remove_peer_def split: if_splits option.splits prod.splits) blast+

lemma remove_peer_and_check_ended_inv:
  assumes "room_inv r" "hist_inv r" "remove_peer_and_check_ended r pid = (r', out)"
  shows "room_inv r' \<and> hist_inv r'"
proof (cases "poisoned r \<or> map_of (peers r) pid = None")
  case True
  then show ?thesis using assms by (cases "poisoned r") (auto simp: remove_peer_and_check_ended_def)
next
  case False
  then obtain p where p: "map_of (peers r) pid = Some p" by auto
  obtain r1 d where rel: "release_peer r pid p = (r1, d)" by (cases "release_peer r pid p")
  have commute: "publish d (r1\<lparr>guard_of := g\<rparr>) = (publish d r1)\<lparr>guard_of := g\<rparr>" for g
    by (cases r1) (simp add: publish_def)
  have same: "guard_of (publish d r1) = guard_of r1" by (simp add: publish_def)
  have "r' = publish d r1 \<or> r' = (publish d r1)\<lparr>guard_of := (guard_of (publish d r1))\<lparr>ended := True\<rparr>\<rparr>"
    using assms(3) False p by (auto simp: remove_peer_and_check_ended_def rel Let_def commute same)
  moreover have "room_inv (publish d r1)" using room_inv_release [OF assms(1) p rel] by simp
  moreover note hist_inv_release [OF assms(1,2) p rel]
  ultimately show ?thesis by (auto simp only: ended_flag_inv)
qed

lemma room_exec_inv:
  assumes "room_inv r" "hist_inv r" "op_fresh r op" "room_exec lib r op = (r', out)"
  shows "room_inv r' \<and> hist_inv r'"
proof (cases op)
  case (AddPeer pid k v)
  from assms(1) show ?thesis
    by (cases rule: add_peer_cases [of r v lib pid k])
       (use assms AddPeer in \<open>auto intro: room_inv_admit hist_inv_admit\<close>)
next
  case (AddPeerAt pid k v i)
  show ?thesis
    by (cases rule: add_peer_at_index_cases [of r v i lib pid k])
       (use assms AddPeerAt in \<open>auto intro: room_inv_admit hist_inv_admit\<close>)
next
  case (RemovePeer pid)
  then show ?thesis using assms remove_peer_inv
    by (auto split: prod.splits option.splits)
next
  case (RemoveCheck pid)
  then show ?thesis using assms remove_peer_and_check_ended_inv
    by (auto split: prod.splits option.splits)
next
  case MarkEnded
  then show ?thesis using assms by (auto simp: mark_ended_def ended_flag_inv split: if_splits)
next
  case ClearEnded
  then show ?thesis using assms by (auto simp: clear_ended_def ended_flag_inv split: if_splits)
qed (use assms in \<open>auto simp: same_roster_inv [OF same_roster_broadcast] same_roster_inv [OF same_roster_deliver]
      same_roster_inv [OF same_roster_control]\<close>)

lemma room_run_inv: "room_run lib tr r \<Longrightarrow> room_inv r \<and> hist_inv r"
  by (induction rule: room_run.induct) (auto simp: room_inv_new hist_inv_new dest: room_exec_inv)


section \<open>The ended gate\<close>

text \<open>What one operation does to the ended flag and when it reports an auto-end.\<close>

fun auto_end :: "room_op \<times> room_out \<Rightarrow> bool" where
  "auto_end (_, Departed _ b) = b"
| "auto_end _ = False"

lemma ended_pin_occupy [simp]: "ended (pin_version v (occupy idx g)) = ended g"
  by simp

lemma add_peer_ended:
  assumes "add_peer lib r pid k v = (r', out)"
  shows "ended (guard_of r') = ended (guard_of r)"
proof -
  have "ended (fst (alloc_loop n g)) = ended g" for n g
  proof (induction n arbitrary: g)
    case (Suc n)
    then show ?case by (auto simp: Let_def next_epoch_for_def split: prod.splits)
  qed simp
  then have "alloc g = (g', x) \<Longrightarrow> ended g' = ended g" for g g' x
    by (metis alloc_def fst_conv)
  then show ?thesis using assms
    by (auto simp: add_peer_def Let_def insert_peer_def publish_def split: if_splits sum.splits prod.splits option.splits)
qed

lemma add_peer_at_index_ended:
  assumes "add_peer_at_index lib r pid k v i = (r', out)"
  shows "ended (guard_of r') = ended (guard_of r)"
  using assms
  by (auto simp: add_peer_at_index_def Let_def insert_peer_def publish_def next_epoch_for_def
      split: if_splits sum.splits prod.splits option.splits)

lemma same_roster_guard: "same_roster r r' \<Longrightarrow> guard_of r' = guard_of r"
  by (simp add: same_roster_def)

lemma remove_peer_ended: "remove_peer r pid = (r', out) \<Longrightarrow> ended (guard_of r') = ended (guard_of r)"
  by (auto simp: remove_peer_def release_peer_def publish_def Let_def split: if_splits option.splits)

lemma remove_peer_and_check_ended_flag:
  assumes "remove_peer_and_check_ended r pid = (r', out)"
  shows "if \<exists>d. out = Some (d, True) then \<not> ended (guard_of r) \<and> ended (guard_of r') \<and> peers r' = []
    else ended (guard_of r') = ended (guard_of r)"
  using assms
  by (auto simp: remove_peer_and_check_ended_def release_peer_def publish_def Let_def
      split: if_splits option.splits)

lemma room_exec_ended:
  assumes "room_exec lib r op = (r', out)" and "op \<noteq> ClearEnded"
  shows "if auto_end (op, out) then \<not> ended (guard_of r) \<and> ended (guard_of r') \<and> peers r' = []
    else ended (guard_of r) \<longrightarrow> ended (guard_of r')"
proof (cases op)
  case (AddPeer pid k v)
  then show ?thesis using assms by (auto split: prod.splits sum.splits dest!: add_peer_ended)
next
  case (AddPeerAt pid k v i)
  then show ?thesis using assms by (auto split: prod.splits sum.splits dest!: add_peer_at_index_ended)
next
  case (RemovePeer pid)
  then show ?thesis using assms remove_peer_ended
    by (auto split: prod.splits option.splits)
next
  case (RemoveCheck pid)
  then show ?thesis using assms remove_peer_and_check_ended_flag [of r pid]
    by (auto split: prod.splits option.splits if_splits)
next
  case MarkEnded
  then show ?thesis using assms by (auto simp: mark_ended_def split: if_splits)
qed (use assms in \<open>auto simp: same_roster_guard [OF same_roster_broadcast]
      same_roster_guard [OF same_roster_deliver] same_roster_guard [OF same_roster_control]\<close>)

lemma auto_end_count:
  "room_run lib tr r \<Longrightarrow>
     length (filter auto_end tr) + (if ended (guard_of r) then 0 else 1) \<le>
       1 + length (filter (\<lambda>e. fst e = ClearEnded) tr)"
proof (induction rule: room_run.induct)
  case (run_step tr r op r' out)
  show ?case
  proof (cases "op = ClearEnded")
    case True
    then show ?thesis using run_step by (auto split: if_splits)
  next
    case False
    from room_exec_ended [OF run_step.hyps(3) False] run_step.IH False show ?thesis
      by (auto split: if_splits)
  qed
qed simp


section \<open>Room manager\<close>

text \<open>The manager's operations, and the rooms changing under the references it handed out.\<close>

inductive manager_step :: "('a, 'c) chan_lib \<Rightarrow> ('a, 'c) room_manager \<Rightarrow> ('a, 'c) room_manager \<Rightarrow> bool" for lib where
  step_create: "manager_step lib m (fst (get_or_create m com ch))"
| step_cleanup: "manager_step lib m (fst (cleanup_if_empty m com ch))"
| step_room: "map_of (heap m) a = Some r \<Longrightarrow> op_fresh r op \<Longrightarrow>
     manager_step lib m (update_room m a (fst (room_exec lib r op)))"

inductive manager_reachable :: "('a, 'c) chan_lib \<Rightarrow> ('a, 'c) room_manager \<Rightarrow> bool" for lib where
  manager_new: "manager_reachable lib room_manager_new"
| manager_next: "manager_reachable lib m \<Longrightarrow> manager_step lib m m' \<Longrightarrow> manager_reachable lib m'"

definition manager_inv :: "('a, 'c) room_manager \<Rightarrow> bool" where
  "manager_inv m \<longleftrightarrow> distinct (map fst (rooms m)) \<and>
     (\<forall>a r. map_of (heap m) a = Some r \<longrightarrow> a < next_addr m \<and> room_inv r) \<and>
     (\<forall>com ch a. map_of (rooms m) (com, ch) = Some a \<longrightarrow>
        (\<exists>r. map_of (heap m) a = Some r \<and> r_community_id r = com \<and> r_channel_id r = ch))"

lemma room_exec_identity:
  assumes "room_exec lib r op = (r', out)"
  shows "r_community_id r' = r_community_id r \<and> r_channel_id r' = r_channel_id r"
  using assms
  by (cases op)
     (auto simp: Let_def add_peer_def add_peer_at_index_def insert_peer_def publish_def remove_peer_def
        remove_peer_and_check_ended_def release_peer_def mark_ended_def clear_ended_def
        broadcast_frame_def deliver_prefixed_def broadcast_control_def
        split: if_splits option.splits sum.splits prod.splits)

lemma room_exec_room_inv:
  assumes "room_inv r" "op_fresh r op" "room_exec lib r op = (r', out)"
  shows "room_inv r'"
proof (cases op)
  case (AddPeer pid k v)
  from assms(1) show ?thesis
    by (cases rule: add_peer_cases [of r v lib pid k]) (use assms AddPeer in \<open>auto intro: room_inv_admit\<close>)
next
  case (AddPeerAt pid k v i)
  show ?thesis
    by (cases rule: add_peer_at_index_cases [of r v i lib pid k])
       (use assms AddPeerAt in \<open>auto intro: room_inv_admit\<close>)
qed (use assms in \<open>auto simp: same_roster_inv [OF same_roster_broadcast] same_roster_inv [OF same_roster_deliver]
      same_roster_inv [OF same_roster_control] mark_ended_def clear_ended_def ended_flag_inv remove_peer_def
      remove_peer_and_check_ended_def Let_def dest: room_inv_release
      split: if_splits prod.splits option.splits\<close>)

lemma manager_inv_step:
  assumes "manager_step lib m m'" and inv: "manager_inv m"
  shows "manager_inv m'"
  using assms(1)
proof cases
  case (step_create com ch)
  show ?thesis
  proof (cases "map_of (rooms m) (com, ch)")
    case None
    have fresh: "map_of (heap m) (next_addr m) = None"
      using inv by (auto simp: manager_inv_def intro: ccontr)
    have m': "rooms m' = AList.update (com, ch) (next_addr m) (rooms m)"
      "heap m' = AList.update (next_addr m) (room_new com ch) (heap m)" "next_addr m' = Suc (next_addr m)"
      using None step_create by (simp_all add: get_or_create_def)
    have "\<forall>a r. map_of (heap m') a = Some r \<longrightarrow> a < next_addr m' \<and> room_inv r"
      using inv by (auto simp: manager_inv_def m' room_inv_new less_SucI)
    moreover have "\<exists>r. map_of (heap m') a = Some r \<and> r_community_id r = com' \<and> r_channel_id r = ch'"
      if "map_of (rooms m') (com', ch') = Some a" for com' ch' a
    proof (cases "(com', ch') = (com, ch)")
      case False
      with that have "map_of (rooms m) (com', ch') = Some a" by (auto simp: m')
      then obtain r where "map_of (heap m) a = Some r" "r_community_id r = com'" "r_channel_id r = ch'"
        using inv unfolding manager_inv_def by blast
      moreover from this fresh have "a \<noteq> next_addr m" by auto
      ultimately show ?thesis by (simp add: m')
    qed (use that in \<open>simp add: m' room_new_def\<close>)
    ultimately show ?thesis using inv by (simp add: manager_inv_def m' distinct_update)
  next
    case (Some a)
    then show ?thesis using inv step_create by (simp add: get_or_create_def)
  qed
next
  case (step_cleanup com ch)
  then have "m' = m \<or> m' = m\<lparr>rooms := AList.delete (com, ch) (rooms m)\<rparr>"
    by (auto simp: cleanup_if_empty_def split: option.splits)
  then show ?thesis using inv by (auto simp: manager_inv_def distinct_delete set_delete split: if_splits)
next
  case (step_room a r op)
  obtain r' out where ex: "room_exec lib r op = (r', out)" by (cases "room_exec lib r op")
  show ?thesis
    using inv step_room room_exec_identity [OF ex] room_exec_room_inv [OF _ step_room(3) ex]
    by (auto simp: manager_inv_def update_room_def ex) (metis option.inject)+
qed

lemma manager_reachable_inv: "manager_reachable lib m \<Longrightarrow> manager_inv m"
  by (induction rule: manager_reachable.induct)
     (auto simp: manager_inv_def room_manager_new_def dest: manager_inv_step [unfolded manager_inv_def])


lemma filter_channel_rooms:
  assumes inv: "manager_inv m"
  shows "distinct (filter (\<lambda>((com, ch'), a). ch' = ch) (rooms m))"
    and "((com, ch'), a) \<in> set (filter (\<lambda>((com, ch'), a). ch' = ch) (rooms m)) \<longleftrightarrow>
      ch' = ch \<and> get_room m com ch = Some a"
  using inv by (auto simp: manager_inv_def get_room_def map_of_distinct_iff distinct_map)

section \<open>Concrete runs\<close>

fun run_ops :: "('a, 'c) chan_lib \<Rightarrow> ('a, 'c) room \<Rightarrow> room_op list \<Rightarrow> (room_op \<times> room_out) list \<times> ('a, 'c) room" where
  "run_ops lib r [] = ([], r)"
| "run_ops lib r (op # ops) =
     (let (r1, out) = room_exec lib r op; (tr, r2) = run_ops lib r1 ops in ((op, out) # tr, r2))"

fun ops_fresh :: "('a, 'c) chan_lib \<Rightarrow> ('a, 'c) room \<Rightarrow> room_op list \<Rightarrow> bool" where
  "ops_fresh lib r [] = True"
| "ops_fresh lib r (op # ops) = (op_fresh r op \<and> ops_fresh lib (fst (room_exec lib r op)) ops)"

lemma room_run_ops:
  "room_run lib tr r \<Longrightarrow> ops_fresh lib r ops \<Longrightarrow>
     room_run lib (tr @ fst (run_ops lib r ops)) (snd (run_ops lib r ops))"
proof (induction ops arbitrary: tr r)
  case (Cons op ops)
  obtain r1 out where ex: "room_exec lib r op = (r1, out)" by (cases "room_exec lib r op")
  have "room_run lib (tr @ [(op, out)]) r1"
    using Cons.prems ex by (intro run_step [OF Cons.prems(1) _ ex]) simp
  from Cons.IH [OF this] Cons.prems(2) ex show ?case by (simp add: case_prod_beta)
qed simp

definition ex_chan_lib :: "(nat \<times> bytes list, bool \<times> nat \<times> string list) chan_lib" where
  "ex_chan_lib = \<lparr>mk_audio = (\<lambda>n. (n, [])), mk_ctrl = (\<lambda>n. (True, n, [])),
     try_send_audio = (\<lambda>(n, q) f. if length q < n then Some (n, q @ [f]) else None),
     try_send_ctrl = (\<lambda>(op, n, q) j. if op \<and> length q < n then Some (op, n, q @ [j]) else None),
     drop_ctrl_rx = (\<lambda>(op, n, q). (False, n, q))\<rparr>"

definition ex_ops :: "room_op list" where
  "ex_ops = [AddPeer 100 ''alice'' 3, AddPeerAt 101 ''bob'' 3 7, Frame 100 [9, 9], AddPeer 102 ''carol'' 2,
     RemovePeer 101, AddPeerAt 103 ''dave'' 3 7]"

definition ex_room :: "(nat \<times> bytes list, bool \<times> nat \<times> string list) room" where
  "ex_room = snd (run_ops ex_chan_lib (room_new 1 2) ex_ops)"

definition ex_trace :: "(room_op \<times> room_out) list" where
  "ex_trace = fst (run_ops ex_chan_lib (room_new 1 2) ex_ops)"

lemma ex_room_run: "room_run ex_chan_lib ex_trace ex_room"
proof -
  have "ops_fresh ex_chan_lib (room_new 1 2) ex_ops" by code_simp
  from room_run_ops [OF run_new this] show ?thesis by (simp add: ex_room_def ex_trace_def)
qed

lemma ex_room_facts:
  "map (\<lambda>(pid, p). (pid, peer_index p, epoch p)) (peers ex_room) = [(100, 0, 0), (103, 7, 1)]"
  "map rp_epoch (joins 7 (roster_log ex_room)) = [0, 1]"
  "\<not> poisoned ex_room" "\<not> ended (guard_of ex_room)" "pinned_version (guard_of ex_room) = Some 3"
  "length (roster_log ex_room) = 4"
  by code_simp+

section \<open>Properties\<close>

text \<open>In every run of a room at most 25 peers are connected, no two of them share a peer id
  or a routing index, and all of them speak the version the room is pinned to.\<close>

theorem room_routing_identities:
  assumes "room_run lib tr r"
  shows "length (peers r) \<le> 25 \<and> distinct (map fst (peers r)) \<and>
    distinct (map (peer_index \<circ> snd) (peers r)) \<and>
    (\<exists>v. \<forall>(pid, p) \<in> set (peers r). pinned_version (guard_of r) = Some v \<and> protocol_version p = v)"
proof -
  have inv: "room_inv r" using room_run_inv [OF assms] by simp
  then have "\<exists>v. \<forall>(pid, p) \<in> set (peers r). pinned_version (guard_of r) = Some v \<and> protocol_version p = v"
    by (cases "pinned_version (guard_of r)") (auto simp: room_inv_def)
  with inv show ?thesis by (simp add: room_inv_def MAX_PEERS_PER_ROOM_def peer_indices_def)
qed

text \<open>Every admission attempt has one of four outcomes, in this order of precedence: the room
  is ended (or its lock poisoned), it is full at 25 peers, the version differs from the pin, or
  the peer is admitted at an index no connected peer holds.  Below the cap the index pool is
  never exhausted, and a refusal leaves the room as it was.\<close>

theorem add_peer_outcomes:
  assumes "room_run lib tr r"
  shows "if poisoned r \<or> ended (guard_of r) then add_peer lib r pid k v = (r, Inl Ended)
    else if length (peers r) \<ge> 25 then add_peer lib r pid k v = (r, Inl Full)
    else if pinned_version (guard_of r) \<notin> {None, Some v}
    then add_peer lib r pid k v = (r, Inl (VersionMismatch (the (pinned_version (guard_of r))) v))
    else \<exists>r' idx ep rv. add_peer lib r pid k v = (r', Inr (pid, idx, ep, rv)) \<and>
      idx \<notin> peer_index ` snd ` set (peers r) \<and> pinned_version (guard_of r') = Some v \<and>
      rv = roster_revision (guard_of r) + 1"
proof -
  have inv: "room_inv r" using room_run_inv [OF assms] by simp
  then have active: "set (active_indices (guard_of r)) = peer_index ` snd ` set (peers r)"
    by (simp add: room_inv_def peer_indices_def image_comp)
  show ?thesis
  proof (cases "admissible r v")
    case True
    from add_peer_admissible [OF inv True] obtain idx where
      "idx \<notin> set (active_indices (guard_of r))"
      "add_peer lib r pid k v = (admit lib r pid k v idx,
         Inr (pid, idx, epoch_slot (guard_of r) idx, roster_revision (guard_of r) + 1))" by metis
    moreover have "pinned_version (guard_of (admit lib r pid k v idx)) = Some v"
      using True by (auto simp: admit_def insert_peer_def publish_def Let_def admissible_def split: option.splits)
    ultimately show ?thesis using True active
      by (auto simp: admissible_def MAX_PEERS_PER_ROOM_def)
  next
    case False
    with add_peer_inadmissible [OF inv False] show ?thesis
      by (auto simp: admissible_def MAX_PEERS_PER_ROOM_def)
  qed
qed

text \<open>C28.  The roster deltas a room publishes are a complete history of it: they carry the
  consecutive revisions 1, 2, ... (modulo 2 to the 64), replaying them from the empty roster
  gives the peers of the snapshot, and the snapshot's revision is that of the last delta.\<close>

theorem roster_deltas_replay_to_snapshot:
  assumes "room_run lib tr r"
  shows "replay (roster_log r) = set (sn_peers (roster_snapshot_of r)) \<and>
    map rd_revision (roster_log r) = map (\<lambda>i. of_nat (Suc i)) [0..<length (roster_log r)] \<and>
    sn_revision (roster_snapshot_of r) = of_nat (length (roster_log r)) \<and>
    sorted (map rp_peer_index (sn_peers (roster_snapshot_of r)))"
proof -
  have "set (sn_peers (roster_snapshot_of r)) = roster_set r"
    by (force simp: roster_snapshot_of_def roster_set_def)
  with room_run_inv [OF assms] show ?thesis
    by (simp add: hist_inv_def roster_snapshot_of_def)
qed

text \<open>C29.  Epochs fence a reused index: two occupants of one routing index, less than 256
  admissions of that index apart, are published with different epochs.\<close>

theorem epochs_fence_reuse:
  assumes "room_run lib tr r" and "i < j" and "j < length (joins idx (roster_log r))" and "j - i < 256"
  shows "rp_epoch (joins idx (roster_log r) ! i) \<noteq> rp_epoch (joins idx (roster_log r) ! j)"
proof -
  have "map rp_epoch (joins idx (roster_log r)) = map of_nat [0..<length (joins idx (roster_log r))]"
    using room_run_inv [OF assms(1)] by (simp add: hist_inv_def)
  then have ep: "rp_epoch (joins idx (roster_log r) ! k) = of_nat k" if "k < length (joins idx (roster_log r))" for k
    using that by (metis add_0 length_map length_upt minus_nat.diff_0 nth_map nth_upt)
  have "i mod 256 \<noteq> j mod 256"
    using mod_add_left_le [of i 0 256 "j - i"] assms(2,4) by auto
  then show ?thesis
    using assms by (simp add: ep word_of_nat_eq_iff take_bit_eq_mod)
qed


theorem room_routing_identities_witness:
  "length (peers ex_room) \<le> 25 \<and> distinct (map (peer_index \<circ> snd) (peers ex_room))"
  using room_routing_identities [OF ex_room_run] by blast

theorem add_peer_outcomes_witness:
  "add_peer ex_chan_lib ex_room 104 ''eve'' 2 = (ex_room, Inl (VersionMismatch 3 2)) \<and>
   (\<exists>r' idx ep rv. add_peer ex_chan_lib ex_room 104 ''eve'' 3 = (r', Inr (104, idx, ep, rv)))"
proof -
  have "length (peers ex_room) < 25"
    using arg_cong [OF ex_room_facts(1), of length] by simp
  then show ?thesis
    using add_peer_outcomes [OF ex_room_run, of 104 "''eve''" 2] add_peer_outcomes [OF ex_room_run, of 104 "''eve''" 3]
      ex_room_facts(3-5) by auto
qed

theorem roster_deltas_replay_to_snapshot_witness:
  "replay (roster_log ex_room) = set (sn_peers (roster_snapshot_of ex_room)) \<and>
   sn_revision (roster_snapshot_of ex_room) = 4"
  using roster_deltas_replay_to_snapshot [OF ex_room_run] ex_room_facts(6) by simp

theorem epochs_fence_reuse_witness:
  "rp_epoch (joins 7 (roster_log ex_room) ! 0) \<noteq> rp_epoch (joins 7 (roster_log ex_room) ! 1)"
proof -
  have "length (joins 7 (roster_log ex_room)) = 2"
    using arg_cong [OF ex_room_facts(2), of length] by simp
  then show ?thesis using epochs_fence_reuse [OF ex_room_run, of 0 1 7] by simp
qed

text \<open>A huddle is ended once: over any run the room reports the auto-end decision at most
  once more often than the ended flag was rolled back, so two peers leaving together cannot
  both archive it.\<close>

theorem auto_end_at_most_once:
  assumes "room_run lib tr r"
  shows "length (filter auto_end tr) \<le> 1 + length (filter (\<lambda>e. fst e = ClearEnded) tr)"
  using auto_end_count [OF assms] by (simp split: if_splits)

theorem auto_end_at_most_once_witness:
  "length (filter auto_end ex_trace) \<le> 1"
proof -
  have "filter (\<lambda>e. fst e = ClearEnded) ex_trace = []" by code_simp
  with auto_end_at_most_once [OF ex_room_run] show ?thesis by simp
qed

text \<open>A frame that took the mesh path is delivered as a local one: in every run, delivering
  the prefixed frame under its author's index changes the room exactly as the author's own
  broadcast does, so the author never hears itself and everybody else is offered the frame.\<close>

theorem mesh_delivery_equals_broadcast:
  assumes "room_run lib tr r" and "map_of (peers r) sender = Some s"
  shows "deliver_prefixed lib r (peer_index s) (frame_prefix s @ frame) = broadcast_frame lib r sender frame"
proof -
  have inv: "room_inv r" using room_run_inv [OF assms(1)] by simp
  have mem: "(sender, s) \<in> set (peers r)" using assms(2) by (rule map_of_SomeD)
  have "peer_index p = peer_index s \<longleftrightarrow> pid = sender" if "(pid, p) \<in> set (peers r)" for pid p
    using room_inv_key [OF inv that mem] by auto
  then have "map (\<lambda>(pid, p). (pid, if peer_index p = peer_index s then p else send_audio lib (frame_prefix s @ frame) p))
        (peers r) =
      map (\<lambda>(pid, p). (pid, if pid = sender then p else send_audio lib (frame_prefix s @ frame) p)) (peers r)"
    by (intro map_cong refl) auto
  then show ?thesis using assms(2) by (simp add: deliver_prefixed_def broadcast_frame_def)
qed

theorem mesh_delivery_equals_broadcast_witness:
  "\<exists>s. map_of (peers ex_room) 103 = Some s \<and>
     deliver_prefixed ex_chan_lib ex_room 7 [7, 1, 42] = broadcast_frame ex_chan_lib ex_room 103 [42]"
proof -
  have "map_option (\<lambda>p. (peer_index p, frame_prefix p)) (map_of (peers ex_room) 103) = Some (7, [7, 1])"
    by code_simp
  then obtain s where s: "map_of (peers ex_room) 103 = Some s" "peer_index s = 7" "frame_prefix s = [7, 1]"
    by auto
  with mesh_delivery_equals_broadcast [OF ex_room_run s(1), of "[42]"] show ?thesis by simp
qed

text \<open>Tenants never share a room: distinct (community, channel) keys resolve to distinct
  rooms whose labels are that key, and a lookup by bare channel id succeeds only when exactly
  one community has a live room for it.\<close>

theorem rooms_never_cross_communities:
  assumes "manager_reachable lib m"
  shows "(get_room m com ch = Some a \<and> get_room m com' ch' = Some a \<longrightarrow> com' = com \<and> ch' = ch) \<and>
    (get_unambiguous_by_channel m ch = Some a \<longleftrightarrow> (\<exists>com. \<forall>com' b. get_room m com' ch = Some b \<longleftrightarrow> com' = com \<and> b = a))"
proof -
  note inv = manager_reachable_inv [OF assms]
  define f where "f = filter (\<lambda>((com, ch'), a). ch' = ch) (rooms m)"
  have d: "distinct f" and mem: "((com, ch'), b) \<in> set f \<longleftrightarrow> ch' = ch \<and> get_room m com ch = Some b" for com ch' b
    using filter_channel_rooms [OF inv] by (auto simp: f_def)
  have "get_unambiguous_by_channel m ch = Some a \<longleftrightarrow> (\<exists>com. f = [((com, ch), a)])"
    using mem by (fastforce simp: get_unambiguous_by_channel_def f_def [symmetric] split: list.splits prod.splits)
  also have "\<dots> \<longleftrightarrow> (\<exists>com. set f = {((com, ch), a)})"
    by (simp add: distinct_set_singleton_iff [OF d])
  also have "\<dots> \<longleftrightarrow> (\<exists>com. \<forall>com' b. get_room m com' ch = Some b \<longleftrightarrow> com' = com \<and> b = a)"
    unfolding set_eq_iff split_paired_All mem by (intro iff_exI) auto
  finally have "get_unambiguous_by_channel m ch = Some a \<longleftrightarrow>
      (\<exists>com. \<forall>com' b. get_room m com' ch = Some b \<longleftrightarrow> com' = com \<and> b = a)" .
  moreover have "com' = com \<and> ch' = ch" if "get_room m com ch = Some a" "get_room m com' ch' = Some a"
    using inv that unfolding manager_inv_def get_room_def by (metis option.inject)
  ultimately show ?thesis by blast
qed


definition ex_manager :: "(nat \<times> bytes list, bool \<times> nat \<times> string list) room_manager" where
  "ex_manager = fst (get_or_create (fst (get_or_create (fst (get_or_create room_manager_new 1 5)) 2 5)) 1 6)"

lemma ex_manager_reachable: "manager_reachable ex_chan_lib ex_manager"
  unfolding ex_manager_def by (intro manager_next [OF _ step_create] manager_new)

theorem rooms_never_cross_communities_witness:
  "get_room ex_manager 1 5 \<noteq> get_room ex_manager 2 5 \<and>
   get_unambiguous_by_channel ex_manager 5 = None \<and>
   (\<exists>com. \<forall>com' b. get_room ex_manager com' 6 = Some b \<longleftrightarrow> com' = com \<and> b = 2)"
proof -
  have lk: "get_room ex_manager 1 5 = Some 0" "get_room ex_manager 2 5 = Some 1"
    "get_unambiguous_by_channel ex_manager 5 = None" "get_unambiguous_by_channel ex_manager 6 = Some 2"
    by code_simp+
  have "\<exists>com. \<forall>com' b. get_room ex_manager com' 6 = Some b \<longleftrightarrow> com' = com \<and> b = 2"
    using rooms_never_cross_communities [OF ex_manager_reachable, of 1 6 2] lk(4) by blast
  with lk show ?thesis by simp
qed

end
