(* ===== verification/Git_Perms.thy ===== *)
theory Git_Perms
  imports Punks_Prelude
begin

text \<open>Channel roles (crates/punks-core/src/channel.rs) and the git permission engine of
  crates/punks-core/src/git_perms.rs: ref patterns and their matching, protection-rule tags,
  the union of matching rules, and the evaluation of a push.  Strings are byte strings, so
  their length is the byte length the source compares.  A pattern match that would reach the
  unreachable arm of the source is None.  The lemmas show that parsing inverts printing on
  exactly the well-formed patterns, that matching follows the declarative meaning of the
  segments and never panics on a parsed pattern, and that a push is accepted iff it satisfies
  the strictest of all matching rules and the built-in default.\<close>

section \<open>Channel and membership enums\<close>

datatype channel_visibility = Open | Private

fun channel_visibility_as_str :: "channel_visibility \<Rightarrow> string" where
  "channel_visibility_as_str Open = ''open''"
| "channel_visibility_as_str Private = ''private''"

definition channel_visibility_from_str :: "string \<Rightarrow> channel_visibility option" where
  "channel_visibility_from_str s =
     (if s = ''open'' then Some Open else if s = ''private'' then Some Private else None)"

datatype channel_type = Stream | Forum | Dm | Workflow

fun channel_type_as_str :: "channel_type \<Rightarrow> string" where
  "channel_type_as_str Stream = ''stream''"
| "channel_type_as_str Forum = ''forum''"
| "channel_type_as_str Dm = ''dm''"
| "channel_type_as_str Workflow = ''workflow''"

definition channel_type_from_str :: "string \<Rightarrow> channel_type option" where
  "channel_type_from_str s =
     (if s = ''stream'' then Some Stream else if s = ''forum'' then Some Forum
      else if s = ''dm'' then Some Dm else if s = ''workflow'' then Some Workflow else None)"

datatype member_role = Owner | Admin | Member | Guest | Bot

fun role_as_str :: "member_role \<Rightarrow> string" where
  "role_as_str Owner = ''owner''"
| "role_as_str Admin = ''admin''"
| "role_as_str Member = ''member''"
| "role_as_str Guest = ''guest''"
| "role_as_str Bot = ''bot''"

definition role_from_str :: "string \<Rightarrow> member_role option" where
  "role_from_str s =
     (if s = ''owner'' then Some Owner else if s = ''admin'' then Some Admin
      else if s = ''member'' then Some Member else if s = ''guest'' then Some Guest
      else if s = ''bot'' then Some Bot else None)"

fun is_elevated :: "member_role \<Rightarrow> bool" where
  "is_elevated Owner = True"
| "is_elevated Admin = True"
| "is_elevated _ = False"

fun permission_level :: "member_role \<Rightarrow> nat" where
  "permission_level Owner = 4"
| "permission_level Admin = 3"
| "permission_level Member = 2"
| "permission_level Guest = 1"
| "permission_level Bot = 0"

definition has_at_least :: "member_role \<Rightarrow> member_role \<Rightarrow> bool" where
  "has_at_least r required = (permission_level r \<ge> permission_level required)"

lemma channel_visibility_round_trip [simp]:
  "channel_visibility_from_str (channel_visibility_as_str v) = Some v"
  by (cases v) (simp_all add: channel_visibility_from_str_def)

lemma channel_type_round_trip [simp]: "channel_type_from_str (channel_type_as_str t) = Some t"
  by (cases t) (simp_all add: channel_type_from_str_def)

lemma role_round_trip [simp]: "role_from_str (role_as_str r) = Some r"
  by (cases r) (simp_all add: role_from_str_def)

section \<open>Ref patterns\<close>

definition MAX_PROTECTION_RULES :: nat where "MAX_PROTECTION_RULES = 50"
definition MAX_PATTERN_LENGTH :: nat where "MAX_PATTERN_LENGTH = 256"
definition MAX_WILDCARDS_PER_PATTERN :: nat where "MAX_WILDCARDS_PER_PATTERN = 3"

datatype pattern_segment = Literal string | Wildcard | RecursiveWildcard

record ref_pattern =
  raw :: string
  segments :: "pattern_segment list"

datatype pattern_error =
  Empty | TooLong | MissingRefsPrefix | InvalidSegment string | TooManyWildcards

definition literal_char :: "char \<Rightarrow> bool" where
  "literal_char c = (is_ascii_alphanumeric c \<or> c = CHR ''.'' \<or> c = CHR ''_'' \<or> c = CHR ''-'')"

definition glob_char :: "char \<Rightarrow> bool" where
  "glob_char c = (c = CHR ''*'' \<or> c = CHR ''?'' \<or> c = CHR ''['' \<or> c = CHR '']'')"

fun parse_segments :: "nat \<Rightarrow> string list \<Rightarrow> (pattern_error, pattern_segment list) result" where
  "parse_segments w [] = Inr []"
| "parse_segments w (part # rest) =
     (if part = ''**'' then
        (if rest \<noteq> [] then Inl (InvalidSegment ''** must be the last segment'')
         else if w + 1 > MAX_WILDCARDS_PER_PATTERN then Inl TooManyWildcards
         else Inr [RecursiveWildcard])
      else if part = ''*'' then
        (if w + 1 > MAX_WILDCARDS_PER_PATTERN then Inl TooManyWildcards
         else and_then (parse_segments (w + 1) rest) (\<lambda>segs. Inr (Wildcard # segs)))
      else if part = [] then Inl (InvalidSegment [])
      else if list_ex glob_char part then Inl (InvalidSegment part)
      else if \<not> list_all literal_char part then Inl (InvalidSegment part)
      else and_then (parse_segments w rest) (\<lambda>segs. Inr (Literal part # segs)))"

definition parse_pattern :: "string \<Rightarrow> (pattern_error, ref_pattern) result" where
  "parse_pattern s =
     (if s = [] then Inl Empty
      else if length s > MAX_PATTERN_LENGTH then Inl TooLong
      else if \<not> starts_with s ''refs/'' then Inl MissingRefsPrefix
      else and_then (parse_segments 0 (split_on (CHR ''/'') s))
             (\<lambda>segs. Inr \<lparr>raw = s, segments = segs\<rparr>))"

fun all_segments_match :: "(pattern_segment \<times> string) list \<Rightarrow> bool option" where
  "all_segments_match [] = Some True"
| "all_segments_match ((Wildcard, seg) # rest) = all_segments_match rest"
| "all_segments_match ((Literal lit, seg) # rest) =
     (if lit = seg then all_segments_match rest else Some False)"
| "all_segments_match ((RecursiveWildcard, seg) # rest) = None"

definition pattern_matches :: "ref_pattern \<Rightarrow> string \<Rightarrow> bool option" where
  "pattern_matches p ref_name =
     (let ref_segments = split_on (CHR ''/'') ref_name in
      if segments p \<noteq> [] \<and> last (segments p) = RecursiveWildcard then
        (let prefix_len = length (segments p) - 1 in
         if length ref_segments \<le> prefix_len then Some False
         else all_segments_match (zip (take prefix_len (segments p)) (take prefix_len ref_segments)))
      else if length ref_segments \<noteq> length (segments p) then Some False
      else all_segments_match (zip (segments p) ref_segments))"

section \<open>Ref updates and protection rules\<close>

datatype update_kind = Create | FastForward | NonFastForward | Delete

definition ZERO_OID :: string where
  "ZERO_OID = replicate 40 (CHR ''0'')"

definition classify :: "string \<Rightarrow> string \<Rightarrow> bool \<Rightarrow> update_kind" where
  "classify old_oid new_oid is_ancestor =
     (if old_oid = ZERO_OID then Create
      else if new_oid = ZERO_OID then Delete
      else if is_ancestor then FastForward
      else NonFastForward)"

record ref_update =
  ru_ref_name :: string
  ru_kind :: update_kind
  ru_old_oid :: string
  ru_new_oid :: string

record protection_rule =
  pr_pattern :: ref_pattern
  pr_push_role :: "member_role option"
  pr_no_force_push :: bool
  pr_no_delete :: bool
  pr_require_patch :: bool

datatype rule_parse_error =
  TooFewValues | TooManyRules | InvalidPattern pattern_error | UnknownRule string | InvalidRole string

definition stricter :: "member_role option \<Rightarrow> member_role \<Rightarrow> member_role" where
  "stricter existing r =
     (case existing of
        None \<Rightarrow> r
      | Some e \<Rightarrow> if permission_level r > permission_level e then r else e)"

fun parse_rules ::
  "string list \<Rightarrow> protection_rule \<times> string list \<Rightarrow> (rule_parse_error, protection_rule \<times> string list) result" where
  "parse_rules [] acc = Inr acc"
| "parse_rules (rule # rest) (pr, unknown) =
     (if starts_with rule ''push:'' then
        (let role_str = drop (length ''push:'') rule in
         case role_from_str role_str of
           None \<Rightarrow> Inl (InvalidRole role_str)
         | Some r \<Rightarrow>
             if r = Bot \<or> r = Guest then Inl (InvalidRole role_str)
             else parse_rules rest (pr\<lparr>pr_push_role := Some (stricter (pr_push_role pr) r)\<rparr>, unknown))
      else if rule = ''no-force-push'' then parse_rules rest (pr\<lparr>pr_no_force_push := True\<rparr>, unknown)
      else if rule = ''no-delete'' then parse_rules rest (pr\<lparr>pr_no_delete := True\<rparr>, unknown)
      else if rule = ''require-patch'' then parse_rules rest (pr\<lparr>pr_require_patch := True\<rparr>, unknown)
      else parse_rules rest (pr, unknown @ [rule]))"

definition empty_rule :: "ref_pattern \<Rightarrow> protection_rule" where
  "empty_rule p = \<lparr>pr_pattern = p, pr_push_role = None, pr_no_force_push = False, pr_no_delete = False,
     pr_require_patch = False\<rparr>"

definition parse_protection_tag_with_warnings ::
  "string list \<Rightarrow> (rule_parse_error, protection_rule \<times> string list) result" where
  "parse_protection_tag_with_warnings values =
     (if length values < 2 then Inl TooFewValues
      else case parse_pattern (hd values) of
        Inl e \<Rightarrow> Inl (InvalidPattern e)
      | Inr p \<Rightarrow> parse_rules (tl values) (empty_rule p, []))"

definition parse_protection_tag :: "string list \<Rightarrow> (rule_parse_error, protection_rule) result" where
  "parse_protection_tag values = and_then (parse_protection_tag_with_warnings values) (\<lambda>(rule, _). Inr rule)"

record parsed_protection =
  pp_rules :: "protection_rule list"
  pp_unknown_rules :: "string list"

fun parse_protection_loop ::
  "string list list \<Rightarrow> parsed_protection \<Rightarrow> (rule_parse_error, parsed_protection) result" where
  "parse_protection_loop [] acc = Inr acc"
| "parse_protection_loop (tag # rest) acc =
     (if tag = [] \<or> hd tag \<noteq> ''punks-protect'' then parse_protection_loop rest acc
      else if length (pp_rules acc) \<ge> MAX_PROTECTION_RULES then Inl TooManyRules
      else and_then (parse_protection_tag_with_warnings (tl tag))
             (\<lambda>(rule, unknowns). parse_protection_loop rest
                (acc\<lparr>pp_rules := pp_rules acc @ [rule], pp_unknown_rules := pp_unknown_rules acc @ unknowns\<rparr>)))"

definition parse_protection_tags :: "string list list \<Rightarrow> (rule_parse_error, parsed_protection) result" where
  "parse_protection_tags tags = parse_protection_loop tags \<lparr>pp_rules = [], pp_unknown_rules = []\<rparr>"

definition default_min_role :: "string \<Rightarrow> update_kind \<Rightarrow> member_role" where
  "default_min_role ref_name k =
     (let is_branch = starts_with ref_name ''refs/heads/'';
          is_tag = starts_with ref_name ''refs/tags/''
      in case k of
           Create \<Rightarrow> if is_branch \<or> is_tag then Member else Admin
         | FastForward \<Rightarrow> if is_branch then Member else if is_tag then Admin else Admin
         | NonFastForward \<Rightarrow> Admin
         | Delete \<Rightarrow> Admin)"

section \<open>Evaluation\<close>

record effective_rules =
  ef_push_role :: "member_role option"
  ef_no_force_push :: bool
  ef_no_delete :: bool
  ef_require_patch :: bool
  ef_has_explicit_match :: bool

definition rule_matches :: "string \<Rightarrow> protection_rule \<Rightarrow> bool" where
  "rule_matches ref_name rule = (pattern_matches (pr_pattern rule) ref_name = Some True)"

definition union_rule :: "string \<Rightarrow> protection_rule \<Rightarrow> effective_rules \<Rightarrow> effective_rules" where
  "union_rule ref_name rule e =
     (if \<not> rule_matches ref_name rule then e
      else e\<lparr>ef_has_explicit_match := True,
             ef_push_role := (case pr_push_role rule of
                Some r \<Rightarrow> Some (stricter (ef_push_role e) r) | None \<Rightarrow> ef_push_role e),
             ef_no_force_push := (ef_no_force_push e \<or> pr_no_force_push rule),
             ef_no_delete := (ef_no_delete e \<or> pr_no_delete rule),
             ef_require_patch := (ef_require_patch e \<or> pr_require_patch rule)\<rparr>)"

definition for_ref :: "string \<Rightarrow> protection_rule list \<Rightarrow> effective_rules" where
  "for_ref ref_name rules =
     fold (union_rule ref_name) rules
       \<lparr>ef_push_role = None, ef_no_force_push = False, ef_no_delete = False, ef_require_patch = False,
        ef_has_explicit_match = False\<rparr>"

record denial =
  dn_ref_name :: string
  dn_reason :: string

definition evaluate_ref_update ::
  "ref_update \<Rightarrow> member_role \<Rightarrow> protection_rule list \<Rightarrow> (denial, unit) result" where
  "evaluate_ref_update update role rules =
     (let effective = for_ref (ru_ref_name update) rules;
          deny = (\<lambda>reason. Inl \<lparr>dn_ref_name = ru_ref_name update, dn_reason = reason\<rparr>);
          default_role = default_min_role (ru_ref_name update) (ru_kind update)
      in if \<not> ef_has_explicit_match effective then
           (if \<not> has_at_least role default_role
            then deny (''requires '' @ role_as_str default_role @ '' role (you have '' @ role_as_str role @
                   ''), using built-in defaults'')
            else Inr ())
         else if ef_require_patch effective
         then deny ''direct push denied: require-patch is set, submit a NIP-34 patch''
         else
           (let min_role = (case ef_push_role effective of
                 Some explicit \<Rightarrow>
                   if permission_level explicit \<ge> permission_level default_role then explicit else default_role
               | None \<Rightarrow> default_role)
            in if \<not> has_at_least role min_role
               then deny (''requires '' @ role_as_str min_role @ '' role (you have '' @ role_as_str role @ '')'')
               else if ef_no_force_push effective \<and> ru_kind update = NonFastForward
               then deny ''non-fast-forward update denied: no-force-push is set''
               else if ef_no_delete effective \<and> ru_kind update = Delete
               then deny ''ref deletion denied: no-delete is set''
               else Inr ()))"

definition evaluate_push ::
  "ref_update list \<Rightarrow> member_role \<Rightarrow> protection_rule list \<Rightarrow> (denial list, unit) result" where
  "evaluate_push updates role rules =
     (let denials = List.map_filter (\<lambda>u. case evaluate_ref_update u role rules of
                      Inl d \<Rightarrow> Some d | Inr _ \<Rightarrow> None) updates
      in if denials = [] then Inr () else Inl denials)"


section \<open>Patterns: parsing inverts printing\<close>

fun segment_str :: "pattern_segment \<Rightarrow> string" where
  "segment_str (Literal l) = l"
| "segment_str Wildcard = ''*''"
| "segment_str RecursiveWildcard = ''**''"

definition print_segments :: "pattern_segment list \<Rightarrow> string" where
  "print_segments segs = join_with (CHR ''/'') (map segment_str segs)"

fun wf_segments :: "pattern_segment list \<Rightarrow> bool" where
  "wf_segments [] = True"
| "wf_segments (Literal l # segs) = (l \<noteq> [] \<and> list_all literal_char l \<and> wf_segments segs)"
| "wf_segments (Wildcard # segs) = wf_segments segs"
| "wf_segments (RecursiveWildcard # segs) = (segs = [])"

fun wildcards :: "pattern_segment list \<Rightarrow> nat" where
  "wildcards [] = 0"
| "wildcards (Literal _ # segs) = wildcards segs"
| "wildcards (_ # segs) = Suc (wildcards segs)"

lemma literal_char_special: "\<not> literal_char (CHR ''*'')" "\<not> literal_char (CHR ''/'')"
  by code_simp+

lemma literal_char_glob:
  assumes "literal_char c"
  shows "\<not> glob_char c"
proof
  assume "glob_char c"
  then have "c \<in> set [CHR ''*'', CHR ''?'', CHR ''['', CHR '']'']" by (simp add: glob_char_def)
  moreover have "list_all (\<lambda>c. \<not> literal_char c) [CHR ''*'', CHR ''?'', CHR ''['', CHR '']'']" by code_simp
  ultimately have "\<not> literal_char c" unfolding list_all_iff by blast
  with assms show False by simp
qed

lemma literal_not_special:
  assumes "list_all literal_char l"
  shows "l \<noteq> ''**''" "l \<noteq> ''*''" "\<not> list_ex glob_char l" "CHR ''/'' \<notin> set l"
proof -
  have l: "literal_char c" if "c \<in> set l" for c using assms that by (simp add: list_all_iff)
  have "CHR ''*'' \<notin> set l" using l literal_char_special(1) by blast
  then show "l \<noteq> ''**''" "l \<noteq> ''*''" by auto
  show "\<not> list_ex glob_char l" using l literal_char_glob by (auto simp: list_ex_iff)
  show "CHR ''/'' \<notin> set l" using l literal_char_special(2) by blast
qed

lemma parse_segments_sound:
  "parse_segments w parts = Inr segs \<Longrightarrow>
     parts = map segment_str segs \<and> wf_segments segs \<and> (wildcards segs = 0 \<or> w + wildcards segs \<le> 3)"
proof (induction w parts arbitrary: segs rule: parse_segments.induct)
  case (2 w part rest)
  then show ?case
    by (fastforce simp: and_then_Inr_iff MAX_WILDCARDS_PER_PATTERN_def split: if_splits)
qed simp

lemma parse_segments_complete:
  "wf_segments segs \<Longrightarrow> wildcards segs = 0 \<or> w + wildcards segs \<le> 3 \<Longrightarrow>
     parse_segments w (map segment_str segs) = Inr segs"
proof (induction segs arbitrary: w rule: wf_segments.induct)
  case (2 l segs)
  then show ?case using literal_not_special [of l] by simp
qed (auto simp: MAX_WILDCARDS_PER_PATTERN_def)

lemma segment_str_no_slash: "wf_segments segs \<Longrightarrow> s \<in> set segs \<Longrightarrow> CHR ''/'' \<notin> set (segment_str s)"
  by (induction segs rule: wf_segments.induct) (auto dest: literal_not_special(4))

lemma split_print_segments:
  "wf_segments segs \<Longrightarrow> segs \<noteq> [] \<Longrightarrow> split_on (CHR ''/'') (print_segments segs) = map segment_str segs"
  unfolding print_segments_def by (rule split_join) (auto dest: segment_str_no_slash)

lemma starts_with_split:
  assumes "d \<notin> set w"
  shows "starts_with s (w @ [d]) \<longleftrightarrow> (\<exists>rest. rest \<noteq> [] \<and> split_on d s = w # rest)"
proof
  assume "starts_with s (w @ [d])"
  then obtain r where "s = w @ d # r" by (auto simp: starts_with_iff)
  then show "\<exists>rest. rest \<noteq> [] \<and> split_on d s = w # rest" by (simp add: split_on_append [OF assms])
next
  assume "\<exists>rest. rest \<noteq> [] \<and> split_on d s = w # rest"
  then obtain v rest where "split_on d s = w # v # rest" by (metis list.exhaust)
  then have "s = w @ d # join_with d (v # rest)" by (metis join_split join_with.simps(3))
  then show "starts_with s (w @ [d])" by (auto simp: starts_with_iff)
qed

definition wf_pattern :: "ref_pattern \<Rightarrow> bool" where
  "wf_pattern p \<longleftrightarrow> raw p = print_segments (segments p) \<and> wf_segments (segments p) \<and>
     wildcards (segments p) \<le> 3 \<and> length (raw p) \<le> 256 \<and>
     (\<exists>s rest. segments p = Literal ''refs'' # s # rest)"

lemma segment_str_refs: "wf_segments (seg # segs) \<Longrightarrow> segment_str seg = ''refs'' \<longleftrightarrow> seg = Literal ''refs''"
  by (cases seg) auto

lemma parse_pattern_wf:
  assumes "parse_pattern s = Inr p"
  shows "raw p = s \<and> wf_pattern p"
proof -
  from assms have len: "length s \<le> 256" and st: "starts_with s (''refs'' @ ''/'')"
    and segs: "parse_segments 0 (split_on (CHR ''/'') s) = Inr (segments p)" and r: "raw p = s"
    by (auto simp: parse_pattern_def and_then_Inr_iff MAX_PATTERN_LENGTH_def split: if_splits)
  note sound = parse_segments_sound [OF segs]
  have "print_segments (segments p) = s"
    using sound by (metis join_split print_segments_def)
  moreover obtain rest where rest: "rest \<noteq> []" "split_on (CHR ''/'') s = ''refs'' # rest"
    using st starts_with_split [of "CHR ''/''" "''refs''" s] by auto
  ultimately show ?thesis using sound len r segment_str_refs
    by (cases "segments p"; cases "tl (segments p)") (auto simp: wf_pattern_def)
qed

lemma parse_pattern_complete:
  assumes "wf_pattern p"
  shows "parse_pattern (raw p) = Inr p"
proof -
  from assms obtain s rest where segs: "segments p = Literal ''refs'' # s # rest"
    by (auto simp: wf_pattern_def)
  have split: "split_on (CHR ''/'') (raw p) = map segment_str (segments p)"
  proof -
    have "raw p = print_segments (segments p)" "wf_segments (segments p)"
      using assms by (simp_all add: wf_pattern_def)
    moreover have "segments p \<noteq> []" using segs by simp
    ultimately show ?thesis using split_print_segments by metis
  qed
  then have "starts_with (raw p) (''refs'' @ ''/'')"
    by (subst starts_with_split) (auto simp: segs)
  moreover from this have "raw p \<noteq> []" by (auto simp: starts_with_def)
  moreover have "parse_segments 0 (map segment_str (segments p)) = Inr (segments p)"
    using assms by (intro parse_segments_complete) (simp_all add: wf_pattern_def)
  moreover have "length (raw p) \<le> 256" using assms unfolding wf_pattern_def by blast
  ultimately show ?thesis
    by (simp add: parse_pattern_def split MAX_PATTERN_LENGTH_def)
qed

section \<open>Patterns: matching\<close>

fun segments_match :: "pattern_segment list \<Rightarrow> string list \<Rightarrow> bool" where
  "segments_match [] parts = (parts = [])"
| "segments_match (RecursiveWildcard # segs) parts = (segs = [] \<and> parts \<noteq> [])"
| "segments_match (_ # segs) [] = False"
| "segments_match (Wildcard # segs) (p # parts) = segments_match segs parts"
| "segments_match (Literal l # segs) (p # parts) = (l = p \<and> segments_match segs parts)"

definition ends_recursive :: "pattern_segment list \<Rightarrow> bool" where
  "ends_recursive segs \<longleftrightarrow> segs \<noteq> [] \<and> last segs = RecursiveWildcard"

lemma segments_match_exact:
  "wf_segments segs \<Longrightarrow> \<not> ends_recursive segs \<Longrightarrow>
     (if length parts = length segs then all_segments_match (zip segs parts) = Some (segments_match segs parts)
      else \<not> segments_match segs parts)"
  by (induction segs parts rule: segments_match.induct) (auto simp: ends_recursive_def split: if_splits)

lemma segments_match_recursive:
  "wf_segments segs \<Longrightarrow> ends_recursive segs \<Longrightarrow>
     (if length parts \<le> length segs - 1 then \<not> segments_match segs parts
      else all_segments_match (zip (take (length segs - 1) segs) (take (length segs - 1) parts)) =
             Some (segments_match segs parts))"
proof (induction segs parts rule: segments_match.induct)
  case (4 segs p parts)
  then show ?case by (cases segs) (auto simp: ends_recursive_def split: if_splits)
next
  case (5 l segs p parts)
  then show ?case by (cases segs) (auto simp: ends_recursive_def split: if_splits)
qed (auto simp: ends_recursive_def)

lemma pattern_matches_spec:
  assumes "wf_segments (segments p)"
  shows "pattern_matches p ref_name = Some (segments_match (segments p) (split_on (CHR ''/'') ref_name))"
  using segments_match_exact [OF assms, of "split_on (CHR ''/'') ref_name"]
    segments_match_recursive [OF assms, of "split_on (CHR ''/'') ref_name"]
  by (auto simp: pattern_matches_def Let_def ends_recursive_def split: if_splits)


section \<open>The union of matching rules\<close>

definition matching :: "string \<Rightarrow> protection_rule list \<Rightarrow> protection_rule set" where
  "matching ref_name rules = {rule \<in> set rules. rule_matches ref_name rule}"

lemma matching_simps [simp]:
  "matching n [] = {}"
  "matching n (r # rs) = (if rule_matches n r then insert r (matching n rs) else matching n rs)"
  by (auto simp: matching_def)

text \<open>The least permission level a role option demands, 0 when it demands none.\<close>

definition demanded :: "member_role option \<Rightarrow> nat" where
  "demanded ro = (case ro of Some r \<Rightarrow> permission_level r | None \<Rightarrow> 0)"

lemma demanded_simps [simp]: "demanded None = 0" "demanded (Some r) = permission_level r"
  by (simp_all add: demanded_def)

lemma permission_level_stricter: "permission_level (stricter e r) = max (demanded e) (permission_level r)"
  by (auto simp: stricter_def demanded_def split: option.splits)

lemma fold_union_rule:
  "ef_has_explicit_match (fold (union_rule n) rules e) = (ef_has_explicit_match e \<or> matching n rules \<noteq> {}) \<and>
   ef_require_patch (fold (union_rule n) rules e) = (ef_require_patch e \<or> (\<exists>r \<in> matching n rules. pr_require_patch r)) \<and>
   ef_no_force_push (fold (union_rule n) rules e) = (ef_no_force_push e \<or> (\<exists>r \<in> matching n rules. pr_no_force_push r)) \<and>
   ef_no_delete (fold (union_rule n) rules e) = (ef_no_delete e \<or> (\<exists>r \<in> matching n rules. pr_no_delete r)) \<and>
   (\<forall>k. k \<ge> demanded (ef_push_role (fold (union_rule n) rules e)) \<longleftrightarrow>
      k \<ge> demanded (ef_push_role e) \<and> (\<forall>r \<in> matching n rules. k \<ge> demanded (pr_push_role r)))"
proof (induction rules arbitrary: e)
  case (Cons rule rules)
  have "demanded (case pr_push_role rule of None \<Rightarrow> ef_push_role e | Some r \<Rightarrow> Some (stricter (ef_push_role e) r)) =
      max (demanded (ef_push_role e)) (demanded (pr_push_role rule))"
    by (auto simp: permission_level_stricter split: option.splits)
  with Cons show ?case by (auto simp: union_rule_def)
qed simp

lemma for_ref_spec:
  "ef_has_explicit_match (for_ref n rules) \<longleftrightarrow> matching n rules \<noteq> {}"
  "ef_require_patch (for_ref n rules) \<longleftrightarrow> (\<exists>r \<in> matching n rules. pr_require_patch r)"
  "ef_no_force_push (for_ref n rules) \<longleftrightarrow> (\<exists>r \<in> matching n rules. pr_no_force_push r)"
  "ef_no_delete (for_ref n rules) \<longleftrightarrow> (\<exists>r \<in> matching n rules. pr_no_delete r)"
  "k \<ge> demanded (ef_push_role (for_ref n rules)) \<longleftrightarrow> (\<forall>r \<in> matching n rules. k \<ge> demanded (pr_push_role r))"
  using fold_union_rule [of n rules "\<lparr>ef_push_role = None, ef_no_force_push = False, ef_no_delete = False,
      ef_require_patch = False, ef_has_explicit_match = False\<rparr>"]
  by (simp_all add: for_ref_def)

text \<open>What the policy demands of one update: the role reaches the built-in default and the role
  of every matching rule, and no matching rule forbids this kind of update.\<close>

definition update_permitted :: "protection_rule list \<Rightarrow> member_role \<Rightarrow> ref_update \<Rightarrow> bool" where
  "update_permitted rules role u \<longleftrightarrow>
     permission_level role \<ge> permission_level (default_min_role (ru_ref_name u) (ru_kind u)) \<and>
     (\<forall>r \<in> matching (ru_ref_name u) rules.
        permission_level role \<ge> demanded (pr_push_role r) \<and> \<not> pr_require_patch r \<and>
        (ru_kind u = NonFastForward \<longrightarrow> \<not> pr_no_force_push r) \<and> (ru_kind u = Delete \<longrightarrow> \<not> pr_no_delete r))"

lemma evaluate_ref_update_ok:
  "evaluate_ref_update u role rules = Inr () \<longleftrightarrow> update_permitted rules role u"
proof -
  define e where "e = for_ref (ru_ref_name u) rules"
  define d where "d = default_min_role (ru_ref_name u) (ru_kind u)"
  have min: "has_at_least role (case ef_push_role e of
        Some explicit \<Rightarrow> if permission_level explicit \<ge> permission_level d then explicit else d | None \<Rightarrow> d) \<longleftrightarrow>
      permission_level role \<ge> permission_level d \<and> permission_level role \<ge> demanded (ef_push_role e)"
    by (auto simp: has_at_least_def split: option.splits)
  have "evaluate_ref_update u role rules = Inr () \<longleftrightarrow>
      (if ef_has_explicit_match e then \<not> ef_require_patch e \<and>
         has_at_least role (case ef_push_role e of
           Some explicit \<Rightarrow> if permission_level explicit \<ge> permission_level d then explicit else d | None \<Rightarrow> d) \<and>
         \<not> (ef_no_force_push e \<and> ru_kind u = NonFastForward) \<and> \<not> (ef_no_delete e \<and> ru_kind u = Delete)
       else has_at_least role d)"
    by (simp add: evaluate_ref_update_def Let_def flip: e_def d_def)
  then show ?thesis
    unfolding min
    unfolding has_at_least_def e_def d_def for_ref_spec update_permitted_def by auto
qed

lemma evaluate_push_ok: "evaluate_push us role rules = Inr () \<longleftrightarrow> (\<forall>u \<in> set us. update_permitted rules role u)"
proof -
  have "List.map_filter (\<lambda>u. case evaluate_ref_update u role rules of Inl d \<Rightarrow> Some d | Inr _ \<Rightarrow> None) us = [] \<longleftrightarrow>
      (\<forall>u \<in> set us. evaluate_ref_update u role rules = Inr ())"
    by (induction us) (auto simp: List.map_filter_def split: sum.splits)
  then show ?thesis by (auto simp: evaluate_push_def Let_def evaluate_ref_update_ok)
qed

lemma map_filter_conv: "List.map_filter f xs = map (\<lambda>x. the (f x)) (filter (\<lambda>x. f x \<noteq> None) xs)"
  by (induction xs) (auto simp: List.map_filter_def)

section \<open>Properties\<close>

text \<open>Ref patterns: the parser accepts exactly the printed forms of well-formed patterns
  (a leading refs segment, at least one more, literal segments over the allowed characters,
  at most three wildcards, a recursive wildcard only at the end, at most 256 bytes), and
  parsing then printing gives the text back.\<close>

theorem parse_pattern_round_trip:
  "parse_pattern s = Inr p \<longleftrightarrow> raw p = s \<and> wf_pattern p"
  using parse_pattern_wf parse_pattern_complete by blast

text \<open>A parsed pattern never panics and matches a ref segment by segment: a literal the same
  text, a star exactly one segment, a trailing double star one or more.\<close>

theorem pattern_matches_segmentwise:
  assumes "parse_pattern s = Inr p"
  shows "pattern_matches p ref_name = Some (segments_match (segments p) (split_on (CHR ''/'') ref_name))"
  using parse_pattern_wf [OF assms] by (simp add: pattern_matches_spec wf_pattern_def)

theorem pattern_matches_segmentwise_witness:
  "\<exists>p. parse_pattern ''refs/heads/*'' = Inr p \<and>
     pattern_matches p ''refs/heads/main'' = Some True \<and> pattern_matches p ''refs/heads/a/b'' = Some False"
proof -
  have p: "parse_pattern ''refs/heads/*'' =
      Inr \<lparr>raw = ''refs/heads/*'', segments = [Literal ''refs'', Literal ''heads'', Wildcard]\<rparr>"
    by code_simp
  show ?thesis
    using pattern_matches_segmentwise [OF p, of "''refs/heads/main''"]
      pattern_matches_segmentwise [OF p, of "''refs/heads/a/b''"] p
    by simp
qed

text \<open>C34.  A push is accepted iff every ref update is permitted: the role reaches both the
  built-in default and the strictest role of all matching rules, and no matching rule asks for
  a patch or forbids the force push or the deletion.  A rejection carries one denial per
  update that is not permitted, in the order of the updates.\<close>

theorem evaluate_push_spec:
  "evaluate_push us role rules =
     (if list_all (update_permitted rules role) us then Inr ()
      else Inl (map (\<lambda>u. case evaluate_ref_update u role rules of Inl d \<Rightarrow> d)
             (filter (\<lambda>u. \<not> update_permitted rules role u) us)))"
proof -
  define f where "f = (\<lambda>u. case evaluate_ref_update u role rules of Inl d \<Rightarrow> Some d | Inr _ \<Rightarrow> None)"
  have fNone: "f u \<noteq> None \<longleftrightarrow> \<not> update_permitted rules role u" for u
    unfolding evaluate_ref_update_ok [symmetric] f_def by (auto split: sum.splits)
  have "map (\<lambda>u. the (f u)) (filter (\<lambda>u. \<not> update_permitted rules role u) us) =
      map (\<lambda>u. case evaluate_ref_update u role rules of Inl d \<Rightarrow> d) (filter (\<lambda>u. \<not> update_permitted rules role u) us)"
  proof (rule map_cong)
    fix u assume "u \<in> set (filter (\<lambda>u. \<not> update_permitted rules role u) us)"
    then have "\<not> update_permitted rules role u" by simp
    then have "f u \<noteq> None" using fNone by blast
    then show "the (f u) = (case evaluate_ref_update u role rules of Inl d \<Rightarrow> d)"
      by (auto simp: f_def split: sum.splits)
  qed simp
  then have "List.map_filter f us =
      map (\<lambda>u. case evaluate_ref_update u role rules of Inl d \<Rightarrow> d) (filter (\<lambda>u. \<not> update_permitted rules role u) us)"
    by (simp only: map_filter_conv fNone)
  then show ?thesis
    using evaluate_push_ok [of us role rules]
    by (auto simp: evaluate_push_def Let_def f_def list_all_iff split: if_splits)
qed

text \<open>Protection only restricts: adding rules, in any position, never makes a rejected push
  acceptable, and a higher role never loses one.\<close>

theorem protection_only_restricts:
  assumes "set rules \<subseteq> set rules'" and "permission_level role' \<le> permission_level role"
    and "evaluate_push us role' rules' = Inr ()"
  shows "evaluate_push us role rules = Inr ()"
proof -
  have "matching n rules \<subseteq> matching n rules'" for n using assms(1) by (auto simp: matching_def)
  then show ?thesis using assms(2,3)
    unfolding evaluate_push_ok update_permitted_def by (meson le_trans subsetD)
qed

theorem protection_only_restricts_witness:
  "evaluate_push [\<lparr>ru_ref_name = ''refs/heads/main'', ru_kind = FastForward, ru_old_oid = [], ru_new_oid = []\<rparr>]
     Admin [] = Inr ()"
proof -
  have "evaluate_push [\<lparr>ru_ref_name = ''refs/heads/main'', ru_kind = FastForward, ru_old_oid = [], ru_new_oid = []\<rparr>]
     Member [empty_rule \<lparr>raw = ''refs/heads/*'', segments = [Literal ''refs'', Literal ''heads'', Wildcard]\<rparr>] = Inr ()"
    by code_simp
  from protection_only_restricts [OF _ _ this, of "[]" Admin] show ?thesis by simp
qed

end
