(* ===== verification/Git_Push_Policy.thy ===== *)
theory Git_Push_Policy
  imports Git_Perms Nostr_Events "HOL-Library.Char_ord" "HOL-Library.List_Lexorder"
begin

text \<open>The relay's push policy endpoint: the channel binding of a repository announcement
  (crates/punks-relay/src/api/git/binding.rs) and the pre-receive hook callback with its signed
  payload (crates/punks-relay/src/api/git/policy.rs).  The database, the MAC and the hex and
  UUID codecs are other code and enter as the fields of \<open>git_env\<close>; a database error is the left
  value.  The lemmas show that the signed payload determines the request, that the endpoint
  allows a push exactly under the conditions of its specification, and that nobody below
  member standing gets through it.\<close>

section \<open>Channel binding (binding.rs)\<close>

datatype repo_binding = NotBound | Bound uuid | Broken

definition resolve_repo_binding :: "(string \<Rightarrow> uuid option) \<Rightarrow> event \<Rightarrow> repo_binding" where
  "resolve_repo_binding parse ev =
     (case find (\<lambda>t. t \<noteq> [] \<and> hd t = ''punks-channel'') (ev_tags ev) of
        None \<Rightarrow> NotBound
      | Some first \<Rightarrow>
          (if length first \<ge> 2 then (case parse (first ! 1) of Some i \<Rightarrow> Bound i | None \<Rightarrow> Broken)
           else Broken))"

section \<open>Hook callback (policy.rs)\<close>

definition MAX_CALLBACK_AGE_SECS :: nat where
  "MAX_CALLBACK_AGE_SECS = 30"

record hook_ref_update =
  h_old_oid :: string
  h_new_oid :: string
  h_ref_name :: string
  h_is_ancestor :: bool

record hook_request =
  h_repo_id :: string
  h_repo_owner :: string
  h_community_id :: string
  h_pusher_pubkey :: string
  h_ref_updates :: "hook_ref_update list"
  h_timestamp :: timestamp
  h_signature :: string

datatype hook_response = Forbidden string | Denied "denial list" | Allowed

record git_env =
  g_uuid_parse :: "string \<Rightarrow> uuid option"
  g_hex_decode :: "string \<Rightarrow> bytes option"
  g_hex_encode :: "bytes \<Rightarrow> string"
  g_hmac_sha256 :: "string \<Rightarrow> string \<Rightarrow> bytes"
  g_secret :: string
  g_query_announcement :: "community_id \<Rightarrow> bytes \<Rightarrow> string \<Rightarrow> (unit, event list) result"
  g_channel_archived :: "community_id \<Rightarrow> channel_id \<Rightarrow> (unit, bool) result"
  g_is_agent_owner :: "community_id \<Rightarrow> bytes \<Rightarrow> bytes \<Rightarrow> (unit, bool) result"
  g_get_member_role :: "community_id \<Rightarrow> channel_id \<Rightarrow> bytes \<Rightarrow> (unit, string option) result"

definition ref_payload :: "hook_ref_update \<Rightarrow> string" where
  "ref_payload r = h_old_oid r @ h_new_oid r @ decimal (length (h_ref_name r)) @ '':'' @ h_ref_name r @
     (if h_is_ancestor r then ''1'' else ''0'')"

definition hmac_payload :: "hook_request \<Rightarrow> string" where
  "hmac_payload req = decimal (length (h_repo_id req)) @ '':'' @ h_repo_id req @ ''|'' @ h_repo_owner req @ ''|'' @
     h_community_id req @ ''|'' @ h_pusher_pubkey req @ ''|'' @
     concat (map ref_payload (sort_key h_ref_name (h_ref_updates req))) @ ''|'' @ decimal (h_timestamp req)"

definition compute_hmac :: "git_env \<Rightarrow> string \<Rightarrow> hook_request \<Rightarrow> bytes" where
  "compute_hmac env secret req = g_hmac_sha256 env secret (hmac_payload req)"

definition verify_hmac :: "git_env \<Rightarrow> string \<Rightarrow> hook_request \<Rightarrow> bool" where
  "verify_hmac env secret req =
     (case g_hex_decode env (h_signature req) of
        Some provided \<Rightarrow> compute_hmac env secret req = provided
      | None \<Rightarrow> False)"

definition generate_hook_hmac ::
  "git_env \<Rightarrow> string \<Rightarrow> string \<Rightarrow> string \<Rightarrow> string \<Rightarrow> string \<Rightarrow> hook_ref_update list \<Rightarrow> timestamp \<Rightarrow> string" where
  "generate_hook_hmac env secret repo_id repo_owner community_id pusher refs ts =
     g_hex_encode env (compute_hmac env secret
       \<lparr>h_repo_id = repo_id, h_repo_owner = repo_owner, h_community_id = community_id,
        h_pusher_pubkey = pusher, h_ref_updates = refs, h_timestamp = ts, h_signature = []\<rparr>)"

definition is_ascii_uppercase :: "char \<Rightarrow> bool" where
  "is_ascii_uppercase c = (of_char c \<ge> (65::nat) \<and> of_char c \<le> (90::nat))"

definition lower_hex_64 :: "string \<Rightarrow> bool" where
  "lower_hex_64 s = (length s = 64 \<and> list_all (\<lambda>c. is_ascii_hexdigit c \<and> \<not> is_ascii_uppercase c) s)"

fun has_dotdot :: "string \<Rightarrow> bool" where
  "has_dotdot (a # b # s) = ((a = CHR ''.'' \<and> b = CHR ''.'') \<or> has_dotdot (b # s))"
| "has_dotdot _ = False"

definition check_ref :: "hook_ref_update \<Rightarrow> (string, unit) result" where
  "check_ref r =
     (if length (h_old_oid r) \<noteq> 40 \<or> \<not> list_all is_ascii_hexdigit (h_old_oid r) then Inl ''invalid old_oid''
      else if length (h_new_oid r) \<noteq> 40 \<or> \<not> list_all is_ascii_hexdigit (h_new_oid r) then Inl ''invalid new_oid''
      else if h_ref_name r = [] \<or> length (h_ref_name r) > 256 \<or> \<not> starts_with (h_ref_name r) ''refs/'' \<or>
              has_dotdot (h_ref_name r) \<or>
              list_ex (\<lambda>b. of_char b \<le> (0x20::nat) \<or> of_char b = (0x7f::nat)) (h_ref_name r)
      then Inl ''invalid ref_name''
      else Inr ())"

fun check_refs :: "hook_ref_update list \<Rightarrow> (string, unit) result" where
  "check_refs [] = Inr ()"
| "check_refs (r # rs) = and_then (check_ref r) (\<lambda>_. check_refs rs)"

definition validate_request :: "git_env \<Rightarrow> hook_request \<Rightarrow> (string, community_id) result" where
  "validate_request env req =
     (if h_repo_id req = [] \<or> length (h_repo_id req) > 64 then Inl ''invalid repo_id''
      else if \<not> lower_hex_64 (h_repo_owner req) then Inl ''invalid repo_owner''
      else if \<not> lower_hex_64 (h_pusher_pubkey req) then Inl ''invalid pusher_pubkey''
      else case g_uuid_parse env (h_community_id req) of
        None \<Rightarrow> Inl ''invalid community_id''
      | Some community \<Rightarrow>
          if h_ref_updates req = [] \<or> length (h_ref_updates req) > 500 then Inl ''invalid ref_updates count''
          else and_then (check_refs (h_ref_updates req)) (\<lambda>_. Inr community))"

definition decode_pubkey :: "git_env \<Rightarrow> string \<Rightarrow> string \<Rightarrow> (string, bytes) result" where
  "decode_pubkey env s msg =
     (case g_hex_decode env s of Some b \<Rightarrow> if length b = 32 then Inr b else Inl msg | None \<Rightarrow> Inl msg)"

definition GIT_NO_CHANNEL_BINDING_BODY :: string where
  "GIT_NO_CHANNEL_BINDING_BODY = ''no_channel_binding: repository has no channel binding''"

definition channel_check :: "git_env \<Rightarrow> community_id \<Rightarrow> channel_id option \<Rightarrow> (string, unit) result" where
  "channel_check env community channel =
     (case channel of
        None \<Rightarrow> Inr ()
      | Some ch \<Rightarrow>
          (case g_channel_archived env community ch of
             Inr True \<Rightarrow> Inl ''channel is archived (read-only)''
           | Inl _ \<Rightarrow> Inl ''internal error''
           | Inr False \<Rightarrow> Inr ()))"

definition agent_owner_check ::
  "git_env \<Rightarrow> community_id \<Rightarrow> bool \<Rightarrow> bytes \<Rightarrow> bytes \<Rightarrow> (string, bool) result" where
  "agent_owner_check env community is_repo_owner owner pusher =
     (if is_repo_owner then Inr False
      else case g_is_agent_owner env community owner pusher of
        Inr b \<Rightarrow> Inr b
      | Inl _ \<Rightarrow> Inl ''internal error'')"

definition channel_role ::
  "git_env \<Rightarrow> community_id \<Rightarrow> channel_id option \<Rightarrow> bytes \<Rightarrow> (string, member_role) result" where
  "channel_role env community channel pusher =
     (case channel of
        None \<Rightarrow> Inl GIT_NO_CHANNEL_BINDING_BODY
      | Some ch \<Rightarrow>
          (case g_get_member_role env community ch pusher of
             Inr (Some role_str) \<Rightarrow>
               (case role_from_str role_str of Some r \<Rightarrow> Inr r | None \<Rightarrow> Inl ''internal error'')
           | Inr None \<Rightarrow> Inl ''not a channel member''
           | Inl _ \<Rightarrow> Inl ''internal error''))"

definition git_role :: "member_role \<Rightarrow> member_role" where
  "git_role role = (if role = Bot then Member else role)"

definition to_ref_update :: "hook_ref_update \<Rightarrow> ref_update" where
  "to_ref_update r =
     \<lparr>ru_ref_name = h_ref_name r, ru_kind = classify (h_old_oid r) (h_new_oid r) (h_is_ancestor r),
      ru_old_oid = h_old_oid r, ru_new_oid = h_new_oid r\<rparr>"

definition authenticate_callback :: "git_env \<Rightarrow> timestamp \<Rightarrow> hook_request \<Rightarrow> (string, community_id) result" where
  "authenticate_callback env now req =
     and_then (validate_request env req) (\<lambda>community.
     if \<not> verify_hmac env (g_secret env) req then Inl ''signature verification failed''
     else if now - h_timestamp req > MAX_CALLBACK_AGE_SECS then Inl ''callback expired''
     else if h_timestamp req - now > 5 then Inl ''callback timestamp invalid''
     else Inr community)"

definition find_announcement ::
  "git_env \<Rightarrow> community_id \<Rightarrow> hook_request \<Rightarrow> (string, bytes \<times> event) result" where
  "find_announcement env community req =
     and_then (decode_pubkey env (h_repo_owner req) ''invalid repo owner'') (\<lambda>owner.
     case g_query_announcement env community owner (h_repo_id req) of
       Inl _ \<Rightarrow> Inl ''internal error''
     | Inr events \<Rightarrow> if events = [] then Inl ''repository not found'' else Inr (owner, last events))"

definition bound_channel :: "repo_binding \<Rightarrow> (string, channel_id option) result" where
  "bound_channel b =
     (case b of Bound ch \<Rightarrow> Inr (Some ch) | NotBound \<Rightarrow> Inr None | Broken \<Rightarrow> Inl ''invalid channel binding'')"

definition resolve_role ::
  "git_env \<Rightarrow> community_id \<Rightarrow> hook_request \<Rightarrow> bytes \<Rightarrow> event \<Rightarrow> channel_id option \<Rightarrow> (string, member_role) result" where
  "resolve_role env community req owner ev channel =
     and_then (decode_pubkey env (h_pusher_pubkey req) ''invalid pusher pubkey'') (\<lambda>pusher.
     let is_repo_owner = (h_pusher_pubkey req = g_hex_encode env (ev_pubkey ev)) in
     and_then (agent_owner_check env community is_repo_owner owner pusher) (\<lambda>is_agent_owner.
     if is_repo_owner \<or> is_agent_owner then Inr Owner
     else channel_role env community channel pusher))"

definition resolve_push ::
  "git_env \<Rightarrow> timestamp \<Rightarrow> hook_request \<Rightarrow> (string, member_role \<times> protection_rule list) result" where
  "resolve_push env now req =
     and_then (authenticate_callback env now req) (\<lambda>community.
     and_then (find_announcement env community req) (\<lambda>(owner, ev).
     case parse_protection_tags (ev_tags ev) of
       Inl _ \<Rightarrow> Inl ''malformed protection rules''
     | Inr parsed \<Rightarrow>
         and_then (bound_channel (resolve_repo_binding (g_uuid_parse env) ev)) (\<lambda>channel.
         and_then (channel_check env community channel) (\<lambda>_.
         and_then (resolve_role env community req owner ev channel) (\<lambda>role.
         Inr (git_role role, pp_rules parsed))))))"

definition hook_policy_check :: "git_env \<Rightarrow> timestamp \<Rightarrow> hook_request \<Rightarrow> hook_response" where
  "hook_policy_check env now req =
     (case resolve_push env now req of
        Inl msg \<Rightarrow> Forbidden msg
      | Inr (role, rules) \<Rightarrow>
          (case evaluate_push (map to_ref_update (h_ref_updates req)) role rules of
             Inr _ \<Rightarrow> Allowed
           | Inl denials \<Rightarrow> Denied denials))"


section \<open>The signed payload\<close>

lemma non_digits: "\<not> is_ascii_digit (CHR '':'')" "\<not> is_ascii_hexdigit (CHR ''|'')"
  by code_simp+

lemma decimal_no_colon: "CHR '':'' \<notin> set (decimal n)"
  using decimal_digits [of n] non_digits(1) by (auto simp: list_all_iff)

lemma delimited_inj:
  "d \<notin> set a \<Longrightarrow> d \<notin> set b \<Longrightarrow> a @ d # x = b @ d # y \<longleftrightarrow> a = b \<and> x = y"
proof (induction a arbitrary: b)
  case Nil
  then show ?case by (cases b) auto
next
  case (Cons c a)
  then show ?case by (cases b) auto
qed

text \<open>A length prefix makes a field self-delimiting.\<close>

lemma length_prefixed_inj:
  assumes "decimal (length x) @ '':'' @ x @ u = decimal (length y) @ '':'' @ y @ v"
  shows "x = y \<and> u = v"
proof -
  have "decimal (length x) = decimal (length y) \<and> x @ u = y @ v"
    using assms by (simp add: delimited_inj decimal_no_colon)
  then show ?thesis by (auto simp: decimal_inj)
qed

definition ref_shape :: "hook_ref_update \<Rightarrow> bool" where
  "ref_shape r \<longleftrightarrow> length (h_old_oid r) = 40 \<and> length (h_new_oid r) = 40 \<and> list_all is_ascii_hexdigit (h_old_oid r)"

lemma ref_payload_inj:
  assumes "ref_shape r" "ref_shape r'" "ref_payload r @ u = ref_payload r' @ v"
  shows "r = r' \<and> u = v"
proof -
  from assms have oids: "h_old_oid r = h_old_oid r'" "h_new_oid r = h_new_oid r'"
    and rest: "decimal (length (h_ref_name r)) @ '':'' @ h_ref_name r @ ((if h_is_ancestor r then ''1'' else ''0'') @ u) =
      decimal (length (h_ref_name r')) @ '':'' @ h_ref_name r' @ ((if h_is_ancestor r' then ''1'' else ''0'') @ v)"
    by (auto simp: ref_payload_def ref_shape_def)
  from length_prefixed_inj [OF rest] oids show ?thesis by (cases r; cases r') (auto split: if_splits)
qed

lemma ref_payload_head: "ref_shape r \<Longrightarrow> ref_payload r @ u \<noteq> CHR ''|'' # v"
  using non_digits(2) by (cases "h_old_oid r") (auto simp: ref_payload_def ref_shape_def)

lemma refs_payload_inj:
  assumes "list_all ref_shape rs" "list_all ref_shape rs'"
    and "concat (map ref_payload rs) @ CHR ''|'' # u = concat (map ref_payload rs') @ CHR ''|'' # v"
  shows "rs = rs' \<and> u = v"
  using assms
proof (induction rs arbitrary: rs')
  case Nil
  show ?case
  proof (cases rs')
    case (Cons r' rs'')
    then show ?thesis using Nil ref_payload_head [of r' "concat (map ref_payload rs'') @ CHR ''|'' # v" u] by auto
  qed (use Nil in simp)
next
  case (Cons r rs)
  show ?case
  proof (cases rs')
    case Nil
    then show ?thesis using Cons.prems
        ref_payload_head [of r "concat (map ref_payload rs) @ CHR ''|'' # u" v] by auto
  next
    case (Cons r' rs'')
    with Cons.prems have "ref_payload r @ (concat (map ref_payload rs) @ CHR ''|'' # u) =
        ref_payload r' @ (concat (map ref_payload rs'') @ CHR ''|'' # v)" by simp
    with ref_payload_inj [OF _ _ this] Cons.prems Cons Cons.IH [of rs''] show ?thesis by auto
  qed
qed

lemma check_refs_ok: "check_refs rs = Inr () \<longleftrightarrow> (\<forall>r \<in> set rs. check_ref r = Inr ())"
  by (induction rs) (auto simp: and_then_Inr_iff)

lemma check_ref_shape: "check_ref r = Inr () \<Longrightarrow> ref_shape r"
  by (auto simp: check_ref_def ref_shape_def split: if_splits)

lemma validate_request_shape:
  assumes "validate_request env req = Inr community"
  shows "length (h_repo_owner req) = 64" "length (h_pusher_pubkey req) = 64"
    "g_uuid_parse env (h_community_id req) = Some community"
    "list_all ref_shape (h_ref_updates req)" "h_ref_updates req \<noteq> []"
  using assms
  by (auto simp: validate_request_def lower_hex_64_def and_then_Inr_iff check_refs_ok list_all_iff check_ref_shape
      split: if_splits option.splits)

text \<open>The MAC binds the whole request: two requests that pass the structural checks and have
  the same signed payload agree on repository, owner, community, pusher, timestamp and, up to
  the order they were listed in, on every ref update.  It relies on the UUID parser accepting
  no text that contains a vertical bar.\<close>

theorem hmac_payload_determines_request:
  assumes "\<And>s u. g_uuid_parse env s = Some u \<Longrightarrow> CHR ''|'' \<notin> set s"
    and "validate_request env req = Inr c" and "validate_request env req' = Inr c'"
    and "hmac_payload req = hmac_payload req'"
  shows "h_repo_id req = h_repo_id req' \<and> h_repo_owner req = h_repo_owner req' \<and>
    h_community_id req = h_community_id req' \<and> h_pusher_pubkey req = h_pusher_pubkey req' \<and>
    sort_key h_ref_name (h_ref_updates req) = sort_key h_ref_name (h_ref_updates req') \<and>
    h_timestamp req = h_timestamp req'"
proof -
  note sh = validate_request_shape [OF assms(2)] and sh' = validate_request_shape [OF assms(3)]
  have nobar: "CHR ''|'' \<notin> set (h_community_id req)" "CHR ''|'' \<notin> set (h_community_id req')"
    using assms(1) sh(3) sh'(3) by blast+
  define tail :: "hook_request \<Rightarrow> string" where "tail = (\<lambda>r. ''|'' @ h_pusher_pubkey r @ ''|'' @
      concat (map ref_payload (sort_key h_ref_name (h_ref_updates r))) @ ''|'' @ decimal (h_timestamp r))"
  have "h_repo_id req = h_repo_id req' \<and>
      ''|'' @ h_repo_owner req @ ''|'' @ h_community_id req @ tail req =
      ''|'' @ h_repo_owner req' @ ''|'' @ h_community_id req' @ tail req'"
    using assms(4) by (intro length_prefixed_inj) (simp add: hmac_payload_def tail_def)
  then have id: "h_repo_id req = h_repo_id req'" "h_repo_owner req = h_repo_owner req'"
    and rest: "h_community_id req @ tail req = h_community_id req' @ tail req'"
    using sh(1) sh'(1) by auto
  from rest nobar have com: "h_community_id req = h_community_id req'" and "tl (tail req) = tl (tail req')"
    by (auto simp: tail_def delimited_inj)
  then have pusher: "h_pusher_pubkey req = h_pusher_pubkey req'"
    and refs: "concat (map ref_payload (sort_key h_ref_name (h_ref_updates req))) @ CHR ''|'' # decimal (h_timestamp req) =
      concat (map ref_payload (sort_key h_ref_name (h_ref_updates req'))) @ CHR ''|'' # decimal (h_timestamp req')"
    using sh(2) sh'(2) by (auto simp: tail_def)
  have "list_all ref_shape (sort_key h_ref_name (h_ref_updates req))"
    "list_all ref_shape (sort_key h_ref_name (h_ref_updates req'))"
    using sh(4) sh'(4) by (simp_all add: list_all_iff)
  from refs_payload_inj [OF this refs] id com pusher show ?thesis by (simp add: decimal_inj)
qed


definition ex_git_env :: "event list \<Rightarrow> git_env" where
  "ex_git_env evs = \<lparr>g_uuid_parse = (\<lambda>s. if CHR ''|'' \<in> set s then None else Some (length s)),
     g_hex_decode = (\<lambda>s. Some (map (\<lambda>c. of_nat (of_char c)) (take 32 s))),
     g_hex_encode = (\<lambda>b. replicate 64 (CHR ''a'')),
     g_hmac_sha256 = (\<lambda>k m. replicate 32 7), g_secret = ''k'',
     g_query_announcement = (\<lambda>com owner d. Inr evs),
     g_channel_archived = (\<lambda>com ch. Inr False),
     g_is_agent_owner = (\<lambda>com owner pusher. Inr False),
     g_get_member_role = (\<lambda>com ch pusher. Inr (Some ''bot''))\<rparr>"

definition ex_hook_request :: hook_request where
  "ex_hook_request = \<lparr>h_repo_id = ''repo'', h_repo_owner = replicate 64 (CHR ''a''), h_community_id = ''xyz'',
     h_pusher_pubkey = replicate 64 (CHR ''b''),
     h_ref_updates = [\<lparr>h_old_oid = replicate 40 (CHR ''1''), h_new_oid = replicate 40 (CHR ''2''),
                       h_ref_name = ''refs/heads/main'', h_is_ancestor = True\<rparr>],
     h_timestamp = 100, h_signature = replicate 32 (char_of (7::nat))\<rparr>"

definition ex_announcement :: event where
  "ex_announcement = \<lparr>ev_id = [], ev_pubkey = [], ev_created_at = 0, ev_kind = 30617,
     ev_tags = [[''punks-channel'', ''chan''], [''punks-protect'', ''refs/heads/*'', ''push:member'', ''no-force-push'']],
     ev_content = []\<rparr>"

lemma ex_hook_request_valid: "validate_request (ex_git_env [ex_announcement]) ex_hook_request = Inr 3"
  by code_simp

theorem hmac_payload_determines_request_witness:
  "h_timestamp ex_hook_request = 100 \<and> sort_key h_ref_name (h_ref_updates ex_hook_request) =
     sort_key h_ref_name (h_ref_updates (ex_hook_request\<lparr>h_signature := []\<rparr>))"
proof -
  have parse: "CHR ''|'' \<notin> set s" if "g_uuid_parse (ex_git_env [ex_announcement]) s = Some u" for s u
    using that by (auto simp: ex_git_env_def split: if_splits)
  have "validate_request (ex_git_env [ex_announcement]) (ex_hook_request\<lparr>h_signature := []\<rparr>) = Inr 3"
    by code_simp
  moreover have "hmac_payload ex_hook_request = hmac_payload (ex_hook_request\<lparr>h_signature := []\<rparr>)"
    by (simp add: hmac_payload_def)
  moreover have "h_timestamp ex_hook_request = 100" by (simp add: ex_hook_request_def)
  ultimately show ?thesis
    using hmac_payload_determines_request [of "ex_git_env [ex_announcement]", OF _ ex_hook_request_valid] parse by blast
qed

section \<open>What the endpoint allows\<close>

text \<open>Who a pusher is to a repository: its owner or the verified owner of the agent that owns it,
  or else the holder of a role in the channel the repository is bound to.\<close>

definition pusher_role ::
  "git_env \<Rightarrow> community_id \<Rightarrow> event \<Rightarrow> bytes \<Rightarrow> bytes \<Rightarrow> string \<Rightarrow> member_role \<Rightarrow> bool" where
  "pusher_role env com ev owner pusher pusher_hex role \<longleftrightarrow>
     (if pusher_hex = g_hex_encode env (ev_pubkey ev) then role = Owner
      else if g_is_agent_owner env com owner pusher = Inr True then role = Owner
      else g_is_agent_owner env com owner pusher = Inr False \<and>
        (\<exists>ch s. resolve_repo_binding (g_uuid_parse env) ev = Bound ch \<and>
           g_get_member_role env com ch pusher = Inr (Some s) \<and> role_from_str s = Some role))"

definition push_authorized ::
  "git_env \<Rightarrow> timestamp \<Rightarrow> hook_request \<Rightarrow> member_role \<Rightarrow> protection_rule list \<Rightarrow> bool" where
  "push_authorized env now req role rules \<longleftrightarrow>
     (\<exists>com owner pusher evs parsed. validate_request env req = Inr com \<and>
        verify_hmac env (g_secret env) req \<and> now \<le> h_timestamp req + 30 \<and> h_timestamp req \<le> now + 5 \<and>
        g_hex_decode env (h_repo_owner req) = Some owner \<and> length owner = 32 \<and>
        g_hex_decode env (h_pusher_pubkey req) = Some pusher \<and> length pusher = 32 \<and>
        g_query_announcement env com owner (h_repo_id req) = Inr evs \<and> evs \<noteq> [] \<and>
        parse_protection_tags (ev_tags (last evs)) = Inr parsed \<and> rules = pp_rules parsed \<and>
        resolve_repo_binding (g_uuid_parse env) (last evs) \<noteq> Broken \<and>
        (\<forall>ch. resolve_repo_binding (g_uuid_parse env) (last evs) = Bound ch \<longrightarrow>
           g_channel_archived env com ch = Inr False) \<and>
        pusher_role env com (last evs) owner pusher (h_pusher_pubkey req) role)"

lemma decode_pubkey_ok: "decode_pubkey env s msg = Inr b \<longleftrightarrow> g_hex_decode env s = Some b \<and> length b = 32"
  by (auto simp: decode_pubkey_def split: option.splits)

lemma channel_check_ok:
  "channel_check env com ch = Inr () \<longleftrightarrow> (\<forall>c. ch = Some c \<longrightarrow> g_channel_archived env com c = Inr False)"
  by (auto simp: channel_check_def split: option.splits sum.splits bool.splits)

lemma channel_role_ok:
  "channel_role env com ch pusher = Inr role \<longleftrightarrow>
     (\<exists>c s. ch = Some c \<and> g_get_member_role env com c pusher = Inr (Some s) \<and> role_from_str s = Some role)"
  by (auto simp: channel_role_def split: option.splits sum.splits)

lemma authenticate_callback_ok:
  "authenticate_callback env now req = Inr com \<longleftrightarrow> validate_request env req = Inr com \<and>
     verify_hmac env (g_secret env) req \<and> now \<le> h_timestamp req + 30 \<and> h_timestamp req \<le> now + 5"
  by (auto simp: authenticate_callback_def and_then_Inr_iff MAX_CALLBACK_AGE_SECS_def)

lemma find_announcement_ok:
  "find_announcement env com req = Inr (owner, ev) \<longleftrightarrow> g_hex_decode env (h_repo_owner req) = Some owner \<and>
     length owner = 32 \<and> (\<exists>evs. g_query_announcement env com owner (h_repo_id req) = Inr evs \<and> evs \<noteq> [] \<and> ev = last evs)"
  by (auto simp: find_announcement_def and_then_Inr_iff decode_pubkey_ok case_err_Inr_iff split: if_splits)

lemma bound_channel_ok:
  "bound_channel b = Inr ch \<longleftrightarrow> b \<noteq> Broken \<and> (\<forall>c. ch = Some c \<longleftrightarrow> b = Bound c)"
  by (cases b; cases ch) (auto simp: bound_channel_def)

lemma resolve_role_ok:
  assumes "bound_channel (resolve_repo_binding (g_uuid_parse env) ev) = Inr ch"
  shows "resolve_role env com req owner ev ch = Inr role \<longleftrightarrow>
    (\<exists>pusher. g_hex_decode env (h_pusher_pubkey req) = Some pusher \<and> length pusher = 32 \<and>
       pusher_role env com ev owner pusher (h_pusher_pubkey req) role)"
proof -
  have ch: "ch = Some c \<longleftrightarrow> resolve_repo_binding (g_uuid_parse env) ev = Bound c" for c
    using assms by (simp add: bound_channel_ok)
  have "and_then (agent_owner_check env com own owner pusher)
      (\<lambda>b. if own \<or> b then Inr Owner else channel_role env com ch pusher) = Inr role \<longleftrightarrow>
    (if own then role = Owner
     else if g_is_agent_owner env com owner pusher = Inr True then role = Owner
     else g_is_agent_owner env com owner pusher = Inr False \<and>
       (\<exists>c s. ch = Some c \<and> g_get_member_role env com c pusher = Inr (Some s) \<and> role_from_str s = Some role))"
    for own pusher
    by (cases "g_is_agent_owner env com owner pusher")
       (auto simp: agent_owner_check_def channel_role_ok and_then_Inr_iff split: if_splits)
  then show ?thesis
    by (simp add: resolve_role_def Let_def and_then_Inr_iff [of "decode_pubkey env _ _"] decode_pubkey_ok
        pusher_role_def ch conj_assoc)
qed

lemma resolve_push_ok:
  "resolve_push env now req = Inr (r, rules) \<longleftrightarrow> (\<exists>role. r = git_role role \<and> push_authorized env now req role rules)"
proof
  assume "resolve_push env now req = Inr (r, rules)"
  then obtain com owner ev parsed ch role where
    *: "authenticate_callback env now req = Inr com" "find_announcement env com req = Inr (owner, ev)"
      "parse_protection_tags (ev_tags ev) = Inr parsed"
    and ch: "bound_channel (resolve_repo_binding (g_uuid_parse env) ev) = Inr ch"
    and role: "channel_check env com ch = Inr ()" "resolve_role env com req owner ev ch = Inr role"
      "r = git_role role" "rules = pp_rules parsed"
    by (auto simp: resolve_push_def and_then_Inr_iff case_err_Inr_iff)
  obtain evs where evs: "g_query_announcement env com owner (h_repo_id req) = Inr evs" "evs \<noteq> []" "ev = last evs"
    and owner: "g_hex_decode env (h_repo_owner req) = Some owner" "length owner = 32"
    using *(2) by (auto simp: find_announcement_ok)
  obtain pusher where "g_hex_decode env (h_pusher_pubkey req) = Some pusher" "length pusher = 32"
    "pusher_role env com ev owner pusher (h_pusher_pubkey req) role"
    using role(2) resolve_role_ok [OF ch] by blast
  then have "push_authorized env now req role rules"
    unfolding push_authorized_def
    using *(1,3) ch role(1,4) evs owner
    by (auto simp: authenticate_callback_ok bound_channel_ok channel_check_ok)
  with role(3) show "\<exists>role. r = git_role role \<and> push_authorized env now req role rules" by blast
next
  assume "\<exists>role. r = git_role role \<and> push_authorized env now req role rules"
  then obtain role com owner pusher evs parsed where r: "r = git_role role" "rules = pp_rules parsed"
    and auth: "authenticate_callback env now req = Inr com"
    and ann: "find_announcement env com req = Inr (owner, last evs)"
    and parsed: "parse_protection_tags (ev_tags (last evs)) = Inr parsed"
    and pusher: "g_hex_decode env (h_pusher_pubkey req) = Some pusher" "length pusher = 32"
      "pusher_role env com (last evs) owner pusher (h_pusher_pubkey req) role"
    and b: "resolve_repo_binding (g_uuid_parse env) (last evs) \<noteq> Broken"
      "\<forall>ch. resolve_repo_binding (g_uuid_parse env) (last evs) = Bound ch \<longrightarrow> g_channel_archived env com ch = Inr False"
    by (auto simp: push_authorized_def authenticate_callback_ok find_announcement_ok)
  obtain ch where ch: "bound_channel (resolve_repo_binding (g_uuid_parse env) (last evs)) = Inr ch"
    using b(1) by (cases "resolve_repo_binding (g_uuid_parse env) (last evs)") (auto simp: bound_channel_def)
  have "channel_check env com ch = Inr ()" using b(2) ch by (simp add: channel_check_ok bound_channel_ok)
  moreover have "resolve_role env com req owner (last evs) ch = Inr role"
    using pusher by (auto simp: resolve_role_ok [OF ch])
  ultimately show "resolve_push env now req = Inr (r, rules)"
    using auth ann parsed ch r by (simp add: resolve_push_def)
qed

lemma hook_policy_check_Allowed:
  "hook_policy_check env now req = Allowed \<longleftrightarrow>
     (\<exists>role rules. push_authorized env now req role rules \<and>
        (\<forall>u \<in> set (h_ref_updates req). update_permitted rules (git_role role) (to_ref_update u)))"
proof -
  have "hook_policy_check env now req = Allowed \<longleftrightarrow>
      (\<exists>r rules. resolve_push env now req = Inr (r, rules) \<and>
         evaluate_push (map to_ref_update (h_ref_updates req)) r rules = Inr ())"
    by (auto simp: hook_policy_check_def split: sum.splits prod.splits)
  then show ?thesis by (auto simp: resolve_push_ok evaluate_push_ok)
qed

lemma ex_hook_allowed: "hook_policy_check (ex_git_env [ex_announcement]) 110 ex_hook_request = Allowed"
proof -
  let ?env = "ex_git_env [ex_announcement]"
  let ?owner = "replicate 32 97 :: bytes"
  have "verify_hmac ?env (g_secret ?env) ex_hook_request"
    by (simp add: verify_hmac_def compute_hmac_def ex_git_env_def ex_hook_request_def)
  then have "authenticate_callback ?env 110 ex_hook_request = Inr 3"
    using ex_hook_request_valid by (simp add: authenticate_callback_ok ex_hook_request_def)
  moreover have "find_announcement ?env 3 ex_hook_request = Inr (?owner, ex_announcement)"
    by (simp add: find_announcement_def decode_pubkey_def ex_git_env_def ex_hook_request_def)
  moreover obtain parsed where parsed: "parse_protection_tags (ev_tags ex_announcement) = Inr parsed"
    and perm: "evaluate_push (map to_ref_update (h_ref_updates ex_hook_request)) Member (pp_rules parsed) = Inr ()"
  proof -
    have "(case parse_protection_tags (ev_tags ex_announcement) of Inl _ \<Rightarrow> False
        | Inr parsed \<Rightarrow> evaluate_push (map to_ref_update (h_ref_updates ex_hook_request)) Member (pp_rules parsed) = Inr ())"
      by code_simp
    then show thesis using that by (auto split: sum.splits)
  qed
  moreover have "resolve_repo_binding (g_uuid_parse ?env) ex_announcement = Bound 4" by code_simp
  moreover have "channel_check ?env 3 (Some 4) = Inr ()" by (simp add: channel_check_def ex_git_env_def)
  moreover have "resolve_role ?env 3 ex_hook_request ?owner ex_announcement (Some 4) = Inr Bot"
    by (simp add: resolve_role_def decode_pubkey_def agent_owner_check_def channel_role_def ex_git_env_def
        ex_hook_request_def role_from_str_def)
  ultimately show ?thesis
    by (simp add: hook_policy_check_def resolve_push_def bound_channel_def git_role_def)
qed

section \<open>Properties\<close>

text \<open>C27.  The endpoint is fail-closed: it answers Allowed iff the request is well formed, its MAC
  verifies, its timestamp is at most 30 seconds old and 5 in the future, the announcement of
  that owner exists in that community with well-formed rules and binding, its channel is not
  archived, the pusher has a role in it, and the rules permit every update to that role with
  bots promoted to member.\<close>

theorem hook_allows_iff_authorized:
  "hook_policy_check env now req = Allowed \<longleftrightarrow>
     (\<exists>role rules. push_authorized env now req role rules \<and>
        (\<forall>u \<in> set (h_ref_updates req). update_permitted rules (git_role role) (to_ref_update u)))"
  by (rule hook_policy_check_Allowed)

theorem hook_allows_iff_authorized_witness:
  "\<exists>role rules. push_authorized (ex_git_env [ex_announcement]) 110 ex_hook_request role rules"
  using ex_hook_allowed hook_allows_iff_authorized by blast

text \<open>Nobody without member standing pushes: a pusher that gets through and is neither the
  repository key nor the verified owner of its agent holds an owner, admin, member or bot role
  in the channel the repository is bound to; in particular a guest, or anybody at all on an
  unbound repository, is refused.\<close>

theorem push_needs_member_standing:
  assumes "hook_policy_check env now req = Allowed"
  shows "\<exists>com owner pusher evs. validate_request env req = Inr com \<and>
    g_hex_decode env (h_repo_owner req) = Some owner \<and> g_hex_decode env (h_pusher_pubkey req) = Some pusher \<and>
    g_query_announcement env com owner (h_repo_id req) = Inr evs \<and>
    (h_pusher_pubkey req = g_hex_encode env (ev_pubkey (last evs)) \<or>
     g_is_agent_owner env com owner pusher = Inr True \<or>
     (\<exists>ch s role. resolve_repo_binding (g_uuid_parse env) (last evs) = Bound ch \<and>
        g_channel_archived env com ch = Inr False \<and>
        g_get_member_role env com ch pusher = Inr (Some s) \<and> role_from_str s = Some role \<and> role \<noteq> Guest))"
proof -
  from assms obtain role rules where auth: "push_authorized env now req role rules"
    and perm: "\<forall>u \<in> set (h_ref_updates req). update_permitted rules (git_role role) (to_ref_update u)"
    unfolding hook_policy_check_Allowed by blast
  then obtain com owner pusher evs where *: "validate_request env req = Inr com"
    "g_hex_decode env (h_repo_owner req) = Some owner" "g_hex_decode env (h_pusher_pubkey req) = Some pusher"
    "g_query_announcement env com owner (h_repo_id req) = Inr evs"
    and arch: "\<forall>ch. resolve_repo_binding (g_uuid_parse env) (last evs) = Bound ch \<longrightarrow> g_channel_archived env com ch = Inr False"
    and pr: "pusher_role env com (last evs) owner pusher (h_pusher_pubkey req) role"
    unfolding push_authorized_def by blast
  obtain u where "u \<in> set (h_ref_updates req)"
    using validate_request_shape(5) [OF *(1)] by (meson last_in_set)
  with perm have "permission_level (git_role role) \<ge> permission_level (default_min_role (ru_ref_name (to_ref_update u)) (ru_kind (to_ref_update u)))"
    by (auto simp: update_permitted_def)
  moreover have "permission_level (default_min_role n k) \<ge> 2" for n k
    by (auto simp: default_min_role_def Let_def split: update_kind.splits)
  ultimately have "permission_level (git_role role) \<ge> 2" using le_trans by blast
  then have "role \<noteq> Guest" by (auto simp: git_role_def)
  with * arch pr show ?thesis
    by (auto simp: pusher_role_def split: if_splits)
qed

theorem push_needs_member_standing_witness:
  "\<exists>ch s role. resolve_repo_binding (g_uuid_parse (ex_git_env [ex_announcement])) ex_announcement = Bound ch \<and>
     g_get_member_role (ex_git_env [ex_announcement]) 3 ch [] = Inr (Some s) \<and> role_from_str s = Some role \<and> role \<noteq> Guest"
proof -
  have "h_pusher_pubkey ex_hook_request \<noteq> g_hex_encode (ex_git_env [ex_announcement]) (ev_pubkey ex_announcement)"
    by (simp add: ex_hook_request_def ex_git_env_def)
  with push_needs_member_standing [OF ex_hook_allowed] show ?thesis
    by (auto simp: ex_git_env_def)
qed

end
