(* ===== verification/Pairing.thy ===== *)
theory Pairing
  imports Nostr_Events Kinds
begin

text \<open>Device pairing (NIP-AB): key derivation (crates/punks-core/src/pairing/crypto.rs), message
  types (types.rs), errors (mod.rs) and the session state machine (session.rs).  Curve
  arithmetic, HKDF, NIP-44, JSON, hex and event signing are third-party code, the fields of
  \<open>pairing_lib\<close>; clock readings and random bytes are arguments.  A method on \<open>&mut self\<close> returns
  the session after the call together with its result, so that what an error path already
  changed is visible.\<close>

section \<open>Messages and errors\<close>

datatype payload_type = Nsec | Bunker | Connect | Custom

datatype abort_reason = AbortSasMismatch | UserDenied | Timeout | ProtocolError | UnknownReason

datatype pairing_message =
    Offer string nat
  | SasConfirm string
  | Payload payload_type string
  | Complete bool
  | Abort abort_reason

datatype pairing_error =
    InvalidQr string
  | InvalidSessionId
  | SasMismatch
  | TranscriptMismatch
  | UnexpectedMessage string string
  | SessionExpired
  | Nip44 string
  | Json string
  | InvalidPubkey string
  | SigningError string

type_synonym seckey = bytes

record unsigned_event =
  un_kind :: kind
  un_tags :: "tag list"
  un_created_at :: timestamp
  un_content :: string

record pairing_lib =
  public_key :: "seckey \<Rightarrow> pubkey"
  shared_key :: "seckey \<Rightarrow> pubkey \<Rightarrow> (string, bytes) result"
  hkdf_extract :: "bytes \<Rightarrow> bytes \<Rightarrow> bytes"
  hkdf_expand :: "bytes \<Rightarrow> bytes \<Rightarrow> nat \<Rightarrow> bytes"
  nip44_encrypt :: "seckey \<Rightarrow> pubkey \<Rightarrow> bytes \<Rightarrow> string \<Rightarrow> (string, string) result"
  nip44_decrypt :: "seckey \<Rightarrow> pubkey \<Rightarrow> string \<Rightarrow> (string, string) result"
  json_encode :: "pairing_message \<Rightarrow> (string, string) result"
  json_decode :: "string \<Rightarrow> (string, pairing_message) result"
  hex_of :: "bytes \<Rightarrow> string"
  hex_to :: "string \<Rightarrow> bytes option"
  sign_event :: "seckey \<Rightarrow> unsigned_event \<Rightarrow> (string, event) result"
  verify_event :: "event \<Rightarrow> (string, unit) result"

text \<open>The clock and the random bytes one call consumes.\<close>

record call_env =
  ce_now :: timestamp
  ce_wall :: timestamp
  ce_random :: nat
  ce_nonce :: bytes

section \<open>Key derivation (crypto.rs)\<close>

definition ascii_bytes :: "string \<Rightarrow> bytes" where
  "ascii_bytes s = map (\<lambda>c. of_nat (of_char c)) s"

definition hkdf32 :: "pairing_lib \<Rightarrow> bytes \<Rightarrow> bytes \<Rightarrow> bytes \<Rightarrow> bytes" where
  "hkdf32 lib salt ikm info = take 32 (hkdf_expand lib (hkdf_extract lib salt ikm) info 32)"

definition derive_session_id :: "pairing_lib \<Rightarrow> bytes \<Rightarrow> bytes" where
  "derive_session_id lib secret = hkdf32 lib [] secret (ascii_bytes ''nostr-pair-session-id'')"

definition derive_sas :: "pairing_lib \<Rightarrow> bytes \<Rightarrow> bytes \<Rightarrow> nat \<times> bytes" where
  "derive_sas lib ecdh secret =
     (let sas_input = hkdf32 lib secret ecdh (ascii_bytes ''nostr-pair-sas-v1'')
      in (foldl (\<lambda>a b. a * 256 + unat b) 0 (take 4 sas_input) mod 1000000, sas_input))"

definition derive_transcript_hash :: "pairing_lib \<Rightarrow> bytes \<Rightarrow> bytes \<Rightarrow> bytes \<Rightarrow> bytes \<Rightarrow> bytes \<Rightarrow> bytes" where
  "derive_transcript_hash lib session_id source target sas_input secret =
     hkdf32 lib secret (session_id @ source @ target @ sas_input) (ascii_bytes ''nostr-pair-transcript-v1'')"

definition format_sas :: "nat \<Rightarrow> string" where
  "format_sas code = (let d = decimal code in replicate (6 - length d) (CHR ''0'') @ d)"

definition ct_eq :: "bytes \<Rightarrow> bytes \<Rightarrow> bool" where
  "ct_eq a b = (a = b)"

section \<open>Session (session.rs)\<close>

definition DEFAULT_TIMEOUT :: timestamp where
  "DEFAULT_TIMEOUT = 120"

datatype role = Source | Target

datatype session_state =
  Waiting | Confirming | AwaitingConfirmation | Transferring | PayloadExchanged | Completed | Aborted

record pairing_session =
  ps_role :: role
  ps_state :: session_state
  ps_keys :: seckey
  ps_session_secret :: bytes
  ps_relay_urls :: "string list"
  ps_peer_pubkey :: "pubkey option"
  ps_session_id :: bytes
  ps_sas_code :: "nat option"
  ps_sas_input :: "bytes option"
  ps_processed_ids :: "event_id list"
  ps_created_at :: timestamp
  ps_timeout :: timestamp

record qr_payload =
  qr_version :: nat
  qr_source_pubkey :: pubkey
  qr_session_secret :: bytes
  qr_relays :: "string list"

fun role_debug :: "role \<Rightarrow> string" where
  "role_debug Source = ''Source''"
| "role_debug Target = ''Target''"

fun state_debug :: "session_state \<Rightarrow> string" where
  "state_debug Waiting = ''Waiting''"
| "state_debug Confirming = ''Confirming''"
| "state_debug AwaitingConfirmation = ''AwaitingConfirmation''"
| "state_debug Transferring = ''Transferring''"
| "state_debug PayloadExchanged = ''PayloadExchanged''"
| "state_debug Completed = ''Completed''"
| "state_debug Aborted = ''Aborted''"

fun message_name :: "pairing_message \<Rightarrow> string" where
  "message_name (Offer _ _) = ''offer''"
| "message_name (SasConfirm _) = ''sas-confirm''"
| "message_name (Payload _ _) = ''payload''"
| "message_name (Complete _) = ''complete''"
| "message_name (Abort _) = ''abort''"

definition unexpected :: "string \<Rightarrow> pairing_message \<Rightarrow> pairing_error" where
  "unexpected expected got = UnexpectedMessage expected (message_name got)"

definition is_expired :: "call_env \<Rightarrow> pairing_session \<Rightarrow> bool" where
  "is_expired env s = (ce_now env - ps_created_at s > ps_timeout s)"

definition check_expired :: "call_env \<Rightarrow> pairing_session \<Rightarrow> (pairing_error, unit) result" where
  "check_expired env s = guard (\<not> is_expired env s) SessionExpired"

definition expect_state :: "pairing_session \<Rightarrow> session_state \<Rightarrow> (pairing_error, unit) result" where
  "expect_state s st = guard (ps_state s = st)
     (UnexpectedMessage (''state '' @ state_debug st) (''state '' @ state_debug (ps_state s)))"

definition expect_role :: "pairing_session \<Rightarrow> role \<Rightarrow> (pairing_error, unit) result" where
  "expect_role s r = guard (ps_role s = r)
     (UnexpectedMessage (''role '' @ role_debug r) (''role '' @ role_debug (ps_role s)))"

definition preconditions ::
  "call_env \<Rightarrow> pairing_session \<Rightarrow> session_state \<Rightarrow> role \<Rightarrow> (pairing_error, unit) result" where
  "preconditions env s st r =
     and_then (check_expired env s) (\<lambda>_. and_then (expect_state s st) (\<lambda>_. expect_role s r))"

definition has_own_p_tag :: "pairing_lib \<Rightarrow> pairing_session \<Rightarrow> event \<Rightarrow> bool" where
  "has_own_p_tag lib s ev =
     list_ex (\<lambda>t. t \<noteq> [] \<and> hd t = ''p'' \<and> length t \<ge> 2 \<and> t ! 1 = hex_of lib (public_key lib (ps_keys s)))
       (ev_tags ev)"

definition validate_event_basics :: "pairing_lib \<Rightarrow> pairing_session \<Rightarrow> event \<Rightarrow> (pairing_error, unit) result" where
  "validate_event_basics lib s ev =
     (case verify_event lib ev of
        Inl e \<Rightarrow> Inl (InvalidPubkey (''event verification failed: '' @ e))
      | Inr _ \<Rightarrow>
          if ev_id ev \<in> set (ps_processed_ids s)
          then Inl (UnexpectedMessage ''new event'' ''duplicate event id'')
          else if ev_kind ev \<noteq> KIND_PAIRING
          then Inl (UnexpectedMessage (''kind '' @ decimal KIND_PAIRING) (''kind '' @ decimal (ev_kind ev)))
          else if \<not> has_own_p_tag lib s ev
          then Inl (InvalidPubkey ''event p-tag does not match our ephemeral pubkey'')
          else Inr ())"

definition validate_event_from_peer :: "pairing_lib \<Rightarrow> pairing_session \<Rightarrow> event \<Rightarrow> (pairing_error, unit) result" where
  "validate_event_from_peer lib s ev =
     and_then (validate_event_basics lib s ev) (\<lambda>_.
       case ps_peer_pubkey s of
         Some expected \<Rightarrow>
           guard (ev_pubkey ev = expected)
             (InvalidPubkey (''event from '' @ hex_of lib (ev_pubkey ev) @ '' but expected '' @ hex_of lib expected))
       | None \<Rightarrow> Inr ())"

definition record_event :: "event \<Rightarrow> pairing_session \<Rightarrow> pairing_session" where
  "record_event ev s = s\<lparr>ps_processed_ids := List.insert (ev_id ev) (ps_processed_ids s)\<rparr>"

definition decrypt_message :: "pairing_lib \<Rightarrow> pairing_session \<Rightarrow> event \<Rightarrow> (pairing_error, pairing_message) result" where
  "decrypt_message lib s ev =
     (let n = length (ev_content ev) in
      if n < 132 \<or> n > 87472
      then Inl (UnexpectedMessage (''NIP-44 content (132'' @ [CHR 0xE2, CHR 0x80, CHR 0x93] @ ''87472 chars)'')
                  (decimal n @ '' chars''))
      else case nip44_decrypt lib (ps_keys s) (ev_pubkey ev) (ev_content ev) of
        Inl e \<Rightarrow> Inl (Nip44 e)
      | Inr decrypted \<Rightarrow>
          if length decrypted > 65535
          then Inl (UnexpectedMessage (''plaintext '' @ [CHR 0xE2, CHR 0x89, CHR 0xA4] @ '' 65535 bytes'')
                      (decimal 0 @ '' bytes''))
          else (case json_decode lib decrypted of Inl e \<Rightarrow> Inl (Json e) | Inr msg \<Rightarrow> Inr msg))"

definition build_event ::
  "pairing_lib \<Rightarrow> call_env \<Rightarrow> pairing_session \<Rightarrow> pairing_message \<Rightarrow> (pairing_error, event) result" where
  "build_event lib env s msg =
     (case ps_peer_pubkey s of
        None \<Rightarrow> Inl (InvalidPubkey ''no peer pubkey set'')
      | Some peer \<Rightarrow>
          (case json_encode lib msg of
             Inl e \<Rightarrow> Inl (Json e)
           | Inr plaintext \<Rightarrow>
               (case nip44_encrypt lib (ps_keys s) peer (ce_nonce env) plaintext of
                  Inl e \<Rightarrow> Inl (Nip44 e)
                | Inr encrypted \<Rightarrow>
                    (case sign_event lib (ps_keys s)
                        \<lparr>un_kind = KIND_PAIRING, un_tags = [[''p'', hex_of lib peer]],
                         un_created_at = ce_wall env - ce_random env mod 31, un_content = encrypted\<rparr> of
                       Inl e \<Rightarrow> Inl (SigningError e)
                     | Inr ev \<Rightarrow> Inr ev))))"


subsection \<open>Source\<close>

definition new_source ::
  "pairing_lib \<Rightarrow> call_env \<Rightarrow> seckey \<Rightarrow> bytes \<Rightarrow> string \<Rightarrow> pairing_session \<times> qr_payload" where
  "new_source lib env keys secret relay_url =
     (\<lparr>ps_role = Source, ps_state = Waiting, ps_keys = keys, ps_session_secret = secret,
       ps_relay_urls = [relay_url], ps_peer_pubkey = None, ps_session_id = derive_session_id lib secret,
       ps_sas_code = None, ps_sas_input = None, ps_processed_ids = [], ps_created_at = ce_now env,
       ps_timeout = DEFAULT_TIMEOUT\<rparr>,
      \<lparr>qr_version = 1, qr_source_pubkey = public_key lib keys, qr_session_secret = secret, qr_relays = [relay_url]\<rparr>)"

definition received_32 :: "pairing_lib \<Rightarrow> string \<Rightarrow> bytes option" where
  "received_32 lib h = (case hex_to lib h of Some b \<Rightarrow> if length b = 32 then Some b else None | None \<Rightarrow> None)"

definition check_offer ::
  "pairing_lib \<Rightarrow> call_env \<Rightarrow> pairing_session \<Rightarrow> event \<Rightarrow> (pairing_error, unit) result" where
  "check_offer lib env s ev =
     and_then (preconditions env s Waiting Source) (\<lambda>_.
     and_then (validate_event_basics lib s ev) (\<lambda>_.
     and_then (decrypt_message lib s ev) (\<lambda>msg.
     case msg of
       Offer session_id version \<Rightarrow>
         if version \<noteq> 1 then Inl (UnexpectedMessage ''version 1'' (''version '' @ decimal version))
         else (case received_32 lib session_id of
                 Some i \<Rightarrow> guard (ct_eq i (ps_session_id s)) InvalidSessionId
               | None \<Rightarrow> Inl InvalidSessionId)
     | other \<Rightarrow> Inl (unexpected ''offer'' other))))"

definition handle_offer ::
  "pairing_lib \<Rightarrow> call_env \<Rightarrow> pairing_session \<Rightarrow> event \<Rightarrow> pairing_session \<times> (pairing_error, string) result" where
  "handle_offer lib env s ev =
     (case check_offer lib env s ev of
        Inl e \<Rightarrow> (s, Inl e)
      | Inr _ \<Rightarrow>
          (let s1 = s\<lparr>ps_peer_pubkey := Some (ev_pubkey ev)\<rparr> in
           case shared_key lib (ps_keys s1) (ev_pubkey ev) of
             Inl e \<Rightarrow> (s1, Inl (SigningError e))
           | Inr ecdh \<Rightarrow>
               (let (code, sas_input) = derive_sas lib ecdh (ps_session_secret s1) in
                (record_event ev (s1\<lparr>ps_sas_code := Some code, ps_sas_input := Some sas_input, ps_state := Confirming\<rparr>),
                 Inr (format_sas code)))))"

definition confirm_sas ::
  "pairing_lib \<Rightarrow> call_env \<Rightarrow> pairing_session \<Rightarrow> pairing_session \<times> (pairing_error, event) result" where
  "confirm_sas lib env s =
     (case and_then (preconditions env s Confirming Source) (\<lambda>_.
             case ps_sas_input s of None \<Rightarrow> Inl SasMismatch
             | Some sas_input \<Rightarrow>
                 (case ps_peer_pubkey s of None \<Rightarrow> Inl (InvalidPubkey ''no peer'')
                  | Some peer \<Rightarrow> build_event lib env s (SasConfirm (hex_of lib
                      (derive_transcript_hash lib (ps_session_id s) (public_key lib (ps_keys s)) peer sas_input
                        (ps_session_secret s)))))) of
        Inl e \<Rightarrow> (s, Inl e)
      | Inr ev \<Rightarrow> (s\<lparr>ps_state := Transferring\<rparr>, Inr ev))"

definition receive_payload ::
  "pairing_lib \<Rightarrow> call_env \<Rightarrow> role \<Rightarrow> pairing_session \<Rightarrow> event \<Rightarrow>
     pairing_session \<times> (pairing_error, payload_type \<times> string) result" where
  "receive_payload lib env r s ev =
     (case and_then (preconditions env s Transferring r) (\<lambda>_.
            and_then (validate_event_from_peer lib s ev) (\<lambda>_. decrypt_message lib s ev)) of
        Inl e \<Rightarrow> (s, Inl e)
      | Inr (Payload ty p) \<Rightarrow> (record_event ev (s\<lparr>ps_state := PayloadExchanged\<rparr>), Inr (ty, p))
      | Inr other \<Rightarrow> (s, Inl (unexpected ''payload'' other)))"

definition handle_return_payload ::
  "pairing_lib \<Rightarrow> call_env \<Rightarrow> pairing_session \<Rightarrow> event \<Rightarrow>
     pairing_session \<times> (pairing_error, payload_type \<times> string) result" where
  "handle_return_payload lib env s ev = receive_payload lib env Source s ev"

definition send_source_complete ::
  "pairing_lib \<Rightarrow> call_env \<Rightarrow> pairing_session \<Rightarrow> bool \<Rightarrow> pairing_session \<times> (pairing_error, event) result" where
  "send_source_complete lib env s success =
     (case and_then (preconditions env s PayloadExchanged Source) (\<lambda>_. build_event lib env s (Complete success)) of
        Inl e \<Rightarrow> (s, Inl e)
      | Inr ev \<Rightarrow> (s\<lparr>ps_state := if success then Completed else Aborted\<rparr>, Inr ev))"

definition send_payload ::
  "pairing_lib \<Rightarrow> call_env \<Rightarrow> pairing_session \<Rightarrow> payload_type \<Rightarrow> string \<Rightarrow>
     pairing_session \<times> (pairing_error, event) result" where
  "send_payload lib env s ty payload =
     (case and_then (preconditions env s Transferring Source) (\<lambda>_. build_event lib env s (Payload ty payload)) of
        Inl e \<Rightarrow> (s, Inl e)
      | Inr ev \<Rightarrow> (s\<lparr>ps_state := PayloadExchanged\<rparr>, Inr ev))"

definition handle_complete ::
  "pairing_lib \<Rightarrow> call_env \<Rightarrow> pairing_session \<Rightarrow> event \<Rightarrow> pairing_session \<times> (pairing_error, unit) result" where
  "handle_complete lib env s ev =
     (case and_then (preconditions env s PayloadExchanged Source) (\<lambda>_.
            and_then (validate_event_from_peer lib s ev) (\<lambda>_. decrypt_message lib s ev)) of
        Inl e \<Rightarrow> (s, Inl e)
      | Inr (Complete True) \<Rightarrow> (record_event ev (s\<lparr>ps_state := Completed\<rparr>), Inr ())
      | Inr (Complete False) \<Rightarrow>
          (s\<lparr>ps_state := Aborted\<rparr>, Inl (UnexpectedMessage ''complete(success=true)'' ''complete(success=false)''))
      | Inr other \<Rightarrow> (s, Inl (unexpected ''complete'' other)))"

subsection \<open>Target\<close>

definition new_target ::
  "pairing_lib \<Rightarrow> call_env \<Rightarrow> seckey \<Rightarrow> qr_payload \<Rightarrow> (pairing_error, pairing_session \<times> event) result" where
  "new_target lib env keys qr =
     (case shared_key lib keys (qr_source_pubkey qr) of
        Inl e \<Rightarrow> Inl (SigningError e)
      | Inr ecdh \<Rightarrow>
          (let session_id = derive_session_id lib (qr_session_secret qr);
               (code, sas_input) = derive_sas lib ecdh (qr_session_secret qr);
               s = \<lparr>ps_role = Target, ps_state = Waiting, ps_keys = keys,
                    ps_session_secret = qr_session_secret qr, ps_relay_urls = qr_relays qr,
                    ps_peer_pubkey = Some (qr_source_pubkey qr), ps_session_id = session_id,
                    ps_sas_code = Some code, ps_sas_input = Some sas_input, ps_processed_ids = [],
                    ps_created_at = ce_now env, ps_timeout = DEFAULT_TIMEOUT\<rparr>
           in and_then (build_event lib env s (Offer (hex_of lib session_id) 1))
                (\<lambda>ev. Inr (s\<lparr>ps_state := Confirming\<rparr>, ev))))"

definition handle_sas_confirm ::
  "pairing_lib \<Rightarrow> call_env \<Rightarrow> pairing_session \<Rightarrow> event \<Rightarrow> pairing_session \<times> (pairing_error, string) result" where
  "handle_sas_confirm lib env s ev =
     (case and_then (preconditions env s Confirming Target) (\<lambda>_.
            and_then (validate_event_from_peer lib s ev) (\<lambda>_. decrypt_message lib s ev)) of
        Inl e \<Rightarrow> (s, Inl e)
      | Inr (SasConfirm received_hash) \<Rightarrow>
          (case ps_sas_input s of None \<Rightarrow> (s, Inl SasMismatch)
           | Some sas_input \<Rightarrow>
               (case ps_peer_pubkey s of None \<Rightarrow> (s, Inl (InvalidPubkey ''no peer''))
                | Some peer \<Rightarrow>
                    (let expected = derive_transcript_hash lib (ps_session_id s) peer
                           (public_key lib (ps_keys s)) sas_input (ps_session_secret s)
                     in if \<not> (case received_32 lib received_hash of Some b \<Rightarrow> ct_eq b expected | None \<Rightarrow> False)
                        then (s\<lparr>ps_state := Aborted\<rparr>, Inl TranscriptMismatch)
                        else (let s1 = record_event ev (s\<lparr>ps_state := AwaitingConfirmation\<rparr>) in
                              case ps_sas_code s1 of None \<Rightarrow> (s1, Inl SasMismatch)
                              | Some code \<Rightarrow> (s1, Inr (format_sas code))))))
      | Inr other \<Rightarrow> (s, Inl (unexpected ''sas-confirm'' other)))"

definition confirm_target_sas ::
  "call_env \<Rightarrow> pairing_session \<Rightarrow> pairing_session \<times> (pairing_error, unit) result" where
  "confirm_target_sas env s =
     (case preconditions env s AwaitingConfirmation Target of
        Inl e \<Rightarrow> (s, Inl e)
      | Inr _ \<Rightarrow> (s\<lparr>ps_state := Transferring\<rparr>, Inr ()))"

definition handle_payload ::
  "pairing_lib \<Rightarrow> call_env \<Rightarrow> pairing_session \<Rightarrow> event \<Rightarrow>
     pairing_session \<times> (pairing_error, payload_type \<times> string) result" where
  "handle_payload lib env s ev = receive_payload lib env Target s ev"

definition send_complete ::
  "pairing_lib \<Rightarrow> call_env \<Rightarrow> pairing_session \<Rightarrow> pairing_session \<times> (pairing_error, event) result" where
  "send_complete lib env s =
     (case and_then (preconditions env s PayloadExchanged Target) (\<lambda>_. build_event lib env s (Complete True)) of
        Inl e \<Rightarrow> (s, Inl e)
      | Inr ev \<Rightarrow> (s\<lparr>ps_state := Completed\<rparr>, Inr ev))"

subsection \<open>Abort\<close>

definition terminal :: "session_state \<Rightarrow> bool" where
  "terminal st = (st = Completed \<or> st = Aborted)"

definition not_terminal_error :: "pairing_session \<Rightarrow> pairing_error" where
  "not_terminal_error s = UnexpectedMessage ''non-terminal state'' (''state '' @ state_debug (ps_state s))"

definition abort ::
  "pairing_lib \<Rightarrow> call_env \<Rightarrow> pairing_session \<Rightarrow> abort_reason \<Rightarrow>
     pairing_session \<times> (pairing_error, event option) result" where
  "abort lib env s reason =
     (if terminal (ps_state s) then (s, Inl (not_terminal_error s))
      else if ps_peer_pubkey s = None then (s\<lparr>ps_state := Aborted\<rparr>, Inr None)
      else case build_event lib env s (Abort reason) of
        Inl e \<Rightarrow> (s, Inl e)
      | Inr ev \<Rightarrow> (s\<lparr>ps_state := Aborted\<rparr>, Inr (Some ev)))"

definition handle_abort ::
  "pairing_lib \<Rightarrow> pairing_session \<Rightarrow> event \<Rightarrow> pairing_session \<times> (pairing_error, abort_reason) result" where
  "handle_abort lib s ev =
     (if terminal (ps_state s) then (s, Inl (not_terminal_error s))
      else if ps_peer_pubkey s = None then (s, Inl (InvalidPubkey ''cannot accept abort before peer is known''))
      else case and_then (validate_event_from_peer lib s ev) (\<lambda>_. decrypt_message lib s ev) of
        Inl e \<Rightarrow> (s, Inl e)
      | Inr (Abort reason) \<Rightarrow> (record_event ev (s\<lparr>ps_state := Aborted\<rparr>), Inr reason)
      | Inr other \<Rightarrow> (s, Inl (unexpected ''abort'' other)))"

definition session_sas_code :: "pairing_session \<Rightarrow> string option" where
  "session_sas_code s = map_option format_sas (ps_sas_code s)"

end
