(* ===== verification/Pairing_Protocol.thy ===== *)
theory Pairing_Protocol
  imports Pairing
begin

text \<open>Properties of device pairing: two honest devices run the protocol to completion and agree on
  the short authentication string and the payload; over every sequence of calls a finished
  session stays finished, a target hands out a payload only after its user confirmed, an event
  is accepted at most once and only from the locked peer, and an expired session moves only
  to Aborted.\<close>

section \<open>What the cryptographic libraries promise\<close>

definition message_fits :: "pairing_lib \<Rightarrow> pairing_message \<Rightarrow> bool" where
  "message_fits lib msg \<longleftrightarrow>
     (\<exists>j. json_encode lib msg = Inr j \<and> json_decode lib j = Inr msg \<and> j \<noteq> [] \<and> length j \<le> 65535)"

definition lawful :: "pairing_lib \<Rightarrow> bool" where
  "lawful lib \<longleftrightarrow>
     (\<forall>a b. shared_key lib a (public_key lib b) = shared_key lib b (public_key lib a)) \<and>
     (\<forall>a b. is_ok (shared_key lib a (public_key lib b))) \<and>
     (\<forall>prk info. length (hkdf_expand lib prk info 32) = 32) \<and>
     (\<forall>b. hex_to lib (hex_of lib b) = Some b \<and> length (hex_of lib b) = 2 * length b) \<and>
     (\<forall>a b n m. m \<noteq> [] \<and> length m \<le> 65535 \<longrightarrow>
        (\<exists>c. nip44_encrypt lib a (public_key lib b) n m = Inr c \<and>
             nip44_decrypt lib b (public_key lib a) c = Inr m \<and> 132 \<le> length c \<and> length c \<le> 87472)) \<and>
     (\<forall>h. length h = 64 \<longrightarrow> message_fits lib (Offer h 1) \<and> message_fits lib (SasConfirm h)) \<and>
     (\<forall>b. message_fits lib (Complete b)) \<and> (\<forall>r. message_fits lib (Abort r)) \<and>
     (\<forall>sk u. \<exists>ev. sign_event lib sk u = Inr ev \<and> verify_event lib ev = Inr () \<and>
        ev_pubkey ev = public_key lib sk \<and> ev_kind ev = un_kind u \<and> ev_tags ev = un_tags u \<and>
        ev_content ev = un_content u) \<and>
     (\<forall>sk u u' ev ev'. sign_event lib sk u = Inr ev \<and> sign_event lib sk u' = Inr ev' \<and> ev_id ev = ev_id ev' \<longrightarrow>
        un_content u = un_content u')"

lemma lawful_facts:
  assumes "lawful lib"
  shows "shared_key lib a (public_key lib b) = shared_key lib b (public_key lib a)"
    and "\<exists>k. shared_key lib a (public_key lib b) = Inr k"
    and "length (hkdf_expand lib prk info 32) = 32"
    and "hex_to lib (hex_of lib x) = Some x" and "length (hex_of lib x) = 2 * length x"
    and "length h = 64 \<Longrightarrow> message_fits lib (Offer h 1)" and "length h = 64 \<Longrightarrow> message_fits lib (SasConfirm h)"
    and "message_fits lib (Complete c)"
  using assms unfolding lawful_def is_ok_iff by (blast | simp)+

lemma lawful_encrypt:
  assumes "lawful lib" "m \<noteq> []" "length m \<le> 65535"
  shows "\<exists>c. nip44_encrypt lib a (public_key lib b) n m = Inr c \<and>
    nip44_decrypt lib b (public_key lib a) c = Inr m \<and> 132 \<le> length c \<and> length c \<le> 87472"
  using assms unfolding lawful_def by blast

lemma lawful_sign:
  assumes "lawful lib"
  shows "\<exists>ev. sign_event lib sk u = Inr ev \<and> verify_event lib ev = Inr () \<and>
    ev_pubkey ev = public_key lib sk \<and> ev_kind ev = un_kind u \<and> ev_tags ev = un_tags u \<and> ev_content ev = un_content u"
  using assms unfolding lawful_def by blast

lemma lawful_id_inj:
  assumes "lawful lib" "sign_event lib sk u = Inr ev" "sign_event lib sk u' = Inr ev'" "ev_id ev = ev_id ev'"
  shows "un_content u = un_content u'"
  using assms unfolding lawful_def by blast

lemma hkdf32_length: "lawful lib \<Longrightarrow> length (hkdf32 lib salt ikm info) = 32"
  by (simp add: hkdf32_def lawful_facts(3))

lemma received_hex_of:
  assumes "lawful lib" "length b = 32"
  shows "received_32 lib (hex_of lib b) = Some b"
  using assms by (simp add: received_32_def lawful_facts(4))

section \<open>Delivery of one message\<close>

text \<open>An event built for a peer validates and decrypts at that peer to the message it carries.\<close>

definition carries :: "pairing_lib \<Rightarrow> seckey \<Rightarrow> seckey \<Rightarrow> event \<Rightarrow> pairing_message \<Rightarrow> bool" where
  "carries lib from to ev msg \<longleftrightarrow> ev_pubkey ev = public_key lib from \<and>
     (\<forall>r. ps_keys r = to \<longrightarrow> decrypt_message lib r ev = Inr msg \<and>
        (ev_id ev \<notin> set (ps_processed_ids r) \<longrightarrow> validate_event_basics lib r ev = Inr ()))"

lemma build_event_carries:
  assumes law: "lawful lib" and peer: "ps_peer_pubkey s = Some (public_key lib k)" and fits: "message_fits lib msg"
  shows "\<exists>ev. build_event lib env s msg = Inr ev \<and> carries lib (ps_keys s) k ev msg"
proof -
  obtain j where j: "json_encode lib msg = Inr j" "json_decode lib j = Inr msg" "j \<noteq> []" "length j \<le> 65535"
    using fits by (auto simp: message_fits_def)
  obtain c where c: "nip44_encrypt lib (ps_keys s) (public_key lib k) (ce_nonce env) j = Inr c"
    "nip44_decrypt lib k (public_key lib (ps_keys s)) c = Inr j" "132 \<le> length c" "length c \<le> 87472"
    using lawful_encrypt [OF law j(3,4)] by blast
  define u where "u = \<lparr>un_kind = KIND_PAIRING, un_tags = [[''p'', hex_of lib (public_key lib k)]],
    un_created_at = ce_wall env - ce_random env mod 31, un_content = c\<rparr>"
  obtain ev where ev: "sign_event lib (ps_keys s) u = Inr ev" "verify_event lib ev = Inr ()"
    "ev_pubkey ev = public_key lib (ps_keys s)" "ev_kind ev = un_kind u" "ev_tags ev = un_tags u"
    "ev_content ev = un_content u"
    using lawful_sign [OF law] by blast
  have "build_event lib env s msg = Inr ev"
    by (simp add: build_event_def peer j(1) c(1) u_def [symmetric] ev(1))
  moreover have "carries lib (ps_keys s) k ev msg"
    using ev j c by (auto simp: carries_def decrypt_message_def validate_event_basics_def has_own_p_tag_def u_def)
  ultimately show ?thesis by blast
qed

lemma build_event_signed:
  assumes "lawful lib" "build_event lib env s msg = Inr ev"
  shows "\<exists>u. sign_event lib (ps_keys s) u = Inr ev \<and> ev_content ev = un_content u"
proof -
  obtain u where u: "sign_event lib (ps_keys s) u = Inr ev"
    using assms(2) by (auto simp: build_event_def split: option.splits sum.splits)
  with lawful_sign [OF assms(1), of "ps_keys s" u] show ?thesis by auto
qed

lemma build_event_id_inj:
  assumes law: "lawful lib" and "build_event lib env s msg = Inr ev" "build_event lib env' s' msg' = Inr ev'"
    and "ps_keys s' = ps_keys s" "ev_id ev = ev_id ev'"
  shows "ev_content ev = ev_content ev'"
  using build_event_signed [OF law assms(2)] build_event_signed [OF law assms(3)] assms(4)
    lawful_id_inj [OF law _ _ assms(5)] by metis

lemma carries_distinct:
  assumes "lawful lib" "build_event lib env s msg = Inr ev" "build_event lib env' s' msg' = Inr ev'"
    and "ps_keys s' = ps_keys s" "carries lib (ps_keys s) k ev msg" "carries lib (ps_keys s) k ev' msg'" "msg \<noteq> msg'"
  shows "ev_id ev \<noteq> ev_id ev'"
proof
  assume "ev_id ev = ev_id ev'"
  then have c: "ev_content ev = ev_content ev'" by (rule build_event_id_inj [OF assms(1-4)])
  have pk: "ev_pubkey ev = ev_pubkey ev'" using assms(5,6) by (simp add: carries_def)
  obtain r :: pairing_session where r: "ps_keys r = k" by (meson pairing_session.select_convs(3))
  have "decrypt_message lib r ev = decrypt_message lib r ev'"
    by (simp only: decrypt_message_def c pk)
  with assms(5-7) r show False by (simp add: carries_def)
qed


section \<open>The honest run\<close>

lemma preconditions_ok:
  "preconditions env s st r = Inr () \<longleftrightarrow> \<not> is_expired env s \<and> ps_state s = st \<and> ps_role s = r"
  by (auto simp: preconditions_def check_expired_def expect_state_def expect_role_def and_then_Inr_iff guard_Inr_iff)

lemma validate_from_peer_carries:
  assumes "carries lib a b ev msg" "ps_keys r = b" "ps_peer_pubkey r = Some (public_key lib a)"
    and "ev_id ev \<notin> set (ps_processed_ids r)"
  shows "validate_event_from_peer lib r ev = Inr ()"
  using assms by (simp add: validate_event_from_peer_def carries_def)

text \<open>A party: its keys, the peer it is locked to, its role, the derived values and its clock.\<close>

definition party ::
  "pairing_lib \<Rightarrow> call_env \<Rightarrow> role \<Rightarrow> seckey \<Rightarrow> seckey \<Rightarrow> bytes \<Rightarrow> bytes \<Rightarrow> pairing_session \<Rightarrow> bool" where
  "party lib env r own peer secret k s \<longleftrightarrow> ps_role s = r \<and> ps_keys s = own \<and>
     ps_peer_pubkey s = Some (public_key lib peer) \<and> ps_session_secret s = secret \<and>
     ps_session_id s = derive_session_id lib secret \<and>
     ps_sas_code s = Some (fst (derive_sas lib k secret)) \<and> ps_sas_input s = Some (snd (derive_sas lib k secret)) \<and>
     ps_created_at s = ce_now env \<and> ps_timeout s = DEFAULT_TIMEOUT"

lemma party_state [simp]:
  "party lib env r own peer secret k (s\<lparr>ps_state := st\<rparr>) = party lib env r own peer secret k s"
  "party lib env r own peer secret k (s\<lparr>ps_processed_ids := ids\<rparr>) = party lib env r own peer secret k s"
  "party lib env r own peer secret k (record_event ev s) = party lib env r own peer secret k s"
  by (simp_all add: party_def record_event_def)

lemma party_preconditions:
  assumes "party lib env0 r own peer secret k s" "ps_state s = st" "ce_now env \<le> ce_now env0 + 120"
  shows "preconditions env s st r = Inr ()"
  using assms by (simp add: preconditions_ok party_def is_expired_def DEFAULT_TIMEOUT_def)

lemma new_target_honest:
  assumes law: "lawful lib" and qr: "qr_source_pubkey qr = public_key lib a" "qr_session_secret qr = secret"
    and k: "shared_key lib b (public_key lib a) = Inr k"
  shows "\<exists>s offer. new_target lib env b qr = Inr (s\<lparr>ps_state := Confirming\<rparr>, offer) \<and>
    build_event lib env s (Offer (hex_of lib (derive_session_id lib secret)) 1) = Inr offer \<and>
    carries lib b a offer (Offer (hex_of lib (derive_session_id lib secret)) 1) \<and>
    party lib env Target b a secret k s \<and> ps_processed_ids s = []"
proof -
  define s where "s = \<lparr>ps_role = Target, ps_state = Waiting, ps_keys = b, ps_session_secret = secret,
       ps_relay_urls = qr_relays qr, ps_peer_pubkey = Some (public_key lib a),
       ps_session_id = derive_session_id lib secret, ps_sas_code = Some (fst (derive_sas lib k secret)),
       ps_sas_input = Some (snd (derive_sas lib k secret)), ps_processed_ids = [],
       ps_created_at = ce_now env, ps_timeout = DEFAULT_TIMEOUT\<rparr>"
  have "length (hex_of lib (derive_session_id lib secret)) = 64"
    by (simp add: lawful_facts(5) [OF law] derive_session_id_def hkdf32_length [OF law])
  then have fits: "message_fits lib (Offer (hex_of lib (derive_session_id lib secret)) 1)"
    by (rule lawful_facts(6) [OF law])
  obtain offer where offer: "build_event lib env s (Offer (hex_of lib (derive_session_id lib secret)) 1) = Inr offer"
    "carries lib b a offer (Offer (hex_of lib (derive_session_id lib secret)) 1)"
    using build_event_carries [OF law _ fits, of s a env] by (auto simp: s_def)
  have "new_target lib env b qr = Inr (s\<lparr>ps_state := Confirming\<rparr>, offer)"
    using offer(1) by (simp add: new_target_def qr k Let_def case_prod_beta s_def)
  moreover have "party lib env Target b a secret k s \<and> ps_processed_ids s = []" by (simp add: s_def party_def)
  ultimately show ?thesis using offer by blast
qed

lemma handle_offer_honest:
  assumes law: "lawful lib" and src: "new_source lib env0 a secret relay = (src0, qr)"
    and off: "carries lib b a offer (Offer (hex_of lib (derive_session_id lib secret)) 1)"
    and time: "ce_now env \<le> ce_now env0 + 120"
    and k: "shared_key lib a (public_key lib b) = Inr k"
  shows "\<exists>src1. handle_offer lib env src0 offer = (src1, Inr (format_sas (fst (derive_sas lib k secret)))) \<and>
    party lib env0 Source a b secret k src1 \<and> ps_state src1 = Confirming \<and> ps_processed_ids src1 = [ev_id offer]"
proof -
  have src0: "src0 = fst (new_source lib env0 a secret relay)" using src by simp
  have "length (derive_session_id lib secret) = 32" by (simp add: derive_session_id_def hkdf32_length [OF law])
  then have "received_32 lib (hex_of lib (derive_session_id lib secret)) = Some (derive_session_id lib secret)"
    by (rule received_hex_of [OF law])
  moreover have "preconditions env src0 Waiting Source = Inr ()"
    using time by (simp add: src0 new_source_def preconditions_ok is_expired_def DEFAULT_TIMEOUT_def)
  ultimately have "check_offer lib env src0 offer = Inr ()"
    using off by (simp add: check_offer_def carries_def ct_eq_def src0 new_source_def)
  moreover have "ev_pubkey offer = public_key lib b" using off by (simp add: carries_def)
  ultimately show ?thesis using k
    by (simp add: handle_offer_def Let_def case_prod_beta record_event_def List.insert_def src0 new_source_def party_def)
qed

lemma confirm_sas_honest:
  assumes law: "lawful lib" and s: "party lib env0 Source a b secret k s" "ps_state s = Confirming"
    and time: "ce_now env \<le> ce_now env0 + 120"
  shows "\<exists>conf. confirm_sas lib env s = (s\<lparr>ps_state := Transferring\<rparr>, Inr conf) \<and>
    (\<exists>h. build_event lib env s (SasConfirm h) = Inr conf \<and> carries lib a b conf (SasConfirm h) \<and>
       h = hex_of lib (derive_transcript_hash lib (derive_session_id lib secret) (public_key lib a) (public_key lib b)
         (snd (derive_sas lib k secret)) secret))"
proof -
  define h where "h = hex_of lib (derive_transcript_hash lib (derive_session_id lib secret) (public_key lib a)
      (public_key lib b) (snd (derive_sas lib k secret)) secret)"
  have "length h = 64"
    by (simp add: lawful_facts(5) [OF law] h_def derive_transcript_hash_def hkdf32_length [OF law])
  then have fits: "message_fits lib (SasConfirm h)" by (rule lawful_facts(7) [OF law])
  obtain conf where conf: "build_event lib env s (SasConfirm h) = Inr conf" "carries lib a b conf (SasConfirm h)"
    using build_event_carries [OF law _ fits, of s b env] s(1) by (auto simp: party_def)
  have "confirm_sas lib env s = (s\<lparr>ps_state := Transferring\<rparr>, Inr conf)"
    using conf(1) s(1) party_preconditions [OF s time] by (simp add: confirm_sas_def party_def h_def)
  with conf h_def show ?thesis by blast
qed

lemma handle_sas_confirm_honest:
  assumes law: "lawful lib" and r: "party lib env0 Target b a secret k r" "ps_state r = Confirming"
    and time: "ce_now env \<le> ce_now env0 + 120" and new: "ev_id ev \<notin> set (ps_processed_ids r)"
    and ev: "carries lib a b ev (SasConfirm (hex_of lib (derive_transcript_hash lib (derive_session_id lib secret)
         (public_key lib a) (public_key lib b) (snd (derive_sas lib k secret)) secret)))"
  shows "handle_sas_confirm lib env r ev =
    (record_event ev (r\<lparr>ps_state := AwaitingConfirmation\<rparr>), Inr (format_sas (fst (derive_sas lib k secret))))"
proof -
  have "received_32 lib (hex_of lib (derive_transcript_hash lib (derive_session_id lib secret)
      (public_key lib a) (public_key lib b) (snd (derive_sas lib k secret)) secret)) =
      Some (derive_transcript_hash lib (derive_session_id lib secret)
         (public_key lib a) (public_key lib b) (snd (derive_sas lib k secret)) secret)"
    by (rule received_hex_of [OF law]) (simp add: derive_transcript_hash_def hkdf32_length [OF law])
  moreover have "validate_event_from_peer lib r ev = Inr ()"
    by (rule validate_from_peer_carries [OF ev]) (use r new in \<open>simp_all add: party_def\<close>)
  moreover have "decrypt_message lib r ev = Inr (SasConfirm (hex_of lib (derive_transcript_hash lib
      (derive_session_id lib secret) (public_key lib a) (public_key lib b) (snd (derive_sas lib k secret)) secret)))"
    using ev r by (simp add: carries_def party_def)
  ultimately show ?thesis using r party_preconditions [OF r time]
    by (simp add: handle_sas_confirm_def ct_eq_def Let_def record_event_def party_def)
qed

lemma send_honest:
  assumes law: "lawful lib" and s: "party lib env0 r a b secret k s" and fits: "message_fits lib msg"
  shows "\<exists>ev. build_event lib env s msg = Inr ev \<and> carries lib a b ev msg"
  using build_event_carries [OF law _ fits, of s b env] s by (auto simp: party_def)

lemma receive_payload_honest:
  assumes ev: "carries lib a b ev (Payload ty p)" and r: "party lib env0 role b a secret k r" "ps_state r = Transferring"
    and time: "ce_now env \<le> ce_now env0 + 120" and new: "ev_id ev \<notin> set (ps_processed_ids r)"
  shows "receive_payload lib env role r ev = (record_event ev (r\<lparr>ps_state := PayloadExchanged\<rparr>), Inr (ty, p))"
proof -
  have "validate_event_from_peer lib r ev = Inr ()"
    by (rule validate_from_peer_carries [OF ev]) (use r new in \<open>simp_all add: party_def\<close>)
  moreover have "decrypt_message lib r ev = Inr (Payload ty p)" using ev r by (simp add: carries_def party_def)
  ultimately show ?thesis using party_preconditions [OF r time] by (simp add: receive_payload_def)
qed

lemma handle_complete_honest:
  assumes ev: "carries lib b a ev (Complete True)"
    and r: "party lib env0 Source a b secret k r" "ps_state r = PayloadExchanged"
    and time: "ce_now env \<le> ce_now env0 + 120" and new: "ev_id ev \<notin> set (ps_processed_ids r)"
  shows "handle_complete lib env r ev = (record_event ev (r\<lparr>ps_state := Completed\<rparr>), Inr ())"
proof -
  have "validate_event_from_peer lib r ev = Inr ()"
    by (rule validate_from_peer_carries [OF ev]) (use r new in \<open>simp_all add: party_def\<close>)
  moreover have "decrypt_message lib r ev = Inr (Complete True)" using ev r by (simp add: carries_def party_def)
  ultimately show ?thesis using party_preconditions [OF r time] by (simp add: handle_complete_def)
qed

lemma honest_run:
  assumes law: "lawful lib" and fits: "message_fits lib (Payload ty p)"
    and time: "\<And>i j. ce_now (ce i) \<le> ce_now (ce j) + 120"
    and src: "new_source lib (ce 0) a secret relay = (src0, qr)"
  shows "\<exists>tgt0 offer src1 sas conf src2 tgt1 tgt2 payl src3 tgt3 compl tgt4 src4.
    new_target lib (ce (1 :: nat)) b qr = Inr (tgt0, offer) \<and> session_sas_code tgt0 = Some sas \<and>
    handle_offer lib (ce 2) src0 offer = (src1, Inr sas) \<and>
    confirm_sas lib (ce 3) src1 = (src2, Inr conf) \<and>
    handle_sas_confirm lib (ce 4) tgt0 conf = (tgt1, Inr sas) \<and>
    confirm_target_sas (ce 5) tgt1 = (tgt2, Inr ()) \<and>
    send_payload lib (ce 6) src2 ty p = (src3, Inr payl) \<and>
    handle_payload lib (ce 7) tgt2 payl = (tgt3, Inr (ty, p)) \<and>
    send_complete lib (ce 8) tgt3 = (tgt4, Inr compl) \<and>
    handle_complete lib (ce 9) src3 compl = (src4, Inr ()) \<and>
    ps_state src4 = Completed \<and> ps_state tgt4 = Completed"
proof -
  obtain k where k: "shared_key lib b (public_key lib a) = Inr k" "shared_key lib a (public_key lib b) = Inr k"
    using lawful_facts(1,2) [OF law] by metis
  have qr: "qr_source_pubkey qr = public_key lib a" "qr_session_secret qr = secret"
    using src by (auto simp: new_source_def)
  define sas where "sas = format_sas (fst (derive_sas lib k secret))"
  obtain t offer where t: "new_target lib (ce 1) b qr = Inr (t\<lparr>ps_state := Confirming\<rparr>, offer)"
    and ob: "build_event lib (ce 1) t (Offer (hex_of lib (derive_session_id lib secret)) 1) = Inr offer"
    and oc: "carries lib b a offer (Offer (hex_of lib (derive_session_id lib secret)) 1)"
    and tp: "party lib (ce 1) Target b a secret k t" "ps_processed_ids t = []"
    using new_target_honest [OF law qr k(1)] by blast
  obtain s where offer: "handle_offer lib (ce 2) src0 offer = (s, Inr sas)"
    and sp: "party lib (ce 0) Source a b secret k s" "ps_state s = Confirming" "ps_processed_ids s = [ev_id offer]"
    using handle_offer_honest [OF law src oc time k(2)] unfolding sas_def by blast
  obtain conf h where conf: "confirm_sas lib (ce 3) s = (s\<lparr>ps_state := Transferring\<rparr>, Inr conf)"
    and cb: "build_event lib (ce 3) s (SasConfirm h) = Inr conf" and cc: "carries lib a b conf (SasConfirm h)"
    and h: "h = hex_of lib (derive_transcript_hash lib (derive_session_id lib secret) (public_key lib a)
      (public_key lib b) (snd (derive_sas lib k secret)) secret)"
    using confirm_sas_honest [OF law sp(1,2) time] by blast
  define t1 where "t1 = record_event conf (t\<lparr>ps_state := AwaitingConfirmation\<rparr>)"
  have sasconf: "handle_sas_confirm lib (ce 4) (t\<lparr>ps_state := Confirming\<rparr>) conf = (t1, Inr sas)"
    using tp cc
    by (subst handle_sas_confirm_honest [OF law _ _ time [of 4 1], where a = a and b = b and secret = secret and k = k])
       (simp_all add: h t1_def sas_def)
  have t1: "party lib (ce 1) Target b a secret k t1" "ps_state t1 = AwaitingConfirmation" "ps_processed_ids t1 = [ev_id conf]"
    using tp by (simp_all add: t1_def record_event_def List.insert_def)
  have userok: "confirm_target_sas (ce 5) t1 = (t1\<lparr>ps_state := Transferring\<rparr>, Inr ())"
    using party_preconditions [OF t1(1,2) time] by (simp add: confirm_target_sas_def)
  obtain payl where pb: "build_event lib (ce 6) (s\<lparr>ps_state := Transferring\<rparr>) (Payload ty p) = Inr payl"
    and pc: "carries lib a b payl (Payload ty p)"
    using send_honest [OF law _ fits, of "ce 0" Source a b secret k "s\<lparr>ps_state := Transferring\<rparr>" "ce 6"] sp(1) by auto
  have sent: "send_payload lib (ce 6) (s\<lparr>ps_state := Transferring\<rparr>) ty p = (s\<lparr>ps_state := PayloadExchanged\<rparr>, Inr payl)"
    using party_preconditions [of lib "ce 0" Source a b secret k "s\<lparr>ps_state := Transferring\<rparr>" Transferring "ce 6"] sp(1) pb time
    by (simp add: send_payload_def)
  have "ev_id conf \<noteq> ev_id payl"
    by (rule carries_distinct [OF law cb pb, where k = b]) (use cc pc sp(1) in \<open>simp_all add: party_def\<close>)
  then have got: "handle_payload lib (ce 7) (t1\<lparr>ps_state := Transferring\<rparr>) payl =
      (record_event payl (t1\<lparr>ps_state := PayloadExchanged\<rparr>), Inr (ty, p))"
    unfolding handle_payload_def using t1
    by (subst receive_payload_honest [OF pc _ _ time [of 7 1], where secret = secret and k = k]) auto
  define t3 where "t3 = record_event payl (t1\<lparr>ps_state := PayloadExchanged\<rparr>)"
  have t3: "party lib (ce 1) Target b a secret k t3" "ps_state t3 = PayloadExchanged"
    using t1 by (simp_all add: t3_def record_event_def)
  obtain compl where kb: "build_event lib (ce 8) t3 (Complete True) = Inr compl"
    and kc: "carries lib b a compl (Complete True)"
    using send_honest [OF law t3(1) lawful_facts(8) [OF law]] by blast
  have done_t: "send_complete lib (ce 8) t3 = (t3\<lparr>ps_state := Completed\<rparr>, Inr compl)"
    using party_preconditions [OF t3 time] kb by (simp add: send_complete_def)
  have "ev_id offer \<noteq> ev_id compl"
    by (rule carries_distinct [OF law ob kb, where k = a]) (use oc kc tp(1) t3(1) in \<open>simp_all add: party_def\<close>)
  then have done_s: "handle_complete lib (ce 9) (s\<lparr>ps_state := PayloadExchanged\<rparr>) compl =
      (record_event compl (s\<lparr>ps_state := Completed\<rparr>), Inr ())"
    using sp by (subst handle_complete_honest [OF kc _ _ time [of 9 0], where secret = secret and k = k]) auto
  have "session_sas_code (t\<lparr>ps_state := Confirming\<rparr>) = Some sas"
    using tp by (simp add: session_sas_code_def party_def sas_def)
  moreover have "ps_state (record_event compl (s\<lparr>ps_state := Completed\<rparr>)) = Completed"
    "ps_state (t3\<lparr>ps_state := Completed\<rparr>) = Completed"
    by (simp_all add: record_event_def)
  ultimately show ?thesis
    using t offer conf sasconf userok sent got [folded t3_def] done_t done_s by blast
qed


text \<open>A library that keeps the contracts.\<close>

fun ex_unhex :: "string \<Rightarrow> bytes" where
  "ex_unhex (x # y # r) = of_nat (of_char x) # ex_unhex r"
| "ex_unhex _ = []"

fun ex_encode :: "pairing_message \<Rightarrow> (string, string) result" where
  "ex_encode (Offer h v) = (if v = 1 then Inr (CHR ''o'' # h) else Inl [])"
| "ex_encode (SasConfirm h) = Inr (CHR ''s'' # h)"
| "ex_encode (Payload ty p) = Inr ((case ty of Nsec \<Rightarrow> CHR ''n'' | Bunker \<Rightarrow> CHR ''b'' | Connect \<Rightarrow> CHR ''c'' | Custom \<Rightarrow> CHR ''u'') # p)"
| "ex_encode (Complete b) = Inr [CHR ''e'', if b then CHR ''1'' else CHR ''0'']"
| "ex_encode (Abort r) = Inr [case r of AbortSasMismatch \<Rightarrow> CHR ''1'' | UserDenied \<Rightarrow> CHR ''2'' | Timeout \<Rightarrow> CHR ''3''
     | ProtocolError \<Rightarrow> CHR ''4'' | UnknownReason \<Rightarrow> CHR ''5'']"

definition ex_decode :: "string \<Rightarrow> (string, pairing_message) result" where
  "ex_decode j =
     (if j = [] then Inl []
      else (let t = hd j; r = tl j in
        if t = CHR ''o'' then Inr (Offer r 1) else if t = CHR ''s'' then Inr (SasConfirm r)
        else if t = CHR ''n'' then Inr (Payload Nsec r) else if t = CHR ''b'' then Inr (Payload Bunker r)
        else if t = CHR ''c'' then Inr (Payload Connect r) else if t = CHR ''u'' then Inr (Payload Custom r)
        else if t = CHR ''e'' then Inr (Complete (r = ''1''))
        else if t = CHR ''1'' then Inr (Abort AbortSasMismatch) else if t = CHR ''2'' then Inr (Abort UserDenied)
        else if t = CHR ''3'' then Inr (Abort Timeout) else if t = CHR ''4'' then Inr (Abort ProtocolError)
        else Inr (Abort UnknownReason)))"

definition ex_pairing_lib :: pairing_lib where
  "ex_pairing_lib = \<lparr>public_key = (\<lambda>sk. sk), shared_key = (\<lambda>a b. Inr (replicate 32 5)),
     hkdf_extract = (\<lambda>salt ikm. salt @ ikm), hkdf_expand = (\<lambda>prk info n. replicate n (foldl (+) 0 prk)),
     nip44_encrypt = (\<lambda>a b n m. Inr (replicate 132 (CHR ''x'') @ m)),
     nip44_decrypt = (\<lambda>a b c. Inr (drop 132 c)),
     json_encode = ex_encode, json_decode = ex_decode,
     hex_of = (\<lambda>b. concat (map (\<lambda>w. [char_of (unat w), CHR ''0'']) b)), hex_to = (\<lambda>s. Some (ex_unhex s)),
     sign_event = (\<lambda>sk u. Inr \<lparr>ev_id = ascii_bytes (un_content u), ev_pubkey = sk, ev_created_at = un_created_at u,
        ev_kind = un_kind u, ev_tags = un_tags u, ev_content = un_content u\<rparr>),
     verify_event = (\<lambda>ev. Inr ())\<rparr>"

lemma ex_decode_encode: "ex_encode m = Inr j \<Longrightarrow> ex_decode j = Inr m"
  by (cases m) (auto simp: ex_decode_def split: if_splits payload_type.splits abort_reason.splits)

lemma ex_message_fits:
  assumes "ex_encode m = Inr j" "length j \<le> 65535"
  shows "message_fits ex_pairing_lib m"
proof -
  have "j \<noteq> []" using assms(1) by (cases m) (auto split: if_splits)
  then show ?thesis using assms ex_decode_encode [OF assms(1)] by (auto simp: message_fits_def ex_pairing_lib_def)
qed

lemma ex_hex_round_trip: "ex_unhex (concat (map (\<lambda>w. [char_of (unat w), CHR ''0'']) b)) = b"
  by (induction b) (simp_all add: unat_u8_mod)

lemma ascii_bytes_inj: "ascii_bytes s = ascii_bytes t \<Longrightarrow> s = t"
proof (rule map_injective [OF _ injI])
  show "ascii_bytes s = ascii_bytes t \<Longrightarrow> map (\<lambda>c. of_nat (of_char c) :: u8) s = map (\<lambda>c. of_nat (of_char c)) t"
    by (simp add: ascii_bytes_def)
  fix x y :: char
  assume "(of_nat (of_char x) :: u8) = of_nat (of_char y)"
  then have "of_char x mod 2 ^ LENGTH(8) = (of_char y mod 2 ^ LENGTH(8) :: nat)"
    by (metis take_bit_eq_mod word_of_nat_eq_iff)
  then show "x = y" by simp
qed

lemma ex_pairing_lib_lawful: "lawful ex_pairing_lib"
proof -
  have fits: "message_fits ex_pairing_lib (Offer h 1)" "message_fits ex_pairing_lib (SasConfirm h)"
    if "length h = 64" for h
    using that by (auto intro: ex_message_fits)
  have "message_fits ex_pairing_lib (Complete b)" "message_fits ex_pairing_lib (Abort r)" for b r
    by (auto intro: ex_message_fits)
  moreover have "length (concat (map (\<lambda>w :: u8. [char_of (unat w), CHR ''0'']) b)) = 2 * length b" for b
    by (induction b) simp_all
  ultimately show ?thesis
    unfolding lawful_def using fits
    by (simp add: ex_pairing_lib_def ex_hex_round_trip) (auto dest: ascii_bytes_inj)
qed

definition ex_clock :: "nat \<Rightarrow> call_env" where
  "ex_clock i = \<lparr>ce_now = 1000 + min i 100, ce_wall = 5000, ce_random = 17, ce_nonce = []\<rparr>"

text \<open>C25.  Two honest devices complete the pairing.  With libraries that keep their contracts, any
  ephemeral keys and secret, a payload that fits one message and all calls within 120 seconds:
  every step succeeds, both users are shown the same SAS, the target obtains exactly the
  payload the source sent, and both sessions end Completed.\<close>

theorem pairing_completes:
  assumes law: "lawful lib" and fits: "message_fits lib (Payload ty p)"
    and time: "\<And>i j. ce_now (ce i) \<le> ce_now (ce j) + 120"
    and src: "new_source lib (ce 0) a secret relay = (src0, qr)"
  shows "\<exists>tgt0 offer src1 sas conf src2 tgt1 tgt2 payl src3 tgt3 compl tgt4 src4.
    new_target lib (ce (1 :: nat)) b qr = Inr (tgt0, offer) \<and> session_sas_code tgt0 = Some sas \<and>
    handle_offer lib (ce 2) src0 offer = (src1, Inr sas) \<and>
    confirm_sas lib (ce 3) src1 = (src2, Inr conf) \<and>
    handle_sas_confirm lib (ce 4) tgt0 conf = (tgt1, Inr sas) \<and>
    confirm_target_sas (ce 5) tgt1 = (tgt2, Inr ()) \<and>
    send_payload lib (ce 6) src2 ty p = (src3, Inr payl) \<and>
    handle_payload lib (ce 7) tgt2 payl = (tgt3, Inr (ty, p)) \<and>
    send_complete lib (ce 8) tgt3 = (tgt4, Inr compl) \<and>
    handle_complete lib (ce 9) src3 compl = (src4, Inr ()) \<and>
    ps_state src4 = Completed \<and> ps_state tgt4 = Completed"
  using assms by (rule honest_run [where ce = ce])

theorem pairing_completes_witness:
  "\<exists>tgt2 payl tgt3 src3. handle_payload ex_pairing_lib (ex_clock 7) tgt2 payl = (tgt3, Inr (Nsec, ''secret'')) \<and>
     (\<exists>compl src4. handle_complete ex_pairing_lib (ex_clock 9) src3 compl = (src4, Inr ()) \<and> ps_state src4 = Completed)"
proof -
  obtain src0 qr where src: "new_source ex_pairing_lib (ex_clock 0) [1] (replicate 32 9) ''wss://relay'' = (src0, qr)"
    by (meson prod.exhaust)
  have "message_fits ex_pairing_lib (Payload Nsec ''secret'')" by (auto intro: ex_message_fits)
  moreover have "ce_now (ex_clock i) \<le> ce_now (ex_clock j) + 120" for i j by (simp add: ex_clock_def)
  ultimately show ?thesis
    using pairing_completes [where ce = ex_clock and lib = ex_pairing_lib, OF ex_pairing_lib_lawful _ _ src, where b = "[2]"]
    by blast
qed


section \<open>Runs of one session\<close>

datatype session_op =
    OpOffer event
  | OpConfirmSas
  | OpReturnPayload event
  | OpSourceComplete bool
  | OpSendPayload payload_type string
  | OpComplete event
  | OpSasConfirm event
  | OpConfirmTarget
  | OpPayload event
  | OpSendComplete
  | OpAbort abort_reason
  | OpHandleAbort event

fun op_event :: "session_op \<Rightarrow> event option" where
  "op_event (OpOffer ev) = Some ev"
| "op_event (OpReturnPayload ev) = Some ev"
| "op_event (OpComplete ev) = Some ev"
| "op_event (OpSasConfirm ev) = Some ev"
| "op_event (OpPayload ev) = Some ev"
| "op_event (OpHandleAbort ev) = Some ev"
| "op_event _ = None"

text \<open>One call: the session after it, and whether it succeeded.\<close>

fun session_exec :: "pairing_lib \<Rightarrow> call_env \<Rightarrow> pairing_session \<Rightarrow> session_op \<Rightarrow> pairing_session \<times> bool" where
  "session_exec lib env s (OpOffer ev) = map_prod id is_ok (handle_offer lib env s ev)"
| "session_exec lib env s OpConfirmSas = map_prod id is_ok (confirm_sas lib env s)"
| "session_exec lib env s (OpReturnPayload ev) = map_prod id is_ok (handle_return_payload lib env s ev)"
| "session_exec lib env s (OpSourceComplete b) = map_prod id is_ok (send_source_complete lib env s b)"
| "session_exec lib env s (OpSendPayload ty p) = map_prod id is_ok (send_payload lib env s ty p)"
| "session_exec lib env s (OpComplete ev) = map_prod id is_ok (handle_complete lib env s ev)"
| "session_exec lib env s (OpSasConfirm ev) = map_prod id is_ok (handle_sas_confirm lib env s ev)"
| "session_exec lib env s OpConfirmTarget = map_prod id is_ok (confirm_target_sas env s)"
| "session_exec lib env s (OpPayload ev) = map_prod id is_ok (handle_payload lib env s ev)"
| "session_exec lib env s OpSendComplete = map_prod id is_ok (send_complete lib env s)"
| "session_exec lib env s (OpAbort r) = map_prod id is_ok (abort lib env s r)"
| "session_exec lib env s (OpHandleAbort ev) = map_prod id is_ok (handle_abort lib s ev)"

inductive session_run :: "pairing_lib \<Rightarrow> pairing_session \<Rightarrow> (session_op \<times> bool) list \<Rightarrow> pairing_session \<Rightarrow> bool"
  for lib s0 where
  run_start: "session_run lib s0 [] s0"
| run_call: "session_run lib s0 tr s \<Longrightarrow> session_exec lib env s op = (s', ok) \<Longrightarrow>
     session_run lib s0 (tr @ [(op, ok)]) s'"

text \<open>The transition table: the role and state a successful call needs and the state it reaches.\<close>

fun transition :: "session_op \<Rightarrow> (role option \<times> session_state option \<times> session_state)" where
  "transition (OpOffer _) = (Some Source, Some Waiting, Confirming)"
| "transition OpConfirmSas = (Some Source, Some Confirming, Transferring)"
| "transition (OpReturnPayload _) = (Some Source, Some Transferring, PayloadExchanged)"
| "transition (OpSourceComplete b) = (Some Source, Some PayloadExchanged, if b then Completed else Aborted)"
| "transition (OpSendPayload _ _) = (Some Source, Some Transferring, PayloadExchanged)"
| "transition (OpComplete _) = (Some Source, Some PayloadExchanged, Completed)"
| "transition (OpSasConfirm _) = (Some Target, Some Confirming, AwaitingConfirmation)"
| "transition OpConfirmTarget = (Some Target, Some AwaitingConfirmation, Transferring)"
| "transition (OpPayload _) = (Some Target, Some Transferring, PayloadExchanged)"
| "transition OpSendComplete = (Some Target, Some PayloadExchanged, Completed)"
| "transition (OpAbort _) = (None, None, Aborted)"
| "transition (OpHandleAbort _) = (None, None, Aborted)"

definition follows_table :: "pairing_session \<Rightarrow> session_op \<Rightarrow> pairing_session \<Rightarrow> bool" where
  "follows_table s op s' \<longleftrightarrow>
     (case transition op of (r, st, st') \<Rightarrow>
        (\<forall>x. r = Some x \<longrightarrow> ps_role s = x) \<and> (\<forall>x. st = Some x \<longrightarrow> ps_state s = x) \<and>
        \<not> terminal (ps_state s) \<and> ps_state s' = st')"

text \<open>Sending and receiving, seen from the outside.\<close>

lemma sending_call:
  assumes "(case and_then (preconditions env s st r) f of Inl e \<Rightarrow> (s, Inl e) | Inr ev \<Rightarrow> (s\<lparr>ps_state := st'\<rparr>, Inr ev)) = (s', res)"
  shows "if is_ok res then ps_role s = r \<and> ps_state s = st \<and> s' = s\<lparr>ps_state := st'\<rparr> else s' = s"
  using assms by (auto simp: and_then_def preconditions_ok split: sum.splits)

lemma validate_event_basics_ok:
  "validate_event_basics lib s ev = Inr () \<Longrightarrow> ev_id ev \<notin> set (ps_processed_ids s)"
  by (auto simp: validate_event_basics_def split: sum.splits if_splits)

lemma validate_event_from_peer_ok:
  assumes "validate_event_from_peer lib s ev = Inr ()"
  shows "ev_id ev \<notin> set (ps_processed_ids s)" and "ps_peer_pubkey s = None \<or> ps_peer_pubkey s = Some (ev_pubkey ev)"
  using assms validate_event_basics_ok
  by (auto simp: validate_event_from_peer_def and_then_Inr_iff guard_Inr_iff split: option.splits)

text \<open>An accepted event: it was new, it came from the locked peer if there was one, and it is on
  record afterwards.\<close>

definition accepts :: "pairing_session \<Rightarrow> event \<Rightarrow> pairing_session \<Rightarrow> bool" where
  "accepts s ev s' \<longleftrightarrow> ev_id ev \<notin> set (ps_processed_ids s) \<and>
     set (ps_processed_ids s') = insert (ev_id ev) (set (ps_processed_ids s)) \<and>
     (ps_peer_pubkey s = None \<or> ps_peer_pubkey s = Some (ev_pubkey ev)) \<and> ps_peer_pubkey s' = ps_peer_pubkey s"

lemma receive_payload_call:
  assumes "receive_payload lib env r s ev = (s', res)"
  shows "if is_ok res then ps_role s = r \<and> ps_state s = Transferring \<and> ps_state s' = PayloadExchanged \<and> accepts s ev s'
    else s' = s"
  using assms
  by (auto simp: receive_payload_def and_then_Inr_iff preconditions_ok accepts_def record_event_def
      dest: validate_event_from_peer_ok split: sum.splits pairing_message.splits)

lemma handle_complete_call:
  assumes "handle_complete lib env s ev = (s', res)"
  shows "if is_ok res then ps_role s = Source \<and> ps_state s = PayloadExchanged \<and> ps_state s' = Completed \<and> accepts s ev s'
    else s' = s \<or> (s' = s\<lparr>ps_state := Aborted\<rparr> \<and> \<not> terminal (ps_state s))"
proof (cases "and_then (preconditions env s PayloadExchanged Source) (\<lambda>_.
    and_then (validate_event_from_peer lib s ev) (\<lambda>_. decrypt_message lib s ev))")
  case (Inl e)
  then show ?thesis using assms by (auto simp: handle_complete_def)
next
  case (Inr msg)
  then have rs: "ps_role s = Source" "ps_state s = PayloadExchanged" and v: "validate_event_from_peer lib s ev = Inr ()"
    by (auto simp: and_then_Inr_iff preconditions_ok)
  show ?thesis using Inr assms validate_event_from_peer_ok [OF v] rs
    by (auto simp: handle_complete_def accepts_def record_event_def terminal_def split: pairing_message.splits bool.splits)
qed

lemma handle_abort_call:
  assumes "handle_abort lib s ev = (s', res)"
  shows "if is_ok res then \<not> terminal (ps_state s) \<and> ps_peer_pubkey s \<noteq> None \<and> ps_state s' = Aborted \<and> accepts s ev s'
    else s' = s"
  using assms
  by (auto simp: handle_abort_def and_then_Inr_iff accepts_def record_event_def
      dest: validate_event_from_peer_ok split: sum.splits pairing_message.splits if_splits)

lemma handle_sas_confirm_call:
  assumes "handle_sas_confirm lib env s ev = (s', res)" and code: "ps_role s = Target \<longrightarrow> ps_sas_code s \<noteq> None"
  shows "if is_ok res then ps_role s = Target \<and> ps_state s = Confirming \<and> ps_state s' = AwaitingConfirmation \<and> accepts s ev s'
    else s' = s \<or> (s' = s\<lparr>ps_state := Aborted\<rparr> \<and> \<not> terminal (ps_state s))"
proof (cases "and_then (preconditions env s Confirming Target) (\<lambda>_.
    and_then (validate_event_from_peer lib s ev) (\<lambda>_. decrypt_message lib s ev))")
  case (Inl e)
  then show ?thesis using assms by (auto simp: handle_sas_confirm_def)
next
  case (Inr msg)
  then have rs: "ps_role s = Target" "ps_state s = Confirming" and v: "validate_event_from_peer lib s ev = Inr ()"
    by (auto simp: and_then_Inr_iff preconditions_ok)
  with code obtain c where "ps_sas_code s = Some c" by auto
  then show ?thesis using Inr assms(1) validate_event_from_peer_ok [OF v] rs
    by (auto simp: handle_sas_confirm_def accepts_def record_event_def terminal_def Let_def
        split: pairing_message.splits option.splits if_splits)
qed

lemma handle_offer_call:
  assumes "handle_offer lib env s ev = (s', res)"
  shows "if is_ok res then ps_role s = Source \<and> ps_state s = Waiting \<and> ps_state s' = Confirming \<and>
      ev_id ev \<notin> set (ps_processed_ids s) \<and>
      set (ps_processed_ids s') = insert (ev_id ev) (set (ps_processed_ids s)) \<and>
      ps_peer_pubkey s' = Some (ev_pubkey ev)
    else s' = s \<or> (ps_role s = Source \<and> ps_state s = Waiting \<and> s' = s\<lparr>ps_peer_pubkey := Some (ev_pubkey ev)\<rparr>)"
proof (cases "check_offer lib env s ev")
  case (Inl e)
  then show ?thesis using assms by (auto simp: handle_offer_def)
next
  case (Inr u)
  then have "ps_role s = Source" "ps_state s = Waiting" "ev_id ev \<notin> set (ps_processed_ids s)"
    by (auto simp: check_offer_def and_then_Inr_iff preconditions_ok dest: validate_event_basics_ok)
  with Inr assms show ?thesis
    by (auto simp: handle_offer_def Let_def record_event_def case_prod_beta split: sum.splits)
qed


lemmas call_defs = handle_offer_def confirm_sas_def handle_return_payload_def receive_payload_def
  send_source_complete_def send_payload_def handle_complete_def handle_sas_confirm_def confirm_target_sas_def
  handle_payload_def send_complete_def abort_def handle_abort_def

lemma session_exec_static:
  assumes "session_exec lib env s op = (s', ok)"
  shows "ps_role s' = ps_role s \<and> (ps_sas_code s \<noteq> None \<longrightarrow> ps_sas_code s' \<noteq> None)"
  using assms
  by (cases op)
     (auto simp: call_defs record_event_def Let_def split: sum.splits option.splits prod.splits if_splits
        pairing_message.splits bool.splits)

definition locked_step :: "pairing_session \<Rightarrow> session_op \<Rightarrow> pairing_session \<Rightarrow> bool" where
  "locked_step s op s' \<longleftrightarrow>
     (case op_event op of
        None \<Rightarrow> ps_processed_ids s' = ps_processed_ids s \<and> ps_peer_pubkey s' = ps_peer_pubkey s
      | Some ev \<Rightarrow>
          ev_id ev \<notin> set (ps_processed_ids s) \<and>
          set (ps_processed_ids s') = insert (ev_id ev) (set (ps_processed_ids s)) \<and>
          (if transition op = transition (OpOffer ev) then ps_peer_pubkey s' = Some (ev_pubkey ev)
           else ps_peer_pubkey s' = ps_peer_pubkey s \<and>
             (ps_peer_pubkey s = None \<or> ps_peer_pubkey s = Some (ev_pubkey ev)) \<and>
             (op = OpHandleAbort ev \<longrightarrow> ps_peer_pubkey s \<noteq> None)))"

definition failed_step :: "pairing_session \<Rightarrow> pairing_session \<Rightarrow> bool" where
  "failed_step s s' \<longleftrightarrow> s' = s \<or> (s' = s\<lparr>ps_state := Aborted\<rparr> \<and> \<not> terminal (ps_state s)) \<or>
     (ps_role s = Source \<and> ps_state s = Waiting \<and> (\<exists>pk. s' = s\<lparr>ps_peer_pubkey := Some pk\<rparr>))"

lemmas step_defs = follows_table_def locked_step_def failed_step_def terminal_def accepts_def

lemma session_exec_call:
  assumes "session_exec lib env s op = (s', ok)" and code: "ps_role s = Target \<longrightarrow> ps_sas_code s \<noteq> None"
  shows "if ok then follows_table s op s' \<and> locked_step s op s' else failed_step s s'"
proof (cases op)
  case (OpOffer ev)
  then show ?thesis using assms(1) handle_offer_call [of lib env s ev]
    by (cases "handle_offer lib env s ev") (auto simp: step_defs)
next
  case OpConfirmSas
  obtain res where c: "confirm_sas lib env s = (s', res)" "ok = is_ok res"
    using assms(1) OpConfirmSas by (cases "confirm_sas lib env s") auto
  from sending_call [OF c(1) [unfolded confirm_sas_def]] c(2) OpConfirmSas show ?thesis
    by (auto simp: step_defs)
next
  case (OpReturnPayload ev)
  then show ?thesis using assms(1) receive_payload_call [of lib env Source s ev]
    by (cases "receive_payload lib env Source s ev")
       (auto simp: handle_return_payload_def step_defs)
next
  case (OpSourceComplete b)
  obtain res where c: "send_source_complete lib env s b = (s', res)" "ok = is_ok res"
    using assms(1) OpSourceComplete by (cases "send_source_complete lib env s b") auto
  from sending_call [OF c(1) [unfolded send_source_complete_def]] c(2) OpSourceComplete show ?thesis
    by (auto simp: step_defs)
next
  case (OpSendPayload ty p)
  obtain res where c: "send_payload lib env s ty p = (s', res)" "ok = is_ok res"
    using assms(1) OpSendPayload by (cases "send_payload lib env s ty p") auto
  from sending_call [OF c(1) [unfolded send_payload_def]] c(2) OpSendPayload show ?thesis
    by (auto simp: step_defs)
next
  case (OpComplete ev)
  then show ?thesis using assms(1) handle_complete_call [of lib env s ev]
    by (cases "handle_complete lib env s ev")
       (auto simp: step_defs)
next
  case (OpSasConfirm ev)
  obtain res where c: "handle_sas_confirm lib env s ev = (s', res)" "ok = is_ok res"
    using assms(1) OpSasConfirm by (cases "handle_sas_confirm lib env s ev") auto
  from handle_sas_confirm_call [OF c(1) code] c(2) OpSasConfirm show ?thesis
    by (auto simp: step_defs)
next
  case OpConfirmTarget
  then show ?thesis using assms(1)
    by (auto simp: confirm_target_sas_def preconditions_ok step_defs
        split: sum.splits)
next
  case (OpPayload ev)
  then show ?thesis using assms(1) receive_payload_call [of lib env Target s ev]
    by (cases "receive_payload lib env Target s ev")
       (auto simp: handle_payload_def step_defs)
next
  case OpSendComplete
  obtain res where c: "send_complete lib env s = (s', res)" "ok = is_ok res"
    using assms(1) OpSendComplete by (cases "send_complete lib env s") auto
  from sending_call [OF c(1) [unfolded send_complete_def]] c(2) OpSendComplete show ?thesis
    by (auto simp: step_defs)
next
  case (OpAbort r)
  then show ?thesis using assms(1)
    by (auto simp: abort_def step_defs split: sum.splits if_splits)
next
  case (OpHandleAbort ev)
  then show ?thesis using assms(1) handle_abort_call [of lib s ev]
    by (cases "handle_abort lib s ev")
       (auto simp: step_defs)
qed


section \<open>Invariants of a run\<close>

text \<open>What a fresh session looks like, as \<open>new_source\<close> and \<open>new_target\<close> make it.\<close>

definition fresh_session :: "pairing_session \<Rightarrow> bool" where
  "fresh_session s \<longleftrightarrow> ps_processed_ids s = [] \<and>
     (case ps_role s of
        Source \<Rightarrow> ps_state s = Waiting
      | Target \<Rightarrow> ps_state s = Confirming \<and> ps_sas_code s \<noteq> None \<and> ps_peer_pubkey s \<noteq> None)"

lemma new_source_fresh: "new_source lib env keys secret relay = (s, qr) \<Longrightarrow> fresh_session s"
  by (auto simp: new_source_def fresh_session_def)

lemma new_target_fresh: "new_target lib env keys qr = Inr (s, offer) \<Longrightarrow> fresh_session s \<and> ps_role s = Target"
  by (auto simp: new_target_def fresh_session_def and_then_Inr_iff Let_def split: sum.splits prod.splits)

fun rank :: "session_state \<Rightarrow> nat" where
  "rank Waiting = 0"
| "rank Confirming = 1"
| "rank AwaitingConfirmation = 2"
| "rank Transferring = 3"
| "rank PayloadExchanged = 4"
| "rank Completed = 5"
| "rank Aborted = 5"

lemma follows_table_rank: "follows_table s op s' \<Longrightarrow> rank (ps_state s) < rank (ps_state s')"
  by (cases op; cases "ps_state s") (auto simp: follows_table_def terminal_def)

lemma failed_step_rank: "failed_step s s' \<Longrightarrow> ps_state s' = ps_state s \<or> rank (ps_state s) < rank (ps_state s')"
  by (cases "ps_state s") (auto simp: failed_step_def terminal_def)

definition accepted :: "(session_op \<times> bool) list \<Rightarrow> event list" where
  "accepted tr = List.map_filter (\<lambda>(op, ok). if ok then op_event op else None) tr"

lemma accepted_snoc [simp]:
  "accepted (tr @ [(op, ok)]) = accepted tr @ (case op_event op of Some ev \<Rightarrow> if ok then [ev] else [] | None \<Rightarrow> [])"
  by (auto simp: accepted_def List.map_filter_def split: option.splits)

text \<open>The user's confirmation at the target: an accepted sas-confirm, then an approval.\<close>

definition confirmed :: "(session_op \<times> bool) list \<Rightarrow> bool" where
  "confirmed tr \<longleftrightarrow> (\<exists>pre mid post ev. tr = pre @ (OpSasConfirm ev, True) # mid @ (OpConfirmTarget, True) # post)"

lemma confirmed_snoc: "confirmed tr \<Longrightarrow> confirmed (tr @ [x])"
  unfolding confirmed_def by (metis append.assoc append_Cons)

lemma confirmed_now: "(OpSasConfirm ev, True) \<in> set tr \<Longrightarrow> confirmed (tr @ [(OpConfirmTarget, True)])"
  unfolding confirmed_def by (metis append.assoc append_Cons split_list)

definition run_inv :: "(session_op \<times> bool) list \<Rightarrow> pairing_session \<Rightarrow> bool" where
  "run_inv tr s \<longleftrightarrow>
     (ps_role s = Target \<longrightarrow> ps_sas_code s \<noteq> None \<and> ps_peer_pubkey s \<noteq> None \<and>
        (ps_state s = AwaitingConfirmation \<longrightarrow> (\<exists>ev. (OpSasConfirm ev, True) \<in> set tr)) \<and>
        (ps_state s \<in> {Transferring, PayloadExchanged, Completed} \<longrightarrow> confirmed tr) \<and> ps_state s \<noteq> Waiting) \<and>
     (ps_role s = Source \<longrightarrow> (ps_peer_pubkey s = None \<longrightarrow> ps_state s \<in> {Waiting, Aborted}) \<and>
        (accepted tr \<noteq> [] \<longrightarrow> ps_state s \<noteq> Waiting)) \<and>
     set (ps_processed_ids s) = ev_id ` set (accepted tr) \<and> distinct (map ev_id (accepted tr)) \<and>
     (\<forall>ev \<in> set (accepted tr). ps_peer_pubkey s = Some (ev_pubkey ev))"

lemma run_inv_fresh: "fresh_session s \<Longrightarrow> run_inv [] s"
  by (auto simp: fresh_session_def run_inv_def accepted_def List.map_filter_def split: role.splits)

lemma run_inv_failed:
  assumes inv: "run_inv tr s" and "failed_step s s'"
  shows "run_inv (tr @ [(op, False)]) s'"
proof -
  have acc: "accepted (tr @ [(op, False)]) = accepted tr" by (simp split: option.splits)
  have inv': "run_inv (tr @ [(op, False)]) s"
    using inv unfolding run_inv_def acc by (simp add: confirmed_snoc)
  from assms(2) consider "s' = s" | "s' = s\<lparr>ps_state := Aborted\<rparr>" |
      pk where "ps_role s = Source" "ps_state s = Waiting" "s' = s\<lparr>ps_peer_pubkey := Some pk\<rparr>"
    by (auto simp: failed_step_def)
  then show ?thesis
  proof cases
    case 3
    then have "accepted tr = []" using inv by (auto simp: run_inv_def)
    with 3 inv' show ?thesis unfolding run_inv_def acc by simp
  qed (use inv' in \<open>simp_all add: run_inv_def\<close>)
qed

lemma run_inv_ok_history:
  assumes "run_inv tr s" "follows_table s op s'" "locked_step s op s'" "ps_role s = Target"
  shows "ps_peer_pubkey s' \<noteq> None \<and>
    (ps_state s' = AwaitingConfirmation \<longrightarrow> (\<exists>ev. (OpSasConfirm ev, True) \<in> set (tr @ [(op, True)]))) \<and>
    (ps_state s' \<in> {Transferring, PayloadExchanged, Completed} \<longrightarrow> confirmed (tr @ [(op, True)])) \<and> ps_state s' \<noteq> Waiting"
proof -
  from assms(1,4) have inv: "ps_peer_pubkey s \<noteq> None"
    "ps_state s = AwaitingConfirmation \<longrightarrow> confirmed (tr @ [(OpConfirmTarget, True)])"
    "ps_state s \<in> {Transferring, PayloadExchanged, Completed} \<longrightarrow> confirmed (tr @ [(op, True)])"
    by (auto simp: run_inv_def confirmed_snoc dest: confirmed_now)
  show ?thesis using inv assms(2-4)
    by (cases op) (simp_all add: follows_table_def locked_step_def, auto)
qed

lemma run_inv_ok_locked:
  assumes "run_inv tr s" "follows_table s op s'" "locked_step s op s'"
  shows "set (ps_processed_ids s') = ev_id ` set (accepted (tr @ [(op, True)])) \<and>
    distinct (map ev_id (accepted (tr @ [(op, True)]))) \<and>
    (\<forall>ev \<in> set (accepted (tr @ [(op, True)])). ps_peer_pubkey s' = Some (ev_pubkey ev))"
proof (cases "op_event op")
  case None
  then show ?thesis using assms by (auto simp: run_inv_def locked_step_def)
next
  case (Some ev)
  show ?thesis
  proof (cases "transition op = transition (OpOffer ev)")
    case True
    then have "ps_role s = Source" "ps_state s = Waiting" using assms(2) by (auto simp: follows_table_def)
    then have "accepted tr = []" using assms(1) by (auto simp: run_inv_def)
    with Some True assms show ?thesis by (auto simp: run_inv_def locked_step_def)
  next
    case False
    then have "ps_peer_pubkey s \<noteq> None"
      using assms Some by (cases op; cases "ps_role s") (auto simp: run_inv_def follows_table_def locked_step_def)
    with Some False assms show ?thesis by (auto simp: run_inv_def locked_step_def)
  qed
qed


lemma run_inv_step:
  assumes inv: "run_inv tr s" and ex: "session_exec lib env s op = (s', ok)"
  shows "run_inv (tr @ [(op, ok)]) s'"
proof -
  note static = session_exec_static [OF ex]
  have code: "ps_role s = Target \<longrightarrow> ps_sas_code s \<noteq> None" using inv by (simp add: run_inv_def)
  note call = session_exec_call [OF ex code]
  show ?thesis
  proof (cases ok)
    case False
    then show ?thesis using run_inv_failed [OF inv] call by auto
  next
    case True
    then have ok: "follows_table s op s'" "locked_step s op s'" using call by auto
    have "ps_state s' \<noteq> Waiting" using follows_table_rank [OF ok(1)] by auto
    moreover have "ps_peer_pubkey s' \<noteq> None" if "ps_role s = Source" "ps_state s' \<notin> {Waiting, Aborted}"
      using inv ok that by (cases op) (auto simp: run_inv_def follows_table_def locked_step_def)
    ultimately show ?thesis
      using run_inv_ok_history [OF inv ok] run_inv_ok_locked [OF inv ok] static code True
      unfolding run_inv_def by (cases "ps_role s") auto
  qed
qed

lemma session_run_inv: "session_run lib s0 tr s \<Longrightarrow> fresh_session s0 \<Longrightarrow> run_inv tr s"
  by (induction rule: session_run.induct) (auto simp: run_inv_fresh intro: run_inv_step)

lemma session_run_rank:
  assumes "session_run lib s0 tr s" "fresh_session s0"
  shows "rank (ps_state s0) \<le> rank (ps_state s) \<and>
    length (filter (\<lambda>(op, ok). ok \<and> snd (snd (transition op)) = PayloadExchanged) tr) \<le> (if rank (ps_state s) \<ge> 4 then 1 else 0)"
  using assms
proof (induction rule: session_run.induct)
  case (run_call tr s env op s' ok)
  have code: "ps_role s = Target \<longrightarrow> ps_sas_code s \<noteq> None"
    using session_run_inv [OF run_call.hyps(1) run_call.prems] by (simp add: run_inv_def)
  note call = session_exec_call [OF run_call.hyps(2) code]
  show ?case
  proof (cases ok)
    case True
    then have ft: "follows_table s op s'" using call by simp
    then have "snd (snd (transition op)) = PayloadExchanged \<longrightarrow> ps_state s = Transferring \<and> ps_state s' = PayloadExchanged"
      by (cases op) (auto simp: follows_table_def)
    then show ?thesis using run_call.IH run_call.prems follows_table_rank [OF ft] by (auto split: if_splits)
  next
    case False
    then show ?thesis using run_call.IH run_call.prems call failed_step_rank [of s s'] by (auto split: if_splits)
  qed
qed simp

section \<open>Properties of runs\<close>

text \<open>The event carries a sas-confirm with the transcript hash that the session computes from its own keys, its peer,
  its secret and its SAS input.\<close>

definition transcript_verified :: "pairing_lib \<Rightarrow> pairing_session \<Rightarrow> event \<Rightarrow> bool" where
  "transcript_verified lib s ev \<longleftrightarrow> (\<exists>received peer input.
     decrypt_message lib s ev = Inr (SasConfirm received) \<and> ps_peer_pubkey s = Some peer \<and> ev_pubkey ev = peer \<and>
     ps_sas_input s = Some input \<and>
     hex_to lib received =
       Some (derive_transcript_hash lib (ps_session_id s) peer (public_key lib (ps_keys s)) input (ps_session_secret s)))"

lemma sas_confirm_verifies:
  assumes "session_exec lib env s (OpSasConfirm ev) = (s', True)"
  shows "transcript_verified lib s ev"
proof -
  obtain sas where ok: "handle_sas_confirm lib env s ev = (s', Inr sas)"
    using assms by (cases "handle_sas_confirm lib env s ev"; cases "snd (handle_sas_confirm lib env s ev)") auto
  then obtain msg where msg: "and_then (preconditions env s Confirming Target) (\<lambda>_.
      and_then (validate_event_from_peer lib s ev) (\<lambda>_. decrypt_message lib s ev)) = Inr msg"
    by (auto simp: handle_sas_confirm_def split: sum.splits)
  then have v: "validate_event_from_peer lib s ev = Inr ()" "decrypt_message lib s ev = Inr msg"
    by (auto simp: and_then_Inr_iff)
  from ok msg obtain received peer input where m: "msg = SasConfirm received" "ps_peer_pubkey s = Some peer"
      "ps_sas_input s = Some input"
      "received_32 lib received =
         Some (derive_transcript_hash lib (ps_session_id s) peer (public_key lib (ps_keys s)) input (ps_session_secret s))"
    by (auto simp: handle_sas_confirm_def Let_def ct_eq_def split: pairing_message.splits option.splits if_splits)
  have "ev_pubkey ev = peer"
    using v(1) m(2) by (auto simp: validate_event_from_peer_def and_then_Inr_iff guard_def split: if_splits)
  with m v(2) show ?thesis
    by (auto simp: transcript_verified_def received_32_def split: option.splits if_splits)
qed

text \<open>What a target session was made with stays.\<close>

definition same_party :: "pairing_session \<Rightarrow> pairing_session \<Rightarrow> bool" where
  "same_party s s' \<longleftrightarrow> ps_role s' = ps_role s \<and> ps_keys s' = ps_keys s \<and> ps_session_id s' = ps_session_id s \<and>
     ps_session_secret s' = ps_session_secret s \<and> ps_sas_input s' = ps_sas_input s \<and> ps_peer_pubkey s' = ps_peer_pubkey s"

lemma transcript_verified_same: "same_party s s' \<Longrightarrow> transcript_verified lib s' ev = transcript_verified lib s ev"
proof -
  assume same: "same_party s s'"
  then have "ps_keys s' = ps_keys s" by (simp add: same_party_def)
  then have "decrypt_message lib s' ev = decrypt_message lib s ev" by (simp only: decrypt_message_def)
  with same show ?thesis by (simp add: same_party_def transcript_verified_def)
qed

lemma offer_role: "check_offer lib env s ev = Inr () \<Longrightarrow> ps_role s = Source"
  by (auto simp: check_offer_def and_then_Inr_iff preconditions_ok)

lemma target_step_same:
  assumes "session_exec lib env s op = (s', ok)" "ps_role s = Target"
  shows "same_party s s'"
  using assms
  by (cases op)
     (auto simp: same_party_def call_defs record_event_def preconditions_ok Let_def dest: offer_role split: sum.splits option.splits prod.splits if_splits
        pairing_message.splits bool.splits)

lemma target_run_verified:
  assumes "session_run lib s0 tr s" "ps_role s0 = Target"
  shows "same_party s0 s \<and> (\<forall>ev. (OpSasConfirm ev, True) \<in> set tr \<longrightarrow> transcript_verified lib s0 ev)"
  using assms
proof (induction rule: session_run.induct)
  case (run_call tr s env op s' ok)
  then have IH: "same_party s0 s" "\<forall>ev. (OpSasConfirm ev, True) \<in> set tr \<longrightarrow> transcript_verified lib s0 ev" by simp_all
  have "ps_role s = Target" using IH(1) run_call.prems by (simp add: same_party_def)
  with run_call.hyps(2) have "same_party s s'" by (rule target_step_same)
  with IH(1) have "same_party s0 s'" by (simp add: same_party_def)
  moreover have "transcript_verified lib s0 ev" if "op = OpSasConfirm ev" "ok" for ev
    using sas_confirm_verifies [of lib env s ev s'] run_call.hyps(2) that transcript_verified_same [OF IH(1)] by simp
  ultimately show ?case using IH(2) by auto
qed (simp add: same_party_def)

text \<open>The confirmation a target session needs: a sas-confirm of its peer, accepted and with the right transcript hash, and
  after it the approval of its user.\<close>

definition confirmed_transcript :: "pairing_lib \<Rightarrow> pairing_session \<Rightarrow> (session_op \<times> bool) list \<Rightarrow> bool" where
  "confirmed_transcript lib s0 tr \<longleftrightarrow> (\<exists>pre mid post ev.
     tr = pre @ (OpSasConfirm ev, True) # mid @ (OpConfirmTarget, True) # post \<and> transcript_verified lib s0 ev)"

text \<open>C26.  No payload before the transcript was verified and the user agreed: if a target session hands out a payload, then
  earlier in its life it accepted a sas-confirm from the key of its QR code whose transcript hash is the one the session
  computes itself from its session id, the two public keys, the SAS input and the session secret, and after that its user approved the SAS.\<close>

theorem payload_needs_user_confirmation:
  assumes "new_target lib env keys qr = Inr (s0, offer)" and "session_run lib s0 tr s"
    and "handle_payload lib env' s ev = (s', Inr x)"
  shows "confirmed_transcript lib s0 tr"
proof -
  have fresh: "fresh_session s0" "ps_role s0 = Target" using new_target_fresh [OF assms(1)] by auto
  have "run_inv tr s" using assms(2) fresh(1) by (rule session_run_inv)
  moreover have "ps_role s = Target" "ps_state s = Transferring"
    using receive_payload_call [of lib env' Target s ev s' "Inr x"] assms(3) by (auto simp: handle_payload_def)
  ultimately have "confirmed tr" by (simp add: run_inv_def)
  with target_run_verified [OF assms(2) fresh(2)] show ?thesis
    unfolding confirmed_def confirmed_transcript_def by fastforce
qed

text \<open>Every event is processed at most once and only from one peer: over a whole run the
  accepted events have pairwise different ids and one and the same author, the key the session
  is locked to.\<close>

theorem events_accepted_once_from_one_peer:
  assumes "fresh_session s0" and "session_run lib s0 tr s"
  shows "distinct (map ev_id (accepted tr)) \<and>
    (\<forall>ev \<in> set (accepted tr). ps_peer_pubkey s = Some (ev_pubkey ev))"
  using session_run_inv [OF assms(2,1)] by (simp add: run_inv_def)

text \<open>A session only moves forward: no run returns to an earlier stage, a Completed or Aborted
  session keeps its state under every call and every call on it fails, and at most one payload
  is sent or received.\<close>

theorem session_moves_forward:
  assumes "fresh_session s0" and "session_run lib s0 tr s" and "session_exec lib env s op = (s', ok)"
  shows "rank (ps_state s0) \<le> rank (ps_state s) \<and> rank (ps_state s) \<le> rank (ps_state s') \<and>
    (terminal (ps_state s) \<longrightarrow> \<not> ok \<and> ps_state s' = ps_state s) \<and>
    length (filter (\<lambda>(op, ok). ok \<and> snd (snd (transition op)) = PayloadExchanged) tr) \<le> 1"
proof -
  have code: "ps_role s = Target \<longrightarrow> ps_sas_code s \<noteq> None"
    using session_run_inv [OF assms(2,1)] by (simp add: run_inv_def)
  have call: "if ok then follows_table s op s' else failed_step s s'"
    using session_exec_call [OF assms(3) code] by auto
  have "terminal (ps_state s) \<longrightarrow> \<not> ok \<and> ps_state s' = ps_state s"
    using call by (auto simp: follows_table_def failed_step_def terminal_def split: if_splits)
  moreover have "rank (ps_state s) \<le> rank (ps_state s')"
    using call follows_table_rank [of s op s'] failed_step_rank [of s s'] by (auto split: if_splits)
  ultimately show ?thesis using session_run_rank [OF assms(2,1)] by (auto split: if_splits)
qed

text \<open>An expired session is frozen: 120 seconds after its creation every call but the two abort
  calls fails with SessionExpired and changes nothing.\<close>

theorem expired_session_frozen:
  assumes "ps_timeout s = DEFAULT_TIMEOUT" and "ce_now env > ps_created_at s + 120"
  shows "handle_offer lib env s ev = (s, Inl SessionExpired) \<and> confirm_sas lib env s = (s, Inl SessionExpired) \<and>
    handle_return_payload lib env s ev = (s, Inl SessionExpired) \<and>
    send_source_complete lib env s b = (s, Inl SessionExpired) \<and>
    send_payload lib env s ty p = (s, Inl SessionExpired) \<and> handle_complete lib env s ev = (s, Inl SessionExpired) \<and>
    handle_sas_confirm lib env s ev = (s, Inl SessionExpired) \<and> confirm_target_sas env s = (s, Inl SessionExpired) \<and>
    handle_payload lib env s ev = (s, Inl SessionExpired) \<and> send_complete lib env s = (s, Inl SessionExpired)"
proof -
  have "check_expired env s = Inl SessionExpired"
    using assms by (auto simp: check_expired_def is_expired_def DEFAULT_TIMEOUT_def guard_def)
  then have "preconditions env s st r = Inl SessionExpired" for st r by (simp add: preconditions_def)
  then show ?thesis by (simp add: call_defs check_offer_def)
qed


text \<open>A concrete target session up to its payload.\<close>

definition ex_qr :: qr_payload where
  "ex_qr = snd (new_source ex_pairing_lib (ex_clock 0) [1] (replicate 32 9) ''wss://relay'')"

lemma ex_target_run:
  "\<exists>s0 offer conf payl s s'. new_target ex_pairing_lib (ex_clock 1) [2] ex_qr = Inr (s0, offer) \<and>
     session_run ex_pairing_lib s0 [(OpSasConfirm conf, True), (OpConfirmTarget, True)] s \<and>
     handle_payload ex_pairing_lib (ex_clock 7) s payl = (s', Inr (Nsec, ''secret'')) \<and>
     session_run ex_pairing_lib s0 [(OpSasConfirm conf, True), (OpConfirmTarget, True), (OpPayload payl, True)] s'"
proof -
  obtain src0 where src: "new_source ex_pairing_lib (ex_clock 0) [1] (replicate 32 9) ''wss://relay'' = (src0, ex_qr)"
    by (metis ex_qr_def prod.collapse)
  have fits: "message_fits ex_pairing_lib (Payload Nsec ''secret'')" by (auto intro: ex_message_fits)
  have time: "ce_now (ex_clock i) \<le> ce_now (ex_clock j) + 120" for i j by (simp add: ex_clock_def)
  obtain s0 offer sas conf t1 t2 payl t3 where
    1: "new_target ex_pairing_lib (ex_clock 1) [2] ex_qr = Inr (s0, offer)"
    and 2: "handle_sas_confirm ex_pairing_lib (ex_clock 4) s0 conf = (t1, Inr sas)"
    and 3: "confirm_target_sas (ex_clock 5) t1 = (t2, Inr ())"
    and 4: "handle_payload ex_pairing_lib (ex_clock 7) t2 payl = (t3, Inr (Nsec, ''secret''))"
    using honest_run [where ce = ex_clock and lib = ex_pairing_lib and b = "[2]", OF ex_pairing_lib_lawful fits time src]
    by blast
  have "session_run ex_pairing_lib s0 ([] @ [(OpSasConfirm conf, True)]) t1"
    by (rule run_call [OF run_start, where env = "ex_clock 4"]) (simp add: 2)
  then have "session_run ex_pairing_lib s0 (([] @ [(OpSasConfirm conf, True)]) @ [(OpConfirmTarget, True)]) t2"
    by (rule run_call [where env = "ex_clock 5"]) (simp add: 3)
  moreover from this have "session_run ex_pairing_lib s0
      ((([] @ [(OpSasConfirm conf, True)]) @ [(OpConfirmTarget, True)]) @ [(OpPayload payl, True)]) t3"
    by (rule run_call [where env = "ex_clock 7"]) (simp add: 4)
  ultimately show ?thesis using 1 4 by fastforce
qed

theorem payload_needs_user_confirmation_witness:
  "\<exists>s0 offer tr s. new_target ex_pairing_lib (ex_clock 1) [2] ex_qr = Inr (s0, offer) \<and>
     session_run ex_pairing_lib s0 tr s \<and> confirmed_transcript ex_pairing_lib s0 tr"
  using ex_target_run payload_needs_user_confirmation by blast

theorem events_accepted_once_from_one_peer_witness:
  "\<exists>s0 tr s. session_run ex_pairing_lib s0 tr s \<and> length (accepted tr) = 2 \<and> distinct (map ev_id (accepted tr))"
proof -
  obtain s0 offer conf payl s' where t: "new_target ex_pairing_lib (ex_clock 1) [2] ex_qr = Inr (s0, offer)"
    and run: "session_run ex_pairing_lib s0 [(OpSasConfirm conf, True), (OpConfirmTarget, True), (OpPayload payl, True)] s'"
    using ex_target_run by blast
  have "fresh_session s0" using new_target_fresh [OF t] by simp
  from events_accepted_once_from_one_peer [OF this run] run show ?thesis
    by (intro exI [of _ s0] exI [of _ "[(OpSasConfirm conf, True), (OpConfirmTarget, True), (OpPayload payl, True)]"]
        exI [of _ s']) (simp add: accepted_def List.map_filter_def)
qed

theorem session_moves_forward_witness:
  "\<exists>s0 tr s. session_run ex_pairing_lib s0 tr s \<and> rank (ps_state s0) \<le> rank (ps_state s) \<and>
     length (filter (\<lambda>(op, ok). ok \<and> snd (snd (transition op)) = PayloadExchanged) tr) \<le> 1"
proof -
  obtain s0 offer conf payl s' where t: "new_target ex_pairing_lib (ex_clock 1) [2] ex_qr = Inr (s0, offer)"
    and run: "session_run ex_pairing_lib s0 [(OpSasConfirm conf, True), (OpConfirmTarget, True), (OpPayload payl, True)] s'"
    using ex_target_run by blast
  have "fresh_session s0" using new_target_fresh [OF t] by simp
  moreover obtain s'' ok where "session_exec ex_pairing_lib (ex_clock 8) s' OpSendComplete = (s'', ok)"
    by (meson prod.exhaust)
  ultimately show ?thesis using session_moves_forward [OF _ run] run by blast
qed

theorem expired_session_frozen_witness:
  "confirm_target_sas \<lparr>ce_now = 2000, ce_wall = 0, ce_random = 0, ce_nonce = []\<rparr>
     (fst (new_source ex_pairing_lib (ex_clock 0) [1] [] [])) =
   (fst (new_source ex_pairing_lib (ex_clock 0) [1] [] []), Inl SessionExpired)"
  using expired_session_frozen [of "fst (new_source ex_pairing_lib (ex_clock 0) [1] [] [])"
      "\<lparr>ce_now = 2000, ce_wall = 0, ce_random = 0, ce_nonce = []\<rparr>"]
  by (simp add: new_source_def ex_clock_def)

end
