(* ===== verification/Event_Queue.thy ===== *)
theory Event_Queue
  imports Nostr_Events Complex_Main "HOL-Library.Multiset"
begin

text \<open>
  The event queue of the agent harness: \<open>crates/punks-acp/src/queue.rs\<close>, type \<open>EventQueue\<close>.

  Events wait per channel until the harness prompts an agent with a batch of them; a channel
  with a prompt in flight is skipped, a failed batch returns to the front of its channel's queue
  under an exponential backoff, a cancelled batch waits in a side table to be merged into the
  next one, and an event that is being steered into a running turn is withheld in another.

  Instants and durations are nanoseconds.  Every operation that reads the clock takes the
  reading as an argument, and \<open>requeue\<close> also takes the subsecond nanoseconds of the wall clock
  that the source uses as jitter; floating-point arithmetic of the jitter is exact here.  Hash
  maps are association lists, whose order stands for the unspecified iteration order of the map.
\<close>

section \<open>Constants and data\<close>

type_synonym instant = nat

definition secs :: "nat \<Rightarrow> nat" where
  "secs n = n * 10 ^ 9"

definition MAX_PENDING_PER_CHANNEL :: nat where "MAX_PENDING_PER_CHANNEL = 500"
definition MAX_BATCH_EVENTS :: nat where "MAX_BATCH_EVENTS = 50"
definition MAX_RETRIES :: nat where "MAX_RETRIES = 10"
definition BASE_RETRY_DELAY_SECS :: nat where "BASE_RETRY_DELAY_SECS = 5"
definition MAX_RETRY_DELAY_SECS :: nat where "MAX_RETRY_DELAY_SECS = 300"
definition IN_FLIGHT_DEADLINE_BUFFER_SECS :: nat where "IN_FLIGHT_DEADLINE_BUFFER_SECS = 100"
definition DEFAULT_IN_FLIGHT_DEADLINE_SECS :: nat where "DEFAULT_IN_FLIGHT_DEADLINE_SECS = 7300"

datatype dedup_mode = Drop | Queue

datatype cancel_reason = Interrupt | Steer

record queued_event =
  qe_channel_id :: channel_id
  qe_event :: event
  qe_received_at :: instant
  qe_prompt_tag :: string

record batch_event =
  be_event :: event
  be_prompt_tag :: string
  be_received_at :: instant

record flush_batch =
  fb_channel_id :: channel_id
  fb_events :: "batch_event list"
  fb_cancelled_events :: "batch_event list"
  fb_cancel_reason :: "cancel_reason option"

record event_queue =
  queues :: "(channel_id \<times> queued_event list) list"
  in_flight_channels :: "channel_id set"
  in_flight_deadlines :: "(channel_id \<times> instant) list"
  in_flight_batch_sizes :: "(channel_id \<times> nat) list"
  retry_after :: "(channel_id \<times> instant) list"
  retry_counts :: "(channel_id \<times> nat) list"
  q_dedup_mode :: dedup_mode
  cancelled_batches :: "(channel_id \<times> batch_event list) list"
  cancel_reasons :: "(channel_id \<times> cancel_reason) list"
  withheld_native_steer :: "(channel_id \<times> queued_event list) list"
  in_flight_deadline :: nat

definition queue_new :: "dedup_mode \<Rightarrow> event_queue" where
  "queue_new mode =
     \<lparr>queues = [], in_flight_channels = {}, in_flight_deadlines = [], in_flight_batch_sizes = [],
      retry_after = [], retry_counts = [], q_dedup_mode = mode, cancelled_batches = [],
      cancel_reasons = [], withheld_native_steer = [],
      in_flight_deadline = secs DEFAULT_IN_FLIGHT_DEADLINE_SECS\<rparr>"

definition with_in_flight_deadline :: "nat \<Rightarrow> event_queue \<Rightarrow> event_queue" where
  "with_in_flight_deadline max_turn_duration_secs q =
     q\<lparr>in_flight_deadline := secs (max_turn_duration_secs + IN_FLIGHT_DEADLINE_BUFFER_SECS)\<rparr>"

text \<open>\<open>entry(k).or_default()\<close> on a map to vectors.\<close>

definition entry_or_default :: "'k \<Rightarrow> ('k \<times> 'a list) list \<Rightarrow> 'a list" where
  "entry_or_default k al = (case map_of al k of Some v \<Rightarrow> v | None \<Rightarrow> [])"

definition queued_of :: "channel_id \<Rightarrow> batch_event \<Rightarrow> queued_event" where
  "queued_of ch be =
     \<lparr>qe_channel_id = ch, qe_event = be_event be, qe_received_at = be_received_at be,
      qe_prompt_tag = be_prompt_tag be\<rparr>"

definition batch_of :: "queued_event \<Rightarrow> batch_event" where
  "batch_of qe =
     \<lparr>be_event = qe_event qe, be_prompt_tag = qe_prompt_tag qe, be_received_at = qe_received_at qe\<rparr>"

section \<open>Restoring events to the front of a queue\<close>

text \<open>The loop every restoring operation runs: push the events to the front in reverse order, then
  pop from the back while the queue is over its cap.\<close>

definition push_front_all :: "queued_event list \<Rightarrow> queued_event list \<Rightarrow> queued_event list" where
  "push_front_all es queue = foldl (\<lambda>q e. e # q) queue (rev es)"

function trim_back :: "'a list \<Rightarrow> 'a list" where
  "trim_back queue =
     (if length queue > MAX_PENDING_PER_CHANNEL then trim_back (butlast queue) else queue)"
  by pat_completeness auto

termination
  by (relation "measure length") (auto simp: MAX_PENDING_PER_CHANNEL_def)

declare trim_back.simps [simp del]

definition restore_front :: "channel_id \<Rightarrow> queued_event list \<Rightarrow> event_queue \<Rightarrow> event_queue" where
  "restore_front ch es q =
     q\<lparr>queues := AList.update ch (trim_back (push_front_all es (entry_or_default ch (queues q)))) (queues q)\<rparr>"

definition recover_withheld_for_expired_channel :: "channel_id \<Rightarrow> event_queue \<Rightarrow> event_queue" where
  "recover_withheld_for_expired_channel ch q = (case map_of (withheld_native_steer q) ch of
     None \<Rightarrow> q
   | Some entries \<Rightarrow>
       restore_front ch entries (q\<lparr>withheld_native_steer := AList.delete ch (withheld_native_steer q)\<rparr>))"

section \<open>Operations\<close>

definition extend_in_flight_deadline :: "instant \<Rightarrow> channel_id \<Rightarrow> nat \<Rightarrow> event_queue \<Rightarrow> event_queue" where
  "extend_in_flight_deadline now ch max_turn_secs q = (case map_of (in_flight_deadlines q) ch of
     Some current \<Rightarrow>
       (let extended = now + secs (max_turn_secs + IN_FLIGHT_DEADLINE_BUFFER_SECS)
        in if extended > current
           then q\<lparr>in_flight_deadlines := AList.update ch extended (in_flight_deadlines q)\<rparr> else q)
   | None \<Rightarrow> q)"

definition push :: "queued_event \<Rightarrow> event_queue \<Rightarrow> bool \<times> event_queue" where
  "push e q =
     (if q_dedup_mode q = Drop \<and> qe_channel_id e \<in> in_flight_channels q then (False, q)
      else
        (let queue = entry_or_default (qe_channel_id e) (queues q);
             queue1 = (if length queue \<ge> MAX_PENDING_PER_CHANNEL then tl queue else queue)
         in (True, q\<lparr>queues := AList.update (qe_channel_id e) (queue1 @ [e]) (queues q)\<rparr>)))"

text \<open>The expiry block that opens \<open>flush_next\<close> and \<open>has_flushable_work\<close>.\<close>

definition expire_channel :: "channel_id \<Rightarrow> event_queue \<Rightarrow> event_queue" where
  "expire_channel ch q =
     recover_withheld_for_expired_channel ch
       (q\<lparr>in_flight_batch_sizes := AList.delete ch (in_flight_batch_sizes q),
          in_flight_channels := in_flight_channels q - {ch},
          in_flight_deadlines := AList.delete ch (in_flight_deadlines q)\<rparr>)"

definition expire_in_flight :: "instant \<Rightarrow> event_queue \<Rightarrow> event_queue" where
  "expire_in_flight now q =
     fold expire_channel (map fst (filter (\<lambda>(_, deadline). now \<ge> deadline) (in_flight_deadlines q))) q"

definition throttle_ok :: "instant \<Rightarrow> event_queue \<Rightarrow> channel_id \<Rightarrow> bool" where
  "throttle_ok now q ch = (case map_of (retry_after q) ch of Some t \<Rightarrow> t \<le> now | None \<Rightarrow> True)"

definition queue_ready :: "instant \<Rightarrow> event_queue \<Rightarrow> channel_id \<times> queued_event list \<Rightarrow> bool" where
  "queue_ready now q = (\<lambda>(ch, queue). queue \<noteq> [] \<and> ch \<notin> in_flight_channels q \<and> throttle_ok now q ch)"

text \<open>\<open>Iterator::min_by_key\<close>: the first of the minimal elements.\<close>

fun min_by_key :: "('a \<Rightarrow> 'k :: linorder) \<Rightarrow> 'a list \<Rightarrow> 'a option" where
  "min_by_key f [] = None"
| "min_by_key f (x # xs) = (case min_by_key f xs of
     None \<Rightarrow> Some x
   | Some y \<Rightarrow> if f y < f x then Some y else Some x)"

definition oldest_ready :: "instant \<Rightarrow> event_queue \<Rightarrow> channel_id option" where
  "oldest_ready now q =
     map_option fst
       (min_by_key (\<lambda>(_, queue). qe_received_at (hd queue)) (filter (queue_ready now q) (queues q)))"

definition cancelled_ready :: "event_queue \<Rightarrow> channel_id option" where
  "cancelled_ready q = find (\<lambda>ch. ch \<notin> in_flight_channels q) (map fst (cancelled_batches q))"

definition mark_in_flight :: "instant \<Rightarrow> channel_id \<Rightarrow> nat \<Rightarrow> event_queue \<Rightarrow> event_queue" where
  "mark_in_flight now ch n q =
     q\<lparr>in_flight_channels := insert ch (in_flight_channels q),
       in_flight_deadlines := AList.update ch (now + in_flight_deadline q) (in_flight_deadlines q),
       in_flight_batch_sizes := AList.update ch n (in_flight_batch_sizes q)\<rparr>"

definition take_cancelled :: "channel_id \<Rightarrow> event_queue \<Rightarrow> event_queue" where
  "take_cancelled ch q =
     q\<lparr>cancelled_batches := AList.delete ch (cancelled_batches q),
       cancel_reasons := AList.delete ch (cancel_reasons q)\<rparr>"

definition flush_cancelled :: "instant \<Rightarrow> channel_id \<Rightarrow> event_queue \<Rightarrow> flush_batch \<times> event_queue" where
  "flush_cancelled now ch q =
     (let cancelled = entry_or_default ch (cancelled_batches q)
      in (\<lparr>fb_channel_id = ch, fb_events = cancelled, fb_cancelled_events = [],
           fb_cancel_reason = map_of (cancel_reasons q) ch\<rparr>,
          mark_in_flight now ch (length cancelled) (take_cancelled ch q)))"

definition drain_queue :: "channel_id \<Rightarrow> event_queue \<Rightarrow> batch_event list \<times> event_queue" where
  "drain_queue ch q =
     (let queue = entry_or_default ch (queues q);
          drain_count = min MAX_BATCH_EVENTS (length queue);
          events = sort_key (\<lambda>be. ev_created_at (be_event be)) (map batch_of (take drain_count queue));
          rest = drop drain_count queue
      in (events,
          q\<lparr>queues := (if rest = [] then AList.delete ch (queues q) else AList.update ch rest (queues q))\<rparr>))"

definition flush_queue :: "instant \<Rightarrow> channel_id \<Rightarrow> event_queue \<Rightarrow> flush_batch \<times> event_queue" where
  "flush_queue now ch q =
     (let (events, q1) = drain_queue ch q;
          cancelled_events = entry_or_default ch (cancelled_batches q1)
      in (\<lparr>fb_channel_id = ch, fb_events = events, fb_cancelled_events = cancelled_events,
           fb_cancel_reason = (if cancelled_events = [] then None else map_of (cancel_reasons q1) ch)\<rparr>,
          take_cancelled ch (mark_in_flight now ch (length events) q1)))"

definition flush_next :: "instant \<Rightarrow> event_queue \<Rightarrow> flush_batch option \<times> event_queue" where
  "flush_next now q0 =
     (let q = expire_in_flight now q0 in
      case oldest_ready now q of
        Some ch \<Rightarrow> apfst Some (flush_queue now ch q)
      | None \<Rightarrow> (case cancelled_ready q of
          Some ch \<Rightarrow> apfst Some (flush_cancelled now ch q)
        | None \<Rightarrow> (None, q)))"

definition mark_complete :: "instant \<Rightarrow> channel_id \<Rightarrow> event_queue \<Rightarrow> event_queue" where
  "mark_complete now ch q =
     (let q1 = q\<lparr>in_flight_channels := in_flight_channels q - {ch},
                 in_flight_deadlines := AList.delete ch (in_flight_deadlines q),
                 in_flight_batch_sizes := AList.delete ch (in_flight_batch_sizes q)\<rparr>
      in case map_of (retry_after q1) ch of
           Some deadline \<Rightarrow>
             if deadline > now then q1
             else q1\<lparr>retry_after := AList.delete ch (retry_after q1),
                     retry_counts := AList.delete ch (retry_counts q1)\<rparr>
         | None \<Rightarrow> q1\<lparr>retry_counts := AList.delete ch (retry_counts q1)\<rparr>)"

text \<open>The delay before a failed batch is retried: \<open>BASE * 2^(attempt-1)\<close> seconds, capped, times the
  jitter factor, which the source computes from the subsecond nanoseconds of the wall clock.\<close>

definition capped_secs :: "nat \<Rightarrow> nat" where
  "capped_secs attempt =
     min (BASE_RETRY_DELAY_SECS * 2 ^ min (attempt - 1) 6) MAX_RETRY_DELAY_SECS"

definition jitter :: "nat \<Rightarrow> rat" where
  "jitter nanos = 8 / 10 + (of_nat nanos / of_nat (2 ^ 32 - 1)) * (4 / 10)"

definition retry_delay :: "nat \<Rightarrow> nat \<Rightarrow> nat" where
  "retry_delay attempt nanos = nat (round (of_nat (capped_secs attempt) * jitter nanos * 10 ^ 9))"

definition requeue ::
    "instant \<Rightarrow> nat \<Rightarrow> flush_batch \<Rightarrow> event_queue \<Rightarrow> flush_batch option \<times> event_queue" where
  "requeue now nanos batch q =
     (let ch = fb_channel_id batch;
          attempt = (case map_of (retry_counts q) ch of Some n \<Rightarrow> n | None \<Rightarrow> 0) + 1
      in if attempt > MAX_RETRIES
         then (Some batch,
               q\<lparr>retry_counts := AList.delete ch (retry_counts q),
                 retry_after := AList.delete ch (retry_after q)\<rparr>)
         else
           (let q1 = restore_front ch (map (queued_of ch) (fb_events batch))
                       (q\<lparr>retry_counts := AList.update ch attempt (retry_counts q)\<rparr>)
            in (None, q1\<lparr>retry_after := AList.update ch (now + retry_delay attempt nanos) (retry_after q1)\<rparr>)))"

definition requeue_preserve_timestamps :: "flush_batch \<Rightarrow> event_queue \<Rightarrow> event_queue" where
  "requeue_preserve_timestamps batch q =
     restore_front (fb_channel_id batch) (map (queued_of (fb_channel_id batch)) (fb_events batch)) q"

definition requeue_as_cancelled :: "flush_batch \<Rightarrow> cancel_reason \<Rightarrow> event_queue \<Rightarrow> event_queue" where
  "requeue_as_cancelled batch reason q =
     (let ch = fb_channel_id batch;
          entry = entry_or_default ch (cancelled_batches q)
      in q\<lparr>cancelled_batches :=
             AList.update ch (entry @ fb_cancelled_events batch @ fb_events batch) (cancelled_batches q),
           cancel_reasons := AList.update ch reason (cancel_reasons q)\<rparr>)"

definition has_flushable_work :: "instant \<Rightarrow> event_queue \<Rightarrow> bool \<times> event_queue" where
  "has_flushable_work now q0 =
     (let q = expire_in_flight now q0
      in (list_ex (queue_ready now q) (queues q) \<or>
          list_ex (\<lambda>ch. ch \<notin> in_flight_channels q) (map fst (cancelled_batches q)), q))"

definition has_undispatched_work :: "event_queue \<Rightarrow> bool" where
  "has_undispatched_work q =
     (list_ex (\<lambda>(ch, queue). queue \<noteq> [] \<and> ch \<notin> in_flight_channels q) (queues q) \<or>
      list_ex (\<lambda>ch. ch \<notin> in_flight_channels q) (map fst (cancelled_batches q)) \<or>
      list_ex (\<lambda>(ch, v). v \<noteq> [] \<and> ch \<notin> in_flight_channels q) (withheld_native_steer q))"

definition pending_channels :: "event_queue \<Rightarrow> nat" where
  "pending_channels q = length (queues q)"

definition drain_channel :: "nostr_lib \<Rightarrow> channel_id \<Rightarrow> event_queue \<Rightarrow> string list \<times> event_queue" where
  "drain_channel lib ch q =
     (map (\<lambda>e. id_to_hex lib (ev_id (qe_event e))) (entry_or_default ch (queues q)),
      q\<lparr>queues := AList.delete ch (queues q), retry_after := AList.delete ch (retry_after q),
        retry_counts := AList.delete ch (retry_counts q),
        cancelled_batches := AList.delete ch (cancelled_batches q),
        cancel_reasons := AList.delete ch (cancel_reasons q),
        withheld_native_steer := AList.delete ch (withheld_native_steer q)\<rparr>)"

definition is_channel_in_flight :: "channel_id \<Rightarrow> event_queue \<Rightarrow> bool" where
  "is_channel_in_flight ch q = (ch \<in> in_flight_channels q)"

definition has_in_flight :: "event_queue \<Rightarrow> bool" where
  "has_in_flight q = (in_flight_channels q \<noteq> {})"

section \<open>Withholding an event that is being steered\<close>

text \<open>\<open>position\<close> followed by \<open>remove\<close>: the first event with the id, and the rest.\<close>

fun remove_first :: "nostr_lib \<Rightarrow> string \<Rightarrow> queued_event list \<Rightarrow> (queued_event \<times> queued_event list) option" where
  "remove_first lib eid [] = None"
| "remove_first lib eid (e # es) =
     (if id_to_hex lib (ev_id (qe_event e)) = eid then Some (e, es)
      else map_option (apsnd ((#) e)) (remove_first lib eid es))"

text \<open>Write a vector back to its map, dropping the entry when it is empty.\<close>

definition put_or_drop :: "'k \<Rightarrow> 'a list \<Rightarrow> ('k \<times> 'a list) list \<Rightarrow> ('k \<times> 'a list) list" where
  "put_or_drop k v al = (if v = [] then AList.delete k al else AList.update k v al)"

definition mark_native_steer_pending ::
    "nostr_lib \<Rightarrow> channel_id \<Rightarrow> string \<Rightarrow> event_queue \<Rightarrow> bool \<times> event_queue" where
  "mark_native_steer_pending lib ch eid q = (case map_of (queues q) ch of
     None \<Rightarrow> (False, q)
   | Some queue \<Rightarrow> (case remove_first lib eid queue of
       None \<Rightarrow> (False, q)
     | Some (qe, rest) \<Rightarrow>
         (True,
          q\<lparr>queues := put_or_drop ch rest (queues q),
            withheld_native_steer :=
              AList.update ch (entry_or_default ch (withheld_native_steer q) @ [qe]) (withheld_native_steer q)\<rparr>)))"

definition release_native_steer :: "nostr_lib \<Rightarrow> channel_id \<Rightarrow> string \<Rightarrow> event_queue \<Rightarrow> event_queue" where
  "release_native_steer lib ch eid q = (case map_of (withheld_native_steer q) ch of
     None \<Rightarrow> q
   | Some entries \<Rightarrow> (case remove_first lib eid entries of
       None \<Rightarrow> q
     | Some (qe, rest) \<Rightarrow>
         restore_front ch [qe]
           (q\<lparr>withheld_native_steer := put_or_drop ch rest (withheld_native_steer q)\<rparr>)))"

definition retain_others :: "nostr_lib \<Rightarrow> string \<Rightarrow> queued_event list \<Rightarrow> queued_event list" where
  "retain_others lib eid = filter (\<lambda>e. id_to_hex lib (ev_id (qe_event e)) \<noteq> eid)"

definition retain_entry ::
    "nostr_lib \<Rightarrow> channel_id \<Rightarrow> string \<Rightarrow> (channel_id \<times> queued_event list) list \<Rightarrow>
     (channel_id \<times> queued_event list) list" where
  "retain_entry lib ch eid al = (case map_of al ch of
     Some entries \<Rightarrow> put_or_drop ch (retain_others lib eid entries) al
   | None \<Rightarrow> al)"

definition remove_event :: "nostr_lib \<Rightarrow> channel_id \<Rightarrow> string \<Rightarrow> event_queue \<Rightarrow> event_queue" where
  "remove_event lib ch eid q =
     q\<lparr>withheld_native_steer := retain_entry lib ch eid (withheld_native_steer q),
       queues := retain_entry lib ch eid (queues q)\<rparr>"

definition compact_expired_state :: "instant \<Rightarrow> event_queue \<Rightarrow> event_queue" where
  "compact_expired_state now q =
     (let after = filter (\<lambda>(_, deadline). deadline > now) (retry_after q)
      in q\<lparr>retry_after := after,
           retry_counts := filter (\<lambda>(ch, _). ch \<in> set (map fst after) \<or>
             (case map_of (queues q) ch of Some queue \<Rightarrow> queue \<noteq> [] | None \<Rightarrow> False) \<or>
             ch \<in> in_flight_channels q) (retry_counts q)\<rparr>)"

end
