(* ===== verification/Nip_OA.thy ===== *)
theory Nip_OA
  imports Nostr_Events
begin

text \<open>
  Owner attestation (NIP-OA): \<open>crates/punks-sdk/src/nip_oa.rs\<close>.  An \<open>auth\<close> tag is a JSON array
  \<open>["auth", owner, conditions, signature]\<close> in which the owner's key signs the agent's public key and
  the conditions.

  JSON text, hex decoding, SHA-256 and BIP-340 signatures belong to third-party crates: they are the
  fields of the parameter record \<open>oa_lib\<close>, and \<open>oa_lawful\<close> names what the round trip relies on.
  Error values keep the reason and drop the wording of the message.
\<close>

section \<open>Data\<close>

datatype json = JString string | JArray "json list" | JOther

datatype oa_error =
    InvalidJson string | NotAnArray | WrongElementCount nat | NotAString nat | BadLabel string
  | ConditionsWhitespace | EmptyClause | UnsupportedClause string
  | EmptyValue string | LeadingZero string string | NotDecimal string string | OutOfRange string string
  | BadOwnerPubkey string | SelfAttestation | BadSignature string | XonlyFailed string
  | VerificationFailed string | BadPubkeyShape string | BadSignatureShape nat | TagConstruction string

record oa_lib =
  oa_from_str :: "string \<Rightarrow> (string, json) result"
  oa_to_string :: "json \<Rightarrow> string"
  oa_pubkey_from_hex :: "string \<Rightarrow> (string, pubkey) result"
  oa_pubkey_to_hex :: "pubkey \<Rightarrow> string"
  oa_sha256 :: "string \<Rightarrow> bytes"
  oa_public_key :: "bytes \<Rightarrow> pubkey"
  oa_sign_schnorr :: "bytes \<Rightarrow> bytes \<Rightarrow> bytes"
  oa_sig_to_string :: "bytes \<Rightarrow> string"
  oa_sig_from_str :: "string \<Rightarrow> (string, bytes) result"
  oa_xonly :: "pubkey \<Rightarrow> (string, bytes) result"
  oa_verify_schnorr :: "bytes \<Rightarrow> bytes \<Rightarrow> bytes \<Rightarrow> (string, unit) result"
  oa_tag_parse :: "string list \<Rightarrow> (string, tag) result"

section \<open>Conditions\<close>

definition is_ascii_whitespace :: "char \<Rightarrow> bool" where
  "is_ascii_whitespace c = (of_char c \<in> {32, 9, 10, 12, 13 :: nat})"

definition strip_prefix :: "string \<Rightarrow> string \<Rightarrow> string option" where
  "strip_prefix p s = (if starts_with s p then Some (drop (length p) s) else None)"

definition validate_canonical_decimal :: "string \<Rightarrow> nat \<Rightarrow> nat \<Rightarrow> string \<Rightarrow> (oa_error, unit) result" where
  "validate_canonical_decimal s lo hi label =
     (if s = [] then Inl (EmptyValue label)
      else if length s > 1 \<and> starts_with s ''0'' then Inl (LeadingZero label s)
      else if \<not> list_all is_ascii_digit s then Inl (NotDecimal label s)
      else if undecimal s \<ge> 2 ^ 64 then Inl (OutOfRange label s)
      else if undecimal s < lo \<or> undecimal s > hi then Inl (OutOfRange label s)
      else Inr ())"

definition validate_clause :: "string \<Rightarrow> (oa_error, unit) result" where
  "validate_clause clause = (case strip_prefix ''kind='' clause of
     Some value \<Rightarrow> validate_canonical_decimal value 0 65535 ''kind''
   | None \<Rightarrow> (case strip_prefix ''created_at<'' clause of
       Some value \<Rightarrow> validate_canonical_decimal value 0 4294967295 ''created_at<''
     | None \<Rightarrow> (case strip_prefix ''created_at>'' clause of
         Some value \<Rightarrow> validate_canonical_decimal value 0 4294967295 ''created_at>''
       | None \<Rightarrow> Inl (UnsupportedClause clause))))"

fun validate_clauses :: "string list \<Rightarrow> (oa_error, unit) result" where
  "validate_clauses [] = Inr ()"
| "validate_clauses (clause # clauses) =
     (if clause = [] then Inl EmptyClause
      else and_then (validate_clause clause) (\<lambda>_. validate_clauses clauses))"

definition validate_conditions :: "string \<Rightarrow> (oa_error, unit) result" where
  "validate_conditions conditions =
     (if conditions = [] then Inr ()
      else if list_ex is_ascii_whitespace conditions then Inl ConditionsWhitespace
      else validate_clauses (split_on (CHR ''&'') conditions))"

section \<open>Attestations\<close>

definition build_preimage :: "oa_lib \<Rightarrow> pubkey \<Rightarrow> string \<Rightarrow> string" where
  "build_preimage lib agent conditions =
     ''nostr:agent-auth:'' @ oa_pubkey_to_hex lib agent @ '':'' @ conditions"

definition hash_preimage :: "oa_lib \<Rightarrow> string \<Rightarrow> bytes" where
  "hash_preimage lib preimage = oa_sha256 lib preimage"

definition is_lowercase_hex :: "char \<Rightarrow> bool" where
  "is_lowercase_hex c = (is_ascii_digit c \<or> (of_char c \<ge> (97::nat) \<and> of_char c \<le> (102::nat)))"

definition parse_json_array :: "oa_lib \<Rightarrow> string \<Rightarrow> (oa_error, json list) result" where
  "parse_json_array lib s = (case oa_from_str lib s of
     Inl e \<Rightarrow> Inl (InvalidJson e)
   | Inr (JArray arr) \<Rightarrow> Inr arr
   | Inr _ \<Rightarrow> Inl NotAnArray)"

definition compute_auth_tag :: "oa_lib \<Rightarrow> bytes \<Rightarrow> pubkey \<Rightarrow> string \<Rightarrow> (oa_error, string) result" where
  "compute_auth_tag lib owner_keys agent conditions =
     (let owner = oa_public_key lib owner_keys in
      if owner = agent then Inl SelfAttestation
      else and_then (validate_conditions conditions) (\<lambda>_.
        let preimage = build_preimage lib agent conditions;
            message = hash_preimage lib preimage;
            sig = oa_sign_schnorr lib owner_keys message
        in Inr (oa_to_string lib (JArray [JString ''auth'', JString (oa_pubkey_to_hex lib owner),
             JString conditions, JString (oa_sig_to_string lib sig)]))))"

definition as_str :: "json list \<Rightarrow> nat \<Rightarrow> (oa_error, string) result" where
  "as_str arr i = (case arr ! i of JString s \<Rightarrow> Inr s | _ \<Rightarrow> Inl (NotAString i))"

definition map_err :: "('e \<Rightarrow> 'f) \<Rightarrow> ('e, 'a) result \<Rightarrow> ('f, 'a) result" where
  "map_err f r = (case r of Inl e \<Rightarrow> Inl (f e) | Inr x \<Rightarrow> Inr x)"

text \<open>The checks on the array's length and label, shared by the two readers.\<close>

definition auth_array :: "oa_lib \<Rightarrow> string \<Rightarrow> (oa_error, json list) result" where
  "auth_array lib s = and_then (parse_json_array lib s) (\<lambda>arr.
     if length arr \<noteq> 4 then Inl (WrongElementCount (length arr))
     else and_then (as_str arr 0) (\<lambda>label. if label \<noteq> ''auth'' then Inl (BadLabel label) else Inr arr))"

definition verify_auth_tag :: "oa_lib \<Rightarrow> string \<Rightarrow> pubkey \<Rightarrow> (oa_error, pubkey) result" where
  "verify_auth_tag lib s agent = and_then (auth_array lib s) (\<lambda>arr.
     and_then (as_str arr 1) (\<lambda>owner_hex.
     and_then (as_str arr 2) (\<lambda>conditions.
     and_then (as_str arr 3) (\<lambda>sig_hex.
     and_then (map_err BadOwnerPubkey (oa_pubkey_from_hex lib owner_hex)) (\<lambda>owner.
     and_then (validate_conditions conditions) (\<lambda>_.
     if owner = agent then Inl SelfAttestation
     else and_then (map_err BadSignature (oa_sig_from_str lib sig_hex)) (\<lambda>sig.
       let message = hash_preimage lib (build_preimage lib agent conditions) in
       and_then (map_err XonlyFailed (oa_xonly lib owner)) (\<lambda>xonly.
       and_then (map_err VerificationFailed (oa_verify_schnorr lib sig message xonly)) (\<lambda>_.
       Inr owner)))))))))"

definition parse_auth_tag :: "oa_lib \<Rightarrow> string \<Rightarrow> (oa_error, tag) result" where
  "parse_auth_tag lib s = and_then (auth_array lib s) (\<lambda>arr.
     and_then (as_str arr 1) (\<lambda>owner_hex.
     if length owner_hex \<noteq> 64 \<or> \<not> list_all is_lowercase_hex owner_hex then Inl (BadPubkeyShape owner_hex)
     else and_then (as_str arr 2) (\<lambda>conditions.
       and_then (validate_conditions conditions) (\<lambda>_.
       and_then (as_str arr 3) (\<lambda>sig_hex.
       if length sig_hex \<noteq> 128 \<or> \<not> list_all is_lowercase_hex sig_hex then Inl (BadSignatureShape (length sig_hex))
       else map_err TagConstruction (oa_tag_parse lib [''auth'', owner_hex, conditions, sig_hex]))))))"

section \<open>The language of conditions\<close>

datatype clause = KindIs nat | CreatedBefore nat | CreatedAfter nat

fun clause_ok :: "clause \<Rightarrow> bool" where
  "clause_ok (KindIs n) = (n \<le> 65535)"
| "clause_ok (CreatedBefore n) = (n \<le> 4294967295)"
| "clause_ok (CreatedAfter n) = (n \<le> 4294967295)"

fun print_clause :: "clause \<Rightarrow> string" where
  "print_clause (KindIs n) = ''kind='' @ decimal n"
| "print_clause (CreatedBefore n) = ''created_at<'' @ decimal n"
| "print_clause (CreatedAfter n) = ''created_at>'' @ decimal n"

lemma map_err_Inr [simp]: "map_err f r = Inr x \<longleftrightarrow> r = Inr x" "map_err f (Inr x) = Inr x"
  by (auto simp: map_err_def split: sum.splits)

lemma decimal_leading: "n \<ge> 10 \<Longrightarrow> \<exists>c cs. decimal n = c # cs \<and> c \<noteq> CHR ''0''"
proof (induction n rule: decimal.induct)
  case (1 n)
  have d: "decimal n = decimal (n div 10) @ [char_of (48 + n mod 10)]"
    using 1(2) by (subst decimal.simps) simp
  show ?case
  proof (cases "n div 10 < 10")
    case True
    then have "decimal (n div 10) = [char_of (48 + n div 10)]" by (subst decimal.simps) simp
    moreover have "char_of (48 + n div 10) \<noteq> CHR ''0''"
    proof
      assume "char_of (48 + n div 10) = CHR ''0''"
      then have "of_char (char_of (48 + n div 10) :: char) = (48 :: nat)" by simp
      with True 1(2) show False by simp
    qed
    ultimately show ?thesis using d by simp
  next
    case False
    with 1 d show ?thesis by fastforce
  qed
qed

lemma decimal_nonempty [simp]: "decimal n \<noteq> []"
  by (subst decimal.simps) simp

lemma digit_char_of: "is_ascii_digit c \<Longrightarrow> char_of (48 + (of_char c - 48 :: nat)) = c"
  by (simp add: is_ascii_digit_def)

lemma undecimal_snoc: "undecimal (s @ [c]) = 10 * undecimal s + (of_char c - 48)"
  by (simp add: undecimal_def)

lemma undecimal_pos:
  assumes "list_all is_ascii_digit s" and "s \<noteq> []" and "hd s \<noteq> CHR ''0''"
  shows "0 < undecimal s"
  using assms
proof (induction s rule: rev_induct)
  case (snoc c s)
  show ?case
  proof (cases "s = []")
    case True
    have "of_char (CHR ''0'') = (48 :: nat)" by simp
    with snoc.prems(3) True have "of_char c \<noteq> (48 :: nat)" by (metis append_Nil list.sel(1) of_char_eq_iff)
    with True snoc.prems show ?thesis by (auto simp: undecimal_def is_ascii_digit_def)
  next
    case False
    with snoc show ?thesis by (simp add: undecimal_snoc)
  qed
qed simp

text \<open>A decimal string without superfluous zeros is the printed form of its value.\<close>

lemma decimal_undecimal:
  assumes "list_all is_ascii_digit s" and "s \<noteq> []" and "length s > 1 \<longrightarrow> hd s \<noteq> CHR ''0''"
  shows "decimal (undecimal s) = s"
  using assms
proof (induction s rule: rev_induct)
  case (snoc c s)
  then have c: "is_ascii_digit c" by simp
  then have "of_char c \<le> (57 :: nat)" by (simp add: is_ascii_digit_def)
  then have lt: "of_char c - 48 < (10 :: nat)" by linarith
  show ?case
  proof (cases "s = []")
    case True
    with c lt show ?thesis by (subst decimal.simps) (simp add: undecimal_def digit_char_of)
  next
    case False
    with snoc.prems have s: "list_all is_ascii_digit s" "hd s \<noteq> CHR ''0''" by (simp_all add: Suc_lessI)
    with False have "0 < undecimal s" by (simp add: undecimal_pos)
    moreover have "decimal (undecimal s) = s" using snoc.IH s False by simp
    ultimately show ?thesis using lt c
      by (subst decimal.simps) (simp add: undecimal_snoc digit_char_of)
  qed
qed simp

lemma decimal_zero_prefix: "length (decimal n) > 1 \<Longrightarrow> \<not> starts_with (decimal n) ''0''"
proof -
  assume "length (decimal n) > 1"
  then have "n \<ge> 10" by (rule contrapos_pp) (subst decimal.simps, simp)
  with decimal_leading [of n] show ?thesis by (auto simp: starts_with_def)
qed

lemma validate_canonical_decimal_ok:
  assumes "hi < 2 ^ 64"
  shows "validate_canonical_decimal s 0 hi label = Inr () \<longleftrightarrow> (\<exists>n \<le> hi. s = decimal n)"
proof
  assume "validate_canonical_decimal s 0 hi label = Inr ()"
  then have "s \<noteq> []" "list_all is_ascii_digit s" "length s > 1 \<longrightarrow> \<not> starts_with s ''0''" "undecimal s \<le> hi"
    by (auto simp: validate_canonical_decimal_def split: if_splits)
  moreover from this have "length s > 1 \<longrightarrow> hd s \<noteq> CHR ''0''" by (cases s) (auto simp: starts_with_def)
  ultimately show "\<exists>n \<le> hi. s = decimal n" by (metis decimal_undecimal)
next
  assume "\<exists>n \<le> hi. s = decimal n"
  with assms show "validate_canonical_decimal s 0 hi label = Inr ()"
    using decimal_zero_prefix decimal_digits by (auto simp: validate_canonical_decimal_def undecimal_decimal)
qed

lemma strip_prefix_Some: "strip_prefix p s = Some r \<longleftrightarrow> s = p @ r"
  by (auto simp: strip_prefix_def starts_with_def append_eq_conv_conj) (metis append_take_drop_id)

lemma strip_prefix_None: "strip_prefix p s = None \<longleftrightarrow> (\<forall>r. s \<noteq> p @ r)"
  by (metis not_None_eq strip_prefix_Some)

lemma validate_clause_ok:
  "validate_clause s = Inr () \<longleftrightarrow> (\<exists>c. clause_ok c \<and> s = print_clause c)"
proof -
  have "validate_clause s = Inr () \<longleftrightarrow>
      (\<exists>v. s = ''kind='' @ v \<and> (\<exists>n \<le> 65535. v = decimal n)) \<or>
      (\<exists>v. s = ''created_at<'' @ v \<and> (\<exists>n \<le> 4294967295. v = decimal n)) \<or>
      (\<exists>v. s = ''created_at>'' @ v \<and> (\<exists>n \<le> 4294967295. v = decimal n))"
    by (auto simp: validate_clause_def strip_prefix_Some strip_prefix_None validate_canonical_decimal_ok
        split: option.splits)
  also have "\<dots> \<longleftrightarrow> (\<exists>c. clause_ok c \<and> s = print_clause c)"
  proof
    assume "\<exists>c. clause_ok c \<and> s = print_clause c"
    then obtain c where "clause_ok c" "s = print_clause c" by blast
    then show "(\<exists>v. s = ''kind='' @ v \<and> (\<exists>n \<le> 65535. v = decimal n)) \<or>
        (\<exists>v. s = ''created_at<'' @ v \<and> (\<exists>n \<le> 4294967295. v = decimal n)) \<or>
        (\<exists>v. s = ''created_at>'' @ v \<and> (\<exists>n \<le> 4294967295. v = decimal n))"
      by (cases c) auto
  qed (metis clause_ok.simps print_clause.simps)
  finally show ?thesis .
qed

lemma print_clause_chars: "x \<in> set (print_clause c) \<Longrightarrow> x \<noteq> CHR ''&'' \<and> \<not> is_ascii_whitespace x"
proof -
  have d: "x \<in> set (decimal n) \<Longrightarrow> is_ascii_digit x" for n
    using decimal_digits [of n] by (simp add: list_all_iff)
  have "x \<in> set (print_clause c) \<Longrightarrow> x \<in> set ''kind=created_at<>'' \<or> is_ascii_digit x"
    by (cases c) (use d in auto)
  moreover have "x \<noteq> CHR ''&'' \<and> \<not> is_ascii_whitespace x" if "is_ascii_digit x"
    using that by (auto simp: is_ascii_digit_def is_ascii_whitespace_def)
  moreover have "x \<noteq> CHR ''&'' \<and> \<not> is_ascii_whitespace x" if "x \<in> set ''kind=created_at<>''"
    using that by (auto simp: is_ascii_whitespace_def)
  ultimately show "x \<in> set (print_clause c) \<Longrightarrow> x \<noteq> CHR ''&'' \<and> \<not> is_ascii_whitespace x" by blast
qed

lemma validate_clauses_ok:
  "validate_clauses ss = Inr () \<longleftrightarrow> (\<exists>cs. list_all clause_ok cs \<and> ss = map print_clause cs)"
proof (induction ss)
  case (Cons s ss)
  have [simp]: "print_clause c \<noteq> []" "[] \<noteq> print_clause c" for c by (cases c; simp)+
  have "validate_clauses (s # ss) = Inr () \<longleftrightarrow>
      (\<exists>c. clause_ok c \<and> s = print_clause c) \<and> (\<exists>cs. list_all clause_ok cs \<and> ss = map print_clause cs)"
    using Cons by (auto simp: and_then_Inr_iff validate_clause_ok)
  also have "\<dots> \<longleftrightarrow> (\<exists>cs. list_all clause_ok cs \<and> s # ss = map print_clause cs)"
  proof
    assume "(\<exists>c. clause_ok c \<and> s = print_clause c) \<and> (\<exists>cs. list_all clause_ok cs \<and> ss = map print_clause cs)"
    then obtain c cs where "clause_ok c" "s = print_clause c" "list_all clause_ok cs" "ss = map print_clause cs"
      by blast
    then have "list_all clause_ok (c # cs) \<and> s # ss = map print_clause (c # cs)" by simp
    then show "\<exists>cs. list_all clause_ok cs \<and> s # ss = map print_clause cs" by (rule exI)
  qed (auto simp: Cons_eq_map_conv)
  finally show ?case .
qed simp

section \<open>Properties\<close>

text \<open>What the round trip asks of the libraries: JSON and hex text read back, and a signature verifies
  under the signer's key.\<close>

definition oa_lawful :: "oa_lib \<Rightarrow> bool" where
  "oa_lawful lib \<longleftrightarrow>
     (\<forall>ss. oa_from_str lib (oa_to_string lib (JArray (map JString ss))) = Inr (JArray (map JString ss))) \<and>
     (\<forall>sk. oa_pubkey_from_hex lib (oa_pubkey_to_hex lib (oa_public_key lib sk)) = Inr (oa_public_key lib sk)) \<and>
     (\<forall>sk m. oa_sig_from_str lib (oa_sig_to_string lib (oa_sign_schnorr lib sk m)) = Inr (oa_sign_schnorr lib sk m)) \<and>
     (\<forall>sk m. \<exists>x. oa_xonly lib (oa_public_key lib sk) = Inr x \<and>
        oa_verify_schnorr lib (oa_sign_schnorr lib sk m) m x = Inr ())"

text \<open>The conditions of an attestation are accepted exactly when they are empty or the printed
  form of a non-empty list of clauses within their ranges: canonical decimals, joined by ampersands,
  with no whitespace.\<close>

theorem conditions_language:
  "validate_conditions s = Inr () \<longleftrightarrow>
     s = [] \<or> (\<exists>cs. cs \<noteq> [] \<and> list_all clause_ok cs \<and> s = join_with (CHR ''&'') (map print_clause cs))"
proof (cases "s = []")
  case False
  have amp: "CHR ''&'' \<notin> set (print_clause c)" for c using print_clause_chars by blast
  have join_chars: "x \<in> set (join_with d ws) \<Longrightarrow> x = d \<or> (\<exists>w \<in> set ws. x \<in> set w)" for x d ws
    by (induction d ws rule: join_with.induct) auto
  have split: "split_on (CHR ''&'') s = map print_clause cs \<longleftrightarrow>
      s = join_with (CHR ''&'') (map print_clause cs)" if "cs \<noteq> []" for cs
  proof
    assume "split_on (CHR ''&'') s = map print_clause cs"
    then show "s = join_with (CHR ''&'') (map print_clause cs)" by (metis join_split)
  next
    assume "s = join_with (CHR ''&'') (map print_clause cs)"
    moreover have "split_on (CHR ''&'') (join_with (CHR ''&'') (map print_clause cs)) = map print_clause cs"
      by (rule split_join) (use that amp in auto)
    ultimately show "split_on (CHR ''&'') s = map print_clause cs" by simp
  qed
  have clean: "\<not> list_ex is_ascii_whitespace (join_with (CHR ''&'') (map print_clause cs))" for cs
  proof -
    have "\<not> is_ascii_whitespace (CHR ''&'')" by (simp add: is_ascii_whitespace_def)
    then have "\<not> is_ascii_whitespace x" if "x \<in> set (join_with (CHR ''&'') (map print_clause cs))" for x
      using join_chars [OF that] print_clause_chars [of x] by auto
    then show ?thesis by (auto simp: list_ex_iff)
  qed
  have valid: "validate_conditions s = Inr () \<longleftrightarrow> \<not> list_ex is_ascii_whitespace s \<and>
      (\<exists>cs. list_all clause_ok cs \<and> split_on (CHR ''&'') s = map print_clause cs)"
    using False by (simp add: validate_conditions_def validate_clauses_ok)
  show ?thesis
  proof
    assume "validate_conditions s = Inr ()"
    then obtain cs where "list_all clause_ok cs" "split_on (CHR ''&'') s = map print_clause cs"
      using valid by blast
    moreover from this have "cs \<noteq> []" using split_on_nonempty [of "CHR ''&''" s] by (cases cs) simp_all
    ultimately show "s = [] \<or> (\<exists>cs. cs \<noteq> [] \<and> list_all clause_ok cs \<and> s = join_with (CHR ''&'') (map print_clause cs))"
      using split by blast
  next
    assume "s = [] \<or> (\<exists>cs. cs \<noteq> [] \<and> list_all clause_ok cs \<and> s = join_with (CHR ''&'') (map print_clause cs))"
    with False obtain cs where "cs \<noteq> []" "list_all clause_ok cs" "s = join_with (CHR ''&'') (map print_clause cs)"
      by blast
    then show "validate_conditions s = Inr ()" using valid split clean by blast
  qed
qed (simp add: validate_conditions_def)

lemma computed_tag_verifies:
  assumes "oa_lawful lib" and "validate_conditions conditions = Inr ()" and "oa_public_key lib sk \<noteq> agent"
  shows "\<exists>t. compute_auth_tag lib sk agent conditions = Inr t \<and>
    verify_auth_tag lib t agent = Inr (oa_public_key lib sk) \<and>
    verify_auth_tag lib t (oa_public_key lib sk) = Inl SelfAttestation"
proof -
  let ?m = "hash_preimage lib (build_preimage lib agent conditions)"
  obtain x where "oa_xonly lib (oa_public_key lib sk) = Inr x"
      "oa_verify_schnorr lib (oa_sign_schnorr lib sk ?m) ?m x = Inr ()"
    using assms(1) unfolding oa_lawful_def by meson
  moreover have "oa_from_str lib (oa_to_string lib (JArray [JString a, JString b, JString c, JString d])) =
      Inr (JArray [JString a, JString b, JString c, JString d])" for a b c d
    using assms(1) [unfolded oa_lawful_def, THEN conjunct1, rule_format, of "[a, b, c, d]"] by simp
  ultimately show ?thesis
    using assms by (simp add: compute_auth_tag_def verify_auth_tag_def auth_array_def parse_json_array_def as_str_def
        oa_lawful_def Let_def)
qed

text \<open>The attestation an owner computes for another key verifies for that key and yields the
  owner; for the owner's own key none is issued, and none verifies.\<close>

theorem auth_tag_round_trip:
  assumes "oa_lawful lib" and "validate_conditions conditions = Inr ()"
  shows "if oa_public_key lib sk = agent then compute_auth_tag lib sk agent conditions = Inl SelfAttestation
    else \<exists>t. compute_auth_tag lib sk agent conditions = Inr t \<and>
      verify_auth_tag lib t agent = Inr (oa_public_key lib sk) \<and>
      verify_auth_tag lib t (oa_public_key lib sk) = Inl SelfAttestation"
  using computed_tag_verifies [OF assms] by (simp add: compute_auth_tag_def)

text \<open>A concrete library: string arrays with one marker per character, keys and signatures as text
  byte by byte, and a signature that is the key followed by the message.\<close>

definition ex_text :: "bytes \<Rightarrow> string" where
  "ex_text = map (\<lambda>w. char_of (unat w))"

definition ex_untext :: "string \<Rightarrow> bytes" where
  "ex_untext = map (\<lambda>c. of_nat (of_char c))"

definition ex_marked :: "string \<Rightarrow> string" where
  "ex_marked s = concat (map (\<lambda>c. [CHR ''1'', c]) s) @ ''0''"

fun ex_unmarked :: "string \<Rightarrow> string list" where
  "ex_unmarked (m # cs) =
     (if m = CHR ''0'' then [] # ex_unmarked cs
      else case cs of c # r \<Rightarrow> (case ex_unmarked r of s # ss \<Rightarrow> (c # s) # ss | [] \<Rightarrow> []) | [] \<Rightarrow> [])"
| "ex_unmarked [] = []"

fun ex_strings :: "json \<Rightarrow> string list" where
  "ex_strings (JArray js) = List.map_filter (\<lambda>j. case j of JString s \<Rightarrow> Some s | _ \<Rightarrow> None) js"
| "ex_strings _ = []"

definition ex_oa_lib :: oa_lib where
  "ex_oa_lib =
     \<lparr>oa_from_str = (\<lambda>s. Inr (JArray (map JString (ex_unmarked s)))),
      oa_to_string = (\<lambda>j. concat (map ex_marked (ex_strings j))),
      oa_pubkey_from_hex = (\<lambda>s. Inr (ex_untext s)), oa_pubkey_to_hex = ex_text,
      oa_sha256 = ex_untext, oa_public_key = (\<lambda>sk. sk), oa_sign_schnorr = (\<lambda>sk m. sk @ m),
      oa_sig_to_string = ex_text, oa_sig_from_str = (\<lambda>s. Inr (ex_untext s)), oa_xonly = Inr,
      oa_verify_schnorr = (\<lambda>sig m x. if sig = x @ m then Inr () else Inl ''bad signature''),
      oa_tag_parse = Inr\<rparr>"

lemma ex_untext_text [simp]: "ex_untext (ex_text bs) = bs"
proof -
  have "unat w mod 256 = unat w" for w :: u8 using unat_u8 [of w] by simp
  then show ?thesis by (simp add: ex_untext_def ex_text_def comp_def)
qed

lemma ex_unmarked_marked: "ex_unmarked (ex_marked s @ r) = s # ex_unmarked r"
  by (induction s) (simp_all add: ex_marked_def)

lemma ex_oa_lib_lawful: "oa_lawful ex_oa_lib"
proof -
  have "ex_unmarked (concat (map ex_marked ss)) = ss" for ss
    by (induction ss) (simp_all add: ex_unmarked_marked)
  moreover have "ex_strings (JArray (map JString ss)) = ss" for ss
    by (induction ss) (simp_all add: List.map_filter_simps)
  ultimately show ?thesis by (simp add: oa_lawful_def ex_oa_lib_def)
qed

theorem auth_tag_round_trip_witness:
  "\<exists>t. compute_auth_tag ex_oa_lib [7] [9] ''kind=1&created_at<50'' = Inr t \<and>
     verify_auth_tag ex_oa_lib t [9] = Inr [7]"
proof -
  have "validate_conditions ''kind=1&created_at<50'' = Inr ()"
    by (simp add: validate_conditions_def validate_clause_def strip_prefix_def starts_with_def
        validate_canonical_decimal_def undecimal_def is_ascii_digit_def is_ascii_whitespace_def)
  from auth_tag_round_trip [OF ex_oa_lib_lawful this, of "[7]" "[9]"] show ?thesis
    by (auto simp: ex_oa_lib_def)
qed

end
