(* ===== verification/Agent_Intake.thy ===== *)
theory Agent_Intake
  imports Event_Queue Nip_OA
begin

text \<open>
  What an event has to pass before the agent harness queues it: \<open>crates/punks-acp/src/lib.rs\<close> (the
  control commands, the inbound author gate with its sibling cache, the mode gate),
  \<open>filter.rs\<close> (subscription rules), \<open>pool.rs\<close> and \<open>relay.rs\<close> (channel metadata).

  The answers of the relay's query interface (a profile's tags, a channel's metadata tags) and of the
  expression evaluator are fields of the parameter record \<open>agent_env\<close>; \<open>None\<close> stands for a timeout, an
  error or an empty answer, which the code treats alike.  Message text is ASCII here, so
  \<open>trim\<close> removes ASCII white space.
\<close>

section \<open>Subscription rules\<close>

datatype filter_error = ExpressionTooLong nat nat | EvalTimeout | EvalError string

record filter_context =
  fc_content :: string
  fc_author :: string
  fc_kind :: kind
  fc_channel_id :: string
  fc_timestamp :: timestamp

definition filter_context_from_event :: "nostr_lib \<Rightarrow> event \<Rightarrow> channel_id \<Rightarrow> filter_context" where
  "filter_context_from_event lib e ch =
     \<lparr>fc_content = ev_content e, fc_author = pubkey_to_hex lib (ev_pubkey e), fc_kind = ev_kind e,
      fc_channel_id = uuid_to_string lib ch, fc_timestamp = ev_created_at e\<rparr>"

datatype channel_scope = ScopeAll string | ScopeList "string list"

fun scope_matches :: "nostr_lib \<Rightarrow> channel_scope \<Rightarrow> channel_id \<Rightarrow> bool" where
  "scope_matches lib (ScopeAll s) ch = (s = ''all'')"
| "scope_matches lib (ScopeList ids) ch = list_ex (\<lambda>i. i = uuid_to_string lib ch) ids"

record subscription_rule =
  sr_name :: string
  sr_channels :: channel_scope
  sr_kinds :: "kind list"
  sr_require_mention :: bool
  sr_filter :: "string option"
  sr_prompt_tag :: "string option"
  sr_consecutive_timeouts :: nat

definition MAX_EXPR_LEN :: nat where "MAX_EXPR_LEN = 4096"
definition MAX_CONSECUTIVE_TIMEOUTS :: nat where "MAX_CONSECUTIVE_TIMEOUTS = 5"

type_synonym evaluator = "string \<Rightarrow> filter_context \<Rightarrow> (filter_error, bool) result"

definition evaluate_filter :: "evaluator \<Rightarrow> string \<Rightarrow> filter_context \<Rightarrow> (filter_error, bool) result" where
  "evaluate_filter eval expr ctx =
     (if length expr > MAX_EXPR_LEN then Inl (ExpressionTooLong (length expr) MAX_EXPR_LEN)
      else eval expr ctx)"

definition event_mentions_agent :: "event \<Rightarrow> string \<Rightarrow> bool" where
  "event_mentions_agent e agent = list_ex (\<lambda>t. tag_kind t = ''p'' \<and> tag_content t = Some agent) (ev_tags e)"

definition rule_applies :: "nostr_lib \<Rightarrow> event \<Rightarrow> channel_id \<Rightarrow> string \<Rightarrow> subscription_rule \<Rightarrow> bool" where
  "rule_applies lib e ch agent rule =
     (if \<not> scope_matches lib (sr_channels rule) ch then False
      else if sr_kinds rule \<noteq> [] \<and> ev_kind e \<notin> set (sr_kinds rule) then False
      else if sr_require_mention rule \<and> \<not> event_mentions_agent e agent then False
      else True)"

definition rule_prompt_tag :: "subscription_rule \<Rightarrow> string" where
  "rule_prompt_tag rule = (case sr_prompt_tag rule of Some t \<Rightarrow> t | None \<Rightarrow> sr_name rule)"

text \<open>The loop of \<open>match_event\<close>: the index and prompt tag of the winning rule, and the rules with their
  timeout counters updated.\<close>

fun match_rules ::
    "nostr_lib \<Rightarrow> evaluator \<Rightarrow> event \<Rightarrow> channel_id \<Rightarrow> string \<Rightarrow> nat \<Rightarrow> subscription_rule list \<Rightarrow>
     (nat \<times> string) option \<times> subscription_rule list" where
  "match_rules lib eval e ch agent i [] = (None, [])"
| "match_rules lib eval e ch agent i (rule # rules) =
     (if \<not> rule_applies lib e ch agent rule then apsnd ((#) rule) (match_rules lib eval e ch agent (Suc i) rules)
      else case sr_filter rule of
        None \<Rightarrow> (Some (i, rule_prompt_tag rule), rule # rules)
      | Some expr \<Rightarrow>
          if sr_consecutive_timeouts rule \<ge> MAX_CONSECUTIVE_TIMEOUTS then (None, rule # rules)
          else (case evaluate_filter eval expr (filter_context_from_event lib e ch) of
             Inr True \<Rightarrow>
               (Some (i, rule_prompt_tag rule), rule\<lparr>sr_consecutive_timeouts := 0\<rparr> # rules)
           | Inr False \<Rightarrow>
               apsnd ((#) (rule\<lparr>sr_consecutive_timeouts := 0\<rparr>)) (match_rules lib eval e ch agent (Suc i) rules)
           | Inl EvalTimeout \<Rightarrow>
               (None, rule\<lparr>sr_consecutive_timeouts := sr_consecutive_timeouts rule + 1\<rparr> # rules)
           | Inl _ \<Rightarrow> (None, rule # rules)))"

definition match_event ::
    "nostr_lib \<Rightarrow> evaluator \<Rightarrow> event \<Rightarrow> channel_id \<Rightarrow> subscription_rule list \<Rightarrow> string \<Rightarrow>
     (nat \<times> string) option \<times> subscription_rule list" where
  "match_event lib eval e ch rules agent = match_rules lib eval e ch agent 0 rules"

section \<open>Channel metadata\<close>

text \<open>A tag of the metadata event: its name, and its value when it has one.\<close>

fun json_tag :: "json \<Rightarrow> (string \<times> string option) option" where
  "json_tag (JArray (JString k # JString v # _)) = Some (k, Some v)"
| "json_tag (JArray (JString k # _)) = Some (k, None)"
| "json_tag _ = None"

fun declared_step :: "string option \<Rightarrow> json \<Rightarrow> string option" where
  "declared_step acc t = (case json_tag t of Some (k, v) \<Rightarrow> if k = ''t'' then v else acc | None \<Rightarrow> acc)"

definition has_json_tag :: "string \<Rightarrow> json list \<Rightarrow> bool" where
  "has_json_tag k tags = list_ex (\<lambda>t. map_option fst (json_tag t) = Some k) tags"

definition channel_type_from_tags :: "json list \<Rightarrow> string" where
  "channel_type_from_tags tags =
     (let is_hidden = has_json_tag ''hidden'' tags;
          is_private = has_json_tag ''private'' tags;
          declared_type = foldl declared_step None tags
      in if declared_type = Some ''dm'' \<or> is_hidden then ''dm''
         else if declared_type = Some ''private'' \<or> is_private then ''private''
         else ''stream'')"

record agent_env =
  ae_nostr :: nostr_lib
  ae_oa :: oa_lib
  ae_profile_tags :: "pubkey \<Rightarrow> json list option"
  ae_channel_tags :: "channel_id \<Rightarrow> json list option"
  ae_eval :: evaluator

text \<open>\<open>ChannelInfoResolver\<close>: the cache maps a channel to its type; startup entries whose type is unknown
  are left out of it.\<close>

type_synonym channel_types = "(channel_id \<times> string) list"

definition resolver_new :: "(channel_id \<times> string) list \<Rightarrow> channel_types" where
  "resolver_new startup = filter (\<lambda>(_, t). t \<noteq> ''unknown'') startup"

definition resolve_channel :: "agent_env \<Rightarrow> channel_id \<Rightarrow> channel_types \<Rightarrow> string option \<times> channel_types" where
  "resolve_channel env ch cache = (case map_of cache ch of
     Some t \<Rightarrow> (Some t, cache)
   | None \<Rightarrow> (case ae_channel_tags env ch of
       None \<Rightarrow> (None, cache)
     | Some tags \<Rightarrow>
         let t = channel_type_from_tags tags in (Some t, AList.update ch t cache)))"

definition is_dm_channel :: "agent_env \<Rightarrow> channel_id \<Rightarrow> channel_types \<Rightarrow> bool \<times> channel_types" where
  "is_dm_channel env ch cache = (case resolve_channel env ch cache of
     (Some t, cache') \<Rightarrow> (t = ''dm'', cache')
   | (None, cache') \<Rightarrow> (True, cache'))"

section \<open>The inbound author gate\<close>

record owner_cache =
  oc_pubkey :: "string option"
  oc_siblings :: "(string \<times> bool) list"

definition owner_cache_new :: "string option \<Rightarrow> owner_cache" where
  "owner_cache_new owner = \<lparr>oc_pubkey = owner, oc_siblings = []\<rparr>"

definition cache_sibling :: "string \<Rightarrow> bool \<Rightarrow> owner_cache \<Rightarrow> owner_cache" where
  "cache_sibling author is_sibling oc =
     (let m = (if length (oc_siblings oc) \<ge> 256 then [] else oc_siblings oc)
      in oc\<lparr>oc_siblings := AList.update author is_sibling m\<rparr>)"

definition sibling_tag :: "agent_env \<Rightarrow> pubkey \<Rightarrow> string \<Rightarrow> json \<Rightarrow> bool" where
  "sibling_tag env agent expected t = (case t of
     JArray parts \<Rightarrow>
       if length parts < 4 then False
       else if parts ! 0 \<noteq> JString ''auth'' then False
       else (case parts ! 1 of
          JString tag_owner \<Rightarrow>
            if \<not> eq_ignore_ascii_case tag_owner expected then False
            else is_ok (verify_auth_tag (ae_oa env) (oa_to_string (ae_oa env) t) agent)
        | _ \<Rightarrow> False)
   | _ \<Rightarrow> False)"

definition check_sibling_via_profile :: "agent_env \<Rightarrow> string \<Rightarrow> string \<Rightarrow> bool" where
  "check_sibling_via_profile env author expected = (case oa_pubkey_from_hex (ae_oa env) author of
     Inl _ \<Rightarrow> False
   | Inr pk \<Rightarrow> (case ae_profile_tags env pk of
       None \<Rightarrow> False
     | Some tags \<Rightarrow> list_ex (sibling_tag env pk expected) tags))"

definition is_owner_or_sibling :: "agent_env \<Rightarrow> string \<Rightarrow> owner_cache \<Rightarrow> bool \<times> owner_cache" where
  "is_owner_or_sibling env author oc = (case oc_pubkey oc of
     None \<Rightarrow> (False, oc)
   | Some my_owner \<Rightarrow>
       if author = my_owner then (True, oc)
       else (case map_of (oc_siblings oc) author of
          Some cached \<Rightarrow> (cached, oc)
        | None \<Rightarrow>
            let is_sibling = check_sibling_via_profile env author my_owner
            in (is_sibling, cache_sibling author is_sibling oc)))"

datatype respond_to = OwnerOnly | Allowlist | Anyone | Nobody

definition author_allowed ::
    "agent_env \<Rightarrow> respond_to \<Rightarrow> string list \<Rightarrow> string \<Rightarrow> bool \<Rightarrow> owner_cache \<Rightarrow> bool \<times> owner_cache" where
  "author_allowed env respond_to allowlist author is_dm oc =
     (if is_dm then (case respond_to of Nobody \<Rightarrow> (False, oc) | _ \<Rightarrow> is_owner_or_sibling env author oc)
      else (case respond_to of
         Anyone \<Rightarrow> (True, oc)
       | Nobody \<Rightarrow> (False, oc)
       | OwnerOnly \<Rightarrow> is_owner_or_sibling env author oc
       | Allowlist \<Rightarrow> if author \<in> set allowlist then (True, oc) else is_owner_or_sibling env author oc))"

section \<open>Control commands and the mode gate\<close>

definition is_owner_control_command :: "event \<Rightarrow> string \<Rightarrow> string \<Rightarrow> bool" where
  "is_owner_control_command e command agent =
     (ev_kind e = KIND_STREAM_MESSAGE \<and> trim (ev_content e) = command \<and> event_mentions_agent e agent)"

datatype multiple_event_handling = HandleQueue | HandleSteer | HandleInterrupt | HandleOwnerInterrupt

datatype control_signal = SignalCancel | SignalInterrupt | SignalSteer | SignalRotate

fun mode_gate_signal :: "multiple_event_handling \<Rightarrow> string \<Rightarrow> string option \<Rightarrow> control_signal option" where
  "mode_gate_signal HandleQueue author owner = None"
| "mode_gate_signal HandleSteer author owner = Some SignalSteer"
| "mode_gate_signal HandleInterrupt author owner = Some SignalInterrupt"
| "mode_gate_signal HandleOwnerInterrupt author owner =
     (case owner of Some o' \<Rightarrow> if author = o' then Some SignalInterrupt else None | None \<Rightarrow> None)"

section \<open>Taking an event in\<close>

record agent_config =
  ac_pubkey_hex :: string
  ac_ignore_self :: bool
  ac_respond_to :: respond_to
  ac_allowlist :: "string list"
  ac_handling :: multiple_event_handling

record harness =
  h_queue :: event_queue
  h_owner :: owner_cache
  h_channels :: channel_types
  h_rules :: "subscription_rule list"

datatype intake =
    SelfAuthored
  | ShutdownRequested
  | Commanded control_signal
  | AuthorRefused
  | NoRuleMatched
  | Refused
  | Accepted "control_signal option"

text \<open>The push and the mid-turn fork: an accepted event of a channel with a prompt in flight is steered
  into the turn when the mode asks for it and the read loop takes the request (\<open>steer_ok\<close>), which
  withholds it; otherwise the mode's signal goes to the running task.\<close>

definition enqueue ::
    "agent_env \<Rightarrow> agent_config \<Rightarrow> bool \<Rightarrow> instant \<Rightarrow> channel_id \<Rightarrow> event \<Rightarrow> string \<Rightarrow> harness \<Rightarrow> intake \<times> harness" where
  "enqueue env cfg steer_ok now ch e prompt_tag h =
     (let lib = ae_nostr env;
          (accepted, q) = push \<lparr>qe_channel_id = ch, qe_event = e, qe_received_at = now, qe_prompt_tag = prompt_tag\<rparr> (h_queue h)
      in if \<not> accepted then (Refused, h\<lparr>h_queue := q\<rparr>)
         else if \<not> is_channel_in_flight ch q then (Accepted None, h\<lparr>h_queue := q\<rparr>)
         else (case mode_gate_signal (ac_handling cfg) (pubkey_to_hex lib (ev_pubkey e)) (oc_pubkey (h_owner h)) of
            None \<Rightarrow> (Accepted None, h\<lparr>h_queue := q\<rparr>)
          | Some signal \<Rightarrow>
              if signal = SignalSteer \<and> steer_ok
              then (Accepted None, h\<lparr>h_queue := snd (mark_native_steer_pending lib ch (id_to_hex lib (ev_id e)) q)\<rparr>)
              else (Accepted (Some signal), h\<lparr>h_queue := q\<rparr>)))"

definition from_owner :: "nostr_lib \<Rightarrow> harness \<Rightarrow> event \<Rightarrow> bool" where
  "from_owner lib h e = (oc_pubkey (h_owner h) = Some (pubkey_to_hex lib (ev_pubkey e)))"

definition take_event ::
    "agent_env \<Rightarrow> agent_config \<Rightarrow> bool \<Rightarrow> instant \<Rightarrow> channel_id \<Rightarrow> event \<Rightarrow> harness \<Rightarrow> intake \<times> harness" where
  "take_event env cfg steer_ok now ch e h =
     (let lib = ae_nostr env; agent = ac_pubkey_hex cfg; author = pubkey_to_hex lib (ev_pubkey e) in
      if ac_ignore_self cfg \<and> author = agent then (SelfAuthored, h)
      else if is_owner_control_command e ''!shutdown'' agent \<and> from_owner lib h e then (ShutdownRequested, h)
      else if is_owner_control_command e ''!cancel'' agent \<and> from_owner lib h e then (Commanded SignalCancel, h)
      else if is_owner_control_command e ''!rotate'' agent \<and> from_owner lib h e then (Commanded SignalRotate, h)
      else
        (let (is_dm, channels) = is_dm_channel env ch (h_channels h);
             (allowed, owner) = author_allowed env (ac_respond_to cfg) (ac_allowlist cfg) author is_dm (h_owner h);
             h1 = h\<lparr>h_channels := channels, h_owner := owner\<rparr>
         in if \<not> allowed then (AuthorRefused, h1)
            else
              (let (matched, rules) = match_event lib (ae_eval env) e ch (h_rules h) agent;
                   h2 = h1\<lparr>h_rules := rules\<rparr>
               in case matched of
                    None \<Rightarrow> (NoRuleMatched, h2)
                  | Some (_, prompt_tag) \<Rightarrow> enqueue env cfg steer_ok now ch e prompt_tag h2)))"

end
