(* ===== verification/Event_Queue_Safety.thy ===== *)
theory Event_Queue_Safety
  imports Event_Queue
begin

text \<open>
  Properties of the agent harness's event queue: the invariant of its reachable states with the
  bounds it implies, the choice \<open>flush_next\<close> makes, the schedule of retries, that a held event is
  always dispatchable in the end, and how many events each operation holds before and after.
\<close>

section \<open>Restoring events\<close>

lemma push_front_all_append [simp]: "push_front_all es queue = es @ queue"
proof -
  have "foldl (\<lambda>q e. e # q) queue xs = rev xs @ queue" for xs :: "queued_event list"
    by (induction xs arbitrary: queue) simp_all
  then show ?thesis by (simp add: push_front_all_def)
qed

lemma trim_back_take [simp]: "trim_back queue = take MAX_PENDING_PER_CHANNEL queue"
proof (induction queue rule: trim_back.induct)
  case (1 queue)
  then show ?case
    by (subst trim_back.simps) (auto simp: butlast_conv_take min_def)
qed

lemma entry_or_default_simps [simp]:
  "entry_or_default k [] = []"
  "entry_or_default k (AList.update k' v al) = (if k = k' then v else entry_or_default k al)"
  "entry_or_default k (AList.delete k' al) = (if k = k' then [] else entry_or_default k al)"
  by (simp_all add: entry_or_default_def)

lemma entry_or_default_put [simp]:
  "entry_or_default k (put_or_drop k' v al) = (if k = k' then v else entry_or_default k al)"
  by (simp add: put_or_drop_def)

lemma entry_or_default_Some: "map_of al k = Some v \<Longrightarrow> entry_or_default k al = v"
  by (simp add: entry_or_default_def)

lemma entry_or_default_mem:
  "distinct (map fst al) \<Longrightarrow> (k, v) \<in> set al \<Longrightarrow> entry_or_default k al = v"
  by (simp add: entry_or_default_def)

lemma entry_or_default_nonempty: "entry_or_default k al \<noteq> [] \<Longrightarrow> (k, entry_or_default k al) \<in> set al"
  by (auto simp: entry_or_default_def dest: map_of_SomeD split: option.splits)

definition unique_keys :: "('k \<times> 'v) list \<Rightarrow> bool" where
  "unique_keys al \<longleftrightarrow> distinct (map fst al)"

lemma unique_keys_simps [simp]:
  "unique_keys []"
  "unique_keys al \<Longrightarrow> unique_keys (AList.update k v al)"
  "unique_keys al \<Longrightarrow> unique_keys (AList.delete k al)"
  "unique_keys al' \<Longrightarrow> unique_keys (put_or_drop k v' al')"
  "unique_keys al \<Longrightarrow> unique_keys (filter P al)"
  by (simp_all add: unique_keys_def put_or_drop_def distinct_map_filter)

lemma map_of_filter_Some: "unique_keys al \<Longrightarrow> map_of (filter P al) k = Some v \<Longrightarrow> map_of al k = Some v"
  by (auto simp: unique_keys_def distinct_map_filter)

lemma restore_front_simps [simp]:
  "entry_or_default ch' (queues (restore_front ch es q)) =
     (if ch' = ch then take MAX_PENDING_PER_CHANNEL (es @ entry_or_default ch (queues q))
      else entry_or_default ch' (queues q))"
  "in_flight_channels (restore_front ch es q) = in_flight_channels q"
  "in_flight_deadlines (restore_front ch es q) = in_flight_deadlines q"
  "in_flight_batch_sizes (restore_front ch es q) = in_flight_batch_sizes q"
  "retry_after (restore_front ch es q) = retry_after q"
  "retry_counts (restore_front ch es q) = retry_counts q"
  "q_dedup_mode (restore_front ch es q) = q_dedup_mode q"
  "cancelled_batches (restore_front ch es q) = cancelled_batches q"
  "cancel_reasons (restore_front ch es q) = cancel_reasons q"
  "withheld_native_steer (restore_front ch es q) = withheld_native_steer q"
  "in_flight_deadline (restore_front ch es q) = in_flight_deadline q"
  by (simp_all add: restore_front_def)

lemma restore_front_keys [simp]:
  "unique_keys (queues q) \<Longrightarrow> unique_keys (queues (restore_front ch es q))"
  by (simp add: restore_front_def)

lemma recover_withheld_simps [simp]:
  "in_flight_channels (recover_withheld_for_expired_channel ch q) = in_flight_channels q"
  "in_flight_deadlines (recover_withheld_for_expired_channel ch q) = in_flight_deadlines q"
  "in_flight_batch_sizes (recover_withheld_for_expired_channel ch q) = in_flight_batch_sizes q"
  "retry_after (recover_withheld_for_expired_channel ch q) = retry_after q"
  "retry_counts (recover_withheld_for_expired_channel ch q) = retry_counts q"
  "q_dedup_mode (recover_withheld_for_expired_channel ch q) = q_dedup_mode q"
  "cancelled_batches (recover_withheld_for_expired_channel ch q) = cancelled_batches q"
  "cancel_reasons (recover_withheld_for_expired_channel ch q) = cancel_reasons q"
  "in_flight_deadline (recover_withheld_for_expired_channel ch q) = in_flight_deadline q"
  "entry_or_default ch' (withheld_native_steer (recover_withheld_for_expired_channel ch q)) =
     (if ch' = ch then [] else entry_or_default ch' (withheld_native_steer q))"
  by (auto simp: recover_withheld_for_expired_channel_def entry_or_default_def split: option.splits)

lemma recover_withheld_queue:
  "entry_or_default ch' (queues (recover_withheld_for_expired_channel ch q)) =
     (if ch' = ch \<and> map_of (withheld_native_steer q) ch \<noteq> None
      then take MAX_PENDING_PER_CHANNEL
             (entry_or_default ch (withheld_native_steer q) @ entry_or_default ch (queues q))
      else entry_or_default ch' (queues q))"
  by (auto simp: recover_withheld_for_expired_channel_def entry_or_default_Some split: option.splits)

section \<open>Invariant\<close>

text \<open>Keys are unique; a channel is in flight exactly when it has a deadline; no queue is longer than
  its cap; a retry counter is positive and within the budget.\<close>

definition queue_inv :: "event_queue \<Rightarrow> bool" where
  "queue_inv q \<longleftrightarrow>
     unique_keys (queues q) \<and> unique_keys (in_flight_deadlines q) \<and>
     unique_keys (cancelled_batches q) \<and> unique_keys (withheld_native_steer q) \<and>
     unique_keys (retry_counts q) \<and>
     in_flight_channels q = dom (map_of (in_flight_deadlines q)) \<and>
     (\<forall>ch. length (entry_or_default ch (queues q)) \<le> MAX_PENDING_PER_CHANNEL) \<and>
     (\<forall>ch n. map_of (retry_counts q) ch = Some n \<longrightarrow> 0 < n \<and> n \<le> MAX_RETRIES)"

lemma queue_invI:
  assumes "unique_keys (queues q)" and "unique_keys (in_flight_deadlines q)"
    and "unique_keys (cancelled_batches q)" and "unique_keys (withheld_native_steer q)"
    and "unique_keys (retry_counts q)"
    and "in_flight_channels q = dom (map_of (in_flight_deadlines q))"
    and "\<And>ch. length (entry_or_default ch (queues q)) \<le> MAX_PENDING_PER_CHANNEL"
    and "\<And>ch n. map_of (retry_counts q) ch = Some n \<Longrightarrow> 0 < n \<and> n \<le> MAX_RETRIES"
  shows "queue_inv q"
  using assms by (simp add: queue_inv_def)

lemma queue_invD:
  assumes "queue_inv q"
  shows "unique_keys (queues q)" "unique_keys (in_flight_deadlines q)"
    "unique_keys (cancelled_batches q)" "unique_keys (withheld_native_steer q)"
    "unique_keys (retry_counts q)"
    "in_flight_channels q = dom (map_of (in_flight_deadlines q))"
    "length (entry_or_default ch (queues q)) \<le> MAX_PENDING_PER_CHANNEL"
    "map_of (retry_counts q) ch = Some n \<Longrightarrow> 0 < n \<and> n \<le> MAX_RETRIES"
  using assms by (simp_all add: queue_inv_def)

lemma inv_new: "queue_inv (queue_new mode)"
  by (simp add: queue_inv_def queue_new_def)

lemma inv_restore_front:
  assumes "queue_inv q" shows "queue_inv (restore_front ch es q)"
  by (rule queue_invI) (use queue_invD [OF assms] in auto)

lemma inv_recover: "queue_inv q \<Longrightarrow> queue_inv (recover_withheld_for_expired_channel ch q)"
  unfolding recover_withheld_for_expired_channel_def
  by (auto split: option.splits intro!: inv_restore_front simp: queue_inv_def)

lemma inv_expire_channel:
  assumes "queue_inv q" shows "queue_inv (expire_channel ch q)"
  unfolding expire_channel_def
  by (rule inv_recover, rule queue_invI) (use queue_invD [OF assms] in auto)

lemma inv_expire: "queue_inv q \<Longrightarrow> queue_inv (expire_in_flight now q)"
proof -
  have "queue_inv q \<Longrightarrow> queue_inv (fold expire_channel chs q)" for chs
    by (induction chs arbitrary: q) (simp_all add: inv_expire_channel)
  then show "queue_inv q \<Longrightarrow> queue_inv (expire_in_flight now q)" by (simp add: expire_in_flight_def)
qed

lemma inv_push: "queue_inv q \<Longrightarrow> queue_inv (snd (push e q))"
proof -
  assume q: "queue_inv q"
  have "length (if length queue \<ge> MAX_PENDING_PER_CHANNEL then tl queue else queue) < MAX_PENDING_PER_CHANNEL"
    if "queue = entry_or_default (qe_channel_id e) (queues q)" for queue
    using queue_invD(7) [OF q, of "qe_channel_id e"] that by (auto simp: MAX_PENDING_PER_CHANNEL_def)
  from this [OF refl] queue_invD [OF q] show ?thesis
    by (auto simp: push_def Let_def intro!: queue_invI)
qed

lemma inv_mark_in_flight: "queue_inv q \<Longrightarrow> queue_inv (mark_in_flight now ch n q)"
  by (auto simp: mark_in_flight_def queue_inv_def)

lemma inv_take_cancelled: "queue_inv q \<Longrightarrow> queue_inv (take_cancelled ch q)"
  by (auto simp: take_cancelled_def queue_inv_def)

lemma drain_queue_simps [simp]:
  "entry_or_default ch' (queues (snd (drain_queue ch q))) =
     (if ch' = ch then drop MAX_BATCH_EVENTS (entry_or_default ch (queues q))
      else entry_or_default ch' (queues q))"
  "in_flight_channels (snd (drain_queue ch q)) = in_flight_channels q"
  "in_flight_deadlines (snd (drain_queue ch q)) = in_flight_deadlines q"
  "retry_after (snd (drain_queue ch q)) = retry_after q"
  "retry_counts (snd (drain_queue ch q)) = retry_counts q"
  "q_dedup_mode (snd (drain_queue ch q)) = q_dedup_mode q"
  "cancelled_batches (snd (drain_queue ch q)) = cancelled_batches q"
  "cancel_reasons (snd (drain_queue ch q)) = cancel_reasons q"
  "withheld_native_steer (snd (drain_queue ch q)) = withheld_native_steer q"
  "in_flight_deadline (snd (drain_queue ch q)) = in_flight_deadline q"
  by (auto simp: drain_queue_def Let_def min_def)

lemma inv_drain_queue: "queue_inv q \<Longrightarrow> queue_inv (snd (drain_queue ch q))"
proof (rule queue_invI)
  assume "queue_inv q"
  note inv = queue_invD [OF this]
  show "unique_keys (queues (snd (drain_queue ch q)))"
    using inv(1) by (simp add: drain_queue_def Let_def)
  show "length (entry_or_default ch' (queues (snd (drain_queue ch q)))) \<le> MAX_PENDING_PER_CHANNEL" for ch'
    using inv(7) [of ch] inv(7) [of ch'] by auto
qed (use queue_invD in auto)

lemma inv_flush_next: "queue_inv q \<Longrightarrow> queue_inv (snd (flush_next now q))"
  by (auto simp: flush_next_def Let_def flush_queue_def flush_cancelled_def apfst_def map_prod_def split_beta
        intro!: inv_take_cancelled inv_mark_in_flight inv_drain_queue inv_expire split: option.splits)

lemma inv_mark_complete: "queue_inv q \<Longrightarrow> queue_inv (mark_complete now ch q)"
  by (auto simp: mark_complete_def Let_def queue_inv_def split: option.splits if_splits)

lemma inv_requeue: "queue_inv q \<Longrightarrow> queue_inv (snd (requeue now nanos b q))"
proof -
  assume q: "queue_inv q"
  note inv = queue_invD [OF q]
  let ?n = "(case map_of (retry_counts q) (fb_channel_id b) of Some n \<Rightarrow> n | None \<Rightarrow> 0) + 1"
  show ?thesis
  proof (cases "?n > MAX_RETRIES")
    case True
    then have "snd (requeue now nanos b q) =
        q\<lparr>retry_counts := AList.delete (fb_channel_id b) (retry_counts q),
          retry_after := AList.delete (fb_channel_id b) (retry_after q)\<rparr>"
      by (simp add: requeue_def Let_def)
    with inv show ?thesis by (auto simp: queue_inv_def)
  next
    case False
    let ?q1 = "q\<lparr>retry_counts := AList.update (fb_channel_id b) ?n (retry_counts q)\<rparr>"
    from False inv have "queue_inv ?q1" by (auto simp: queue_inv_def)
    from inv_restore_front [OF this, of "fb_channel_id b" "map (queued_of (fb_channel_id b)) (fb_events b)"] False
    show ?thesis by (simp add: requeue_def Let_def queue_inv_def)
  qed
qed

lemma inv_requeue_as_cancelled: "queue_inv q \<Longrightarrow> queue_inv (requeue_as_cancelled b reason q)"
  by (auto simp: requeue_as_cancelled_def Let_def queue_inv_def)

lemma inv_extend: "queue_inv q \<Longrightarrow> queue_inv (extend_in_flight_deadline now ch n q)"
  by (auto simp: extend_in_flight_deadline_def Let_def queue_inv_def split: option.splits)

lemma inv_drain_channel: "queue_inv q \<Longrightarrow> queue_inv (snd (drain_channel lib ch q))"
  by (auto simp: drain_channel_def queue_inv_def)

lemma remove_first_length: "remove_first lib eid es = Some (e, rest) \<Longrightarrow> length es = Suc (length rest)"
  by (induction es arbitrary: e rest) (auto split: if_splits)

lemma inv_mark_steer: "queue_inv q \<Longrightarrow> queue_inv (snd (mark_native_steer_pending lib ch eid q))"
proof -
  assume q: "queue_inv q"
  have "length rest \<le> MAX_PENDING_PER_CHANNEL"
    if "map_of (queues q) ch = Some es" "remove_first lib eid es = Some (e, rest)" for es e rest
    using queue_invD(7) [OF q, of ch] remove_first_length [OF that(2)] entry_or_default_Some [OF that(1)] by simp
  with queue_invD [OF q] show ?thesis
    by (auto simp: mark_native_steer_pending_def intro!: queue_invI split: option.splits)
qed

lemma inv_release_steer: "queue_inv q \<Longrightarrow> queue_inv (release_native_steer lib ch eid q)"
  by (auto simp: release_native_steer_def queue_inv_def
        intro!: inv_restore_front split: option.splits)

lemma entry_retain [simp]:
  "entry_or_default k (retain_entry lib ch eid al) =
     (if k = ch then retain_others lib eid (entry_or_default k al) else entry_or_default k al)"
  by (auto simp: retain_entry_def entry_or_default_Some retain_others_def split: option.splits)
     (simp add: entry_or_default_def)

lemma keys_retain [simp]:
  "unique_keys al \<Longrightarrow> unique_keys (retain_entry lib ch eid al)"
  by (simp add: retain_entry_def split: option.splits)

lemma inv_remove_event: "queue_inv q \<Longrightarrow> queue_inv (remove_event lib ch eid q)"
proof -
  assume q: "queue_inv q"
  have "length (retain_others lib eid (entry_or_default ch (queues q))) \<le> MAX_PENDING_PER_CHANNEL"
    using queue_invD(7) [OF q, of ch] by (simp add: retain_others_def order_trans [OF length_filter_le])
  with queue_invD [OF q] show ?thesis
    by (auto simp: remove_event_def intro!: queue_invI)
qed

lemma inv_compact: "queue_inv q \<Longrightarrow> queue_inv (compact_expired_state now q)"
  unfolding compact_expired_state_def Let_def
  by (auto simp: queue_inv_def dest!: map_of_filter_Some)

section \<open>Reachable queues\<close>

text \<open>Any caller may call the operations in any order, at any time and with any batch; a hash map may
  change its iteration order at any time.\<close>

inductive queue_step :: "nostr_lib \<Rightarrow> event_queue \<Rightarrow> event_queue \<Rightarrow> bool" for lib where
  step_push: "queue_step lib q (snd (push e q))"
| step_flush: "queue_step lib q (snd (flush_next now q))"
| step_complete: "queue_step lib q (mark_complete now ch q)"
| step_requeue: "queue_step lib q (snd (requeue now nanos b q))"
| step_preserve: "queue_step lib q (requeue_preserve_timestamps b q)"
| step_cancelled: "queue_step lib q (requeue_as_cancelled b reason q)"
| step_flushable: "queue_step lib q (snd (has_flushable_work now q))"
| step_extend: "queue_step lib q (extend_in_flight_deadline now ch n q)"
| step_drain: "queue_step lib q (snd (drain_channel lib ch q))"
| step_withhold: "queue_step lib q (snd (mark_native_steer_pending lib ch eid q))"
| step_release: "queue_step lib q (release_native_steer lib ch eid q)"
| step_remove: "queue_step lib q (remove_event lib ch eid q)"
| step_compact: "queue_step lib q (compact_expired_state now q)"
| step_rehash: "unique_keys qs \<Longrightarrow> map_of qs = map_of (queues q) \<Longrightarrow>
    unique_keys cs \<Longrightarrow> map_of cs = map_of (cancelled_batches q) \<Longrightarrow>
    queue_step lib q (q\<lparr>queues := qs, cancelled_batches := cs\<rparr>)"

inductive queue_reachable :: "nostr_lib \<Rightarrow> event_queue \<Rightarrow> bool" for lib where
  queue_init: "queue_reachable lib (queue_new mode)"
| queue_config: "queue_reachable lib (with_in_flight_deadline n (queue_new mode))"
| queue_next: "queue_reachable lib q \<Longrightarrow> queue_step lib q q' \<Longrightarrow> queue_reachable lib q'"

lemma queue_step_inv: "queue_step lib q q' \<Longrightarrow> queue_inv q \<Longrightarrow> queue_inv q'"
proof (induction rule: queue_step.induct)
  case (step_rehash qs q cs)
  then have "entry_or_default ch qs = entry_or_default ch (queues q)" for ch
    by (simp add: entry_or_default_def)
  with step_rehash show ?case by (simp add: queue_inv_def)
qed (simp_all add: inv_push inv_flush_next inv_mark_complete inv_requeue inv_restore_front
    inv_requeue_as_cancelled inv_expire inv_extend inv_drain_channel inv_mark_steer inv_release_steer
    inv_remove_event inv_compact requeue_preserve_timestamps_def has_flushable_work_def Let_def)

lemma queue_reachable_inv: "queue_reachable lib q \<Longrightarrow> queue_inv q"
  by (induction rule: queue_reachable.induct)
     (simp_all add: inv_new queue_step_inv, simp add: with_in_flight_deadline_def queue_inv_def queue_new_def)

section \<open>Expiry\<close>

lemma expire_channel_simps [simp]:
  "in_flight_channels (expire_channel ch q) = in_flight_channels q - {ch}"
  "in_flight_deadlines (expire_channel ch q) = AList.delete ch (in_flight_deadlines q)"
  "retry_after (expire_channel ch q) = retry_after q"
  "retry_counts (expire_channel ch q) = retry_counts q"
  "cancelled_batches (expire_channel ch q) = cancelled_batches q"
  "cancel_reasons (expire_channel ch q) = cancel_reasons q"
  "q_dedup_mode (expire_channel ch q) = q_dedup_mode q"
  "in_flight_deadline (expire_channel ch q) = in_flight_deadline q"
  "entry_or_default ch' (withheld_native_steer (expire_channel ch q)) =
     (if ch' = ch then [] else entry_or_default ch' (withheld_native_steer q))"
  by (simp_all add: expire_channel_def)

lemma expire_channel_queue:
  "entry_or_default ch' (queues (expire_channel ch q)) =
     (if ch' = ch \<and> map_of (withheld_native_steer q) ch \<noteq> None
      then take MAX_PENDING_PER_CHANNEL
             (entry_or_default ch (withheld_native_steer q) @ entry_or_default ch (queues q))
      else entry_or_default ch' (queues q))"
  by (auto simp: expire_channel_def recover_withheld_queue)

lemma fold_expire_simps:
  "in_flight_channels (fold expire_channel chs q) = in_flight_channels q - set chs"
  "retry_after (fold expire_channel chs q) = retry_after q"
  "retry_counts (fold expire_channel chs q) = retry_counts q"
  "cancelled_batches (fold expire_channel chs q) = cancelled_batches q"
  "cancel_reasons (fold expire_channel chs q) = cancel_reasons q"
  "q_dedup_mode (fold expire_channel chs q) = q_dedup_mode q"
  "in_flight_deadline (fold expire_channel chs q) = in_flight_deadline q"
  by (induction chs arbitrary: q) auto

lemma expire_simps [simp]:
  "retry_after (expire_in_flight now q) = retry_after q"
  "retry_counts (expire_in_flight now q) = retry_counts q"
  "cancelled_batches (expire_in_flight now q) = cancelled_batches q"
  "cancel_reasons (expire_in_flight now q) = cancel_reasons q"
  "q_dedup_mode (expire_in_flight now q) = q_dedup_mode q"
  "in_flight_deadline (expire_in_flight now q) = in_flight_deadline q"
  by (simp_all add: expire_in_flight_def fold_expire_simps)

lemma expire_in_flight_channels:
  assumes "queue_inv q"
  shows "in_flight_channels (expire_in_flight now q) =
    {ch. \<exists>deadline. map_of (in_flight_deadlines q) ch = Some deadline \<and> now < deadline}"
proof -
  have "map_of (in_flight_deadlines q) ch = Some deadline \<longleftrightarrow> (ch, deadline) \<in> set (in_flight_deadlines q)"
    for ch deadline
    using queue_invD(2) [OF assms] by (simp add: unique_keys_def)
  moreover have "(ch, a) \<in> set (in_flight_deadlines q) \<Longrightarrow> (ch, b) \<in> set (in_flight_deadlines q) \<Longrightarrow> a = b"
    for ch a b
    using queue_invD(2) [OF assms] by (auto simp: unique_keys_def dest: eq_key_imp_eq_value)
  ultimately show ?thesis
    by (auto simp: expire_in_flight_def fold_expire_simps queue_invD(6) [OF assms] dom_def image_iff not_le; force)
qed

section \<open>The events a channel holds\<close>

text \<open>Every event a channel holds for a later prompt: queued, cancelled or withheld.\<close>

definition held :: "event_queue \<Rightarrow> channel_id \<Rightarrow> batch_event multiset" where
  "held q ch =
     mset (map batch_of (entry_or_default ch (queues q))) + mset (entry_or_default ch (cancelled_batches q)) +
     mset (map batch_of (entry_or_default ch (withheld_native_steer q)))"

lemma batch_of_queued_of [simp]: "batch_of (queued_of ch be) = be"
  by (simp add: batch_of_def queued_of_def)

lemma map_batch_of_queued_of [simp]: "map (batch_of \<circ> queued_of ch) bes = bes"
  by (simp add: comp_def)

lemma held_expire_channel:
  assumes "size (held q ch) \<le> MAX_PENDING_PER_CHANNEL"
  shows "held (expire_channel ch q) ch' = held q ch'"
proof -
  have "length (entry_or_default ch (withheld_native_steer q)) + length (entry_or_default ch (queues q))
      \<le> MAX_PENDING_PER_CHANNEL"
    using assms by (simp add: held_def)
  then show ?thesis
    by (auto simp: held_def expire_channel_queue entry_or_default_def [of _ "withheld_native_steer q"]
        split: option.splits)
qed

lemma held_expire:
  assumes "\<And>ch. size (held q ch) \<le> MAX_PENDING_PER_CHANNEL"
  shows "held (expire_in_flight now q) ch = held q ch"
proof -
  have "(\<And>ch. size (held q ch) \<le> MAX_PENDING_PER_CHANNEL) \<Longrightarrow> held (fold expire_channel chs q) ch = held q ch" for chs
  proof (induction chs arbitrary: q)
    case (Cons c chs)
    then have "held (expire_channel c q) ch' = held q ch'" for ch' by (simp add: held_expire_channel)
    with Cons.IH [of "expire_channel c q"] Cons.prems show ?case by simp
  qed simp
  with assms show ?thesis by (simp add: expire_in_flight_def)
qed

section \<open>Choosing a batch\<close>

lemma min_by_key_None [simp]: "min_by_key f xs = None \<longleftrightarrow> xs = []"
  by (cases xs) (auto split: option.splits)

lemma min_by_key_Some: "min_by_key f xs = Some x \<Longrightarrow> x \<in> set xs \<and> (\<forall>y \<in> set xs. f x \<le> f y)"
proof (induction xs arbitrary: x)
  case (Cons z xs)
  then show ?case by (cases "min_by_key f xs") (fastforce split: if_splits)+
qed simp

definition channel_ready :: "instant \<Rightarrow> event_queue \<Rightarrow> channel_id \<Rightarrow> bool" where
  "channel_ready now q ch \<longleftrightarrow>
     entry_or_default ch (queues q) \<noteq> [] \<and> ch \<notin> in_flight_channels q \<and> throttle_ok now q ch"

lemma ready_mem:
  assumes "queue_inv q"
  shows "(\<exists>queue. (ch, queue) \<in> set (queues q) \<and> queue_ready now q (ch, queue)) \<longleftrightarrow>
    entry_or_default ch (queues q) \<noteq> [] \<and> ch \<notin> in_flight_channels q \<and> throttle_ok now q ch"
  using entry_or_default_mem [of "queues q" ch] entry_or_default_nonempty [of ch "queues q"] queue_invD(1) [OF assms]
  by (auto simp: queue_ready_def unique_keys_def)

lemma oldest_ready_None:
  assumes "queue_inv q"
  shows "oldest_ready now q = None \<longleftrightarrow>
    (\<forall>ch. \<not> (entry_or_default ch (queues q) \<noteq> [] \<and> ch \<notin> in_flight_channels q \<and> throttle_ok now q ch))"
  unfolding ready_mem [OF assms, symmetric] oldest_ready_def by (auto simp: filter_empty_conv)

lemma oldest_ready_Some:
  assumes "queue_inv q" and "oldest_ready now q = Some ch"
  shows "entry_or_default ch (queues q) \<noteq> [] \<and> ch \<notin> in_flight_channels q \<and> throttle_ok now q ch"
    and "entry_or_default ch' (queues q) \<noteq> [] \<Longrightarrow> ch' \<notin> in_flight_channels q \<Longrightarrow> throttle_ok now q ch' \<Longrightarrow>
      qe_received_at (hd (entry_or_default ch (queues q))) \<le> qe_received_at (hd (entry_or_default ch' (queues q)))"
proof -
  let ?f = "\<lambda>(_, queue). qe_received_at (hd queue)"
  from assms(2) obtain queue where m: "min_by_key ?f (filter (queue_ready now q) (queues q)) = Some (ch, queue)"
    by (auto simp: oldest_ready_def)
  from min_by_key_Some [OF m] have mem: "(ch, queue) \<in> set (queues q)" "queue_ready now q (ch, queue)"
    and least: "\<And>y. y \<in> set (queues q) \<Longrightarrow> queue_ready now q y \<Longrightarrow> ?f (ch, queue) \<le> ?f y"
    by (auto simp del: case_prod_conv)
  from mem show "entry_or_default ch (queues q) \<noteq> [] \<and> ch \<notin> in_flight_channels q \<and> throttle_ok now q ch"
    using ready_mem [OF assms(1)] by blast
  have e: "entry_or_default ch (queues q) = queue"
    using mem(1) queue_invD(1) [OF assms(1)] by (simp add: entry_or_default_mem unique_keys_def)
  assume "entry_or_default ch' (queues q) \<noteq> []" "ch' \<notin> in_flight_channels q" "throttle_ok now q ch'"
  with entry_or_default_nonempty [of ch' "queues q"] least [of "(ch', entry_or_default ch' (queues q))"]
  show "qe_received_at (hd (entry_or_default ch (queues q))) \<le> qe_received_at (hd (entry_or_default ch' (queues q)))"
    by (simp add: queue_ready_def e)
qed

lemma cancelled_ready_None:
  "cancelled_ready q = None \<longleftrightarrow> (\<forall>ch \<in> fst ` set (cancelled_batches q). ch \<in> in_flight_channels q)"
  by (auto simp: cancelled_ready_def find_None_iff)

lemma cancelled_ready_Some:
  "cancelled_ready q = Some ch \<Longrightarrow> ch \<in> fst ` set (cancelled_batches q) \<and> ch \<notin> in_flight_channels q"
  by (auto simp: cancelled_ready_def find_Some_iff in_set_conv_nth image_iff) (metis nth_mem fst_conv prod.collapse nth_map)

lemma flush_queue_simps:
  "fb_channel_id (fst (flush_queue now ch q)) = ch"
  "fb_events (fst (flush_queue now ch q)) = fst (drain_queue ch q)"
  "fb_cancelled_events (fst (flush_queue now ch q)) = entry_or_default ch (cancelled_batches q)"
  "in_flight_channels (snd (flush_queue now ch q)) = insert ch (in_flight_channels q)"
  "in_flight_deadlines (snd (flush_queue now ch q)) =
     AList.update ch (now + in_flight_deadline q) (in_flight_deadlines q)"
  "retry_counts (snd (flush_queue now ch q)) = retry_counts q"
  "retry_after (snd (flush_queue now ch q)) = retry_after q"
  "withheld_native_steer (snd (flush_queue now ch q)) = withheld_native_steer q"
  "cancelled_batches (snd (flush_queue now ch q)) = AList.delete ch (cancelled_batches q)"
  "entry_or_default ch' (queues (snd (flush_queue now ch q))) =
     (if ch' = ch then drop MAX_BATCH_EVENTS (entry_or_default ch (queues q))
      else entry_or_default ch' (queues q))"
  by (simp_all add: flush_queue_def split_beta Let_def mark_in_flight_def take_cancelled_def)

lemma flush_cancelled_simps:
  "fb_channel_id (fst (flush_cancelled now ch q)) = ch"
  "fb_events (fst (flush_cancelled now ch q)) = entry_or_default ch (cancelled_batches q)"
  "fb_cancelled_events (fst (flush_cancelled now ch q)) = []"
  "in_flight_channels (snd (flush_cancelled now ch q)) = insert ch (in_flight_channels q)"
  "in_flight_deadlines (snd (flush_cancelled now ch q)) =
     AList.update ch (now + in_flight_deadline q) (in_flight_deadlines q)"
  "retry_counts (snd (flush_cancelled now ch q)) = retry_counts q"
  "retry_after (snd (flush_cancelled now ch q)) = retry_after q"
  "withheld_native_steer (snd (flush_cancelled now ch q)) = withheld_native_steer q"
  "cancelled_batches (snd (flush_cancelled now ch q)) = AList.delete ch (cancelled_batches q)"
  "queues (snd (flush_cancelled now ch q)) = queues q"
  by (simp_all add: flush_cancelled_def Let_def mark_in_flight_def take_cancelled_def)

lemma drained_events:
  "mset (fst (drain_queue ch q)) = mset (map batch_of (take MAX_BATCH_EVENTS (entry_or_default ch (queues q))))"
  "sorted (map (\<lambda>be. ev_created_at (be_event be)) (fst (drain_queue ch q)))"
  "length (fst (drain_queue ch q)) = min MAX_BATCH_EVENTS (length (entry_or_default ch (queues q)))"
  by (simp_all add: drain_queue_def Let_def min_def mset_map [symmetric] del: mset_map)

text \<open>The two ways a batch is chosen.\<close>

lemma flush_next_cases:
  assumes "flush_next now q0 = (Some b, q')"
  obtains (queued) ch where "oldest_ready now (expire_in_flight now q0) = Some ch"
      "b = fst (flush_queue now ch (expire_in_flight now q0))"
      "q' = snd (flush_queue now ch (expire_in_flight now q0))"
    | (cancelled) ch where "oldest_ready now (expire_in_flight now q0) = None"
      "cancelled_ready (expire_in_flight now q0) = Some ch"
      "b = fst (flush_cancelled now ch (expire_in_flight now q0))"
      "q' = snd (flush_cancelled now ch (expire_in_flight now q0))"
  using assms by (auto simp: flush_next_def Let_def apfst_def map_prod_def split_beta split: option.splits)

lemma held_flush:
  assumes "flush_next now q0 = (Some b, q')"
  shows "held (expire_in_flight now q0) ch =
    held q' ch + (if fb_channel_id b = ch then mset (fb_events b) + mset (fb_cancelled_events b) else {#})"
  using assms
proof (cases rule: flush_next_cases)
  case (queued c)
  let ?queue = "entry_or_default c (queues (expire_in_flight now q0))"
  have "mset (map batch_of ?queue) =
      mset (map batch_of (take MAX_BATCH_EVENTS ?queue)) + mset (map batch_of (drop MAX_BATCH_EVENTS ?queue))"
    by (metis append_take_drop_id map_append mset_append)
  with queued show ?thesis by (auto simp: held_def flush_queue_simps drained_events)
next
  case (cancelled c)
  then show ?thesis by (simp add: held_def flush_cancelled_simps)
qed

section \<open>Nothing is wedged\<close>

lemma expire_channel_keeps_nonempty:
  "entry_or_default ch (queues q) \<noteq> [] \<Longrightarrow> entry_or_default ch (queues (expire_channel c q)) \<noteq> []"
  by (auto simp: expire_channel_queue MAX_PENDING_PER_CHANNEL_def)

lemma expire_recovers_withheld:
  "entry_or_default ch (withheld_native_steer q) \<noteq> [] \<Longrightarrow> entry_or_default ch (queues (expire_channel ch q)) \<noteq> []"
  by (auto simp: expire_channel_queue MAX_PENDING_PER_CHANNEL_def entry_or_default_def [of ch "withheld_native_steer q"]
      split: option.splits)

lemma fold_expire_nonempty:
  "entry_or_default ch (queues q) \<noteq> [] \<or> (ch \<in> set chs \<and> entry_or_default ch (withheld_native_steer q) \<noteq> []) \<Longrightarrow>
   entry_or_default ch (queues (fold expire_channel chs q)) \<noteq> []"
proof (induction chs arbitrary: q)
  case (Cons c chs)
  have "entry_or_default ch (queues (expire_channel c q)) \<noteq> [] \<or>
      (ch \<in> set chs \<and> entry_or_default ch (withheld_native_steer (expire_channel c q)) \<noteq> [])"
    using Cons.prems expire_channel_keeps_nonempty [of ch q c] expire_recovers_withheld [of ch q]
    by (cases "c = ch") auto
  with Cons.IH [of "expire_channel c q"] show ?case by simp
qed simp

lemma flush_next_None:
  "queue_inv q \<Longrightarrow> fst (flush_next now q) = None \<longleftrightarrow>
     oldest_ready now (expire_in_flight now q) = None \<and> cancelled_ready (expire_in_flight now q) = None"
  by (auto simp: flush_next_def Let_def split: option.splits)

lemma late_flush:
  assumes inv: "queue_inv q"
    and late: "sum_list (map snd (in_flight_deadlines q)) + sum_list (map snd (retry_after q)) \<le> now"
    and work: "entry_or_default ch (queues q) \<noteq> [] \<or> ch \<in> fst ` set (cancelled_batches q) \<or>
      (ch \<in> in_flight_channels q \<and> entry_or_default ch (withheld_native_steer q) \<noteq> [])"
  shows "fst (flush_next now q) \<noteq> None"
proof -
  let ?q = "expire_in_flight now q"
  have past: "d \<le> now" if "map_of (in_flight_deadlines q) c = Some d \<or> map_of (retry_after q) c = Some d" for c d
    using that member_le_sum_list [of d "map snd (in_flight_deadlines q)"]
      member_le_sum_list [of d "map snd (retry_after q)"] late
    by (force dest: map_of_SomeD simp: image_iff)
  then have idle: "in_flight_channels ?q = {}"
    unfolding expire_in_flight_channels [OF inv] by (auto simp: not_less)
  have throttle: "throttle_ok now ?q ch"
    using past by (auto simp: throttle_ok_def split: option.splits)
  have "entry_or_default ch (queues ?q) \<noteq> [] \<or> ch \<in> fst ` set (cancelled_batches q)"
  proof (rule disjE [OF work])
    assume "ch \<in> fst ` set (cancelled_batches q) \<or>
      (ch \<in> in_flight_channels q \<and> entry_or_default ch (withheld_native_steer q) \<noteq> [])"
    moreover have "ch \<in> set (map fst (filter (\<lambda>(_, deadline). now \<ge> deadline) (in_flight_deadlines q)))"
      if "ch \<in> in_flight_channels q"
      using that queue_invD(6) [OF inv] past by (fastforce dest: map_of_SomeD simp: image_iff dom_def)
    ultimately show ?thesis using fold_expire_nonempty [of ch q] unfolding expire_in_flight_def by blast
  qed (auto simp: expire_in_flight_def fold_expire_nonempty)
  then show ?thesis
    using throttle idle by (auto simp: flush_next_None [OF inv] oldest_ready_None [OF inv_expire [OF inv]] cancelled_ready_None)
qed

section \<open>Retries\<close>

definition retries :: "event_queue \<Rightarrow> channel_id \<Rightarrow> nat" where
  "retries q ch = (case map_of (retry_counts q) ch of Some n \<Rightarrow> n | None \<Rightarrow> 0)"

lemma jitter_bounds:
  assumes "nanos < 10 ^ 9"
  shows "8 / 10 \<le> jitter nanos" and "jitter nanos \<le> 8932 / 10000"
proof -
  have "rat_of_nat nanos \<le> 10 ^ 9" using assms by (metis less_imp_le of_nat_le_iff of_nat_numeral of_nat_power)
  then have "rat_of_nat nanos / rat_of_nat (2 ^ 32 - 1) * (4 / 10) \<le> 932 / 10000"
    by (simp add: divide_le_eq)
  then show "jitter nanos \<le> 8932 / 10000" by (simp add: jitter_def)
  show "8 / 10 \<le> jitter nanos" by (simp add: jitter_def)
qed

lemma retry_delay_bounds:
  assumes "nanos < 10 ^ 9"
  shows "8 * secs (capped_secs n) \<le> 10 * retry_delay n nanos"
    and "10 * retry_delay n nanos \<le> 9 * secs (capped_secs n)"
proof -
  let ?c = "rat_of_nat (capped_secs n)"
  let ?x = "?c * jitter nanos * 10 ^ 9"
  have "?c * (8 / 10) * 10 ^ 9 \<le> ?x" "?x \<le> ?c * (8932 / 10000) * 10 ^ 9"
    using jitter_bounds [OF assms] by (intro mult_right_mono mult_left_mono; simp)+
  then have "rat_of_int (int (8 * 10 ^ 8 * capped_secs n)) \<le> ?x" "?x \<le> rat_of_int (int (8932 * 10 ^ 5 * capped_secs n))"
    by simp_all
  then have "int (8 * 10 ^ 8 * capped_secs n) \<le> round ?x" "round ?x \<le> int (8932 * 10 ^ 5 * capped_secs n)"
    using round_mono [of "rat_of_int (int (8 * 10 ^ 8 * capped_secs n))" ?x]
      round_mono [of ?x "rat_of_int (int (8932 * 10 ^ 5 * capped_secs n))"] unfolding round_of_int by blast+
  then have "8 * 10 ^ 8 * capped_secs n \<le> retry_delay n nanos" "retry_delay n nanos \<le> 8932 * 10 ^ 5 * capped_secs n"
    unfolding retry_delay_def by linarith+
  then show "8 * secs (capped_secs n) \<le> 10 * retry_delay n nanos" "10 * retry_delay n nanos \<le> 9 * secs (capped_secs n)"
    by (simp_all add: secs_def)
qed

lemma requeue_eq:
  "requeue now nanos b q = (let ch = fb_channel_id b; n = retries q ch + 1 in
     if n > MAX_RETRIES then (Some b, q\<lparr>retry_counts := AList.delete ch (retry_counts q),
         retry_after := AList.delete ch (retry_after q)\<rparr>)
     else let q1 = restore_front ch (map (queued_of ch) (fb_events b)) (q\<lparr>retry_counts := AList.update ch n (retry_counts q)\<rparr>)
          in (None, q1\<lparr>retry_after := AList.update ch (now + retry_delay n nanos) (retry_after q1)\<rparr>))"
  by (simp add: requeue_def retries_def Let_def)

section \<open>Properties\<close>

text \<open>C16.  A queue never grows past its cap, a retry counter stays within the retry budget (so the
  counter never overflows), and every channel in flight has a deadline, whatever operations ran.\<close>

theorem event_queue_bounded:
  assumes "queue_reachable lib q"
  shows "length (entry_or_default ch (queues q)) \<le> 500 \<and>
    (map_of (retry_counts q) ch = Some n \<longrightarrow> 1 \<le> n \<and> n \<le> 10) \<and>
    (ch \<in> in_flight_channels q \<longleftrightarrow> (\<exists>deadline. map_of (in_flight_deadlines q) ch = Some deadline))"
  using queue_invD(6,7,8) [OF queue_reachable_inv [OF assms]]
  by (auto simp: MAX_PENDING_PER_CHANNEL_def MAX_RETRIES_def Suc_le_eq)

text \<open>A flushed batch belongs to a channel that was not in flight, which becomes in flight.  When
  some queue is ready the batch comes from the one whose head waited longest: it holds the first
  fifty events of that queue ordered by creation time, with the channel's cancelled events beside
  them, and the rest of the queue stays.  Only when no queue is ready is a cancelled batch
  dispatched again.\<close>

theorem flush_picks_oldest_ready:
  assumes "queue_reachable lib q" and "flush_next now q = (Some b, q')"
  shows "let q1 = expire_in_flight now q; ch = fb_channel_id b; queue = entry_or_default ch (queues q1) in
    ch \<notin> in_flight_channels q1 \<and> in_flight_channels q' = insert ch (in_flight_channels q1) \<and>
    (if \<exists>ch'. channel_ready now q1 ch' then
       channel_ready now q1 ch \<and>
       (\<forall>ch'. channel_ready now q1 ch' \<longrightarrow>
          qe_received_at (hd queue) \<le> qe_received_at (hd (entry_or_default ch' (queues q1)))) \<and>
       mset (fb_events b) = mset (map batch_of (take 50 queue)) \<and>
       sorted (map (\<lambda>be. ev_created_at (be_event be)) (fb_events b)) \<and>
       fb_cancelled_events b = entry_or_default ch (cancelled_batches q) \<and>
       entry_or_default ch (queues q') = drop 50 queue
     else fb_events b = entry_or_default ch (cancelled_batches q) \<and> fb_cancelled_events b = [])"
proof -
  let ?q1 = "expire_in_flight now q"
  have inv: "queue_inv ?q1" by (rule inv_expire [OF queue_reachable_inv [OF assms(1)]])
  from assms(2) show ?thesis
  proof (cases rule: flush_next_cases)
    case (queued ch)
    note r = oldest_ready_Some [OF inv queued(1)]
    then have "\<exists>ch'. channel_ready now ?q1 ch'" by (auto simp: channel_ready_def)
    with queued r show ?thesis
      by (simp add: flush_queue_simps drained_events channel_ready_def MAX_BATCH_EVENTS_def Let_def)
  next
    case (cancelled ch)
    then have "\<not> (\<exists>ch'. channel_ready now ?q1 ch')"
      using oldest_ready_None [OF inv] by (auto simp: channel_ready_def)
    with cancelled cancelled_ready_Some [OF cancelled(2)] show ?thesis
      by (simp add: flush_cancelled_simps Let_def)
  qed
qed

text \<open>Asking whether there is flushable work and flushing agree: the answer is yes exactly when
  a flush at the same instant returns a batch, and both release the same expired channels.\<close>

theorem flushable_iff_flush_returns:
  assumes "queue_reachable lib q"
  shows "(fst (has_flushable_work now q) \<longleftrightarrow> (\<exists>b. fst (flush_next now q) = Some b)) \<and>
    (\<not> fst (has_flushable_work now q) \<longrightarrow> flush_next now q = (None, snd (has_flushable_work now q)))"
proof -
  let ?q = "expire_in_flight now q"
  have inv: "queue_inv q" and inv': "queue_inv ?q"
    using queue_reachable_inv [OF assms] by (simp_all add: inv_expire)
  have work: "fst (has_flushable_work now q) \<longleftrightarrow> oldest_ready now ?q \<noteq> None \<or> cancelled_ready ?q \<noteq> None"
    using ready_mem [OF inv', of _ now]
    unfolding has_flushable_work_def Let_def fst_conv oldest_ready_None [OF inv'] cancelled_ready_None
    by (auto simp: list_ex_iff)
  have "fst (has_flushable_work now q) \<longleftrightarrow> (\<exists>b. fst (flush_next now q) = Some b)"
    using work flush_next_None [OF inv, of now] by auto
  moreover have "\<not> fst (has_flushable_work now q) \<longrightarrow> flush_next now q = (None, snd (has_flushable_work now q))"
    using work by (auto simp: flush_next_def has_flushable_work_def Let_def)
  ultimately show ?thesis by blast
qed

text \<open>No held event is wedged: from some instant on a flush returns a batch as long as some
  channel has a queued event, a cancelled batch, or a withheld event under a prompt that never
  completes.\<close>

theorem held_events_dispatchable:
  assumes "queue_reachable lib q"
    and "entry_or_default ch (queues q) \<noteq> [] \<or> ch \<in> fst ` set (cancelled_batches q) \<or>
      (ch \<in> in_flight_channels q \<and> entry_or_default ch (withheld_native_steer q) \<noteq> [])"
  shows "\<exists>t. \<forall>now \<ge> t. \<exists>b. fst (flush_next now q) = Some b"
  using late_flush [OF queue_reachable_inv [OF assms(1)] _ assms(2)] by (meson not_None_eq)

text \<open>A failed batch is retried at most ten times.  Until then it goes to the front of its queue,
  in order, and the channel waits the capped exponential delay for its attempt, shortened by the
  jitter to between eighty and ninety per cent; after that the batch is handed back to the caller
  and the channel's counter and throttle are cleared.\<close>

theorem requeue_backoff:
  assumes "queue_reachable lib q" and "nanos < 10 ^ 9"
  shows "case requeue now nanos b q of
      (Some d, q') \<Rightarrow> d = b \<and> retries q (fb_channel_id b) = 10 \<and> retries q' (fb_channel_id b) = 0 \<and>
        map_of (retry_after q') (fb_channel_id b) = None \<and> queues q' = queues q
    | (None, q') \<Rightarrow> (\<exists>n delay. n = retries q (fb_channel_id b) + 1 \<and> n \<le> 10 \<and> retries q' (fb_channel_id b) = n \<and>
        map_of (retry_after q') (fb_channel_id b) = Some (now + delay) \<and>
        8 * secs (min (5 * 2 ^ min (n - 1) 6) 300) \<le> 10 * delay \<and>
        10 * delay \<le> 9 * secs (min (5 * 2 ^ min (n - 1) 6) 300) \<and>
        entry_or_default (fb_channel_id b) (queues q') =
          take 500 (map (queued_of (fb_channel_id b)) (fb_events b) @ entry_or_default (fb_channel_id b) (queues q)))"
proof (cases "retries q (fb_channel_id b) + 1 > MAX_RETRIES")
  case True
  have "retries q (fb_channel_id b) \<le> MAX_RETRIES"
    using queue_invD(8) [OF queue_reachable_inv [OF assms(1)]] by (auto simp: retries_def split: option.splits)
  with True show ?thesis by (simp add: requeue_eq Let_def MAX_RETRIES_def retries_def)
next
  case False
  then show ?thesis
    using retry_delay_bounds [OF assms(2), of "retries q (fb_channel_id b) + 1"]
    by (simp add: requeue_eq Let_def MAX_RETRIES_def MAX_PENDING_PER_CHANNEL_def capped_secs_def
        BASE_RETRY_DELAY_SECS_def MAX_RETRY_DELAY_SECS_def retries_def)
qed

section \<open>A concrete queue\<close>

definition ex_msg :: event where
  "ex_msg = \<lparr>ev_id = [1], ev_pubkey = [2], ev_created_at = 3, ev_kind = 9, ev_tags = [], ev_content = ''hi''\<rparr>"

definition ex_queued :: queued_event where
  "ex_queued = \<lparr>qe_channel_id = 5, qe_event = ex_msg, qe_received_at = 10, qe_prompt_tag = ''all''\<rparr>"

definition ex_waiting :: event_queue where
  "ex_waiting = snd (push ex_queued (queue_new Queue))"

definition ex_batch :: flush_batch where
  "ex_batch = \<lparr>fb_channel_id = 5, fb_events = [batch_of ex_queued], fb_cancelled_events = [], fb_cancel_reason = None\<rparr>"

lemma ex_waiting_reachable: "queue_reachable lib ex_waiting"
  unfolding ex_waiting_def by (intro queue_next [OF queue_init step_push])

lemma ex_waiting_simps:
  "queues ex_waiting = [(5, [ex_queued])]" "in_flight_channels ex_waiting = {}" "in_flight_deadlines ex_waiting = []"
  "retry_after ex_waiting = []" "retry_counts ex_waiting = []" "cancelled_batches ex_waiting = []"
  "cancel_reasons ex_waiting = []" "withheld_native_steer ex_waiting = []"
  by (simp_all add: ex_waiting_def push_def queue_new_def ex_queued_def Let_def MAX_PENDING_PER_CHANNEL_def)

lemma ex_flush: "flush_next 20 ex_waiting = (Some ex_batch, snd (flush_next 20 ex_waiting))"
  by (simp add: flush_next_def expire_in_flight_def ex_waiting_simps oldest_ready_def queue_ready_def throttle_ok_def
      flush_queue_def drain_queue_def Let_def split_beta entry_or_default_def ex_batch_def MAX_BATCH_EVENTS_def)

theorem event_queue_bounded_witness:
  "length (entry_or_default 5 (queues ex_waiting)) \<le> 500 \<and> 5 \<notin> in_flight_channels ex_waiting"
  using event_queue_bounded [OF ex_waiting_reachable, of 5 1] by (simp add: ex_waiting_simps)

theorem flush_picks_oldest_ready_witness:
  "in_flight_channels (snd (flush_next 20 ex_waiting)) = {5} \<and>
   entry_or_default 5 (queues (snd (flush_next 20 ex_waiting))) = []"
proof -
  have q1: "expire_in_flight 20 ex_waiting = ex_waiting" by (simp add: expire_in_flight_def ex_waiting_simps)
  have entry: "entry_or_default 5 (queues ex_waiting) = [ex_queued]"
    by (simp add: entry_or_default_def ex_waiting_simps)
  have "Ex (channel_ready 20 ex_waiting)"
    by (intro exI [of _ 5]) (simp add: channel_ready_def entry throttle_ok_def ex_waiting_simps(2-))
  with flush_picks_oldest_ready [OF ex_waiting_reachable ex_flush] show ?thesis
    by (simp add: Let_def q1 entry) (simp add: ex_batch_def ex_waiting_simps(2-) entry)
qed

theorem flushable_iff_flush_returns_witness: "fst (has_flushable_work 20 ex_waiting)"
  using flushable_iff_flush_returns [OF ex_waiting_reachable, of 20] by (metis ex_flush fst_conv)

theorem held_events_dispatchable_witness: "\<exists>t. \<forall>now \<ge> t. \<exists>b. fst (flush_next now ex_waiting) = Some b"
  by (rule held_events_dispatchable [OF ex_waiting_reachable, of 5])
     (simp add: entry_or_default_def ex_waiting_simps)

theorem requeue_backoff_witness:
  "\<exists>delay. map_of (retry_after (snd (requeue 20 7 ex_batch ex_waiting))) 5 = Some (20 + delay) \<and>
     4 * secs 1 \<le> delay \<and> 10 * delay \<le> 45 * secs 1"
proof -
  have r: "fst (requeue 20 7 ex_batch ex_waiting) = None"
    by (simp add: requeue_eq Let_def retries_def ex_waiting_simps MAX_RETRIES_def)
  have "(7 :: nat) < 10 ^ 9" by simp
  from requeue_backoff [OF ex_waiting_reachable this, of ex_batch 20] r show ?thesis
    by (auto simp: split_beta retries_def ex_waiting_simps ex_batch_def secs_def)
qed

end
