(* ===== verification/Agent_Dispatch.thy ===== *)
theory Agent_Dispatch
  imports Event_Queue_Safety
begin

text \<open>
  Dispatch of queued batches to idle agents and what becomes of a batch when its prompt returns:
  \<open>crates/punks-acp/src/lib.rs\<close> (\<open>dispatch_pending\<close>, \<open>handle_prompt_result\<close>,
  \<open>recover_panicked_agent\<close>, the steer acknowledgement arm of the main loop) and the slots of
  \<open>AgentPool\<close> in \<open>pool.rs\<close>.

  An agent is its slot index and the channels it holds a session for.  Each clock reading of
  the dispatch loop is an element of the sequence \<open>clk\<close>.  Failure notices, observer frames and the
  respawn of processes are outside the model; the value a handler returns says which notice it posts.
\<close>

section \<open>Agent slots\<close>

record owned_agent =
  oa_index :: nat
  oa_sessions :: "channel_id list"

type_synonym agent_slots = "owned_agent option list"

fun position :: "('a \<Rightarrow> bool) \<Rightarrow> 'a list \<Rightarrow> nat option" where
  "position P [] = None"
| "position P (x # xs) = (if P x then Some 0 else map_option Suc (position P xs))"

definition holds_session :: "channel_id \<Rightarrow> owned_agent option \<Rightarrow> bool" where
  "holds_session ch slot = (case slot of Some a \<Rightarrow> ch \<in> set (oa_sessions a) | None \<Rightarrow> False)"

definition take_slot :: "nat \<Rightarrow> agent_slots \<Rightarrow> owned_agent option \<times> agent_slots" where
  "take_slot i slots = (slots ! i, slots[i := None])"

definition try_claim :: "channel_id option \<Rightarrow> agent_slots \<Rightarrow> owned_agent option \<times> agent_slots" where
  "try_claim channel slots =
     (let preferred = (case channel of Some ch \<Rightarrow> position (holds_session ch) slots | None \<Rightarrow> None)
      in case preferred of
           Some i \<Rightarrow> take_slot i slots
         | None \<Rightarrow> (case position (\<lambda>slot. slot \<noteq> None) slots of
             Some i \<Rightarrow> take_slot i slots
           | None \<Rightarrow> (None, slots)))"

text \<open>Returning an agent indexes the slot vector: out of range the source panics, here \<open>None\<close>.\<close>

definition return_agent :: "owned_agent \<Rightarrow> agent_slots \<Rightarrow> agent_slots option" where
  "return_agent a slots =
     (if oa_index a < length slots then Some (slots[oa_index a := Some a]) else None)"

definition any_idle :: "agent_slots \<Rightarrow> bool" where
  "any_idle slots = list_ex (\<lambda>slot. slot \<noteq> None) slots"

definition has_session_for :: "channel_id \<Rightarrow> agent_slots \<Rightarrow> bool" where
  "has_session_for ch slots = list_ex (holds_session ch) slots"

definition idle_count :: "agent_slots \<Rightarrow> nat" where
  "idle_count slots = length (filter (\<lambda>slot. slot \<noteq> None) slots)"

lemma position_Some: "position P xs = Some i \<Longrightarrow> i < length xs \<and> P (xs ! i)"
  by (induction xs arbitrary: i) (auto split: if_splits)

lemma position_None: "position P xs = None \<longleftrightarrow> (\<forall>x \<in> set xs. \<not> P x)"
  by (induction xs) auto

lemma idle_count_take:
  assumes "i < length slots" and "slots ! i \<noteq> None"
  shows "Suc (idle_count (slots[i := None])) = idle_count slots"
proof -
  let ?P = "\<lambda>slot :: owned_agent option. slot \<noteq> None"
  have "filter ?P slots = filter ?P (take i slots) @ slots ! i # filter ?P (drop (Suc i) slots)"
    by (subst id_take_nth_drop [OF assms(1)]) (use assms(2) in simp)
  moreover have "filter ?P (slots[i := None]) = filter ?P (take i slots) @ filter ?P (drop (Suc i) slots)"
    by (simp add: upd_conv_take_nth_drop [OF assms(1)])
  ultimately show ?thesis by (simp add: idle_count_def)
qed

lemma try_claim_Some:
  assumes "try_claim channel slots = (Some a, slots')"
  obtains i where "i < length slots" "slots ! i = Some a" "slots' = slots[i := None]"
  using assms by (auto simp: try_claim_def Let_def take_slot_def dest!: position_Some split: option.splits)

lemma try_claim_None: "try_claim channel slots = (None, slots') \<Longrightarrow> slots' = slots \<and> \<not> any_idle slots"
  by (auto simp: try_claim_def Let_def take_slot_def holds_session_def any_idle_def list_ex_iff position_None
      dest!: position_Some split: option.splits)

lemma try_claim_idle: "try_claim channel slots = (Some a, slots') \<Longrightarrow> idle_count slots = Suc (idle_count slots')"
  using idle_count_take by (metis option.simps(3) try_claim_Some)

section \<open>The dispatch loop\<close>

text \<open>Each dispatched batch with the agent that runs it, the slots left, and the queue.  The loop ends
  because every turn takes an agent out of its slot.\<close>

function dispatch_pending ::
    "(nat \<Rightarrow> instant) \<Rightarrow> nat \<Rightarrow> agent_slots \<Rightarrow> event_queue \<Rightarrow>
     (owned_agent \<times> flush_batch) list \<times> agent_slots \<times> event_queue" where
  "dispatch_pending clk i slots q = (case flush_next (clk i) q of
     (None, q1) \<Rightarrow> ([], slots, q1)
   | (Some batch, q1) \<Rightarrow> (case try_claim (Some (fb_channel_id batch)) slots of
       (None, slots1) \<Rightarrow>
         ([], slots1, mark_complete (clk (Suc i)) (fb_channel_id batch) (requeue_preserve_timestamps batch q1))
     | (Some a, slots1) \<Rightarrow>
         (case dispatch_pending clk (Suc i) slots1 q1 of
            (dispatched, slots2, q2) \<Rightarrow> ((a, batch) # dispatched, slots2, q2))))"
  by pat_completeness auto

termination
  by (relation "measure (\<lambda>(clk, i, slots, q). idle_count slots)") (auto dest: try_claim_idle [OF sym])

declare dispatch_pending.simps [simp del]

text \<open>The copy of a batch kept for a panicking task.\<close>

definition recoverable_batch :: "dedup_mode \<Rightarrow> flush_batch \<Rightarrow> flush_batch option" where
  "recoverable_batch mode batch = (case mode of Queue \<Rightarrow> Some batch | Drop \<Rightarrow> None)"

section \<open>When a prompt returns\<close>

datatype timeout_kind = IdleTimeout | HardTimeout bool

datatype acp_error = AgentError int string | OtherAcpError

datatype prompt_outcome =
    PromptOk | PromptError acp_error | AgentExited | PromptTimeout timeout_kind | Cancelled | CancelDrainTimeout nat

definition contains_str :: "string \<Rightarrow> string \<Rightarrow> bool" where
  "contains_str s p = list_ex (\<lambda>i. starts_with (drop i s) p) [0 ..< Suc (length s)]"

fun is_auth_error :: "acp_error \<Rightarrow> bool" where
  "is_auth_error (AgentError code message) =
     (contains_str message ''Re-authenticate'' \<or> contains_str message ''API Error: 401'')"
| "is_auth_error OtherAcpError = False"

datatype batch_fate =
    NoBatch | KeptAsCancelled | Requeued | DeadLettered flush_batch | AuthFailed flush_batch | ChannelRemoved

text \<open>The queue's part of \<open>handle_prompt_result\<close>: the batch a failed or cancelled prompt hands back is
  settled first, then the channel is marked complete (a heartbeat prompt has no channel).\<close>

definition settle_batch ::
    "instant \<Rightarrow> nat \<Rightarrow> channel_id set \<Rightarrow> prompt_outcome \<Rightarrow> flush_batch option \<Rightarrow> event_queue \<Rightarrow> batch_fate \<times> event_queue" where
  "settle_batch now nanos removed outcome result_batch q = (case result_batch of
     None \<Rightarrow> (NoBatch, q)
   | Some batch \<Rightarrow>
       if fb_channel_id batch \<in> removed then (ChannelRemoved, q)
       else (case outcome of
          Cancelled \<Rightarrow>
            (KeptAsCancelled,
             requeue_as_cancelled batch (case fb_cancel_reason batch of Some r \<Rightarrow> r | None \<Rightarrow> Steer) q)
        | CancelDrainTimeout _ \<Rightarrow>
            (KeptAsCancelled,
             requeue_as_cancelled batch (case fb_cancel_reason batch of Some r \<Rightarrow> r | None \<Rightarrow> Steer) q)
        | _ \<Rightarrow>
            if outcome = PromptTimeout (HardTimeout False) then (DeadLettered batch, q)
            else if (case outcome of PromptError err \<Rightarrow> is_auth_error err | _ \<Rightarrow> False) then (AuthFailed batch, q)
            else (case requeue now nanos batch q of
               (Some dead, q1) \<Rightarrow> (DeadLettered dead, q1)
             | (None, q1) \<Rightarrow> (Requeued, q1))))"

definition handle_prompt_result ::
    "instant \<Rightarrow> nat \<Rightarrow> instant \<Rightarrow> channel_id set \<Rightarrow> channel_id option \<Rightarrow> prompt_outcome \<Rightarrow> flush_batch option \<Rightarrow>
     event_queue \<Rightarrow> batch_fate \<times> event_queue" where
  "handle_prompt_result now nanos now' removed source outcome result_batch q =
     (case settle_batch now nanos removed outcome result_batch q of
        (fate, q1) \<Rightarrow> (fate, case source of Some ch \<Rightarrow> mark_complete now' ch q1 | None \<Rightarrow> q1))"

definition recover_panicked_agent ::
    "instant \<Rightarrow> nat \<Rightarrow> instant \<Rightarrow> channel_id set \<Rightarrow> channel_id option \<Rightarrow> flush_batch option \<Rightarrow> event_queue \<Rightarrow> event_queue" where
  "recover_panicked_agent now nanos now' removed source recoverable q =
     (let q1 = (case (recoverable, source) of
            (Some batch, Some ch) \<Rightarrow> if ch \<notin> removed then snd (requeue now nanos batch q) else q
          | _ \<Rightarrow> q)
      in case source of Some ch \<Rightarrow> mark_complete now' ch q1 | None \<Rightarrow> q1)"

section \<open>Steer acknowledgements\<close>

datatype steer_error = SteerAgentError int | SteerTransport | ExpectedRunIdMissing | OutcomeRejected | PromptCompleted

datatype steer_ack = SteerSuccess | SteerErr steer_error | PromptCompletedNeutral | WatcherDropped

text \<open>Whether the withheld event is released, dropped, and whether the cancelling fallback is signalled.\<close>

fun ack_actions :: "steer_ack \<Rightarrow> bool \<times> bool \<times> bool" where
  "ack_actions SteerSuccess = (False, True, False)"
| "ack_actions (SteerErr (SteerAgentError code)) =
     (if code = - 32601 then (True, False, True) else (True, False, False))"
| "ack_actions (SteerErr _) = (True, False, True)"
| "ack_actions PromptCompletedNeutral = (True, False, False)"
| "ack_actions WatcherDropped = (True, False, False)"

definition handle_steer_ack ::
    "nostr_lib \<Rightarrow> instant \<Rightarrow> nat \<Rightarrow> channel_id \<Rightarrow> string \<Rightarrow> steer_ack \<Rightarrow> event_queue \<Rightarrow> bool \<times> event_queue" where
  "handle_steer_ack lib now max_turn_secs ch eid ack q =
     (let (release, drop_it, signal) = ack_actions ack;
          q1 = (if ack = SteerSuccess then extend_in_flight_deadline now ch max_turn_secs q else q);
          q2 = (if drop_it then remove_event lib ch eid q1 else q1);
          q3 = (if release then release_native_steer lib ch eid q2 else q2)
      in (signal, q3))"

end
