(* ===== verification/Agent_Safety.thy ===== *)
theory Agent_Safety
  imports Agent_Intake Agent_Dispatch
begin

text \<open>
  Properties of the agent harness as a whole: who can cause a turn, which subscription rule wins,
  and what dispatch and steering do to the events a channel holds.
\<close>

section \<open>Subscription rules\<close>

definition rule_verdict :: "nostr_lib \<Rightarrow> evaluator \<Rightarrow> event \<Rightarrow> channel_id \<Rightarrow> subscription_rule \<Rightarrow> bool option" where
  "rule_verdict lib eval e ch rule = (case sr_filter rule of
     None \<Rightarrow> Some True
   | Some expr \<Rightarrow>
       if sr_consecutive_timeouts rule \<ge> 5 then None
       else (case evaluate_filter eval expr (filter_context_from_event lib e ch) of Inr b \<Rightarrow> Some b | Inl _ \<Rightarrow> None))"

definition first_deciding ::
    "nostr_lib \<Rightarrow> evaluator \<Rightarrow> event \<Rightarrow> channel_id \<Rightarrow> string \<Rightarrow> subscription_rule list \<Rightarrow> nat \<Rightarrow> subscription_rule \<Rightarrow> bool" where
  "first_deciding lib eval e ch agent rules n r \<longleftrightarrow>
     (\<exists>pre post. rules = pre @ r # post \<and> n = length pre \<and> rule_applies lib e ch agent r \<and>
        rule_verdict lib eval e ch r \<noteq> Some False \<and>
        (\<forall>r' \<in> set pre. rule_applies lib e ch agent r' \<longrightarrow> rule_verdict lib eval e ch r' = Some False))"

lemma first_deciding_Nil [simp]: "\<not> first_deciding lib eval e ch agent [] n r"
  by (simp add: first_deciding_def)

lemma first_deciding_Cons:
  "first_deciding lib eval e ch agent (x # rules) n r \<longleftrightarrow>
     (if rule_applies lib e ch agent x \<and> rule_verdict lib eval e ch x \<noteq> Some False then n = 0 \<and> r = x
      else \<exists>m. n = Suc m \<and> first_deciding lib eval e ch agent rules m r)"
  unfolding first_deciding_def Cons_eq_append_conv by (auto 4 4)

lemma match_rules_Some:
  "fst (match_rules lib eval e ch agent k rules) = Some (i, t) \<longleftrightarrow>
     (\<exists>n r. i = k + n \<and> first_deciding lib eval e ch agent rules n r \<and>
        rule_verdict lib eval e ch r = Some True \<and> t = rule_prompt_tag r)"
proof (induction rules arbitrary: k)
  case (Cons x rules)
  let ?tail = "\<exists>n r. i = Suc k + n \<and> first_deciding lib eval e ch agent rules n r \<and>
    rule_verdict lib eval e ch r = Some True \<and> t = rule_prompt_tag r"
  have spec: "(\<exists>n r. i = k + n \<and> first_deciding lib eval e ch agent (x # rules) n r \<and>
      rule_verdict lib eval e ch r = Some True \<and> t = rule_prompt_tag r) \<longleftrightarrow>
    (if rule_applies lib e ch agent x \<and> rule_verdict lib eval e ch x \<noteq> Some False
     then i = k \<and> rule_verdict lib eval e ch x = Some True \<and> t = rule_prompt_tag x else ?tail)"
    by (auto simp: first_deciding_Cons)
  show ?case
  proof (cases "sr_filter x")
    case None
    then show ?thesis unfolding spec using Cons.IH [of "Suc k"] by (auto simp: rule_verdict_def)
  next
    case (Some expr)
    then show ?thesis unfolding spec using Cons.IH [of "Suc k"]
      by (auto simp: rule_verdict_def MAX_CONSECUTIVE_TIMEOUTS_def split: sum.splits bool.splits filter_error.splits)
  qed
qed simp

text \<open>The first rule that applies to an event decides, and it decides for the event only when it
  has no expression or its expression evaluates to true.  A rule whose expression fails, times out or
  is disabled blocks the event altogether: no later rule is consulted.\<close>

theorem match_event_first_rule:
  "fst (match_event lib eval e ch rules agent) = Some (i, t) \<longleftrightarrow>
     (\<exists>pre r post. rules = pre @ r # post \<and> i = length pre \<and> rule_applies lib e ch agent r \<and>
        rule_verdict lib eval e ch r = Some True \<and> t = rule_prompt_tag r \<and>
        list_all (\<lambda>r'. if rule_applies lib e ch agent r' then rule_verdict lib eval e ch r' = Some False else True) pre)"
    (is "_ \<longleftrightarrow> ?first")
proof -
  have "(\<exists>n r. i = n \<and> first_deciding lib eval e ch agent rules n r \<and>
      rule_verdict lib eval e ch r = Some True \<and> t = rule_prompt_tag r) \<longleftrightarrow> ?first" (is "?l \<longleftrightarrow> _")
  proof
    assume ?l
    then show ?first by (fastforce simp: first_deciding_def list_all_iff)
  next
    assume ?first
    then obtain pre r post where "rules = pre @ r # post" "i = length pre" "rule_applies lib e ch agent r"
      "rule_verdict lib eval e ch r = Some True" "t = rule_prompt_tag r"
      "\<forall>r' \<in> set pre. rule_applies lib e ch agent r' \<longrightarrow> rule_verdict lib eval e ch r' = Some False"
      by (auto simp: list_all_iff)
    then show ?l by (intro exI [of _ i] exI [of _ r]) (auto simp: first_deciding_def)
  qed
  then show ?thesis by (simp add: match_event_def match_rules_Some)
qed

section \<open>Who can cause a turn\<close>

text \<open>The harness over time: it starts with an empty sibling cache; each event is taken in under the
  answers the relay gives at that moment, kept most recent first; the queue may change in between.\<close>

inductive intake_run :: "agent_config \<Rightarrow> string option \<Rightarrow> agent_env list \<Rightarrow> harness \<Rightarrow> bool" for cfg owner where
  run_start: "h_owner h = owner_cache_new owner \<Longrightarrow> intake_run cfg owner [] h"
| run_take: "intake_run cfg owner envs h \<Longrightarrow> intake_run cfg owner (env # envs) (snd (take_event env cfg ok now ch e h))"
| run_queue: "intake_run cfg owner envs h \<Longrightarrow> intake_run cfg owner envs (h\<lparr>h_queue := q\<rparr>)"

text \<open>Some answer of the relay showed the author to be a sibling: its profile carried an attestation by
  the owner that verified for the author's key.\<close>

definition attested :: "agent_env list \<Rightarrow> string option \<Rightarrow> string \<Rightarrow> bool" where
  "attested envs owner author \<longleftrightarrow>
     (\<exists>env \<in> set envs. \<exists>my_owner. owner = Some my_owner \<and> check_sibling_via_profile env author my_owner)"

definition siblings_sound :: "string option \<Rightarrow> agent_env list \<Rightarrow> owner_cache \<Rightarrow> bool" where
  "siblings_sound owner envs oc \<longleftrightarrow>
     oc_pubkey oc = owner \<and> (\<forall>a. map_of (oc_siblings oc) a = Some True \<longrightarrow> attested envs owner a)"

lemma cache_sibling_simps [simp]: "oc_pubkey (cache_sibling a b oc) = oc_pubkey oc"
  by (simp add: cache_sibling_def Let_def)

lemma cache_sibling_lookup:
  "map_of (oc_siblings (cache_sibling a b oc)) a' = Some v \<Longrightarrow>
     (if a' = a then v = b else map_of (oc_siblings oc) a' = Some v)"
  by (auto simp: cache_sibling_def Let_def split: if_splits)

lemma attested_mono: "attested envs owner a \<Longrightarrow> attested (env # envs) owner a"
  by (auto simp: attested_def)

lemma is_owner_or_sibling_sound:
  assumes "siblings_sound owner envs oc"
  shows "siblings_sound owner (env # envs) (snd (is_owner_or_sibling env a oc))"
    and "fst (is_owner_or_sibling env a oc) \<Longrightarrow> owner = Some a \<or> attested (env # envs) owner a"
proof -
  note s = assms [unfolded siblings_sound_def]
  show "fst (is_owner_or_sibling env a oc) \<Longrightarrow> owner = Some a \<or> attested (env # envs) owner a"
    using s by (auto simp: is_owner_or_sibling_def Let_def attested_def split: option.splits if_splits)
  have new: "attested (env # envs) owner a" if "owner = Some my_owner" "check_sibling_via_profile env a my_owner" for my_owner
    using that by (auto simp: attested_def)
  show "siblings_sound owner (env # envs) (snd (is_owner_or_sibling env a oc))"
    using s new attested_mono
    by (auto simp: siblings_sound_def is_owner_or_sibling_def Let_def dest!: cache_sibling_lookup
        split: option.splits if_splits)
qed

lemma author_allowed_sound:
  assumes "siblings_sound owner envs oc"
  shows "siblings_sound owner (env # envs) (snd (author_allowed env rt al a dm oc))"
    and "fst (author_allowed env rt al a dm oc) \<Longrightarrow>
      rt \<noteq> Nobody \<and> (owner = Some a \<or> attested (env # envs) owner a \<or> (\<not> dm \<and> (rt = Anyone \<or> (rt = Allowlist \<and> a \<in> set al))))"
proof -
  have old: "siblings_sound owner (env # envs) oc"
    using assms attested_mono by (auto simp: siblings_sound_def)
  note is_owner_or_sibling_sound [OF assms, of env a]
  then show "siblings_sound owner (env # envs) (snd (author_allowed env rt al a dm oc))"
    using old by (auto simp: author_allowed_def split: respond_to.splits)
  show "fst (author_allowed env rt al a dm oc) \<Longrightarrow>
      rt \<noteq> Nobody \<and> (owner = Some a \<or> attested (env # envs) owner a \<or> (\<not> dm \<and> (rt = Anyone \<or> (rt = Allowlist \<and> a \<in> set al))))"
    using is_owner_or_sibling_sound(2) [OF assms, of env a]
    by (auto simp: author_allowed_def split: respond_to.splits if_splits)
qed

lemma enqueue_owner [simp]: "h_owner (snd (enqueue env cfg ok now ch e t h)) = h_owner h"
  by (auto simp: enqueue_def Let_def split_beta split: option.splits)

lemma take_event_owner:
  "h_owner (snd (take_event env cfg ok now ch e h)) = h_owner h \<or>
   h_owner (snd (take_event env cfg ok now ch e h)) =
     snd (author_allowed env (ac_respond_to cfg) (ac_allowlist cfg) (pubkey_to_hex (ae_nostr env) (ev_pubkey e))
       (fst (is_dm_channel env ch (h_channels h))) (h_owner h))"
  by (auto simp: take_event_def Let_def split_beta split: option.splits prod.splits)

lemma intake_run_sound: "intake_run cfg owner envs h \<Longrightarrow> siblings_sound owner envs (h_owner h)"
proof (induction rule: intake_run.induct)
  case (run_take envs h env ok now ch e)
  have "siblings_sound owner (env # envs) (h_owner h)"
    using run_take.IH attested_mono by (auto simp: siblings_sound_def)
  with author_allowed_sound(1) [OF run_take.IH] take_event_owner [of env cfg ok now ch e h] show ?case by metis
qed (simp_all add: siblings_sound_def owner_cache_new_def)

lemma take_event_Accepted:
  assumes "take_event env cfg ok now ch e h = (Accepted s, h')"
  shows "fst (author_allowed env (ac_respond_to cfg) (ac_allowlist cfg) (pubkey_to_hex (ae_nostr env) (ev_pubkey e))
       (fst (is_dm_channel env ch (h_channels h))) (h_owner h))"
    and "ac_ignore_self cfg \<longrightarrow> pubkey_to_hex (ae_nostr env) (ev_pubkey e) \<noteq> ac_pubkey_hex cfg"
    and "\<exists>i t. fst (match_event (ae_nostr env) (ae_eval env) e ch (h_rules h) (ac_pubkey_hex cfg)) = Some (i, t)"
  using assms by (auto simp: take_event_def Let_def split_beta split: if_splits option.splits prod.splits)

lemma take_event_not_Accepted:
  "take_event env cfg ok now ch e h = (r, h') \<Longrightarrow> \<nexists>s. r = Accepted s \<Longrightarrow> h_queue h' = h_queue h"
  by (auto simp: take_event_def enqueue_def push_def Let_def split_beta split: if_splits option.splits prod.splits)

text \<open>C6.  An event reaches the queue only when its author may prompt the agent: never in the mode that
  answers nobody, never from the agent itself when it ignores itself, in a direct message (or a channel
  whose type cannot be resolved) only from the owner or from a key for which some profile lookup of
  this process returned a verified attestation by the same owner, and elsewhere also from anyone or
  from the allowlist in the mode that says so.  Any other event leaves the queue as it was.\<close>

theorem turn_requires_authorized_author:
  assumes "intake_run cfg owner envs h" and "take_event env cfg ok now ch e h = (r, h')"
  shows "if \<exists>s. r = Accepted s then
      (let author = pubkey_to_hex (ae_nostr env) (ev_pubkey e) in
       ac_respond_to cfg \<noteq> Nobody \<and> (author = ac_pubkey_hex cfg \<longrightarrow> \<not> ac_ignore_self cfg) \<and>
       (owner = Some author \<or> attested (env # envs) owner author \<or>
        (\<not> fst (is_dm_channel env ch (h_channels h)) \<and>
         (ac_respond_to cfg = Anyone \<or> (ac_respond_to cfg = Allowlist \<and> author \<in> set (ac_allowlist cfg))))))
    else h_queue h' = h_queue h"
proof (cases "\<exists>s. r = Accepted s")
  case True
  then obtain s where "take_event env cfg ok now ch e h = (Accepted s, h')" using assms(2) by blast
  from take_event_Accepted [OF this] author_allowed_sound(2) [OF intake_run_sound [OF assms(1)]] True show ?thesis
    by (auto simp: Let_def)
qed (use take_event_not_Accepted [OF assms(2)] in simp)

text \<open>A sibling whose profile cannot be fetched once is refused from then on, also when its
  attestation verifies later: the failed lookup is remembered like a negative answer.\<close>

theorem sibling_lookup_failure_sticks:
  assumes "check_sibling_via_profile env author my_owner" and "author \<noteq> my_owner"
  shows "fst (is_owner_or_sibling env author (owner_cache_new (Some my_owner))) \<and>
    \<not> fst (is_owner_or_sibling env author
      (snd (is_owner_or_sibling (env\<lparr>ae_profile_tags := \<lambda>_. None\<rparr>) author (owner_cache_new (Some my_owner)))))"
proof -
  have "\<not> check_sibling_via_profile (env\<lparr>ae_profile_tags := \<lambda>_. None\<rparr>) author my_owner"
    by (simp add: check_sibling_via_profile_def split: sum.splits)
  with assms show ?thesis
    by (simp add: is_owner_or_sibling_def owner_cache_new_def cache_sibling_def Let_def)
qed

section \<open>Dispatch keeps what it holds\<close>

definition dispatched_events :: "(owned_agent \<times> flush_batch) list \<Rightarrow> channel_id \<Rightarrow> batch_event multiset" where
  "dispatched_events ds ch =
     sum_list (map (\<lambda>(a, b). if fb_channel_id b = ch then mset (fb_events b) + mset (fb_cancelled_events b) else {#}) ds)"

lemma dispatched_events_simps [simp]:
  "dispatched_events [] ch = {#}"
  "dispatched_events ((a, b) # ds) ch =
     (if fb_channel_id b = ch then mset (fb_events b) + mset (fb_cancelled_events b) else {#}) + dispatched_events ds ch"
  by (simp_all add: dispatched_events_def)

lemma held_mark_complete [simp]: "held (mark_complete now ch q) ch' = held q ch'"
  by (auto simp: held_def mark_complete_def Let_def split: option.splits)

lemma cancelled_mark_complete [simp]: "cancelled_batches (mark_complete now ch q) = cancelled_batches q"
  by (auto simp: mark_complete_def Let_def split: option.splits)

lemma held_restore_front:
  assumes "length es + size (held q ch) \<le> MAX_PENDING_PER_CHANNEL"
  shows "held (restore_front ch es q) ch' = held q ch' + (if ch' = ch then mset (map batch_of es) else {#})"
  using assms by (auto simp: held_def)

lemma held_requeue_preserve:
  assumes "length (fb_events b) + size (held q (fb_channel_id b)) \<le> MAX_PENDING_PER_CHANNEL"
  shows "held (requeue_preserve_timestamps b q) ch =
    held q ch + (if fb_channel_id b = ch then mset (fb_events b) else {#})"
  using held_restore_front [of "map (queued_of (fb_channel_id b)) (fb_events b)" q "fb_channel_id b" ch] assms
  by (auto simp: requeue_preserve_timestamps_def comp_def simp flip: mset_map)

lemma flush_cancelled_batches:
  assumes "flush_next now q = (Some b, q')" and "cancelled_batches q = []"
  shows "cancelled_batches q' = [] \<and> fb_cancelled_events b = []"
  using assms(1)
proof (cases rule: flush_next_cases)
  case (queued ch)
  with assms(2) show ?thesis by (simp add: flush_queue_simps)
next
  case (cancelled ch)
  with assms(2) show ?thesis by (simp add: cancelled_ready_def)
qed

lemma flush_next_Nothing: "flush_next now q = (None, q1) \<Longrightarrow> q1 = expire_in_flight now q"
  by (auto simp: flush_next_def Let_def apfst_def map_prod_def split_beta split: option.splits)

lemma dispatch_conserves:
  assumes "dispatch_pending clk i slots q = (ds, slots', q')"
    and "\<And>ch. size (held q ch) \<le> MAX_PENDING_PER_CHANNEL"
    and "cancelled_batches q = [] \<or> any_idle slots'"
  shows "held q ch = held q' ch + dispatched_events ds ch"
  using assms
proof (induction clk i slots q arbitrary: ds slots' q' rule: dispatch_pending.induct)
  case (1 clk i slots q)
  have expire: "held (expire_in_flight (clk i) q) c = held q c" for c
    by (rule held_expire) (rule "1.prems"(2))
  obtain mb q1 where f: "flush_next (clk i) q = (mb, q1)" by fastforce
  show ?case
  proof (cases mb)
    case None
    with f have "q1 = expire_in_flight (clk i) q" by (simp add: flush_next_Nothing)
    with "1.prems"(1) f None expire show ?thesis by (simp add: dispatch_pending.simps [of clk i])
  next
    case (Some b)
    note flush = f [unfolded Some]
    have h: "held q c = held q1 c +
        (if fb_channel_id b = c then mset (fb_events b) + mset (fb_cancelled_events b) else {#})" for c
      using held_flush [OF flush, of c] expire [of c] by simp
    obtain ma slots1 where cl: "try_claim (Some (fb_channel_id b)) slots = (ma, slots1)" by fastforce
    show ?thesis
    proof (cases ma)
      case None
      with cl have idle: "slots1 = slots" "\<not> any_idle slots" using try_claim_None by blast+
      with "1.prems"(1) flush cl None have r: "ds = []" "slots' = slots"
          "q' = mark_complete (clk (Suc i)) (fb_channel_id b) (requeue_preserve_timestamps b q1)"
        by (simp_all add: dispatch_pending.simps [of clk i])
      with "1.prems"(3) idle have c: "cancelled_batches q = []" by simp
      have "size (held q (fb_channel_id b)) \<le> MAX_PENDING_PER_CHANNEL" by (rule "1.prems"(2))
      then have "length (fb_events b) + size (held q1 (fb_channel_id b)) \<le> MAX_PENDING_PER_CHANNEL"
        using h [of "fb_channel_id b"] by simp
      with r h flush_cancelled_batches [OF flush c] show ?thesis by (simp add: held_requeue_preserve)
    next
      case (Some a)
      obtain ds2 slots2 q2 where d: "dispatch_pending clk (Suc i) slots1 q1 = (ds2, slots2, q2)"
        by (cases "dispatch_pending clk (Suc i) slots1 q1")
      with "1.prems"(1) flush cl Some have r: "ds = (a, b) # ds2" "slots' = slots2" "q' = q2"
        by (simp_all add: dispatch_pending.simps [of clk i])
      have "size (held q1 c) \<le> MAX_PENDING_PER_CHANNEL" for c
        using "1.prems"(2) [of c] unfolding h [of c] by simp
      moreover have "cancelled_batches q1 = [] \<or> any_idle slots2"
        using "1.prems"(3) r flush_cancelled_batches [OF flush] by blast
      ultimately have "held q1 ch = held q2 ch + dispatched_events ds2 ch"
        using "1.IH" [OF flush [symmetric] refl cl [symmetric, unfolded Some] refl d] by blast
      with h r show ?thesis by (simp add: add.commute add.left_commute)
    qed
  qed
qed

lemma dispatch_claims:
  "dispatch_pending clk i slots q = (ds, slots', q') \<Longrightarrow> length ds + idle_count slots' = idle_count slots"
proof (induction clk i slots q arbitrary: ds slots' q' rule: dispatch_pending.induct)
  case (1 clk i slots q)
  obtain mb q1 where f: "flush_next (clk i) q = (mb, q1)" by fastforce
  show ?case
  proof (cases mb)
    case None
    with "1.prems" f show ?thesis by (simp add: dispatch_pending.simps [of clk i])
  next
    case (Some b)
    obtain ma slots1 where cl: "try_claim (Some (fb_channel_id b)) slots = (ma, slots1)" by fastforce
    show ?thesis
    proof (cases ma)
      case None
      with "1.prems" f Some cl try_claim_None show ?thesis by (auto simp: dispatch_pending.simps [of clk i])
    next
      case (Some a)
      obtain ds2 slots2 q2 where d: "dispatch_pending clk (Suc i) slots1 q1 = (ds2, slots2, q2)"
        by (cases "dispatch_pending clk (Suc i) slots1 q1")
      from "1.IH" [OF f [symmetric, unfolded \<open>mb = Some b\<close>] refl cl [symmetric, unfolded Some] refl d]
        "1.prems" f \<open>mb = Some b\<close> cl Some d try_claim_idle [OF cl [unfolded Some]]
      show ?thesis by (auto simp: dispatch_pending.simps [of clk i])
    qed
  qed
qed

text \<open>Without the bounds: events may be cut off, but none is invented.\<close>

lemma mset_take_sub: "mset (map f (take n xs)) \<subseteq># mset (map f xs)"
  by (metis append_take_drop_id map_append mset_append mset_subset_eq_add_left)

lemma held_expire_channel_sub: "held (expire_channel ch q) ch' \<subseteq># held q ch'"
proof -
  let ?w = "entry_or_default ch (withheld_native_steer q)" and ?e = "entry_or_default ch (queues q)"
  have "mset (map batch_of (take MAX_PENDING_PER_CHANNEL (?w @ ?e))) \<subseteq># mset (map batch_of ?w) + mset (map batch_of ?e)"
    using mset_take_sub [of batch_of MAX_PENDING_PER_CHANNEL "?w @ ?e"] by simp
  then show ?thesis
    by (auto simp: held_def expire_channel_queue subset_mset.add_increasing2 ac_simps dest: subset_mset.add_left_mono
        intro!: subset_mset.add_mono)
qed

lemma held_expire_sub: "held (expire_in_flight now q) ch \<subseteq># held q ch"
proof -
  have "held (fold expire_channel chs q) ch \<subseteq># held q ch" for chs
  proof (induction chs arbitrary: q)
    case (Cons c chs)
    then show ?case using held_expire_channel_sub [of c q ch] by (auto intro: subset_mset.trans)
  qed simp
  then show ?thesis by (simp add: expire_in_flight_def)
qed

lemma held_requeue_preserve_sub:
  "held (requeue_preserve_timestamps b q) ch \<subseteq># held q ch + (if fb_channel_id b = ch then mset (fb_events b) else {#})"
proof -
  let ?es = "map (queued_of (fb_channel_id b)) (fb_events b)" and ?e = "entry_or_default (fb_channel_id b) (queues q)"
  have "mset (map batch_of (take MAX_PENDING_PER_CHANNEL (?es @ ?e))) \<subseteq># mset (map batch_of ?es) + mset (map batch_of ?e)"
    using mset_take_sub [of batch_of MAX_PENDING_PER_CHANNEL "?es @ ?e"] by simp
  then show ?thesis
    by (auto simp: held_def requeue_preserve_timestamps_def comp_def ac_simps simp flip: mset_map
        dest: subset_mset.add_left_mono intro!: subset_mset.add_mono)
qed

lemma dispatch_invents_nothing:
  assumes "dispatch_pending clk i slots q = (ds, slots', q')"
  shows "held q' ch + dispatched_events ds ch \<subseteq># held q ch"
  using assms
proof (induction clk i slots q arbitrary: ds slots' q' rule: dispatch_pending.induct)
  case (1 clk i slots q)
  obtain mb q1 where f: "flush_next (clk i) q = (mb, q1)" by fastforce
  show ?case
  proof (cases mb)
    case None
    with f have "q1 = expire_in_flight (clk i) q" by (simp add: flush_next_Nothing)
    with "1.prems" f None held_expire_sub [of "clk i" q ch] show ?thesis by (simp add: dispatch_pending.simps [of clk i])
  next
    case (Some b)
    note flush = f [unfolded Some]
    have h: "held q1 ch + (if fb_channel_id b = ch then mset (fb_events b) + mset (fb_cancelled_events b) else {#}) \<subseteq># held q ch"
      using held_flush [OF flush, of ch] held_expire_sub [of "clk i" q ch] by simp
    obtain ma slots1 where cl: "try_claim (Some (fb_channel_id b)) slots = (ma, slots1)" by fastforce
    show ?thesis
    proof (cases ma)
      case None
      with "1.prems" flush cl have r: "ds = []"
          "q' = mark_complete (clk (Suc i)) (fb_channel_id b) (requeue_preserve_timestamps b q1)"
        by (simp_all add: dispatch_pending.simps [of clk i])
      have "held q' ch \<subseteq># held q1 ch + (if fb_channel_id b = ch then mset (fb_events b) + mset (fb_cancelled_events b) else {#})"
        using held_requeue_preserve_sub [of b q1 ch] by (auto simp: r intro: subset_mset.trans split: if_splits)
      with h r show ?thesis by (auto intro: subset_mset.trans)
    next
      case (Some a)
      obtain ds2 slots2 q2 where d: "dispatch_pending clk (Suc i) slots1 q1 = (ds2, slots2, q2)"
        by (cases "dispatch_pending clk (Suc i) slots1 q1")
      with "1.prems" flush cl Some have r: "ds = (a, b) # ds2" "q' = q2"
        by (simp_all add: dispatch_pending.simps [of clk i])
      have "held q2 ch + dispatched_events ds2 ch \<subseteq># held q1 ch"
        using "1.IH" [OF flush [symmetric] refl cl [symmetric, unfolded Some] refl d] .
      then have "held q' ch + dispatched_events ds ch \<subseteq>#
          held q1 ch + (if fb_channel_id b = ch then mset (fb_events b) + mset (fb_cancelled_events b) else {#})"
        unfolding r dispatched_events_simps by (simp add: ac_simps subset_mset.add_left_mono)
      then show ?thesis using h by (rule subset_mset.trans)
    qed
  qed
qed

text \<open>C17.  A round of dispatch invents no event and hands none out twice: what it dispatches together with what is
  still held is part of what was held; and each dispatched batch took one idle agent.  It loses no event either --
  each event a channel held is in a batch that was handed to an agent or is still held -- when no channel holds more
  than 500 events, queued, cancelled and withheld together, and the round did not run out of agents while a
  cancelled batch was waiting.  Neither condition is kept by the queue itself: beyond 500 events the newest are
  cut off when withheld or flushed events return to the queue.\<close>

theorem dispatch_loses_nothing:
  assumes "dispatch_pending clk i slots q = (ds, slots', q')"
  shows "held q' ch + dispatched_events ds ch \<subseteq># held q ch \<and>
    ((\<forall>ch. size (held q ch) \<le> 500) \<longrightarrow> cancelled_batches q = [] \<or> any_idle slots' \<longrightarrow>
      held q ch = held q' ch + dispatched_events ds ch) \<and>
    length ds + idle_count slots' = idle_count slots"
proof (intro conjI impI)
  assume "\<forall>ch. size (held q ch) \<le> 500" "cancelled_batches q = [] \<or> any_idle slots'"
  then show "held q ch = held q' ch + dispatched_events ds ch"
    by (intro dispatch_conserves [OF assms]) (simp_all add: MAX_PENDING_PER_CHANNEL_def)
qed (rule dispatch_invents_nothing [OF assms], rule dispatch_claims [OF assms])

text \<open>When no agent is idle, a flushed batch goes back to its queue without the cancelled events
  that were merged into it: exactly those events are no longer held.\<close>

theorem exhausted_pool_drops_cancelled:
  assumes "flush_next (clk i) q = (Some b, q1)" and "\<not> any_idle slots" and "\<forall>ch. size (held q ch) \<le> 500"
  shows "\<exists>q'. dispatch_pending clk i slots q = ([], slots, q') \<and>
    held q (fb_channel_id b) = held q' (fb_channel_id b) + mset (fb_cancelled_events b)"
proof -
  obtain ma slots1 where cl: "try_claim (Some (fb_channel_id b)) slots = (ma, slots1)" by fastforce
  have "ma = None"
  proof (cases ma)
    case (Some a)
    with cl obtain i where "i < length slots" "slots ! i = Some a" using try_claim_Some by metis
    with nth_mem [of i slots] assms(2) show ?thesis by (auto simp: any_idle_def list_ex_iff)
  qed
  with cl have cl: "try_claim (Some (fb_channel_id b)) slots = (None, slots)" using try_claim_None by blast
  let ?q = "mark_complete (clk (Suc i)) (fb_channel_id b) (requeue_preserve_timestamps b q1)"
  have d: "dispatch_pending clk i slots q = ([], slots, ?q)"
    using assms(1) cl by (simp add: dispatch_pending.simps [of clk i])
  have sizes: "size (held q c) \<le> MAX_PENDING_PER_CHANNEL" for c
    using assms(3) by (simp add: MAX_PENDING_PER_CHANNEL_def)
  have h: "held q (fb_channel_id b) = held q1 (fb_channel_id b) + (mset (fb_events b) + mset (fb_cancelled_events b))"
    using held_flush [OF assms(1), of "fb_channel_id b"] held_expire [OF sizes] by simp
  have "length (fb_events b) + size (held q1 (fb_channel_id b)) \<le> MAX_PENDING_PER_CHANNEL"
    using sizes [of "fb_channel_id b"] by (simp add: h)
  with h have "held q (fb_channel_id b) = held ?q (fb_channel_id b) + mset (fb_cancelled_events b)"
    by (simp add: held_requeue_preserve)
  with d show ?thesis by blast
qed

section \<open>Steering\<close>

lemma remove_first_split:
  "remove_first lib eid es = Some (e, rest) \<Longrightarrow>
     (\<exists>pre post. es = pre @ e # post \<and> rest = pre @ post) \<and> id_to_hex lib (ev_id (qe_event e)) = eid"
proof (induction es arbitrary: e rest)
  case (Cons x es)
  show ?case
  proof (cases "id_to_hex lib (ev_id (qe_event x)) = eid")
    case True
    with Cons.prems have "x # es = [] @ e # rest" "id_to_hex lib (ev_id (qe_event e)) = eid" by simp_all
    then show ?thesis by (metis append_Nil)
  next
    case False
    with Cons.prems obtain rest' where "remove_first lib eid es = Some (e, rest')" "rest = x # rest'" by auto
    with Cons.IH [of e rest'] show ?thesis by (metis append_Cons)
  qed
qed simp

lemma held_extend [simp]: "held (extend_in_flight_deadline now ch n q) ch' = held q ch'"
  by (auto simp: held_def extend_in_flight_deadline_def Let_def split: option.splits)

text \<open>An acknowledged steer settles its event once.  On success no copy of the event is left in the
  queue or among the withheld events, so it is not delivered again; on every other answer the withheld
  event is back at the head of its queue and nothing else the channel holds has changed.\<close>

theorem steer_ack_settles_event:
  assumes "remove_first lib eid (entry_or_default ch (withheld_native_steer q)) = Some (qe, rest)"
    and "size (held q ch) \<le> 500"
    and "handle_steer_ack lib now max_turn_secs ch eid ack q = (signal, q')"
  shows "if ack = SteerSuccess then
      list_all (\<lambda>e. id_to_hex lib (ev_id (qe_event e)) \<noteq> eid)
        (entry_or_default ch (queues q') @ entry_or_default ch (withheld_native_steer q')) \<and> \<not> signal
    else entry_or_default ch (queues q') = qe # entry_or_default ch (queues q) \<and>
      entry_or_default ch (withheld_native_steer q') = rest \<and> held q' ch = held q ch"
proof (cases "ack = SteerSuccess")
  case True
  with assms(3) show ?thesis
    by (auto simp: handle_steer_ack_def Let_def remove_event_def retain_others_def list_all_iff)
next
  case False
  then have "ack_actions ack = (True, False, signal)"
    using assms(3) by (cases ack rule: ack_actions.cases) (auto simp: handle_steer_ack_def Let_def)
  with False assms(3) have q': "q' = release_native_steer lib ch eid q"
    by (simp add: handle_steer_ack_def Let_def)
  from remove_first_split [OF assms(1)] obtain pre post
    where split: "entry_or_default ch (withheld_native_steer q) = pre @ qe # post" "rest = pre @ post" by blast
  then obtain entries where m: "map_of (withheld_native_steer q) ch = Some entries" "entries = pre @ qe # post"
    by (auto simp: entry_or_default_def split: option.splits)
  with assms(1) split have "remove_first lib eid entries = Some (qe, rest)" by (simp add: entry_or_default_Some)
  with m q' have q': "q' = restore_front ch [qe] (q\<lparr>withheld_native_steer := put_or_drop ch rest (withheld_native_steer q)\<rparr>)"
    by (simp add: release_native_steer_def)
  have "Suc (length (entry_or_default ch (queues q))) \<le> MAX_PENDING_PER_CHANNEL"
    using assms(2) split by (simp add: held_def MAX_PENDING_PER_CHANNEL_def)
  with False q' split show ?thesis by (auto simp: held_def)
qed

section \<open>Concrete runs\<close>

definition ex_hex_codec :: nostr_lib where
  "ex_hex_codec = \<lparr>uuid_to_string = decimal, uuid_parse = (\<lambda>s. Some (undecimal s)), id_to_hex = ex_text,
     pubkey_to_hex = ex_text, hex_encode = ex_text\<rparr>"

text \<open>A relay whose profiles all carry an attestation by the key \<open>[7]\<close> for the key \<open>[9]\<close>, and which knows
  no channel.\<close>

definition ex_attestation :: json where
  "ex_attestation = JArray (map JString [''auth'', ex_text [7], [],
     ex_text ([7] @ ex_untext (''nostr:agent-auth:'' @ ex_text [9] @ '':''))])"

definition ex_agent_env :: agent_env where
  "ex_agent_env = \<lparr>ae_nostr = ex_hex_codec, ae_oa = ex_oa_lib, ae_profile_tags = (\<lambda>_. Some [ex_attestation]),
     ae_channel_tags = (\<lambda>_. None), ae_eval = (\<lambda>_ _. Inr True)\<rparr>"

definition ex_agent_config :: agent_config where
  "ex_agent_config = \<lparr>ac_pubkey_hex = ex_text [5], ac_ignore_self = True, ac_respond_to = Anyone,
     ac_allowlist = [], ac_handling = HandleSteer\<rparr>"

definition ex_harness :: harness where
  "ex_harness = \<lparr>h_queue = queue_new Queue, h_owner = owner_cache_new (Some (ex_text [7])), h_channels = [],
     h_rules = [\<lparr>sr_name = ''all'', sr_channels = ScopeAll ''all'', sr_kinds = [], sr_require_mention = False,
       sr_filter = None, sr_prompt_tag = None, sr_consecutive_timeouts = 0\<rparr>]\<rparr>"

lemma ex_text_inj: "ex_text a = ex_text b \<longleftrightarrow> a = b"
  by (metis ex_untext_text)

lemma ex_sibling: "check_sibling_via_profile ex_agent_env (ex_text [9]) (ex_text [7])"
proof -
  have parse: "oa_from_str ex_oa_lib (oa_to_string ex_oa_lib ex_attestation) = Inr ex_attestation"
    using ex_oa_lib_lawful unfolding ex_attestation_def oa_lawful_def by blast
  have "verify_auth_tag ex_oa_lib (oa_to_string ex_oa_lib ex_attestation) [9] = Inr [7]"
    unfolding verify_auth_tag_def auth_array_def parse_json_array_def parse
    by (simp add: ex_attestation_def as_str_def ex_oa_lib_def validate_conditions_def hash_preimage_def build_preimage_def)
  then have "sibling_tag ex_agent_env [9] (ex_text [7]) ex_attestation"
    by (simp add: sibling_tag_def ex_agent_env_def) (simp add: ex_attestation_def eq_ignore_ascii_case_def)
  then show ?thesis by (simp add: check_sibling_via_profile_def ex_agent_env_def ex_oa_lib_def)
qed

theorem sibling_lookup_failure_sticks_witness:
  "\<not> fst (is_owner_or_sibling ex_agent_env (ex_text [9])
     (snd (is_owner_or_sibling (ex_agent_env\<lparr>ae_profile_tags := \<lambda>_. None\<rparr>) (ex_text [9]) (owner_cache_new (Some (ex_text [7]))))))"
proof -
  have "ex_text [9] \<noteq> ex_text [7]" by (simp add: ex_text_inj)
  with sibling_lookup_failure_sticks [OF ex_sibling] show ?thesis by blast
qed

definition ex_sibling_msg :: event where
  "ex_sibling_msg = ex_msg\<lparr>ev_pubkey := [9]\<rparr>"

lemma ex_take:
  "\<exists>h'. take_event ex_agent_env ex_agent_config False 20 5 ex_sibling_msg ex_harness = (Accepted None, h')"
proof -
  have "ex_text [9] \<noteq> ex_text [7]" "ex_text [9] \<noteq> ex_text [5]" by (simp_all add: ex_text_inj)
  then have "fst (is_owner_or_sibling ex_agent_env (ex_text [9]) (owner_cache_new (Some (ex_text [7]))))"
    using ex_sibling by (simp add: is_owner_or_sibling_def owner_cache_new_def Let_def)
  moreover have "ae_channel_tags ex_agent_env 5 = None" "pubkey_to_hex (ae_nostr ex_agent_env) = ex_text"
    by (simp_all add: ex_agent_env_def ex_hex_codec_def)
  ultimately show ?thesis
    using \<open>ex_text [9] \<noteq> ex_text [5]\<close>
    by (simp add: take_event_def Let_def is_owner_control_command_def event_mentions_agent_def ex_sibling_msg_def
        ex_msg_def ex_agent_config_def ex_harness_def is_dm_channel_def resolve_channel_def author_allowed_def
        match_event_def rule_applies_def enqueue_def push_def queue_new_def is_channel_in_flight_def split_beta)
qed

theorem turn_requires_authorized_author_witness:
  "attested [ex_agent_env] (Some (ex_text [7])) (ex_text [9])"
proof -
  obtain h' where t: "take_event ex_agent_env ex_agent_config False 20 5 ex_sibling_msg ex_harness = (Accepted None, h')"
    using ex_take by blast
  have run: "intake_run ex_agent_config (Some (ex_text [7])) [] ex_harness"
    by (rule run_start) (simp add: ex_harness_def)
  have "pubkey_to_hex (ae_nostr ex_agent_env) (ev_pubkey ex_sibling_msg) = ex_text [9]"
    "fst (is_dm_channel ex_agent_env 5 (h_channels ex_harness))"
    by (simp_all add: ex_agent_env_def ex_hex_codec_def ex_sibling_msg_def is_dm_channel_def resolve_channel_def ex_harness_def)
  with turn_requires_authorized_author [OF run t] show ?thesis by (simp add: ex_text_inj Let_def)
qed

text \<open>One agent takes the waiting message.\<close>

definition ex_pool :: agent_slots where
  "ex_pool = [Some \<lparr>oa_index = 0, oa_sessions = []\<rparr>]"

theorem dispatch_loses_nothing_witness:
  "\<exists>ds slots' q'. dispatch_pending (\<lambda>_. 20) 0 ex_pool ex_waiting = (ds, slots', q') \<and> length ds = 1 \<and>
     held ex_waiting 5 = held q' 5 + dispatched_events ds 5"
proof -
  obtain ds slots' q' where d: "dispatch_pending (\<lambda>_. 20) 0 ex_pool ex_waiting = (ds, slots', q')"
    by (cases "dispatch_pending (\<lambda>_. 20) 0 ex_pool ex_waiting")
  obtain b q1 where f: "flush_next 20 ex_waiting = (Some b, q1)"
    by (simp add: flush_next_def expire_in_flight_def ex_waiting_simps oldest_ready_def queue_ready_def throttle_ok_def apfst_def
        map_prod_def split_beta flush_queue_def drain_queue_def Let_def entry_or_default_def)
  have "try_claim (Some (fb_channel_id b)) ex_pool = (Some \<lparr>oa_index = 0, oa_sessions = []\<rparr>, [None])"
    by (simp add: try_claim_def ex_pool_def holds_session_def take_slot_def)
  with d f have "ds \<noteq> []" by (auto simp: dispatch_pending.simps [of _ 0] split: prod.splits)
  moreover have "\<forall>ch. size (held ex_waiting ch) \<le> 500" "cancelled_batches ex_waiting = []" "idle_count ex_pool = 1"
    by (simp_all add: held_def entry_or_default_def ex_waiting_simps idle_count_def ex_pool_def)
  ultimately show ?thesis
    using dispatch_loses_nothing [OF d, of 5] d by (cases ds) auto
qed

definition ex_later :: queued_event where
  "ex_later = ex_queued\<lparr>qe_event := ex_msg\<lparr>ev_id := [4]\<rparr>, qe_received_at := 30\<rparr>"

text \<open>The first message was being answered when the turn was cancelled for a second one.\<close>

definition ex_cancelled :: event_queue where
  "ex_cancelled = requeue_as_cancelled ex_batch Steer (snd (push ex_later (queue_new Queue)))"

lemma ex_cancelled_simps:
  "queues ex_cancelled = [(5, [ex_later])]" "in_flight_channels ex_cancelled = {}" "in_flight_deadlines ex_cancelled = []"
  "retry_after ex_cancelled = []" "cancelled_batches ex_cancelled = [(5, [batch_of ex_queued])]"
  "cancel_reasons ex_cancelled = [(5, Steer)]" "withheld_native_steer ex_cancelled = []"
  by (simp_all add: ex_cancelled_def requeue_as_cancelled_def push_def queue_new_def ex_later_def ex_queued_def
      ex_batch_def Let_def MAX_PENDING_PER_CHANNEL_def)

theorem exhausted_pool_drops_cancelled_witness:
  "\<exists>q'. dispatch_pending (\<lambda>_. 40) 0 [] ex_cancelled = ([], [], q') \<and>
     held ex_cancelled 5 = held q' 5 + {#batch_of ex_queued#}"
proof -
  have "flush_next 40 ex_cancelled =
      (Some \<lparr>fb_channel_id = 5, fb_events = [batch_of ex_later], fb_cancelled_events = [batch_of ex_queued],
        fb_cancel_reason = Some Steer\<rparr>, snd (flush_next 40 ex_cancelled))"
    by (simp add: flush_next_def expire_in_flight_def ex_cancelled_simps oldest_ready_def queue_ready_def throttle_ok_def
        flush_queue_def drain_queue_def Let_def split_beta entry_or_default_def MAX_BATCH_EVENTS_def)
  moreover have "\<not> any_idle []" by (simp add: any_idle_def)
  moreover have "\<forall>ch. size (held ex_cancelled ch) \<le> 500"
    by (simp add: held_def entry_or_default_def ex_cancelled_simps)
  ultimately show ?thesis
    using exhausted_pool_drops_cancelled [of "\<lambda>_. 40" 0 ex_cancelled] by fastforce
qed

definition ex_withheld :: event_queue where
  "ex_withheld = snd (mark_native_steer_pending ex_hex_codec 5 (ex_text [1]) ex_waiting)"

theorem steer_ack_settles_event_witness:
  "entry_or_default 5 (queues (snd (handle_steer_ack ex_hex_codec 30 60 5 (ex_text [1]) PromptCompletedNeutral ex_withheld))) =
     [ex_queued]"
proof -
  have id: "id_to_hex ex_hex_codec (ev_id (qe_event ex_queued)) = ex_text [1]"
    by (simp add: ex_hex_codec_def ex_queued_def ex_msg_def)
  have w: "queues ex_withheld = []" "withheld_native_steer ex_withheld = [(5, [ex_queued])]"
    by (simp_all add: ex_withheld_def mark_native_steer_pending_def ex_waiting_simps id put_or_drop_def entry_or_default_def)
  have "cancelled_batches ex_withheld = []"
    by (simp add: ex_withheld_def mark_native_steer_pending_def ex_waiting_simps id)
  then have "size (held ex_withheld 5) \<le> 500" by (simp add: held_def w entry_or_default_def)
  moreover have "remove_first ex_hex_codec (ex_text [1]) (entry_or_default 5 (withheld_native_steer ex_withheld)) =
      Some (ex_queued, [])"
    by (simp add: w entry_or_default_def id)
  ultimately show ?thesis
    using steer_ack_settles_event [of ex_hex_codec "ex_text [1]" 5 ex_withheld ex_queued "[]" 30 60 PromptCompletedNeutral]
    by (metis (no_types, lifting) entry_or_default_simps(1) prod.collapse steer_ack.distinct(3) w(1))
qed

end
