(* ===== verification/Session_Directory.thy ===== *)
theory Session_Directory
  imports Topics
begin

text \<open>
  The fenced session directory of the relay mesh: \<open>crates/punks-relay/src/tunnel/directory.rs\<close>.

  Redis arbitrates which relay runtime owns a tunnel session.  A lease key holds
  \<open>owner|generation|profile\<close> and expires; a generation key counts acquisitions and does not.  The
  four Lua scripts run on a store of keys with optional expiry, at the instant (in milliseconds) the
  server sees.  Hex and UUID text, and Lua's \<open>tostring\<close> on numbers, are fields of the parameter
  record \<open>dir_lib\<close>.

  What a call meets outside Redis is the record \<open>dir_call\<close>: a refused or lost community write lease
  (with whether the script had already run), a pool or Redis failure, a failing release of the write
  lease.
\<close>

section \<open>Redis\<close>

type_synonym instant_ms = nat
type_synonym redis = "(string \<times> string \<times> instant_ms option) list"

definition redis_get :: "instant_ms \<Rightarrow> string \<Rightarrow> redis \<Rightarrow> string option" where
  "redis_get now k r = (case map_of r k of
     None \<Rightarrow> None
   | Some (v, None) \<Rightarrow> Some v
   | Some (v, Some expiry) \<Rightarrow> if now < expiry then Some v else None)"

definition redis_set_px :: "instant_ms \<Rightarrow> string \<Rightarrow> string \<Rightarrow> nat \<Rightarrow> redis \<Rightarrow> redis" where
  "redis_set_px now k v ttl r = AList.update k (v, Some (now + ttl)) r"

definition redis_pexpire :: "instant_ms \<Rightarrow> string \<Rightarrow> nat \<Rightarrow> redis \<Rightarrow> redis" where
  "redis_pexpire now k ttl r = (case map_of r k of
     Some (v, _) \<Rightarrow> AList.update k (v, Some (now + ttl)) r
   | None \<Rightarrow> r)"

definition redis_del :: "string \<Rightarrow> redis \<Rightarrow> redis" where
  "redis_del k r = AList.delete k r"

text \<open>\<open>INCR\<close> keeps the expiry of a live key; a value that is not a decimal natural, or the largest 64-bit
  integer, is an error.\<close>

definition redis_expiry :: "string \<Rightarrow> redis \<Rightarrow> instant_ms option" where
  "redis_expiry k r = (case map_of r k of Some (_, expiry) \<Rightarrow> expiry | None \<Rightarrow> None)"

definition redis_incr :: "instant_ms \<Rightarrow> string \<Rightarrow> redis \<Rightarrow> (string, nat \<times> redis) result" where
  "redis_incr now k r = (case redis_get now k r of
     None \<Rightarrow> Inr (1, AList.update k (decimal 1, None) r)
   | Some v \<Rightarrow>
       if v = [] \<or> \<not> list_all is_ascii_digit v then Inl ''value is not an integer or out of range''
       else if undecimal v + 1 \<ge> 2 ^ 63 then Inl ''increment or decrement would overflow''
       else Inr (undecimal v + 1, AList.update k (decimal (undecimal v + 1), redis_expiry k r) r))"

definition or_empty :: "string option \<Rightarrow> string" where
  "or_empty v = (case v of Some s \<Rightarrow> s | None \<Rightarrow> [])"

section \<open>Data\<close>

type_synonym runtime_id = bytes

datatype profile = ReliableStream | RealtimeMedia | HuddleControl

record fenced_header =
  fh_session_id :: uuid
  fh_generation :: nat
  fh_owner_runtime_id :: runtime_id

record session_lease =
  sl_community_id :: community_id
  sl_session_id :: uuid
  sl_owner_runtime_id :: runtime_id
  sl_generation :: nat
  sl_profile :: profile

definition lease_fenced_header :: "session_lease \<Rightarrow> fenced_header" where
  "lease_fenced_header l =
     \<lparr>fh_session_id = sl_session_id l, fh_generation = sl_generation l, fh_owner_runtime_id = sl_owner_runtime_id l\<rparr>"

datatype acquire_result = Acquired session_lease | Exists session_lease

datatype renew_result = Renewed session_lease | Lost "session_lease option" "nat option"

datatype release_result = Released session_lease | NotOwner "session_lease option" "nat option"

datatype directory_error =
    PoolError string | RedisError string
  | MalformedLease community_id uuid string | MalformedGeneration community_id uuid string
  | UnexpectedScriptStatus string | InvalidLeaseTtl | CommunityWriteFenced string
  | ExpectedLease

datatype mesh_error =
    StaleGenerationError uuid nat nat | NoActiveLease uuid nat nat runtime_id
  | FutureGeneration uuid nat nat | OwnerMismatch uuid nat runtime_id runtime_id
  | TransportPool string | TransportDirectory directory_error | TransportOther string | MeshRedis string

record dir_lib =
  dl_uuid :: nostr_lib
  dl_hex_encode :: "bytes \<Rightarrow> string"
  dl_hex_decode :: "string \<Rightarrow> bytes option"
  dl_lua_tostring :: "nat \<Rightarrow> string"

definition session_base_key :: "dir_lib \<Rightarrow> community_id \<Rightarrow> uuid \<Rightarrow> string" where
  "session_base_key lib com sid =
     ''punks:'' @ uuid_to_string (dl_uuid lib) com @ '':tunnel:'' @ uuid_to_string (dl_uuid lib) sid"

definition lease_key :: "dir_lib \<Rightarrow> community_id \<Rightarrow> uuid \<Rightarrow> string" where
  "lease_key lib com sid = session_base_key lib com sid @ '':lease''"

definition generation_key :: "dir_lib \<Rightarrow> community_id \<Rightarrow> uuid \<Rightarrow> string" where
  "generation_key lib com sid = session_base_key lib com sid @ '':generation''"

fun profile_as_wire_str :: "profile \<Rightarrow> string" where
  "profile_as_wire_str ReliableStream = ''reliable-stream''"
| "profile_as_wire_str RealtimeMedia = ''realtime-media''"
| "profile_as_wire_str HuddleControl = ''huddle-control''"

definition profile_from_wire :: "string \<Rightarrow> profile option" where
  "profile_from_wire s =
     (if s = ''reliable-stream'' then Some ReliableStream
      else if s = ''realtime-media'' then Some RealtimeMedia
      else if s = ''huddle-control'' then Some HuddleControl else None)"

section \<open>Parsing\<close>

text \<open>\<open>str::parse::<u64>\<close>: an optional plus sign and at least one digit, within range.\<close>

definition parse_u64 :: "string \<Rightarrow> nat option" where
  "parse_u64 s =
     (let digits = (case s of [] \<Rightarrow> [] | c # cs \<Rightarrow> if c = CHR ''+'' then cs else s)
      in if digits \<noteq> [] \<and> list_all is_ascii_digit digits \<and> undecimal digits < 2 ^ 64
         then Some (undecimal digits) else None)"

definition parse_lease :: "dir_lib \<Rightarrow> community_id \<Rightarrow> uuid \<Rightarrow> string \<Rightarrow> (directory_error, session_lease) result" where
  "parse_lease lib com sid value =
     (let malformed = Inl (MalformedLease com sid value) in
      case split_on (CHR ''|'') value of
        [] \<Rightarrow> malformed
      | [owner_hex] \<Rightarrow> malformed
      | owner_hex # generation # rest \<Rightarrow> (case parse_u64 generation of
          None \<Rightarrow> malformed
        | Some g \<Rightarrow>
            if g = 0 then malformed
            else (case rest of
               [] \<Rightarrow> malformed
             | p # rest1 \<Rightarrow> (case profile_from_wire p of
                 None \<Rightarrow> malformed
               | Some prof \<Rightarrow>
                   if rest1 \<noteq> [] then malformed
                   else (case dl_hex_decode lib owner_hex of
                      None \<Rightarrow> malformed
                    | Some owner \<Rightarrow>
                        if length owner \<noteq> 32 then malformed
                        else Inr \<lparr>sl_community_id = com, sl_session_id = sid, sl_owner_runtime_id = owner,
                                  sl_generation = g, sl_profile = prof\<rparr>)))))"

definition parse_optional_lease ::
    "dir_lib \<Rightarrow> community_id \<Rightarrow> uuid \<Rightarrow> string \<Rightarrow> (directory_error, session_lease option) result" where
  "parse_optional_lease lib com sid value =
     (if value = [] then Inr None else map_sum id Some (parse_lease lib com sid value))"

definition parse_optional_generation ::
    "community_id \<Rightarrow> uuid \<Rightarrow> string \<Rightarrow> (directory_error, nat option) result" where
  "parse_optional_generation com sid value =
     (if value = [] then Inr None
      else case parse_u64 value of
        None \<Rightarrow> Inl (MalformedGeneration com sid value)
      | Some g \<Rightarrow> if g = 0 then Inl (MalformedGeneration com sid value) else Inr (Some g))"

definition ttl_ms :: "nat \<Rightarrow> (directory_error, nat) result" where
  "ttl_ms ttl = (if ttl < 2 ^ 63 \<and> ttl > 0 then Inr ttl else Inl InvalidLeaseTtl)"

section \<open>The scripts\<close>

type_synonym script_reply = "string \<times> string \<times> string"

definition acquire_script ::
    "dir_lib \<Rightarrow> instant_ms \<Rightarrow> string \<Rightarrow> string \<Rightarrow> string \<Rightarrow> string \<Rightarrow> nat \<Rightarrow> redis \<Rightarrow> (string, script_reply \<times> redis) result" where
  "acquire_script lib now lkey gkey owner prof ttl r = (case redis_get now lkey r of
     Some current \<Rightarrow> Inr ((''exists'', current, or_empty (redis_get now gkey r)), r)
   | None \<Rightarrow> and_then (redis_incr now gkey r) (\<lambda>(generation, r1).
       let v = owner @ ''|'' @ dl_lua_tostring lib generation @ ''|'' @ prof
       in Inr ((''acquired'', v, dl_lua_tostring lib generation), redis_set_px now lkey v ttl r1)))"

text \<open>The pattern \<open>^([^|]+)|([^|]+)|([^|]+)$\<close>: owner and generation of a well-formed value.\<close>

definition lua_match_lease :: "string \<Rightarrow> (string \<times> string) option" where
  "lua_match_lease v = (case split_on (CHR ''|'') v of
     [a, b, c] \<Rightarrow> if a \<noteq> [] \<and> b \<noteq> [] \<and> c \<noteq> [] then Some (a, b) else None
   | _ \<Rightarrow> None)"

definition renew_script ::
    "instant_ms \<Rightarrow> string \<Rightarrow> string \<Rightarrow> string \<Rightarrow> string \<Rightarrow> nat \<Rightarrow> redis \<Rightarrow> (string, script_reply \<times> redis) result" where
  "renew_script now lkey gkey owner generation ttl r = (case redis_get now lkey r of
     None \<Rightarrow> Inr ((''missing'', [], or_empty (redis_get now gkey r)), r)
   | Some current \<Rightarrow>
       (let m = lua_match_lease current; cg = (case m of Some (_, g) \<Rightarrow> g | None \<Rightarrow> []);
            known = (case redis_get now gkey r of Some g \<Rightarrow> g | None \<Rightarrow> cg)
        in if m = Some (owner, generation)
           then Inr ((''renewed'', current, known), redis_pexpire now lkey ttl r)
           else Inr ((''lost'', current, known), r)))"

definition release_script ::
    "instant_ms \<Rightarrow> string \<Rightarrow> string \<Rightarrow> string \<Rightarrow> string \<Rightarrow> redis \<Rightarrow> (string, script_reply \<times> redis) result" where
  "release_script now lkey gkey owner generation r = (case redis_get now lkey r of
     None \<Rightarrow> Inr ((''missing'', [], or_empty (redis_get now gkey r)), r)
   | Some current \<Rightarrow>
       (let m = lua_match_lease current; cg = (case m of Some (_, g) \<Rightarrow> g | None \<Rightarrow> []);
            known = (case redis_get now gkey r of Some g \<Rightarrow> g | None \<Rightarrow> cg)
        in if m = Some (owner, generation)
           then Inr ((''released'', current, known), redis_del lkey r)
           else Inr ((''lost'', current, known), r)))"

section \<open>Operations\<close>

record dir_call =
  dc_now :: instant_ms
  dc_ttl :: nat
  dc_begin_error :: "string option"
  dc_pool_error :: "string option"
  dc_redis_error :: "string option"
  dc_protect_error :: "(string \<times> bool) option"
  dc_finish_error :: "string option"

text \<open>The guarded mutation: the write lease may be lost before the script runs (the flag is false) or
  after it.\<close>

definition mutate ::
    "dir_call \<Rightarrow> (redis \<Rightarrow> (string, script_reply \<times> redis) result) \<Rightarrow> redis \<Rightarrow>
     (directory_error, script_reply) result \<times> redis" where
  "mutate c script r = (case dc_protect_error c of
     Some (e, False) \<Rightarrow> (Inl (CommunityWriteFenced e), r)
   | protect_error \<Rightarrow> (case dc_redis_error c of
       Some e \<Rightarrow> (Inl (RedisError e), r)
     | None \<Rightarrow> (case script r of
         Inl e \<Rightarrow> (Inl (RedisError e), r)
       | Inr (reply, r1) \<Rightarrow> (case protect_error of
           Some (e, _) \<Rightarrow> (Inl (CommunityWriteFenced e), r1)
         | None \<Rightarrow> (Inr reply, r1)))))"

definition begin_call :: "dir_call \<Rightarrow> (directory_error, unit) result" where
  "begin_call c = (case dc_begin_error c of Some e \<Rightarrow> Inl (CommunityWriteFenced e) | None \<Rightarrow> Inr ())"

definition pool_get :: "dir_call \<Rightarrow> (directory_error, unit) result" where
  "pool_get c = (case dc_pool_error c of Some e \<Rightarrow> Inl (PoolError e) | None \<Rightarrow> Inr ())"

definition finish_call :: "dir_call \<Rightarrow> (directory_error, unit) result" where
  "finish_call c = (case dc_finish_error c of Some e \<Rightarrow> Inl (CommunityWriteFenced e) | None \<Rightarrow> Inr ())"

definition acquire ::
    "dir_lib \<Rightarrow> dir_call \<Rightarrow> community_id \<Rightarrow> uuid \<Rightarrow> runtime_id \<Rightarrow> profile \<Rightarrow> redis \<Rightarrow>
     (directory_error, acquire_result) result \<times> redis" where
  "acquire lib c com sid owner prof r =
     (case and_then (begin_call c) (\<lambda>_. and_then (ttl_ms (dc_ttl c)) (\<lambda>ttl. and_then (pool_get c) (\<lambda>_. Inr ttl))) of
        Inl e \<Rightarrow> (Inl e, r)
      | Inr ttl \<Rightarrow>
          (case mutate c (acquire_script lib (dc_now c) (lease_key lib com sid) (generation_key lib com sid)
                            (dl_hex_encode lib owner) (profile_as_wire_str prof) ttl) r of
             (Inl e, r1) \<Rightarrow> (Inl e, r1)
           | (Inr (status, value, _), r1) \<Rightarrow>
               (and_then (parse_lease lib com sid value) (\<lambda>lease.
                  and_then (finish_call c) (\<lambda>_.
                  if status = ''acquired'' then Inr (Acquired lease)
                  else if status = ''exists'' then Inr (Exists lease)
                  else Inl (UnexpectedScriptStatus status))), r1)))"

definition takeover ::
    "dir_lib \<Rightarrow> dir_call \<Rightarrow> community_id \<Rightarrow> uuid \<Rightarrow> runtime_id \<Rightarrow> profile \<Rightarrow> redis \<Rightarrow>
     (directory_error, acquire_result) result \<times> redis" where
  "takeover lib c com sid owner prof r = acquire lib c com sid owner prof r"

text \<open>\<open>current.expect(..)\<close> panics on a missing lease; the panic is the error \<open>ExpectedLease\<close>.\<close>

definition renew ::
    "dir_lib \<Rightarrow> dir_call \<Rightarrow> session_lease \<Rightarrow> redis \<Rightarrow> (directory_error, renew_result) result \<times> redis" where
  "renew lib c lease r =
     (let com = sl_community_id lease; sid = sl_session_id lease in
      case and_then (begin_call c) (\<lambda>_. and_then (ttl_ms (dc_ttl c)) (\<lambda>ttl. and_then (pool_get c) (\<lambda>_. Inr ttl))) of
        Inl e \<Rightarrow> (Inl e, r)
      | Inr ttl \<Rightarrow>
          (case mutate c (renew_script (dc_now c) (lease_key lib com sid) (generation_key lib com sid)
                            (dl_hex_encode lib (sl_owner_runtime_id lease)) (decimal (sl_generation lease)) ttl) r of
             (Inl e, r1) \<Rightarrow> (Inl e, r1)
           | (Inr (status, value, known), r1) \<Rightarrow>
               (and_then (parse_optional_lease lib com sid value) (\<lambda>current.
                  and_then (finish_call c) (\<lambda>_.
                  if status = ''renewed'' then (case current of Some l \<Rightarrow> Inr (Renewed l) | None \<Rightarrow> Inl ExpectedLease)
                  else if status = ''missing'' \<or> status = ''lost'' then
                    and_then (parse_optional_generation com sid known) (\<lambda>g. Inr (Lost current g))
                  else Inl (UnexpectedScriptStatus status))), r1)))"

definition release ::
    "dir_lib \<Rightarrow> dir_call \<Rightarrow> session_lease \<Rightarrow> redis \<Rightarrow> (directory_error, release_result) result \<times> redis" where
  "release lib c lease r =
     (let com = sl_community_id lease; sid = sl_session_id lease in
      case and_then (begin_call c) (\<lambda>_. pool_get c) of
        Inl e \<Rightarrow> (Inl e, r)
      | Inr _ \<Rightarrow>
          (case mutate c (release_script (dc_now c) (lease_key lib com sid) (generation_key lib com sid)
                            (dl_hex_encode lib (sl_owner_runtime_id lease)) (decimal (sl_generation lease))) r of
             (Inl e, r1) \<Rightarrow> (Inl e, r1)
           | (Inr (status, value, known), r1) \<Rightarrow>
               (and_then (parse_optional_lease lib com sid value) (\<lambda>current.
                  and_then (finish_call c) (\<lambda>_.
                  if status = ''released'' then (case current of Some l \<Rightarrow> Inr (Released l) | None \<Rightarrow> Inl ExpectedLease)
                  else if status = ''missing'' \<or> status = ''lost'' then
                    and_then (parse_optional_generation com sid known) (\<lambda>g. Inr (NotOwner current g))
                  else Inl (UnexpectedScriptStatus status))), r1)))"

definition redis_query :: "dir_call \<Rightarrow> (redis \<Rightarrow> 'a) \<Rightarrow> redis \<Rightarrow> (directory_error, 'a) result" where
  "redis_query c f r = and_then (pool_get c) (\<lambda>_. case dc_redis_error c of Some e \<Rightarrow> Inl (RedisError e) | None \<Rightarrow> Inr (f r))"

definition lookup ::
    "dir_lib \<Rightarrow> dir_call \<Rightarrow> community_id \<Rightarrow> uuid \<Rightarrow> redis \<Rightarrow> (directory_error, session_lease option) result" where
  "lookup lib c com sid r = and_then (redis_query c (redis_get (dc_now c) (lease_key lib com sid)) r) (\<lambda>value.
     case value of
       None \<Rightarrow> Inr None
     | Some v \<Rightarrow> map_sum id Some (parse_lease lib com sid v))"

definition known_generation ::
    "dir_lib \<Rightarrow> dir_call \<Rightarrow> community_id \<Rightarrow> uuid \<Rightarrow> redis \<Rightarrow> (directory_error, nat option) result" where
  "known_generation lib c com sid r =
     and_then (redis_query c (redis_get (dc_now c) (generation_key lib com sid)) r) (\<lambda>value.
       case value of Some v \<Rightarrow> parse_optional_generation com sid v | None \<Rightarrow> Inr None)"

definition validate_script :: "instant_ms \<Rightarrow> string \<Rightarrow> string \<Rightarrow> redis \<Rightarrow> string \<times> string" where
  "validate_script now lkey gkey r = (or_empty (redis_get now lkey r), or_empty (redis_get now gkey r))"

text \<open>The comparison of a frame's fence with what the directory holds.\<close>

definition check_fence :: "fenced_header \<Rightarrow> session_lease option \<Rightarrow> nat \<Rightarrow> (mesh_error, unit) result" where
  "check_fence fenced current known_from_counter =
     (let known = max (case current of Some l \<Rightarrow> sl_generation l | None \<Rightarrow> known_from_counter) known_from_counter;
          sid = fh_session_id fenced; g = fh_generation fenced
      in if known > 0 \<and> g < known then Inl (StaleGenerationError sid g known)
         else case current of
           None \<Rightarrow> Inl (NoActiveLease sid g known (fh_owner_runtime_id fenced))
         | Some l \<Rightarrow>
             if g \<noteq> sl_generation l then Inl (FutureGeneration sid g (sl_generation l))
             else if fh_owner_runtime_id fenced \<noteq> sl_owner_runtime_id l
             then Inl (OwnerMismatch sid g (fh_owner_runtime_id fenced) (sl_owner_runtime_id l))
             else Inr ())"

definition validate_fenced_header ::
    "dir_lib \<Rightarrow> dir_call \<Rightarrow> community_id \<Rightarrow> fenced_header \<Rightarrow> redis \<Rightarrow> (mesh_error, unit) result" where
  "validate_fenced_header lib c com fenced r =
     (let sid = fh_session_id fenced in
      case dc_pool_error c of
        Some e \<Rightarrow> Inl (TransportPool e)
      | None \<Rightarrow> (case dc_redis_error c of
          Some e \<Rightarrow> Inl (MeshRedis e)
        | None \<Rightarrow>
            (let (lease_value, known) = validate_script (dc_now c) (lease_key lib com sid) (generation_key lib com sid) r in
             case parse_optional_generation com sid known of
               Inl e \<Rightarrow> Inl (TransportDirectory e)
             | Inr known_opt \<Rightarrow> (case parse_optional_lease lib com sid lease_value of
                 Inl e \<Rightarrow> Inl (TransportDirectory e)
               | Inr current \<Rightarrow> check_fence fenced current (case known_opt of Some g \<Rightarrow> g | None \<Rightarrow> 0)))))"

end
