(* ===== verification/Session_Fencing.thy ===== *)
theory Session_Fencing
  imports Session_Directory
begin

text \<open>
  What the session directory promises: a lease value reads back, a generation is granted once, and a
  frame passes the fence only when it carries the most recent grant of its session.  The directory
  is followed over any interleaving of acquisitions, renewals, releases and expiries by any
  runtimes, with the leases Redis granted kept as a history, most recent first.
\<close>

section \<open>Laws of the parameters\<close>

text \<open>UUID text has no colon and reads back; hex text has no separator, is not empty and reads back;
  Lua prints an integer below \<open>10^14\<close> as its decimal digits.\<close>

definition dir_lawful :: "dir_lib \<Rightarrow> bool" where
  "dir_lawful lib \<longleftrightarrow> uuid_codec (dl_uuid lib) \<and>
     (\<forall>b. dl_hex_decode lib (dl_hex_encode lib b) = Some b \<and> CHR ''|'' \<notin> set (dl_hex_encode lib b)) \<and>
     (\<forall>n < 10 ^ 14. dl_lua_tostring lib n = decimal n)"

section \<open>Keys\<close>

lemma split_base_key:
  assumes "uuid_codec (dl_uuid lib)" and "CHR '':'' \<notin> set suffix"
  shows "split_on (CHR '':'') (session_base_key lib com sid @ '':'' @ suffix) =
    [''punks'', uuid_to_string (dl_uuid lib) com, ''tunnel'', uuid_to_string (dl_uuid lib) sid, suffix]"
proof -
  have j: "session_base_key lib com sid @ '':'' @ suffix =
      join_with (CHR '':'') [''punks'', uuid_to_string (dl_uuid lib) com, ''tunnel'', uuid_to_string (dl_uuid lib) sid, suffix]"
    by (simp add: session_base_key_def)
  have s: "split_on (CHR '':'') (join_with (CHR '':'')
        [''punks'', uuid_to_string (dl_uuid lib) com, ''tunnel'', uuid_to_string (dl_uuid lib) sid, suffix]) =
      [''punks'', uuid_to_string (dl_uuid lib) com, ''tunnel'', uuid_to_string (dl_uuid lib) sid, suffix]"
    by (rule split_join) (use assms in \<open>auto simp: uuid_codec_def\<close>)
  show ?thesis by (simp only: j s)
qed

lemma base_key_eq:
  assumes "uuid_codec (dl_uuid lib)" and "CHR '':'' \<notin> set s" and "CHR '':'' \<notin> set s'"
  shows "session_base_key lib com sid @ '':'' @ s = session_base_key lib com' sid' @ '':'' @ s' \<longleftrightarrow>
    com = com' \<and> sid = sid' \<and> s = s'"
proof
  assume "session_base_key lib com sid @ '':'' @ s = session_base_key lib com' sid' @ '':'' @ s'"
  then have "split_on (CHR '':'') (session_base_key lib com sid @ '':'' @ s) =
      split_on (CHR '':'') (session_base_key lib com' sid' @ '':'' @ s')" by simp
  then have "uuid_to_string (dl_uuid lib) com = uuid_to_string (dl_uuid lib) com'"
      "uuid_to_string (dl_uuid lib) sid = uuid_to_string (dl_uuid lib) sid'" "s = s'"
    using split_base_key [OF assms(1,2), of com sid] split_base_key [OF assms(1,3), of com' sid'] by simp_all
  then show "com = com' \<and> sid = sid' \<and> s = s'"
    using assms(1) by (metis option.inject uuid_codec_def)
qed simp

lemma key_eq [simp]:
  assumes "dir_lawful lib"
  shows "lease_key lib com sid = lease_key lib com' sid' \<longleftrightarrow> com = com' \<and> sid = sid'"
    "generation_key lib com sid = generation_key lib com' sid' \<longleftrightarrow> com = com' \<and> sid = sid'"
    "lease_key lib com sid \<noteq> generation_key lib com' sid'"
    "generation_key lib com sid \<noteq> lease_key lib com' sid'"
proof -
  note e = base_key_eq [of lib "''lease''" "''lease''" com sid com' sid'] base_key_eq [of lib "''lease''" "''generation''" com sid com' sid']
    base_key_eq [of lib "''generation''" "''generation''" com sid com' sid'] base_key_eq [of lib "''generation''" "''lease''" com sid com' sid']
  have "uuid_codec (dl_uuid lib)" using assms by (simp add: dir_lawful_def)
  with e show "lease_key lib com sid = lease_key lib com' sid' \<longleftrightarrow> com = com' \<and> sid = sid'"
    "generation_key lib com sid = generation_key lib com' sid' \<longleftrightarrow> com = com' \<and> sid = sid'"
    "lease_key lib com sid \<noteq> generation_key lib com' sid'"
    "generation_key lib com sid \<noteq> lease_key lib com' sid'"
    by (auto simp: lease_key_def generation_key_def)
qed

section \<open>Lease values\<close>

definition lease_value :: "dir_lib \<Rightarrow> session_lease \<Rightarrow> string" where
  "lease_value lib l = dl_hex_encode lib (sl_owner_runtime_id l) @ ''|'' @ decimal (sl_generation l) @ ''|'' @
     profile_as_wire_str (sl_profile l)"

lemma profile_round_trip [simp]: "profile_from_wire (profile_as_wire_str p) = Some p"
  by (cases p) (simp_all add: profile_from_wire_def)

lemma decimal_no: "\<not> is_ascii_digit x \<Longrightarrow> x \<notin> set (decimal n)"
  using decimal_digits [of n] by (auto simp: list_all_iff)

lemma parse_u64_decimal: "n < 2 ^ 64 \<Longrightarrow> parse_u64 (decimal n) = Some n"
proof -
  assume n: "n < 2 ^ 64"
  have "CHR ''+'' \<notin> set (decimal n)" by (rule decimal_no) (simp add: is_ascii_digit_def)
  then obtain c cs where "decimal n = c # cs" "c \<noteq> CHR ''+''"
    by (cases "decimal n") (auto simp: decimal.simps [of n] split: if_splits)
  with n decimal_digits [of n] undecimal_decimal [of n] show ?thesis by (simp add: parse_u64_def)
qed

lemma split_lease_value:
  assumes "dir_lawful lib"
  shows "split_on (CHR ''|'') (lease_value lib l) =
    [dl_hex_encode lib (sl_owner_runtime_id l), decimal (sl_generation l), profile_as_wire_str (sl_profile l)]"
proof -
  have "CHR ''|'' \<notin> set (decimal n)" for n by (rule decimal_no) (simp add: is_ascii_digit_def)
  moreover have "CHR ''|'' \<notin> set (profile_as_wire_str p)" for p by (cases p) simp_all
  moreover have "lease_value lib l = join_with (CHR ''|'')
      [dl_hex_encode lib (sl_owner_runtime_id l), decimal (sl_generation l), profile_as_wire_str (sl_profile l)]"
    by (simp add: lease_value_def)
  ultimately show ?thesis
    using assms split_join [of "[dl_hex_encode lib (sl_owner_runtime_id l), decimal (sl_generation l), profile_as_wire_str (sl_profile l)]" "CHR ''|''"]
    by (auto simp: dir_lawful_def)
qed

lemma parse_lease_value:
  assumes "dir_lawful lib" and "0 < sl_generation l" and "sl_generation l < 2 ^ 64" and "length (sl_owner_runtime_id l) = 32"
  shows "parse_lease lib (sl_community_id l) (sl_session_id l) (lease_value lib l) = Inr l"
  using assms by (simp add: parse_lease_def split_lease_value parse_u64_decimal dir_lawful_def)

lemma lease_value_nonempty [simp]: "lease_value lib l \<noteq> []"
  by (simp add: lease_value_def)

section \<open>Histories\<close>

definition grants :: "community_id \<Rightarrow> uuid \<Rightarrow> session_lease list \<Rightarrow> session_lease list" where
  "grants com sid hist = filter (\<lambda>l. sl_community_id l = com \<and> sl_session_id l = sid) hist"

text \<open>The lease an acquisition wrote, whatever its caller was told: none when the store is unchanged.\<close>

definition new_grant ::
    "dir_lib \<Rightarrow> community_id \<Rightarrow> uuid \<Rightarrow> runtime_id \<Rightarrow> profile \<Rightarrow> redis \<Rightarrow> redis \<Rightarrow> session_lease list" where
  "new_grant lib com sid owner prof r r' =
     (if r' = r then []
      else [\<lparr>sl_community_id = com, sl_session_id = sid, sl_owner_runtime_id = owner,
             sl_generation = undecimal (fst (the (map_of r' (generation_key lib com sid)))), sl_profile = prof\<rparr>])"

inductive dir_run :: "dir_lib \<Rightarrow> session_lease list \<Rightarrow> redis \<Rightarrow> bool" for lib where
  dir_start: "dir_run lib [] []"
| dir_acquire: "dir_run lib hist r \<Longrightarrow> length owner = 32 \<Longrightarrow> acquire lib c com sid owner prof r = (res, r') \<Longrightarrow>
    dir_run lib (new_grant lib com sid owner prof r r' @ hist) r'"
| dir_renew: "dir_run lib hist r \<Longrightarrow> dir_run lib hist (snd (renew lib c l r))"
| dir_release: "dir_run lib hist r \<Longrightarrow> dir_run lib hist (snd (release lib c l r))"
| dir_expire: "dir_run lib hist r \<Longrightarrow> map_of r k = Some (v, Some expiry) \<Longrightarrow> dir_run lib hist (redis_del k r)"

text \<open>The counter is the number of grants, the generations of a session's grants count down from it, and
  a lease that is present is the most recent grant.\<close>

definition session_ok :: "dir_lib \<Rightarrow> session_lease list \<Rightarrow> redis \<Rightarrow> community_id \<Rightarrow> uuid \<Rightarrow> bool" where
  "session_ok lib hist r com sid \<longleftrightarrow>
     (let gs = grants com sid hist in
      map_of r (generation_key lib com sid) = (if gs = [] then None else Some (decimal (length gs), None)) \<and>
      map sl_generation gs = rev [1..<Suc (length gs)] \<and> list_all (\<lambda>l. length (sl_owner_runtime_id l) = 32) gs \<and>
      (\<forall>v e. map_of r (lease_key lib com sid) = Some (v, e) \<longrightarrow> gs \<noteq> [] \<and> v = lease_value lib (hd gs) \<and> e \<noteq> None))"

definition dir_inv :: "dir_lib \<Rightarrow> session_lease list \<Rightarrow> redis \<Rightarrow> bool" where
  "dir_inv lib hist r \<longleftrightarrow> (\<forall>com sid. session_ok lib hist r com sid)"

lemma mutate_store: "snd (mutate c script r) = r \<or> (\<exists>reply. script r = Inr (reply, snd (mutate c script r)))"
  by (auto simp: mutate_def split: option.splits prod.splits bool.splits sum.splits)

lemma acquire_snd:
  "snd (acquire lib c com sid owner prof r) = r \<or>
   (\<exists>ttl. snd (acquire lib c com sid owner prof r) =
      snd (mutate c (acquire_script lib (dc_now c) (lease_key lib com sid) (generation_key lib com sid)
        (dl_hex_encode lib owner) (profile_as_wire_str prof) ttl) r))"
  by (auto simp: acquire_def split: sum.splits prod.splits) (metis snd_conv)+

lemma acquire_store:
  assumes "acquire lib c com sid owner prof r = (res, r')"
  obtains "r' = r" | ttl reply where "acquire_script lib (dc_now c) (lease_key lib com sid) (generation_key lib com sid)
    (dl_hex_encode lib owner) (profile_as_wire_str prof) ttl r = Inr (reply, r')"
  using acquire_snd [of lib c com sid owner prof r] assms
    mutate_store [of c "acquire_script lib (dc_now c) (lease_key lib com sid) (generation_key lib com sid)
        (dl_hex_encode lib owner) (profile_as_wire_str prof) _" r]
  by (metis snd_conv)

lemma renew_script_store:
  "renew_script now lkey gkey owner g ttl r = Inr (reply, r') \<Longrightarrow>
     r' = r \<or> (\<exists>v e. map_of r lkey = Some (v, e) \<and> r' = AList.update lkey (v, Some (now + ttl)) r)"
  by (auto simp: renew_script_def redis_pexpire_def Let_def split: option.splits if_splits prod.splits)

lemma release_script_store:
  "release_script now lkey gkey owner g r = Inr (reply, r') \<Longrightarrow> r' = r \<or> r' = AList.delete lkey r"
  by (auto simp: release_script_def redis_del_def Let_def split: option.splits if_splits prod.splits)

lemma renew_store:
  "snd (renew lib c l r) = r \<or>
   (\<exists>v e e'. map_of r (lease_key lib (sl_community_id l) (sl_session_id l)) = Some (v, e) \<and>
      snd (renew lib c l r) = AList.update (lease_key lib (sl_community_id l) (sl_session_id l)) (v, Some e') r)"
proof -
  have "snd (renew lib c l r) = r \<or> (\<exists>owner g ttl. snd (renew lib c l r) =
      snd (mutate c (renew_script (dc_now c) (lease_key lib (sl_community_id l) (sl_session_id l))
        (generation_key lib (sl_community_id l) (sl_session_id l)) owner g ttl) r))"
    by (auto simp: renew_def Let_def split: sum.splits prod.splits) (metis snd_conv)+
  then show ?thesis using mutate_store renew_script_store by metis
qed

lemma release_store:
  "snd (release lib c l r) = r \<or>
   snd (release lib c l r) = AList.delete (lease_key lib (sl_community_id l) (sl_session_id l)) r"
proof -
  have "snd (release lib c l r) = r \<or> (\<exists>owner g. snd (release lib c l r) =
      snd (mutate c (release_script (dc_now c) (lease_key lib (sl_community_id l) (sl_session_id l))
        (generation_key lib (sl_community_id l) (sl_session_id l)) owner g) r))"
    by (auto simp: release_def Let_def split: sum.splits prod.splits) (metis snd_conv)+
  then show ?thesis using mutate_store release_script_store by metis
qed

lemma session_okD:
  assumes "session_ok lib hist r com sid"
  shows "map_of r (generation_key lib com sid) =
      (if grants com sid hist = [] then None else Some (decimal (length (grants com sid hist)), None))"
    and "map sl_generation (grants com sid hist) = rev [1..<Suc (length (grants com sid hist))]"
    and "l \<in> set (grants com sid hist) \<Longrightarrow> length (sl_owner_runtime_id l) = 32"
    and "map_of r (lease_key lib com sid) = Some (v, e) \<Longrightarrow>
      grants com sid hist \<noteq> [] \<and> v = lease_value lib (hd (grants com sid hist)) \<and> e \<noteq> None"
  using assms unfolding session_ok_def Let_def list_all_iff by blast+

lemma inv_lease_update:
  assumes "dir_lawful lib" and "dir_inv lib hist r" and "map_of r (lease_key lib com sid) = Some (v, e)"
  shows "dir_inv lib hist (AList.update (lease_key lib com sid) (v, Some e') r)"
  using assms by (auto simp: dir_inv_def session_ok_def Let_def)

lemma inv_delete:
  assumes "dir_inv lib hist r" and "map_of r k = Some (v, Some e) \<or> map_of r k = None"
  shows "dir_inv lib hist (AList.delete k r)"
proof -
  have "session_ok lib hist (AList.delete k r) com sid" for com sid
  proof -
    have ok: "session_ok lib hist r com sid" using assms(1) by (simp add: dir_inv_def)
    have gen: "map_of (AList.delete k r) (generation_key lib com sid) = map_of r (generation_key lib com sid)"
      using session_okD(1) [OF ok] assms(2) by (auto split: if_splits)
    have lease: "map_of (AList.delete k r) (lease_key lib com sid) = Some x \<Longrightarrow> map_of r (lease_key lib com sid) = Some x" for x
      by (auto split: if_splits)
    show ?thesis using ok lease unfolding session_ok_def Let_def gen by blast
  qed
  then show ?thesis by (simp add: dir_inv_def)
qed

lemma redis_get_generation:
  assumes "session_ok lib hist r com sid"
  shows "redis_get now (generation_key lib com sid) r =
    (if grants com sid hist = [] then None else Some (decimal (length (grants com sid hist))))"
  using session_okD(1) [OF assms] by (simp add: redis_get_def)

lemma redis_get_lease:
  assumes "session_ok lib hist r com sid" and "redis_get now (lease_key lib com sid) r = Some v"
  shows "grants com sid hist \<noteq> [] \<and> v = lease_value lib (hd (grants com sid hist))"
  using assms(2) session_okD(4) [OF assms(1)] by (auto simp: redis_get_def split: option.splits prod.splits if_splits)

text \<open>A successful acquisition script counts one further and writes the lease of that generation.\<close>

lemma acquire_script_grants:
  assumes "session_ok lib hist r com sid"
    and "acquire_script lib now (lease_key lib com sid) (generation_key lib com sid) owner prof ttl r = Inr (reply, r')"
  shows "r' = r \<and> (\<exists>v g. reply = (''exists'', v, g) \<and> redis_get now (lease_key lib com sid) r = Some v) \<or>
    (let n = Suc (length (grants com sid hist)); v = owner @ ''|'' @ dl_lua_tostring lib n @ ''|'' @ prof
     in reply = (''acquired'', v, dl_lua_tostring lib n) \<and>
        r' = AList.update (lease_key lib com sid) (v, Some (now + ttl)) (AList.update (generation_key lib com sid) (decimal n, None) r))"
  using assms(2) decimal_digits [of "length (grants com sid hist)"] session_okD(1) [OF assms(1)]
  by (auto simp: acquire_script_def redis_incr_def redis_expiry_def redis_set_px_def redis_get_generation [OF assms(1)] undecimal_decimal
      and_then_Inr_iff Let_def split: option.splits if_splits)

lemma generations_Cons:
  "map sl_generation gs = rev [1..<Suc (length gs)] \<Longrightarrow> sl_generation l = Suc (length gs) \<Longrightarrow>
     map sl_generation (l # gs) = rev [1..<Suc (length (l # gs))]"
  by simp

lemma inv_acquire:
  assumes lawful: "dir_lawful lib" and inv: "dir_inv lib hist r" and owner: "length owner = 32"
    and few: "length hist < 10 ^ 14 - 1" and acq: "acquire lib c com sid owner prof r = (res, r')"
  shows "dir_inv lib (new_grant lib com sid owner prof r r' @ hist) r'"
proof -
  have ok: "session_ok lib hist r com' sid'" for com' sid' using inv by (simp add: dir_inv_def)
  from acq show ?thesis
  proof (cases rule: acquire_store)
    case 1
    with inv show ?thesis by (simp add: new_grant_def)
  next
    case (2 ttl reply)
    let ?n = "Suc (length (grants com sid hist))"
    let ?v = "dl_hex_encode lib owner @ ''|'' @ dl_lua_tostring lib ?n @ ''|'' @ profile_as_wire_str prof"
    show ?thesis
    proof (cases "r' = r")
      case True
      with inv show ?thesis by (simp add: new_grant_def)
    next
      case False
      with acquire_script_grants [OF ok 2] have r': "r' = AList.update (lease_key lib com sid) (?v, Some (dc_now c + ttl))
          (AList.update (generation_key lib com sid) (decimal ?n, None) r)"
        by (auto simp: Let_def)
      define l where "l = \<lparr>sl_community_id = com, sl_session_id = sid, sl_owner_runtime_id = owner,
        sl_generation = ?n, sl_profile = prof\<rparr>"
      have g: "new_grant lib com sid owner prof r r' = [l]"
        using False r' lawful by (simp add: new_grant_def l_def undecimal_decimal)
      have "length (grants com sid hist) \<le> length hist" by (simp add: grants_def)
      with few have "?n < 10 ^ 14" by linarith
      with lawful have v: "?v = lease_value lib l" by (simp add: lease_value_def l_def dir_lawful_def)
      have "session_ok lib (l # hist) r' com' sid'" for com' sid'
      proof (cases "com' = com \<and> sid' = sid")
        case True
        then have "grants com' sid' (l # hist) = l # grants com sid hist" by (simp add: grants_def l_def)
        with True ok [of com sid] lawful owner r' v show ?thesis
          by (simp add: session_ok_def Let_def) (simp add: l_def)
      next
        case False
        then have "grants com' sid' (l # hist) = grants com' sid' hist" by (auto simp: grants_def l_def)
        moreover have "map_of r' (generation_key lib com' sid') = map_of r (generation_key lib com' sid')"
          "map_of r' (lease_key lib com' sid') = map_of r (lease_key lib com' sid')"
          using False lawful by (auto simp: r')
        ultimately show ?thesis using ok [of com' sid'] by (simp add: session_ok_def)
      qed
      with g show ?thesis by (simp add: dir_inv_def)
    qed
  qed
qed

lemma dir_run_inv:
  assumes "dir_run lib hist r" and "dir_lawful lib" and "length hist < 10 ^ 14"
  shows "dir_inv lib hist r"
  using assms(1,3)
proof (induction rule: dir_run.induct)
  case dir_start
  then show ?case by (simp add: dir_inv_def session_ok_def grants_def)
next
  case (dir_acquire hist r owner c com sid prof res r')
  show ?case
  proof (cases "r' = r")
    case True
    with dir_acquire show ?thesis by (simp add: new_grant_def)
  next
    case False
    with dir_acquire.prems have "length hist < 10 ^ 14 - 1" by (simp add: new_grant_def)
    with dir_acquire assms(2) show ?thesis by (simp add: inv_acquire)
  qed
next
  case (dir_renew hist r c l)
  with renew_store [of lib c l r] inv_lease_update [OF assms(2)] show ?case by metis
next
  case (dir_release hist r c l)
  let ?k = "lease_key lib (sl_community_id l) (sl_session_id l)"
  from dir_release have inv: "dir_inv lib hist r" by simp
  have "(\<exists>v e. map_of r ?k = Some (v, Some e)) \<or> map_of r ?k = None"
    using session_okD(4) [of lib hist r "sl_community_id l" "sl_session_id l"] inv
    by (cases "map_of r ?k") (auto simp: dir_inv_def)
  with release_store [of lib c l r] inv inv_delete [OF inv] show ?case by metis
next
  case (dir_expire hist r k v expiry)
  then show ?case by (simp add: inv_delete redis_del_def)
qed

section \<open>Properties\<close>

lemma grant_bounds:
  assumes "session_ok lib hist r com sid" and "l \<in> set (grants com sid hist)"
  shows "0 < sl_generation l \<and> sl_generation l \<le> length (grants com sid hist)"
proof -
  from assms(2) have "sl_generation l \<in> set (map sl_generation (grants com sid hist))" by simp
  then show ?thesis unfolding session_okD(2) [OF assms(1)] by auto
qed

lemma hd_generation:
  assumes "session_ok lib hist r com sid" and "grants com sid hist = l # rest"
  shows "sl_generation l = Suc (length rest)"
  using session_okD(2) [OF assms(1)] assms(2) by simp

lemma parse_current:
  assumes "dir_lawful lib" and "session_ok lib hist r com sid" and "length hist < 10 ^ 14" and "grants com sid hist = l # rest"
  shows "parse_lease lib com sid (lease_value lib l) = Inr l"
proof -
  have "l \<in> set (grants com sid hist)" using assms(4) by simp
  then have "sl_community_id l = com" "sl_session_id l = sid" "length (sl_owner_runtime_id l) = 32"
    using session_okD(3) [OF assms(2)] by (auto simp: grants_def)
  moreover have "length (grants com sid hist) \<le> length hist" by (simp add: grants_def)
  with assms(3,4) have "sl_generation l < 2 ^ 64" unfolding hd_generation [OF assms(2,4)] by simp
  ultimately show ?thesis
    using parse_lease_value [OF assms(1), of l] hd_generation [OF assms(2,4)] by simp
qed

lemma check_fence_ok:
  "check_fence fenced (Some l) n = Inr () \<longleftrightarrow>
     fh_generation fenced = sl_generation l \<and> fh_owner_runtime_id fenced = sl_owner_runtime_id l \<and> n \<le> sl_generation l"
  by (auto simp: check_fence_def Let_def)

lemma validate_iff_latest_grant:
  assumes "dir_lawful lib" and "dir_run lib hist r" and "length hist < 10 ^ 14"
    and "dc_pool_error c = None" and "dc_redis_error c = None"
  shows "validate_fenced_header lib c com fenced r = Inr () \<longleftrightarrow>
    redis_get (dc_now c) (lease_key lib com (fh_session_id fenced)) r \<noteq> None \<and>
    (\<exists>l rest. grants com (fh_session_id fenced) hist = l # rest \<and> fenced = lease_fenced_header l)"
proof -
  let ?sid = "fh_session_id fenced"
  have ok: "session_ok lib hist r com ?sid"
    using dir_run_inv [OF assms(2,1,3)] by (simp add: dir_inv_def)
  have few: "length (grants com ?sid hist) < 2 ^ 64"
  proof -
    have "length (grants com ?sid hist) \<le> length hist" by (simp add: grants_def)
    with assms(3) show ?thesis by simp
  qed
  show ?thesis
  proof (cases "redis_get (dc_now c) (lease_key lib com ?sid) r")
    case None
    then show ?thesis
      using assms(4,5) by (auto simp: validate_fenced_header_def validate_script_def or_empty_def Let_def
          parse_optional_lease_def check_fence_def split: sum.splits if_splits)
  next
    case (Some v)
    with redis_get_lease [OF ok] obtain l rest where gs: "grants com ?sid hist = l # rest" "v = lease_value lib l"
      by (cases "grants com ?sid hist") auto
    have sess: "sl_session_id l = ?sid" using arg_cong [OF gs(1), of set] by (auto simp: grants_def)
    have known: "parse_optional_generation com ?sid (or_empty (redis_get (dc_now c) (generation_key lib com ?sid) r)) =
        Inr (Some (sl_generation l))"
      using few gs(1) hd_generation [OF ok gs(1)]
      by (simp add: redis_get_generation [OF ok] or_empty_def parse_optional_generation_def parse_u64_decimal)
         (simp add: decimal.simps)
    have "validate_fenced_header lib c com fenced r = check_fence fenced (Some l) (sl_generation l)"
      using assms(4,5) Some gs(2) known parse_current [OF assms(1) ok assms(3) gs(1)]
      by (simp add: validate_fenced_header_def validate_script_def or_empty_def [of "Some _"] parse_optional_lease_def Let_def)
    with Some gs(1) sess show ?thesis
      by (cases fenced) (auto simp: check_fence_ok lease_fenced_header_def)
  qed
qed

text \<open>C5.  On a healthy connection a frame passes the fence exactly when its session has a live lease and
  the frame carries the owner and the generation of the most recent grant.  Once another runtime has
  been granted the session, no frame of an earlier owner is accepted again.\<close>

theorem fence_admits_latest_grant_only:
  assumes "dir_lawful lib" and "dir_run lib hist r" and "length hist < 10 ^ 14"
    and "dc_pool_error c = None" and "dc_redis_error c = None"
  shows "validate_fenced_header lib c com fenced r = Inr () \<longleftrightarrow>
    redis_get (dc_now c) (lease_key lib com (fh_session_id fenced)) r \<noteq> None \<and>
    (\<exists>l rest. grants com (fh_session_id fenced) hist = l # rest \<and> fenced = lease_fenced_header l)"
  by (rule validate_iff_latest_grant [OF assms])

lemma acquire_reply:
  assumes lawful: "dir_lawful lib" and ok: "session_ok lib hist r com sid" and few: "length hist < 10 ^ 14 - 1"
    and owner: "length owner = 32"
    and script: "acquire_script lib now (lease_key lib com sid) (generation_key lib com sid) (dl_hex_encode lib owner)
      (profile_as_wire_str prof) ttl r = Inr ((status, value, g), r1)"
  obtains (exists) l rest where "status = ''exists''" "r1 = r" "grants com sid hist = l # rest" "parse_lease lib com sid value = Inr l"
  | (acquired) l where "status = ''acquired''" "new_grant lib com sid owner prof r r1 = [l]" "parse_lease lib com sid value = Inr l"
      "sl_owner_runtime_id l = owner" "sl_profile l = prof" "\<forall>l' \<in> set (grants com sid hist). sl_generation l' < sl_generation l"
proof (cases "status = ''exists''")
  case True
  with acquire_script_grants [OF ok script] have e: "r1 = r" "redis_get now (lease_key lib com sid) r = Some value"
    by (auto simp: Let_def)
  with redis_get_lease [OF ok] obtain l rest where "grants com sid hist = l # rest" "value = lease_value lib l"
    by (cases "grants com sid hist") auto
  with parse_current [OF lawful ok _ this(1)] few e True exists show thesis by simp
next
  case False
  define n where "n = Suc (length (grants com sid hist))"
  define l where "l = \<lparr>sl_community_id = com, sl_session_id = sid, sl_owner_runtime_id = owner,
    sl_generation = n, sl_profile = prof\<rparr>"
  from False acquire_script_grants [OF ok script] have a: "status = ''acquired''"
      "value = dl_hex_encode lib owner @ ''|'' @ dl_lua_tostring lib n @ ''|'' @ profile_as_wire_str prof"
      "r1 = AList.update (lease_key lib com sid) (value, Some (now + ttl)) (AList.update (generation_key lib com sid) (decimal n, None) r)"
    by (auto simp: Let_def n_def)
  have "length (grants com sid hist) \<le> length hist" by (simp add: grants_def)
  with few have n: "n < 10 ^ 14" "0 < n" unfolding n_def by linarith+
  with lawful a have v: "value = lease_value lib l" by (simp add: lease_value_def l_def dir_lawful_def)
  have p: "parse_lease lib com sid value = Inr l"
    using parse_lease_value [OF lawful, of l] n owner by (simp add: v l_def)
  have gen: "map_of r1 (generation_key lib com sid) = Some (decimal n, None)" using a(3) lawful by simp
  moreover have "r1 \<noteq> r"
    using gen session_okD(1) [OF ok] by (auto simp: n_def decimal_inj split: if_splits)
  ultimately have g: "new_grant lib com sid owner prof r r1 = [l]"
    by (simp add: new_grant_def l_def undecimal_decimal)
  have "\<forall>l' \<in> set (grants com sid hist). sl_generation l' < sl_generation l"
    using grant_bounds [OF ok] by (auto simp: l_def n_def less_Suc_eq_le)
  with acquired [OF a(1) g p] show thesis by (simp add: l_def)
qed

lemma acquire_result_of_grants:
  assumes "dir_lawful lib" and "dir_run lib hist r" and "length hist < 10 ^ 14 - 1" and "length owner = 32"
    and "acquire lib c com sid owner prof r = (res, r')"
  shows "case res of
      Inr (Acquired l) \<Rightarrow> new_grant lib com sid owner prof r r' = [l] \<and> sl_owner_runtime_id l = owner \<and> sl_profile l = prof \<and>
        (\<forall>l' \<in> set (grants com sid hist). sl_generation l' < sl_generation l)
    | Inr (Exists l) \<Rightarrow> r' = r \<and> (\<exists>rest. grants com sid hist = l # rest)
    | Inl e \<Rightarrow> \<not> (\<exists>v. e = MalformedLease com sid v) \<and> \<not> (\<exists>s. e = UnexpectedScriptStatus s)"
proof -
  have len: "length hist < 10 ^ 14" using assms(3) by linarith
  have ok: "session_ok lib hist r com sid" using dir_run_inv [OF assms(2,1) len] by (simp add: dir_inv_def)
  let ?script = "acquire_script lib (dc_now c) (lease_key lib com sid) (generation_key lib com sid) (dl_hex_encode lib owner) (profile_as_wire_str prof)"
  show ?thesis
  proof (cases "and_then (begin_call c) (\<lambda>_. and_then (ttl_ms (dc_ttl c)) (\<lambda>ttl. and_then (pool_get c) (\<lambda>_. Inr ttl)))")
    case (Inl e)
    with assms(5) show ?thesis
      by (auto simp: acquire_def and_then_Inl_iff begin_call_def ttl_ms_def pool_get_def split: option.splits if_splits)
  next
    case start: (Inr ttl)
    obtain m r1 where m: "mutate c (?script ttl) r = (m, r1)" by fastforce
    show ?thesis
    proof (cases m)
      case (Inl e)
      with assms(5) start m show ?thesis
        by (auto simp: acquire_def mutate_def split: option.splits prod.splits sum.splits bool.splits)
    next
      case (Inr reply)
      then obtain status v g where m': "mutate c (?script ttl) r = (Inr (status, v, g), r1)"
        using m by (cases reply) auto
      then have "?script ttl r = Inr ((status, v, g), r1)"
        by (auto simp: mutate_def split: option.splits prod.splits sum.splits bool.splits)
      then show ?thesis
        by (cases rule: acquire_reply [OF assms(1) ok assms(3,4)])
           (use assms(5) start m' in \<open>auto simp: acquire_def finish_call_def split: option.splits\<close>)
    qed
  qed
qed

text \<open>An acquisition that succeeds gets a generation above every earlier one of its session and the
  caller's own runtime and profile; one that finds a live lease reports the most recent grant and
  changes nothing.  The directory never meets a malformed value of its own making.\<close>

theorem acquire_outcomes:
  assumes "dir_lawful lib" and "dir_run lib hist r" and "length hist < 10 ^ 14 - 1" and "length owner = 32"
    and "acquire lib c com sid owner prof r = (res, r')"
  shows "case res of
      Inr (Acquired l) \<Rightarrow> new_grant lib com sid owner prof r r' = [l] \<and> sl_owner_runtime_id l = owner \<and> sl_profile l = prof \<and>
        (\<forall>l' \<in> set (grants com sid hist). sl_generation l' < sl_generation l)
    | Inr (Exists l) \<Rightarrow> r' = r \<and> (\<exists>rest. grants com sid hist = l # rest)
    | Inl e \<Rightarrow> \<not> (\<exists>v. e = MalformedLease com sid v) \<and> \<not> (\<exists>s. e = UnexpectedScriptStatus s)"
  by (rule acquire_result_of_grants [OF assms])

section \<open>A concrete directory\<close>

definition ex_nibbles :: "u8 \<Rightarrow> string" where
  "ex_nibbles w = [char_of (97 + unat w div 16), char_of (97 + unat w mod 16)]"

fun ex_unnibbles :: "string \<Rightarrow> bytes option" where
  "ex_unnibbles [] = Some []"
| "ex_unnibbles [c] = None"
| "ex_unnibbles (a # b # cs) = map_option ((#) (word_of_nat ((of_char a - 97) * 16 + (of_char b - 97)))) (ex_unnibbles cs)"

definition ex_dir_lib :: dir_lib where
  "ex_dir_lib = \<lparr>dl_uuid = ex_codec, dl_hex_encode = (\<lambda>b. concat (map ex_nibbles b)), dl_hex_decode = ex_unnibbles,
     dl_lua_tostring = decimal\<rparr>"

lemma ex_nibbles_bounds: "97 + unat (w :: u8) div 16 < 256" "97 + unat (w :: u8) mod 16 < 256"
  using unat_u8 [of w] by simp_all

lemma ex_unnibbles_nibbles: "ex_unnibbles (concat (map ex_nibbles b)) = Some b"
proof (induction b)
  case (Cons w b)
  have "unat w div 16 * 16 + unat w mod 16 = unat w" by (rule div_mult_mod_eq)
  with Cons ex_nibbles_bounds [of w] show ?case by (simp add: ex_nibbles_def)
qed simp

lemma ex_nibbles_no_bar: "CHR ''|'' \<notin> set (ex_nibbles w)"
proof -
  have "unat w div 16 < 16" "unat w mod 16 < 16" using unat_u8 [of w] by (simp_all add: less_mult_imp_div_less)
  then have "of_char x < (113 :: nat)" if "x \<in> set (ex_nibbles w)" for x
    using that ex_nibbles_bounds [of w] by (auto simp: ex_nibbles_def)
  from this [of "CHR ''|''"] show ?thesis by auto
qed

lemma ex_dir_lib_lawful: "dir_lawful ex_dir_lib"
  using ex_codec_ok ex_unnibbles_nibbles ex_nibbles_no_bar by (auto simp: dir_lawful_def ex_dir_lib_def)

definition ex_call :: dir_call where
  "ex_call = \<lparr>dc_now = 100, dc_ttl = 30000, dc_begin_error = None, dc_pool_error = None, dc_redis_error = None,
     dc_protect_error = None, dc_finish_error = None\<rparr>"

definition ex_lease :: session_lease where
  "ex_lease = \<lparr>sl_community_id = 2, sl_session_id = 5, sl_owner_runtime_id = replicate 32 7, sl_generation = 1,
     sl_profile = ReliableStream\<rparr>"

definition ex_store :: redis where
  "ex_store = snd (acquire ex_dir_lib ex_call 2 5 (replicate 32 7) ReliableStream [])"

lemma ex_acquire:
  "acquire ex_dir_lib ex_call 2 5 (replicate 32 7) ReliableStream [] = (Inr (Acquired ex_lease), ex_store)"
  and ex_store_lease: "map_of ex_store (lease_key ex_dir_lib 2 5) = Some (lease_value ex_dir_lib ex_lease, Some 30100)"
  and ex_store_generation: "map_of ex_store (generation_key ex_dir_lib 2 5) = Some (decimal 1, None)"
proof -
  have p: "parse_lease ex_dir_lib 2 5 (lease_value ex_dir_lib ex_lease) = Inr ex_lease"
    using parse_lease_value [OF ex_dir_lib_lawful, of ex_lease] by (simp add: ex_lease_def)
  have v: "dl_hex_encode ex_dir_lib (replicate 32 7) @ ''|'' @ decimal 1 @ ''|'' @ ''reliable-stream'' = lease_value ex_dir_lib ex_lease"
    by (simp add: lease_value_def ex_lease_def)
  have a: "acquire ex_dir_lib ex_call 2 5 (replicate 32 7) ReliableStream [] = (Inr (Acquired ex_lease),
      AList.update (lease_key ex_dir_lib 2 5) (lease_value ex_dir_lib ex_lease, Some 30100)
        (AList.update (generation_key ex_dir_lib 2 5) (decimal 1, None) []))"
    using p v by (simp add: acquire_def ex_call_def begin_call_def ttl_ms_def pool_get_def mutate_def acquire_script_def
        redis_get_def redis_incr_def redis_set_px_def finish_call_def Let_def)
       (simp add: ex_dir_lib_def)
  then show "acquire ex_dir_lib ex_call 2 5 (replicate 32 7) ReliableStream [] = (Inr (Acquired ex_lease), ex_store)"
    by (simp add: ex_store_def)
  from a show "map_of ex_store (lease_key ex_dir_lib 2 5) = Some (lease_value ex_dir_lib ex_lease, Some 30100)"
    by (simp add: ex_store_def)
  from a key_eq(4) [OF ex_dir_lib_lawful, of 2 5 2 5]
  show "map_of ex_store (generation_key ex_dir_lib 2 5) = Some (decimal 1, None)"
    by (simp add: ex_store_def)
qed

theorem acquire_outcomes_witness:
  "new_grant ex_dir_lib 2 5 (replicate 32 7) ReliableStream [] ex_store = [ex_lease]"
  using acquire_outcomes [OF ex_dir_lib_lawful dir_start _ _ ex_acquire] by simp

lemma ex_grant: "new_grant ex_dir_lib 2 5 (replicate 32 7) ReliableStream [] ex_store = [ex_lease]"
  using ex_store_generation by (auto simp: new_grant_def ex_lease_def undecimal_decimal)

lemma ex_dir_run: "dir_run ex_dir_lib [ex_lease] ex_store"
  using dir_acquire [OF dir_start _ ex_acquire] by (simp add: ex_grant)

theorem fence_admits_latest_grant_only_witness:
  "validate_fenced_header ex_dir_lib ex_call 2 (lease_fenced_header ex_lease) ex_store = Inr ()"
proof -
  have sid: "fh_session_id (lease_fenced_header ex_lease) = 5" by (simp add: lease_fenced_header_def ex_lease_def)
  have "redis_get (dc_now ex_call) (lease_key ex_dir_lib 2 5) ex_store \<noteq> None"
    by (simp add: redis_get_def ex_store_lease ex_call_def)
  moreover have "grants 2 5 [ex_lease] = [ex_lease]" by (simp add: grants_def ex_lease_def)
  ultimately show ?thesis
    using fence_admits_latest_grant_only [OF ex_dir_lib_lawful ex_dir_run, of ex_call 2 "lease_fenced_header ex_lease"]
    by (simp add: sid ex_call_def)
qed

end
