(* ===== verification/Reliable_Tunnel.thy ===== *)
theory Reliable_Tunnel
  imports Session_Fencing
begin

text \<open>
  Reliable tunnel sessions between relay runtimes: \<open>crates/punks-relay/src/tunnel/reliable.rs\<close> with the
  frame types of \<open>crates/punks-relay-mesh/src/wire.rs\<close>.

  A mesh stream is the list of frames handed to it so far, whether its send half is finished, and
  the outcomes its receive half will yield; a failing transport is the function \<open>send_error\<close> from the
  number of frames sent to an error.  The sixteen bytes of a UUID are the parameters
  \<open>tl_uuid_bytes\<close> and \<open>tl_uuid_from_bytes\<close>.
\<close>

section \<open>Data\<close>

datatype goodbye_reason = SessionEnded | Draining | StaleGeneration

datatype stream_role = ControlRole | SessionRole fenced_header profile

record stream_hello =
  sh_sender :: runtime_id
  sh_role :: stream_role

datatype mesh_stream_frame =
    Hello stream_hello | Data fenced_header bytes | Goodbye fenced_header goodbye_reason | Gossip bytes

record mesh_stream =
  ms_sent :: "mesh_stream_frame list"
  ms_finished :: bool
  ms_incoming :: "(mesh_error, mesh_stream_frame option) result list"
  ms_send_error :: "nat \<Rightarrow> mesh_error option"
  ms_finish_error :: "mesh_error option"

datatype reliable_error =
    DirectoryFailed directory_error | MeshFailed mesh_error
  | ProfileMismatch uuid profile profile | SenderMismatch runtime_id runtime_id | UnexpectedStreamRole
  | OwnerIsNotLocal uuid runtime_id runtime_id | UnexpectedFrame string
  | FrameFenceMismatch fenced_header fenced_header | CommunityMismatch community_id community_id
  | MalformedReliableFrame string

record tunnel_lib =
  tl_dir :: dir_lib
  tl_uuid_bytes :: "uuid \<Rightarrow> bytes"
  tl_uuid_from_bytes :: "bytes \<Rightarrow> uuid"

definition MAX_RELIABLE_PAYLOAD_BYTES :: nat where "MAX_RELIABLE_PAYLOAD_BYTES = 1024 * 1024"

section \<open>The wire format of a session frame\<close>

datatype reliable_wire_frame = WireData community_id bytes | WireGoodbye community_id goodbye_reason

definition FRAME_VERSION :: u8 where "FRAME_VERSION = 1"
definition FRAME_DATA :: u8 where "FRAME_DATA = 1"
definition FRAME_GOODBYE :: u8 where "FRAME_GOODBYE = 2"

fun frame_community_id :: "reliable_wire_frame \<Rightarrow> community_id" where
  "frame_community_id (WireData com _) = com"
| "frame_community_id (WireGoodbye com _) = com"

fun to_wire_byte :: "goodbye_reason \<Rightarrow> u8" where
  "to_wire_byte SessionEnded = 1"
| "to_wire_byte Draining = 2"
| "to_wire_byte StaleGeneration = 3"

definition from_wire_byte :: "u8 \<Rightarrow> (reliable_error, goodbye_reason) result" where
  "from_wire_byte b =
     (if b = 1 then Inr SessionEnded else if b = 2 then Inr Draining else if b = 3 then Inr StaleGeneration
      else Inl (MalformedReliableFrame ''unknown goodbye reason''))"

fun encode_frame :: "tunnel_lib \<Rightarrow> reliable_wire_frame \<Rightarrow> bytes" where
  "encode_frame lib (WireData com payload) = [FRAME_VERSION, FRAME_DATA] @ tl_uuid_bytes lib com @ payload"
| "encode_frame lib (WireGoodbye com reason) =
     [FRAME_VERSION, FRAME_GOODBYE] @ tl_uuid_bytes lib com @ [to_wire_byte reason]"

definition decode_frame :: "tunnel_lib \<Rightarrow> bytes \<Rightarrow> (reliable_error, reliable_wire_frame) result" where
  "decode_frame lib bs =
     (if length bs < 18 then Inl (MalformedReliableFrame ''too short'')
      else if bs ! 0 \<noteq> FRAME_VERSION then Inl (MalformedReliableFrame ''unknown version'')
      else
        (let com = tl_uuid_from_bytes lib (take 16 (drop 2 bs)) in
         if bs ! 1 = FRAME_DATA then Inr (WireData com (drop 18 bs))
         else if bs ! 1 = FRAME_GOODBYE then
           (if length bs \<noteq> 19 then Inl (MalformedReliableFrame ''bad goodbye length'')
            else and_then (from_wire_byte (bs ! 18)) (\<lambda>reason. Inr (WireGoodbye com reason)))
         else Inl (MalformedReliableFrame ''unknown kind'')))"

section \<open>Streams\<close>

definition send_mesh_frame :: "mesh_stream_frame \<Rightarrow> mesh_stream \<Rightarrow> (reliable_error, unit) result \<times> mesh_stream" where
  "send_mesh_frame f ms = (case ms_send_error ms (length (ms_sent ms)) of
     Some e \<Rightarrow> (Inl (MeshFailed e), ms)
   | None \<Rightarrow> (Inr (), ms\<lparr>ms_sent := ms_sent ms @ [f]\<rparr>))"

definition finish_mesh :: "mesh_stream \<Rightarrow> (reliable_error, unit) result \<times> mesh_stream" where
  "finish_mesh ms = (case ms_finish_error ms of
     Some e \<Rightarrow> (Inl (MeshFailed e), ms)
   | None \<Rightarrow> (Inr (), ms\<lparr>ms_finished := True\<rparr>))"

record reliable_mesh_stream =
  rs_fenced :: fenced_header
  rs_stream :: mesh_stream
  rs_community_id :: "community_id option"

definition reliable_new :: "fenced_header \<Rightarrow> mesh_stream \<Rightarrow> reliable_mesh_stream" where
  "reliable_new fenced ms = \<lparr>rs_fenced = fenced, rs_stream = ms, rs_community_id = None\<rparr>"

definition with_community :: "community_id \<Rightarrow> reliable_mesh_stream \<Rightarrow> reliable_mesh_stream" where
  "with_community com s = s\<lparr>rs_community_id := Some com\<rparr>"

definition ensure_outbound_community ::
    "community_id \<Rightarrow> reliable_mesh_stream \<Rightarrow> (reliable_error, unit) result \<times> reliable_mesh_stream" where
  "ensure_outbound_community com s = (case rs_community_id s of
     Some expected \<Rightarrow> (if expected \<noteq> com then Inl (CommunityMismatch expected com) else Inr (), s)
   | None \<Rightarrow> (Inr (), s\<lparr>rs_community_id := Some com\<rparr>))"

text \<open>\<open>slice::chunks\<close>: consecutive pieces of at most \<open>n\<close> elements.\<close>

function chunks :: "nat \<Rightarrow> 'a list \<Rightarrow> 'a list list" where
  "chunks n xs = (if xs = [] \<or> n = 0 then [] else take n xs # chunks n (drop n xs))"
  by pat_completeness auto

termination
  by (relation "measure (\<lambda>(n, xs). length xs)") auto

declare chunks.simps [simp del]

fun send_chunks ::
    "tunnel_lib \<Rightarrow> community_id \<Rightarrow> bytes list \<Rightarrow> reliable_mesh_stream \<Rightarrow>
     (reliable_error, unit) result \<times> reliable_mesh_stream" where
  "send_chunks lib com [] s = (Inr (), s)"
| "send_chunks lib com (chunk # rest) s =
     (case send_mesh_frame (Data (rs_fenced s) (encode_frame lib (WireData com chunk))) (rs_stream s) of
        (Inl e, ms) \<Rightarrow> (Inl e, s\<lparr>rs_stream := ms\<rparr>)
      | (Inr _, ms) \<Rightarrow> send_chunks lib com rest (s\<lparr>rs_stream := ms\<rparr>))"

definition send_bytes ::
    "tunnel_lib \<Rightarrow> community_id \<Rightarrow> bytes \<Rightarrow> reliable_mesh_stream \<Rightarrow>
     (reliable_error, unit) result \<times> reliable_mesh_stream" where
  "send_bytes lib com bs s = (case ensure_outbound_community com s of
     (Inl e, s1) \<Rightarrow> (Inl e, s1)
   | (Inr _, s1) \<Rightarrow> send_chunks lib com (chunks MAX_RELIABLE_PAYLOAD_BYTES bs) s1)"

definition finish :: "reliable_mesh_stream \<Rightarrow> (reliable_error, unit) result \<times> reliable_mesh_stream" where
  "finish s = (case finish_mesh (rs_stream s) of (res, ms) \<Rightarrow> (res, s\<lparr>rs_stream := ms\<rparr>))"

definition send_goodbye ::
    "tunnel_lib \<Rightarrow> community_id \<Rightarrow> goodbye_reason \<Rightarrow> reliable_mesh_stream \<Rightarrow>
     (reliable_error, unit) result \<times> reliable_mesh_stream" where
  "send_goodbye lib com reason s = (case ensure_outbound_community com s of
     (Inl e, s1) \<Rightarrow> (Inl e, s1)
   | (Inr _, s1) \<Rightarrow>
       (case send_mesh_frame (Data (rs_fenced s1) (encode_frame lib (WireGoodbye com reason))) (rs_stream s1) of
          (Inl e, ms) \<Rightarrow> (Inl e, s1\<lparr>rs_stream := ms\<rparr>)
        | (Inr _, ms) \<Rightarrow> finish (s1\<lparr>rs_stream := ms\<rparr>)))"

definition validate_frame_fence ::
    "tunnel_lib \<Rightarrow> dir_call \<Rightarrow> redis \<Rightarrow> community_id \<Rightarrow> fenced_header \<Rightarrow> reliable_mesh_stream \<Rightarrow>
     (reliable_error, unit) result \<times> reliable_mesh_stream" where
  "validate_frame_fence lib c r com fenced s =
     (if fenced \<noteq> rs_fenced s then (Inl (FrameFenceMismatch (rs_fenced s) fenced), s)
      else case rs_community_id s of
        Some expected \<Rightarrow>
          if expected \<noteq> com then (Inl (CommunityMismatch expected com), s)
          else (map_sum MeshFailed id (validate_fenced_header (tl_dir lib) c com fenced r), s)
      | None \<Rightarrow> (case validate_fenced_header (tl_dir lib) c com fenced r of
          Inl e \<Rightarrow> (Inl (MeshFailed e), s)
        | Inr _ \<Rightarrow> (Inr (), s\<lparr>rs_community_id := Some com\<rparr>)))"

datatype reliable_frame = ReliableData bytes | ReliableGoodbye goodbye_reason

fun delivered :: "reliable_wire_frame \<Rightarrow> reliable_frame" where
  "delivered (WireData _ payload) = ReliableData payload"
| "delivered (WireGoodbye _ reason) = ReliableGoodbye reason"

text \<open>Receiving on a stream that has nothing more to yield is the end of the stream.\<close>

definition recv_mesh_frame :: "mesh_stream \<Rightarrow> (mesh_error, mesh_stream_frame option) result \<times> mesh_stream" where
  "recv_mesh_frame ms = (case ms_incoming ms of
     [] \<Rightarrow> (Inr None, ms)
   | x # rest \<Rightarrow> (x, ms\<lparr>ms_incoming := rest\<rparr>))"

definition recv_validated ::
    "tunnel_lib \<Rightarrow> dir_call \<Rightarrow> redis \<Rightarrow> reliable_mesh_stream \<Rightarrow>
     (reliable_error, reliable_frame option) result \<times> reliable_mesh_stream" where
  "recv_validated lib c r s = (case recv_mesh_frame (rs_stream s) of
     (Inl e, ms) \<Rightarrow> (Inl (MeshFailed e), s\<lparr>rs_stream := ms\<rparr>)
   | (Inr None, ms) \<Rightarrow> (Inr None, s\<lparr>rs_stream := ms\<rparr>)
   | (Inr (Some frame), ms) \<Rightarrow>
       (let s1 = s\<lparr>rs_stream := ms\<rparr> in
        case frame of
          Data fenced payload \<Rightarrow> (case decode_frame lib payload of
            Inl e \<Rightarrow> (Inl e, s1)
          | Inr f \<Rightarrow> (case validate_frame_fence lib c r (frame_community_id f) fenced s1 of
              (Inl e, s2) \<Rightarrow> (Inl e, s2)
            | (Inr _, s2) \<Rightarrow> (Inr (Some (delivered f)), s2)))
        | Goodbye _ _ \<Rightarrow> (Inl (UnexpectedFrame ''goodbye''), s1)
        | Hello _ \<Rightarrow> (Inl (UnexpectedFrame ''hello''), s1)
        | Gossip _ \<Rightarrow> (Inl (UnexpectedFrame ''gossip''), s1)))"

section \<open>The router\<close>

datatype reliable_join = Owned session_lease | Forwarded session_lease reliable_mesh_stream

text \<open>Opening a session stream at the owner is the transport's: the parameter \<open>open_stream\<close> takes the
  target and the greeting.\<close>

definition join_session ::
    "tunnel_lib \<Rightarrow> dir_call \<Rightarrow> (runtime_id \<Rightarrow> stream_hello \<Rightarrow> (mesh_error, mesh_stream) result) \<Rightarrow> runtime_id \<Rightarrow>
     community_id \<Rightarrow> uuid \<Rightarrow> redis \<Rightarrow> (reliable_error, reliable_join) result \<times> redis" where
  "join_session lib c open_stream local com sid r =
     (case acquire (tl_dir lib) c com sid local ReliableStream r of
        (Inl e, r1) \<Rightarrow> (Inl (DirectoryFailed e), r1)
      | (Inr (Acquired lease), r1) \<Rightarrow> (Inr (Owned lease), r1)
      | (Inr (Exists lease), r1) \<Rightarrow>
          (if sl_profile lease \<noteq> ReliableStream then Inl (ProfileMismatch sid ReliableStream (sl_profile lease))
           else if sl_owner_runtime_id lease = local then Inr (Owned lease)
           else
             (let fenced = lease_fenced_header lease;
                  hello = \<lparr>sh_sender = local, sh_role = SessionRole fenced ReliableStream\<rparr>
              in case open_stream (sl_owner_runtime_id lease) hello of
                   Inl e \<Rightarrow> Inl (MeshFailed e)
                 | Inr ms \<Rightarrow> Inr (Forwarded lease (reliable_new fenced ms))), r1))"

definition accept_inbound ::
    "runtime_id \<Rightarrow> runtime_id \<Rightarrow> stream_hello \<Rightarrow> mesh_stream \<Rightarrow> (reliable_error, reliable_mesh_stream) result" where
  "accept_inbound local peer hello ms =
     (if sh_sender hello \<noteq> peer then Inl (SenderMismatch peer (sh_sender hello))
      else case sh_role hello of
        ControlRole \<Rightarrow> Inl UnexpectedStreamRole
      | SessionRole fenced prof \<Rightarrow>
          if prof \<noteq> ReliableStream then Inl (ProfileMismatch (fh_session_id fenced) ReliableStream prof)
          else if fh_owner_runtime_id fenced \<noteq> local
          then Inl (OwnerIsNotLocal (fh_session_id fenced) (fh_owner_runtime_id fenced) local)
          else Inr (reliable_new fenced ms))"

section \<open>Lease renewal\<close>

text \<open>What the renewal task meets, in order: a tick of its timer, or the caller's cancellation.  The
  task ends at the first cancellation, loss or error; then it releases the lease.\<close>

datatype renewal_event = RenewTick dir_call | CallerCancelled

fun renew_until :: "dir_lib \<Rightarrow> session_lease \<Rightarrow> renewal_event list \<Rightarrow> redis \<Rightarrow> bool option \<times> redis" where
  "renew_until lib lease [] r = (None, r)"
| "renew_until lib lease (CallerCancelled # events) r = (Some True, r)"
| "renew_until lib lease (RenewTick c # events) r = (case renew lib c lease r of
     (Inr (Renewed _), r1) \<Rightarrow> renew_until lib lease events r1
   | (_, r1) \<Rightarrow> (Some False, r1))"

text \<open>The loss signal after the task ended, and the store; \<open>None\<close> while the task is still running.\<close>

definition lease_renewer ::
    "dir_lib \<Rightarrow> session_lease \<Rightarrow> renewal_event list \<Rightarrow> dir_call \<Rightarrow> redis \<Rightarrow> bool option \<times> redis" where
  "lease_renewer lib lease events release_call r = (case renew_until lib lease events r of
     (None, r1) \<Rightarrow> (None, r1)
   | (Some caller_cancelled, r1) \<Rightarrow> (case release lib release_call lease r1 of
       (Inr (Released _), r2) \<Rightarrow> (Some (\<not> caller_cancelled), r2)
     | (Inr (NotOwner _ _), r2) \<Rightarrow> (Some True, r2)
     | (Inl _, r2) \<Rightarrow> (Some (\<not> caller_cancelled), r2)))"

end
