(* ===== verification/Tunnel_Safety.thy ===== *)
theory Tunnel_Safety
  imports Reliable_Tunnel
begin

text \<open>
  What a reliable tunnel session promises: the frame format is unambiguous, bytes sent arrive in
  pieces of bounded size that concatenate to them, a frame is delivered only under the most recent
  grant of its session, a join reaches the owner the directory names, and a runtime that has lost a
  session can neither renew nor release the lease of its successor.
\<close>

section \<open>Frames\<close>

text \<open>The bytes of a UUID: sixteen of them, and both directions are inverse to each other.\<close>

definition tunnel_lawful :: "tunnel_lib \<Rightarrow> bool" where
  "tunnel_lawful lib \<longleftrightarrow> dir_lawful (tl_dir lib) \<and>
     (\<forall>u < 2 ^ 128. length (tl_uuid_bytes lib u) = 16 \<and> tl_uuid_from_bytes lib (tl_uuid_bytes lib u) = u) \<and>
     (\<forall>bs. length bs = 16 \<longrightarrow> tl_uuid_from_bytes lib bs < 2 ^ 128 \<and> tl_uuid_bytes lib (tl_uuid_from_bytes lib bs) = bs)"

lemma from_wire_byte_iff: "from_wire_byte b = Inr reason \<longleftrightarrow> b = to_wire_byte reason"
  by (cases reason) (auto simp: from_wire_byte_def)

lemma decode_encode_frame:
  assumes "tunnel_lawful lib" and "frame_community_id f < 2 ^ 128"
  shows "decode_frame lib (encode_frame lib f) = Inr f"
proof -
  have u: "length (tl_uuid_bytes lib (frame_community_id f)) = 16"
      "tl_uuid_from_bytes lib (tl_uuid_bytes lib (frame_community_id f)) = frame_community_id f"
    using assms by (auto simp: tunnel_lawful_def)
  show ?thesis
  proof (cases f)
    case (WireData com payload)
    with u show ?thesis by (simp add: decode_frame_def FRAME_VERSION_def FRAME_DATA_def)
  next
    case (WireGoodbye com reason)
    with u have "from_wire_byte ((tl_uuid_bytes lib com @ [to_wire_byte reason]) ! 16) = Inr reason"
      by (simp add: from_wire_byte_iff nth_append)
    with u WireGoodbye show ?thesis
      by (simp add: decode_frame_def FRAME_VERSION_def FRAME_GOODBYE_def FRAME_DATA_def)
  qed
qed

lemma list_split_header: "18 \<le> length bs \<Longrightarrow> bs = [bs ! 0, bs ! 1] @ take 16 (drop 2 bs) @ drop 18 bs"
proof -
  assume len: "18 \<le> length bs"
  then obtain a b cs where bs: "bs = a # b # cs"
    by (cases bs; cases "tl bs") auto
  with append_take_drop_id [of 16 cs] show ?thesis by simp
qed

lemma encode_decode_frame:
  assumes "tunnel_lawful lib" and "decode_frame lib bs = Inr f"
  shows "bs = encode_frame lib f \<and> frame_community_id f < 2 ^ 128"
proof -
  define com where "com = tl_uuid_from_bytes lib (take 16 (drop 2 bs))"
  from assms(2) have len: "18 \<le> length bs" and version: "bs ! 0 = FRAME_VERSION"
    by (auto simp: decode_frame_def split: if_splits)
  have c: "com < 2 ^ 128" "tl_uuid_bytes lib com = take 16 (drop 2 bs)"
    using assms(1) len by (auto simp: tunnel_lawful_def com_def)
  note bs = list_split_header [OF len, unfolded version, folded c(2)]
  from assms(2) len version consider
      "bs ! 1 = FRAME_DATA" "f = WireData com (drop 18 bs)"
    | reason where "bs ! 1 = FRAME_GOODBYE" "length bs = 19" "bs ! 18 = to_wire_byte reason" "f = WireGoodbye com reason"
    by (auto simp: decode_frame_def and_then_Inr_iff from_wire_byte_iff com_def Let_def split: if_splits)
  then show ?thesis
  proof cases
    case 1
    with bs c show ?thesis by simp
  next
    case (2 reason)
    then have "drop 18 bs = [to_wire_byte reason]"
      using Cons_nth_drop_Suc [of 18 bs] by simp
    with 2 bs c show ?thesis by simp
  qed
qed

text \<open>The wire format of session frames is unambiguous: decoding succeeds on exactly the encodings,
  and returns the frame that was encoded.\<close>

theorem wire_frame_exact:
  assumes "tunnel_lawful lib"
  shows "decode_frame lib bs = Inr f \<longleftrightarrow> bs = encode_frame lib f \<and> frame_community_id f < 2 ^ 128"
  using decode_encode_frame [OF assms] encode_decode_frame [OF assms] by blast

section \<open>Sending and receiving\<close>

lemma concat_chunks: "0 < n \<Longrightarrow> concat (chunks n xs) = xs"
proof (induction n xs rule: chunks.induct)
  case (1 n xs)
  then show ?case by (cases "xs = []") (simp_all add: chunks.simps [of n xs] chunks.simps [of n "[]"])
qed

lemma chunks_bounded: "c \<in> set (chunks n xs) \<Longrightarrow> c \<noteq> [] \<and> length c \<le> n"
proof (induction n xs rule: chunks.induct)
  case (1 n xs)
  then show ?case by (cases "xs = [] \<or> n = 0") (auto simp: chunks.simps [of n xs])
qed

definition data_frame :: "tunnel_lib \<Rightarrow> community_id \<Rightarrow> fenced_header \<Rightarrow> bytes \<Rightarrow> mesh_stream_frame" where
  "data_frame lib com fenced chunk = Data fenced (encode_frame lib (WireData com chunk))"

lemma send_chunks_sent:
  assumes "send_chunks lib com cs s = (Inr (), s')"
  shows "ms_sent (rs_stream s') = ms_sent (rs_stream s) @ map (data_frame lib com (rs_fenced s)) cs"
  using assms
proof (induction cs arbitrary: s)
  case (Cons c cs)
  then show ?case
    by (auto simp: send_mesh_frame_def data_frame_def split: option.splits)
qed simp

lemma send_chunks_prefix:
  "\<exists>n. ms_sent (rs_stream (snd (send_chunks lib com cs s))) =
     ms_sent (rs_stream s) @ map (data_frame lib com (rs_fenced s)) (take n cs)"
proof (induction cs arbitrary: s)
  case (Cons c cs)
  show ?case
  proof (cases "ms_send_error (rs_stream s) (length (ms_sent (rs_stream s)))")
    case None
    let ?s = "s\<lparr>rs_stream := (rs_stream s)\<lparr>ms_sent := ms_sent (rs_stream s) @ [data_frame lib com (rs_fenced s) c]\<rparr>\<rparr>"
    from Cons obtain n where n: "ms_sent (rs_stream (snd (send_chunks lib com cs ?s))) =
        ms_sent (rs_stream ?s) @ map (data_frame lib com (rs_fenced ?s)) (take n cs)" by blast
    have "send_chunks lib com (c # cs) s = send_chunks lib com cs ?s"
      using None by (simp add: send_mesh_frame_def data_frame_def)
    with n show ?thesis by (intro exI [of _ "Suc n"]) simp
  next
    case (Some e)
    then show ?thesis by (intro exI [of _ 0]) (simp add: send_mesh_frame_def)
  qed
qed simp

text \<open>Receiving once per directory state, as long as frames are delivered.\<close>

fun recv_run ::
    "tunnel_lib \<Rightarrow> (dir_call \<times> redis) list \<Rightarrow> reliable_mesh_stream \<Rightarrow> reliable_frame list \<times> reliable_mesh_stream" where
  "recv_run lib [] s = ([], s)"
| "recv_run lib ((c, r) # calls) s = (case recv_validated lib c r s of
     (Inr (Some f), s1) \<Rightarrow> (case recv_run lib calls s1 of (fs, s2) \<Rightarrow> (f # fs, s2))
   | (_, s1) \<Rightarrow> ([], s1))"

lemma recv_validated_data:
  assumes "tunnel_lawful lib" and "com < 2 ^ 128" and "rs_community_id s \<in> {None, Some com}"
    and "ms_incoming (rs_stream s) = Inr (Some (data_frame lib com (rs_fenced s) chunk)) # rest"
    and "validate_fenced_header (tl_dir lib) c com (rs_fenced s) r = Inr ()"
  shows "recv_validated lib c r s = (Inr (Some (ReliableData chunk)),
    s\<lparr>rs_stream := (rs_stream s)\<lparr>ms_incoming := rest\<rparr>, rs_community_id := Some com\<rparr>)"
  using assms decode_encode_frame [OF assms(1), of "WireData com chunk"]
  by (auto simp: recv_validated_def recv_mesh_frame_def data_frame_def validate_frame_fence_def simp del: encode_frame.simps)

lemma recv_run_data:
  assumes "tunnel_lawful lib" and "com < 2 ^ 128" and "rs_community_id s \<in> {None, Some com}"
    and "ms_incoming (rs_stream s) = map (Inr \<circ> Some \<circ> data_frame lib com (rs_fenced s)) cs"
    and "list_all (\<lambda>(c, r). validate_fenced_header (tl_dir lib) c com (rs_fenced s) r = Inr ()) calls"
    and "length calls = length cs"
  shows "fst (recv_run lib calls s) = map ReliableData cs"
  using assms(3-6)
proof (induction cs arbitrary: calls s)
  case (Cons chunk cs)
  then obtain c r calls' where calls: "calls = (c, r) # calls'" by (cases calls) auto
  with Cons.prems have "recv_validated lib c r s = (Inr (Some (ReliableData chunk)),
      s\<lparr>rs_stream := (rs_stream s)\<lparr>ms_incoming := map (Inr \<circ> Some \<circ> data_frame lib com (rs_fenced s)) cs\<rparr>, rs_community_id := Some com\<rparr>)"
    by (intro recv_validated_data [OF assms(1,2)]) simp_all
  with Cons.prems calls show ?case
    using Cons.IH [of "s\<lparr>rs_stream := (rs_stream s)\<lparr>ms_incoming := map (Inr \<circ> Some \<circ> data_frame lib com (rs_fenced s)) cs\<rparr>, rs_community_id := Some com\<rparr>" calls']
    by (auto split: prod.splits)
qed simp

text \<open>C33.  The bytes of a successful send go out as frames of at most one mebibyte each, and
  a receiver pinned to the same fence, whose directory admits it at every frame, is handed payloads
  that concatenate to exactly those bytes, in order.\<close>

theorem sent_bytes_arrive:
  assumes "tunnel_lawful lib" and "com < 2 ^ 128" and "send_bytes lib com bs s = (Inr (), s')"
    and "ms_sent (rs_stream s) = []"
    and "rs_fenced peer = rs_fenced s" and "rs_community_id peer \<in> {None, Some com}"
    and "ms_incoming (rs_stream peer) = map (Inr \<circ> Some) (ms_sent (rs_stream s'))"
    and "length calls = length (ms_sent (rs_stream s'))"
    and "list_all (\<lambda>(c, r). validate_fenced_header (tl_dir lib) c com (rs_fenced peer) r = Inr ()) calls"
  shows "\<exists>payloads. fst (recv_run lib calls peer) = map ReliableData payloads \<and> concat payloads = bs \<and>
    list_all (\<lambda>p. p \<noteq> [] \<and> length p \<le> MAX_RELIABLE_PAYLOAD_BYTES) payloads"
proof -
  let ?cs = "chunks MAX_RELIABLE_PAYLOAD_BYTES bs"
  define s1 where "s1 = snd (ensure_outbound_community com s)"
  from assms(3) have s1: "rs_fenced s1 = rs_fenced s" "rs_stream s1 = rs_stream s"
      "send_chunks lib com ?cs s1 = (Inr (), s')"
    by (auto simp: send_bytes_def ensure_outbound_community_def s1_def split: option.splits if_splits)
  then have sent: "ms_sent (rs_stream s') = map (data_frame lib com (rs_fenced peer)) ?cs"
    using send_chunks_sent [OF s1(3)] assms(4,5) by simp
  have "fst (recv_run lib calls peer) = map ReliableData ?cs"
    using assms(6-9) sent by (intro recv_run_data [OF assms(1,2)]) simp_all
  moreover have "concat ?cs = bs" by (rule concat_chunks) (simp add: MAX_RELIABLE_PAYLOAD_BYTES_def)
  ultimately show ?thesis using chunks_bounded by (intro exI [of _ ?cs]) (auto simp: list_all_iff)
qed

text \<open>C15.  A frame is delivered only when it is well formed, carries the fence the stream is pinned to, the
  session has a live lease and that fence is its most recent grant; the first delivered frame
  latches the community and every later one must agree with it.\<close>

theorem delivery_under_latest_grant:
  assumes "tunnel_lawful lib" and "dir_run (tl_dir lib) hist r" and "length hist < 10 ^ 14"
    and "recv_validated lib c r s = (Inr (Some frame), s')"
  shows "\<exists>f rest l older. ms_incoming (rs_stream s) = Inr (Some (Data (rs_fenced s) (encode_frame lib f))) # rest \<and>
    frame = delivered f \<and> rs_community_id s \<in> {None, Some (frame_community_id f)} \<and>
    rs_community_id s' = Some (frame_community_id f) \<and> rs_fenced s' = rs_fenced s \<and>
    grants (frame_community_id f) (fh_session_id (rs_fenced s)) hist = l # older \<and> rs_fenced s = lease_fenced_header l \<and>
    redis_get (dc_now c) (lease_key (tl_dir lib) (frame_community_id f) (fh_session_id (rs_fenced s))) r \<noteq> None"
proof -
  from assms(4) obtain fenced payload rest f where inc: "ms_incoming (rs_stream s) = Inr (Some (Data fenced payload)) # rest"
      and dec: "decode_frame lib payload = Inr f" and frame: "frame = delivered f"
      and val: "validate_frame_fence lib c r (frame_community_id f) fenced (s\<lparr>rs_stream := (rs_stream s)\<lparr>ms_incoming := rest\<rparr>\<rparr>) = (Inr (), s')"
    by (auto simp: recv_validated_def recv_mesh_frame_def Let_def split: list.splits sum.splits option.splits prod.splits mesh_stream_frame.splits)
  from val have v: "fenced = rs_fenced s" "rs_community_id s \<in> {None, Some (frame_community_id f)}"
      "validate_fenced_header (tl_dir lib) c (frame_community_id f) fenced r = Inr ()"
      "rs_community_id s' = Some (frame_community_id f)" "rs_fenced s' = rs_fenced s"
    by (auto simp: validate_frame_fence_def map_sum_def split: if_splits option.splits sum.splits)
  then have conn: "dc_pool_error c = None" "dc_redis_error c = None"
    by (auto simp: validate_fenced_header_def Let_def split: option.splits)
  have "dir_lawful (tl_dir lib)" using assms(1) by (simp add: tunnel_lawful_def)
  from validate_iff_latest_grant [OF this assms(2,3) conn, of "frame_community_id f" fenced] v
  obtain l older where g: "grants (frame_community_id f) (fh_session_id (rs_fenced s)) hist = l # older"
      "rs_fenced s = lease_fenced_header l"
      "redis_get (dc_now c) (lease_key (tl_dir lib) (frame_community_id f) (fh_session_id (rs_fenced s))) r \<noteq> None"
    by auto
  have "payload = encode_frame lib f" using encode_decode_frame [OF assms(1) dec] by simp
  with inc frame v g show ?thesis by (intro exI [of _ f] exI [of _ rest] exI [of _ l] exI [of _ older]) simp
qed

section \<open>Joining\<close>

definition greeting :: "runtime_id \<Rightarrow> session_lease \<Rightarrow> stream_hello" where
  "greeting local lease = \<lparr>sh_sender = local, sh_role = SessionRole (lease_fenced_header lease) ReliableStream\<rparr>"

text \<open>A join that ends as owner holds a lease of the joining runtime; a join that is forwarded names
  another runtime, the one of the most recent grant, opened a reliable-stream session to it, and
  that runtime accepts the greeting it was sent, on a stream pinned to the same fence.\<close>

theorem join_reaches_owner:
  assumes "dir_lawful (tl_dir lib)" and "dir_run (tl_dir lib) hist r" and "length hist < 10 ^ 14 - 1" and "length local = 32"
    and "join_session lib c open_stream local com sid r = (Inr res, r')"
  shows "case res of
      Owned lease \<Rightarrow> sl_owner_runtime_id lease = local \<and>
        (new_grant (tl_dir lib) com sid local ReliableStream r r' = [lease] \<or> r' = r \<and> (\<exists>rest. grants com sid hist = lease # rest))
    | Forwarded lease stream \<Rightarrow> r' = r \<and> sl_owner_runtime_id lease \<noteq> local \<and> (\<exists>rest. grants com sid hist = lease # rest) \<and>
        (\<exists>ms. open_stream (sl_owner_runtime_id lease) (greeting local lease) = Inr ms \<and>
           stream = reliable_new (lease_fenced_header lease) ms \<and>
           accept_inbound (sl_owner_runtime_id lease) local (greeting local lease) ms = Inr stream)"
proof -
  obtain acq r1 where acq: "acquire (tl_dir lib) c com sid local ReliableStream r = (acq, r1)" by fastforce
  note g = acquire_result_of_grants [OF assms(1-4) acq]
  show ?thesis
  proof (cases acq)
    case (Inl e)
    with acq assms(5) show ?thesis by (simp add: join_session_def)
  next
    case (Inr granted)
    show ?thesis
    proof (cases granted)
      case (Acquired lease)
      with Inr acq assms(5) g show ?thesis by (auto simp: join_session_def)
    next
      case (Exists lease)
      with Inr acq assms(5) g show ?thesis
        by (auto simp: join_session_def accept_inbound_def greeting_def lease_fenced_header_def Let_def split: if_splits sum.splits)
    qed
  qed
qed

section \<open>Losing a session\<close>

lemma lua_match_lease_value:
  assumes "dir_lawful lib" and "lua_match_lease (lease_value lib l) = Some (dl_hex_encode lib owner, decimal g)"
  shows "sl_owner_runtime_id l = owner \<and> sl_generation l = g"
proof -
  from assms have "dl_hex_encode lib (sl_owner_runtime_id l) = dl_hex_encode lib owner" "decimal (sl_generation l) = decimal g"
    by (auto simp: lua_match_lease_def split_lease_value split: if_splits)
  moreover have "dl_hex_decode lib (dl_hex_encode lib b) = Some b" for b using assms(1) by (simp add: dir_lawful_def)
  ultimately show ?thesis by (metis decimal_inj option.inject)
qed

text \<open>A lease that is not the most recent grant of its session: neither script matches what is stored.\<close>

definition superseded :: "session_lease list \<Rightarrow> session_lease \<Rightarrow> bool" where
  "superseded hist lease \<longleftrightarrow> (case grants (sl_community_id lease) (sl_session_id lease) hist of
     [] \<Rightarrow> False | l # older \<Rightarrow> lease \<in> set older)"

lemma superseded_no_match:
  assumes "dir_lawful lib" and "session_ok lib hist r (sl_community_id lease) (sl_session_id lease)" and "superseded hist lease"
    and "redis_get now (lease_key lib (sl_community_id lease) (sl_session_id lease)) r = Some v"
  shows "lua_match_lease v \<noteq> Some (dl_hex_encode lib (sl_owner_runtime_id lease), decimal (sl_generation lease))"
proof -
  let ?gs = "grants (sl_community_id lease) (sl_session_id lease) hist"
  from assms(3) obtain l older where gs: "?gs = l # older" "lease \<in> set older"
    by (auto simp: superseded_def split: list.splits)
  have "sl_generation lease \<in> set (map sl_generation older)" using gs(2) by simp
  moreover have "map sl_generation older = rev [1..<Suc (length older)]"
    using session_okD(2) [OF assms(2)] gs(1) by simp
  ultimately have "sl_generation lease \<noteq> sl_generation l"
    using hd_generation [OF assms(2) gs(1)] by auto
  moreover have "v = lease_value lib l" using redis_get_lease [OF assms(2,4)] gs(1) by simp
  ultimately show ?thesis using lua_match_lease_value [OF assms(1)] by metis
qed

lemma superseded_renew:
  assumes "dir_lawful lib" and "session_ok lib hist r (sl_community_id lease) (sl_session_id lease)" and "superseded hist lease"
  shows "snd (renew lib c lease r) = r \<and> (\<forall>l. fst (renew lib c lease r) \<noteq> Inr (Renewed l))"
  using superseded_no_match [OF assms]
  by (auto simp: renew_def mutate_def renew_script_def and_then_Inr_iff Let_def
      split: sum.splits option.splits prod.splits bool.splits if_splits)

lemma superseded_release:
  assumes "dir_lawful lib" and "session_ok lib hist r (sl_community_id lease) (sl_session_id lease)" and "superseded hist lease"
  shows "snd (release lib c lease r) = r \<and> (\<forall>l. fst (release lib c lease r) \<noteq> Inr (Released l))"
  using superseded_no_match [OF assms]
  by (auto simp: release_def mutate_def release_script_def and_then_Inr_iff Let_def
      split: sum.splits option.splits prod.splits bool.splits if_splits)

text \<open>C32.  Once a later grant exists, the renewal task of the earlier owner ends at its next tick with the
  loss signal raised, whatever the calls meet, and leaves the successor's lease as it is.\<close>

theorem superseded_owner_steps_down:
  assumes "dir_lawful lib" and "dir_run lib hist r" and "length hist < 10 ^ 14" and "superseded hist lease"
  shows "lease_renewer lib lease (RenewTick c # events) release_call r = (Some True, r)"
proof -
  have ok: "session_ok lib hist r (sl_community_id lease) (sl_session_id lease)"
    using dir_run_inv [OF assms(2,1,3)] by (simp add: dir_inv_def)
  obtain res where "renew lib c lease r = (res, r)" "\<forall>l. res \<noteq> Inr (Renewed l)"
    using superseded_renew [OF assms(1) ok assms(4), of c] by (cases "renew lib c lease r") auto
  then have "renew_until lib lease (RenewTick c # events) r = (Some False, r)"
    by (auto split: sum.splits renew_result.splits)
  moreover obtain rel where "release lib release_call lease r = (rel, r)" "\<forall>l. rel \<noteq> Inr (Released l)"
    using superseded_release [OF assms(1) ok assms(4), of release_call] by (cases "release lib release_call lease r") auto
  ultimately show ?thesis by (auto simp: lease_renewer_def split: sum.splits release_result.splits)
qed

section \<open>A concrete tunnel\<close>

definition ex_tunnel_lib :: tunnel_lib where
  "ex_tunnel_lib = \<lparr>tl_dir = ex_dir_lib, tl_uuid_bytes = byte_digits 16, tl_uuid_from_bytes = byte_value\<rparr>"

lemma ex_tunnel_lib_lawful: "tunnel_lawful ex_tunnel_lib"
  unfolding tunnel_lawful_def
proof (intro conjI allI impI)
  show "dir_lawful (tl_dir ex_tunnel_lib)" using ex_dir_lib_lawful by (simp add: ex_tunnel_lib_def)
next
  fix u :: nat
  assume "u < 2 ^ 128"
  then show "length (tl_uuid_bytes ex_tunnel_lib u) = 16" "tl_uuid_from_bytes ex_tunnel_lib (tl_uuid_bytes ex_tunnel_lib u) = u"
    using byte_value_digits [of u 16] by (simp_all add: ex_tunnel_lib_def)
next
  fix bs :: bytes
  assume "length bs = 16"
  then show "tl_uuid_from_bytes ex_tunnel_lib bs < 2 ^ 128"
      "tl_uuid_bytes ex_tunnel_lib (tl_uuid_from_bytes ex_tunnel_lib bs) = bs"
    using byte_digits_value [of bs] by (simp_all add: ex_tunnel_lib_def)
qed

lemma ex_fence_valid:
  "validate_fenced_header ex_dir_lib ex_call 2 (lease_fenced_header ex_lease) ex_store = Inr ()"
proof -
  have sid: "fh_session_id (lease_fenced_header ex_lease) = 5" by (simp add: lease_fenced_header_def ex_lease_def)
  have "redis_get (dc_now ex_call) (lease_key ex_dir_lib 2 5) ex_store \<noteq> None"
    by (simp add: redis_get_def ex_store_lease ex_call_def)
  moreover have "grants 2 5 [ex_lease] = [ex_lease]" by (simp add: grants_def ex_lease_def)
  ultimately show ?thesis
    using validate_iff_latest_grant [OF ex_dir_lib_lawful ex_dir_run, of ex_call 2 "lease_fenced_header ex_lease"]
    by (simp add: sid ex_call_def)
qed

definition ex_stream :: "(mesh_error, mesh_stream_frame option) result list \<Rightarrow> reliable_mesh_stream" where
  "ex_stream incoming = reliable_new (lease_fenced_header ex_lease)
     \<lparr>ms_sent = [], ms_finished = False, ms_incoming = incoming, ms_send_error = (\<lambda>_. None), ms_finish_error = None\<rparr>"

lemma ex_send:
  "send_bytes ex_tunnel_lib 2 [1, 2, 3] (ex_stream []) = (Inr (),
     (ex_stream [])\<lparr>rs_stream := (rs_stream (ex_stream []))\<lparr>ms_sent := [data_frame ex_tunnel_lib 2 (lease_fenced_header ex_lease) [1, 2, 3]]\<rparr>,
       rs_community_id := Some 2\<rparr>)"
  by (simp add: send_bytes_def ensure_outbound_community_def ex_stream_def reliable_new_def chunks.simps
      MAX_RELIABLE_PAYLOAD_BYTES_def send_mesh_frame_def data_frame_def)

theorem wire_frame_exact_witness:
  "decode_frame ex_tunnel_lib (encode_frame ex_tunnel_lib (WireGoodbye 2 Draining)) = Inr (WireGoodbye 2 Draining)"
  using wire_frame_exact [OF ex_tunnel_lib_lawful, of "encode_frame ex_tunnel_lib (WireGoodbye 2 Draining)" "WireGoodbye 2 Draining"]
  by simp

theorem sent_bytes_arrive_witness:
  "\<exists>payloads. fst (recv_run ex_tunnel_lib [(ex_call, ex_store)]
      (ex_stream [Inr (Some (data_frame ex_tunnel_lib 2 (lease_fenced_header ex_lease) [1, 2, 3]))])) = map ReliableData payloads \<and>
    concat payloads = [1, 2, 3] \<and> list_all (\<lambda>p. p \<noteq> [] \<and> length p \<le> MAX_RELIABLE_PAYLOAD_BYTES) payloads"
  using ex_fence_valid
  by (intro sent_bytes_arrive [OF ex_tunnel_lib_lawful _ ex_send]) (simp_all add: ex_stream_def reliable_new_def ex_tunnel_lib_def)

lemma ex_recv:
  "recv_validated ex_tunnel_lib ex_call ex_store (ex_stream [Inr (Some (data_frame ex_tunnel_lib 2 (lease_fenced_header ex_lease) [1, 2, 3]))]) =
     (Inr (Some (ReliableData [1, 2, 3])), (ex_stream [])\<lparr>rs_community_id := Some 2\<rparr>)"
  using recv_validated_data [OF ex_tunnel_lib_lawful, of 2 "ex_stream [Inr (Some (data_frame ex_tunnel_lib 2 (lease_fenced_header ex_lease) [1, 2, 3]))]" "[1, 2, 3]" "[]" ex_call ex_store]
    ex_fence_valid
  by (simp add: ex_stream_def reliable_new_def ex_tunnel_lib_def)

theorem delivery_under_latest_grant_witness:
  "\<exists>f rest l older. ms_incoming (rs_stream (ex_stream [Inr (Some (data_frame ex_tunnel_lib 2 (lease_fenced_header ex_lease) [1, 2, 3]))])) =
      Inr (Some (Data (lease_fenced_header ex_lease) (encode_frame ex_tunnel_lib f))) # rest \<and>
    ReliableData [1, 2, 3] = delivered f \<and> grants (frame_community_id f) (sl_session_id ex_lease) [ex_lease] = l # older"
proof -
  have run: "dir_run (tl_dir ex_tunnel_lib) [ex_lease] ex_store" using ex_dir_run by (simp add: ex_tunnel_lib_def)
  have fence: "rs_fenced (ex_stream xs) = lease_fenced_header ex_lease" "fh_session_id (lease_fenced_header ex_lease) = sl_session_id ex_lease" for xs
    by (simp_all add: ex_stream_def reliable_new_def lease_fenced_header_def)
  have few: "length [ex_lease] < 10 ^ 14" by simp
  from delivery_under_latest_grant [OF ex_tunnel_lib_lawful run few ex_recv] show ?thesis
    unfolding fence by blast
qed

definition ex_join :: "(reliable_error, reliable_join) result \<times> redis" where
  "ex_join = join_session ex_tunnel_lib ex_call (\<lambda>_ _. Inl (NoActiveLease 5 1 1 [])) (replicate 32 7) 2 5 []"

lemma ex_join_eq: "ex_join = (Inr (Owned ex_lease), ex_store)"
  using ex_acquire by (simp add: ex_join_def join_session_def ex_tunnel_lib_def)

theorem join_reaches_owner_witness:
  "sl_owner_runtime_id ex_lease = replicate 32 7 \<and>
   (new_grant ex_dir_lib 2 5 (replicate 32 7) ReliableStream [] ex_store = [ex_lease] \<or>
    ex_store = [] \<and> (\<exists>rest. grants 2 5 [] = ex_lease # rest))"
  using join_reaches_owner [of ex_tunnel_lib "[]" "[]" "replicate 32 7", OF _ _ _ _ ex_join_eq [unfolded ex_join_def]]
    ex_dir_lib_lawful dir_start
  by (simp add: ex_tunnel_lib_def)

text \<open>The lease expires and another runtime is granted the session.\<close>

definition ex_call_late :: dir_call where
  "ex_call_late = ex_call\<lparr>dc_now := 40000\<rparr>"

definition ex_successor :: session_lease where
  "ex_successor = ex_lease\<lparr>sl_owner_runtime_id := replicate 32 9, sl_generation := 2\<rparr>"

definition ex_store_late :: redis where
  "ex_store_late = snd (acquire ex_dir_lib ex_call_late 2 5 (replicate 32 9) ReliableStream ex_store)"

lemma ex_late_store:
  "ex_store_late = AList.update (lease_key ex_dir_lib 2 5) (lease_value ex_dir_lib ex_successor, Some 70000)
     (AList.update (generation_key ex_dir_lib 2 5) (decimal 2, None) ex_store)"
proof -
  have p: "parse_lease ex_dir_lib 2 5 (lease_value ex_dir_lib ex_successor) = Inr ex_successor"
    using parse_lease_value [OF ex_dir_lib_lawful, of ex_successor] by (simp add: ex_successor_def ex_lease_def)
  have v: "dl_hex_encode ex_dir_lib (replicate 32 9) @ ''|'' @ decimal 2 @ ''|'' @ ''reliable-stream'' = lease_value ex_dir_lib ex_successor"
    by (simp add: lease_value_def ex_successor_def ex_lease_def)
  have g: "redis_get 40000 (generation_key ex_dir_lib 2 5) ex_store = Some (decimal 1)"
    "redis_get 40000 (lease_key ex_dir_lib 2 5) ex_store = None"
    by (simp_all add: redis_get_def ex_store_lease ex_store_generation)
  have i: "redis_incr 40000 (generation_key ex_dir_lib 2 5) ex_store =
      Inr (2, AList.update (generation_key ex_dir_lib 2 5) (decimal 2, None) ex_store)"
  proof -
    have "decimal 1 \<noteq> []" by (simp add: decimal.simps)
    moreover have "\<not> (2 :: nat) \<ge> 2 ^ 63" by simp
    ultimately show ?thesis
      unfolding redis_incr_def g redis_expiry_def ex_store_generation using decimal_digits [of 1] undecimal_decimal [of 1] by (simp only: option.case one_add_one) simp
  qed
  have t: "dl_lua_tostring ex_dir_lib = decimal" by (simp add: ex_dir_lib_def)
  show ?thesis
    using p v by (simp add: ex_store_late_def acquire_def ex_call_late_def ex_call_def begin_call_def ttl_ms_def pool_get_def
        mutate_def acquire_script_def g i t redis_set_px_def Let_def)
qed

lemma ex_late_run: "dir_run ex_dir_lib [ex_successor, ex_lease] ex_store_late"
proof -
  have gen: "map_of ex_store_late (generation_key ex_dir_lib 2 5) = Some (decimal 2, None)"
    using key_eq(4) [OF ex_dir_lib_lawful, of 2 5 2 5] by (simp add: ex_late_store)
  then have "ex_store_late \<noteq> ex_store" using ex_store_generation by (auto simp: decimal_inj)
  with gen have "new_grant ex_dir_lib 2 5 (replicate 32 9) ReliableStream ex_store ex_store_late = [ex_successor]"
    by (simp add: new_grant_def ex_successor_def ex_lease_def undecimal_decimal)
  moreover obtain res where "acquire ex_dir_lib ex_call_late 2 5 (replicate 32 9) ReliableStream ex_store = (res, ex_store_late)"
    by (cases "acquire ex_dir_lib ex_call_late 2 5 (replicate 32 9) ReliableStream ex_store") (simp add: ex_store_late_def)
  ultimately show ?thesis using dir_acquire [OF ex_dir_run, of "replicate 32 9"] by fastforce
qed

theorem superseded_owner_steps_down_witness:
  "lease_renewer ex_dir_lib ex_lease [RenewTick ex_call_late] ex_call_late ex_store_late = (Some True, ex_store_late)"
proof (rule superseded_owner_steps_down [OF ex_dir_lib_lawful ex_late_run])
  show "superseded [ex_successor, ex_lease] ex_lease"
    by (simp add: superseded_def grants_def ex_successor_def ex_lease_def)
qed simp

end
