(* ===== verification/Audit_Log.thy ===== *)
theory Audit_Log
  imports Nostr_Events "HOL-Library.List_Lexorder" "HOL-Library.Char_ord"
begin

text \<open>
  The audit log: \<open>crates/punks-audit\<close>, with the entry the relay writes for a stored event
  (\<open>enqueue_event_created_audit\<close> of \<open>crates/punks-relay/src/handlers/event.rs\<close>).

  Each community has a chain of entries in one database table; an entry carries the hash of its
  predecessor and is hashed itself.  The table is a list of rows, in which the action is text and the
  JSON detail is what the database hands back for it.  SHA-256, the text of a time, UUID bytes, the
  text of JSON scalars and what the database keeps of a JSON document or a time are the parameter
  record \<open>audit_lib\<close>; a call meets the database failures of its record \<open>audit_call\<close>.

  Times are nanoseconds since the epoch.
\<close>

section \<open>Data\<close>

datatype audit_action =
    EventCreated | EventDeleted | ChannelCreated | ChannelUpdated | ChannelDeleted | MemberAdded
  | MemberRemoved | AuthSuccess | AuthFailure | RateLimitExceeded | MediaUploaded

fun action_as_str :: "audit_action \<Rightarrow> string" where
  "action_as_str EventCreated = ''event_created''"
| "action_as_str EventDeleted = ''event_deleted''"
| "action_as_str ChannelCreated = ''channel_created''"
| "action_as_str ChannelUpdated = ''channel_updated''"
| "action_as_str ChannelDeleted = ''channel_deleted''"
| "action_as_str MemberAdded = ''member_added''"
| "action_as_str MemberRemoved = ''member_removed''"
| "action_as_str AuthSuccess = ''auth_success''"
| "action_as_str AuthFailure = ''auth_failure''"
| "action_as_str RateLimitExceeded = ''rate_limit_exceeded''"
| "action_as_str MediaUploaded = ''media_uploaded''"

definition ALL_ACTIONS :: "audit_action list" where
  "ALL_ACTIONS =
     [EventCreated, EventDeleted, ChannelCreated, ChannelUpdated, ChannelDeleted, MemberAdded,
      MemberRemoved, AuthSuccess, AuthFailure, RateLimitExceeded, MediaUploaded]"

definition action_from_str :: "string \<Rightarrow> audit_action option" where
  "action_from_str s = find (\<lambda>a. action_as_str a = s) ALL_ACTIONS"

text \<open>A JSON value; the numbers are those of \<open>serde_json\<close>, a float by its bits.\<close>

datatype json_number = PosInt nat | NegInt int | FloatBits u64

datatype json_value =
    JNull | JBool bool | JNumber json_number | JStr string | JArr "json_value list"
  | JObject "(string \<times> json_value) list"

record audit_entry =
  ae_community_id :: community_id
  ae_seq :: int
  ae_hash :: bytes
  ae_prev_hash :: "bytes option"
  ae_action :: audit_action
  ae_actor_pubkey :: "bytes option"
  ae_object_id :: "string option"
  ae_detail :: json_value
  ae_created_at :: int

record new_audit_entry =
  ne_community_id :: community_id
  ne_action :: audit_action
  ne_actor_pubkey :: "bytes option"
  ne_object_id :: "string option"
  ne_detail :: json_value

datatype audit_error =
    AuditDatabase string | ChainViolation int | HashMismatch int | UnknownAction | Serialization string

record audit_lib =
  al_sha256 :: "bytes \<Rightarrow> bytes"
  al_rfc3339 :: "int \<Rightarrow> string"
  al_uuid_bytes :: "uuid \<Rightarrow> bytes"
  al_scalar :: "json_value \<Rightarrow> (string, string) result"
  al_key :: "string \<Rightarrow> (string, string) result"
  al_jsonb :: "json_value \<Rightarrow> json_value"
  al_timestamptz :: "int \<Rightarrow> int"

section \<open>Hashing an entry\<close>

definition GENESIS_HASH :: bytes where
  "GENESIS_HASH = replicate 32 0"

definition to_storage_precision :: "int \<Rightarrow> int" where
  "to_storage_precision t = t - t mod 1000"

text \<open>The two loops of \<open>canonical_json\<close>, over members that are already rendered; the object's members
  come sorted by key.\<close>

fun canonical_members ::
    "audit_lib \<Rightarrow> bool \<Rightarrow> (string \<times> (string, string) result) list \<Rightarrow> (string, string) result" where
  "canonical_members lib first [] = Inr ''}''"
| "canonical_members lib first ((k, v) # ms) =
     and_then (al_key lib k) (\<lambda>ks. and_then v (\<lambda>vs. and_then (canonical_members lib False ms) (\<lambda>rest.
       Inr ((if first then [] else '','') @ ks @ '':'' @ vs @ rest))))"

fun canonical_elements :: "bool \<Rightarrow> (string, string) result list \<Rightarrow> (string, string) result" where
  "canonical_elements first [] = Inr '']''"
| "canonical_elements first (v # vs) =
     and_then v (\<lambda>s. and_then (canonical_elements False vs) (\<lambda>rest.
       Inr ((if first then [] else '','') @ s @ rest)))"

primrec canonical_json :: "audit_lib \<Rightarrow> json_value \<Rightarrow> (string, string) result" where
  "canonical_json lib JNull = al_scalar lib JNull"
| "canonical_json lib (JBool b) = al_scalar lib (JBool b)"
| "canonical_json lib (JNumber n) = al_scalar lib (JNumber n)"
| "canonical_json lib (JStr s) = al_scalar lib (JStr s)"
| "canonical_json lib (JArr vs) =
     map_sum id ((@) ''['') (canonical_elements True (map (canonical_json lib) vs))"
| "canonical_json lib (JObject ms) =
     map_sum id ((@) ''{'') (canonical_members lib True (sort_key fst (map (map_prod id (canonical_json lib)) ms)))"

text \<open>\<open>i64::to_be_bytes\<close>.\<close>

definition to_be_bytes :: "int \<Rightarrow> bytes" where
  "to_be_bytes n = byte_digits 8 (nat (n mod 2 ^ 64))"

definition optional_field :: "bytes option \<Rightarrow> bytes" where
  "optional_field f = (case f of Some bs \<Rightarrow> 1 # bs | None \<Rightarrow> [0])"

definition prev_bytes :: "bytes option \<Rightarrow> bytes" where
  "prev_bytes p = (case p of Some h \<Rightarrow> h | None \<Rightarrow> GENESIS_HASH)"

definition preimage :: "audit_lib \<Rightarrow> audit_entry \<Rightarrow> (audit_error, bytes) result" where
  "preimage lib e = (case canonical_json lib (ae_detail e) of
     Inl err \<Rightarrow> Inl (Serialization err)
   | Inr detail \<Rightarrow>
       Inr (al_uuid_bytes lib (ae_community_id e) @ to_be_bytes (ae_seq e) @
            as_bytes (al_rfc3339 lib (to_storage_precision (ae_created_at e))) @
            as_bytes (action_as_str (ae_action e)) @ optional_field (ae_actor_pubkey e) @
            optional_field (map_option as_bytes (ae_object_id e)) @ as_bytes detail @ prev_bytes (ae_prev_hash e)))"

definition compute_hash :: "audit_lib \<Rightarrow> audit_entry \<Rightarrow> (audit_error, bytes) result" where
  "compute_hash lib e = and_then (preimage lib e) (\<lambda>bs. Inr (al_sha256 lib bs))"

section \<open>The table\<close>

record audit_row =
  ar_community_id :: community_id
  ar_seq :: int
  ar_hash :: bytes
  ar_prev_hash :: "bytes option"
  ar_action :: string
  ar_actor_pubkey :: "bytes option"
  ar_object_id :: "string option"
  ar_detail :: json_value
  ar_created_at :: int

definition audit_entry_to_row :: "audit_lib \<Rightarrow> audit_entry \<Rightarrow> audit_row" where
  "audit_entry_to_row lib e =
     \<lparr>ar_community_id = ae_community_id e, ar_seq = ae_seq e, ar_hash = ae_hash e, ar_prev_hash = ae_prev_hash e,
      ar_action = action_as_str (ae_action e), ar_actor_pubkey = ae_actor_pubkey e, ar_object_id = ae_object_id e,
      ar_detail = al_jsonb lib (ae_detail e), ar_created_at = al_timestamptz lib (ae_created_at e)\<rparr>"

definition row_to_audit_entry :: "audit_row \<Rightarrow> (audit_error, audit_entry) result" where
  "row_to_audit_entry r = (case action_from_str (ar_action r) of
     None \<Rightarrow> Inl UnknownAction
   | Some a \<Rightarrow> Inr \<lparr>ae_community_id = ar_community_id r, ae_seq = ar_seq r, ae_hash = ar_hash r,
       ae_prev_hash = ar_prev_hash r, ae_action = a, ae_actor_pubkey = ar_actor_pubkey r,
       ae_object_id = ar_object_id r, ae_detail = ar_detail r, ae_created_at = ar_created_at r\<rparr>)"

text \<open>The rows of one community by ascending sequence number, as the queries order them.\<close>

definition community_rows :: "community_id \<Rightarrow> audit_row list \<Rightarrow> audit_row list" where
  "community_rows com tbl = sort_key ar_seq (filter (\<lambda>r. ar_community_id r = com) tbl)"

section \<open>Operations\<close>

text \<open>What a write meets: a failure before anything is read, of the insertion, or of the commit; a failed
  commit may or may not have taken effect (the flag).\<close>

record audit_call =
  ac_now :: int
  ac_begin_error :: "string option"
  ac_insert_error :: "string option"
  ac_commit_error :: "(string \<times> bool) option"

definition log_timestamp :: "audit_call \<Rightarrow> int" where
  "log_timestamp c = to_storage_precision (ac_now c)"

definition chain_head :: "community_id \<Rightarrow> audit_row list \<Rightarrow> int \<times> bytes option" where
  "chain_head com tbl = (case rev (community_rows com tbl) of
     r # _ \<Rightarrow> (ar_seq r, Some (ar_hash r))
   | [] \<Rightarrow> (0, None))"

text \<open>Addition on \<open>i64\<close>, which wraps around in a release build.\<close>

definition i64_add :: "int \<Rightarrow> int \<Rightarrow> int" where
  "i64_add a b = (a + b + 2 ^ 63) mod 2 ^ 64 - 2 ^ 63"

definition next_entry :: "audit_call \<Rightarrow> new_audit_entry \<Rightarrow> audit_row list \<Rightarrow> audit_entry" where
  "next_entry c ne tbl =
     (let (prev_seq, prev_hash) = chain_head (ne_community_id ne) tbl
      in \<lparr>ae_community_id = ne_community_id ne, ae_seq = i64_add prev_seq 1, ae_hash = [], ae_prev_hash = prev_hash,
          ae_action = ne_action ne, ae_actor_pubkey = ne_actor_pubkey ne, ae_object_id = ne_object_id ne,
          ae_detail = ne_detail ne, ae_created_at = log_timestamp c\<rparr>)"

definition log_inner ::
    "audit_lib \<Rightarrow> audit_call \<Rightarrow> new_audit_entry \<Rightarrow> audit_row list \<Rightarrow> (audit_error, audit_entry) result \<times> audit_row list" where
  "log_inner lib c ne tbl =
     (let e0 = next_entry c ne tbl in
      case compute_hash lib e0 of
        Inl err \<Rightarrow> (Inl err, tbl)
      | Inr h \<Rightarrow>
          (let e = e0\<lparr>ae_hash := h\<rparr>; tbl1 = tbl @ [audit_entry_to_row lib e] in
           case ac_insert_error c of
             Some err \<Rightarrow> (Inl (AuditDatabase err), tbl)
           | None \<Rightarrow> (case ac_commit_error c of
               Some (err, committed) \<Rightarrow> (Inl (AuditDatabase err), if committed then tbl1 else tbl)
             | None \<Rightarrow> (Inr e, tbl1))))"

text \<open>The advisory lock makes the body of a write to one community's chain atomic.\<close>

definition log_entry ::
    "audit_lib \<Rightarrow> audit_call \<Rightarrow> new_audit_entry \<Rightarrow> audit_row list \<Rightarrow> (audit_error, audit_entry) result \<times> audit_row list" where
  "log_entry lib c ne tbl = (case ac_begin_error c of
     Some err \<Rightarrow> (Inl (AuditDatabase err), tbl)
   | None \<Rightarrow> log_inner lib c ne tbl)"

fun verify_rows :: "audit_lib \<Rightarrow> bytes option \<Rightarrow> audit_row list \<Rightarrow> (audit_error, bool) result" where
  "verify_rows lib expected_prev [] = Inr True"
| "verify_rows lib expected_prev (r # rs) =
     and_then (row_to_audit_entry r) (\<lambda>e.
       if (case expected_prev of Some expected \<Rightarrow> ae_prev_hash e \<noteq> Some expected | None \<Rightarrow> False)
       then Inl (ChainViolation (ae_seq e))
       else and_then (compute_hash lib e) (\<lambda>computed.
         if computed \<noteq> ae_hash e then Inl (HashMismatch (ae_seq e))
         else verify_rows lib (Some (ae_hash e)) rs))"

definition verify_chain ::
    "audit_lib \<Rightarrow> string option \<Rightarrow> community_id \<Rightarrow> int \<Rightarrow> int \<Rightarrow> audit_row list \<Rightarrow> (audit_error, bool) result" where
  "verify_chain lib db_error com from_seq to_seq tbl = (case db_error of
     Some err \<Rightarrow> Inl (AuditDatabase err)
   | None \<Rightarrow>
       (let rows = filter (\<lambda>r. from_seq \<le> ar_seq r \<and> ar_seq r \<le> to_seq) (community_rows com tbl)
        in if rows = [] then Inr False else verify_rows lib None rows))"

fun collect_entries :: "audit_row list \<Rightarrow> (audit_error, audit_entry list) result" where
  "collect_entries [] = Inr []"
| "collect_entries (r # rs) =
     and_then (row_to_audit_entry r) (\<lambda>e. and_then (collect_entries rs) (\<lambda>es. Inr (e # es)))"

text \<open>A negative limit is an error of the database.\<close>

definition get_entries ::
    "string option \<Rightarrow> community_id \<Rightarrow> int \<Rightarrow> int \<Rightarrow> audit_row list \<Rightarrow> (audit_error, audit_entry list) result" where
  "get_entries db_error com from_seq limit tbl = (case db_error of
     Some err \<Rightarrow> Inl (AuditDatabase err)
   | None \<Rightarrow>
       if limit < 0 then Inl (AuditDatabase ''LIMIT must not be negative'')
       else collect_entries (take (nat limit) (filter (\<lambda>r. from_seq \<le> ar_seq r) (community_rows com tbl))))"

text \<open>The entry the relay sends for a stored event.\<close>

definition event_created_audit ::
    "(string \<Rightarrow> bytes option) \<Rightarrow> (uuid \<Rightarrow> string) \<Rightarrow> community_id \<Rightarrow> stored_event \<Rightarrow> kind \<Rightarrow> string \<Rightarrow> string \<Rightarrow> new_audit_entry" where
  "event_created_audit hex_decode uuid_text com se kind actor_hex event_id_hex =
     \<lparr>ne_community_id = com, ne_action = EventCreated, ne_actor_pubkey = hex_decode actor_hex,
      ne_object_id = Some event_id_hex,
      ne_detail = JObject [(''event_kind'', JNumber (PosInt kind)),
        (''channel_id'', case se_channel_id se of Some ch \<Rightarrow> JStr (uuid_text ch) | None \<Rightarrow> JNull)]\<rparr>"

end
