(* ===== verification/Audit_Safety.thy ===== *)
theory Audit_Safety
  imports Audit_Log "HOL-Library.Sublist"
begin

text \<open>
  What the audit log promises: a chain written by any history of writes verifies over every range,
  although the database returns JSON members in an order of its own; two verified chains with the
  same head record the same entries, or else exhibit a collision of the hash.  The locale
  \<open>hash_chain\<close> holds the argument about linked records; its interpretation is on the rows of the
  table.
\<close>

section \<open>Chains of hashed records\<close>

locale hash_chain =
  fixes valid :: "'r \<Rightarrow> bool" and pre :: "'r \<Rightarrow> bytes" and prev :: "'r \<Rightarrow> bytes" and own :: "'r \<Rightarrow> bytes"
    and h :: "bytes \<Rightarrow> bytes"
  assumes own_hash: "valid r \<Longrightarrow> own r = h (pre r)"
    and pre_prev: "valid r \<Longrightarrow> valid r' \<Longrightarrow> pre r = pre r' \<Longrightarrow> prev r = prev r'"
begin

lemma same_head_same_chain:
  assumes "list_all valid rs" and "list_all valid rs'"
    and "successively (\<lambda>r r'. prev r' = own r) rs" and "successively (\<lambda>r r'. prev r' = own r) rs'"
    and "rs \<noteq> []" and "rs' \<noteq> []" and "own (last rs) = own (last rs')"
  shows "(\<exists>r \<in> set rs. \<exists>r' \<in> set rs'. pre r \<noteq> pre r' \<and> h (pre r) = h (pre r')) \<or> suffix (map pre rs) (map pre rs') \<or> suffix (map pre rs') (map pre rs)"
  using assms
proof (induction rs arbitrary: rs' rule: rev_induct)
  case (snoc x xs)
  then obtain y ys where rs': "rs' = ys @ [y]" by (cases rs' rule: rev_cases) auto
  have valid: "valid x" "valid y" using snoc.prems(1,2) rs' by auto
  have eq: "h (pre x) = h (pre y)" using snoc.prems(7) valid rs' by (simp add: own_hash)
  show ?case
  proof (cases "pre x = pre y")
    case False
    with eq rs' show ?thesis by auto
  next
    case True
    show ?thesis
    proof (cases "xs = [] \<or> ys = []")
      case True
      then show ?thesis using rs' \<open>pre x = pre y\<close> by (auto simp: suffix_def)
    next
      case False
      have link: "prev x = own (last xs)" "prev y = own (last ys)"
        using snoc.prems(3,4) False rs' by (auto simp: successively_append_iff)
      then have "own (last xs) = own (last ys)" using pre_prev [OF valid True] by simp
      with snoc.IH [of ys] snoc.prems False rs' True show ?thesis
        by (auto simp: successively_append_iff suffix_def)
    qed
  qed
qed simp

end

section \<open>Actions and rows\<close>

lemma action_round_trip [simp]: "action_from_str (action_as_str a) = Some a"
  by (cases a) (simp_all add: action_from_str_def ALL_ACTIONS_def)

lemma action_as_str_inj: "action_as_str a = action_as_str b \<longleftrightarrow> a = b"
  by (metis action_round_trip option.inject)

section \<open>JSON as the database returns it\<close>

text \<open>A document whose objects have distinct keys and which has no floating-point number: of such a
  document the database keeps everything but the order of members.\<close>

primrec storable :: "json_value \<Rightarrow> bool" where
  "storable JNull = True"
| "storable (JBool b) = True"
| "storable (JNumber n) = (case n of FloatBits _ \<Rightarrow> False | _ \<Rightarrow> True)"
| "storable (JStr s) = True"
| "storable (JArr vs) = list_all id (map storable vs)"
| "storable (JObject ms) = (distinct (map fst ms) \<and> list_all snd (map (map_prod id storable) ms))"

text \<open>The document with the members of every object sorted by key.\<close>

primrec normal :: "json_value \<Rightarrow> json_value" where
  "normal JNull = JNull"
| "normal (JBool b) = JBool b"
| "normal (JNumber n) = JNumber n"
| "normal (JStr s) = JStr s"
| "normal (JArr vs) = JArr (map normal vs)"
| "normal (JObject ms) = JObject (sort_key fst (map (map_prod id normal) ms))"

lemma insort_key_map_prod:
  "insort_key fst (map_prod id f x) (map (map_prod id f) xs) = map (map_prod id f) (insort_key fst x xs)"
  by (induction xs) auto

lemma sort_key_map_prod: "sort_key fst (map (map_prod id f) xs) = map (map_prod id f) (sort_key fst xs)"
  unfolding id_def by (induction xs) (simp_all add: insort_key_map_prod [unfolded id_def])

lemma sort_key_sort_key [simp]: "sort_key f (sort_key f xs) = sort_key f xs"
  by (simp add: sort_key_id_if_sorted)

lemma canonical_json_normal: "canonical_json lib (normal v) = canonical_json lib v"
proof (induction v)
  case (JArr vs)
  then have "map (canonical_json lib \<circ> normal) vs = map (canonical_json lib) vs" by simp
  then show ?case by (simp only: normal.simps canonical_json.simps map_map)
next
  case (JObject ms)
  then have "map (map_prod id (canonical_json lib) \<circ> map_prod id normal) ms = map (map_prod id (canonical_json lib)) ms"
    by (force simp: map_prod_def)
  note m = this
  have "sort_key fst (map (map_prod id (canonical_json lib)) (sort_key fst (map (map_prod id normal) ms))) =
      map (map_prod id (canonical_json lib)) (sort_key fst (map (map_prod id normal) ms))"
    by (simp only: sort_key_map_prod sort_key_sort_key)
  also have "\<dots> = sort_key fst (map (map_prod id (canonical_json lib)) ms)"
    by (simp only: m [symmetric] map_map [symmetric] sort_key_map_prod)
  finally show ?case by (simp only: normal.simps canonical_json.simps)
qed simp_all

section \<open>Laws of the parameters\<close>

text \<open>SHA-256 has 32 bytes; UUID bytes are sixteen and determine the UUID; a time's text has no lowercase
  letter and determines the time; the database keeps a microsecond time, and of a storable
  document all but the order of members.\<close>

definition is_name_char :: "char \<Rightarrow> bool" where
  "is_name_char c \<longleftrightarrow> c \<in> set ''abcdefghijklmnopqrstuvwxyz_''"

definition audit_lawful :: "audit_lib \<Rightarrow> bool" where
  "audit_lawful lib \<longleftrightarrow>
     (\<forall>bs. length (al_sha256 lib bs) = 32) \<and>
     (\<forall>u. length (al_uuid_bytes lib u) = 16) \<and>
     (\<forall>t. list_all (\<lambda>c. \<not> is_name_char c) (al_rfc3339 lib t)) \<and> inj (al_rfc3339 lib) \<and>
     (\<forall>v. storable v \<longrightarrow> normal (al_jsonb lib v) = normal v) \<and>
     (\<forall>t. t mod 1000 = 0 \<longrightarrow> al_timestamptz lib t = t)"

lemma stored_detail: "audit_lawful lib \<Longrightarrow> storable v \<Longrightarrow> canonical_json lib (al_jsonb lib v) = canonical_json lib v"
  by (metis audit_lawful_def canonical_json_normal)

lemma storage_precision [simp]:
  "to_storage_precision t mod 1000 = 0" "to_storage_precision (to_storage_precision t) = to_storage_precision t"
  by (simp_all add: to_storage_precision_def mod_diff_right_eq)

section \<open>Verified rows\<close>

definition row_entry :: "audit_row \<Rightarrow> audit_entry" where
  "row_entry r = (case row_to_audit_entry r of Inr e \<Rightarrow> e | Inl _ \<Rightarrow> undefined)"

definition sound_row :: "audit_lib \<Rightarrow> audit_row \<Rightarrow> bool" where
  "sound_row lib r \<longleftrightarrow> (case row_to_audit_entry r of
     Inl _ \<Rightarrow> False | Inr e \<Rightarrow> compute_hash lib e = Inr (ar_hash r))"

lemma row_to_audit_entry_fields:
  "row_to_audit_entry r = Inr e \<Longrightarrow>
     ae_hash e = ar_hash r \<and> ae_prev_hash e = ar_prev_hash r \<and> ae_seq e = ar_seq r"
  by (auto simp: row_to_audit_entry_def split: option.splits)

lemma verify_rows_iff:
  "verify_rows lib expected rs = Inr True \<longleftrightarrow> list_all (sound_row lib) rs \<and>
     successively (\<lambda>r r'. ar_prev_hash r' = Some (ar_hash r)) rs \<and>
     (expected \<noteq> None \<and> rs \<noteq> [] \<longrightarrow> ar_prev_hash (hd rs) = expected)"
proof (induction rs arbitrary: expected)
  case (Cons r rs)
  show ?case
  proof (cases "row_to_audit_entry r")
    case (Inl err)
    then show ?thesis by (simp add: sound_row_def)
  next
    case (Inr e)
    note f = row_to_audit_entry_fields [OF Inr]
    show ?thesis
      using Cons.IH [of "Some (ar_hash r)"] Inr f
      by (cases "compute_hash lib e"; cases expected; cases rs) (auto simp: sound_row_def)
  qed
qed simp

lemma verify_rows_result: "verify_rows lib expected rs = Inr b \<Longrightarrow> b"
  by (induction rs arbitrary: expected) (auto simp: and_then_Inr_iff split: if_splits)

section \<open>Reachable logs\<close>

inductive audit_run :: "audit_lib \<Rightarrow> audit_row list \<Rightarrow> bool" for lib where
  audit_start: "audit_run lib []"
| audit_log: "audit_run lib tbl \<Longrightarrow> storable (ne_detail ne) \<Longrightarrow> int (length tbl) < 2 ^ 63 - 1 \<Longrightarrow> audit_run lib (snd (log_entry lib c ne tbl))"

definition rows_of :: "community_id \<Rightarrow> audit_row list \<Rightarrow> audit_row list" where
  "rows_of com tbl = filter (\<lambda>r. ar_community_id r = com) tbl"

definition chain_inv :: "audit_lib \<Rightarrow> audit_row list \<Rightarrow> bool" where
  "chain_inv lib rs \<longleftrightarrow> map ar_seq rs = map int [1..<Suc (length rs)] \<and> list_all (sound_row lib) rs \<and>
     successively (\<lambda>r r'. ar_prev_hash r' = Some (ar_hash r)) rs"

lemma sorted_map_int_upt: "sorted (map int [m..<n])"
  unfolding sorted_wrt_map by (rule sorted_wrt_mono_rel [OF _ sorted_upt]) simp

lemma chain_community_rows:
  assumes "chain_inv lib (rows_of com tbl)"
  shows "community_rows com tbl = rows_of com tbl"
proof -
  have seq: "map ar_seq (rows_of com tbl) = map int [1..<Suc (length (rows_of com tbl))]"
    using assms by (simp add: chain_inv_def)
  have "sorted (map ar_seq (rows_of com tbl))" unfolding seq by (rule sorted_map_int_upt)
  then show ?thesis unfolding community_rows_def rows_of_def by (rule sort_key_id_if_sorted)
qed

lemma chain_head_eq:
  assumes "chain_inv lib (rows_of com tbl)"
  shows "chain_head com tbl = (int (length (rows_of com tbl)),
    if rows_of com tbl = [] then None else Some (ar_hash (last (rows_of com tbl))))"
proof (cases "rows_of com tbl" rule: rev_cases)
  case Nil
  then show ?thesis using assms by (simp add: chain_head_def chain_community_rows)
next
  case (snoc rs r)
  then have "map ar_seq (rs @ [r]) = map int [1..<Suc (Suc (length rs))]" using assms by (simp add: chain_inv_def)
  then have "ar_seq r = int (Suc (length rs))" by (simp add: map_eq_append_conv)
  with snoc show ?thesis using assms by (simp add: chain_head_def chain_community_rows)
qed

text \<open>The row a write appends is sound: what the database hands back hashes to the stored hash.\<close>

lemma preimage_hash [simp]: "preimage lib (e\<lparr>ae_hash := x\<rparr>) = preimage lib e"
  by (simp add: preimage_def split: sum.split)

lemma sound_new_row:
  assumes "audit_lawful lib" and "storable (ae_detail e)" and "to_storage_precision (ae_created_at e) = ae_created_at e"
    and "compute_hash lib e = Inr x"
  shows "sound_row lib (audit_entry_to_row lib (e\<lparr>ae_hash := x\<rparr>))"
proof -
  have "ae_created_at e mod 1000 = 0" using storage_precision(1) [of "ae_created_at e"] assms(3) by simp
  then have "al_timestamptz lib (ae_created_at e) = ae_created_at e" using assms(1) by (simp add: audit_lawful_def)
  with assms stored_detail [OF assms(1,2)] show ?thesis
    by (simp add: sound_row_def audit_entry_to_row_def row_to_audit_entry_def compute_hash_def preimage_def
        split: sum.splits)
qed

lemma log_entry_table:
  obtains "snd (log_entry lib c ne tbl) = tbl"
  | x where "compute_hash lib (next_entry c ne tbl) = Inr x"
      "snd (log_entry lib c ne tbl) = tbl @ [audit_entry_to_row lib ((next_entry c ne tbl)\<lparr>ae_hash := x\<rparr>)]"
proof (cases "compute_hash lib (next_entry c ne tbl)")
  case (Inl e)
  then have "snd (log_entry lib c ne tbl) = tbl"
    by (simp add: log_entry_def log_inner_def split: option.splits)
  then show ?thesis using that by simp
next
  case (Inr x)
  then have "snd (log_entry lib c ne tbl) = tbl \<or>
      snd (log_entry lib c ne tbl) = tbl @ [audit_entry_to_row lib ((next_entry c ne tbl)\<lparr>ae_hash := x\<rparr>)]"
    by (auto simp: log_entry_def log_inner_def Let_def split: option.splits)
  with Inr that show ?thesis by blast
qed

lemma i64_add_one: "0 \<le> n \<Longrightarrow> n < 2 ^ 63 - 1 \<Longrightarrow> i64_add n 1 = n + 1"
  by (simp add: i64_add_def)

lemma chain_inv_log:
  assumes "audit_lawful lib" and "storable (ne_detail ne)" and "int (length tbl) < 2 ^ 63 - 1" and inv: "\<And>com. chain_inv lib (rows_of com tbl)"
  shows "chain_inv lib (rows_of com (snd (log_entry lib c ne tbl)))"
proof (rule log_entry_table [of lib c ne tbl])
  assume "snd (log_entry lib c ne tbl) = tbl"
  with inv show ?thesis by simp
next
  fix x
  let ?e = "next_entry c ne tbl" and ?com = "ne_community_id ne"
  let ?r = "audit_entry_to_row lib (?e\<lparr>ae_hash := x\<rparr>)" and ?rs = "rows_of (ne_community_id ne) tbl"
  assume x: "compute_hash lib ?e = Inr x" and tbl: "snd (log_entry lib c ne tbl) = tbl @ [?r]"
  have "i64_add (int (length ?rs)) 1 = int (length ?rs) + 1"
  proof (rule i64_add_one)
    have "length ?rs \<le> length tbl" by (simp add: rows_of_def)
    with assms(3) show "int (length ?rs) < 2 ^ 63 - 1" by linarith
  qed simp
  then have e: "ar_community_id ?r = ?com" "ar_seq ?r = int (Suc (length ?rs))"
      "ar_prev_hash ?r = (if ?rs = [] then None else Some (ar_hash (last ?rs)))"
    using chain_head_eq [OF inv [of ?com]]
    by (simp_all add: next_entry_def audit_entry_to_row_def)
  have "sound_row lib ?r"
    by (rule sound_new_row [OF assms(1) _ _ x])
       (use assms(2) in \<open>simp_all add: next_entry_def log_timestamp_def split: prod.splits\<close>)
  with e inv [of com] show ?thesis
    unfolding tbl by (auto simp: rows_of_def chain_inv_def successively_append_iff)
qed

lemma audit_run_inv:
  assumes "audit_run lib tbl" and "audit_lawful lib"
  shows "chain_inv lib (rows_of com tbl)"
  using assms(1)
proof (induction arbitrary: com rule: audit_run.induct)
  case audit_start
  then show ?case by (simp add: chain_inv_def rows_of_def)
next
  case (audit_log tbl ne c)
  then show ?case by (intro chain_inv_log [OF assms(2)])
qed

text \<open>A range of a chain with consecutive numbers is again linked.\<close>

lemma successively_range:
  assumes "map ar_seq rs = map int [m..<m + length rs]" and "successively P rs"
  shows "successively P (filter (\<lambda>r. a \<le> ar_seq r \<and> ar_seq r \<le> b) rs)"
  using assms
proof (induction rs arbitrary: m)
  case (Cons r rs)
  have seq: "ar_seq r = int m" "map ar_seq rs = map int [Suc m..<Suc m + length rs]"
    using Cons.prems(1) by (simp_all add: upt_conv_Cons del: upt_Suc)
  have IH: "successively P (filter (\<lambda>r. a \<le> ar_seq r \<and> ar_seq r \<le> b) rs)"
    using Cons.IH [OF seq(2)] Cons.prems(2) by (cases rs) auto
  show ?case
  proof (cases rs)
    case (Cons r' rs')
    have later: "int (Suc m) \<le> ar_seq x" if "x \<in> set rs" for x
    proof -
      have "ar_seq x \<in> set (map ar_seq rs)" using that by simp
      then show ?thesis unfolding seq(2) by auto
    qed
    have r': "ar_seq r' = int (Suc m)" using seq(2) Cons by (simp add: upt_conv_Cons del: upt_Suc)
    show ?thesis
    proof (cases "a \<le> int m \<and> int m \<le> b")
      case True
      show ?thesis
      proof (cases "int (Suc m) \<le> b")
        case False
        then have "filter (\<lambda>r. a \<le> ar_seq r \<and> ar_seq r \<le> b) rs = []"
          using later by (force simp: filter_empty_conv)
        then show ?thesis by (simp add: seq(1))
      next
        case True
        with \<open>a \<le> int m \<and> int m \<le> b\<close> IH Cons.prems(2) Cons r' seq(1) show ?thesis by simp
      qed
    next
      case False
      with IH seq(1) show ?thesis by auto
    qed
  qed simp
qed simp

text \<open>C18.  Whatever the history of writes, by any relays and communities and with any failures (up to
  2^63 entries), a community's entries are numbered from one without gaps, and verification of any range of them
  succeeds: it answers yes exactly when the range holds an entry, and never finds a violation.\<close>

theorem audit_chain_verifies:
  assumes "audit_lawful lib" and "audit_run lib tbl"
  shows "map ar_seq (community_rows com tbl) = map int [1..<Suc (length (community_rows com tbl))] \<and>
    verify_chain lib None com from to tbl =
      Inr (list_ex (\<lambda>r. ar_community_id r = com \<and> from \<le> ar_seq r \<and> ar_seq r \<le> to) tbl)"
proof -
  have inv: "chain_inv lib (rows_of com tbl)" by (rule audit_run_inv [OF assms(2,1)])
  let ?rs = "filter (\<lambda>r. from \<le> ar_seq r \<and> ar_seq r \<le> to) (rows_of com tbl)"
  have "map ar_seq (rows_of com tbl) = map int [1..<1 + length (rows_of com tbl)]" using inv by (simp add: chain_inv_def)
  from successively_range [OF this] have "verify_rows lib None ?rs = Inr True"
    using inv by (auto simp: verify_rows_iff chain_inv_def list_all_iff)
  moreover have "?rs = [] \<longleftrightarrow> \<not> list_ex (\<lambda>r. ar_community_id r = com \<and> from \<le> ar_seq r \<and> ar_seq r \<le> to) tbl"
    by (auto simp: rows_of_def filter_empty_conv list_ex_iff)
  ultimately show ?thesis
    using inv by (auto simp: verify_chain_def chain_community_rows chain_inv_def)
qed

section \<open>What a preimage determines\<close>

definition row_preimage :: "audit_lib \<Rightarrow> audit_row \<Rightarrow> bytes" where
  "row_preimage lib r = (case and_then (row_to_audit_entry r) (preimage lib) of Inr bs \<Rightarrow> bs | Inl _ \<Rightarrow> [])"

definition linked_row :: "audit_lib \<Rightarrow> audit_row \<Rightarrow> bool" where
  "linked_row lib r \<longleftrightarrow> sound_row lib r \<and> length (prev_bytes (ar_prev_hash r)) = 32"

definition row_head :: "audit_lib \<Rightarrow> audit_row \<Rightarrow> bytes" where
  "row_head lib r = al_uuid_bytes lib (ar_community_id r) @ to_be_bytes (ar_seq r)"

definition row_body :: "audit_lib \<Rightarrow> audit_row \<Rightarrow> string \<Rightarrow> bytes" where
  "row_body lib r d = as_bytes (al_rfc3339 lib (to_storage_precision (ar_created_at r))) @ as_bytes (ar_action r) @
     optional_field (ar_actor_pubkey r) @ optional_field (map_option as_bytes (ar_object_id r)) @ as_bytes d"

lemma sound_row_preimage:
  assumes "sound_row lib r"
  obtains a d where "action_as_str a = ar_action r" "canonical_json lib (ar_detail r) = Inr d"
    "row_preimage lib r = row_head lib r @ row_body lib r d @ prev_bytes (ar_prev_hash r)"
    "ar_hash r = al_sha256 lib (row_preimage lib r)"
proof -
  from assms obtain a where a: "action_from_str (ar_action r) = Some a"
    by (auto simp: sound_row_def row_to_audit_entry_def split: option.splits sum.splits)
  then have n: "action_as_str a = ar_action r" by (auto simp: action_from_str_def find_Some_iff)
  from assms a obtain d where d: "canonical_json lib (ar_detail r) = Inr d"
    by (auto simp: sound_row_def row_to_audit_entry_def compute_hash_def preimage_def split: sum.splits)
  have p: "row_preimage lib r = row_head lib r @ row_body lib r d @ prev_bytes (ar_prev_hash r)"
    using a n d by (simp add: row_preimage_def row_to_audit_entry_def preimage_def row_head_def row_body_def)
  have "ar_hash r = al_sha256 lib (row_preimage lib r)"
    using assms a d by (simp add: sound_row_def row_preimage_def row_to_audit_entry_def compute_hash_def preimage_def)
  with that [OF n d p] show thesis by blast
qed

interpretation audit_chain: hash_chain "linked_row lib" "row_preimage lib" "\<lambda>r. prev_bytes (ar_prev_hash r)" ar_hash "al_sha256 lib"
proof
  fix r
  assume "linked_row lib r"
  then show "ar_hash r = al_sha256 lib (row_preimage lib r)"
    unfolding linked_row_def using sound_row_preimage by metis
next
  fix r r'
  assume r: "linked_row lib r" and r': "linked_row lib r'" and eq: "row_preimage lib r = row_preimage lib r'"
  from r obtain x where "row_preimage lib r = x @ prev_bytes (ar_prev_hash r)"
    using sound_row_preimage [of lib r] by (metis append_assoc linked_row_def)
  moreover from r' obtain y where "row_preimage lib r' = y @ prev_bytes (ar_prev_hash r')"
    using sound_row_preimage [of lib r'] by (metis append_assoc linked_row_def)
  ultimately show "prev_bytes (ar_prev_hash r) = prev_bytes (ar_prev_hash r')"
    using eq r r' by (simp add: linked_row_def)
qed

text \<open>Rows as the relay writes them: an actor is a 32-byte key, an object id has no opening brace, and
  the detail is a JSON object.\<close>

definition plain_row :: "audit_row \<Rightarrow> bool" where
  "plain_row r \<longleftrightarrow> (case ar_actor_pubkey r of Some pk \<Rightarrow> length pk = 32 | None \<Rightarrow> True) \<and>
     (case ar_object_id r of Some oid \<Rightarrow> CHR ''{'' \<notin> set oid | None \<Rightarrow> True) \<and>
     (case ar_detail r of JObject _ \<Rightarrow> True | _ \<Rightarrow> False) \<and> 0 \<le> ar_seq r \<and> ar_seq r < 2 ^ 63"

definition same_record :: "audit_lib \<Rightarrow> audit_row \<Rightarrow> audit_row \<Rightarrow> bool" where
  "same_record lib r r' \<longleftrightarrow> ar_seq r = ar_seq r' \<and> ar_action r = ar_action r' \<and>
     ar_actor_pubkey r = ar_actor_pubkey r' \<and> ar_object_id r = ar_object_id r' \<and>
     canonical_json lib (ar_detail r) = canonical_json lib (ar_detail r') \<and>
     to_storage_precision (ar_created_at r) = to_storage_precision (ar_created_at r')"

lemma span_unique:
  assumes "xs @ ys = xs' @ ys'" and "list_all P xs" and "list_all P xs'"
    and "ys \<noteq> []" and "\<not> P (hd ys)" and "ys' \<noteq> []" and "\<not> P (hd ys')"
  shows "xs = xs' \<and> ys = ys'"
  using assms
proof (induction xs arbitrary: xs')
  case Nil
  then show ?case by (cases xs') auto
next
  case (Cons x xs)
  then show ?case by (cases xs') auto
qed

definition byte_of :: "char \<Rightarrow> u8" where
  "byte_of c = word_of_nat (of_char c)"

lemma as_bytes_byte_of: "as_bytes s = map byte_of s"
  by (simp add: as_bytes_def byte_of_def)

lemma byte_of_inj [simp]: "byte_of c = byte_of d \<longleftrightarrow> c = d"
  using as_bytes_inj [of "[c]" "[d]"] by (simp add: as_bytes_byte_of)

definition name_byte :: "u8 \<Rightarrow> bool" where
  "name_byte b \<longleftrightarrow> b \<in> set (as_bytes ''abcdefghijklmnopqrstuvwxyz_'')"

lemma name_byte_of: "name_byte (byte_of c) \<longleftrightarrow> is_name_char c"
  unfolding name_byte_def is_name_char_def as_bytes_byte_of set_map by (simp only: image_iff byte_of_inj) blast

lemma tag_not_name: "\<not> name_byte 0" "\<not> name_byte 1"
  by (simp_all add: name_byte_def as_bytes_def)

lemma action_name: "action_as_str a \<noteq> [] \<and> list_all is_name_char (action_as_str a)"
  by (cases a) (simp_all add: is_name_char_def)

lemma optional_field_hd: "optional_field f \<noteq> [] \<and> \<not> name_byte (hd (optional_field f))"
  by (simp add: optional_field_def tag_not_name split: option.split)

lemma actor_field:
  assumes "optional_field a @ xs = optional_field b @ ys"
    and "case a of Some pk \<Rightarrow> length pk = 32 | None \<Rightarrow> True" and "case b of Some pk \<Rightarrow> length pk = 32 | None \<Rightarrow> True"
  shows "a = b \<and> xs = ys"
  using assms by (cases a; cases b) (simp_all add: optional_field_def)

lemma object_field:
  assumes "optional_field (map_option as_bytes a) @ as_bytes (CHR ''{'' # d) = optional_field (map_option as_bytes b) @ as_bytes (CHR ''{'' # d')"
    and "case a of Some s \<Rightarrow> CHR ''{'' \<notin> set s | None \<Rightarrow> True" and "case b of Some s \<Rightarrow> CHR ''{'' \<notin> set s | None \<Rightarrow> True"
  shows "a = b \<and> d = d'"
proof (cases a)
  case None
  with assms show ?thesis by (cases b) (simp_all add: optional_field_def as_bytes_byte_of inj_map_eq_map inj_def)
next
  case (Some s)
  with assms(1) obtain t where b: "b = Some t" by (cases b) (simp_all add: optional_field_def as_bytes_byte_of)
  have no: "list_all (\<lambda>x. x \<noteq> byte_of (CHR ''{'')) (as_bytes u)" if "CHR ''{'' \<notin> set u" for u
    using that by (auto simp: list_all_iff as_bytes_byte_of)
  from assms Some b have "as_bytes s @ as_bytes (CHR ''{'' # d) = as_bytes t @ as_bytes (CHR ''{'' # d')"
    by (simp add: optional_field_def)
  from span_unique [OF this no no] assms(2,3) Some b show ?thesis
    by (simp add: as_bytes_byte_of) (simp add: inj_map_eq_map inj_def)
qed

lemma canonical_object: "canonical_json lib (JObject ms) = Inr d \<Longrightarrow> \<exists>d'. d = CHR ''{'' # d'"
  by (cases "canonical_members lib True (sort_key fst (map (map_prod id (canonical_json lib)) ms))") auto

lemma body_determines:
  assumes lawful: "audit_lawful lib" and plain: "plain_row r" "plain_row r'"
    and act: "action_as_str a = ar_action r" "action_as_str a' = ar_action r'"
    and d: "canonical_json lib (ar_detail r) = Inr d" "canonical_json lib (ar_detail r') = Inr d'"
    and eq: "row_body lib r d = row_body lib r' d'"
  shows "ar_action r = ar_action r' \<and> ar_actor_pubkey r = ar_actor_pubkey r' \<and> ar_object_id r = ar_object_id r' \<and> d = d' \<and>
    to_storage_precision (ar_created_at r) = to_storage_precision (ar_created_at r')"
proof -
  let ?t = "\<lambda>r. as_bytes (al_rfc3339 lib (to_storage_precision (ar_created_at r)))"
  let ?rest = "\<lambda>r d. optional_field (ar_actor_pubkey r) @ optional_field (map_option as_bytes (ar_object_id r)) @ as_bytes d"
  have t: "list_all (\<lambda>b. \<not> name_byte b) (?t r)" for r
    using lawful by (auto simp: audit_lawful_def list_all_iff as_bytes_byte_of name_byte_of)
  have a: "list_all name_byte (as_bytes (ar_action r)) \<and> as_bytes (ar_action r) \<noteq> []" if "action_as_str a = ar_action r" for a r
    using action_name [of a] that by (auto simp: list_all_iff as_bytes_byte_of name_byte_of)
  have hd: "name_byte (hd (as_bytes (ar_action r) @ xs))" if "action_as_str a = ar_action r" for a r xs
    using a [OF that] by (cases "as_bytes (ar_action r)") auto
  from eq have "?t r @ (as_bytes (ar_action r) @ ?rest r d) = ?t r' @ (as_bytes (ar_action r') @ ?rest r' d')"
    by (simp add: row_body_def)
  from span_unique [OF this t t] a [OF act(1)] a [OF act(2)] hd [OF act(1)] hd [OF act(2)]
  have 1: "?t r = ?t r'" "as_bytes (ar_action r) @ ?rest r d = as_bytes (ar_action r') @ ?rest r' d'" by auto
  from span_unique [OF 1(2), of name_byte] a [OF act(1)] a [OF act(2)] optional_field_hd
  have 2: "ar_action r = ar_action r'" "?rest r d = ?rest r' d'" by (auto simp: append_eq_append_conv)
  from actor_field [OF 2(2)] plain have 3: "ar_actor_pubkey r = ar_actor_pubkey r'"
      "optional_field (map_option as_bytes (ar_object_id r)) @ as_bytes d = optional_field (map_option as_bytes (ar_object_id r')) @ as_bytes d'"
    by (auto simp: plain_row_def)
  obtain e e' where e: "d = CHR ''{'' # e" "d' = CHR ''{'' # e'"
    using d plain canonical_object by (fastforce simp: plain_row_def split: json_value.splits)
  from object_field [OF 3(2) [unfolded e]] plain have "ar_object_id r = ar_object_id r'" "d = d'"
    by (auto simp: plain_row_def e)
  moreover have "to_storage_precision (ar_created_at r) = to_storage_precision (ar_created_at r')"
    using 1(1) lawful by (simp add: audit_lawful_def inj_eq)
  ultimately show ?thesis using 2(1) 3(1) by simp
qed

lemma to_be_bytes_inj: "0 \<le> m \<Longrightarrow> m < 2 ^ 63 \<Longrightarrow> 0 \<le> n \<Longrightarrow> n < 2 ^ 63 \<Longrightarrow> to_be_bytes m = to_be_bytes n \<longleftrightarrow> m = n"
  by (simp add: to_be_bytes_def byte_digits_inj nat_less_iff eq_nat_nat_iff)

lemma same_preimage_same_record:
  assumes lawful: "audit_lawful lib" and r: "linked_row lib r" "plain_row r" and r': "linked_row lib r'" "plain_row r'"
    and eq: "row_preimage lib r = row_preimage lib r'"
  shows "same_record lib r r'"
proof -
  from r(1) obtain a d where d: "action_as_str a = ar_action r" "canonical_json lib (ar_detail r) = Inr d"
      "row_preimage lib r = row_head lib r @ row_body lib r d @ prev_bytes (ar_prev_hash r)"
    unfolding linked_row_def using sound_row_preimage by metis
  from r'(1) obtain a' d' where d': "action_as_str a' = ar_action r'" "canonical_json lib (ar_detail r') = Inr d'"
      "row_preimage lib r' = row_head lib r' @ row_body lib r' d' @ prev_bytes (ar_prev_hash r')"
    unfolding linked_row_def using sound_row_preimage by metis
  have len: "length (row_head lib r) = 24" for r
    using lawful by (simp add: row_head_def audit_lawful_def to_be_bytes_def)
  have "row_head lib r = row_head lib r'" "row_body lib r d = row_body lib r' d'"
    using eq d(3) d'(3) r(1) r'(1) len [of r] len [of r'] by (simp_all add: linked_row_def)
  then have "to_be_bytes (ar_seq r) = to_be_bytes (ar_seq r')" "row_body lib r d = row_body lib r' d'"
    using lawful by (simp_all add: row_head_def audit_lawful_def)
  with body_determines [OF lawful r(2) r'(2) d(1) d'(1) d(2) d'(2)] show ?thesis
    using r(2) r'(2) d(2) d'(2) by (simp add: same_record_def plain_row_def to_be_bytes_inj)
qed

section \<open>Tampering\<close>

lemma linked_rows:
  assumes "list_all (sound_row lib) rs" and "list_all (\<lambda>r. length (prev_bytes (ar_prev_hash r)) = 32) rs"
    and "successively (\<lambda>r r'. ar_prev_hash r' = Some (ar_hash r)) rs"
  shows "list_all (linked_row lib) rs \<and> successively (\<lambda>r r'. prev_bytes (ar_prev_hash r') = ar_hash r) rs"
  using assms by (auto simp: list_all_iff linked_row_def prev_bytes_def elim!: successively_mono)

lemma sound_hash_length: "audit_lawful lib \<Longrightarrow> sound_row lib r \<Longrightarrow> length (ar_hash r) = 32"
  by (metis audit_lawful_def sound_row_preimage)

text \<open>The rows of a chain that starts with its community's first entry point to hashes of full length.\<close>

lemma run_prev_length:
  assumes "audit_lawful lib" and "audit_run lib tbl"
  shows "list_all (\<lambda>r. length (prev_bytes (ar_prev_hash r)) = 32) (rows_of com tbl)"
proof -
  have "\<And>com. list_all (\<lambda>r. length (prev_bytes (ar_prev_hash r)) = 32) (rows_of com tbl)"
    using assms(2)
  proof (induction rule: audit_run.induct)
    case (audit_log tbl ne c)
    have inv: "chain_inv lib (rows_of com tbl)" for com by (rule audit_run_inv [OF audit_log.hyps(1) assms(1)])
    show ?case
    proof (rule log_entry_table [of lib c ne tbl])
      fix x
      assume tbl: "snd (log_entry lib c ne tbl) = tbl @ [audit_entry_to_row lib ((next_entry c ne tbl)\<lparr>ae_hash := x\<rparr>)]"
      let ?rs = "rows_of (ne_community_id ne) tbl"
      have "length (ar_hash (last ?rs)) = 32" if "?rs \<noteq> []"
        using inv [of "ne_community_id ne"] that sound_hash_length [OF assms(1)] by (auto simp: chain_inv_def list_all_iff)
      then have "length (prev_bytes (ae_prev_hash (next_entry c ne tbl))) = 32"
        using chain_head_eq [OF inv [of "ne_community_id ne"]] by (simp add: next_entry_def prev_bytes_def GENESIS_HASH_def)
      with audit_log.IH show ?thesis unfolding tbl by (simp add: rows_of_def audit_entry_to_row_def)
    qed (use audit_log.IH in simp)
  qed (simp add: rows_of_def)
  then show ?thesis .
qed

lemma row_seq_ge_1: "chain_inv lib rs \<Longrightarrow> r \<in> set rs \<Longrightarrow> 1 \<le> ar_seq r \<and> ar_seq r \<le> int (length rs)"
proof -
  assume inv: "chain_inv lib rs" and r: "r \<in> set rs"
  then have "ar_seq r \<in> set (map ar_seq rs)" by simp
  then show ?thesis using inv unfolding chain_inv_def by auto
qed

text \<open>A list of records as long as or longer than the original, whose tail matches the original chain and
  whose numbers increase from one, is not longer.\<close>

lemma aligned_from_one:
  assumes "sorted_wrt (<) (map ar_seq rs')" and "\<forall>r \<in> set rs'. 1 \<le> ar_seq r"
    and "rs' = extra @ r # rest" and "ar_seq r = 1"
  shows "extra = []"
proof (rule ccontr)
  assume "extra \<noteq> []"
  then obtain x where x: "x \<in> set extra" by (cases extra) auto
  with assms(1,3) have "ar_seq x < ar_seq r" by (auto simp: sorted_wrt_append)
  moreover have "1 \<le> ar_seq x" using assms(2,3) x by simp
  ultimately show False using assms(4) by simp
qed

lemma map_eq_list_all2:
  assumes "map f xs = map f ys" and "\<And>x y. x \<in> set xs \<Longrightarrow> y \<in> set ys \<Longrightarrow> f x = f y \<Longrightarrow> R x y"
  shows "list_all2 R xs ys"
  using assms
proof (induction xs arbitrary: ys)
  case (Cons x xs)
  then show ?case by (cases ys) auto
qed simp

lemma suffix_map_drop: "suffix (map f xs) (map f ys) \<Longrightarrow> \<exists>k. map f xs = map f (drop k ys)"
  by (metis drop_map suffix_def append_eq_conv_conj)

text \<open>C19.  Rewriting history is detected.  Let somebody replace the table by any other whose rows have the
  shape the relay writes: the actor is absent or 32 bytes long, the object id contains no opening brace, the detail
  is a JSON object and the number is one of 63 bits (all this is assumed of the original rows too), the previous
  hash is 32 bytes long and no number occurs twice.  The hash does not separate actor, object id and detail, so
  that without this shape two different rows can have the same text under the hash.  If a community's chain still verifies from its first entry to the last and
  ends with the hash it had, then either a found and an original entry exhibit a collision of the hash
  function (different texts, one hash), or the entries found are,
  in every recorded field, the most recent entries of the original chain.\<close>

theorem audit_tamper_evident:
  assumes lawful: "audit_lawful lib" and run: "audit_run lib tbl"
    and orig: "orig = community_rows com tbl" "orig \<noteq> []" "list_all plain_row orig"
    and found: "found = filter (\<lambda>r. 1 \<le> ar_seq r \<and> ar_seq r \<le> int (length orig)) (community_rows com tbl')"
      "distinct (map ar_seq found)" "list_all plain_row found"
      "list_all (\<lambda>r. length (prev_bytes (ar_prev_hash r)) = 32) found"
    and verified: "verify_chain lib None com 1 (int (length orig)) tbl' = Inr True"
    and head: "ar_hash (last found) = ar_hash (last orig)"
  shows "(\<exists>r \<in> set found. \<exists>r' \<in> set orig. row_preimage lib r \<noteq> row_preimage lib r' \<and>
      al_sha256 lib (row_preimage lib r) = al_sha256 lib (row_preimage lib r')) \<or> (\<exists>k. list_all2 (same_record lib) found (drop k orig))"
proof -
  have inv: "chain_inv lib orig" "orig = rows_of com tbl"
    using audit_run_inv [OF run lawful, of com] orig(1) by (simp_all add: chain_community_rows)
  have o: "list_all (linked_row lib) orig" "successively (\<lambda>r r'. prev_bytes (ar_prev_hash r') = ar_hash r) orig"
    using linked_rows [of lib orig] inv run_prev_length [OF lawful run, of com] by (auto simp: chain_inv_def)
  from verified found(1) have v: "found \<noteq> []" "verify_rows lib None found = Inr True"
    by (auto simp: verify_chain_def Let_def split: if_splits)
  then have f: "list_all (linked_row lib) found" "successively (\<lambda>r r'. prev_bytes (ar_prev_hash r') = ar_hash r) found"
    using linked_rows [of lib found] found(4) by (auto simp: verify_rows_iff)
  have same: "same_record lib r r'" if "r \<in> set found" "r' \<in> set orig" "row_preimage lib r = row_preimage lib r'" for r r'
    using same_preimage_same_record [OF lawful _ _ _ _ that(3)] that(1,2) o(1) f(1) orig(3) found(3) by (simp add: list_all_iff)
  have increasing: "sorted_wrt (<) (map ar_seq found)"
    using found(1,2) by (simp add: community_rows_def strict_sorted_iff sorted_filter)
  consider (collision) "\<exists>r \<in> set found. \<exists>r' \<in> set orig. row_preimage lib r \<noteq> row_preimage lib r' \<and>
      al_sha256 lib (row_preimage lib r) = al_sha256 lib (row_preimage lib r')"
    | (shorter) "suffix (map (row_preimage lib) found) (map (row_preimage lib) orig)"
    | (longer) "suffix (map (row_preimage lib) orig) (map (row_preimage lib) found)"
    using audit_chain.same_head_same_chain [OF f(1) o(1) f(2) o(2) v(1) orig(2) head] by blast
  then show ?thesis
  proof cases
    case shorter
    from suffix_map_drop [OF this] obtain k where "map (row_preimage lib) found = map (row_preimage lib) (drop k orig)" by blast
    then have "list_all2 (same_record lib) found (drop k orig)"
      by (rule map_eq_list_all2) (use same in \<open>auto dest: in_set_dropD\<close>)
    then show ?thesis by blast
  next
    case longer
    from suffix_map_drop [OF this] obtain k where k: "map (row_preimage lib) (drop k found) = map (row_preimage lib) orig" by metis
    have all: "list_all2 (same_record lib) (drop k found) orig"
      by (rule map_eq_list_all2 [OF k]) (use same in \<open>auto dest: in_set_dropD\<close>)
    obtain r rest r' rest' where r: "drop k found = r # rest" "orig = r' # rest'"
      using orig(2) all by (cases orig; cases "drop k found") auto
    have "ar_seq r' = 1" using inv(1) r(2) by (simp add: chain_inv_def upt_conv_Cons del: upt_Suc)
    then have "ar_seq r = 1" using all r by (simp add: same_record_def)
    have parts: "found = take k found @ r # rest" using r(1) by (metis append_take_drop_id)
    have "\<forall>r \<in> set found. 1 \<le> ar_seq r" using found(1) by auto
    from aligned_from_one [OF increasing this parts \<open>ar_seq r = 1\<close>] have "take k found = []" .
    with parts r(1) all show ?thesis by (intro disjI2 exI [of _ 0]) simp
  qed blast
qed

text \<open>Verification from the first number on does not notice that the oldest entries are missing: the first
  row it meets may point anywhere.\<close>

theorem audit_truncation_verifies:
  assumes "audit_lawful lib" and "audit_run lib tbl" and "k < length (community_rows com tbl)"
  shows "verify_chain lib None com 1 (int (length (community_rows com tbl)))
    (filter (\<lambda>r. ar_community_id r \<noteq> com \<or> int k < ar_seq r) tbl) = Inr True"
proof -
  let ?rs = "rows_of com tbl" and ?n = "int (length (rows_of com tbl))"
  have inv: "chain_inv lib ?rs" by (rule audit_run_inv [OF assms(2,1)])
  let ?left = "filter (\<lambda>r. int (Suc k) \<le> ar_seq r \<and> ar_seq r \<le> ?n) ?rs"
  have seq: "map ar_seq ?rs = map int [1..<1 + length ?rs]" using inv by (simp add: chain_inv_def)
  have bound: "ar_seq r \<le> ?n" if "r \<in> set ?rs" for r using row_seq_ge_1 [OF inv that] by simp
  have "rows_of com (filter (\<lambda>r. ar_community_id r \<noteq> com \<or> int k < ar_seq r) tbl) = ?left"
    unfolding rows_of_def filter_filter using bound by (intro filter_cong) (auto simp: rows_of_def)
  moreover have "sort_key ar_seq ?left = ?left"
    using seq sorted_map_int_upt by (intro sort_key_id_if_sorted sorted_filter) metis
  ultimately have "community_rows com (filter (\<lambda>r. ar_community_id r \<noteq> com \<or> int k < ar_seq r) tbl) = ?left"
    by (simp add: community_rows_def rows_of_def)
  moreover have "filter (\<lambda>r. 1 \<le> ar_seq r \<and> ar_seq r \<le> ?n) ?left = ?left" by (rule filter_True) auto
  moreover have "verify_rows lib None ?left = Inr True"
    using successively_range [OF seq] inv by (auto simp: verify_rows_iff chain_inv_def list_all_iff)
  moreover have "?left \<noteq> []"
  proof -
    have "k < length ?rs" using assms(3) inv by (simp add: chain_community_rows)
    moreover have "ar_seq (last ?rs) = ?n" if "?rs \<noteq> []"
      using seq that by (metis add.commute last_map last_upt le_add1 length_greater_0_conv less_add_same_cancel1 list.map_disc_iff plus_1_eq_Suc upt_eq_Nil_conv diff_Suc_1 One_nat_def)
    ultimately have "last ?rs \<in> set ?left" by (cases "?rs = []") auto
    then show ?thesis by (metis empty_iff empty_set)
  qed
  ultimately show ?thesis using inv by (simp add: verify_chain_def chain_community_rows Let_def)
qed

text \<open>The end of an object id and the beginning of the detail are not separated in the hashed text:
  moving a digit from the one to the other changes both fields and leaves the hash as it was.\<close>

theorem audit_field_boundary:
  assumes "al_scalar lib (JNumber (PosInt 23)) = Inr ''23''" and "al_scalar lib (JNumber (PosInt 3)) = Inr ''3''"
  shows "compute_hash lib (e\<lparr>ae_object_id := Some (oid @ ''2''), ae_detail := JNumber (PosInt 3)\<rparr>) =
    compute_hash lib (e\<lparr>ae_object_id := Some oid, ae_detail := JNumber (PosInt 23)\<rparr>)"
  using assms by (simp add: compute_hash_def preimage_def optional_field_def as_bytes_def)

section \<open>A concrete log\<close>

definition ex_time_text :: "int \<Rightarrow> string" where
  "ex_time_text t = (if t < 0 then ''-'' else ''+'') @ decimal (nat \<bar>t\<bar>)"

fun ex_scalar :: "json_value \<Rightarrow> (string, string) result" where
  "ex_scalar (JNumber (PosInt n)) = Inr (decimal n)"
| "ex_scalar _ = Inr ''null''"

definition ex_audit_lib :: audit_lib where
  "ex_audit_lib = \<lparr>al_sha256 = (\<lambda>bs. take 32 (rev bs @ replicate 32 0)), al_rfc3339 = ex_time_text,
     al_uuid_bytes = byte_digits 16, al_scalar = ex_scalar, al_key = (\<lambda>k. Inr (''\"'' @ k @ ''\"'')),
     al_jsonb = id, al_timestamptz = id\<rparr>"

lemma ex_time_text_inj: "inj ex_time_text"
  by (rule injI) (auto simp: ex_time_text_def decimal_inj split: if_splits)

lemma ex_time_text_no_name: "list_all (\<lambda>c. \<not> is_name_char c) (ex_time_text t)"
proof -
  have "\<not> is_name_char c" if "is_ascii_digit c" for c
    using that by (auto simp: is_name_char_def is_ascii_digit_def)
  then show ?thesis using decimal_digits [of "nat \<bar>t\<bar>"] by (auto simp: ex_time_text_def list_all_iff is_name_char_def)
qed

lemma ex_audit_lib_lawful: "audit_lawful ex_audit_lib"
  using ex_time_text_inj ex_time_text_no_name by (simp add: audit_lawful_def ex_audit_lib_def min_def)

definition ex_new_entry :: new_audit_entry where
  "ex_new_entry = \<lparr>ne_community_id = 2, ne_action = MemberAdded, ne_actor_pubkey = None, ne_object_id = Some ''m1'',
     ne_detail = JObject []\<rparr>"

definition ex_audit_call :: audit_call where
  "ex_audit_call = \<lparr>ac_now = 5000, ac_begin_error = None, ac_insert_error = None, ac_commit_error = None\<rparr>"

definition ex_audit_table :: "audit_row list" where
  "ex_audit_table = snd (log_entry ex_audit_lib ex_audit_call ex_new_entry [])"

lemma ex_audit_run: "audit_run ex_audit_lib ex_audit_table"
  unfolding ex_audit_table_def by (intro audit_log audit_start) (simp_all add: ex_new_entry_def)

lemma ex_audit_table_row: "\<exists>r. ex_audit_table = [r] \<and> ar_community_id r = 2 \<and> ar_seq r = 1 \<and> plain_row r \<and> ar_prev_hash r = None"
  by (simp add: ex_audit_table_def log_entry_def log_inner_def ex_audit_call_def ex_new_entry_def next_entry_def chain_head_def
      community_rows_def compute_hash_def preimage_def audit_entry_to_row_def plain_row_def ex_audit_lib_def i64_add_def)

theorem audit_chain_verifies_witness: "verify_chain ex_audit_lib None 2 1 1 ex_audit_table = Inr True"
proof -
  obtain r where r: "ex_audit_table = [r]" and f: "ar_community_id r = 2" "ar_seq r = 1" using ex_audit_table_row by blast
  from audit_chain_verifies [OF ex_audit_lib_lawful ex_audit_run, of 2 1 1] f show ?thesis unfolding r by simp
qed

theorem audit_truncation_verifies_witness:
  "verify_chain ex_audit_lib None 2 1 1 (filter (\<lambda>r. ar_community_id r \<noteq> 2 \<or> 0 < ar_seq r) ex_audit_table) = Inr True"
proof -
  obtain r where r: "ex_audit_table = [r]" and f: "ar_community_id r = 2" "ar_seq r = 1" using ex_audit_table_row by blast
  from audit_truncation_verifies [OF ex_audit_lib_lawful ex_audit_run, of 0 2] f show ?thesis
    unfolding r by (simp add: community_rows_def)
qed

theorem audit_tamper_evident_witness:
  "(\<exists>r \<in> set ex_audit_table. \<exists>r' \<in> set ex_audit_table. row_preimage ex_audit_lib r \<noteq> row_preimage ex_audit_lib r' \<and>
      al_sha256 ex_audit_lib (row_preimage ex_audit_lib r) = al_sha256 ex_audit_lib (row_preimage ex_audit_lib r')) \<or>
   (\<exists>k. list_all2 (same_record ex_audit_lib) ex_audit_table (drop k ex_audit_table))"
proof -
  obtain r where t: "ex_audit_table = [r]" and r: "ar_community_id r = 2" "ar_seq r = 1" "plain_row r" "ar_prev_hash r = None"
    using ex_audit_table_row by blast
  have rows: "community_rows 2 ex_audit_table = ex_audit_table" unfolding t using r by (simp add: community_rows_def)
  have v: "verify_chain ex_audit_lib None 2 1 (int (length ex_audit_table)) ex_audit_table = Inr True"
    using audit_run_inv [OF ex_audit_run ex_audit_lib_lawful, of 2] r
    unfolding verify_chain_def rows unfolding t by (simp add: verify_rows_iff chain_inv_def rows_of_def del: verify_rows.simps)
  show ?thesis
    by (rule audit_tamper_evident [OF ex_audit_lib_lawful ex_audit_run rows [symmetric] _ _ _ _ _ _ v])
       (use r in \<open>simp_all add: rows [unfolded t] t prev_bytes_def GENESIS_HASH_def\<close>)
qed

definition ex_audit_entry :: audit_entry where
  "ex_audit_entry = next_entry ex_audit_call ex_new_entry []"

theorem audit_field_boundary_witness:
  "compute_hash ex_audit_lib (ex_audit_entry\<lparr>ae_object_id := Some (''4'' @ ''2''), ae_detail := JNumber (PosInt 3)\<rparr>) =
   compute_hash ex_audit_lib (ex_audit_entry\<lparr>ae_object_id := Some ''4'', ae_detail := JNumber (PosInt 23)\<rparr>)"
  by (rule audit_field_boundary) (simp_all add: ex_audit_lib_def decimal.simps char_of_def bit_0)

end
