(* ===== verification/Relay_Auth.thy ===== *)
theory Relay_Auth
  imports Requests Nip_OA
begin

text \<open>
  Who a connection is: the community a host is bound to (\<open>crates/punks-core/src/tenant.rs\<close> and
  \<open>crates/punks-relay/src/tenant.rs\<close>), the verification of signed events
  (\<open>crates/punks-core/src/verification.rs\<close>), NIP-42 and NIP-98 (\<open>crates/punks-auth\<close>), relay
  membership with owner attestation (\<open>crates/punks-relay/src/api/mod.rs\<close>), and the AUTH handler
  (\<open>crates/punks-relay/src/handlers/auth.rs\<close>).

  Hashing, signatures, JSON and the \<open>url\<close> crate are the parameter record \<open>auth_lib\<close>; a parsed URL is
  represented by its serialization, as that crate does.  The configuration and the database queries of
  the gates are \<open>auth_env\<close>.  The users table, which the handler writes, is part of the state; each
  statement on it may fail, with or without having taken effect.  The clock is an argument.
\<close>

section \<open>Tenancy\<close>

record tenant_context =
  tc_community :: community_id
  tc_host :: string

definition strip_suffix :: "string \<Rightarrow> string \<Rightarrow> string option" where
  "strip_suffix p s =
     (if starts_with (rev s) (rev p) then Some (take (length s - length p) s) else None)"

definition normalize_host :: "string \<Rightarrow> string" where
  "normalize_host raw =
     (let host = map to_ascii_lower (trim raw);
          host1 = (case strip_suffix '':443'' host of
                     Some stripped \<Rightarrow> stripped
                   | None \<Rightarrow> (case strip_suffix '':80'' host of Some stripped \<Rightarrow> stripped | None \<Rightarrow> host))
      in case strip_suffix ''.'' host1 of Some stripped \<Rightarrow> stripped | None \<Rightarrow> host1)"

datatype bind_error = UnmappedHost | Lookup db_error

definition bind_community ::
    "(string \<Rightarrow> (db_error, community_id option) result) \<Rightarrow> string \<Rightarrow> (bind_error, tenant_context) result" where
  "bind_community resolve_host raw_host =
     (let host = normalize_host raw_host in
      if host = [] then Inl UnmappedHost
      else (case resolve_host host of
          Inr (Some community) \<Rightarrow> Inr \<lparr>tc_community = community, tc_host = host\<rparr>
        | Inr None \<Rightarrow> Inl UnmappedHost
        | Inl e \<Rightarrow> Inl (Lookup e)))"

section \<open>Signed events\<close>

record signed_event =
  sg_event :: event
  sg_sig :: bytes

record auth_lib =
  au_nostr :: nostr_lib
  au_oa :: oa_lib
  au_event_id :: "pubkey \<Rightarrow> timestamp \<Rightarrow> kind \<Rightarrow> tag list \<Rightarrow> string \<Rightarrow> event_id"
  au_verify_schnorr :: "bytes \<Rightarrow> event_id \<Rightarrow> pubkey \<Rightarrow> bool"
  au_pubkey_from_slice :: "bytes \<Rightarrow> (string, pubkey) result"
  au_pubkey_from_hex :: "string \<Rightarrow> (string, pubkey) result"
  au_event_from_json :: "string \<Rightarrow> (string, signed_event) result"
  au_event_from_slice :: "bytes \<Rightarrow> (string, signed_event) result"
  au_base64_decode :: "string \<Rightarrow> (string, bytes) result"
  au_from_utf8 :: "bytes \<Rightarrow> (string, string) result"
  au_sha256 :: "bytes \<Rightarrow> bytes"
  au_to_lowercase :: "string \<Rightarrow> string"
  au_url_parse :: "string \<Rightarrow> string option"
  au_url_host_str :: "string \<Rightarrow> string option"
  au_url_set_host :: "string \<Rightarrow> string \<Rightarrow> string"
  au_url_path :: "string \<Rightarrow> string"
  au_url_set_path :: "string \<Rightarrow> string \<Rightarrow> string"

datatype verification_error = InvalidId string string | InvalidEventSignature

definition verify_event :: "auth_lib \<Rightarrow> signed_event \<Rightarrow> (verification_error, unit) result" where
  "verify_event lib se =
     (let e = sg_event se;
          computed = au_event_id lib (ev_pubkey e) (ev_created_at e) (ev_kind e) (ev_tags e) (ev_content e)
      in if computed \<noteq> ev_id e
         then Inl (InvalidId (id_to_hex (au_nostr lib) computed) (id_to_hex (au_nostr lib) (ev_id e)))
         else if \<not> au_verify_schnorr lib (sg_sig se) (ev_id e) (ev_pubkey e) then Inl InvalidEventSignature
         else Inr ())"

text \<open>\<open>tags.find(kind)\<close> with \<open>content()\<close>: the value of the first tag of that kind.\<close>

definition tag_value :: "event \<Rightarrow> string \<Rightarrow> string option" where
  "tag_value e k = Option.bind (find (\<lambda>t. tag_kind t = k) (ev_tags e)) tag_content"

definition trim_end_slash :: "string \<Rightarrow> string" where
  "trim_end_slash s = rev (dropWhile (\<lambda>c. c = CHR ''/'') (rev s))"

definition abs_diff :: "nat \<Rightarrow> nat \<Rightarrow> nat" where
  "abs_diff a b = (if a \<ge> b then a - b else b - a)"

text \<open>The reasons of \<open>Nip98Invalid\<close>, which the source carries as text.\<close>

datatype nip98_reason =
    ParseError string | WrongKind kind | InvalidSchnorr | OutsideWindow nat | MissingU
  | UrlMismatch string string | MissingMethod | MethodMismatch string string | PayloadMismatch

datatype auth_error =
    InvalidSignature | ChallengeMismatch | RelayUrlMismatch | EventExpired
  | Nip98Invalid nip98_reason | Nip98Replay | PubkeyMismatch
  | InsufficientScope auth_scope "auth_scope list" | ChannelAccessDenied | Internal string

definition TIMESTAMP_TOLERANCE_SECS :: nat where
  "TIMESTAMP_TOLERANCE_SECS = 60"

section \<open>NIP-42\<close>

definition normalize_relay_url :: "auth_lib \<Rightarrow> string \<Rightarrow> string" where
  "normalize_relay_url lib raw = (case au_url_parse lib raw of
     None \<Rightarrow> raw
   | Some url \<Rightarrow>
       (let url1 = (case au_url_host_str lib url of
              Some host \<Rightarrow> if host = ''localhost'' \<or> host = ''::1'' then au_url_set_host lib url ''127.0.0.1'' else url
            | None \<Rightarrow> url)
        in au_url_set_path lib url1 (trim_end_slash (au_url_path lib url1))))"

definition verify_nip42_event ::
    "auth_lib \<Rightarrow> timestamp \<Rightarrow> signed_event \<Rightarrow> string \<Rightarrow> string \<Rightarrow> (auth_error, unit) result" where
  "verify_nip42_event lib now se expected_challenge relay_url =
     (let e = sg_event se in
      if ev_kind e \<noteq> KIND_AUTH then Inl InvalidSignature
      else if \<not> is_ok (verify_event lib se) then Inl InvalidSignature
      else (case tag_value e ''challenge'' of
          None \<Rightarrow> Inl ChallengeMismatch
        | Some challenge \<Rightarrow>
            if challenge \<noteq> expected_challenge then Inl ChallengeMismatch
            else (case tag_value e ''relay'' of
                None \<Rightarrow> Inl RelayUrlMismatch
              | Some relay \<Rightarrow>
                  if normalize_relay_url lib relay \<noteq> normalize_relay_url lib relay_url then Inl RelayUrlMismatch
                  else if abs_diff now (ev_created_at e) > TIMESTAMP_TOLERANCE_SECS then Inl EventExpired
                  else Inr ())))"

definition all_known :: "auth_scope list" where
  "all_known =
     [MessagesRead, MessagesWrite, ChannelsRead, ChannelsWrite, AdminChannels, UsersRead, UsersWrite,
      AdminUsers, JobsRead, JobsWrite, SubscriptionsRead, SubscriptionsWrite, FilesRead, FilesWrite,
      ReposRead, ReposWrite]"

definition verify_auth_event ::
    "auth_lib \<Rightarrow> timestamp \<Rightarrow> signed_event \<Rightarrow> string \<Rightarrow> string \<Rightarrow> (auth_error, auth_context) result" where
  "verify_auth_event lib now se expected_challenge relay_url =
     and_then (verify_nip42_event lib now se expected_challenge relay_url) (\<lambda>_.
       Inr \<lparr>ac_pubkey = ev_pubkey (sg_event se), ac_scopes = all_known, ac_channel_ids = None,
            ac_auth_method = Nip42, ac_agent_owner_pubkey = None\<rparr>)"

section \<open>NIP-98\<close>

definition normalize_url :: "auth_lib \<Rightarrow> string \<Rightarrow> string" where
  "normalize_url lib raw = (case au_url_parse lib raw of
     None \<Rightarrow> au_to_lowercase lib raw
   | Some url \<Rightarrow> au_url_set_path lib url (trim_end_slash (au_url_path lib url)))"

definition check_payload :: "auth_lib \<Rightarrow> event \<Rightarrow> bytes option \<Rightarrow> (auth_error, unit) result" where
  "check_payload lib e body = (case (tag_value e ''payload'', body) of
     (Some payload_hex, Some body_bytes) \<Rightarrow>
       guard (hex_encode (au_nostr lib) (au_sha256 lib body_bytes) = payload_hex) (Nip98Invalid PayloadMismatch)
   | _ \<Rightarrow> Inr ())"

definition verify_nip98_event ::
    "auth_lib \<Rightarrow> timestamp \<Rightarrow> string \<Rightarrow> string \<Rightarrow> string \<Rightarrow> bytes option \<Rightarrow> (auth_error, pubkey) result" where
  "verify_nip98_event lib now event_json expected_url expected_method body =
     (case au_event_from_json lib event_json of
        Inl err \<Rightarrow> Inl (Nip98Invalid (ParseError err))
      | Inr se \<Rightarrow>
          (let e = sg_event se; delta = abs_diff now (ev_created_at e) in
           if ev_kind e \<noteq> KIND_HTTP_AUTH then Inl (Nip98Invalid (WrongKind (ev_kind e)))
           else if \<not> is_ok (verify_event lib se) then Inl (Nip98Invalid InvalidSchnorr)
           else if delta > TIMESTAMP_TOLERANCE_SECS then Inl (Nip98Invalid (OutsideWindow delta))
           else (case tag_value e ''u'' of
               None \<Rightarrow> Inl (Nip98Invalid MissingU)
             | Some u \<Rightarrow>
                 if normalize_url lib u \<noteq> normalize_url lib expected_url
                 then Inl (Nip98Invalid (UrlMismatch u expected_url))
                 else (case tag_value e ''method'' of
                     None \<Rightarrow> Inl (Nip98Invalid MissingMethod)
                   | Some m \<Rightarrow>
                       if \<not> eq_ignore_ascii_case m expected_method
                       then Inl (Nip98Invalid (MethodMismatch m expected_method))
                       else and_then (check_payload lib e body) (\<lambda>_. Inr (ev_pubkey e))))))"

section \<open>Channel access by scope\<close>

definition require_scope :: "auth_scope list \<Rightarrow> auth_scope \<Rightarrow> (auth_error, unit) result" where
  "require_scope scopes required = guard (required \<in> set scopes) (InsufficientScope required scopes)"

definition can_access ::
    "(community_id \<Rightarrow> pubkey \<Rightarrow> (auth_error, channel_id list) result) \<Rightarrow> tenant_context \<Rightarrow> pubkey \<Rightarrow> channel_id \<Rightarrow>
     (auth_error, bool) result" where
  "can_access accessible ctx pk ch =
     and_then (accessible (tc_community ctx) pk) (\<lambda>ids. Inr (ch \<in> set ids))"

definition check_read_access ::
    "(community_id \<Rightarrow> pubkey \<Rightarrow> (auth_error, channel_id list) result) \<Rightarrow> tenant_context \<Rightarrow> pubkey \<Rightarrow> channel_id \<Rightarrow>
     auth_scope list \<Rightarrow> (auth_error, unit) result" where
  "check_read_access accessible ctx pk ch scopes =
     and_then (require_scope scopes MessagesRead) (\<lambda>_.
     and_then (can_access accessible ctx pk ch) (\<lambda>ok. guard ok ChannelAccessDenied))"

definition check_write_access ::
    "(community_id \<Rightarrow> pubkey \<Rightarrow> (auth_error, channel_id list) result) \<Rightarrow> tenant_context \<Rightarrow> pubkey \<Rightarrow> channel_id \<Rightarrow>
     auth_scope list \<Rightarrow> (auth_error, unit) result" where
  "check_write_access accessible ctx pk ch scopes =
     and_then (require_scope scopes MessagesWrite) (\<lambda>_.
     and_then (can_access accessible ctx pk ch) (\<lambda>ok. guard ok ChannelAccessDenied))"

section \<open>The users table\<close>

record principals =
  pr_users :: "((community_id \<times> bytes) \<times> bytes option) list"
  pr_author_type_cache :: "((community_id \<times> bytes) \<times> bool) list"
  pr_observer_owner_cache :: "((community_id \<times> bytes \<times> bytes) \<times> bool) list"

text \<open>The failure of a statement, and whether it took effect nevertheless.\<close>

type_synonym db_fault = "(db_error \<times> bool) option"

definition ensure_user ::
    "db_fault \<Rightarrow> community_id \<Rightarrow> bytes \<Rightarrow> principals \<Rightarrow> (db_error, bool) result \<times> principals" where
  "ensure_user fault com pk p =
     (let absent = (map_of (pr_users p) (com, pk) = None);
          p1 = (if absent then p\<lparr>pr_users := AList.update (com, pk) None (pr_users p)\<rparr> else p)
      in case fault of
           Some (e, done) \<Rightarrow> (Inl e, if done then p1 else p)
         | None \<Rightarrow> (Inr absent, p1))"

definition set_agent_owner ::
    "db_fault \<Rightarrow> community_id \<Rightarrow> bytes \<Rightarrow> bytes \<Rightarrow> principals \<Rightarrow> (db_error, bool) result \<times> principals" where
  "set_agent_owner fault com agent owner p =
     (let row = map_of (pr_users p) (com, agent);
          p1 = (if row = Some None then p\<lparr>pr_users := AList.update (com, agent) (Some owner) (pr_users p)\<rparr> else p)
      in case fault of
           Some (e, done) \<Rightarrow> (Inl e, if done then p1 else p)
         | None \<Rightarrow>
             ((case row of
                 None \<Rightarrow> Inl ''agent pubkey not found in users table''
               | Some (Some _) \<Rightarrow> Inr False
               | Some None \<Rightarrow> Inr True), p1))"

definition is_agent_owner ::
    "db_fault \<Rightarrow> community_id \<Rightarrow> bytes \<Rightarrow> bytes \<Rightarrow> principals \<Rightarrow> (db_error, bool) result" where
  "is_agent_owner fault com target actor p = (case fault of
     Some (e, _) \<Rightarrow> Inl e
   | None \<Rightarrow> Inr (map_of (pr_users p) (com, target) = Some (Some actor)))"

section \<open>Relay membership\<close>

record auth_env =
  xe_lib :: auth_lib
  xe_relay_url :: string
  xe_require_relay_membership :: bool
  xe_allow_nip_oa_auth :: bool
  xe_pubkey_allowlist_enabled :: bool
  xe_require_auth_token :: bool
  xe_resolve_host :: "string \<Rightarrow> (db_error, community_id option) result"
  xe_is_relay_member :: "community_id \<Rightarrow> string \<Rightarrow> (db_error, bool) result"
  xe_banned :: "community_id \<Rightarrow> bytes \<Rightarrow> (db_error, bool) result"
  xe_is_pubkey_allowed :: "community_id \<Rightarrow> bytes \<Rightarrow> (db_error, bool) result"

datatype membership_decision = OpenRelay | DirectMember | ViaOwner pubkey | MembershipDenied

definition check_relay_membership ::
    "auth_env \<Rightarrow> community_id \<Rightarrow> bytes \<Rightarrow> string option \<Rightarrow> (string, membership_decision) result" where
  "check_relay_membership env com pk auth_tag =
     (if \<not> xe_require_relay_membership env then Inr OpenRelay
      else (case xe_is_relay_member env com (hex_encode (au_nostr (xe_lib env)) pk) of
          Inl e \<Rightarrow> Inl (''relay membership check failed: '' @ e)
        | Inr True \<Rightarrow> Inr DirectMember
        | Inr False \<Rightarrow>
            (case (xe_allow_nip_oa_auth env, auth_tag) of
               (True, Some tag_json) \<Rightarrow>
                 (case au_pubkey_from_slice (xe_lib env) pk of
                    Inl e \<Rightarrow> Inl (''invalid agent pubkey for NIP-OA check: '' @ e)
                  | Inr agent \<Rightarrow>
                      (case verify_auth_tag (au_oa (xe_lib env)) tag_json agent of
                         Inr owner \<Rightarrow>
                           (case xe_is_relay_member env com (pubkey_to_hex (au_nostr (xe_lib env)) owner) of
                              Inl e \<Rightarrow> Inl (''relay membership check (owner) failed: '' @ e)
                            | Inr True \<Rightarrow> Inr (ViaOwner owner)
                            | Inr False \<Rightarrow> Inr MembershipDenied)
                       | Inl _ \<Rightarrow> Inr MembershipDenied))
             | _ \<Rightarrow> Inr MembershipDenied)))"

text \<open>A response of the HTTP interface: a status with the text of its error, or a rejected NIP-98 event.\<close>

datatype http_error = ApiError nat string | Nip98Rejected auth_error

definition enforce_relay_membership ::
    "auth_env \<Rightarrow> community_id \<Rightarrow> bytes \<Rightarrow> string option \<Rightarrow> (http_error, pubkey option) result" where
  "enforce_relay_membership env com pk auth_tag = (case check_relay_membership env com pk auth_tag of
     Inr OpenRelay \<Rightarrow> Inr None
   | Inr DirectMember \<Rightarrow> Inr None
   | Inr (ViaOwner owner) \<Rightarrow> Inr (Some owner)
   | Inr MembershipDenied \<Rightarrow> Inl (ApiError 403 ''relay_membership_required'')
   | Inl e \<Rightarrow> Inl (ApiError 500 ''internal server error''))"

definition extract_nip_oa_owner :: "auth_lib \<Rightarrow> bytes \<Rightarrow> string option \<Rightarrow> pubkey option" where
  "extract_nip_oa_owner lib pk auth_tag = (case auth_tag of
     None \<Rightarrow> None
   | Some tag_json \<Rightarrow> (case au_pubkey_from_slice lib pk of
       Inl _ \<Rightarrow> None
     | Inr agent \<Rightarrow> (case verify_auth_tag (au_oa lib) tag_json agent of Inr owner \<Rightarrow> Some owner | Inl _ \<Rightarrow> None)))"

definition remember_owner :: "community_id \<Rightarrow> pubkey \<Rightarrow> pubkey \<Rightarrow> principals \<Rightarrow> principals" where
  "remember_owner com agent owner p =
     p\<lparr>pr_author_type_cache := AList.update (com, agent) True (pr_author_type_cache p),
       pr_observer_owner_cache := AList.update (com, agent, owner) True (pr_observer_owner_cache p)\<rparr>"

definition materialize_nip_oa_owner ::
    "(nat \<Rightarrow> db_fault) \<Rightarrow> community_id \<Rightarrow> pubkey \<Rightarrow> pubkey \<Rightarrow> principals \<Rightarrow> bool \<times> principals" where
  "materialize_nip_oa_owner faults com agent owner p =
     (case ensure_user (faults 0) com agent p of
        (Inl _, p1) \<Rightarrow> (False, p1)
      | (Inr _, p1) \<Rightarrow>
          (case ensure_user (faults 1) com owner p1 of
             (Inl _, p2) \<Rightarrow> (False, p2)
           | (Inr _, p2) \<Rightarrow>
               (let (set, p3) = set_agent_owner (faults 2) com agent owner p2;
                    materialized = (case set of
                        Inr True \<Rightarrow> True
                      | Inr False \<Rightarrow> (case is_agent_owner (faults 3) com agent owner p3 of Inr b \<Rightarrow> b | Inl _ \<Rightarrow> False)
                      | Inl _ \<Rightarrow> False)
                in (materialized, if materialized then remember_owner com agent owner p3 else p3))))"

section \<open>The AUTH handler\<close>

definition nip42_expected_relay_url :: "string \<Rightarrow> string \<Rightarrow> string" where
  "nip42_expected_relay_url config_relay_url host =
     (if starts_with (dropWhile is_whitespace config_relay_url) ''wss://'' then ''wss'' else ''ws'') @ ''://'' @ host"

definition extract_auth_tag_json :: "oa_lib \<Rightarrow> event \<Rightarrow> string option" where
  "extract_auth_tag_json lib e = (case filter (\<lambda>t. tag_kind t = ''auth'') (ev_tags e) of
     [t] \<Rightarrow> Some (oa_to_string lib (JArray (map JString t)))
   | _ \<Rightarrow> None)"

text \<open>The state the handler touches: the connection, the table of connections, the principals, and what
  was sent on the data and on the control channel of the connection.\<close>

record auth_node =
  an_conn :: connection
  an_host :: string
  an_relay :: relay
  an_principals :: principals
  an_sent :: "relay_message list"
  an_ctrl :: "relay_message list"
  an_cancelled :: bool

record auth_call =
  ah_now :: timestamp
  ah_faults :: "nat \<Rightarrow> db_fault"
  ah_accepts :: bool

definition set_auth_state :: "auth_state \<Rightarrow> auth_node \<Rightarrow> auth_node" where
  "set_auth_state a n = n\<lparr>an_conn := (an_conn n)\<lparr>cn_auth_state := a\<rparr>\<rparr>"

definition auth_send :: "auth_call \<Rightarrow> relay_message \<Rightarrow> auth_node \<Rightarrow> auth_node" where
  "auth_send c msg n = (if ah_accepts c then n\<lparr>an_sent := an_sent n @ [msg]\<rparr> else n)"

definition send_and_close :: "auth_call \<Rightarrow> relay_message \<Rightarrow> auth_node \<Rightarrow> auth_node" where
  "send_and_close c msg n = (if ah_accepts c then n\<lparr>an_ctrl := an_ctrl n @ [msg], an_cancelled := True\<rparr>
     else n\<lparr>an_cancelled := True\<rparr>)"

definition set_authenticated_pubkey :: "conn_id \<Rightarrow> bytes \<Rightarrow> relay \<Rightarrow> relay" where
  "set_authenticated_pubkey c pk r = (case map_of (connections r) c of
     Some entry \<Rightarrow> r\<lparr>connections := AList.update c (entry\<lparr>ce_authenticated_pubkey := Some pk\<rparr>) (connections r)\<rparr>
   | None \<Rightarrow> r)"

datatype ban_outcome = BanClear | Banned | BanDbError

definition ban_lookup :: "auth_env \<Rightarrow> community_id \<Rightarrow> bytes \<Rightarrow> ban_outcome" where
  "ban_lookup env com pk = (case xe_banned env com pk of Inr True \<Rightarrow> Banned | Inr False \<Rightarrow> BanClear | Inl _ \<Rightarrow> BanDbError)"

definition check_ban :: "auth_env \<Rightarrow> community_id \<Rightarrow> bytes \<Rightarrow> string option \<Rightarrow> ban_outcome" where
  "check_ban env com pk auth_tag =
     (case ban_lookup env com pk of
        BanClear \<Rightarrow> (case extract_nip_oa_owner (xe_lib env) pk auth_tag of
            Some owner \<Rightarrow> ban_lookup env com owner
          | None \<Rightarrow> BanClear)
      | outcome \<Rightarrow> outcome)"

definition backfill_owner ::
    "auth_env \<Rightarrow> auth_call \<Rightarrow> community_id \<Rightarrow> auth_context \<Rightarrow> string option \<Rightarrow> pubkey option \<Rightarrow> principals \<Rightarrow>
     auth_context \<times> principals" where
  "backfill_owner env c com ctx auth_tag via p =
     (let owner = (case via of
          Some o' \<Rightarrow> Some o'
        | None \<Rightarrow>
            if \<not> xe_require_relay_membership env \<and> auth_tag \<noteq> None
            then extract_nip_oa_owner (xe_lib env) (ac_pubkey ctx) auth_tag else None)
      in case owner of
           None \<Rightarrow> (ctx, p)
         | Some o' \<Rightarrow>
             (let (ok, p1) = materialize_nip_oa_owner (ah_faults c) com (ac_pubkey ctx) o' p
              in (if ok then ctx\<lparr>ac_agent_owner_pubkey := Some o'\<rparr> else ctx, p1)))"

definition handle_auth :: "auth_env \<Rightarrow> auth_call \<Rightarrow> signed_event \<Rightarrow> auth_node \<Rightarrow> auth_node" where
  "handle_auth env c se n =
     (let eid = id_to_hex (au_nostr (xe_lib env)) (ev_id (sg_event se));
          com = cn_community (an_conn n);
          refuse = (\<lambda>reason. auth_send c (OkMsg eid False reason))
      in case cn_auth_state (an_conn n) of
           Authenticated _ \<Rightarrow> refuse ''auth-required: already authenticated'' n
         | AuthFailed \<Rightarrow> refuse ''auth-required: authentication already failed'' n
         | Pending challenge \<Rightarrow>
             (let auth_tag = extract_auth_tag_json (au_oa (xe_lib env)) (sg_event se);
                  failed = set_auth_state AuthFailed n
              in case verify_auth_event (xe_lib env) (ah_now c) se challenge
                        (nip42_expected_relay_url (xe_relay_url env) (an_host n)) of
                   Inl _ \<Rightarrow> refuse ''auth-required: verification failed'' failed
                 | Inr ctx \<Rightarrow>
                     (case check_ban env com (ac_pubkey ctx) auth_tag of
                        Banned \<Rightarrow>
                          send_and_close c (OkMsg eid False ''blocked: you are banned from this community'') failed
                      | BanDbError \<Rightarrow>
                          send_and_close c (OkMsg eid False ''error: internal error checking restriction state'') failed
                      | BanClear \<Rightarrow>
                          if xe_pubkey_allowlist_enabled env \<and> ac_auth_method ctx = Nip42 \<and>
                             xe_is_pubkey_allowed env com (ac_pubkey ctx) \<noteq> Inr True
                          then refuse ''auth-required: verification failed'' failed
                          else (case enforce_relay_membership env com (ac_pubkey ctx) auth_tag of
                              Inl _ \<Rightarrow> refuse ''restricted: not a relay member'' failed
                            | Inr via \<Rightarrow>
                                (let (ctx1, p1) = backfill_owner env c com ctx auth_tag via (an_principals n);
                                     n1 = (set_auth_state (Authenticated ctx1) n)\<lparr>an_principals := p1,
                                       an_relay := set_authenticated_pubkey (cn_conn_id (an_conn n)) (ac_pubkey ctx) (an_relay n)\<rparr>
                                 in auth_send c (OkMsg eid True []) n1)))))"

end
