(* ===== verification/Admission.thy ===== *)
theory Admission
  imports Relay_Auth Session_Directory
begin

text \<open>
  What an authenticated HTTP request or WebSocket message must pass before it is served: the shared
  seen-set of NIP-98 event ids (\<open>crates/punks-auth/src/nip98_replay.rs\<close>,
  \<open>crates/punks-pubsub/src/nip98_replay.rs\<close>), the fixed-window rate limiter
  (\<open>crates/punks-auth/src/rate_limit.rs\<close>, \<open>crates/punks-pubsub/src/rate_limiter.rs\<close>,
  \<open>crates/punks-relay/src/admission.rs\<close>), their callers in
  \<open>crates/punks-relay/src/connection.rs\<close>, and the gates of the HTTP bridge
  (\<open>crates/punks-relay/src/api/bridge.rs\<close>).

  Both keep their state in the Redis store of \<open>Session_Directory\<close>, whose commands \<open>SET NX EX\<close>,
  \<open>EXPIRE\<close> and \<open>TTL\<close> are added here.  The failures a call meets are in the record \<open>redis_call\<close>.
\<close>

section \<open>More Redis commands\<close>

definition redis_set_nx_ex :: "instant_ms \<Rightarrow> string \<Rightarrow> string \<Rightarrow> nat \<Rightarrow> redis \<Rightarrow> string option \<times> redis" where
  "redis_set_nx_ex now k v ttl_secs r = (case redis_get now k r of
     Some _ \<Rightarrow> (None, r)
   | None \<Rightarrow> (Some ''OK'', redis_set_px now k v (ttl_secs * 1000) r))"

text \<open>A time to live that is not positive deletes the key; one whose instant exceeds 63 bits is an error.\<close>

definition redis_expire :: "instant_ms \<Rightarrow> string \<Rightarrow> int \<Rightarrow> redis \<Rightarrow> (string, unit) result \<times> redis" where
  "redis_expire now k secs r =
     (if secs * 1000 + int now \<ge> 2 ^ 63 then (Inl ''invalid expire time in expire command'', r)
      else if redis_get now k r = None then (Inr (), r)
      else if secs \<le> 0 then (Inr (), redis_del k r)
      else (Inr (), redis_pexpire now k (nat secs * 1000) r))"

definition redis_ttl :: "instant_ms \<Rightarrow> string \<Rightarrow> redis \<Rightarrow> int" where
  "redis_ttl now k r = (case redis_get now k r of
     None \<Rightarrow> -2
   | Some _ \<Rightarrow> (case redis_expiry k r of None \<Rightarrow> -1 | Some expiry \<Rightarrow> int ((expiry - now + 500) div 1000)))"

text \<open>What a call meets: the server's clock, no connection, or a lost answer after the command ran (or not).\<close>

record redis_call =
  rc_now :: instant_ms
  rc_pool_error :: "string option"
  rc_query_error :: "(string \<times> bool) option"
  rc_repair_error :: "(string \<times> bool) option"

section \<open>The NIP-98 seen-set\<close>

definition DEFAULT_REPLAY_TTL_SECS :: nat where
  "DEFAULT_REPLAY_TTL_SECS = 120"

definition MAX_REPLAY_TTL_SECS :: nat where
  "MAX_REPLAY_TTL_SECS = 3600"

definition nip98_replay_key_for_scope :: "nostr_lib \<Rightarrow> string \<Rightarrow> event_id \<Rightarrow> string" where
  "nip98_replay_key_for_scope lib scope eid = ''punks:'' @ scope @ '':nip98:'' @ id_to_hex lib eid"

definition nip98_replay_key :: "nostr_lib \<Rightarrow> community_id \<Rightarrow> event_id \<Rightarrow> string" where
  "nip98_replay_key lib com eid = nip98_replay_key_for_scope lib (uuid_to_string lib com) eid"

definition clamp :: "nat \<Rightarrow> nat \<Rightarrow> nat \<Rightarrow> nat" where
  "clamp lo hi x = min hi (max lo x)"

definition try_mark_in_scope ::
    "nostr_lib \<Rightarrow> redis_call \<Rightarrow> string \<Rightarrow> event_id \<Rightarrow> nat \<Rightarrow> redis \<Rightarrow> (auth_error, bool) result \<times> redis" where
  "try_mark_in_scope lib c scope eid ttl_secs r = (case rc_pool_error c of
     Some e \<Rightarrow> (Inl (Internal (''Redis pool: '' @ e)), r)
   | None \<Rightarrow>
       (let ttl = clamp DEFAULT_REPLAY_TTL_SECS MAX_REPLAY_TTL_SECS ttl_secs;
            (reply, r1) = redis_set_nx_ex (rc_now c) (nip98_replay_key_for_scope lib scope eid) ''1'' ttl r
        in case rc_query_error c of
             Some (e, performed) \<Rightarrow> (Inl (Internal (''Redis SET NX EX: '' @ e)), if performed then r1 else r)
           | None \<Rightarrow>
               (case reply of
                  None \<Rightarrow> (Inr False, r1)
                | Some v \<Rightarrow> if v = ''OK'' then (Inr True, r1)
                            else (Inl (Internal (''unexpected SET NX EX reply: '' @ v)), r1))))"

definition try_mark ::
    "nostr_lib \<Rightarrow> redis_call \<Rightarrow> community_id \<Rightarrow> event_id \<Rightarrow> nat \<Rightarrow> redis \<Rightarrow> (auth_error, bool) result \<times> redis" where
  "try_mark lib c com eid ttl_secs r = try_mark_in_scope lib c (uuid_to_string lib com) eid ttl_secs r"

definition check_nip98_replay ::
    "nostr_lib \<Rightarrow> redis_call \<Rightarrow> community_id \<Rightarrow> event_id \<Rightarrow> redis \<Rightarrow> (http_error, unit) result \<times> redis" where
  "check_nip98_replay lib c com eid r =
     (if eid = replicate 32 0 then (Inr (), r)
      else (case try_mark lib c com eid DEFAULT_REPLAY_TTL_SECS r of
          (Inr True, r1) \<Rightarrow> (Inr (), r1)
        | (Inr False, r1) \<Rightarrow> (Inl (ApiError 401 ''NIP-98: replay detected''), r1)
        | (Inl _, r1) \<Rightarrow> (Inl (ApiError 401 ''NIP-98: replay check unavailable''), r1)))"

section \<open>The rate limiter\<close>

datatype limit_type = Messages | ApiCalls | GifSearches | WsEvents | IpConnections

fun key_suffix :: "limit_type \<Rightarrow> string" where
  "key_suffix Messages = ''msg''"
| "key_suffix ApiCalls = ''api''"
| "key_suffix GifSearches = ''gif''"
| "key_suffix WsEvents = ''ws''"
| "key_suffix IpConnections = ''conn''"

record rate_limit_config =
  human_messages_per_min :: nat
  gif_searches_per_min :: nat
  human_api_calls_per_min :: nat
  human_ws_events_per_sec :: nat
  agent_standard_messages_per_min :: nat
  agent_standard_api_calls_per_min :: nat
  agent_elevated_messages_per_min :: nat
  agent_platform_messages_per_min :: nat

definition default_rate_limits :: rate_limit_config where
  "default_rate_limits =
     \<lparr>human_messages_per_min = 60, gif_searches_per_min = 30, human_api_calls_per_min = 300,
      human_ws_events_per_sec = 10, agent_standard_messages_per_min = 120,
      agent_standard_api_calls_per_min = 600, agent_elevated_messages_per_min = 300,
      agent_platform_messages_per_min = 600\<rparr>"

record rate_limit_result =
  rl_allowed :: bool
  rl_current :: nat
  rl_limit :: nat
  rl_reset_in_secs :: nat

definition rate_limit_key :: "nostr_lib \<Rightarrow> community_id \<Rightarrow> pubkey \<Rightarrow> limit_type \<Rightarrow> string" where
  "rate_limit_key lib com pk lt =
     ''punks:'' @ uuid_to_string lib com @ '':ratelimit:'' @ pubkey_to_hex lib pk @ '':'' @ key_suffix lt"

definition ip_rate_limit_key :: "string \<Rightarrow> string" where
  "ip_rate_limit_key ip = ''punks:ratelimit:ip:'' @ ip @ '':conn''"

text \<open>The script: an error of a command ends it and keeps what the earlier commands did.\<close>

definition rate_limit_script :: "instant_ms \<Rightarrow> string \<Rightarrow> int \<Rightarrow> redis \<Rightarrow> (string, nat \<times> int) result \<times> redis" where
  "rate_limit_script now k window r = (case redis_incr now k r of
     Inl e \<Rightarrow> (Inl e, r)
   | Inr (count, r1) \<Rightarrow>
       if count = 1 then
         (case redis_expire now k window r1 of
            (Inl e, r2) \<Rightarrow> (Inl e, r2)
          | (Inr _, r2) \<Rightarrow> (Inr (count, redis_ttl now k r2), r2))
       else (Inr (count, redis_ttl now k r1), r1))"

definition rate_limit_verdict :: "nat \<Rightarrow> nat \<Rightarrow> nat \<Rightarrow> rate_limit_result" where
  "rate_limit_verdict count limit reset =
     \<lparr>rl_allowed = (count \<le> limit), rl_current = count, rl_limit = limit, rl_reset_in_secs = reset\<rparr>"

definition run_rate_limit ::
    "redis_call \<Rightarrow> string \<Rightarrow> nat \<Rightarrow> nat \<Rightarrow> redis \<Rightarrow> (auth_error, rate_limit_result) result \<times> redis" where
  "run_rate_limit c k window_secs limit r = (case rc_pool_error c of
     Some e \<Rightarrow> (Inl (Internal (''Redis pool: '' @ e)), r)
   | None \<Rightarrow>
       (let (reply, r1) = rate_limit_script (rc_now c) k (as_i64 window_secs) r in
        case (case rc_query_error c of Some (e, _) \<Rightarrow> Inl e | None \<Rightarrow> reply) of
          Inl e \<Rightarrow>
            (Inl (Internal (''Redis rate limit script: '' @ e)),
             case rc_query_error c of Some (_, False) \<Rightarrow> r | _ \<Rightarrow> r1)
        | Inr (count, ttl) \<Rightarrow>
            if ttl < 0 then
              (let (repair, r2) = redis_expire (rc_now c) k (as_i64 window_secs) r1 in
               case (case rc_repair_error c of Some (e, _) \<Rightarrow> Inl e | None \<Rightarrow> repair) of
                 Inl e \<Rightarrow>
                   (Inl (Internal (''Redis EXPIRE repair: '' @ e)),
                    case rc_repair_error c of Some (_, False) \<Rightarrow> r1 | _ \<Rightarrow> r2)
               | Inr _ \<Rightarrow> (Inr (rate_limit_verdict count limit window_secs), r2))
            else (Inr (rate_limit_verdict count limit (nat ttl)), r1)))"

definition check_and_increment ::
    "nostr_lib \<Rightarrow> redis_call \<Rightarrow> community_id \<Rightarrow> pubkey \<Rightarrow> limit_type \<Rightarrow> nat \<Rightarrow> nat \<Rightarrow> redis \<Rightarrow>
     (auth_error, rate_limit_result) result \<times> redis" where
  "check_and_increment lib c com pk lt window_secs limit r =
     run_rate_limit c (rate_limit_key lib com pk lt) window_secs limit r"

definition check_ip_connection ::
    "redis_call \<Rightarrow> string \<Rightarrow> nat \<Rightarrow> nat \<Rightarrow> redis \<Rightarrow> (auth_error, rate_limit_result) result \<times> redis" where
  "check_ip_connection c ip window_secs limit r = run_rate_limit c (ip_rate_limit_key ip) window_secs limit r"

datatype principal_admission_error = Exceeded nat | Unavailable

definition check_principal ::
    "nostr_lib \<Rightarrow> redis_call \<Rightarrow> community_id \<Rightarrow> pubkey \<Rightarrow> limit_type \<Rightarrow> nat \<Rightarrow> nat \<Rightarrow> redis \<Rightarrow>
     (principal_admission_error, unit) result \<times> redis" where
  "check_principal lib c com pk lt window_secs limit r =
     (let (res, r1) = check_and_increment lib c com pk lt window_secs limit r in
      (case res of
         Inr result \<Rightarrow> if rl_allowed result then Inr () else Inl (Exceeded (rl_reset_in_secs result))
       | Inl _ \<Rightarrow> Inl Unavailable, r1))"

definition WS_BURST_WINDOW_SECS :: nat where
  "WS_BURST_WINDOW_SECS = 5"

definition saturating_mul :: "nat \<Rightarrow> nat \<Rightarrow> nat" where
  "saturating_mul a b = min (a * b) (2 ^ 64 - 1)"

definition ws_admission_budget :: "nat \<Rightarrow> nat \<times> nat" where
  "ws_admission_budget per_second_limit =
     (WS_BURST_WINDOW_SECS, saturating_mul per_second_limit WS_BURST_WINDOW_SECS)"

section \<open>Admission of WebSocket messages\<close>

datatype client_message =
    MsgEvent event | MsgReq sub_id | MsgCount sub_id | MsgClose sub_id | MsgAuth event

definition request_rejection_message :: "sub_id option \<Rightarrow> string \<Rightarrow> relay_message" where
  "request_rejection_message sub reason = (case sub of Some s \<Rightarrow> Closed s reason | None \<Rightarrow> Notice reason)"

definition send_admission_result ::
    "(principal_admission_error, unit) result \<Rightarrow> sub_id option \<Rightarrow> bool \<times> relay_message list" where
  "send_admission_result res sub = (case res of
     Inr _ \<Rightarrow> (True, [])
   | Inl (Exceeded reset) \<Rightarrow>
       (False, [request_rejection_message sub (''rate-limited: quota exceeded; retry in '' @ decimal reset @ ''s'')])
   | Inl Unavailable \<Rightarrow>
       (False, [request_rejection_message sub ''rate-limited: shared admission unavailable'']))"

definition message_sub :: "client_message \<Rightarrow> sub_id option" where
  "message_sub msg = (case msg of MsgReq s \<Rightarrow> Some s | _ \<Rightarrow> None)"

text \<open>The two counters are consulted one after the other, each with a call of its own.\<close>

definition enforce_ws_admission ::
    "nostr_lib \<Rightarrow> rate_limit_config \<Rightarrow> (nat \<Rightarrow> redis_call) \<Rightarrow> client_message \<Rightarrow> connection \<Rightarrow> redis \<Rightarrow>
     (bool \<times> relay_message list) \<times> redis" where
  "enforce_ws_admission lib limits calls msg conn r =
     (case msg of
        MsgClose _ \<Rightarrow> ((True, []), r)
      | MsgAuth _ \<Rightarrow> ((True, []), r)
      | _ \<Rightarrow>
          (case cn_auth_state conn of
             Authenticated ctx \<Rightarrow>
               (let (window, limit) = ws_admission_budget (human_ws_events_per_sec limits);
                    (res, r1) = check_principal lib (calls 0) (cn_community conn) (ac_pubkey ctx) WsEvents window limit r;
                    (ok, out) = send_admission_result res (message_sub msg)
                in if \<not> ok then ((False, out), r1)
                   else (case msg of
                       MsgEvent _ \<Rightarrow>
                         (let limit = (if ac_agent_owner_pubkey ctx \<noteq> None then agent_standard_messages_per_min limits
                                       else human_messages_per_min limits);
                              (res, r2) = check_principal lib (calls 1) (cn_community conn) (ac_pubkey ctx) Messages 60 limit r1
                          in (send_admission_result res None, r2))
                     | _ \<Rightarrow> ((True, out), r1)))
           | _ \<Rightarrow> ((True, []), r)))"

section \<open>The gates of the HTTP bridge\<close>

definition enforce_http_admission ::
    "nostr_lib \<Rightarrow> rate_limit_config \<Rightarrow> redis_call \<Rightarrow> community_id \<Rightarrow> pubkey \<Rightarrow> redis \<Rightarrow> (http_error, unit) result \<times> redis" where
  "enforce_http_admission lib limits c com pk r =
     (let (res, r1) = check_principal lib c com pk ApiCalls 60 (human_api_calls_per_min limits) r in
      (case res of
         Inr _ \<Rightarrow> Inr ()
       | Inl (Exceeded reset) \<Rightarrow>
           Inl (ApiError 429 (''rate-limited: quota exceeded; retry in '' @ decimal reset @ ''s''))
       | Inl Unavailable \<Rightarrow> Inl (ApiError 503 ''rate-limited: shared admission unavailable''), r1))"

text \<open>The headers a request carries, as far as they are readable text.\<close>

record http_request =
  hq_host :: "string option"
  hq_authorization :: "string option"
  hq_x_pubkey :: "string option"
  hq_x_auth_tag :: "string option"
  hq_body :: bytes

definition nip98_expected_url :: "string \<Rightarrow> string \<Rightarrow> string \<Rightarrow> string" where
  "nip98_expected_url config_relay_url host path =
     (if starts_with (dropWhile is_whitespace config_relay_url) ''wss://'' then ''https'' else ''http'') @ ''://'' @ host @ path"

definition verify_bridge_auth_with_options ::
    "auth_lib \<Rightarrow> timestamp \<Rightarrow> http_request \<Rightarrow> string \<Rightarrow> string \<Rightarrow> bytes option \<Rightarrow> bool \<Rightarrow> bool \<Rightarrow>
     (http_error, pubkey \<times> event_id) result" where
  "verify_bridge_auth_with_options lib now q http_method url body require_auth_token require_payload =
     (case Option.bind (hq_authorization q) (strip_prefix ''Nostr '') of
        Some auth_str \<Rightarrow>
          (case au_base64_decode lib auth_str of
             Inl _ \<Rightarrow> Inl (ApiError 401 ''invalid base64 in Nostr auth'')
           | Inr bs \<Rightarrow> (case au_from_utf8 lib bs of
               Inl _ \<Rightarrow> Inl (ApiError 401 ''invalid UTF-8 in Nostr auth'')
             | Inr event_json \<Rightarrow> (case au_event_from_json lib event_json of
                 Inl _ \<Rightarrow> Inl (ApiError 401 ''invalid NIP-98 event JSON'')
               | Inr se \<Rightarrow>
                   if require_payload \<and> \<not> list_ex (\<lambda>t. tag_kind t = ''payload'') (ev_tags (sg_event se))
                   then Inl (ApiError 401 ''NIP-98: missing payload tag'')
                   else (case verify_nip98_event lib now event_json url http_method body of
                       Inl e \<Rightarrow> Inl (Nip98Rejected e)
                     | Inr pk \<Rightarrow> Inr (pk, ev_id (sg_event se))))))
      | None \<Rightarrow>
          (case (if require_auth_token then None else hq_x_pubkey q) of
             Some hex_val \<Rightarrow> (case au_pubkey_from_hex lib hex_val of
                 Inl _ \<Rightarrow> Inl (ApiError 401 ''invalid X-Pubkey hex'')
               | Inr pk \<Rightarrow> Inr (pk, replicate 32 0))
           | None \<Rightarrow> Inl (ApiError 401 ''missing Nostr auth'')))"

definition verify_bridge_auth ::
    "auth_lib \<Rightarrow> timestamp \<Rightarrow> http_request \<Rightarrow> string \<Rightarrow> string \<Rightarrow> bytes option \<Rightarrow> bool \<Rightarrow> (http_error, pubkey \<times> event_id) result" where
  "verify_bridge_auth lib now q http_method url body require_auth_token =
     verify_bridge_auth_with_options lib now q http_method url body require_auth_token False"

text \<open>A request as it arrives: the clock when its event is verified, and the two Redis calls.\<close>

record bridge_call =
  bc_now :: timestamp
  bc_admission :: redis_call
  bc_replay :: redis_call

definition bridge_bind_and_verify ::
    "auth_env \<Rightarrow> bridge_call \<Rightarrow> string \<Rightarrow> http_request \<Rightarrow> (http_error, tenant_context \<times> pubkey \<times> event_id) result" where
  "bridge_bind_and_verify env c path q =
     (case bind_community (xe_resolve_host env) (case hq_host q of Some h \<Rightarrow> h | None \<Rightarrow> []) of
        Inl _ \<Rightarrow> Inl (ApiError 404 ''relay: no community is configured for this host'')
      | Inr tenant \<Rightarrow>
          and_then (verify_bridge_auth (xe_lib env) (bc_now c) q ''POST''
              (nip98_expected_url (xe_relay_url env) (tc_host tenant) path) (Some (hq_body q)) (xe_require_auth_token env))
            (\<lambda>(pk, eid). Inr (tenant, pk, eid)))"

definition admit_and_mark ::
    "auth_env \<Rightarrow> rate_limit_config \<Rightarrow> bridge_call \<Rightarrow> community_id \<Rightarrow> pubkey \<Rightarrow> event_id \<Rightarrow> redis \<Rightarrow> (http_error, unit) result \<times> redis" where
  "admit_and_mark env limits c com pk eid r =
     (case enforce_http_admission (au_nostr (xe_lib env)) limits (bc_admission c) com pk r of
        (Inl e, r1) \<Rightarrow> (Inl e, r1)
      | (Inr _, r1) \<Rightarrow> check_nip98_replay (au_nostr (xe_lib env)) (bc_replay c) com eid r1)"

text \<open>The gates before the filters of \<open>/query\<close> and \<open>/count\<close> are looked at.\<close>

definition read_gate ::
    "auth_env \<Rightarrow> rate_limit_config \<Rightarrow> bridge_call \<Rightarrow> string \<Rightarrow> http_request \<Rightarrow> redis \<Rightarrow>
     (http_error, tenant_context \<times> pubkey) result \<times> redis" where
  "read_gate env limits c path q r = (case bridge_bind_and_verify env c path q of
     Inl e \<Rightarrow> (Inl e, r)
   | Inr (tenant, pk, eid) \<Rightarrow>
       (case admit_and_mark env limits c (tc_community tenant) pk eid r of
          (Inl e, r1) \<Rightarrow> (Inl e, r1)
        | (Inr _, r1) \<Rightarrow>
            (and_then (enforce_relay_membership env (tc_community tenant) pk (hq_x_auth_tag q))
               (\<lambda>_. Inr (tenant, pk)), r1)))"

text \<open>The gates of \<open>/events\<close>, up to the call of the ingest pipeline with full scopes.\<close>

definition submit_gate ::
    "auth_env \<Rightarrow> rate_limit_config \<Rightarrow> bridge_call \<Rightarrow> (nat \<Rightarrow> db_fault) \<Rightarrow> http_request \<Rightarrow> redis \<times> principals \<Rightarrow>
     (http_error, tenant_context \<times> signed_event \<times> auth_context) result \<times> redis \<times> principals" where
  "submit_gate env limits c faults q s = (case s of (r, p) \<Rightarrow>
     (case bridge_bind_and_verify env c ''/events'' q of
        Inl e \<Rightarrow> (Inl e, r, p)
      | Inr (tenant, pk, eid) \<Rightarrow>
          (let com = tc_community tenant in
           case admit_and_mark env limits c com pk eid r of
             (Inl e, r1) \<Rightarrow> (Inl e, r1, p)
           | (Inr _, r1) \<Rightarrow>
               (case au_event_from_slice (xe_lib env) (hq_body q) of
                  Inl e \<Rightarrow> (Inl (ApiError 400 (''invalid event JSON: '' @ e)), r1, p)
                | Inr se \<Rightarrow>
                    (case enforce_relay_membership env com pk (hq_x_auth_tag q) of
                       Inl e \<Rightarrow> (Inl e, r1, p)
                     | Inr via \<Rightarrow>
                         (let owner = (case via of
                              Some o' \<Rightarrow> Some o'
                            | None \<Rightarrow> if \<not> xe_require_relay_membership env
                                       then extract_nip_oa_owner (xe_lib env) pk (hq_x_auth_tag q) else None);
                              p1 = (case owner of Some o' \<Rightarrow> snd (materialize_nip_oa_owner faults com pk o' p) | None \<Rightarrow> p)
                          in (Inr (tenant, se, \<lparr>ac_pubkey = pk, ac_scopes = all_known, ac_channel_ids = None,
                                ac_auth_method = Nip98, ac_agent_owner_pubkey = None\<rparr>), r1, p1)))))))"

end
