(* ===== verification/Auth_Safety.thy ===== *)
theory Auth_Safety
  imports Admission Request_Safety
begin

text \<open>
  What authentication promises: an exact account of when a connection becomes authenticated, first
  write wins for the owner of an agent, and two places where the gates are weaker than documented
  (the time limits of an attestation, bans over HTTP).
\<close>

section \<open>Owners of agents\<close>

lemma ensure_user_keeps_owner:
  "map_of (pr_users p) k = Some (Some x) \<Longrightarrow> map_of (pr_users (snd (ensure_user f com pk p))) k = Some (Some x)"
  by (auto simp: ensure_user_def Let_def split: option.splits)

lemma set_agent_owner_keeps_owner:
  "map_of (pr_users p) k = Some (Some x) \<Longrightarrow> map_of (pr_users (snd (set_agent_owner f com a b p))) k = Some (Some x)"
  by (auto simp: set_agent_owner_def Let_def split: option.splits)

lemma remember_owner_users [simp]: "pr_users (remember_owner com a b p) = pr_users p"
  by (simp add: remember_owner_def)

lemma materialize_keeps_owner:
  assumes "map_of (pr_users p) k = Some (Some x)"
  shows "map_of (pr_users (snd (materialize_nip_oa_owner f com a b p))) k = Some (Some x)"
proof -
  obtain res1 p1 where 1: "ensure_user (f 0) com a p = (res1, p1)" by fastforce
  obtain res2 p2 where 2: "ensure_user (f 1) com b p1 = (res2, p2)" by fastforce
  obtain res3 p3 where 3: "set_agent_owner (f 2) com a b p2 = (res3, p3)" by fastforce
  have "map_of (pr_users p1) k = Some (Some x)" using ensure_user_keeps_owner [OF assms, of "f 0" com a] 1 by simp
  moreover from this have "map_of (pr_users p2) k = Some (Some x)" using ensure_user_keeps_owner [of p1 k x "f 1" com b] 2 by simp
  moreover from this have "map_of (pr_users p3) k = Some (Some x)" using set_agent_owner_keeps_owner [of p2 k x "f 2" com a b] 3 by simp
  ultimately show ?thesis using 1 2 3 by (auto simp: materialize_nip_oa_owner_def Let_def split: sum.splits)
qed

lemma materialize_sets_owner:
  assumes "materialize_nip_oa_owner f com a b p = (True, p')"
  shows "map_of (pr_users p') (com, a) = Some (Some b)"
proof -
  obtain res1 p1 where 1: "ensure_user (f 0) com a p = (Inr res1, p1)"
    using assms by (auto simp: materialize_nip_oa_owner_def split: prod.splits sum.splits)
  obtain res2 p2 where 2: "ensure_user (f 1) com b p1 = (Inr res2, p2)"
    using assms 1 by (auto simp: materialize_nip_oa_owner_def split: prod.splits sum.splits)
  obtain res3 p3 where 3: "set_agent_owner (f 2) com a b p2 = (res3, p3)" by fastforce
  have p': "pr_users p' = pr_users p3"
    and "res3 = Inr True \<or> res3 = Inr False \<and> is_agent_owner (f 3) com a b p3 = Inr True"
    using assms 1 2 3 by (auto simp: materialize_nip_oa_owner_def Let_def split: sum.splits bool.splits if_splits)
  then show ?thesis
  proof (elim disjE conjE)
    assume "res3 = Inr True"
    then show ?thesis using 3 p' by (auto simp: set_agent_owner_def Let_def split: option.splits)
  next
    assume "is_agent_owner (f 3) com a b p3 = Inr True"
    then show ?thesis using p' by (auto simp: is_agent_owner_def split: option.splits)
  qed
qed

section \<open>The AUTH gate\<close>

definition principal_clear :: "auth_env \<Rightarrow> community_id \<Rightarrow> bytes \<Rightarrow> string option \<Rightarrow> bool" where
  "principal_clear env com pk auth_tag \<longleftrightarrow> xe_banned env com pk = Inr False \<and>
     (\<forall>owner. extract_nip_oa_owner (xe_lib env) pk auth_tag = Some owner \<longrightarrow> xe_banned env com owner = Inr False)"

definition attested_member :: "auth_env \<Rightarrow> community_id \<Rightarrow> bytes \<Rightarrow> string option \<Rightarrow> bool" where
  "attested_member env com pk auth_tag \<longleftrightarrow> xe_allow_nip_oa_auth env \<and>
     (\<exists>owner. extract_nip_oa_owner (xe_lib env) pk auth_tag = Some owner \<and>
        xe_is_relay_member env com (pubkey_to_hex (au_nostr (xe_lib env)) owner) = Inr True)"

definition relay_admits :: "auth_env \<Rightarrow> community_id \<Rightarrow> bytes \<Rightarrow> string option \<Rightarrow> bool" where
  "relay_admits env com pk auth_tag \<longleftrightarrow> \<not> xe_require_relay_membership env \<or>
     xe_is_relay_member env com (hex_encode (au_nostr (xe_lib env)) pk) = Inr True \<or>
     xe_is_relay_member env com (hex_encode (au_nostr (xe_lib env)) pk) = Inr False \<and> attested_member env com pk auth_tag"

definition answers_challenge :: "auth_lib \<Rightarrow> timestamp \<Rightarrow> signed_event \<Rightarrow> string \<Rightarrow> string \<Rightarrow> bool" where
  "answers_challenge lib now se challenge relay_url \<longleftrightarrow>
     (let e = sg_event se in
      ev_kind e = 22242 \<and>
      ev_id e = au_event_id lib (ev_pubkey e) (ev_created_at e) (ev_kind e) (ev_tags e) (ev_content e) \<and>
      au_verify_schnorr lib (sg_sig se) (ev_id e) (ev_pubkey e) \<and>
      tag_value e ''challenge'' = Some challenge \<and>
      (\<exists>relay. tag_value e ''relay'' = Some relay \<and> normalize_relay_url lib relay = normalize_relay_url lib relay_url) \<and>
      now \<le> ev_created_at e + 60 \<and> ev_created_at e \<le> now + 60)"

definition auth_accepted :: "auth_env \<Rightarrow> auth_call \<Rightarrow> signed_event \<Rightarrow> string \<Rightarrow> auth_node \<Rightarrow> bool" where
  "auth_accepted env c se challenge n \<longleftrightarrow>
     (let pk = ev_pubkey (sg_event se); com = cn_community (an_conn n);
          auth_tag = extract_auth_tag_json (au_oa (xe_lib env)) (sg_event se)
      in answers_challenge (xe_lib env) (ah_now c) se challenge (nip42_expected_relay_url (xe_relay_url env) (an_host n)) \<and>
         principal_clear env com pk auth_tag \<and>
         (xe_pubkey_allowlist_enabled env \<longrightarrow> xe_is_pubkey_allowed env com pk = Inr True) \<and>
         relay_admits env com pk auth_tag)"

lemma verify_event_ok:
  "is_ok (verify_event lib se) \<longleftrightarrow>
     ev_id (sg_event se) = au_event_id lib (ev_pubkey (sg_event se)) (ev_created_at (sg_event se)) (ev_kind (sg_event se))
       (ev_tags (sg_event se)) (ev_content (sg_event se)) \<and>
     au_verify_schnorr lib (sg_sig se) (ev_id (sg_event se)) (ev_pubkey (sg_event se))"
  by (auto simp: verify_event_def Let_def)

lemma abs_diff_le: "abs_diff a b \<le> d \<longleftrightarrow> a \<le> b + d \<and> b \<le> a + d"
  by (auto simp: abs_diff_def)

lemma verify_nip42_event_iff:
  "verify_nip42_event lib now se challenge url = Inr () \<longleftrightarrow> answers_challenge lib now se challenge url"
proof -
  let ?e = "sg_event se"
  have "verify_nip42_event lib now se challenge url = Inr () \<longleftrightarrow>
      ev_kind ?e = 22242 \<and> is_ok (verify_event lib se) \<and> tag_value ?e ''challenge'' = Some challenge \<and>
      (\<exists>relay. tag_value ?e ''relay'' = Some relay \<and> normalize_relay_url lib relay = normalize_relay_url lib url) \<and>
      abs_diff now (ev_created_at ?e) \<le> 60"
    by (simp add: verify_nip42_event_def Let_def KIND_AUTH_def TIMESTAMP_TOLERANCE_SECS_def not_less split: option.split)
  then show ?thesis unfolding verify_event_ok abs_diff_le answers_challenge_def Let_def by blast
qed

lemma check_ban_clear: "check_ban env com pk auth_tag = BanClear \<longleftrightarrow> principal_clear env com pk auth_tag"
  by (auto simp: check_ban_def ban_lookup_def principal_clear_def split: sum.splits bool.splits option.splits ban_outcome.splits)

lemma enforce_membership_ok:
  "is_ok (enforce_relay_membership env com pk auth_tag) \<longleftrightarrow> relay_admits env com pk auth_tag"
  by (auto simp: enforce_relay_membership_def check_relay_membership_def relay_admits_def attested_member_def extract_nip_oa_owner_def
      split: sum.splits bool.splits option.splits)

lemma enforce_membership_owner:
  "enforce_relay_membership env com pk auth_tag = Inr (Some owner) \<Longrightarrow> extract_nip_oa_owner (xe_lib env) pk auth_tag = Some owner"
  by (auto simp: enforce_relay_membership_def check_relay_membership_def extract_nip_oa_owner_def
      split: sum.splits bool.splits option.splits membership_decision.splits if_splits)

lemma pubkey_for_authenticated:
  "map_of (connections r) c \<noteq> None \<Longrightarrow> pubkey_for_conn (set_authenticated_pubkey c pk r) c = Some pk"
  by (auto simp: set_authenticated_pubkey_def pubkey_for_conn_def)

lemma auth_send_fields [simp]:
  "an_conn (auth_send c m n) = an_conn n" "an_relay (auth_send c m n) = an_relay n"
  "an_principals (auth_send c m n) = an_principals n" "an_cancelled (auth_send c m n) = an_cancelled n"
  by (simp_all add: auth_send_def)

lemma send_and_close_fields [simp]:
  "an_conn (send_and_close c m n) = an_conn n" "an_relay (send_and_close c m n) = an_relay n"
  "an_principals (send_and_close c m n) = an_principals n" "an_cancelled (send_and_close c m n)"
  by (simp_all add: send_and_close_def)

lemma set_auth_state_fields [simp]:
  "cn_auth_state (an_conn (set_auth_state a n)) = a" "an_relay (set_auth_state a n) = an_relay n"
  "an_principals (set_auth_state a n) = an_principals n" "an_cancelled (set_auth_state a n) = an_cancelled n"
  by (simp_all add: set_auth_state_def)

lemma handle_auth_settled:
  assumes "\<And>challenge. cn_auth_state (an_conn n) \<noteq> Pending challenge"
  shows "\<exists>reason. handle_auth env c se n = auth_send c (OkMsg (id_to_hex (au_nostr (xe_lib env)) (ev_id (sg_event se))) False reason) n"
  using assms by (cases "cn_auth_state (an_conn n)") (auto simp: handle_auth_def)

lemma handle_auth_refused:
  assumes "cn_auth_state (an_conn n) = Pending challenge" and "\<not> auth_accepted env c se challenge n"
  shows "cn_auth_state (an_conn (handle_auth env c se n)) = AuthFailed \<and> an_relay (handle_auth env c se n) = an_relay n \<and>
    an_principals (handle_auth env c se n) = an_principals n"
proof (cases "answers_challenge (xe_lib env) (ah_now c) se challenge (nip42_expected_relay_url (xe_relay_url env) (an_host n))")
  case False
  then have "verify_nip42_event (xe_lib env) (ah_now c) se challenge (nip42_expected_relay_url (xe_relay_url env) (an_host n)) \<noteq> Inr ()"
    by (simp add: verify_nip42_event_iff)
  then obtain e where "verify_nip42_event (xe_lib env) (ah_now c) se challenge (nip42_expected_relay_url (xe_relay_url env) (an_host n)) = Inl e"
    by (metis old.unit.exhaust sumE)
  then have "verify_auth_event (xe_lib env) (ah_now c) se challenge (nip42_expected_relay_url (xe_relay_url env) (an_host n)) = Inl e"
    by (simp add: verify_auth_event_def)
  with assms(1) show ?thesis by (simp add: handle_auth_def Let_def)
next
  case True
  let ?pk = "ev_pubkey (sg_event se)" and ?com = "cn_community (an_conn n)"
    and ?tag = "extract_auth_tag_json (au_oa (xe_lib env)) (sg_event se)"
  from True have v: "verify_auth_event (xe_lib env) (ah_now c) se challenge (nip42_expected_relay_url (xe_relay_url env) (an_host n)) =
      Inr \<lparr>ac_pubkey = ?pk, ac_scopes = all_known, ac_channel_ids = None, ac_auth_method = Nip42, ac_agent_owner_pubkey = None\<rparr>"
    by (simp add: verify_auth_event_def verify_nip42_event_iff [symmetric])
  from assms(2) True have "check_ban env ?com ?pk ?tag \<noteq> BanClear \<or>
      xe_pubkey_allowlist_enabled env \<and> xe_is_pubkey_allowed env ?com ?pk \<noteq> Inr True \<or>
      (\<exists>e. enforce_relay_membership env ?com ?pk ?tag = Inl e)"
    using enforce_membership_ok [of env ?com ?pk ?tag]
    by (auto simp: auth_accepted_def Let_def check_ban_clear is_ok_def split: sum.splits)
  then show ?thesis
    using assms(1) v by (cases "check_ban env ?com ?pk ?tag") (auto simp: handle_auth_def Let_def)
qed

lemma backfill_owner_cases:
  assumes "backfill_owner env c com ctx auth_tag via p = (ctx', p')"
    and "\<And>o'. via = Some o' \<Longrightarrow> extract_nip_oa_owner (xe_lib env) (ac_pubkey ctx) auth_tag = Some o'"
    and "ac_agent_owner_pubkey ctx = None"
  shows "ac_pubkey ctx' = ac_pubkey ctx \<and> ac_scopes ctx' = ac_scopes ctx \<and> ac_channel_ids ctx' = ac_channel_ids ctx \<and>
    (\<forall>owner. ac_agent_owner_pubkey ctx' = Some owner \<longrightarrow>
       extract_nip_oa_owner (xe_lib env) (ac_pubkey ctx) auth_tag = Some owner \<and>
       map_of (pr_users p') (com, ac_pubkey ctx) = Some (Some owner))"
  using assms
  by (auto simp: backfill_owner_def Let_def dest: materialize_sets_owner split: option.splits if_splits prod.splits)

lemma handle_auth_accepted:
  assumes "cn_auth_state (an_conn n) = Pending challenge" and "auth_accepted env c se challenge n"
    and "map_of (connections (an_relay n)) (cn_conn_id (an_conn n)) \<noteq> None"
  shows "\<exists>ctx. cn_auth_state (an_conn (handle_auth env c se n)) = Authenticated ctx \<and> ac_pubkey ctx = ev_pubkey (sg_event se) \<and>
    ac_scopes ctx = all_known \<and> ac_channel_ids ctx = None \<and>
    pubkey_for_conn (an_relay (handle_auth env c se n)) (cn_conn_id (an_conn n)) = Some (ev_pubkey (sg_event se)) \<and>
    (\<forall>owner. ac_agent_owner_pubkey ctx = Some owner \<longrightarrow>
       extract_nip_oa_owner (xe_lib env) (ac_pubkey ctx) (extract_auth_tag_json (au_oa (xe_lib env)) (sg_event se)) = Some owner \<and>
       map_of (pr_users (an_principals (handle_auth env c se n))) (cn_community (an_conn n), ac_pubkey ctx) = Some (Some owner))"
proof -
  let ?pk = "ev_pubkey (sg_event se)" and ?com = "cn_community (an_conn n)"
    and ?tag = "extract_auth_tag_json (au_oa (xe_lib env)) (sg_event se)"
  let ?ctx = "\<lparr>ac_pubkey = ?pk, ac_scopes = all_known, ac_channel_ids = None, ac_auth_method = Nip42, ac_agent_owner_pubkey = None\<rparr>"
  from assms(2) have v: "verify_auth_event (xe_lib env) (ah_now c) se challenge (nip42_expected_relay_url (xe_relay_url env) (an_host n)) = Inr ?ctx"
    by (simp add: auth_accepted_def Let_def verify_auth_event_def verify_nip42_event_iff [symmetric])
  from assms(2) have b: "check_ban env ?com ?pk ?tag = BanClear" and a: "\<not> (xe_pubkey_allowlist_enabled env \<and> xe_is_pubkey_allowed env ?com ?pk \<noteq> Inr True)"
    and "is_ok (enforce_relay_membership env ?com ?pk ?tag)"
    by (simp_all add: auth_accepted_def Let_def check_ban_clear enforce_membership_ok)
  then obtain via where m: "enforce_relay_membership env ?com ?pk ?tag = Inr via" by (auto simp: is_ok_iff)
  obtain ctx p where bf: "backfill_owner env c ?com ?ctx ?tag via (an_principals n) = (ctx, p)" by fastforce
  have ctx: "ac_pubkey ctx = ?pk \<and> ac_scopes ctx = all_known \<and> ac_channel_ids ctx = None \<and>
      (\<forall>owner. ac_agent_owner_pubkey ctx = Some owner \<longrightarrow>
         extract_nip_oa_owner (xe_lib env) ?pk ?tag = Some owner \<and> map_of (pr_users p) (?com, ?pk) = Some (Some owner))"
    using backfill_owner_cases [OF bf] m by (auto dest: enforce_membership_owner)
  define n' where "n' = (set_auth_state (Authenticated ctx) n)\<lparr>an_principals := p,
      an_relay := set_authenticated_pubkey (cn_conn_id (an_conn n)) ?pk (an_relay n)\<rparr>"
  have "handle_auth env c se n = auth_send c (OkMsg (id_to_hex (au_nostr (xe_lib env)) (ev_id (sg_event se))) True []) n'"
    using assms(1) v b a m bf by (cases "xe_pubkey_allowlist_enabled env") (simp_all add: handle_auth_def Let_def n'_def)
  moreover have "cn_auth_state (an_conn n') = Authenticated ctx" "an_principals n' = p"
      "an_relay n' = set_authenticated_pubkey (cn_conn_id (an_conn n)) ?pk (an_relay n)"
    by (simp_all add: n'_def set_auth_state_def)
  ultimately show ?thesis using ctx pubkey_for_authenticated [OF assms(3), of ?pk] by simp
qed

text \<open>C8.  The AUTH handler, exactly.  A pending connection becomes authenticated precisely when the event is
  genuine, answers this connection's challenge for this tenant's URL within a minute of its date, its
  key and the owner it proves are not banned, the key is on the allowlist when there is one, and the
  relay is open or the key, or a proven owner, is a member; it is then authenticated, and registered
  for delivery, as the signing key, with at most the proven owner, who is then the recorded owner.  In every
  other case the connection has failed and nothing else changes.  A connection that is authenticated
  or has failed stays as it is.  This is the gate of the code, which is wider than that of docs/nips/NIP-AA.md: a
  proven owner is one whose attestation has a valid form and signature; whether its clauses on created_at admit the
  event is not asked, although step 4.9 of that document demands a refusal when they do not.\<close>

theorem auth_gate_exact:
  assumes "map_of (connections (an_relay n)) (cn_conn_id (an_conn n)) \<noteq> None"
    and "n' = handle_auth env c se n"
  shows "case cn_auth_state (an_conn n) of
      Pending challenge \<Rightarrow>
        if auth_accepted env c se challenge n then
          \<exists>ctx. cn_auth_state (an_conn n') = Authenticated ctx \<and> ac_pubkey ctx = ev_pubkey (sg_event se) \<and>
            ac_scopes ctx = all_known \<and> ac_channel_ids ctx = None \<and>
            pubkey_for_conn (an_relay n') (cn_conn_id (an_conn n)) = Some (ev_pubkey (sg_event se)) \<and>
            (\<forall>owner. ac_agent_owner_pubkey ctx = Some owner \<longrightarrow>
               extract_nip_oa_owner (xe_lib env) (ac_pubkey ctx)
                 (extract_auth_tag_json (au_oa (xe_lib env)) (sg_event se)) = Some owner \<and>
               map_of (pr_users (an_principals n')) (cn_community (an_conn n), ac_pubkey ctx) = Some (Some owner))
        else cn_auth_state (an_conn n') = AuthFailed \<and> an_relay n' = an_relay n \<and> an_principals n' = an_principals n
    | settled \<Rightarrow> an_conn n' = an_conn n \<and> an_relay n' = an_relay n \<and> an_principals n' = an_principals n"
proof (cases "cn_auth_state (an_conn n)")
  case (Pending challenge)
  then show ?thesis
    unfolding assms(2) using handle_auth_accepted [OF Pending _ assms(1)] handle_auth_refused [OF Pending] by simp
qed (use handle_auth_settled [of n env c se] in \<open>auto simp: assms(2)\<close>)

section \<open>Time limits of an attestation\<close>

lemma time_limit_valid: "t < 2 ^ 32 \<Longrightarrow> validate_conditions (''created_at<'' @ decimal t) = Inr ()"
  by (rule conditions_language [THEN iffD2], intro disjI2 exI [of _ "[CreatedBefore t]"]) simp

text \<open>An attestation that its owner limited to events before a time admits its agent to a closed relay
  whenever it is presented, also at or after that time: the time limit is checked for its form and then
  ignored.\<close>

theorem attestation_time_limit_ignored:
  assumes "oa_lawful (au_oa (xe_lib env))" and "limit < 2 ^ 32"
    and "agent = ev_pubkey (sg_event se)" and "owner = oa_public_key (au_oa (xe_lib env)) sk" and "owner \<noteq> agent"
    and "compute_auth_tag (au_oa (xe_lib env)) sk agent (''created_at<'' @ decimal limit) = Inr t"
    and "extract_auth_tag_json (au_oa (xe_lib env)) (sg_event se) = Some t"
    and "limit \<le> ev_created_at (sg_event se)"
    and "cn_auth_state (an_conn n) = Pending challenge"
    and "answers_challenge (xe_lib env) (ah_now c) se challenge (nip42_expected_relay_url (xe_relay_url env) (an_host n))"
    and "xe_banned env (cn_community (an_conn n)) agent = Inr False" and "xe_banned env (cn_community (an_conn n)) owner = Inr False"
    and "\<not> xe_pubkey_allowlist_enabled env" and "xe_allow_nip_oa_auth env"
    and "au_pubkey_from_slice (xe_lib env) agent = Inr agent"
    and "xe_is_relay_member env (cn_community (an_conn n)) (hex_encode (au_nostr (xe_lib env)) agent) = Inr False"
    and "xe_is_relay_member env (cn_community (an_conn n)) (pubkey_to_hex (au_nostr (xe_lib env)) owner) = Inr True"
    and "map_of (connections (an_relay n)) (cn_conn_id (an_conn n)) \<noteq> None"
  shows "\<exists>ctx. cn_auth_state (an_conn (handle_auth env c se n)) = Authenticated ctx \<and> ac_pubkey ctx = agent"
proof -
  from computed_tag_verifies [OF assms(1) time_limit_valid [OF assms(2)], of sk agent] assms(4-6)
  have "verify_auth_tag (au_oa (xe_lib env)) t agent = Inr owner" by auto
  then have own: "extract_nip_oa_owner (xe_lib env) agent (Some t) = Some owner"
    using assms(15) by (simp add: extract_nip_oa_owner_def)
  have "auth_accepted env c se challenge n"
    unfolding auth_accepted_def Let_def assms(3) [symmetric] assms(7) principal_clear_def relay_admits_def attested_member_def
    using assms(10-17) own by auto
  from handle_auth_accepted [OF assms(9) this assms(18)] assms(3) show ?thesis by blast
qed

section \<open>Bans over HTTP\<close>

text \<open>Bans reach the WebSocket interface only.  A connection whose key is banned, or proves a banned owner,
  fails to authenticate; the gates of the HTTP bridge, for reading and for writing, answer the same
  whatever the bans are.\<close>

theorem bans_do_not_reach_http:
  "(\<forall>challenge. cn_auth_state (an_conn n) = Pending challenge \<longrightarrow>
      \<not> principal_clear env (cn_community (an_conn n)) (ev_pubkey (sg_event se))
          (extract_auth_tag_json (au_oa (xe_lib env)) (sg_event se)) \<longrightarrow>
      cn_auth_state (an_conn (handle_auth env c se n)) = AuthFailed) \<and>
   read_gate (env\<lparr>xe_banned := bans\<rparr>) limits b path q r = read_gate env limits b path q r \<and>
   submit_gate (env\<lparr>xe_banned := bans\<rparr>) limits b faults q s = submit_gate env limits b faults q s"
proof (intro conjI allI impI)
  fix challenge
  assume "cn_auth_state (an_conn n) = Pending challenge"
    and "\<not> principal_clear env (cn_community (an_conn n)) (ev_pubkey (sg_event se)) (extract_auth_tag_json (au_oa (xe_lib env)) (sg_event se))"
  then show "cn_auth_state (an_conn (handle_auth env c se n)) = AuthFailed"
    using handle_auth_refused [of n challenge env c se] by (simp add: auth_accepted_def Let_def)
next
  have "bridge_bind_and_verify (env\<lparr>xe_banned := bans\<rparr>) b path q = bridge_bind_and_verify env b path q" for path
    by (simp add: bridge_bind_and_verify_def cong: sum.case_cong)
  moreover have "check_relay_membership (env\<lparr>xe_banned := bans\<rparr>) com pk t = check_relay_membership env com pk t" for com pk t
    by (simp add: check_relay_membership_def split: sum.split bool.split option.split)
  then have "enforce_relay_membership (env\<lparr>xe_banned := bans\<rparr>) com pk t = enforce_relay_membership env com pk t" for com pk t
    by (simp add: enforce_relay_membership_def)
  moreover have "admit_and_mark (env\<lparr>xe_banned := bans\<rparr>) limits b com pk eid r = admit_and_mark env limits b com pk eid r" for com pk eid r
    by (simp add: admit_and_mark_def cong: sum.case_cong prod.case_cong)
  ultimately show "read_gate (env\<lparr>xe_banned := bans\<rparr>) limits b path q r = read_gate env limits b path q r"
    "submit_gate (env\<lparr>xe_banned := bans\<rparr>) limits b faults q s = submit_gate env limits b faults q s"
    by (simp_all add: read_gate_def submit_gate_def Let_def cong: sum.case_cong prod.case_cong option.case_cong if_cong)
qed

section \<open>Hosts\<close>

lemma strip_suffix_Some: "strip_suffix p s = Some x \<longleftrightarrow> s = x @ p"
proof
  assume "strip_suffix p s = Some x"
  then have "x = take (length s - length p) s" and "\<exists>y. rev s = rev p @ y"
    by (auto simp: strip_suffix_def starts_with_iff split: if_splits)
  then show "s = x @ p" by (metis append_eq_conv_conj diff_add_inverse2 length_append rev_append rev_rev_ident)
qed (auto simp: strip_suffix_def starts_with_iff)

lemma strip_suffix_None: "strip_suffix p s = None \<longleftrightarrow> (\<forall>x. s \<noteq> x @ p)"
  by (metis not_None_eq strip_suffix_Some)

lemma strip_suffix_append [simp]: "strip_suffix p (x @ p) = Some x"
  by (simp add: strip_suffix_Some)

lemma trim_pad:
  assumes "list_all is_whitespace a" and "list_all is_whitespace b" and "x \<noteq> []"
    and "\<not> is_whitespace (hd x)" and "\<not> is_whitespace (last x)"
  shows "trim (a @ x @ b) = x"
proof -
  have "dropWhile is_whitespace (a @ x @ b) = x @ b" using assms by (cases x) (simp_all add: dropWhile_append2 list_all_iff)
  moreover have "dropWhile is_whitespace (rev b @ rev x) = dropWhile is_whitespace (rev x)"
    using assms(2) by (intro dropWhile_append2) (simp add: list_all_iff)
  moreover have "dropWhile is_whitespace (rev x) = rev x" using assms(3,5) by (cases x rule: rev_cases) simp_all
  ultimately show ?thesis by (simp add: trim_def)
qed

definition canonical_host :: "string \<Rightarrow> bool" where
  "canonical_host h \<longleftrightarrow> h \<noteq> [] \<and> map to_ascii_lower h = h \<and> \<not> is_whitespace (hd h) \<and> \<not> is_whitespace (last h) \<and>
     last h \<noteq> CHR ''.'' \<and> (\<forall>x. h \<noteq> x @ '':443'') \<and> (\<forall>x. h \<noteq> x @ '':80'')"

lemma to_ascii_lower_whitespace: "is_whitespace (to_ascii_lower c) = is_whitespace c"
  by (auto simp: to_ascii_lower_def is_whitespace_def)

lemma normalize_host_variant:
  assumes h: "canonical_host h" and "map to_ascii_lower cased = h" and "list_all is_whitespace a" and "list_all is_whitespace b"
    and dot: "dot = [] \<or> dot = ''.''" and port: "port = [] \<or> port = '':443'' \<or> port = '':80''"
  shows "normalize_host (a @ (cased @ dot @ port) @ b) = h"
proof -
  have ne: "cased \<noteq> []" "h \<noteq> []" using h assms(2) by (auto simp: canonical_host_def)
  have ends: "\<not> is_whitespace (hd cased)" "\<not> is_whitespace (last cased)"
    using h ne to_ascii_lower_whitespace by (simp_all add: canonical_host_def assms(2) [symmetric] hd_map last_map)
  then have "\<not> is_whitespace (hd (cased @ dot @ port)) \<and> \<not> is_whitespace (last (cased @ dot @ port))"
    using ne dot port by (elim disjE) (simp_all add: is_whitespace_def)
  then have t: "trim (a @ (cased @ dot @ port) @ b) = cased @ dot @ port" using assms(3,4) ne by (intro trim_pad) auto
  have low: "map to_ascii_lower (cased @ dot @ port) = h @ dot @ port"
    using assms(2) dot port by (elim disjE) (simp_all add: to_ascii_lower_def)
  have no_port: "strip_suffix '':443'' (h @ dot) = None" "strip_suffix '':80'' (h @ dot) = None"
    using h dot strip_suffix_None [of "'':443''" h] strip_suffix_None [of "'':80''" h]
    by (auto simp: canonical_host_def) (simp_all add: strip_suffix_def starts_with_def)
  have "strip_suffix '':443'' (h @ dot @ '':80'') = None" by (simp add: strip_suffix_def starts_with_def)
  then have host1: "(case strip_suffix '':443'' (h @ dot @ port) of Some stripped \<Rightarrow> stripped
      | None \<Rightarrow> (case strip_suffix '':80'' (h @ dot @ port) of Some stripped \<Rightarrow> stripped | None \<Rightarrow> h @ dot @ port)) = h @ dot"
    using port no_port strip_suffix_append [of "'':443''" "h @ dot"] strip_suffix_append [of "'':80''" "h @ dot"] by (elim disjE) simp_all
  have "strip_suffix ''.'' h = None"
    unfolding strip_suffix_None using h by (auto simp: canonical_host_def)
  then have "(case strip_suffix ''.'' (h @ dot) of Some stripped \<Rightarrow> stripped | None \<Rightarrow> h @ dot) = h"
    using dot strip_suffix_append [of "''.''" h] by auto
  then show ?thesis unfolding normalize_host_def Let_def t low host1 .
qed

text \<open>The spellings of a host name one tenant: upper or lower case, with or without the root dot, with or
  without a default port, surrounded by white space, a host is bound to the community of its canonical
  form; an empty host is bound to none, whatever the table holds.\<close>

theorem host_spellings_one_tenant:
  assumes "canonical_host h" and "map to_ascii_lower cased = h" and "list_all is_whitespace a" and "list_all is_whitespace b"
    and "dot \<in> {[], ''.''}" and "port \<in> {[], '':443'', '':80''}"
  shows "bind_community resolver (a @ (cased @ dot @ port) @ b) = (case resolver h of
      Inr (Some com) \<Rightarrow> Inr \<lparr>tc_community = com, tc_host = h\<rparr>
    | Inr None \<Rightarrow> Inl UnmappedHost
    | Inl e \<Rightarrow> Inl (Lookup e)) \<and>
    bind_community resolver (a @ b) = Inl UnmappedHost"
proof
  have "normalize_host (a @ (cased @ dot @ port) @ b) = h" using assms by (intro normalize_host_variant) auto
  then show "bind_community resolver (a @ (cased @ dot @ port) @ b) = (case resolver h of
      Inr (Some com) \<Rightarrow> Inr \<lparr>tc_community = com, tc_host = h\<rparr> | Inr None \<Rightarrow> Inl UnmappedHost | Inl e \<Rightarrow> Inl (Lookup e))"
    using assms(1) by (simp add: bind_community_def canonical_host_def Let_def)
  have "dropWhile is_whitespace (a @ b) = []" using assms(3,4) by (auto simp: list_all_iff dropWhile_eq_Nil_conv)
  then have "trim (a @ b) = []" unfolding trim_def by (simp only: rev.simps dropWhile.simps)
  then have "normalize_host (a @ b) = []" by (simp add: normalize_host_def strip_suffix_def starts_with_def)
  then show "bind_community resolver (a @ b) = Inl UnmappedHost" by (simp add: bind_community_def)
qed

theorem host_spellings_one_tenant_witness:
  "bind_community (\<lambda>h. Inr (if h = ''r'' then Some 2 else None)) '' R.:443'' = Inr \<lparr>tc_community = 2, tc_host = ''r''\<rparr>"
proof -
  have "canonical_host ''r''" by (auto simp: canonical_host_def is_whitespace_def to_ascii_lower_def Cons_eq_append_conv)
  from host_spellings_one_tenant [OF this, of "''R''" "'' ''" "[]" "''.''" "'':443''" "\<lambda>h. Inr (if h = ''r'' then Some 2 else None)"]
  show ?thesis by (simp add: to_ascii_lower_def is_whitespace_def char_of_def bit_0)
qed

section \<open>A concrete connection\<close>

definition ex_limit :: string where
  "ex_limit = ''created_at<'' @ decimal 5"

definition ex_oa_tag :: tag where
  "ex_oa_tag = [''auth'', oa_pubkey_to_hex ex_oa_lib [7], ex_limit,
     oa_sig_to_string ex_oa_lib (oa_sign_schnorr ex_oa_lib [7] (hash_preimage ex_oa_lib (build_preimage ex_oa_lib [9] ex_limit)))]"

definition ex_auth_event :: signed_event where
  "ex_auth_event = \<lparr>sg_event = \<lparr>ev_id = [1], ev_pubkey = [9], ev_created_at = 100, ev_kind = 22242,
     ev_tags = [[''challenge'', ''c''], [''relay'', ''ws://r''], ex_oa_tag], ev_content = []\<rparr>, sg_sig = [9]\<rparr>"

text \<open>A NIP-98 event dated sixty seconds after the second 40.\<close>

definition ex_http_event :: signed_event where
  "ex_http_event = \<lparr>sg_event = \<lparr>ev_id = [1], ev_pubkey = [7], ev_created_at = 100, ev_kind = 27235,
     ev_tags = [[''u'', ''http://r/query''], [''method'', ''POST'']], ev_content = []\<rparr>, sg_sig = [7]\<rparr>"

definition ex_auth_lib :: auth_lib where
  "ex_auth_lib = \<lparr>au_nostr = ex_hex_lib, au_oa = ex_oa_lib, au_event_id = (\<lambda>_ _ _ _ _. [1]), au_verify_schnorr = (\<lambda>sig _ pk. sig = pk),
     au_pubkey_from_slice = Inr, au_pubkey_from_hex = (\<lambda>s. Inr (ex_untext s)), au_event_from_json = (\<lambda>_. Inr ex_http_event),
     au_event_from_slice = (\<lambda>_. Inr ex_http_event), au_base64_decode = (\<lambda>s. Inr (ex_untext s)), au_from_utf8 = (\<lambda>b. Inr (ex_text b)),
     au_sha256 = id, au_to_lowercase = id, au_url_parse = (\<lambda>_. None), au_url_host_str = (\<lambda>_. None),
     au_url_set_host = (\<lambda>u _. u), au_url_path = id, au_url_set_path = (\<lambda>u _. u)\<rparr>"

definition ex_auth_env :: auth_env where
  "ex_auth_env = \<lparr>xe_lib = ex_auth_lib, xe_relay_url = ''ws://r'', xe_require_relay_membership = True, xe_allow_nip_oa_auth = True,
     xe_pubkey_allowlist_enabled = False, xe_require_auth_token = True, xe_resolve_host = (\<lambda>_. Inr (Some 2)),
     xe_is_relay_member = (\<lambda>_ h. Inr (h = ex_hex [7])), xe_banned = (\<lambda>_ _. Inr False), xe_is_pubkey_allowed = (\<lambda>_ _. Inr False)\<rparr>"

definition ex_auth_node :: auth_node where
  "ex_auth_node = \<lparr>an_conn = \<lparr>cn_conn_id = 11, cn_community = 2, cn_auth_state = Pending ''c''\<rparr>, an_host = ''r'',
     an_relay = leak_relay\<lparr>connections := [(11, \<lparr>ce_community_id = 2, ce_authenticated_pubkey = None\<rparr>)]\<rparr>,
     an_principals = \<lparr>pr_users = [], pr_author_type_cache = [], pr_observer_owner_cache = []\<rparr>,
     an_sent = [], an_ctrl = [], an_cancelled = False\<rparr>"

definition ex_auth_call :: auth_call where
  "ex_auth_call = \<lparr>ah_now = 100, ah_faults = (\<lambda>_. None), ah_accepts = True\<rparr>"

lemma ex_limit_valid: "validate_conditions ex_limit = Inr ()"
  unfolding ex_limit_def by (rule time_limit_valid) simp

lemma ex_oa_tag_computed:
  "compute_auth_tag ex_oa_lib [7] [9] ex_limit = Inr (oa_to_string ex_oa_lib (JArray (map JString ex_oa_tag)))"
  using ex_limit_valid by (simp add: compute_auth_tag_def ex_oa_tag_def Let_def) (simp add: ex_oa_lib_def)

lemma ex_auth_tag_json: "extract_auth_tag_json ex_oa_lib (sg_event ex_auth_event) = Some (oa_to_string ex_oa_lib (JArray (map JString ex_oa_tag)))"
  by (simp add: extract_auth_tag_json_def ex_auth_event_def ex_oa_tag_def)

lemma ex_answers: "answers_challenge ex_auth_lib 100 ex_auth_event ''c'' (nip42_expected_relay_url ''ws://r'' ''r'')"
  by (simp add: answers_challenge_def ex_auth_event_def ex_auth_lib_def tag_value_def nip42_expected_relay_url_def starts_with_def
      is_whitespace_def normalize_relay_url_def ex_oa_tag_def)

theorem attestation_time_limit_ignored_witness:
  "\<exists>ctx. cn_auth_state (an_conn (handle_auth ex_auth_env ex_auth_call ex_auth_event ex_auth_node)) = Authenticated ctx \<and> ac_pubkey ctx = [9]"
proof (rule attestation_time_limit_ignored [where sk = "[7]" and limit = 5 and challenge = "''c''" and owner = "[7]"])
  show "compute_auth_tag (au_oa (xe_lib ex_auth_env)) [7] [9] (''created_at<'' @ decimal 5) =
      Inr (oa_to_string ex_oa_lib (JArray (map JString ex_oa_tag)))"
    using ex_oa_tag_computed by (simp add: ex_auth_env_def ex_auth_lib_def ex_limit_def)
  show "extract_auth_tag_json (au_oa (xe_lib ex_auth_env)) (sg_event ex_auth_event) = Some (oa_to_string ex_oa_lib (JArray (map JString ex_oa_tag)))"
    using ex_auth_tag_json by (simp add: ex_auth_env_def ex_auth_lib_def)
  show "answers_challenge (xe_lib ex_auth_env) (ah_now ex_auth_call) ex_auth_event ''c''
      (nip42_expected_relay_url (xe_relay_url ex_auth_env) (an_host ex_auth_node))"
    using ex_answers by (simp add: ex_auth_env_def ex_auth_call_def ex_auth_node_def)
qed (use ex_oa_lib_lawful in \<open>simp_all add: ex_auth_env_def ex_auth_lib_def ex_auth_event_def ex_auth_node_def ex_oa_lib_def
      ex_hex_lib_def ex_nibble_def char_of_def bit_0\<close>)

lemma ex_auth_accepted: "auth_accepted (ex_auth_env\<lparr>xe_require_relay_membership := False\<rparr>) ex_auth_call ex_auth_event ''c'' ex_auth_node"
  using ex_answers by (simp add: auth_accepted_def Let_def ex_auth_env_def ex_auth_call_def ex_auth_node_def principal_clear_def relay_admits_def)

theorem auth_gate_exact_witness:
  "\<exists>ctx. cn_auth_state (an_conn (handle_auth (ex_auth_env\<lparr>xe_require_relay_membership := False\<rparr>) ex_auth_call ex_auth_event ex_auth_node)) =
     Authenticated ctx \<and> ac_pubkey ctx = [9]"
proof -
  have "map_of (connections (an_relay ex_auth_node)) (cn_conn_id (an_conn ex_auth_node)) \<noteq> None" by (simp add: ex_auth_node_def)
  from auth_gate_exact [OF this refl, of "ex_auth_env\<lparr>xe_require_relay_membership := False\<rparr>" ex_auth_call ex_auth_event] ex_auth_accepted
  show ?thesis by (auto simp: ex_auth_node_def ex_auth_event_def)
qed

definition ex_http_request :: http_request where
  "ex_http_request = \<lparr>hq_host = Some ''r'', hq_authorization = Some ''Nostr x'', hq_x_pubkey = None, hq_x_auth_tag = None, hq_body = []\<rparr>"

theorem bans_do_not_reach_http_witness:
  "cn_auth_state (an_conn (handle_auth (ex_auth_env\<lparr>xe_banned := \<lambda>_ _. Inr True\<rparr>) ex_auth_call ex_auth_event ex_auth_node)) = AuthFailed \<and>
   read_gate (ex_auth_env\<lparr>xe_banned := \<lambda>_ _. Inr True\<rparr>) default_rate_limits
      \<lparr>bc_now = 100, bc_admission = \<lparr>rc_now = 100000, rc_pool_error = None, rc_query_error = None, rc_repair_error = None\<rparr>,
       bc_replay = \<lparr>rc_now = 100000, rc_pool_error = None, rc_query_error = None, rc_repair_error = None\<rparr>\<rparr> ''/query'' ex_http_request [] =
   read_gate ex_auth_env default_rate_limits
      \<lparr>bc_now = 100, bc_admission = \<lparr>rc_now = 100000, rc_pool_error = None, rc_query_error = None, rc_repair_error = None\<rparr>,
       bc_replay = \<lparr>rc_now = 100000, rc_pool_error = None, rc_query_error = None, rc_repair_error = None\<rparr>\<rparr> ''/query'' ex_http_request []"
proof -
  have "\<not> principal_clear (ex_auth_env\<lparr>xe_banned := \<lambda>_ _. Inr True\<rparr>) com pk t" for com pk t by (simp add: principal_clear_def)
  moreover have "cn_auth_state (an_conn ex_auth_node) = Pending ''c''" by (simp add: ex_auth_node_def)
  ultimately have "cn_auth_state (an_conn (handle_auth (ex_auth_env\<lparr>xe_banned := \<lambda>_ _. Inr True\<rparr>) ex_auth_call ex_auth_event ex_auth_node)) = AuthFailed"
    using bans_do_not_reach_http [where n = ex_auth_node and env = "ex_auth_env\<lparr>xe_banned := \<lambda>_ _. Inr True\<rparr>" and c = ex_auth_call
        and se = ex_auth_event] by blast
  then show ?thesis using bans_do_not_reach_http by blast
qed

end
