(* ===== verification/Admission_Safety.thy ===== *)
theory Admission_Safety
  imports Auth_Safety
begin

text \<open>
  What admission promises: a NIP-98 event is honoured at most twice, and only at the two ends of its
  validity, and the fixed-window limiter admits at most twice its limit in any interval of one window.

  The locale \<open>window_counter\<close> states what a counter in windows has to do and holds the bound; it is
  interpreted on the limiter's requests for one principal.
\<close>

section \<open>Keys\<close>

definition key_lawful :: "nostr_lib \<Rightarrow> bool" where
  "key_lawful lib \<longleftrightarrow> uuid_codec lib \<and> inj (pubkey_to_hex lib) \<and> (\<forall>pk. CHR '':'' \<notin> set (pubkey_to_hex lib pk))"

lemma sep_unique: "a @ CHR '':'' # x = b @ CHR '':'' # y \<Longrightarrow> CHR '':'' \<notin> set a \<Longrightarrow> CHR '':'' \<notin> set b \<Longrightarrow> a = b \<and> x = y"
  by (induction a arbitrary: b) (case_tac b; auto)+

lemma uuid_text_inj: "uuid_codec lib \<Longrightarrow> uuid_to_string lib u = uuid_to_string lib v \<longleftrightarrow> u = v"
  by (metis option.inject uuid_codec_def)

lemma key_suffix_inj: "key_suffix a = key_suffix b \<longleftrightarrow> a = b"
  by (cases a; cases b) simp_all

lemma rate_limit_key_inj:
  assumes "key_lawful lib" and "rate_limit_key lib com pk lt = rate_limit_key lib com' pk' lt'"
  shows "com = com' \<and> pk = pk' \<and> lt = lt'"
proof -
  have u: "CHR '':'' \<notin> set (uuid_to_string lib c)" for c using assms(1) by (simp add: key_lawful_def uuid_codec_def)
  have "uuid_to_string lib com @ CHR '':'' # ''ratelimit:'' @ pubkey_to_hex lib pk @ CHR '':'' # key_suffix lt =
      uuid_to_string lib com' @ CHR '':'' # ''ratelimit:'' @ pubkey_to_hex lib pk' @ CHR '':'' # key_suffix lt'"
    using assms(2) by (simp add: rate_limit_key_def)
  from sep_unique [OF this u u] have com: "uuid_to_string lib com = uuid_to_string lib com'"
    and "pubkey_to_hex lib pk @ CHR '':'' # key_suffix lt = pubkey_to_hex lib pk' @ CHR '':'' # key_suffix lt'" by simp_all
  from sep_unique [OF this(2)] assms(1) have "pubkey_to_hex lib pk = pubkey_to_hex lib pk'" "key_suffix lt = key_suffix lt'"
    by (simp_all add: key_lawful_def)
  with com assms(1) show ?thesis by (auto simp: key_lawful_def uuid_text_inj key_suffix_inj inj_eq)
qed

lemma replay_key_not_rate_key:
  assumes "uuid_codec lib"
  shows "nip98_replay_key lib com eid \<noteq> rate_limit_key lib com' pk lt"
proof
  have u: "CHR '':'' \<notin> set (uuid_to_string lib c)" for c using assms by (simp add: uuid_codec_def)
  assume "nip98_replay_key lib com eid = rate_limit_key lib com' pk lt"
  then have "uuid_to_string lib com @ CHR '':'' # ''nip98:'' @ id_to_hex lib eid =
      uuid_to_string lib com' @ CHR '':'' # ''ratelimit:'' @ pubkey_to_hex lib pk @ CHR '':'' # key_suffix lt"
    by (simp add: nip98_replay_key_def nip98_replay_key_for_scope_def rate_limit_key_def)
  from sep_unique [OF this u u] show False by simp
qed

section \<open>One key at a time\<close>

lemma redis_expire_other: "k' \<noteq> k \<Longrightarrow> map_of (snd (redis_expire now k secs r)) k' = map_of r k'"
  by (auto simp: redis_expire_def redis_del_def redis_pexpire_def split: option.splits)

lemma redis_incr_other: "redis_incr now k r = Inr (n, r1) \<Longrightarrow> k' \<noteq> k \<Longrightarrow> map_of r1 k' = map_of r k'"
  by (auto simp: redis_incr_def split: option.splits if_splits)

lemma rate_limit_script_other: "k' \<noteq> k \<Longrightarrow> map_of (snd (rate_limit_script now k w r)) k' = map_of r k'"
  using redis_expire_other [of k' k now w]
  by (auto simp: rate_limit_script_def split: sum.splits prod.splits dest: redis_incr_other) (metis redis_incr_other snd_conv)+

lemma run_rate_limit_other:
  assumes "k' \<noteq> k"
  shows "map_of (snd (run_rate_limit c k w limit r)) k' = map_of r k'"
proof -
  obtain reply r1 where s: "rate_limit_script (rc_now c) k (as_i64 w) r = (reply, r1)" by fastforce
  obtain rep r2 where e: "redis_expire (rc_now c) k (as_i64 w) r1 = (rep, r2)" by fastforce
  have "map_of r1 k' = map_of r k'" "map_of r2 k' = map_of r1 k'"
    using rate_limit_script_other [OF assms, of "rc_now c" "as_i64 w" r] redis_expire_other [OF assms, of "rc_now c" "as_i64 w" r1] s e by simp_all
  then show ?thesis using s e by (auto simp: run_rate_limit_def split: option.splits sum.splits bool.splits prod.splits)
qed

lemma check_principal_other:
  "k' \<noteq> rate_limit_key lib com pk lt \<Longrightarrow> map_of (snd (check_principal lib c com pk lt w limit r)) k' = map_of r k'"
  using run_rate_limit_other [of k' "rate_limit_key lib com pk lt" c w limit r]
  by (auto simp: check_principal_def check_and_increment_def split: prod.splits)

lemma enforce_http_admission_other:
  "k' \<noteq> rate_limit_key lib com pk ApiCalls \<Longrightarrow> map_of (snd (enforce_http_admission lib limits c com pk r)) k' = map_of r k'"
  using check_principal_other [of k' lib com pk ApiCalls c 60 "human_api_calls_per_min limits" r]
  by (auto simp: enforce_http_admission_def split: prod.splits)

section \<open>Counting in windows\<close>

text \<open>The abstract counter: the number of requests in the window and the instant it ends.\<close>

definition tick :: "nat \<Rightarrow> nat \<Rightarrow> (nat \<times> nat) option \<Rightarrow> nat \<times> nat" where
  "tick W t s = (case s of Some (c, e) \<Rightarrow> if t < e then (Suc c, e) else (1, t + W) | None \<Rightarrow> (1, t + W))"

text \<open>What can still be admitted between \<open>a\<close> and \<open>a + W\<close>.\<close>

definition allowance :: "nat \<Rightarrow> nat \<Rightarrow> nat \<Rightarrow> (nat \<times> nat) option \<Rightarrow> nat" where
  "allowance L W a s = (case s of
     None \<Rightarrow> 2 * L
   | Some (c, e) \<Rightarrow> if e \<le> a then 2 * L else (L - c) + (if a + W \<le> e then 0 else L))"

lemma allowance_le: "allowance L W a s \<le> 2 * L"
  by (auto simp: allowance_def split: option.splits)

lemma tick_allowance:
  assumes "0 < W" and "t < a + W"
  shows "(if a \<le> t \<and> fst (tick W t s) \<le> L then 1 else 0) + allowance L W a (Some (tick W t s)) \<le> allowance L W a s"
proof (cases s)
  case None
  with assms show ?thesis by (auto simp: tick_def allowance_def)
next
  case (Some w)
  obtain c e where "w = (c, e)" by fastforce
  with Some assms show ?thesis by (auto simp: tick_def allowance_def)
qed

fun served :: "('c \<Rightarrow> 's \<Rightarrow> bool \<times> 's) \<Rightarrow> 'c list \<Rightarrow> 's \<Rightarrow> ('c \<times> bool) list" where
  "served serve [] s = []"
| "served serve (c # cs) s = (c, fst (serve c s)) # served serve cs (snd (serve c s))"

lemma served_requests: "map fst (served serve cs s) = cs"
  by (induction cs arbitrary: s) simp_all

locale window_counter =
  fixes window :: "'s \<Rightarrow> (nat \<times> nat) option" and ok_state :: "'s \<Rightarrow> bool" and serve :: "'c \<Rightarrow> 's \<Rightarrow> bool \<times> 's"
    and time :: "'c \<Rightarrow> nat" and mine :: "'c \<Rightarrow> bool" and good :: "'c \<Rightarrow> bool" and W :: nat and L :: nat
  assumes own: "ok_state s \<Longrightarrow> mine c \<Longrightarrow> good c \<Longrightarrow> ok_state (snd (serve c s)) \<and> 0 < W \<and>
      (\<not> fst (serve c s) \<and> window (snd (serve c s)) = window s \<or>
       window (snd (serve c s)) = Some (tick W (time c) (window s)) \<and> (fst (serve c s) \<longrightarrow> fst (tick W (time c) (window s)) \<le> L))"
    and other: "ok_state s \<Longrightarrow> \<not> mine c \<Longrightarrow> good c \<Longrightarrow> ok_state (snd (serve c s)) \<and> window (snd (serve c s)) = window s"
begin

lemma late_requests:
  assumes "\<forall>c \<in> set cs. a + W \<le> time c"
  shows "filter (\<lambda>(c, ok). mine c \<and> ok \<and> a \<le> time c \<and> time c < a + W) (served serve cs s) = []"
proof -
  have "a + W \<le> time c" if "(c, ok) \<in> set (served serve cs s)" for c ok
    using assms served_requests [of serve cs s] that by (metis fst_conv image_eqI list.set_map)
  then show ?thesis by (force simp: filter_empty_conv)
qed

lemma window_bound:
  assumes "ok_state s" and "list_all good cs" and "sorted (map time cs)"
  shows "length (filter (\<lambda>(c, ok). mine c \<and> ok \<and> a \<le> time c \<and> time c < a + W) (served serve cs s)) \<le> allowance L W a (window s)"
  using assms
proof (induction cs arbitrary: s)
  case (Cons c cs)
  show ?case
  proof (cases "time c < a + W")
    case False
    with Cons.prems(3) have "\<forall>c' \<in> set (c # cs). a + W \<le> time c'" by auto
    from late_requests [OF this, of s] show ?thesis by (metis le0 list.size(3))
  next
    case True
    let ?s = "snd (serve c s)" and ?ok = "fst (serve c s)"
    have s: "ok_state ?s" using own [of s c] other [of s c] Cons.prems by (cases "mine c") auto
    with Cons have IH: "length (filter (\<lambda>(c, ok). mine c \<and> ok \<and> a \<le> time c \<and> time c < a + W) (served serve cs ?s)) \<le> allowance L W a (window ?s)"
      by simp
    consider "\<not> mine c \<or> \<not> ?ok" "window ?s = window s"
      | "mine c" "0 < W" "window ?s = Some (tick W (time c) (window s))" "?ok \<longrightarrow> fst (tick W (time c) (window s)) \<le> L"
      using own [of s c] other [of s c] Cons.prems by (cases "mine c") auto
    then show ?thesis
    proof cases
      case 1
      with IH show ?thesis by auto
    next
      case 2
      have "length (filter (\<lambda>(c, ok). mine c \<and> ok \<and> a \<le> time c \<and> time c < a + W) (served serve (c # cs) s)) \<le>
          (if a \<le> time c \<and> fst (tick W (time c) (window s)) \<le> L then 1 else 0) + allowance L W a (window ?s)"
        using IH 2(4) by auto
      also have "\<dots> \<le> allowance L W a (window s)" unfolding 2(3) by (rule tick_allowance [OF 2(2) True])
      finally show ?thesis .
    qed
  qed
qed simp

end

section \<open>The limiter counts in windows\<close>

definition key_ok :: "string \<Rightarrow> redis \<Rightarrow> bool" where
  "key_ok k r \<longleftrightarrow> map_of r k = None \<or> (\<exists>c e. map_of r k = Some (decimal c, Some e) \<and> 0 < c)"

definition key_window :: "string \<Rightarrow> redis \<Rightarrow> (nat \<times> nat) option" where
  "key_window k r = (case map_of r k of Some (v, Some e) \<Rightarrow> Some (undecimal v, e) | _ \<Rightarrow> None)"

lemma key_ok_cong: "map_of r k = map_of r' k \<Longrightarrow> key_ok k r = key_ok k r' \<and> key_window k r = key_window k r'"
  by (simp add: key_ok_def key_window_def)

lemma as_i64_small: "n < 2 ^ 63 \<Longrightarrow> as_i64 n = int n"
  by (simp add: as_i64_def signed_of_nat signed_take_bit_int_eq_self)

lemma script_new_window:
  assumes "redis_get now k r = None" and "0 < w" and "w * 1000 + now < 2 ^ 63"
  shows "\<exists>r' ttl. rate_limit_script now k (as_i64 w) r = (Inr (1, ttl), r') \<and> 0 \<le> ttl \<and>
    map_of r' k = Some (decimal 1, Some (now + w * 1000))"
proof -
  have w: "as_i64 w = int w" "int w * 1000 + int now < 2 ^ 63" using assms(3) as_i64_small [of w] by simp_all
  have incr: "redis_incr now k r = Inr (1, AList.update k (decimal 1, None) r)" using assms(1) by (simp add: redis_incr_def)
  have get: "redis_get now k (AList.update k (decimal 1, None) r) = Some (decimal 1)" by (simp add: redis_get_def)
  have expire: "redis_expire now k (as_i64 w) (AList.update k (decimal 1, None) r) =
      (Inr (), AList.update k (decimal 1, Some (now + w * 1000)) (AList.update k (decimal 1, None) r))"
    using w assms(2) by (simp add: redis_expire_def get redis_pexpire_def del: One_nat_def)
  let ?r = "AList.update k (decimal 1, Some (now + w * 1000)) (AList.update k (decimal 1, None) r)"
  have "0 \<le> redis_ttl now k ?r" using assms(2) by (simp add: redis_ttl_def redis_get_def redis_expiry_def)
  then show ?thesis by (simp add: rate_limit_script_def incr expire del: One_nat_def)
qed

lemma script_same_window:
  assumes "map_of r k = Some (decimal c, Some e)" and "now < e" and "0 < c"
  shows "(\<exists>err. rate_limit_script now k w r = (Inl err, r)) \<or>
    (\<exists>r' ttl. rate_limit_script now k w r = (Inr (Suc c, ttl), r') \<and> 0 \<le> ttl \<and> map_of r' k = Some (decimal (Suc c), Some e))"
proof -
  have "redis_get now k r = Some (decimal c)" "redis_expiry k r = Some e" using assms by (simp_all add: redis_get_def redis_expiry_def)
  then have "redis_incr now k r = (if c + 1 \<ge> 2 ^ 63 then Inl ''increment or decrement would overflow''
      else Inr (Suc c, AList.update k (decimal (Suc c), Some e) r))"
    by (simp add: redis_incr_def undecimal_decimal decimal_digits)
  moreover have "0 \<le> redis_ttl now k (AList.update k (decimal (Suc c), Some e) r)"
    using assms(2) by (simp add: redis_ttl_def redis_get_def redis_expiry_def)
  ultimately show ?thesis using assms(3) by (auto simp: rate_limit_script_def)
qed

text \<open>One check of the limiter is one tick of the counter, or leaves it alone and does not admit.\<close>

lemma script_ticks:
  assumes "key_ok k r" and "0 < w" and "w * 1000 + now < 2 ^ 63"
  shows "(\<exists>err. rate_limit_script now k (as_i64 w) r = (Inl err, r)) \<or>
    (\<exists>r' ttl. rate_limit_script now k (as_i64 w) r = (Inr (fst (tick (w * 1000) now (key_window k r)), ttl), r') \<and> 0 \<le> ttl \<and>
      key_ok k r' \<and> key_window k r' = Some (tick (w * 1000) now (key_window k r)))"
proof (cases "redis_get now k r")
  case None
  then have "tick (w * 1000) now (key_window k r) = (1, now + w * 1000)"
    using assms(1) by (auto simp: key_ok_def key_window_def redis_get_def tick_def split: if_splits)
  with script_new_window [OF None assms(2,3)] show ?thesis
    by (auto simp: key_ok_def key_window_def undecimal_decimal decimal_inj simp del: One_nat_def)
next
  case (Some v)
  then obtain c e where k: "map_of r k = Some (decimal c, Some e)" "0 < c" "now < e"
    using assms(1) by (auto simp: key_ok_def redis_get_def split: if_splits)
  then have "tick (w * 1000) now (key_window k r) = (Suc c, e)" by (simp add: key_window_def tick_def undecimal_decimal)
  with script_same_window [OF k(1,3,2), of "as_i64 w"] show ?thesis
    by (auto simp: key_ok_def key_window_def undecimal_decimal decimal_inj)
qed

lemma run_rate_limit_ticks:
  assumes "key_ok k r" and "0 < w" and "w * 1000 + rc_now c < 2 ^ 63"
    and "run_rate_limit c k w limit r = (res, r')"
  shows "key_ok k r' \<and>
    ((\<exists>e. res = Inl e) \<and> key_window k r' = key_window k r \<or>
     key_window k r' = Some (tick (w * 1000) (rc_now c) (key_window k r)) \<and>
       (\<forall>v. res = Inr v \<and> rl_allowed v \<longrightarrow> fst (tick (w * 1000) (rc_now c) (key_window k r)) \<le> limit))"
  using script_ticks [OF assms(1-3)]
proof (elim disjE exE conjE)
  fix err
  assume "rate_limit_script (rc_now c) k (as_i64 w) r = (Inl err, r)"
  then have "(\<exists>e. res = Inl e) \<and> r' = r"
    using assms(4) by (auto simp: run_rate_limit_def Let_def split: option.splits bool.splits)
  with assms(1) show ?thesis by simp
next
  fix r1 ttl
  assume "rate_limit_script (rc_now c) k (as_i64 w) r = (Inr (fst (tick (w * 1000) (rc_now c) (key_window k r)), ttl), r1)"
    and "0 \<le> ttl" and k: "key_ok k r1" "key_window k r1 = Some (tick (w * 1000) (rc_now c) (key_window k r))"
  then have "(\<exists>e. res = Inl e) \<and> r' = r \<or> r' = r1 \<and> (\<forall>v. res = Inr v \<and> rl_allowed v \<longrightarrow> fst (tick (w * 1000) (rc_now c) (key_window k r)) \<le> limit)"
    using assms(4) by (auto simp: run_rate_limit_def Let_def rate_limit_verdict_def split: option.splits bool.splits)
  with assms(1) k show ?thesis by auto
qed

type_synonym admission_request = "community_id \<times> pubkey \<times> limit_type \<times> redis_call"

definition principal_of :: "admission_request \<Rightarrow> community_id \<times> pubkey \<times> limit_type" where
  "principal_of q = (case q of (com, pk, lt, c) \<Rightarrow> (com, pk, lt))"

definition request_time :: "admission_request \<Rightarrow> instant_ms" where
  "request_time q = (case q of (com, pk, lt, c) \<Rightarrow> rc_now c)"

definition serve_request ::
    "nostr_lib \<Rightarrow> (limit_type \<Rightarrow> nat \<times> nat) \<Rightarrow> admission_request \<Rightarrow> redis \<Rightarrow> bool \<times> redis" where
  "serve_request lib bud q r = (case q of (com, pk, lt, c) \<Rightarrow>
     (let (res, r1) = check_principal lib c com pk lt (fst (bud lt)) (snd (bud lt)) r in (res = Inr (), r1)))"

definition good_request :: "nostr_lib \<Rightarrow> (limit_type \<Rightarrow> nat \<times> nat) \<Rightarrow> admission_request \<Rightarrow> bool" where
  "good_request lib bud q \<longleftrightarrow> (case q of (com, pk, lt, c) \<Rightarrow>
     key_lawful lib \<and> 0 < fst (bud lt) \<and> fst (bud lt) * 1000 + rc_now c < 2 ^ 63)"

lemma check_principal_admits:
  "fst (check_principal lib c com pk lt w limit r) = Inr () \<longleftrightarrow>
     (\<exists>v. fst (run_rate_limit c (rate_limit_key lib com pk lt) w limit r) = Inr v \<and> rl_allowed v)"
  by (auto simp: check_principal_def check_and_increment_def split: prod.splits sum.splits if_splits)

lemma check_principal_store:
  "snd (check_principal lib c com pk lt w limit r) = snd (run_rate_limit c (rate_limit_key lib com pk lt) w limit r)"
  by (simp add: check_principal_def check_and_increment_def split: prod.splits)

lemma serve_request_eq:
  "serve_request lib bud (com, pk, lt, c) r =
     (fst (check_principal lib c com pk lt (fst (bud lt)) (snd (bud lt)) r) = Inr (),
      snd (check_principal lib c com pk lt (fst (bud lt)) (snd (bud lt)) r))"
  by (simp add: serve_request_def split: prod.splits)

interpretation limiter: window_counter "key_window (rate_limit_key lib com pk lt)" "key_ok (rate_limit_key lib com pk lt)"
  "serve_request lib bud" request_time "\<lambda>q. principal_of q = (com, pk, lt)" "good_request lib bud" "fst (bud lt) * 1000" "snd (bud lt)"
  for lib bud com pk lt
proof (unfold_locales, goal_cases)
  case (1 r q)
  then obtain c where q: "q = (com, pk, lt, c)" by (cases q) (auto simp: principal_of_def)
  obtain res r' where run: "run_rate_limit c (rate_limit_key lib com pk lt) (fst (bud lt)) (snd (bud lt)) r = (res, r')" by fastforce
  have "0 < fst (bud lt)" "fst (bud lt) * 1000 + rc_now c < 2 ^ 63" using 1(3) q by (simp_all add: good_request_def)
  from run_rate_limit_ticks [OF 1(1) this run] \<open>0 < fst (bud lt)\<close> show ?case
    unfolding q serve_request_eq check_principal_admits check_principal_store run request_time_def by auto
next
  case (2 r q)
  obtain com' pk' lt' c where q: "q = (com', pk', lt', c)" by (cases q)
  with 2 have "rate_limit_key lib com pk lt \<noteq> rate_limit_key lib com' pk' lt'"
    using rate_limit_key_inj [of lib com pk lt com' pk' lt'] by (auto simp: principal_of_def good_request_def)
  from check_principal_other [OF this] key_ok_cong 2(1) show ?case
    unfolding q serve_request_eq snd_conv by metis
qed

text \<open>C31.  The limiter is a fixed-window one: whatever other principals do and whatever fails, in any interval as
  long as the window at most twice the limit of a principal's requests are admitted.\<close>

theorem rate_limit_bound:
  assumes "sorted (map request_time qs)" and "list_all (good_request lib bud) qs"
    and "map_of r (rate_limit_key lib com pk lt) = None"
  shows "length (filter (\<lambda>(q, admitted). principal_of q = (com, pk, lt) \<and> admitted \<and>
      a \<le> request_time q \<and> request_time q < a + fst (bud lt) * 1000) (served (serve_request lib bud) qs r)) \<le> 2 * snd (bud lt)"
proof -
  have "key_ok (rate_limit_key lib com pk lt) r" using assms(3) by (simp add: key_ok_def)
  from limiter.window_bound [OF this assms(2,1)] show ?thesis using allowance_le le_trans by blast
qed

section \<open>The seen-set\<close>

lemma check_replay_other:
  "k \<noteq> nip98_replay_key lib com eid \<Longrightarrow> map_of (snd (check_nip98_replay lib c com eid r)) k = map_of r k"
  by (auto simp: check_nip98_replay_def try_mark_def try_mark_in_scope_def nip98_replay_key_def redis_set_nx_ex_def redis_set_px_def
      Let_def split: option.splits if_splits)

lemma check_replay_held:
  assumes "map_of r (nip98_replay_key lib com eid) = Some (v, Some T)" and "rc_now c < T"
  shows "snd (check_nip98_replay lib c com eid r) = r"
    and "eid \<noteq> replicate 32 0 \<Longrightarrow> fst (check_nip98_replay lib c com eid r) \<noteq> Inr ()"
  using assms
  by (auto simp: check_nip98_replay_def try_mark_def try_mark_in_scope_def nip98_replay_key_def redis_set_nx_ex_def redis_get_def
      Let_def split: option.splits if_splits)

lemma check_replay_marks:
  assumes "fst (check_nip98_replay lib c com eid r) = Inr ()" and "eid \<noteq> replicate 32 0"
  shows "map_of (snd (check_nip98_replay lib c com eid r)) (nip98_replay_key lib com eid) = Some (''1'', Some (rc_now c + 120000))"
  using assms
  by (auto simp: check_nip98_replay_def try_mark_def try_mark_in_scope_def nip98_replay_key_def redis_set_nx_ex_def redis_set_px_def
      Let_def clamp_def DEFAULT_REPLAY_TTL_SECS_def MAX_REPLAY_TTL_SECS_def split: option.splits if_splits sum.splits bool.splits)

lemma admit_and_mark_cases:
  assumes "uuid_codec (au_nostr (xe_lib env))" and "k = nip98_replay_key (au_nostr (xe_lib env)) com' eid'"
  obtains r1 where "map_of r1 k = map_of r k"
    "admit_and_mark env limits c com pk eid r = check_nip98_replay (au_nostr (xe_lib env)) (bc_replay c) com eid r1"
  | e r1 where "map_of r1 k = map_of r k" "admit_and_mark env limits c com pk eid r = (Inl e, r1)"
proof -
  obtain res r1 where a: "enforce_http_admission (au_nostr (xe_lib env)) limits (bc_admission c) com pk r = (res, r1)" by fastforce
  then have "map_of r1 k = map_of r k"
    using enforce_http_admission_other [of k "au_nostr (xe_lib env)" com pk limits "bc_admission c" r]
      replay_key_not_rate_key [OF assms(1)] assms(2) by simp
  with a that show thesis by (cases res) (simp_all add: admit_and_mark_def)
qed

lemma admit_and_mark_held:
  assumes "uuid_codec (au_nostr (xe_lib env))" and "k = nip98_replay_key (au_nostr (xe_lib env)) com' eid'"
    and "map_of r k = Some (v, Some T)" and "rc_now (bc_replay c) < T"
  shows "map_of (snd (admit_and_mark env limits c com pk eid r)) k = Some (v, Some T)"
    and "com = com' \<Longrightarrow> eid = eid' \<Longrightarrow> eid \<noteq> replicate 32 0 \<Longrightarrow> fst (admit_and_mark env limits c com pk eid r) \<noteq> Inr ()"
proof -
  let ?lib = "au_nostr (xe_lib env)"
  show "map_of (snd (admit_and_mark env limits c com pk eid r)) k = Some (v, Some T)"
  proof (rule admit_and_mark_cases [OF assms(1,2), of r limits c com pk eid])
    fix r1
    assume r1: "map_of r1 k = map_of r k" "admit_and_mark env limits c com pk eid r = check_nip98_replay ?lib (bc_replay c) com eid r1"
    show ?thesis
    proof (cases "k = nip98_replay_key ?lib com eid")
      case True
      from check_replay_held(1) [of r1 ?lib com eid v T "bc_replay c"] r1 assms(3,4) True show ?thesis by simp
    next
      case False
      from check_replay_other [OF this, of "bc_replay c" r1] r1 assms(3) show ?thesis by simp
    qed
  qed (use assms(3) in simp)
  show "fst (admit_and_mark env limits c com pk eid r) \<noteq> Inr ()" if "com = com'" "eid = eid'" "eid \<noteq> replicate 32 0"
  proof (rule admit_and_mark_cases [OF assms(1,2), of r limits c com pk eid])
    fix r1
    assume "map_of r1 k = map_of r k" "admit_and_mark env limits c com pk eid r = check_nip98_replay ?lib (bc_replay c) com eid r1"
    with check_replay_held(2) [of r1 ?lib com eid v T "bc_replay c"] assms(2,3,4) that show ?thesis by simp
  qed simp
qed

lemma admit_and_mark_marks:
  assumes "fst (admit_and_mark env limits c com pk eid r) = Inr ()" and "eid \<noteq> replicate 32 0"
  shows "map_of (snd (admit_and_mark env limits c com pk eid r)) (nip98_replay_key (au_nostr (xe_lib env)) com eid) =
    Some (''1'', Some (rc_now (bc_replay c) + 120000))"
  using assms check_replay_marks [of "au_nostr (xe_lib env)" "bc_replay c" com eid]
  by (auto simp: admit_and_mark_def split: prod.splits sum.splits)

section \<open>Requests to the bridge\<close>

datatype bridge_request = ReadRequest string | SubmitRequest "nat \<Rightarrow> db_fault"

type_synonym bridge_message = "bridge_call \<times> bridge_request \<times> http_request"

fun request_path :: "bridge_request \<Rightarrow> string" where
  "request_path (ReadRequest path) = path"
| "request_path (SubmitRequest _) = ''/events''"

fun bridge_step :: "auth_env \<Rightarrow> rate_limit_config \<Rightarrow> bridge_message \<Rightarrow> redis \<times> principals \<Rightarrow> bool \<times> redis \<times> principals" where
  "bridge_step env limits (c, ReadRequest path, q) (r, p) =
     (let (res, r1) = read_gate env limits c path q r in (is_ok res, r1, p))"
| "bridge_step env limits (c, SubmitRequest faults, q) (r, p) =
     (let (res, s) = submit_gate env limits c faults q (r, p) in (is_ok res, s))"

definition bridge_after :: "auth_env \<Rightarrow> rate_limit_config \<Rightarrow> bridge_message list \<Rightarrow> redis \<times> principals \<Rightarrow> redis \<times> principals" where
  "bridge_after env limits ms s = fold (\<lambda>m s. snd (bridge_step env limits m s)) ms s"

definition mark_time :: "bridge_message \<Rightarrow> instant_ms" where
  "mark_time m = rc_now (bc_replay (fst m))"

lemma bridge_step_unverified:
  "bridge_bind_and_verify env c (request_path k) q = Inl e \<Longrightarrow> bridge_step env limits (c, k, q) s = (False, s)"
  by (cases k; cases s) (simp_all add: read_gate_def submit_gate_def)

lemma bridge_step_verified:
  assumes "bridge_bind_and_verify env c (request_path k) q = Inr (tenant, pk, eid)"
  shows "fst (snd (bridge_step env limits (c, k, q) s)) = snd (admit_and_mark env limits c (tc_community tenant) pk eid (fst s))"
    and "fst (bridge_step env limits (c, k, q) s) \<Longrightarrow> fst (admit_and_mark env limits c (tc_community tenant) pk eid (fst s)) = Inr ()"
  using assms by (cases k; cases s; auto simp: read_gate_def submit_gate_def Let_def split: prod.splits sum.splits)+

lemma bridge_step_held:
  assumes "uuid_codec (au_nostr (xe_lib env))" and "k = nip98_replay_key (au_nostr (xe_lib env)) com eid"
    and "map_of (fst s) k = Some (v, Some T)" and "mark_time m < T"
  shows "map_of (fst (snd (bridge_step env limits m s))) k = Some (v, Some T)"
proof -
  obtain c req q where m: "m = (c, req, q)" by (cases m)
  show ?thesis
  proof (cases "bridge_bind_and_verify env c (request_path req) q")
    case (Inl e)
    with assms(3) m show ?thesis by (simp add: bridge_step_unverified)
  next
    case (Inr x)
    obtain tenant pk eid' where "x = (tenant, pk, eid')" by (cases x)
    with Inr assms(4) m bridge_step_verified(1) [of env c req q tenant pk eid' limits s]
      admit_and_mark_held(1) [OF assms(1,2,3), of c limits "tc_community tenant" pk eid'] show ?thesis
      by (simp add: mark_time_def)
  qed
qed

lemma bridge_after_held:
  assumes "uuid_codec (au_nostr (xe_lib env))" and "k = nip98_replay_key (au_nostr (xe_lib env)) com eid"
    and "map_of (fst s) k = Some (v, Some T)" and "\<forall>m \<in> set ms. mark_time m < T"
  shows "map_of (fst (bridge_after env limits ms s)) k = Some (v, Some T)"
  using assms(3,4)
proof (induction ms arbitrary: s)
  case (Cons m ms)
  from bridge_step_held [OF assms(1,2) Cons.prems(1), of m limits] Cons show ?case by (simp add: bridge_after_def)
qed (simp add: bridge_after_def)

text \<open>The event a token stands for.\<close>

definition token_event :: "auth_lib \<Rightarrow> string \<Rightarrow> signed_event option" where
  "token_event lib token = (case and_then (au_base64_decode lib token) (au_from_utf8 lib) of
     Inl _ \<Rightarrow> None
   | Inr event_json \<Rightarrow> (case au_event_from_json lib event_json of Inl _ \<Rightarrow> None | Inr se \<Rightarrow> Some se))"

lemma verify_nip98_event_window:
  assumes "verify_nip98_event lib now js url m body = Inr pk" and "au_event_from_json lib js = Inr se"
  shows "now \<le> ev_created_at (sg_event se) + 60 \<and> ev_created_at (sg_event se) \<le> now + 60"
proof -
  have "\<not> abs_diff now (ev_created_at (sg_event se)) > 60"
  proof
    assume "abs_diff now (ev_created_at (sg_event se)) > 60"
    with assms show False by (simp add: verify_nip98_event_def Let_def TIMESTAMP_TOLERANCE_SECS_def split: if_splits)
  qed
  then show ?thesis by (simp add: abs_diff_le [symmetric])
qed

lemma bridge_token:
  assumes "bridge_bind_and_verify env c path q = Inr (tenant, pk, eid)" and "hq_authorization q = Some (''Nostr '' @ token)"
  obtains se where "token_event (xe_lib env) token = Some se" "eid = ev_id (sg_event se)"
    "bc_now c \<le> ev_created_at (sg_event se) + 60" "ev_created_at (sg_event se) \<le> bc_now c + 60"
proof -
  have "strip_prefix ''Nostr '' (''Nostr '' @ token) = Some token" by (simp only: strip_prefix_Some)
  with assms obtain bs js se url where d: "au_base64_decode (xe_lib env) token = Inr bs" "au_from_utf8 (xe_lib env) bs = Inr js"
      "au_event_from_json (xe_lib env) js = Inr se" "eid = ev_id (sg_event se)"
    and v: "verify_nip98_event (xe_lib env) (bc_now c) js url ''POST'' (Some (hq_body q)) = Inr pk"
    by (auto simp: bridge_bind_and_verify_def verify_bridge_auth_def verify_bridge_auth_with_options_def and_then_Inr_iff
        simp del: append_Cons append_Nil split: sum.splits prod.splits)
  have "token_event (xe_lib env) token = Some se" using d(1-3) by (simp add: token_event_def)
  with verify_nip98_event_window [OF v d(3)] d(4) show thesis by (intro that) auto
qed

lemma marked_event_refused:
  assumes codec: "uuid_codec (au_nostr (xe_lib env))"
    and verified: "bridge_bind_and_verify env c1 (request_path k1) q1 = Inr (tenant1, pk1, eid)"
      "bridge_bind_and_verify env c2 (request_path k2) q2 = Inr (tenant2, pk2, eid)"
    and same: "tc_community tenant1 = tc_community tenant2" and eid: "eid \<noteq> replicate 32 0"
    and accepted: "fst (bridge_step env limits (c1, k1, q1) s)"
      "fst (bridge_step env limits (c2, k2, q2) (bridge_after env limits ms (snd (bridge_step env limits (c1, k1, q1) s))))"
    and clock: "sorted (map mark_time ((c1, k1, q1) # ms @ [(c2, k2, q2)]))"
  shows "rc_now (bc_replay c1) + 120000 \<le> rc_now (bc_replay c2)"
proof (rule ccontr)
  let ?com = "tc_community tenant1" and ?T = "rc_now (bc_replay c1) + 120000"
  let ?k = "nip98_replay_key (au_nostr (xe_lib env)) ?com eid" and ?s1 = "snd (bridge_step env limits (c1, k1, q1) s)"
  from admit_and_mark_marks [OF bridge_step_verified(2) [OF verified(1) accepted(1)] eid]
  have held: "map_of (fst ?s1) ?k = Some (''1'', Some ?T)" using bridge_step_verified(1) [OF verified(1)] by simp
  assume "\<not> ?T \<le> rc_now (bc_replay c2)"
  then have t: "rc_now (bc_replay c2) < ?T" by simp
  with clock have "\<forall>m \<in> set ms. mark_time m < ?T" by (auto simp: sorted_append mark_time_def)
  from bridge_after_held [OF codec refl held this] have "map_of (fst (bridge_after env limits ms ?s1)) ?k = Some (''1'', Some ?T)" .
  from admit_and_mark_held(2) [OF codec refl this t] same eid bridge_step_verified(2) [OF verified(2) accepted(2)]
  show False by simp
qed

text \<open>C12.  A NIP-98 event is honoured once in 120 seconds.  Two requests whose tokens, whatever their text, carry the same
  event (the same id, and not the id of zeros of a request without a token) and that one community both
  accepts, with any requests served in between, are marked in Redis at least 120 seconds apart by the clock of
  Redis, of which only this is assumed, that it does not run backwards.  When in addition the two requests carry the same token and
  the clocks of the relay and of Redis agree to the second, the second use is exactly 120 seconds
  after the first: the first fell in the first second of the validity of the event and the second in its last.\<close>

theorem nip98_token_used_once:
  assumes codec: "uuid_codec (au_nostr (xe_lib env))"
    and verified: "bridge_bind_and_verify env c1 (request_path k1) q1 = Inr (tenant1, pk1, eid)"
      "bridge_bind_and_verify env c2 (request_path k2) q2 = Inr (tenant2, pk2, eid)"
    and same: "tc_community tenant1 = tc_community tenant2" and eid: "eid \<noteq> replicate 32 0"
    and accepted: "fst (bridge_step env limits (c1, k1, q1) s)"
      "fst (bridge_step env limits (c2, k2, q2) (bridge_after env limits ms (snd (bridge_step env limits (c1, k1, q1) s))))"
    and clock: "sorted (map mark_time ((c1, k1, q1) # ms @ [(c2, k2, q2)]))"
  shows "rc_now (bc_replay c1) + 120000 \<le> rc_now (bc_replay c2) \<and>
    (hq_authorization q1 = Some (''Nostr '' @ token) \<longrightarrow> hq_authorization q2 = Some (''Nostr '' @ token) \<longrightarrow>
     bc_now c1 * 1000 \<le> rc_now (bc_replay c1) \<longrightarrow> rc_now (bc_replay c2) < (bc_now c2 + 1) * 1000 \<longrightarrow>
     bc_now c2 = bc_now c1 + 120)"
proof (intro conjI impI)
  show apart: "rc_now (bc_replay c1) + 120000 \<le> rc_now (bc_replay c2)"
    by (rule marked_event_refused [OF assms])
  assume token: "hq_authorization q1 = Some (''Nostr '' @ token)" "hq_authorization q2 = Some (''Nostr '' @ token)"
    and agree: "bc_now c1 * 1000 \<le> rc_now (bc_replay c1)" "rc_now (bc_replay c2) < (bc_now c2 + 1) * 1000"
  obtain se where se: "token_event (xe_lib env) token = Some se" "ev_created_at (sg_event se) \<le> bc_now c1 + 60"
    by (rule bridge_token [OF verified(1) token(1)])
  obtain se' where "token_event (xe_lib env) token = Some se'" "bc_now c2 \<le> ev_created_at (sg_event se') + 60"
    by (rule bridge_token [OF verified(2) token(2)])
  with se have late: "bc_now c2 \<le> bc_now c1 + 120" by simp
  from apart agree have "(bc_now c1 + 120) * 1000 < (bc_now c2 + 1) * 1000" by simp
  then have "bc_now c1 + 120 \<le> bc_now c2" by simp
  with late show "bc_now c2 = bc_now c1 + 120" by simp
qed

section \<open>Concrete requests\<close>

definition ex_redis_call :: "instant_ms \<Rightarrow> redis_call" where
  "ex_redis_call t = \<lparr>rc_now = t, rc_pool_error = None, rc_query_error = None, rc_repair_error = None\<rparr>"

definition ex_bridge_call :: "timestamp \<Rightarrow> bridge_call" where
  "ex_bridge_call t = \<lparr>bc_now = t, bc_admission = ex_redis_call (t * 1000), bc_replay = ex_redis_call (t * 1000)\<rparr>"

lemma ex_hex_no_colon: "CHR '':'' \<notin> set (ex_hex bs)"
proof (induction bs)
  case (Cons w ws)
  have "ex_nibble k \<noteq> CHR '':''" if "k < 16" for k
    using that by (simp add: ex_nibble_def char_of_eq_iff take_bit_nat_eq_self)
  with Cons show ?case using u8_div16 [of w] by (metis ex_hex.simps(2) mod_less_divisor set_ConsD zero_less_numeral)
qed simp

lemma ex_key_lawful: "key_lawful ex_hex_lib"
proof -
  have "inj ex_hex" by (rule injI) (rule ex_hex_inj, simp add: eq_ignore_ascii_case_def)
  then show ?thesis using ex_codec_ok ex_hex_no_colon by (simp add: key_lawful_def ex_hex_lib_def uuid_codec_def)
qed

theorem rate_limit_bound_witness:
  "length (filter (\<lambda>(q, admitted). principal_of q = (2, [7], ApiCalls) \<and> admitted \<and> 500 \<le> request_time q \<and> request_time q < 1500)
     (served (serve_request ex_hex_lib (\<lambda>_. (1, 1)))
        [(2, [7], ApiCalls, ex_redis_call 0), (2, [7], ApiCalls, ex_redis_call 999), (2, [7], ApiCalls, ex_redis_call 1000)] [])) \<le> 2"
  using rate_limit_bound [where lib = ex_hex_lib and bud = "\<lambda>_. (1, 1)" and r = "[]" and com = 2 and pk = "[7]" and lt = ApiCalls and a = 500
      and qs = "[(2, [7], ApiCalls, ex_redis_call 0), (2, [7], ApiCalls, ex_redis_call 999), (2, [7], ApiCalls, ex_redis_call 1000)]"]
    ex_key_lawful
  by (simp add: request_time_def good_request_def ex_redis_call_def del: served.simps)

lemma ex_id_nonzero: "([1] :: bytes) \<noteq> replicate 32 0"
  by (auto dest: arg_cong [of _ _ length])

lemma ex_bridge_verified:
  assumes "t = 40 \<or> t = 160"
  shows "bridge_bind_and_verify ex_auth_env (ex_bridge_call t) ''/query'' ex_http_request = Inr (\<lparr>tc_community = 2, tc_host = ''r''\<rparr>, [7], [1])"
proof -
  have "normalize_host ''r'' = ''r''"
    by (simp add: normalize_host_def trim_def is_whitespace_def to_ascii_lower_def strip_suffix_def starts_with_def)
  moreover have "verify_nip98_event ex_auth_lib t js ''http://r/query'' ''POST'' (Some []) = Inr [7]" for js
    using assms by (auto simp: verify_nip98_event_def ex_auth_lib_def ex_http_event_def KIND_HTTP_AUTH_def verify_event_def abs_diff_def
        TIMESTAMP_TOLERANCE_SECS_def tag_value_def normalize_url_def eq_ignore_ascii_case_def check_payload_def)
  moreover have "nip98_expected_url ''ws://r'' ''r'' ''/query'' = ''http://r/query''"
    by (simp add: nip98_expected_url_def starts_with_def is_whitespace_def)
  ultimately show ?thesis
    by (simp add: bridge_bind_and_verify_def bind_community_def ex_auth_env_def ex_http_request_def verify_bridge_auth_def
        verify_bridge_auth_with_options_def strip_prefix_def starts_with_def ex_bridge_call_def)
      (simp add: ex_auth_lib_def ex_http_event_def)
qed

lemma ex_admitted:
  assumes "redis_get (t * 1000) (rate_limit_key ex_hex_lib 2 [7] ApiCalls) r = None" and "redis_get (t * 1000) (nip98_replay_key ex_hex_lib 2 [1]) r = None"
    and "t = 40 \<or> t = 160"
  shows "fst (bridge_step ex_auth_env default_rate_limits (ex_bridge_call t, ReadRequest ''/query'', ex_http_request) (r, p)) \<and>
    (\<exists>r1. fst (snd (bridge_step ex_auth_env default_rate_limits (ex_bridge_call t, ReadRequest ''/query'', ex_http_request) (r, p))) =
       AList.update (nip98_replay_key ex_hex_lib 2 [1]) (''1'', Some (t * 1000 + 120000)) r1 \<and>
       map_of r1 (rate_limit_key ex_hex_lib 2 [7] ApiCalls) = Some (decimal 1, Some (t * 1000 + 60000)))"
proof -
  let ?rk = "rate_limit_key ex_hex_lib 2 [7] ApiCalls" and ?mk = "nip98_replay_key ex_hex_lib 2 [1]"
  obtain r1 ttl where script: "rate_limit_script (t * 1000) ?rk (as_i64 60) r = (Inr (1, ttl), r1)" "0 \<le> ttl"
      "map_of r1 ?rk = Some (decimal 1, Some (t * 1000 + 60000))"
    using script_new_window [OF assms(1), of 60] assms(3) by auto
  have adm: "enforce_http_admission ex_hex_lib default_rate_limits (ex_redis_call (t * 1000)) 2 [7] r = (Inr (), r1)"
    using script by (simp add: enforce_http_admission_def check_principal_def check_and_increment_def run_rate_limit_def ex_redis_call_def
        rate_limit_verdict_def default_rate_limits_def)
  have "?mk \<noteq> ?rk" using replay_key_not_rate_key [of ex_hex_lib 2 "[1]" 2 "[7]" ApiCalls] ex_key_lawful by (simp add: key_lawful_def)
  then have "map_of r1 ?mk = map_of r ?mk" using rate_limit_script_other [of ?mk ?rk "t * 1000" "as_i64 60" r] script(1) by simp
  with assms(2) have "redis_get (t * 1000) ?mk r1 = None" by (simp add: redis_get_def)
  then have mark: "check_nip98_replay ex_hex_lib (ex_redis_call (t * 1000)) 2 [1] r1 =
      (Inr (), AList.update ?mk (''1'', Some (t * 1000 + 120000)) r1)"
    by (simp add: check_nip98_replay_def try_mark_def try_mark_in_scope_def nip98_replay_key_def redis_set_nx_ex_def redis_set_px_def
        ex_redis_call_def clamp_def DEFAULT_REPLAY_TTL_SECS_def MAX_REPLAY_TTL_SECS_def ex_id_nonzero)
  have lib: "au_nostr (xe_lib ex_auth_env) = ex_hex_lib" by (simp add: ex_auth_env_def ex_auth_lib_def)
  have "admit_and_mark ex_auth_env default_rate_limits (ex_bridge_call t) 2 [7] [1] r = (Inr (), AList.update ?mk (''1'', Some (t * 1000 + 120000)) r1)"
    unfolding admit_and_mark_def lib by (simp add: ex_bridge_call_def adm mark)
  moreover have "enforce_relay_membership ex_auth_env 2 [7] None = Inr None"
    by (simp add: enforce_relay_membership_def check_relay_membership_def ex_auth_env_def ex_auth_lib_def ex_hex_lib_def)
  moreover have "hq_x_auth_tag ex_http_request = None" by (simp add: ex_http_request_def)
  ultimately show ?thesis using script(3) by (auto simp: read_gate_def ex_bridge_verified [OF assms(3)])
qed

text \<open>The token is indeed accepted twice, at the two ends of its validity.\<close>

theorem nip98_token_used_once_witness:
  "fst (bridge_step ex_auth_env default_rate_limits (ex_bridge_call 40, ReadRequest ''/query'', ex_http_request)
      ([], an_principals ex_auth_node)) \<and>
   fst (bridge_step ex_auth_env default_rate_limits (ex_bridge_call 160, ReadRequest ''/query'', ex_http_request)
      (snd (bridge_step ex_auth_env default_rate_limits (ex_bridge_call 40, ReadRequest ''/query'', ex_http_request)
        ([], an_principals ex_auth_node)))) \<and>
   rc_now (bc_replay (ex_bridge_call 40)) + 120000 \<le> rc_now (bc_replay (ex_bridge_call 160)) \<and>
   bc_now (ex_bridge_call 160) = bc_now (ex_bridge_call 40) + 120"
proof -
  let ?m1 = "(ex_bridge_call 40, ReadRequest ''/query'', ex_http_request)" and ?m2 = "(ex_bridge_call 160, ReadRequest ''/query'', ex_http_request)"
  let ?s = "([], an_principals ex_auth_node)" and ?rk = "rate_limit_key ex_hex_lib 2 [7] ApiCalls" and ?mk = "nip98_replay_key ex_hex_lib 2 [1]"
  obtain r p where s1: "snd (bridge_step ex_auth_env default_rate_limits ?m1 ?s) = (r, p)" by fastforce
  have "redis_get (40 * 1000) k [] = None" for k by (simp add: redis_get_def)
  from ex_admitted [OF this this, of "an_principals ex_auth_node"] s1
  obtain r1 where one: "fst (bridge_step ex_auth_env default_rate_limits ?m1 ?s)" and r: "r = AList.update ?mk (''1'', Some 160000) r1"
    and r1: "map_of r1 ?rk = Some (decimal 1, Some 100000)" by auto
  have "?mk \<noteq> ?rk" using replay_key_not_rate_key [of ex_hex_lib 2 "[1]" 2 "[7]" ApiCalls] ex_key_lawful by (simp add: key_lawful_def)
  then have "redis_get (160 * 1000) ?rk r = None" "redis_get (160 * 1000) ?mk r = None" using r r1 by (simp_all add: redis_get_def)
  from ex_admitted [OF this, of p] have two: "fst (bridge_step ex_auth_env default_rate_limits ?m2 (r, p))" by simp
  have "rc_now (bc_replay (ex_bridge_call 40)) + 120000 \<le> rc_now (bc_replay (ex_bridge_call 160)) \<and>
    (hq_authorization ex_http_request = Some (''Nostr '' @ ''x'') \<longrightarrow> hq_authorization ex_http_request = Some (''Nostr '' @ ''x'') \<longrightarrow>
     bc_now (ex_bridge_call 40) * 1000 \<le> rc_now (bc_replay (ex_bridge_call 40)) \<longrightarrow>
     rc_now (bc_replay (ex_bridge_call 160)) < (bc_now (ex_bridge_call 160) + 1) * 1000 \<longrightarrow>
     bc_now (ex_bridge_call 160) = bc_now (ex_bridge_call 40) + 120)"
  proof (rule nip98_token_used_once [where env = ex_auth_env and limits = default_rate_limits and s = ?s and ms = "[]"
        and ?k1.0 = "ReadRequest ''/query''" and ?k2.0 = "ReadRequest ''/query''"])
    show "bridge_bind_and_verify ex_auth_env (ex_bridge_call 40) (request_path (ReadRequest ''/query'')) ex_http_request =
        Inr (\<lparr>tc_community = 2, tc_host = ''r''\<rparr>, [7], [1])" by (simp add: ex_bridge_verified)
    show "bridge_bind_and_verify ex_auth_env (ex_bridge_call 160) (request_path (ReadRequest ''/query'')) ex_http_request =
        Inr (\<lparr>tc_community = 2, tc_host = ''r''\<rparr>, [7], [1])" by (simp add: ex_bridge_verified)
    show "fst (bridge_step ex_auth_env default_rate_limits ?m2 (bridge_after ex_auth_env default_rate_limits [] (snd (bridge_step ex_auth_env default_rate_limits ?m1 ?s))))"
      using two s1 by (simp only: bridge_after_def fold_simps)
    show "uuid_codec (au_nostr (xe_lib ex_auth_env))" using ex_key_lawful by (simp add: key_lawful_def ex_auth_env_def ex_auth_lib_def)
  qed (use one in \<open>simp_all add: ex_http_request_def mark_time_def ex_bridge_call_def ex_redis_call_def ex_id_nonzero del: bridge_step.simps\<close>)
  moreover have "hq_authorization ex_http_request = Some (''Nostr '' @ ''x'')" by (simp add: ex_http_request_def)
  moreover have "bc_now (ex_bridge_call 40) * 1000 \<le> rc_now (bc_replay (ex_bridge_call 40))"
    "rc_now (bc_replay (ex_bridge_call 160)) < (bc_now (ex_bridge_call 160) + 1) * 1000"
    by (simp_all add: ex_bridge_call_def ex_redis_call_def)
  ultimately show ?thesis using one two s1 by (simp only: simp_thms)
qed

end
