(* ===== verification/Roster.thy ===== *)
theory Roster
  imports Admission
begin

text \<open>
  The tables that say which communities exist and who belongs to them, and the statements on them:
  \<open>crates/punks-db/src/relay_members.rs\<close> and \<open>crates/punks-db/src/community.rs\<close>.

  A database program is a function from the tables to a result and the tables.  A transaction is one
  step of it, and so is a statement outside of a transaction: the transactions that decide on what they read
  hold a lock on it (an advisory lock, or the rows \<open>FOR UPDATE\<close>) and take effect one after the other.  A transfer
  that had to wait for another one answers that the community has no owner where the model, which runs it
  afterwards, finds the new owner; the tables are the same.  The one transaction that holds no lock, the
  bootstrap of an owner, is two steps: its snapshot, and its commit.  Before every step other sessions may have changed the tables (\<open>qc_between\<close>), and every step may
  fail, without effect or, when only the answer was lost, with it (\<open>qc_fault\<close>).  Primary keys, and the
  reference of a member to its community, are checked here; other violated constraints of the schema and
  a refused write to a community that is being deleted are failures without effect.  Host names and keys
  are ASCII text, so that \<open>lower\<close> is the lower case of ASCII.
\<close>

section \<open>Tables\<close>

record community_row =
  cr_host :: string
  cr_icon :: "string option"
  cr_created_at :: timestamp
  cr_archived_at :: "timestamp option"
  cr_deletion_state :: string
  cr_deleted_at :: "timestamp option"

record relay_member =
  rm_pubkey :: string
  rm_role :: string
  rm_added_by :: "string option"
  rm_created_at :: timestamp
  rm_updated_at :: timestamp

record invite_row =
  iv_token_hash :: bytes
  iv_max_uses :: "int option"
  iv_use_count :: int
  iv_expires_at :: timestamp
  iv_created_by :: string

text \<open>A restriction of a member: a ban, a timeout, or both.  Times are seconds, of either sign.\<close>

record ban_row =
  br_banned :: bool
  br_ban_expires_at :: "int option"
  br_ban_reason :: "string option"
  br_muted_until :: "int option"
  br_mute_reason :: "string option"
  br_actor_pubkey :: bytes
  br_updated_at :: timestamp

datatype report_target = ReportEvent bytes | ReportPubkey bytes | ReportBlob bytes

record report_record =
  rr_report_event_id :: bytes
  rr_reporter_pubkey :: bytes
  rr_target :: report_target
  rr_channel_id :: "channel_id option"
  rr_report_type :: string
  rr_note :: "string option"
  rr_status :: string
  rr_resolved_by :: "bytes option"
  rr_resolved_at :: "timestamp option"
  rr_action_id :: "uuid option"
  rr_created_at :: timestamp

record action_record =
  ar_actor_pubkey :: bytes
  ar_action :: string
  ar_target_pubkey :: "bytes option"
  ar_target_event_id :: "bytes option"
  ar_channel_id :: "channel_id option"
  ar_reason_code :: "string option"
  ar_public_reason :: "string option"
  ar_private_reason :: "string option"
  ar_matched_principal :: "string option"
  ar_created_at :: timestamp

text \<open>Each table by its primary key; the acceptances are their keys.  \<open>td_allowlist\<close> is absent in a
  database that never had the older table.\<close>

record tenant_db =
  td_communities :: "(community_id \<times> community_row) list"
  td_members :: "((community_id \<times> string) \<times> relay_member) list"
  td_acceptances :: "(community_id \<times> string \<times> string) list"
  td_invites :: "((community_id \<times> uuid) \<times> invite_row) list"
  td_allowlist :: "((community_id \<times> bytes) \<times> timestamp) list option"
  td_bans :: "((community_id \<times> bytes) \<times> ban_row) list"
  td_reports :: "((community_id \<times> uuid) \<times> report_record) list"
  td_actions :: "((community_id \<times> uuid) \<times> action_record) list"

section \<open>Database programs\<close>

type_synonym ('e, 'a) db_prog = "tenant_db \<Rightarrow> ('e, 'a) result \<times> tenant_db"

record db_call =
  qc_fault :: "nat \<Rightarrow> db_fault"
  qc_between :: "nat \<Rightarrow> tenant_db \<Rightarrow> tenant_db"
  qc_now :: "nat \<Rightarrow> timestamp"
  qc_uuid :: "nat \<Rightarrow> uuid"

definition db_return :: "'a \<Rightarrow> ('e, 'a) db_prog" where
  "db_return x d = (Inr x, d)"

definition db_fail :: "'e \<Rightarrow> ('e, 'a) db_prog" where
  "db_fail e d = (Inl e, d)"

definition db_bind :: "('e, 'a) db_prog \<Rightarrow> ('a \<Rightarrow> ('e, 'b) db_prog) \<Rightarrow> ('e, 'b) db_prog" where
  "db_bind m f d = (case m d of (Inl e, d1) \<Rightarrow> (Inl e, d1) | (Inr x, d1) \<Rightarrow> f x d1)"

text \<open>\<open>map_err\<close>.\<close>

definition db_map_err :: "('e \<Rightarrow> 'f) \<Rightarrow> ('e, 'a) db_prog \<Rightarrow> ('f, 'a) db_prog" where
  "db_map_err g m d = (case m d of (Inl e, d1) \<Rightarrow> (Inl (g e), d1) | (Inr x, d1) \<Rightarrow> (Inr x, d1))"

text \<open>A value that needs no table.\<close>

definition db_lift :: "('e, 'a) result \<Rightarrow> ('e, 'a) db_prog" where
  "db_lift r d = (r, d)"

text \<open>The \<open>k\<close>-th step of a call.\<close>

definition db_exec ::
    "db_call \<Rightarrow> nat \<Rightarrow> (tenant_db \<Rightarrow> (db_error, 'a) result \<times> tenant_db) \<Rightarrow> (db_error, 'a) db_prog" where
  "db_exec c k f d =
     (let d0 = qc_between c k d; (v, d1) = f d0
      in case qc_fault c k of Some (e, done) \<Rightarrow> (Inl e, if done then d1 else d0) | None \<Rightarrow> (v, d1))"

definition db_read :: "db_call \<Rightarrow> nat \<Rightarrow> (tenant_db \<Rightarrow> 'a) \<Rightarrow> (db_error, 'a) db_prog" where
  "db_read c k q = db_exec c k (\<lambda>d. (Inr (q d), d))"

definition db_write :: "db_call \<Rightarrow> nat \<Rightarrow> (tenant_db \<Rightarrow> 'a \<times> tenant_db) \<Rightarrow> (db_error, 'a) db_prog" where
  "db_write c k f = db_exec c k (\<lambda>d. (Inr (fst (f d)), snd (f d)))"

section \<open>Relay members\<close>

definition member_of :: "tenant_db \<Rightarrow> community_id \<Rightarrow> string \<Rightarrow> relay_member option" where
  "member_of d com pk = map_of (td_members d) (com, pk)"

definition is_relay_member_on :: "db_call \<Rightarrow> nat \<Rightarrow> community_id \<Rightarrow> string \<Rightarrow> (db_error, bool) db_prog" where
  "is_relay_member_on c k com pk = db_read c k (\<lambda>d. member_of d com pk \<noteq> None)"

definition has_admin_or_owner :: "db_call \<Rightarrow> nat \<Rightarrow> community_id \<Rightarrow> (db_error, bool) db_prog" where
  "has_admin_or_owner c k com = db_read c k (\<lambda>d.
     list_ex (\<lambda>((com', _), m). com' = com \<and> (rm_role m = ''admin'' \<or> rm_role m = ''owner'')) (td_members d))"

definition get_relay_member :: "db_call \<Rightarrow> nat \<Rightarrow> community_id \<Rightarrow> string \<Rightarrow> (db_error, relay_member option) db_prog" where
  "get_relay_member c k com pk = db_read c k (\<lambda>d. member_of d com pk)"

definition list_relay_members :: "db_call \<Rightarrow> nat \<Rightarrow> community_id \<Rightarrow> (db_error, relay_member list) db_prog" where
  "list_relay_members c k com = db_read c k (\<lambda>d.
     sort_key rm_created_at (map snd (filter (\<lambda>((com', _), m). com' = com) (td_members d))))"

definition put_member :: "community_id \<Rightarrow> string \<Rightarrow> relay_member \<Rightarrow> tenant_db \<Rightarrow> tenant_db" where
  "put_member com pk m d = d\<lparr>td_members := AList.update (com, pk) m (td_members d)\<rparr>"

definition new_member :: "string \<Rightarrow> string \<Rightarrow> string option \<Rightarrow> timestamp \<Rightarrow> relay_member" where
  "new_member pk role added_by now =
     \<lparr>rm_pubkey = pk, rm_role = role, rm_added_by = added_by, rm_created_at = now, rm_updated_at = now\<rparr>"

definition community_exists :: "tenant_db \<Rightarrow> community_id \<Rightarrow> bool" where
  "community_exists d com = (map_of (td_communities d) com \<noteq> None)"

definition FK_VIOLATION :: db_error where
  "FK_VIOLATION = ''insert or update on table violates foreign key constraint''"

text \<open>\<open>INSERT \<dots> ON CONFLICT DO NOTHING\<close>: whether a row was inserted.  A row refers to its community.\<close>

definition insert_member ::
    "community_id \<Rightarrow> string \<Rightarrow> string \<Rightarrow> string option \<Rightarrow> timestamp \<Rightarrow> tenant_db \<Rightarrow> (db_error, bool) result \<times> tenant_db" where
  "insert_member com pk role added_by now d = (case member_of d com pk of
     Some _ \<Rightarrow> (Inr False, d)
   | None \<Rightarrow>
       if community_exists d com then (Inr True, put_member com pk (new_member pk role added_by now) d)
       else (Inl FK_VIOLATION, d))"

definition add_relay_member ::
    "db_call \<Rightarrow> nat \<Rightarrow> community_id \<Rightarrow> string \<Rightarrow> string \<Rightarrow> string option \<Rightarrow> (db_error, bool) db_prog" where
  "add_relay_member c k com pk role added_by = db_exec c k (insert_member com pk role added_by (qc_now c k))"

definition accept_join_policy :: "community_id \<Rightarrow> string \<Rightarrow> string option \<Rightarrow> tenant_db \<Rightarrow> tenant_db" where
  "accept_join_policy com pk policy_version d = (case policy_version of
     None \<Rightarrow> d
   | Some v \<Rightarrow> d\<lparr>td_acceptances := List.insert (com, pk, v) (td_acceptances d)\<rparr>)"

definition claim_relay_membership ::
    "db_call \<Rightarrow> nat \<Rightarrow> community_id \<Rightarrow> string \<Rightarrow> string \<Rightarrow> string option \<Rightarrow> (db_error, bool) db_prog" where
  "claim_relay_membership c k com pk role policy_version = db_exec c k (\<lambda>d.
     case insert_member com pk role (Some ''invite'') (qc_now c k) d of
       (Inl e, _) \<Rightarrow> (Inl e, d)
     | (Inr inserted, d1) \<Rightarrow> (Inr inserted, accept_join_policy com pk policy_version d1))"

definition has_join_policy_acceptance ::
    "db_call \<Rightarrow> nat \<Rightarrow> community_id \<Rightarrow> string \<Rightarrow> string \<Rightarrow> (db_error, bool) db_prog" where
  "has_join_policy_acceptance c k com pk v = db_read c k (\<lambda>d. (com, pk, v) \<in> set (td_acceptances d))"

datatype remove_result = Removed | IsOwner | NotFound | RoleMismatch

text \<open>The acceptances of a member are deleted with it.\<close>

definition delete_member :: "community_id \<Rightarrow> string \<Rightarrow> tenant_db \<Rightarrow> tenant_db" where
  "delete_member com pk d =
     d\<lparr>td_members := AList.delete (com, pk) (td_members d),
       td_acceptances := filter (\<lambda>(com', pk', _). (com', pk') \<noteq> (com, pk)) (td_acceptances d)\<rparr>"

definition delete_member_if ::
    "(string \<Rightarrow> bool) \<Rightarrow> community_id \<Rightarrow> string \<Rightarrow> tenant_db \<Rightarrow> bool \<times> tenant_db" where
  "delete_member_if ok com pk d = (case member_of d com pk of
     Some m \<Rightarrow> if ok (rm_role m) then (True, delete_member com pk d) else (False, d)
   | None \<Rightarrow> (False, d))"

definition remove_relay_member :: "db_call \<Rightarrow> nat \<Rightarrow> community_id \<Rightarrow> string \<Rightarrow> (db_error, remove_result) db_prog" where
  "remove_relay_member c k com pk =
     db_bind (db_write c k (delete_member_if (\<lambda>role. role \<noteq> ''owner'') com pk)) (\<lambda>deleted.
       if deleted then db_return Removed
       else db_bind (db_read c (k + 1) (\<lambda>d. member_of d com pk \<noteq> None)) (\<lambda>exists.
         db_return (if exists then IsOwner else NotFound)))"

definition remove_relay_member_if_role ::
    "db_call \<Rightarrow> nat \<Rightarrow> community_id \<Rightarrow> string \<Rightarrow> string \<Rightarrow> (db_error, remove_result) db_prog" where
  "remove_relay_member_if_role c k com pk expected_role =
     db_bind (db_write c k (delete_member_if (\<lambda>role. role = expected_role) com pk)) (\<lambda>deleted.
       if deleted then db_return Removed
       else db_bind (db_read c (k + 1) (\<lambda>d. member_of d com pk)) (\<lambda>row.
         db_return (case row of
             None \<Rightarrow> NotFound
           | Some m \<Rightarrow> if rm_role m = ''owner'' then IsOwner else RoleMismatch)))"

definition set_role_unless_owner ::
    "community_id \<Rightarrow> string \<Rightarrow> string \<Rightarrow> timestamp \<Rightarrow> tenant_db \<Rightarrow> bool \<times> tenant_db" where
  "set_role_unless_owner com pk role now d = (case member_of d com pk of
     Some m \<Rightarrow> if rm_role m \<noteq> ''owner'' then (True, put_member com pk (m\<lparr>rm_role := role, rm_updated_at := now\<rparr>) d)
               else (False, d)
   | None \<Rightarrow> (False, d))"

definition update_relay_member_role ::
    "db_call \<Rightarrow> nat \<Rightarrow> community_id \<Rightarrow> string \<Rightarrow> string \<Rightarrow> (db_error, bool) db_prog" where
  "update_relay_member_role c k com pk new_role = db_write c k (set_role_unless_owner com pk new_role (qc_now c k))"

section \<open>Ownership\<close>

definition upsert_owner :: "community_id \<Rightarrow> string \<Rightarrow> timestamp \<Rightarrow> tenant_db \<Rightarrow> tenant_db" where
  "upsert_owner com pk now d = (case member_of d com pk of
     Some m \<Rightarrow> put_member com pk (m\<lparr>rm_role := ''owner'', rm_updated_at := now\<rparr>) d
   | None \<Rightarrow> put_member com pk (new_member pk ''owner'' None now) d)"

definition upsert_allowed :: "community_id \<Rightarrow> string \<Rightarrow> tenant_db \<Rightarrow> bool" where
  "upsert_allowed com pk d = (member_of d com pk \<noteq> None \<or> community_exists d com)"

definition demote_other_owners :: "community_id \<Rightarrow> string \<Rightarrow> string \<Rightarrow> timestamp \<Rightarrow> tenant_db \<Rightarrow> tenant_db" where
  "demote_other_owners com pk role now d =
     d\<lparr>td_members := map (\<lambda>((com', pk'), m).
         ((com', pk'), if com' = com \<and> rm_role m = ''owner'' \<and> pk' \<noteq> pk
                       then m\<lparr>rm_role := role, rm_updated_at := now\<rparr> else m)) (td_members d)\<rparr>"

text \<open>The demotion of the other owners at start-up runs at read committed, without a lock: it finds the rows that
  are owners in the snapshot it began with (\<open>seen\<close>), and changes those of them that still are owners.\<close>

definition demote_seen_owners ::
    "tenant_db \<Rightarrow> community_id \<Rightarrow> string \<Rightarrow> string \<Rightarrow> timestamp \<Rightarrow> tenant_db \<Rightarrow> tenant_db" where
  "demote_seen_owners seen com pk role now d =
     d\<lparr>td_members := map (\<lambda>((com', pk'), m).
         ((com', pk'), if com' = com \<and> rm_role m = ''owner'' \<and> pk' \<noteq> pk \<and>
                          map_option rm_role (member_of seen com pk') = Some ''owner''
                       then m\<lparr>rm_role := role, rm_updated_at := now\<rparr> else m)) (td_members d)\<rparr>"

definition bootstrap_tx ::
    "tenant_db \<Rightarrow> community_id \<Rightarrow> string \<Rightarrow> timestamp \<Rightarrow> tenant_db \<Rightarrow> (db_error, unit) result \<times> tenant_db" where
  "bootstrap_tx seen com pk now d =
     (if upsert_allowed com pk d then (Inr (), demote_seen_owners seen com pk ''admin'' now (upsert_owner com pk now d))
      else (Inl FK_VIOLATION, d))"

text \<open>Other sessions may commit before the snapshot, and again before the transaction does.\<close>

definition bootstrap_owner :: "db_call \<Rightarrow> nat \<Rightarrow> community_id \<Rightarrow> string \<Rightarrow> (db_error, unit) db_prog" where
  "bootstrap_owner c k com owner_pubkey d =
     (let seen = qc_between c k d
      in db_exec c (k + 1) (bootstrap_tx seen com (map to_ascii_lower owner_pubkey) (qc_now c k)) seen)"

datatype transfer_result =
  Transferred "string option" | AlreadyOwner | NoOwner | OwnerConflict | TransferLimitReached

definition MAX_COMMUNITIES_PER_OWNER :: int where
  "MAX_COMMUNITIES_PER_OWNER = 5"

text \<open>\<open>str::parse::<i64>\<close>: an optional sign and at least one digit, within range.\<close>

definition parse_i64 :: "string \<Rightarrow> int option" where
  "parse_i64 s =
     (let (sign, digits) = (case s of
          [] \<Rightarrow> (1, [])
        | c # cs \<Rightarrow> if c = CHR ''+'' then (1, cs) else if c = CHR ''-'' then (- 1, cs) else (1 :: int, s));
          v = sign * int (undecimal digits)
      in if digits \<noteq> [] \<and> list_all is_ascii_digit digits \<and> - (2 ^ 63) \<le> v \<and> v < 2 ^ 63 then Some v else None)"

text \<open>The limit, from the value of the environment variable.\<close>

definition effective_owner_limit :: "string option \<Rightarrow> int" where
  "effective_owner_limit raw = (case Option.bind raw (\<lambda>value. parse_i64 (trim value)) of
     Some limit \<Rightarrow> if limit > 0 then limit else MAX_COMMUNITIES_PER_OWNER
   | None \<Rightarrow> MAX_COMMUNITIES_PER_OWNER)"

text \<open>FNV-1a over the bytes of the key.\<close>

definition owner_count_advisory_lock_key :: "string \<Rightarrow> int" where
  "owner_count_advisory_lock_key pk =
     sint (foldl (\<lambda>h b. (xor h (ucast b :: u64)) * 0x100000001b3) (0xcbf29ce484222325 :: u64) (as_bytes pk))"

definition is_owner_row :: "relay_member \<Rightarrow> bool" where
  "is_owner_row m = (rm_role m = ''owner'')"

definition owners_of :: "tenant_db \<Rightarrow> community_id \<Rightarrow> string list" where
  "owners_of d com = map (snd \<circ> fst) (filter (\<lambda>((com', _), m). com' = com \<and> is_owner_row m) (td_members d))"

definition owned_count :: "tenant_db \<Rightarrow> string \<Rightarrow> int" where
  "owned_count d pk = int (length (filter (\<lambda>((_, pk'), m). pk' = pk \<and> is_owner_row m) (td_members d)))"

definition transfer_owner_tx ::
    "int \<Rightarrow> community_id \<Rightarrow> string \<Rightarrow> string \<Rightarrow> timestamp \<Rightarrow> tenant_db \<Rightarrow> (db_error, transfer_result) result \<times> tenant_db" where
  "transfer_owner_tx limit com pk expected now d =
     (let existing = owners_of d com in
      if existing = [] then (Inr NoOwner, d)
      else if \<not> list_ex (\<lambda>p. p = expected) existing then (Inr OwnerConflict, d)
      else if existing = [pk] then (Inr AlreadyOwner, d)
      else
        (let previous = (if length existing = 1 then Some (hd existing) else List.find (\<lambda>p. p \<noteq> pk) existing)
         in if owned_count d pk \<ge> limit then (Inr TransferLimitReached, d)
            else if \<not> upsert_allowed com pk d then (Inl FK_VIOLATION, d)
            else (Inr (Transferred previous), demote_other_owners com pk ''member'' now (upsert_owner com pk now d))))"

definition transfer_ownership ::
    "int \<Rightarrow> db_call \<Rightarrow> nat \<Rightarrow> community_id \<Rightarrow> string \<Rightarrow> string \<Rightarrow> (db_error, transfer_result) db_prog" where
  "transfer_ownership limit c k com new_owner expected_owner =
     db_exec c k (transfer_owner_tx limit com (map to_ascii_lower new_owner) (map to_ascii_lower expected_owner) (qc_now c k))"

text \<open>The rows of the old allowlist, as members, when the community has none yet.\<close>

fun insert_all :: "(string \<times> timestamp) list \<Rightarrow> community_id \<Rightarrow> nat \<Rightarrow> tenant_db \<Rightarrow> (db_error, nat) result \<times> tenant_db" where
  "insert_all [] com n d = (Inr n, d)"
| "insert_all ((pk, added_at) # rows) com n d = (case insert_member com pk ''member'' None added_at d of
     (Inl e, d1) \<Rightarrow> (Inl e, d1)
   | (Inr inserted, d1) \<Rightarrow> insert_all rows com (if inserted then n + 1 else n) d1)"

definition allowlist_rows :: "nostr_lib \<Rightarrow> community_id \<Rightarrow> tenant_db \<Rightarrow> (string \<times> timestamp) list" where
  "allowlist_rows lib com d = map (\<lambda>((_, pk), added_at). (hex_encode lib pk, added_at))
     (filter (\<lambda>((com', _), _). com' = com) (case td_allowlist d of Some rows \<Rightarrow> rows | None \<Rightarrow> []))"

text \<open>A statement that fails leaves nothing behind.\<close>

definition backfill_rows :: "nostr_lib \<Rightarrow> community_id \<Rightarrow> tenant_db \<Rightarrow> (db_error, nat) result \<times> tenant_db" where
  "backfill_rows lib com d = (case insert_all (allowlist_rows lib com d) com 0 d of
     (Inl e, _) \<Rightarrow> (Inl e, d)
   | (Inr n, d1) \<Rightarrow> (Inr n, d1))"

definition backfill_from_allowlist :: "nostr_lib \<Rightarrow> db_call \<Rightarrow> nat \<Rightarrow> community_id \<Rightarrow> (db_error, nat) db_prog" where
  "backfill_from_allowlist lib c k com =
     db_bind (db_read c k (\<lambda>d. td_allowlist d \<noteq> None)) (\<lambda>exists.
       if \<not> exists then db_return 0
       else db_bind (db_read c (k + 1) (\<lambda>d. list_ex (\<lambda>((com', _), m). com' = com) (td_members d))) (\<lambda>has_members.
         if has_members then db_return 0
         else db_exec c (k + 2) (backfill_rows lib com)))"

section \<open>Communities\<close>

definition lower :: "string \<Rightarrow> string" where
  "lower s = map to_ascii_lower s"

definition active_row :: "community_row \<Rightarrow> bool" where
  "active_row r = (cr_archived_at r = None \<and> cr_deleted_at r = None \<and> cr_deletion_state r = ''active'')"

definition find_host :: "(community_row \<Rightarrow> bool) \<Rightarrow> string \<Rightarrow> tenant_db \<Rightarrow> (community_id \<times> community_row) option" where
  "find_host ok host d = List.find (\<lambda>(_, r). lower (cr_host r) = lower host \<and> ok r) (td_communities d)"

definition lookup_community_by_host ::
    "db_call \<Rightarrow> nat \<Rightarrow> string \<Rightarrow> (db_error, (community_id \<times> string) option) db_prog" where
  "lookup_community_by_host c k host = db_read c k (\<lambda>d.
     map_option (\<lambda>(com, r). (com, cr_host r)) (find_host active_row host d))"

definition is_community_active :: "db_call \<Rightarrow> nat \<Rightarrow> community_id \<Rightarrow> (db_error, bool) db_prog" where
  "is_community_active c k com = db_read c k (\<lambda>d.
     case map_of (td_communities d) com of Some r \<Rightarrow> active_row r | None \<Rightarrow> False)"

definition lookup_community_by_host_for_management ::
    "db_call \<Rightarrow> nat \<Rightarrow> string \<Rightarrow> (db_error, (community_id \<times> string) option) db_prog" where
  "lookup_community_by_host_for_management c k host = db_read c k (\<lambda>d.
     map_option (\<lambda>(com, r). (com, cr_host r)) (find_host (\<lambda>_. True) host d))"

definition lookup_community_host :: "db_call \<Rightarrow> nat \<Rightarrow> community_id \<Rightarrow> (db_error, string option) db_prog" where
  "lookup_community_host c k com = db_read c k (\<lambda>d. case map_of (td_communities d) com of
     Some r \<Rightarrow> if active_row r then Some (cr_host r) else None
   | None \<Rightarrow> None)"

definition get_community_icon :: "db_call \<Rightarrow> nat \<Rightarrow> community_id \<Rightarrow> (db_error, string option) db_prog" where
  "get_community_icon c k com = db_read c k (\<lambda>d. case Option.bind (map_of (td_communities d) com) cr_icon of
     Some icon \<Rightarrow> if icon = [] then None else Some icon
   | None \<Rightarrow> None)"

definition set_community_icon ::
    "db_call \<Rightarrow> nat \<Rightarrow> community_id \<Rightarrow> string option \<Rightarrow> (db_error, unit) db_prog" where
  "set_community_icon c k com icon = db_write c k (\<lambda>d. ((),
     case map_of (td_communities d) com of
       Some r \<Rightarrow> d\<lparr>td_communities := AList.update com (r\<lparr>cr_icon := icon\<rparr>) (td_communities d)\<rparr>
     | None \<Rightarrow> d))"

definition new_community :: "string \<Rightarrow> timestamp \<Rightarrow> community_row" where
  "new_community host now =
     \<lparr>cr_host = host, cr_icon = None, cr_created_at = now, cr_archived_at = None,
      cr_deletion_state = ''active'', cr_deleted_at = None\<rparr>"

text \<open>An identifier that is taken violates the primary key.\<close>

definition insert_community ::
    "uuid \<Rightarrow> string \<Rightarrow> timestamp \<Rightarrow> tenant_db \<Rightarrow> (db_error, community_id) result \<times> tenant_db" where
  "insert_community com host now d =
     (if map_of (td_communities d) com \<noteq> None then (Inl ''duplicate key value violates unique constraint'', d)
      else (Inr com, d\<lparr>td_communities := AList.update com (new_community host now) (td_communities d)\<rparr>))"

text \<open>The debug form of a text, without its escapes.\<close>

definition quoted :: "string \<Rightarrow> string" where
  "quoted s = [CHR 0x22] @ s @ [CHR 0x22]"

definition ensure_configured_community ::
    "db_call \<Rightarrow> nat \<Rightarrow> string \<Rightarrow> (db_error, community_id \<times> string \<times> bool) db_prog" where
  "ensure_configured_community c k host = db_exec c k (\<lambda>d. case find_host (\<lambda>_. True) host d of
     Some (com, r) \<Rightarrow>
       if cr_deletion_state r = ''active'' \<and> cr_deleted_at r = None then (Inr (com, cr_host r, False), d)
       else (Inl (''access denied: community host '' @ quoted host @ '' is permanently tombstoned''), d)
   | None \<Rightarrow>
       (case insert_community (qc_uuid c k) host (qc_now c k) d of
          (Inl e, d1) \<Rightarrow> (Inl e, d1)
        | (Inr com, d1) \<Rightarrow> (Inr (com, host, True), d1)))"

datatype create_result = Created community_id string | HostExists | CreateLimitReached

text \<open>A rolled back transaction leaves the tables as they were.\<close>

definition create_community_tx ::
    "int \<Rightarrow> uuid \<Rightarrow> string \<Rightarrow> string \<Rightarrow> timestamp \<Rightarrow> tenant_db \<Rightarrow> (db_error, create_result) result \<times> tenant_db" where
  "create_community_tx limit nid host pk now d = (case find_host (\<lambda>_. True) host d of
     None \<Rightarrow>
       (case insert_community nid host now d of
          (Inl e, _) \<Rightarrow> (Inl e, d)
        | (Inr com, d1) \<Rightarrow>
            if owned_count d1 pk \<ge> limit then (Inr CreateLimitReached, d)
            else (case insert_member com pk ''owner'' None now d1 of
                (Inr True, d2) \<Rightarrow> (Inr (Created com host), d2)
              | (Inl e, _) \<Rightarrow> (Inl e, d)
              | (Inr False, _) \<Rightarrow> (Inl ''duplicate key value violates unique constraint'', d)))
   | Some _ \<Rightarrow>
       (case find_host active_row host d of
          Some (com, r) \<Rightarrow>
            if list_ex (\<lambda>((com', pk'), m). com' = com \<and> lower pk' = lower pk \<and> is_owner_row m) (td_members d)
            then (Inr (Created com (cr_host r)), d) else (Inr HostExists, d)
        | None \<Rightarrow> (Inr HostExists, d)))"

definition create_community_with_owner ::
    "int \<Rightarrow> db_call \<Rightarrow> nat \<Rightarrow> string \<Rightarrow> string \<Rightarrow> (db_error, create_result) db_prog" where
  "create_community_with_owner limit c k host owner =
     db_exec c k (create_community_tx limit (qc_uuid c k) host (map to_ascii_lower owner) (qc_now c k))"

text \<open>The row of the host, when the key is its owner.\<close>

definition owned_row ::
    "(community_row \<Rightarrow> bool) \<Rightarrow> string \<Rightarrow> string \<Rightarrow> tenant_db \<Rightarrow> (community_id \<times> community_row) option" where
  "owned_row ok host pk d = List.find (\<lambda>(com, r). lower (cr_host r) = lower host \<and> ok r \<and>
       list_ex (\<lambda>((com', pk'), m). com' = com \<and> lower pk' = lower pk \<and> is_owner_row m) (td_members d))
     (td_communities d)"

definition not_deleted :: "community_row \<Rightarrow> bool" where
  "not_deleted r = (cr_deletion_state r = ''active'' \<and> cr_deleted_at r = None)"

definition archive_community_owned_by ::
    "db_call \<Rightarrow> nat \<Rightarrow> string \<Rightarrow> string \<Rightarrow> string \<Rightarrow> (db_error, (community_id \<times> string \<times> timestamp) option) db_prog" where
  "archive_community_owned_by c k host pk protected = db_write c k (\<lambda>d.
     case owned_row (\<lambda>r. lower (cr_host r) \<noteq> lower protected \<and> not_deleted r) host pk d of
       None \<Rightarrow> (None, d)
     | Some (com, r) \<Rightarrow>
         (let at = (case cr_archived_at r of Some t \<Rightarrow> t | None \<Rightarrow> qc_now c k)
          in (Some (com, cr_host r, at),
              d\<lparr>td_communities := AList.update com (r\<lparr>cr_archived_at := Some at\<rparr>) (td_communities d)\<rparr>)))"

definition unarchive_community_owned_by ::
    "db_call \<Rightarrow> nat \<Rightarrow> string \<Rightarrow> string \<Rightarrow> (db_error, (community_id \<times> string) option) db_prog" where
  "unarchive_community_owned_by c k host pk = db_write c k (\<lambda>d.
     case owned_row not_deleted host pk d of
       None \<Rightarrow> (None, d)
     | Some (com, r) \<Rightarrow>
         (Some (com, cr_host r),
          d\<lparr>td_communities := AList.update com (r\<lparr>cr_archived_at := None\<rparr>) (td_communities d)\<rparr>))"

end
