(* ===== verification/Moderation.thy ===== *)
theory Moderation
  imports Roster
begin

text \<open>
  Moderation: reports, bans, timeouts and the record of actions (\<open>crates/punks-db/src/moderation.rs\<close>), who
  may moderate whom (\<open>crates/punks-relay/src/handlers/moderation_authz.rs\<close>), and the commands of kinds 9040
  to 9044 (\<open>crates/punks-relay/src/handlers/moderation_commands.rs\<close>).

  Hexadecimal text, the range of \<open>chrono\<close>'s times and the query for a role in a channel are the parameter
  record \<open>moderation_env\<close>.  Closing the connections of a banned key and the notices sent to members are
  the effects of an accepted command; a notice that cannot be sent is only logged.
\<close>

section \<open>Reports\<close>

record new_report =
  nr_report_event_id :: bytes
  nr_reporter_pubkey :: bytes
  nr_target :: report_target
  nr_channel_id :: "channel_id option"
  nr_report_type :: string
  nr_note :: "string option"

definition report_by_event :: "community_id \<Rightarrow> bytes \<Rightarrow> tenant_db \<Rightarrow> (uuid \<times> report_record) option" where
  "report_by_event com eid d = map_option (\<lambda>((_, i), r). (i, r))
     (List.find (\<lambda>((com', _), r). com' = com \<and> rr_report_event_id r = eid) (td_reports d))"

definition insert_report :: "db_call \<Rightarrow> nat \<Rightarrow> community_id \<Rightarrow> new_report \<Rightarrow> (db_error, uuid) db_prog" where
  "insert_report c k com nr = db_exec c k (\<lambda>d. case report_by_event com (nr_report_event_id nr) d of
     Some (i, _) \<Rightarrow> (Inr i, d)
   | None \<Rightarrow>
       if map_of (td_reports d) (com, qc_uuid c k) \<noteq> None
       then (Inl ''duplicate key value violates unique constraint'', d)
       else (Inr (qc_uuid c k), d\<lparr>td_reports := AList.update (com, qc_uuid c k)
          \<lparr>rr_report_event_id = nr_report_event_id nr, rr_reporter_pubkey = nr_reporter_pubkey nr, rr_target = nr_target nr,
           rr_channel_id = nr_channel_id nr, rr_report_type = nr_report_type nr, rr_note = nr_note nr, rr_status = ''open'',
           rr_resolved_by = None, rr_resolved_at = None, rr_action_id = None, rr_created_at = qc_now c k\<rparr> (td_reports d)\<rparr>))"

definition list_reports ::
    "db_call \<Rightarrow> nat \<Rightarrow> community_id \<Rightarrow> string option \<Rightarrow> nat \<Rightarrow> (db_error, (uuid \<times> report_record) list) db_prog" where
  "list_reports c k com status limit = db_read c k (\<lambda>d.
     take limit (rev (sort_key (\<lambda>(_, r). rr_created_at r)
       (map (\<lambda>((_, i), r). (i, r)) (filter (\<lambda>((com', _), r).
          com' = com \<and> (case status of None \<Rightarrow> True | Some s \<Rightarrow> rr_status r = s)) (td_reports d))))))"

definition get_report :: "db_call \<Rightarrow> nat \<Rightarrow> community_id \<Rightarrow> uuid \<Rightarrow> (db_error, report_record option) db_prog" where
  "get_report c k com i = db_read c k (\<lambda>d. map_of (td_reports d) (com, i))"

definition get_report_by_event ::
    "db_call \<Rightarrow> nat \<Rightarrow> community_id \<Rightarrow> bytes \<Rightarrow> (db_error, (uuid \<times> report_record) option) db_prog" where
  "get_report_by_event c k com eid = db_read c k (report_by_event com eid)"

definition close_report ::
    "community_id \<Rightarrow> uuid \<Rightarrow> string \<Rightarrow> bytes \<Rightarrow> uuid option \<Rightarrow> timestamp \<Rightarrow> tenant_db \<Rightarrow> bool \<times> tenant_db" where
  "close_report com i status resolved_by action_id now d = (case map_of (td_reports d) (com, i) of
     Some r \<Rightarrow>
       if rr_status r = ''open'' then
         (True, d\<lparr>td_reports := AList.update (com, i)
            (r\<lparr>rr_status := status, rr_resolved_by := Some resolved_by, rr_resolved_at := Some now,
               rr_action_id := action_id\<rparr>) (td_reports d)\<rparr>)
       else (False, d)
   | None \<Rightarrow> (False, d))"

definition resolve_report ::
    "db_call \<Rightarrow> nat \<Rightarrow> community_id \<Rightarrow> uuid \<Rightarrow> string \<Rightarrow> bytes \<Rightarrow> uuid option \<Rightarrow> (db_error, bool) db_prog" where
  "resolve_report c k com i status resolved_by action_id =
     db_write c k (close_report com i status resolved_by action_id (qc_now c k))"

section \<open>Bans and timeouts\<close>

definition put_ban :: "community_id \<Rightarrow> bytes \<Rightarrow> ban_row \<Rightarrow> tenant_db \<Rightarrow> tenant_db" where
  "put_ban com pk b d = d\<lparr>td_bans := AList.update (com, pk) b (td_bans d)\<rparr>"

definition blank_ban :: "bytes \<Rightarrow> timestamp \<Rightarrow> ban_row" where
  "blank_ban actor now =
     \<lparr>br_banned = False, br_ban_expires_at = None, br_ban_reason = None, br_muted_until = None,
      br_mute_reason = None, br_actor_pubkey = actor, br_updated_at = now\<rparr>"

definition ban_or_blank :: "community_id \<Rightarrow> bytes \<Rightarrow> bytes \<Rightarrow> timestamp \<Rightarrow> tenant_db \<Rightarrow> ban_row" where
  "ban_or_blank com pk actor now d = (case map_of (td_bans d) (com, pk) of Some b \<Rightarrow> b | None \<Rightarrow> blank_ban actor now)"

definition ban_member ::
    "db_call \<Rightarrow> nat \<Rightarrow> community_id \<Rightarrow> bytes \<Rightarrow> bytes \<Rightarrow> string option \<Rightarrow> int option \<Rightarrow> (db_error, unit) db_prog" where
  "ban_member c k com pk actor reason expires_at = db_write c k (\<lambda>d. ((),
     put_ban com pk ((ban_or_blank com pk actor (qc_now c k) d)
       \<lparr>br_banned := True, br_ban_expires_at := expires_at, br_ban_reason := reason,
        br_actor_pubkey := actor, br_updated_at := qc_now c k\<rparr>) d))"

definition lift_ban :: "community_id \<Rightarrow> bytes \<Rightarrow> bytes \<Rightarrow> timestamp \<Rightarrow> tenant_db \<Rightarrow> bool \<times> tenant_db" where
  "lift_ban com pk actor now d = (case map_of (td_bans d) (com, pk) of
     Some b \<Rightarrow>
       if br_banned b then
         (True, put_ban com pk (b\<lparr>br_banned := False, br_ban_expires_at := None, br_ban_reason := None,
            br_actor_pubkey := actor, br_updated_at := now\<rparr>) d)
       else (False, d)
   | None \<Rightarrow> (False, d))"

definition unban_member :: "db_call \<Rightarrow> nat \<Rightarrow> community_id \<Rightarrow> bytes \<Rightarrow> bytes \<Rightarrow> (db_error, bool) db_prog" where
  "unban_member c k com pk actor = db_write c k (lift_ban com pk actor (qc_now c k))"

definition timeout_member ::
    "db_call \<Rightarrow> nat \<Rightarrow> community_id \<Rightarrow> bytes \<Rightarrow> bytes \<Rightarrow> int \<Rightarrow> string option \<Rightarrow> (db_error, unit) db_prog" where
  "timeout_member c k com pk actor muted_until reason = db_write c k (\<lambda>d. ((),
     put_ban com pk ((ban_or_blank com pk actor (qc_now c k) d)
       \<lparr>br_muted_until := Some muted_until, br_mute_reason := reason,
        br_actor_pubkey := actor, br_updated_at := qc_now c k\<rparr>) d))"

definition future :: "timestamp \<Rightarrow> int option \<Rightarrow> bool" where
  "future now t = (case t of Some u \<Rightarrow> u > int now | None \<Rightarrow> False)"

definition lift_timeout :: "community_id \<Rightarrow> bytes \<Rightarrow> bytes \<Rightarrow> timestamp \<Rightarrow> tenant_db \<Rightarrow> bool \<times> tenant_db" where
  "lift_timeout com pk actor now d = (case map_of (td_bans d) (com, pk) of
     Some b \<Rightarrow>
       if future now (br_muted_until b) then
         (True, put_ban com pk (b\<lparr>br_muted_until := None, br_mute_reason := None,
            br_actor_pubkey := actor, br_updated_at := now\<rparr>) d)
       else (False, d)
   | None \<Rightarrow> (False, d))"

definition untimeout_member :: "db_call \<Rightarrow> nat \<Rightarrow> community_id \<Rightarrow> bytes \<Rightarrow> bytes \<Rightarrow> (db_error, bool) db_prog" where
  "untimeout_member c k com pk actor = db_write c k (lift_timeout com pk actor (qc_now c k))"

record restriction_state =
  rx_banned :: bool
  rx_muted_until :: "int option"

definition ban_active :: "timestamp \<Rightarrow> ban_row \<Rightarrow> bool" where
  "ban_active now b = (br_banned b \<and> (br_ban_expires_at b = None \<or> future now (br_ban_expires_at b)))"

definition restriction_at :: "timestamp \<Rightarrow> community_id \<Rightarrow> bytes \<Rightarrow> tenant_db \<Rightarrow> restriction_state" where
  "restriction_at now com pk d = (case map_of (td_bans d) (com, pk) of
     Some b \<Rightarrow> \<lparr>rx_banned = ban_active now b,
                rx_muted_until = (if future now (br_muted_until b) then br_muted_until b else None)\<rparr>
   | None \<Rightarrow> \<lparr>rx_banned = False, rx_muted_until = None\<rparr>)"

definition moderation_restriction_state ::
    "db_call \<Rightarrow> nat \<Rightarrow> community_id \<Rightarrow> bytes \<Rightarrow> (db_error, restriction_state) db_prog" where
  "moderation_restriction_state c k com pk = db_read c k (restriction_at (qc_now c k) com pk)"

text \<open>A row as it is read back: the flag tells whether the ban is in force.\<close>

definition ban_view :: "timestamp \<Rightarrow> ban_row \<Rightarrow> ban_row" where
  "ban_view now b = b\<lparr>br_banned := ban_active now b\<rparr>"

definition get_ban :: "db_call \<Rightarrow> nat \<Rightarrow> community_id \<Rightarrow> bytes \<Rightarrow> (db_error, ban_row option) db_prog" where
  "get_ban c k com pk = db_read c k (\<lambda>d. map_option (ban_view (qc_now c k)) (map_of (td_bans d) (com, pk)))"

definition list_restricted :: "db_call \<Rightarrow> nat \<Rightarrow> community_id \<Rightarrow> (db_error, (bytes \<times> ban_row) list) db_prog" where
  "list_restricted c k com = db_read c k (\<lambda>d.
     rev (sort_key (\<lambda>(_, b). br_updated_at b) (map (\<lambda>((_, pk), b). (pk, ban_view (qc_now c k) b))
       (filter (\<lambda>((com', _), b). com' = com \<and> (ban_active (qc_now c k) b \<or> future (qc_now c k) (br_muted_until b)))
         (td_bans d)))))"

section \<open>The record of actions\<close>

definition MODERATION_ACTION_CHECK_VOCAB :: "string list" where
  "MODERATION_ACTION_CHECK_VOCAB =
     [''delete_message'', ''kick'', ''ban'', ''unban'', ''timeout'', ''untimeout'', ''dismiss_report'', ''escalate'',
      ''resolve:delete'', ''resolve:kick'', ''resolve:ban'', ''resolve:timeout'']"

text \<open>The table refuses an action outside of the vocabulary and an identifier that is taken.\<close>

definition insert_action :: "db_call \<Rightarrow> nat \<Rightarrow> community_id \<Rightarrow> action_record \<Rightarrow> (db_error, uuid) db_prog" where
  "insert_action c k com a = db_exec c k (\<lambda>d.
     if ar_action a \<notin> set MODERATION_ACTION_CHECK_VOCAB then (Inl ''new row violates check constraint'', d)
     else if map_of (td_actions d) (com, qc_uuid c k) \<noteq> None
     then (Inl ''duplicate key value violates unique constraint'', d)
     else (Inr (qc_uuid c k),
           d\<lparr>td_actions := AList.update (com, qc_uuid c k) (a\<lparr>ar_created_at := qc_now c k\<rparr>) (td_actions d)\<rparr>))"

definition list_actions :: "db_call \<Rightarrow> nat \<Rightarrow> community_id \<Rightarrow> nat \<Rightarrow> (db_error, (uuid \<times> action_record) list) db_prog" where
  "list_actions c k com limit = db_read c k (\<lambda>d.
     take limit (rev (sort_key (\<lambda>(_, a). ar_created_at a)
       (map (\<lambda>((_, i), a). (i, a)) (filter (\<lambda>((com', _), a). com' = com) (td_actions d))))))"

section \<open>Authority\<close>

datatype moderation_action =
  DeleteMessage | Kick | Ban | Unban | Timeout | Untimeout | ResolveReport | ViewQueue

datatype moderation_target = TargetEvent bytes | TargetPubkey bytes | TargetNone

datatype moderation_authority = CommunityOwner | CommunityAdmin | ChannelRole

record moderation_env =
  me_nostr :: nostr_lib
  me_hex_decode :: "string \<Rightarrow> bytes option"
  me_timestamp_opt :: "int \<Rightarrow> int option"
  me_member_role :: "tenant_db \<Rightarrow> community_id \<Rightarrow> channel_id \<Rightarrow> bytes \<Rightarrow> string option"

definition decide_authority ::
    "string option \<Rightarrow> string option \<Rightarrow> string option \<Rightarrow> moderation_action \<Rightarrow> (string, moderation_authority) result" where
  "decide_authority actor_role target_role channel_role action =
     (if actor_role = Some ''owner'' then Inr CommunityOwner
      else if actor_role = Some ''admin'' then
        (if (action = Ban \<or> action = Timeout) \<and> (target_role = Some ''owner'' \<or> target_role = Some ''admin'')
         then Inl ''an admin cannot ban or time out a community owner or fellow admin''
         else Inr CommunityAdmin)
      else if (action = DeleteMessage \<or> action = Kick) \<and> (channel_role = Some ''owner'' \<or> channel_role = Some ''admin'')
      then Inr ChannelRole
      else Inl ''moderator access required'')"

text \<open>Three steps at most; a role that the decision does not need is not read.\<close>

definition authorize_moderation_action ::
    "moderation_env \<Rightarrow> db_call \<Rightarrow> nat \<Rightarrow> community_id \<Rightarrow> bytes \<Rightarrow> channel_id option \<Rightarrow> moderation_target \<Rightarrow> moderation_action \<Rightarrow>
     (string, moderation_authority) db_prog" where
  "authorize_moderation_action env c k com actor ch target action =
     db_bind (get_relay_member c k com (hex_encode (me_nostr env) actor)) (\<lambda>member.
     (let actor_role = map_option rm_role member in
      db_bind
        (if actor_role = Some ''admin'' \<and> (action = Ban \<or> action = Timeout) then
           (case target of
              TargetPubkey pk \<Rightarrow>
                db_bind (get_relay_member c (k + 1) com (hex_encode (me_nostr env) pk)) (\<lambda>m. db_return (map_option rm_role m))
            | _ \<Rightarrow> db_return None)
         else db_return None) (\<lambda>target_role.
      db_bind
        (if actor_role = Some ''owner'' \<or> actor_role = Some ''admin'' then db_return None
         else (case ch of
             Some chid \<Rightarrow>
               if action = DeleteMessage \<or> action = Kick
               then db_read c (k + 2) (\<lambda>d. me_member_role env d com chid actor) else db_return None
           | None \<Rightarrow> db_return None)) (\<lambda>channel_role.
      db_lift (decide_authority actor_role target_role channel_role action)))))"

section \<open>Tags\<close>

definition extract_tag_value :: "event \<Rightarrow> string \<Rightarrow> string option" where
  "extract_tag_value e name = (case List.find (\<lambda>t. t \<noteq> [] \<and> hd t = name) (ev_tags e) of
     Some t \<Rightarrow> (case t of _ # v # _ \<Rightarrow> Some v | _ \<Rightarrow> None)
   | None \<Rightarrow> None)"

text \<open>The first tag of that name whose value is 64 hexadecimal digits.\<close>

definition is_hex64 :: "string \<Rightarrow> bool" where
  "is_hex64 s = (length s = 64 \<and> list_all is_ascii_hexdigit s)"

fun first_hex64 :: "string \<Rightarrow> tag list \<Rightarrow> string option" where
  "first_hex64 name [] = None"
| "first_hex64 name (t # ts) = (case t of
     n # v # _ \<Rightarrow> if n = name \<and> is_hex64 v then Some v else first_hex64 name ts
   | _ \<Rightarrow> first_hex64 name ts)"

definition extract_p_tag_bytes :: "moderation_env \<Rightarrow> event \<Rightarrow> bytes option" where
  "extract_p_tag_bytes env e = Option.bind (first_hex64 ''p'' (ev_tags e)) (me_hex_decode env)"

definition extract_report_tag :: "moderation_env \<Rightarrow> event \<Rightarrow> bytes option" where
  "extract_report_tag env e = Option.bind (first_hex64 ''report'' (ev_tags e)) (me_hex_decode env)"

definition show_int :: "int \<Rightarrow> string" where
  "show_int i = (if i < 0 then ''-'' @ decimal (nat (- i)) else decimal (nat i))"

definition invalid :: "string \<Rightarrow> string" where
  "invalid message = ''invalid: '' @ message"

definition error_text :: "string \<Rightarrow> string" where
  "error_text message = ''error: '' @ message"

definition authz_denial :: "string \<Rightarrow> string" where
  "authz_denial e = ''restricted: '' @ e"

definition db_denial :: "string \<Rightarrow> string" where
  "db_denial e = error_text (''database error: '' @ e)"

definition extract_expiration :: "moderation_env \<Rightarrow> event \<Rightarrow> (string, int option) result" where
  "extract_expiration env e = (case extract_tag_value e ''expiration'' of
     None \<Rightarrow> Inr None
   | Some raw \<Rightarrow> (case parse_i64 raw of
       None \<Rightarrow> Inl (invalid (''invalid expiration tag: '' @ raw))
     | Some secs \<Rightarrow> (case me_timestamp_opt env secs of
         Some ts \<Rightarrow> Inr (Some ts)
       | None \<Rightarrow> Inl (invalid (''expiration out of range: '' @ show_int secs)))))"

section \<open>Commands\<close>

datatype moderation_effect =
    Disconnect bytes string string
  | RestrictionNotice bytes uuid string string
  | ReportResolvedNotice bytes uuid string string

definition MAX_COMMAND_SKEW_SECS :: int where
  "MAX_COMMAND_SKEW_SECS = 120"

text \<open>Arithmetic on \<open>i64\<close> in a release build: results wrap around.\<close>

definition i64_wrap :: "int \<Rightarrow> int" where
  "i64_wrap x = (x + 2 ^ 63) mod 2 ^ 64 - 2 ^ 63"

definition event_skew :: "event \<Rightarrow> timestamp \<Rightarrow> int" where
  "event_skew e now = i64_wrap (as_i64 (ev_created_at e) - as_i64 now)"

definition command_stale :: "event \<Rightarrow> timestamp \<Rightarrow> bool" where
  "command_stale e now = (i64_wrap \<bar>event_skew e now\<bar> > MAX_COMMAND_SKEW_SECS)"

definition stale_text :: "event \<Rightarrow> timestamp \<Rightarrow> string" where
  "stale_text e now =
     ''event timestamp out of range: created_at='' @ show_int (as_i64 (ev_created_at e)) @ '', now='' @ show_int (as_i64 now) @
     '', delta='' @ show_int (event_skew e now) @ ''s (max '' @ [CHR 0xC2, CHR 0xB1] @ show_int MAX_COMMAND_SKEW_SECS @ ''s)''"

definition ensure_actor_not_banned :: "restriction_state \<Rightarrow> (string, unit) result" where
  "ensure_actor_not_banned r = guard (\<not> rx_banned r) ''blocked: you are banned from this community''"

definition insert_audit ::
    "db_call \<Rightarrow> nat \<Rightarrow> community_id \<Rightarrow> bytes \<Rightarrow> string \<Rightarrow> bytes option \<Rightarrow> bytes option \<Rightarrow> string option \<Rightarrow> (string, uuid) db_prog" where
  "insert_audit c k com actor action target_pubkey target_event public_reason =
     db_map_err (\<lambda>e. error_text (''failed to write audit row: '' @ e)) (insert_action c k com
       \<lparr>ar_actor_pubkey = actor, ar_action = action, ar_target_pubkey = target_pubkey, ar_target_event_id = target_event,
        ar_channel_id = None, ar_reason_code = None, ar_public_reason = public_reason, ar_private_reason = None,
        ar_matched_principal = None, ar_created_at = 0\<rparr>)"

definition or_invalid :: "string \<Rightarrow> 'a option \<Rightarrow> (string, 'a) result" where
  "or_invalid message x = (case x of Some v \<Rightarrow> Inr v | None \<Rightarrow> Inl (invalid message))"

definition reason_text :: "string option \<Rightarrow> string" where
  "reason_text reason = (case reason of Some r \<Rightarrow> r | None \<Rightarrow> [])"

definition handle_ban ::
    "moderation_env \<Rightarrow> db_call \<Rightarrow> nat \<Rightarrow> community_id \<Rightarrow> event \<Rightarrow> bytes \<Rightarrow> (string, moderation_effect list) db_prog" where
  "handle_ban env c k com e actor =
     db_bind (db_lift (or_invalid ''missing or invalid p tag'' (extract_p_tag_bytes env e))) (\<lambda>target.
     db_bind (db_lift (extract_expiration env e)) (\<lambda>expires_at.
     (let reason = extract_tag_value e ''reason'' in
      db_bind (db_map_err authz_denial (authorize_moderation_action env c k com actor None (TargetPubkey target) Ban)) (\<lambda>_.
      db_bind (db_map_err db_denial (ban_member c (k + 3) com target actor reason expires_at)) (\<lambda>_.
      db_bind (insert_audit c (k + 4) com actor ''ban'' (Some target) None reason) (\<lambda>action_id.
      db_return [Disconnect target (id_to_hex (me_nostr env) (ev_id e)) ''blocked: you are banned from this community'',
                 RestrictionNotice target action_id ''ban'' (reason_text reason)]))))))"

definition handle_unban ::
    "moderation_env \<Rightarrow> db_call \<Rightarrow> nat \<Rightarrow> community_id \<Rightarrow> event \<Rightarrow> bytes \<Rightarrow> (string, moderation_effect list) db_prog" where
  "handle_unban env c k com e actor =
     db_bind (db_lift (or_invalid ''missing or invalid p tag'' (extract_p_tag_bytes env e))) (\<lambda>target.
     db_bind (db_map_err authz_denial (authorize_moderation_action env c k com actor None (TargetPubkey target) Unban)) (\<lambda>_.
     db_bind (db_map_err db_denial (unban_member c (k + 3) com target actor)) (\<lambda>lifted.
     if \<not> lifted then db_fail (invalid ''member is not banned'')
     else db_bind (insert_audit c (k + 4) com actor ''unban'' (Some target) None None) (\<lambda>_. db_return []))))"

definition handle_timeout ::
    "moderation_env \<Rightarrow> db_call \<Rightarrow> nat \<Rightarrow> community_id \<Rightarrow> event \<Rightarrow> bytes \<Rightarrow> (string, moderation_effect list) db_prog" where
  "handle_timeout env c k com e actor =
     db_bind (db_lift (or_invalid ''missing or invalid p tag'' (extract_p_tag_bytes env e))) (\<lambda>target.
     db_bind (db_lift (and_then (extract_expiration env e) (or_invalid ''timeout requires an expiration tag''))) (\<lambda>muted_until.
     (let reason = extract_tag_value e ''reason'' in
      db_bind (db_map_err authz_denial (authorize_moderation_action env c k com actor None (TargetPubkey target) Timeout)) (\<lambda>_.
      db_bind (db_map_err db_denial (timeout_member c (k + 3) com target actor muted_until reason)) (\<lambda>_.
      db_bind (insert_audit c (k + 4) com actor ''timeout'' (Some target) None reason) (\<lambda>action_id.
      db_return [RestrictionNotice target action_id ''timeout'' (reason_text reason)]))))))"

definition handle_untimeout ::
    "moderation_env \<Rightarrow> db_call \<Rightarrow> nat \<Rightarrow> community_id \<Rightarrow> event \<Rightarrow> bytes \<Rightarrow> (string, moderation_effect list) db_prog" where
  "handle_untimeout env c k com e actor =
     db_bind (db_lift (or_invalid ''missing or invalid p tag'' (extract_p_tag_bytes env e))) (\<lambda>target.
     db_bind (db_map_err authz_denial (authorize_moderation_action env c k com actor None (TargetPubkey target) Untimeout)) (\<lambda>_.
     db_bind (db_map_err db_denial (untimeout_member c (k + 3) com target actor)) (\<lambda>cleared.
     if \<not> cleared then db_fail (invalid ''member is not timed out'')
     else db_bind (insert_audit c (k + 4) com actor ''untimeout'' (Some target) None None) (\<lambda>_. db_return []))))"

definition resolution_audit_action :: "string \<Rightarrow> string" where
  "resolution_audit_action action =
     (if action = ''dismiss'' then ''dismiss_report''
      else if action = ''escalate'' then ''escalate''
      else if action = ''delete'' then ''resolve:delete''
      else if action = ''kick'' then ''resolve:kick''
      else if action = ''ban'' then ''resolve:ban''
      else if action = ''timeout'' then ''resolve:timeout''
      else ''resolve:unknown'')"

definition RESOLVE_ACTIONS :: "string list" where
  "RESOLVE_ACTIONS = [''delete'', ''kick'', ''ban'', ''timeout'', ''dismiss'', ''escalate'']"

definition resolve_vocabulary :: "string \<Rightarrow> string \<Rightarrow> (string, unit) result" where
  "resolve_vocabulary status action =
     (if status \<noteq> ''resolved'' \<and> status \<noteq> ''dismissed''
      then Inl (invalid (''invalid status: '' @ status @ '' (expect resolved|dismissed)''))
      else if action \<notin> set RESOLVE_ACTIONS
      then Inl (invalid (''invalid action: '' @ action @ '' (expect delete|kick|ban|timeout|dismiss|escalate)''))
      else if (action = ''dismiss'') \<noteq> (status = ''dismissed'')
      then Inl (invalid ''action `dismiss` pairs only with status `dismissed`'')
      else Inr ())"

definition NOT_OPEN :: string where
  "NOT_OPEN = ''report is not open (already resolved or dismissed)''"

definition audited_target :: "report_target \<Rightarrow> bytes option \<times> bytes option" where
  "audited_target t = (case t of
     ReportPubkey p \<Rightarrow> (Some p, None)
   | ReportEvent e \<Rightarrow> (None, Some e)
   | ReportBlob _ \<Rightarrow> (None, None))"

definition resolution_summary :: "string option \<Rightarrow> string \<Rightarrow> string" where
  "resolution_summary reason status = (case reason of
     Some r \<Rightarrow> r
   | None \<Rightarrow> if status = ''dismissed'' then ''Your report was reviewed and dismissed.''
             else ''Your report was reviewed and acted on.'')"

text \<open>The report as it was found.\<close>

definition record_resolution ::
    "db_call \<Rightarrow> nat \<Rightarrow> community_id \<Rightarrow> bytes \<Rightarrow> string \<Rightarrow> string \<Rightarrow> string option \<Rightarrow> uuid \<times> report_record \<Rightarrow> (string, moderation_effect list) db_prog" where
  "record_resolution c k com actor status action reason found = (case found of (i, report) \<Rightarrow>
     if rr_status report \<noteq> ''open'' then db_fail (invalid NOT_OPEN)
     else
       db_bind (insert_audit c k com actor (resolution_audit_action action) (fst (audited_target (rr_target report)))
           (snd (audited_target (rr_target report))) reason) (\<lambda>action_id.
       db_bind (db_map_err db_denial (resolve_report c (k + 1) com i status actor (Some action_id))) (\<lambda>resolved.
       if \<not> resolved then db_fail (invalid NOT_OPEN)
       else db_return [ReportResolvedNotice (rr_reporter_pubkey report) i status (resolution_summary reason status)])))"

definition handle_resolve ::
    "moderation_env \<Rightarrow> db_call \<Rightarrow> nat \<Rightarrow> community_id \<Rightarrow> event \<Rightarrow> bytes \<Rightarrow> (string, moderation_effect list) db_prog" where
  "handle_resolve env c k com e actor =
     db_bind (db_lift (or_invalid ''missing or invalid report tag (expect 64-hex event id)'' (extract_report_tag env e))) (\<lambda>report_event_id.
     db_bind (db_lift (or_invalid ''missing status tag'' (extract_tag_value e ''status''))) (\<lambda>status.
     db_bind (db_lift (or_invalid ''missing action tag'' (extract_tag_value e ''action''))) (\<lambda>action.
     (let reason = extract_tag_value e ''reason'' in
      db_bind (db_lift (resolve_vocabulary status action)) (\<lambda>_.
      db_bind (db_map_err authz_denial
          (authorize_moderation_action env c k com actor None (TargetEvent report_event_id) ResolveReport)) (\<lambda>_.
      db_bind (db_map_err db_denial (get_report_by_event c (k + 3) com report_event_id)) (\<lambda>found.
      db_bind (db_lift (or_invalid ''report not found in this community'' found))
        (record_resolution c (k + 4) com actor status action reason))))))))"

definition handle_moderation_command ::
    "moderation_env \<Rightarrow> db_call \<Rightarrow> timestamp \<Rightarrow> community_id \<Rightarrow> event \<Rightarrow> (string, moderation_effect list) db_prog" where
  "handle_moderation_command env c now com e =
     (let kind = ev_kind e; actor = ev_pubkey e in
      db_bind (db_map_err (\<lambda>x. error_text (''database error checking restriction state: '' @ x))
          (moderation_restriction_state c 0 com actor)) (\<lambda>restriction.
      db_bind (db_lift (ensure_actor_not_banned restriction)) (\<lambda>_.
      if command_stale e now then db_fail (invalid (stale_text e now))
      else if kind = KIND_MODERATION_BAN then handle_ban env c 1 com e actor
      else if kind = KIND_MODERATION_UNBAN then handle_unban env c 1 com e actor
      else if kind = KIND_MODERATION_TIMEOUT then handle_timeout env c 1 com e actor
      else if kind = KIND_MODERATION_UNTIMEOUT then handle_untimeout env c 1 com e actor
      else if kind = KIND_MODERATION_RESOLVE_REPORT then handle_resolve env c 1 com e actor
      else db_fail (invalid (''unexpected moderation command kind: '' @ decimal kind)))))"

end
