(* ===== verification/Relay_Invites.thy ===== *)
theory Relay_Invites
  imports Roster
begin

text \<open>
  Invitations to a community: the codes (\<open>crates/punks-core/src/invite.rs\<close>,
  \<open>crates/punks-relay/src/invite_token.rs\<close>), the table of invites with a number of uses
  (\<open>crates/punks-db/src/relay_invite.rs\<close>), and the HTTP routes that mint and claim them
  (\<open>crates/punks-relay/src/api/invites.rs\<close>).

  Base64, HMAC and JSON are the parameter record \<open>invite_lib\<close>; SHA-256 and hexadecimal text are those of
  \<open>auth_lib\<close>.  The secret of a new invite is an argument.  The clock of the relay gives seconds.
\<close>

section \<open>Codes\<close>

definition MIN_INVITE_TTL_SECS :: nat where
  "MIN_INVITE_TTL_SECS = 60"

definition DEFAULT_INVITE_TTL_SECS :: nat where
  "DEFAULT_INVITE_TTL_SECS = 72 * 60 * 60"

definition MAX_INVITE_TTL_SECS :: nat where
  "MAX_INVITE_TTL_SECS = 30 * 24 * 60 * 60"

definition MAX_INVITE_USES :: int where
  "MAX_INVITE_USES = 10000"

definition V2_PREFIX :: string where
  "V2_PREFIX = ''v2.''"

definition V2_SECRET_LEN :: nat where
  "V2_SECRET_LEN = 32"

record invite_payload =
  ip_c :: string
  ip_r :: string
  ip_e :: nat
  ip_n :: string

record policy_payload =
  pp_c :: string
  pp_v :: string
  pp_e :: nat

record mint_request =
  mq_ttl_secs :: "nat option"
  mq_max_uses :: "int option"

record claim_request =
  cq_code :: string
  cq_policy_receipt :: "string option"

record accept_request =
  aq_code :: string
  aq_policy_version :: string
  aq_age_confirmed :: bool

record invite_lib =
  il_auth :: auth_lib
  il_b64_encode :: "bytes \<Rightarrow> string"
  il_b64_decode :: "string \<Rightarrow> bytes option"
  il_hmac :: "bytes \<Rightarrow> bytes \<Rightarrow> bytes"
  il_invite_from_json :: "bytes \<Rightarrow> invite_payload option"
  il_policy_to_json :: "policy_payload \<Rightarrow> bytes"
  il_policy_from_json :: "bytes \<Rightarrow> policy_payload option"
  il_mint_request :: "bytes \<Rightarrow> (string, mint_request) result"
  il_claim_request :: "bytes \<Rightarrow> (string, claim_request) result"
  il_accept_request :: "bytes \<Rightarrow> (string, accept_request) result"

definition encode_v2_code :: "invite_lib \<Rightarrow> bytes \<Rightarrow> string" where
  "encode_v2_code lib secret = V2_PREFIX @ il_b64_encode lib secret"

definition validate_v2_code :: "invite_lib \<Rightarrow> string \<Rightarrow> bool" where
  "validate_v2_code lib code = (case strip_prefix V2_PREFIX code of
     None \<Rightarrow> False
   | Some encoded \<Rightarrow> (case il_b64_decode lib encoded of
       None \<Rightarrow> False
     | Some secret \<Rightarrow> length secret = V2_SECRET_LEN \<and> il_b64_encode lib secret = encoded))"

definition hash_v2_code :: "invite_lib \<Rightarrow> string \<Rightarrow> bytes" where
  "hash_v2_code lib code = au_sha256 (il_auth lib) (as_bytes code)"

section \<open>Signed tokens\<close>

datatype invite_error = Malformed | BadSignature | InviteExpired | WrongCommunity | InvalidRole

definition MAX_CODE_LEN :: nat where
  "MAX_CODE_LEN = 1024"

definition KEY_DERIVATION_LABEL :: bytes where
  "KEY_DERIVATION_LABEL = as_bytes ''punks-invite-v1''"

definition derive_invite_key :: "invite_lib \<Rightarrow> bytes \<Rightarrow> bytes" where
  "derive_invite_key lib secret_key = au_sha256 (il_auth lib) (secret_key @ KEY_DERIVATION_LABEL)"

text \<open>\<open>split_once('.')\<close>.\<close>

fun split_once :: "char \<Rightarrow> string \<Rightarrow> (string \<times> string) option" where
  "split_once d [] = None"
| "split_once d (c # cs) =
     (if c = d then Some ([], cs) else map_option (\<lambda>(a, b). (c # a, b)) (split_once d cs))"

text \<open>The signed bytes of a token, when its signature is that of the key.\<close>

definition open_token :: "invite_lib \<Rightarrow> bytes \<Rightarrow> string \<Rightarrow> (invite_error, bytes) result" where
  "open_token lib key token = (case split_once (CHR ''.'') token of
     None \<Rightarrow> Inl Malformed
   | Some (payload_b64, mac_b64) \<Rightarrow> (case il_b64_decode lib payload_b64 of
       None \<Rightarrow> Inl Malformed
     | Some payload \<Rightarrow> (case il_b64_decode lib mac_b64 of
         None \<Rightarrow> Inl Malformed
       | Some mac \<Rightarrow> if mac = il_hmac lib key payload then Inr payload else Inl BadSignature)))"

definition verify_invite ::
    "invite_lib \<Rightarrow> nat \<Rightarrow> bytes \<Rightarrow> community_id \<Rightarrow> string \<Rightarrow> (invite_error, invite_payload) result" where
  "verify_invite lib now key com code =
     (if length code > MAX_CODE_LEN then Inl Malformed
      else and_then (open_token lib key code) (\<lambda>payload_bytes. case il_invite_from_json lib payload_bytes of
          None \<Rightarrow> Inl Malformed
        | Some p \<Rightarrow>
            if ip_e p < now then Inl InviteExpired
            else if ip_c p \<noteq> uuid_to_string (au_nostr (il_auth lib)) com then Inl WrongCommunity
            else if ip_r p \<noteq> ''member'' then Inl InvalidRole
            else Inr p))"

definition code_digest :: "invite_lib \<Rightarrow> string \<Rightarrow> string" where
  "code_digest lib code = hex_encode (au_nostr (il_auth lib)) (au_sha256 (il_auth lib) (as_bytes code))"

definition mint_policy_acceptance :: "invite_lib \<Rightarrow> nat \<Rightarrow> bytes \<Rightarrow> string \<Rightarrow> string \<Rightarrow> string" where
  "mint_policy_acceptance lib now key code version =
     (let bs = il_policy_to_json lib \<lparr>pp_c = code_digest lib code, pp_v = version, pp_e = now + 10 * 60\<rparr>
      in il_b64_encode lib bs @ ''.'' @ il_b64_encode lib (il_hmac lib key bs))"

definition verify_policy_acceptance ::
    "invite_lib \<Rightarrow> nat \<Rightarrow> bytes \<Rightarrow> string \<Rightarrow> string \<Rightarrow> string \<Rightarrow> (invite_error, policy_payload) result" where
  "verify_policy_acceptance lib now key receipt code version =
     (if length receipt > 2048 then Inl Malformed
      else and_then (open_token lib key receipt) (\<lambda>bs. case il_policy_from_json lib bs of
          None \<Rightarrow> Inl Malformed
        | Some p \<Rightarrow>
            if pp_e p < now then Inl InviteExpired
            else if pp_c p \<noteq> code_digest lib code \<or> pp_v p \<noteq> version then Inl Malformed
            else Inr p))"

section \<open>The table of invites\<close>

datatype claim_outcome =
  Joined int "int option" | AlreadyMember int "int option" | ClaimExpired | ClaimExhausted | ClaimInvalid

text \<open>The errors of the database that the mint route tells apart.\<close>

datatype mint_error = MintInvalidData string | MintDeletionSafety string | MintAccessDenied string | MintOther string

definition validate_mint_inputs :: "nat \<Rightarrow> int option \<Rightarrow> (string, unit) result" where
  "validate_mint_inputs ttl max_uses =
     (if \<not> (MIN_INVITE_TTL_SECS \<le> ttl \<and> ttl \<le> MAX_INVITE_TTL_SECS) then
        Inl (''ttl_secs must be between '' @ decimal MIN_INVITE_TTL_SECS @ '' and '' @ decimal MAX_INVITE_TTL_SECS)
      else (case max_uses of
          Some n \<Rightarrow> if 1 \<le> n \<and> n \<le> MAX_INVITE_USES then Inr ()
                     else Inl (''max_uses must be between 1 and '' @ decimal (nat MAX_INVITE_USES))
        | None \<Rightarrow> Inr ()))"

record minted_invite =
  mi_code :: string
  mi_expires_at :: timestamp
  mi_max_uses :: "int option"
  mi_uses_remaining :: "int option"
  mi_invite_id :: uuid

definition insert_invite ::
    "community_id \<Rightarrow> uuid \<Rightarrow> invite_row \<Rightarrow> tenant_db \<Rightarrow> (db_error, uuid) result \<times> tenant_db" where
  "insert_invite com nid row d =
     (if map_of (td_invites d) (com, nid) \<noteq> None \<or>
         list_ex (\<lambda>((com', _), r). com' = com \<and> iv_token_hash r = iv_token_hash row) (td_invites d)
      then (Inl ''duplicate key value violates unique constraint'', d)
      else (Inr nid, d\<lparr>td_invites := AList.update (com, nid) row (td_invites d)\<rparr>))"

text \<open>What a failure of the transaction is: the typed guard of a community being deleted, or another error.\<close>

definition mint_relay_invite ::
    "invite_lib \<Rightarrow> (db_error \<Rightarrow> mint_error) \<Rightarrow> bytes \<Rightarrow> db_call \<Rightarrow> nat \<Rightarrow> community_id \<Rightarrow> string \<Rightarrow> nat \<Rightarrow> int option \<Rightarrow>
     (mint_error, minted_invite) db_prog" where
  "mint_relay_invite lib classify secret c k com created_by ttl max_uses =
     db_bind (db_lift (case validate_mint_inputs ttl max_uses of
         Inl e \<Rightarrow> Inl (MintInvalidData e) | Inr u \<Rightarrow> Inr u)) (\<lambda>_.
     (let code = encode_v2_code lib secret; expires_at = qc_now c k + ttl
      in db_bind (db_map_err classify (db_exec c k (insert_invite com (qc_uuid c k)
             \<lparr>iv_token_hash = hash_v2_code lib code, iv_max_uses = max_uses, iv_use_count = 0,
              iv_expires_at = expires_at, iv_created_by = created_by\<rparr>))) (\<lambda>nid.
         db_return \<lparr>mi_code = code, mi_expires_at = expires_at, mi_max_uses = max_uses,
           mi_uses_remaining = max_uses, mi_invite_id = nid\<rparr>)))"

definition RETENTION_SWEEP_BATCH_SIZE :: nat where
  "RETENTION_SWEEP_BATCH_SIZE = 1000"

text \<open>The oldest expired rows of communities that accept writes, at most one batch.\<close>

definition reap_expired_relay_invites ::
    "(tenant_db \<Rightarrow> community_id \<Rightarrow> bool) \<Rightarrow> db_call \<Rightarrow> nat \<Rightarrow> timestamp \<Rightarrow> (db_error, nat) db_prog" where
  "reap_expired_relay_invites write_allowed c k cutoff = db_write c k (\<lambda>d.
     let doomed = map fst (take RETENTION_SWEEP_BATCH_SIZE (sort_key (\<lambda>(_, r). iv_expires_at r)
           (filter (\<lambda>((com, _), r). iv_expires_at r < cutoff \<and> write_allowed d com) (td_invites d))))
     in (length doomed, d\<lparr>td_invites := filter (\<lambda>(key, _). key \<notin> set doomed) (td_invites d)\<rparr>))"

definition find_invite :: "community_id \<Rightarrow> bytes \<Rightarrow> tenant_db \<Rightarrow> ((community_id \<times> uuid) \<times> invite_row) option" where
  "find_invite com token_hash d =
     List.find (\<lambda>((com', _), r). com' = com \<and> iv_token_hash r = token_hash) (td_invites d)"

definition uses_remaining :: "int option \<Rightarrow> int \<Rightarrow> int option" where
  "uses_remaining max_uses use_count = map_option (\<lambda>m. m - use_count) max_uses"

definition claim_invite_tx ::
    "community_id \<Rightarrow> bytes \<Rightarrow> string \<Rightarrow> string option \<Rightarrow> timestamp \<Rightarrow> tenant_db \<Rightarrow>
     (db_error, claim_outcome) result \<times> tenant_db" where
  "claim_invite_tx com token_hash pk policy_version now d = (case find_invite com token_hash d of
     None \<Rightarrow> (Inr ClaimInvalid, d)
   | Some (key, invite) \<Rightarrow>
       if iv_expires_at invite \<le> now then (Inr ClaimExpired, d)
       else if member_of d com pk \<noteq> None then
         (Inr (AlreadyMember (iv_use_count invite) (uses_remaining (iv_max_uses invite) (iv_use_count invite))),
          accept_join_policy com pk policy_version d)
       else if (case iv_max_uses invite of Some m \<Rightarrow> iv_use_count invite \<ge> m | None \<Rightarrow> False) then (Inr ClaimExhausted, d)
       else (case insert_member com pk ''member'' (Some ''invite'') now d of
           (Inl e, _) \<Rightarrow> (Inl e, d)
         | (Inr inserted, d1) \<Rightarrow>
             (let d2 = accept_join_policy com pk policy_version d1
              in if \<not> inserted then
                   (Inr (AlreadyMember (iv_use_count invite) (uses_remaining (iv_max_uses invite) (iv_use_count invite))), d2)
                 else
                   (let n = iv_use_count invite + 1
                    in (Inr (Joined n (uses_remaining (iv_max_uses invite) n)),
                        d2\<lparr>td_invites := AList.update key (invite\<lparr>iv_use_count := n\<rparr>) (td_invites d2)\<rparr>)))))"

definition claim_relay_invite ::
    "db_call \<Rightarrow> nat \<Rightarrow> community_id \<Rightarrow> bytes \<Rightarrow> string \<Rightarrow> string option \<Rightarrow> (db_error, claim_outcome) db_prog" where
  "claim_relay_invite c k com token_hash pk policy_version =
     db_exec c k (claim_invite_tx com token_hash pk policy_version (qc_now c k))"

section \<open>The routes\<close>

text \<open>Announcements that are requested from the publisher of membership events; their failure is only logged.\<close>

datatype announcement = MemberAdded string | MemberRemoved string | MembershipList

record join_policy_config =
  jp_version :: string
  jp_age_attestation_required :: bool

record invite_env =
  ie_auth :: auth_env
  ie_lib :: invite_lib
  ie_secret_key :: bytes
  ie_join_policy :: "join_policy_config option"
  ie_classify :: "db_error \<Rightarrow> mint_error"

record invite_call =
  ic_bridge :: bridge_call
  ic_db :: db_call
  ic_now :: nat
  ic_secret :: bytes
  ic_evicted :: bool

record invite_node =
  in_redis :: redis
  in_claims :: "((community_id \<times> pubkey) \<times> u32) list"
  in_db :: tenant_db

definition invite_key :: "invite_env \<Rightarrow> bytes" where
  "invite_key env = derive_invite_key (ie_lib env) (ie_secret_key env)"

definition validate_mint_request :: "mint_request \<Rightarrow> (http_error, nat \<times> int option) result" where
  "validate_mint_request q =
     (let ttl = (case mq_ttl_secs q of Some t \<Rightarrow> t | None \<Rightarrow> DEFAULT_INVITE_TTL_SECS) in
      if \<not> (MIN_INVITE_TTL_SECS \<le> ttl \<and> ttl \<le> MAX_INVITE_TTL_SECS) then
        Inl (ApiError 400 (''ttl_secs must be between '' @ decimal MIN_INVITE_TTL_SECS @ '' and '' @
          decimal MAX_INVITE_TTL_SECS))
      else (case mq_max_uses q of
          Some n \<Rightarrow> if 1 \<le> n \<and> n \<le> MAX_INVITE_USES then Inr (ttl, mq_max_uses q)
                     else Inl (ApiError 400 (''max_uses must be between 1 and '' @ decimal (nat MAX_INVITE_USES)))
        | None \<Rightarrow> Inr (ttl, None)))"

definition accept_policy :: "invite_env \<Rightarrow> nat \<Rightarrow> bytes \<Rightarrow> (http_error, string) result" where
  "accept_policy env now body = (case ie_join_policy env of
     None \<Rightarrow> Inl (ApiError 404 ''join_policy_not_configured'')
   | Some policy \<Rightarrow> (case il_accept_request (ie_lib env) body of
       Inl e \<Rightarrow> Inl (ApiError 400 (''invalid policy acceptance JSON: '' @ e))
     | Inr q \<Rightarrow>
         if aq_policy_version q \<noteq> jp_version policy \<or> (jp_age_attestation_required policy \<and> \<not> aq_age_confirmed q)
         then Inl (ApiError 400 ''join_policy_not_accepted'')
         else Inr (mint_policy_acceptance (ie_lib env) now (invite_key env) (aq_code q) (jp_version policy))))"

definition authenticate_invite ::
    "invite_env \<Rightarrow> invite_call \<Rightarrow> string \<Rightarrow> http_request \<Rightarrow> redis \<Rightarrow> (http_error, tenant_context \<times> pubkey) result \<times> redis" where
  "authenticate_invite env c path q r =
     (let xe = ie_auth env in
      case bind_community (xe_resolve_host xe) (case hq_host q of Some h \<Rightarrow> h | None \<Rightarrow> []) of
        Inl _ \<Rightarrow> (Inl (ApiError 404 ''relay: no community is configured for this host''), r)
      | Inr tenant \<Rightarrow>
          (case verify_bridge_auth_with_options (xe_lib xe) (bc_now (ic_bridge c)) q ''POST''
              (nip98_expected_url (xe_relay_url xe) (tc_host tenant) path) (Some (hq_body q)) True True of
             Inl e \<Rightarrow> (Inl e, r)
           | Inr (pk, eid) \<Rightarrow>
               (case check_nip98_replay (au_nostr (xe_lib xe)) (bc_replay (ic_bridge c)) (tc_community tenant) eid r of
                  (Inl e, r1) \<Rightarrow> (Inl e, r1)
                | (Inr _, r1) \<Rightarrow> (Inr (tenant, pk), r1))))"

definition map_mint_error :: "mint_error \<Rightarrow> http_error" where
  "map_mint_error e = (case e of
     MintInvalidData m \<Rightarrow> ApiError 400 m
   | MintDeletionSafety m \<Rightarrow> ApiError 400 m
   | MintAccessDenied _ \<Rightarrow> ApiError 503 ''community writes are temporarily unavailable''
   | MintOther _ \<Rightarrow> ApiError 500 ''internal server error'')"

text \<open>\<open>internal_error\<close>: the text goes to the log.\<close>

definition internal_error :: "string \<Rightarrow> http_error" where
  "internal_error detail = ApiError 500 ''internal server error''"

text \<open>The database part of the mint route.\<close>

definition mint_invite_authorized ::
    "invite_env \<Rightarrow> invite_call \<Rightarrow> tenant_context \<Rightarrow> pubkey \<Rightarrow> bytes \<Rightarrow> (http_error, minted_invite) db_prog" where
  "mint_invite_authorized env c tenant pk body =
     (let sender_hex = pubkey_to_hex (au_nostr (xe_lib (ie_auth env))) pk in
      db_bind (db_map_err internal_error (get_relay_member (ic_db c) 0 (tc_community tenant) sender_hex)) (\<lambda>member.
      (let role = (case member of Some m \<Rightarrow> rm_role m | None \<Rightarrow> []) in
       if role \<noteq> ''owner'' \<and> role \<noteq> ''admin''
       then db_fail (ApiError 403 ''only relay owners and admins can create invites'')
       else db_bind (db_lift (if body = [] then Inr \<lparr>mq_ttl_secs = None, mq_max_uses = None\<rparr>
           else (case il_mint_request (ie_lib env) body of
               Inl e \<Rightarrow> Inl (ApiError 400 (''invalid invite JSON: '' @ e)) | Inr q \<Rightarrow> Inr q))) (\<lambda>request.
         db_bind (db_lift (validate_mint_request request)) (\<lambda>(ttl, max_uses).
           db_map_err map_mint_error (mint_relay_invite (ie_lib env) (ie_classify env) (ic_secret c) (ic_db c) 1
             (tc_community tenant) sender_hex ttl max_uses))))))"

definition mint_invite ::
    "invite_env \<Rightarrow> invite_call \<Rightarrow> http_request \<Rightarrow> invite_node \<Rightarrow> (http_error, minted_invite) result \<times> invite_node" where
  "mint_invite env c q n = (case authenticate_invite env c ''/api/invites'' q (in_redis n) of
     (Inl e, r) \<Rightarrow> (Inl e, n\<lparr>in_redis := r\<rparr>)
   | (Inr (tenant, pk), r) \<Rightarrow>
       (let (res, d) = mint_invite_authorized env c tenant pk (hq_body q) (in_db n)
        in (res, n\<lparr>in_redis := r, in_db := d\<rparr>)))"

definition CLAIM_RATE_LIMIT :: u32 where
  "CLAIM_RATE_LIMIT = 10"

text \<open>The counters live in a bounded cache whose entries expire: one may be gone (\<open>evicted\<close>).\<close>

definition claim_key_rate_limited ::
    "bool \<Rightarrow> community_id \<times> pubkey \<Rightarrow> ((community_id \<times> pubkey) \<times> u32) list \<Rightarrow> bool \<times> ((community_id \<times> pubkey) \<times> u32) list" where
  "claim_key_rate_limited evicted key cache =
     (let n = (case map_of cache key of Some n \<Rightarrow> if evicted then 0 else n | None \<Rightarrow> 0)
      in (CLAIM_RATE_LIMIT \<le> n, AList.update key (n + 1) cache))"

definition check_policy_receipt :: "invite_env \<Rightarrow> nat \<Rightarrow> claim_request \<Rightarrow> (http_error, unit) result" where
  "check_policy_receipt env now q = (case ie_join_policy env of
     None \<Rightarrow> Inr ()
   | Some policy \<Rightarrow> (case cq_policy_receipt q of
       None \<Rightarrow> Inl (ApiError 403 ''join_policy_required'')
     | Some receipt \<Rightarrow>
         (case verify_policy_acceptance (ie_lib env) now (invite_key env) receipt (cq_code q) (jp_version policy) of
            Inl _ \<Rightarrow> Inl (ApiError 403 ''join_policy_required'')
          | Inr _ \<Rightarrow> Inr ())))"

definition claim_v2 ::
    "invite_env \<Rightarrow> invite_call \<Rightarrow> community_id \<Rightarrow> string \<Rightarrow> claim_request \<Rightarrow> (http_error, bool \<times> announcement list) db_prog" where
  "claim_v2 env c com pk_hex q =
     (if \<not> validate_v2_code (ie_lib env) (cq_code q) then db_fail (ApiError 403 ''invite_invalid'')
      else db_bind (db_lift (check_policy_receipt env (ic_now c) q)) (\<lambda>_.
        db_bind (db_map_err internal_error (claim_relay_invite (ic_db c) 0 com (hash_v2_code (ie_lib env) (cq_code q)) pk_hex
            (map_option jp_version (ie_join_policy env)))) (\<lambda>outcome. case outcome of
          Joined _ _ \<Rightarrow> db_return (True, [MemberAdded pk_hex, MembershipList])
        | AlreadyMember _ _ \<Rightarrow> db_return (False, [])
        | ClaimExpired \<Rightarrow> db_fail (ApiError 403 ''invite_expired'')
        | ClaimExhausted \<Rightarrow> db_fail (ApiError 403 ''invite_exhausted'')
        | ClaimInvalid \<Rightarrow> db_fail (ApiError 403 ''invite_invalid''))))"

definition claim_v1 ::
    "invite_env \<Rightarrow> invite_call \<Rightarrow> community_id \<Rightarrow> string \<Rightarrow> claim_request \<Rightarrow> (http_error, bool \<times> announcement list) db_prog" where
  "claim_v1 env c com pk_hex q = (case verify_invite (ie_lib env) (ic_now c) (invite_key env) com (cq_code q) of
     Inl InviteExpired \<Rightarrow> db_fail (ApiError 403 ''invite_expired'')
   | Inl _ \<Rightarrow> db_fail (ApiError 403 ''invite_invalid'')
   | Inr payload \<Rightarrow>
       db_bind (db_lift (check_policy_receipt env (ic_now c) q)) (\<lambda>_.
         db_bind (db_map_err internal_error (claim_relay_membership (ic_db c) 0 com pk_hex (ip_r payload)
             (map_option jp_version (ie_join_policy env)))) (\<lambda>inserted.
           db_return (inserted, if inserted then [MemberAdded pk_hex, MembershipList] else []))))"

text \<open>The answer: whether the claimer joined or was a member already, with the announcements made.\<close>

definition claim_invite ::
    "invite_env \<Rightarrow> invite_call \<Rightarrow> http_request \<Rightarrow> invite_node \<Rightarrow> (http_error, bool \<times> announcement list) result \<times> invite_node" where
  "claim_invite env c q n = (case authenticate_invite env c ''/api/invites/claim'' q (in_redis n) of
     (Inl e, r) \<Rightarrow> (Inl e, n\<lparr>in_redis := r\<rparr>)
   | (Inr (tenant, pk), r) \<Rightarrow>
       (case claim_key_rate_limited (ic_evicted c) (tc_community tenant, pk) (in_claims n) of (limited, claims) \<Rightarrow>
        (let n1 = n\<lparr>in_redis := r, in_claims := claims\<rparr> in
         if limited then (Inl (ApiError 429 ''too many invite claim attempts, slow down''), n1)
         else (case il_claim_request (ie_lib env) (hq_body q) of
             Inl e \<Rightarrow> (Inl (ApiError 400 (''invalid claim JSON: '' @ e)), n1)
           | Inr request \<Rightarrow>
               (let pk_hex = pubkey_to_hex (au_nostr (xe_lib (ie_auth env))) pk;
                    (res, d) = (if starts_with (cq_code request) V2_PREFIX
                                then claim_v2 env c (tc_community tenant) pk_hex request (in_db n1)
                                else claim_v1 env c (tc_community tenant) pk_hex request (in_db n1))
                in (res, n1\<lparr>in_db := d\<rparr>))))))"

end
