(* ===== verification/Relay_Admin.thy ===== *)
theory Relay_Admin
  imports Moderation Relay_Invites
begin

text \<open>
  Who administers a community: the commands of kinds 9030 to 9033
  (\<open>crates/punks-relay/src/handlers/relay_admin.rs\<close>), the leave request of a member
  (\<open>crates/punks-relay/src/handlers/ingest.rs\<close>), the command line
  (\<open>crates/punks-admin/src/main.rs\<close>), and the operator of the deployment, who creates
  communities and hands over their ownership (\<open>crates/punks-relay/src/handlers/community_provisioning.rs\<close>,
  \<open>crates/punks-relay/src/api/operator.rs\<close>).

  The host and the port of a URL are the parameter record \<open>authority_lib\<close>; the publication of a community's
  disconnection is a field of \<open>operator_env\<close>.  The announcements a command
  asks for are part of its answer.
\<close>

section \<open>Text\<close>

text \<open>A text is its UTF-8 bytes: does it begin with a control character or white space of Unicode?\<close>

fun starts_with_control_or_space :: "nat list \<Rightarrow> bool" where
  "starts_with_control_or_space (a # b # c # _) =
     (a \<le> 32 \<or> a = 127 \<or> (a = 194 \<and> 128 \<le> b \<and> b \<le> 160) \<or>
      (a = 225 \<and> b = 154 \<and> c = 128) \<or>
      (a = 226 \<and> b = 128 \<and> (128 \<le> c \<and> c \<le> 138 \<or> c = 168 \<or> c = 169 \<or> c = 175)) \<or>
      (a = 226 \<and> b = 129 \<and> c = 159) \<or> (a = 227 \<and> b = 128 \<and> c = 128))"
| "starts_with_control_or_space [a, b] = (a \<le> 32 \<or> a = 127 \<or> (a = 194 \<and> 128 \<le> b \<and> b \<le> 160))"
| "starts_with_control_or_space [a] = (a \<le> 32 \<or> a = 127)"
| "starts_with_control_or_space [] = False"

fun has_control_or_space :: "nat list \<Rightarrow> bool" where
  "has_control_or_space [] = False"
| "has_control_or_space (a # bs) = (starts_with_control_or_space (a # bs) \<or> has_control_or_space bs)"

definition contains_control_or_space :: "string \<Rightarrow> bool" where
  "contains_control_or_space s = has_control_or_space (map of_char s)"

section \<open>Administration of a community\<close>

definition extract_p_tag_hex :: "event \<Rightarrow> string option" where
  "extract_p_tag_hex e = first_hex64 ''p'' (ev_tags e)"

definition MAX_WORKSPACE_ICON_URL_LEN :: nat where
  "MAX_WORKSPACE_ICON_URL_LEN = 2048"

definition MAX_WORKSPACE_ICON_DATA_URL_LEN :: nat where
  "MAX_WORKSPACE_ICON_DATA_URL_LEN = 98304"

definition validate_workspace_icon :: "string \<Rightarrow> (string, unit) result" where
  "validate_workspace_icon icon =
     (if icon = [] then Inr ()
      else if contains_control_or_space icon then Inl ''icon contains invalid characters''
      else if starts_with icon ''data:image/'' then
        (if length icon > MAX_WORKSPACE_ICON_DATA_URL_LEN
         then Inl (''icon data URL too long: '' @ decimal (length icon) @ '' bytes (max '' @
                   decimal MAX_WORKSPACE_ICON_DATA_URL_LEN @ '')'')
         else Inr ())
      else if \<not> starts_with icon ''https://'' \<and> \<not> starts_with icon ''http://''
      then Inl ''icon must be an http(s) URL or data:image/* URL''
      else if length icon > MAX_WORKSPACE_ICON_URL_LEN
      then Inl (''icon URL too long: '' @ decimal (length icon) @ '' bytes (max '' @
                decimal MAX_WORKSPACE_ICON_URL_LEN @ '')'')
      else Inr ())"

definition may_set_workspace_profile :: "string \<Rightarrow> bool \<Rightarrow> bool \<Rightarrow> bool" where
  "may_set_workspace_profile sender_role membership_enforced community_has_steward =
     (if \<not> membership_enforced \<and> \<not> community_has_steward then True
      else sender_role = ''admin'' \<or> sender_role = ''owner'')"

datatype relay_admin_error = AdminBanned | AdminRejected string | AdminInternal string

definition admits_relay_admin_command :: "restriction_state \<Rightarrow> (relay_admin_error, unit) result" where
  "admits_relay_admin_command r = guard (\<not> rx_banned r) AdminBanned"

definition admin_db_error :: "db_error \<Rightarrow> string" where
  "admin_db_error e = ''database error: '' @ e"

definition NOT_ADMIN :: string where
  "NOT_ADMIN = ''actor not authorized: must be admin or owner''"

definition set_workspace_profile ::
    "bool \<Rightarrow> db_call \<Rightarrow> nat \<Rightarrow> community_id \<Rightarrow> string \<Rightarrow> event \<Rightarrow> (string, announcement list) db_prog" where
  "set_workspace_profile enforced c k com sender_role e =
     db_bind (if enforced then db_return True else db_map_err admin_db_error (has_admin_or_owner c k com)) (\<lambda>steward.
     if \<not> may_set_workspace_profile sender_role enforced steward then db_fail NOT_ADMIN
     else (let icon = (case extract_tag_value e ''icon'' of Some i \<Rightarrow> i | None \<Rightarrow> []) in
       db_bind (db_lift (validate_workspace_icon icon)) (\<lambda>_.
       db_bind (db_map_err (\<lambda>x. ''failed to store workspace icon: '' @ x)
           (set_community_icon c (k + 1) com (if icon = [] then None else Some icon))) (\<lambda>_. db_return []))))"

definition admin_add_member ::
    "db_call \<Rightarrow> nat \<Rightarrow> community_id \<Rightarrow> string \<Rightarrow> string \<Rightarrow> string \<Rightarrow> event \<Rightarrow> (string, announcement list) db_prog" where
  "admin_add_member c k com sender_hex sender_role target_hex e =
     (if sender_role \<noteq> ''admin'' \<and> sender_role \<noteq> ''owner'' then db_fail NOT_ADMIN
      else (let role = (case extract_tag_value e ''role'' of Some r \<Rightarrow> r | None \<Rightarrow> ''member'') in
        if role = ''owner'' then db_fail ''invalid role: use kind:9032 to promote to owner''
        else if role = ''admin'' \<and> sender_role \<noteq> ''owner''
        then db_fail ''actor not authorized: only owner can grant admin role''
        else if role \<noteq> ''admin'' \<and> role \<noteq> ''member'' then db_fail (''invalid role: '' @ role)
        else db_bind (db_map_err admin_db_error (add_relay_member c k com target_hex role (Some sender_hex))) (\<lambda>inserted.
          db_return (if inserted then [MemberAdded target_hex, MembershipList] else []))))"

definition admin_remove_member ::
    "db_call \<Rightarrow> nat \<Rightarrow> community_id \<Rightarrow> string \<Rightarrow> string \<Rightarrow> string \<Rightarrow> (string, announcement list) db_prog" where
  "admin_remove_member c k com sender_hex sender_role target_hex =
     (if sender_role \<noteq> ''admin'' \<and> sender_role \<noteq> ''owner'' then db_fail NOT_ADMIN
      else if target_hex = sender_hex then db_fail ''cannot remove yourself''
      else db_bind (db_map_err admin_db_error
          (if sender_role = ''admin'' then remove_relay_member_if_role c k com target_hex ''member''
           else remove_relay_member c k com target_hex)) (\<lambda>res. case res of
        Removed \<Rightarrow> db_return [MemberRemoved target_hex, MembershipList]
      | IsOwner \<Rightarrow> db_fail ''cannot remove the relay owner''
      | NotFound \<Rightarrow> db_fail (''member not found: '' @ target_hex)
      | RoleMismatch \<Rightarrow> db_fail ''actor not authorized: admins can only remove members''))"

definition admin_change_role ::
    "db_call \<Rightarrow> nat \<Rightarrow> community_id \<Rightarrow> string \<Rightarrow> string \<Rightarrow> string \<Rightarrow> event \<Rightarrow> (string, announcement list) db_prog" where
  "admin_change_role c k com sender_hex sender_role target_hex e =
     (if sender_role \<noteq> ''owner'' then db_fail ''actor not authorized: must be owner''
      else if target_hex = sender_hex then db_fail ''cannot change your own role''
      else (case extract_tag_value e ''role'' of
          None \<Rightarrow> db_fail ''missing role tag''
        | Some new_role \<Rightarrow>
            if new_role = ''owner'' then db_fail ''cannot set role to owner''
            else if new_role \<noteq> ''admin'' \<and> new_role \<noteq> ''member'' then db_fail (''invalid role: '' @ new_role)
            else db_bind (db_map_err admin_db_error (update_relay_member_role c k com target_hex new_role)) (\<lambda>updated.
              if updated then db_return [MembershipList]
              else db_bind (db_map_err admin_db_error (get_relay_member c (k + 1) com target_hex)) (\<lambda>exists.
                db_fail (if exists \<noteq> None then ''cannot change the relay owner's role''
                         else ''member not found: '' @ target_hex)))))"

definition execute_relay_admin_command ::
    "nostr_lib \<Rightarrow> bool \<Rightarrow> db_call \<Rightarrow> nat \<Rightarrow> timestamp \<Rightarrow> community_id \<Rightarrow> event \<Rightarrow> (string, announcement list) db_prog" where
  "execute_relay_admin_command lib enforced c k now com e =
     (let kind = ev_kind e; sender_hex = pubkey_to_hex lib (ev_pubkey e) in
      if command_stale e now then db_fail (stale_text e now)
      else db_bind (db_map_err admin_db_error (get_relay_member c k com sender_hex)) (\<lambda>sender_member.
      (let sender_role = (case sender_member of Some m \<Rightarrow> rm_role m | None \<Rightarrow> []) in
       if kind = RELAY_ADMIN_SET_WORKSPACE_PROFILE then set_workspace_profile enforced c (k + 1) com sender_role e
       else (case extract_p_tag_hex e of
           None \<Rightarrow> db_fail ''missing or invalid p tag''
         | Some target \<Rightarrow>
             (let target_hex = map to_ascii_lower target in
              if kind = RELAY_ADMIN_ADD_MEMBER then admin_add_member c (k + 1) com sender_hex sender_role target_hex e
              else if kind = RELAY_ADMIN_REMOVE_MEMBER then admin_remove_member c (k + 1) com sender_hex sender_role target_hex
              else if kind = RELAY_ADMIN_CHANGE_ROLE then admin_change_role c (k + 1) com sender_hex sender_role target_hex e
              else db_fail (''unexpected relay admin kind: '' @ decimal kind))))))"

definition handle_relay_admin_event ::
    "nostr_lib \<Rightarrow> bool \<Rightarrow> db_call \<Rightarrow> timestamp \<Rightarrow> community_id \<Rightarrow> event \<Rightarrow> (relay_admin_error, announcement list) db_prog" where
  "handle_relay_admin_event lib enforced c now com e =
     db_bind (db_map_err (\<lambda>x. AdminInternal (''internal error checking restriction state: '' @ x))
         (moderation_restriction_state c 0 com (ev_pubkey e))) (\<lambda>restriction.
     db_bind (db_lift (admits_relay_admin_command restriction)) (\<lambda>_.
     db_map_err AdminRejected (execute_relay_admin_command lib enforced c 1 now com e)))"

section \<open>Leaving a community\<close>

datatype leave_error = LeaveRejected string | LeaveInternal string

definition leave_skew_text :: "event \<Rightarrow> timestamp \<Rightarrow> string" where
  "leave_skew_text e now = ''invalid: leave request timestamp out of range (delta='' @ show_int (event_skew e now) @ ''s, max '' @
     [CHR 0xC2, CHR 0xB1] @ ''120s)''"

definition is_protected :: "event \<Rightarrow> bool" where
  "is_protected e = list_ex (\<lambda>t. case t of name # _ \<Rightarrow> name = ''-'' | [] \<Rightarrow> False) (ev_tags e)"

text \<open>The branch of \<open>ingest_event_inner\<close> that serves a leave request (kind 28936): the sender removes its own row.\<close>

definition handle_leave_request ::
    "nostr_lib \<Rightarrow> bool \<Rightarrow> db_call \<Rightarrow> timestamp \<Rightarrow> community_id \<Rightarrow> event \<Rightarrow> (leave_error, announcement list) db_prog" where
  "handle_leave_request lib enforced c now com e =
     (let sender_hex = pubkey_to_hex lib (ev_pubkey e) in
      if \<not> enforced then db_fail (LeaveRejected ''invalid: relay membership is not enabled'')
      else if i64_wrap \<bar>event_skew e now\<bar> > 120 then db_fail (LeaveRejected (leave_skew_text e now))
      else if \<not> is_protected e
      then db_fail (LeaveRejected (''invalid: leave request must include NIP-70 protected event tag ['' @ quoted ''-'' @ '']''))
      else db_bind (db_map_err (\<lambda>x. LeaveInternal (''database error: '' @ x)) (remove_relay_member c 0 com sender_hex)) (\<lambda>res.
        case res of
          Removed \<Rightarrow> db_return [MemberRemoved sender_hex, MembershipList]
        | NotFound \<Rightarrow> db_fail (LeaveRejected ''invalid: you are not a relay member'')
        | IsOwner \<Rightarrow> db_fail (LeaveRejected ''invalid: relay owner cannot leave'')
        | RoleMismatch \<Rightarrow> db_fail (LeaveInternal ''unexpected RoleMismatch from remove_relay_member'')))"

section \<open>Hosts of communities\<close>

definition validate_pubkey_hex :: "string \<Rightarrow> string option" where
  "validate_pubkey_hex value =
     (let normalized = map to_ascii_lower value in if is_hex64 normalized then Some normalized else None)"

definition MAX_HOST_LEN :: nat where
  "MAX_HOST_LEN = 255"

datatype url_host = Domain string | Ipv4 string | Ipv6 string

record authority_lib =
  al_url_parse :: "string \<Rightarrow> string option"
  al_host :: "string \<Rightarrow> url_host option"
  al_port :: "string \<Rightarrow> nat option"

fun validate_labels :: "string list \<Rightarrow> (string, unit) result" where
  "validate_labels [] = Inr ()"
| "validate_labels (l # ls) =
     (if l = [] then Inl ''domain contains an empty label''
      else if length l > 63 then Inl ''domain label too long''
      else if \<not> (list_all (\<lambda>b. is_ascii_alphanumeric b \<or> b = CHR ''-'') l \<and> hd l \<noteq> CHR ''-'' \<and> last l \<noteq> CHR ''-'')
      then Inl ''domain label contains invalid characters''
      else validate_labels ls)"

definition validate_domain_labels :: "string \<Rightarrow> (string, unit) result" where
  "validate_domain_labels domain =
     (if length domain > 253 then Inl ''domain name too long'' else validate_labels (split_on (CHR ''.'') domain))"

definition check_bare_authority :: "string \<Rightarrow> (string, unit) result" where
  "check_bare_authority authority =
     (if contains_control_or_space authority then Inl ''host contains invalid characters''
      else if set ''/?#@'' \<inter> set authority \<noteq> {}
      then Inl ''host must be a bare authority (no scheme, path, query, or userinfo)''
      else Inr ())"

definition validate_authority :: "authority_lib \<Rightarrow> string \<Rightarrow> (string, unit) result" where
  "validate_authority lib authority =
     and_then (check_bare_authority authority) (\<lambda>_.
     case Option.bind (al_url_parse lib (''http://'' @ authority @ ''/''))
            (\<lambda>u. map_option (\<lambda>h. (u, h)) (al_host lib u)) of
       None \<Rightarrow> Inl ''host is not a valid authority''
     | Some (u, h) \<Rightarrow>
         and_then (case h of
             Domain domain \<Rightarrow> and_then (validate_domain_labels domain) (\<lambda>_. Inr domain)
           | Ipv4 addr \<Rightarrow> Inr addr
           | Ipv6 addr \<Rightarrow> Inr (''['' @ addr @ '']'')) (\<lambda>serialized.
         (let canonical = (case al_port lib u of Some port \<Rightarrow> serialized @ '':'' @ decimal port | None \<Rightarrow> serialized)
          in if canonical \<noteq> authority
             then Inl (''host is not a canonical authority: expected '' @ quoted canonical) else Inr ())))"

definition check_host_length :: "string \<Rightarrow> (string, unit) result" where
  "check_host_length host =
     (if host = [] then Inl ''host is empty''
      else if length host > MAX_HOST_LEN
      then Inl (''host too long: '' @ decimal (length host) @ '' bytes (max '' @ decimal MAX_HOST_LEN @ '')'')
      else Inr ())"

definition validate_host :: "authority_lib \<Rightarrow> string \<Rightarrow> (string, unit) result" where
  "validate_host lib host =
     and_then (check_host_length host) (\<lambda>_.
     if normalize_host host \<noteq> host then Inl (''host is not normalized: expected '' @ quoted (normalize_host host))
     else validate_authority lib host)"

definition normalize_candidate_host :: "authority_lib \<Rightarrow> string \<Rightarrow> (string, string) result" where
  "normalize_candidate_host lib host =
     and_then (check_host_length host) (\<lambda>_.
     and_then (check_bare_authority host) (\<lambda>_.
     and_then (validate_host lib (normalize_host host)) (\<lambda>_. Inr (normalize_host host))))"

section \<open>The operator\<close>

record operator_env =
  oe_auth :: auth_env
  oe_authority :: authority_lib
  oe_origin :: "string option"
  oe_operators :: "string list"
  oe_enforced :: bool
  oe_owner_limit :: int
  oe_deployment_host :: string
  oe_disconnect_community :: "community_id \<Rightarrow> string \<Rightarrow> (string, nat) result"

record provision_request =
  pq_host :: string
  pq_initial_owner_pubkey :: "string option"
  pq_create_only :: bool

record provision_response =
  pv_community_id :: community_id
  pv_host :: string
  pv_created :: bool
  pv_owner_pubkey :: "string option"
  pv_announced :: "announcement list"

definition snapshot_if_required :: "operator_env \<Rightarrow> announcement list" where
  "snapshot_if_required env = (if oe_enforced env then [MembershipList] else [])"

definition provision_community ::
    "operator_env \<Rightarrow> db_call \<Rightarrow> pubkey \<Rightarrow> provision_request \<Rightarrow> (string, provision_response) db_prog" where
  "provision_community env c operator q =
     (let operator_hex = pubkey_to_hex (au_nostr (xe_lib (oe_auth env))) operator in
      if operator_hex \<notin> set (oe_operators env) then db_fail ''actor not authorized: not a relay operator''
      else db_bind (db_lift (validate_host (oe_authority env) (pq_host q))) (\<lambda>_.
      db_bind (db_lift (case pq_initial_owner_pubkey q of
          None \<Rightarrow> Inr None
        | Some value \<Rightarrow> (case validate_pubkey_hex value of
            Some pk \<Rightarrow> Inr (Some pk)
          | None \<Rightarrow> Inl ''invalid initial_owner_pubkey: expected 64-char hex pubkey''))) (\<lambda>initial_owner.
      if pq_create_only q then
        (case initial_owner of
           None \<Rightarrow> db_fail ''initial_owner_pubkey is required when create_only is true''
         | Some owner_hex \<Rightarrow>
             db_bind (db_map_err (\<lambda>x. ''failed to create community: '' @ x)
                 (create_community_with_owner (oe_owner_limit env) c 0 (pq_host q) owner_hex)) (\<lambda>res. case res of
               Created com host \<Rightarrow> db_return \<lparr>pv_community_id = com, pv_host = host, pv_created = True,
                 pv_owner_pubkey = initial_owner, pv_announced = snapshot_if_required env\<rparr>
             | HostExists \<Rightarrow> db_fail ''community already exists''
             | CreateLimitReached \<Rightarrow> db_fail ''limit_reached: owner already owns the maximum number of communities''))
      else
        db_bind (db_map_err (\<lambda>x. ''failed to create community: '' @ x)
            (ensure_configured_community c 0 (pq_host q))) (\<lambda>(com, host, created).
        db_bind (case initial_owner of
            None \<Rightarrow> db_return []
          | Some owner_hex \<Rightarrow>
              db_bind (db_map_err (\<lambda>x. ''community provisioned but owner bootstrap failed: '' @ x)
                (bootstrap_owner c 1 com owner_hex)) (\<lambda>_. db_return (snapshot_if_required env))) (\<lambda>announced.
        db_return \<lparr>pv_community_id = com, pv_host = host, pv_created = created,
          pv_owner_pubkey = initial_owner, pv_announced = announced\<rparr>)))))"

text \<open>What the route makes of a refusal.\<close>

definition provision_error :: "string \<Rightarrow> http_error" where
  "provision_error msg =
     (if starts_with msg ''actor not authorized'' then ApiError 403 msg
      else if msg = ''community already exists'' \<or> starts_with msg ''limit_reached:'' then ApiError 409 msg
      else if starts_with msg ''failed to create community:'' \<or> starts_with msg ''community provisioned but owner bootstrap failed:''
      then internal_error ''operator community persistence failed''
      else ApiError 400 msg)"

definition provision_community_route ::
    "operator_env \<Rightarrow> db_call \<Rightarrow> pubkey \<Rightarrow> provision_request \<Rightarrow> (http_error, provision_response) db_prog" where
  "provision_community_route env c operator q = db_map_err provision_error (provision_community env c operator q)"

definition OPERATOR_REPLAY_SCOPE :: string where
  "OPERATOR_REPLAY_SCOPE = ''operator-management''"

definition check_operator_replay ::
    "nostr_lib \<Rightarrow> redis_call \<Rightarrow> event_id \<Rightarrow> redis \<Rightarrow> (http_error, unit) result \<times> redis" where
  "check_operator_replay lib c eid r = (case try_mark_in_scope lib c OPERATOR_REPLAY_SCOPE eid DEFAULT_REPLAY_TTL_SECS r of
     (Inr True, r1) \<Rightarrow> (Inr (), r1)
   | (Inr False, r1) \<Rightarrow> (Inl (ApiError 401 ''NIP-98: replay detected''), r1)
   | (Inl _, r1) \<Rightarrow> (Inl (ApiError 401 ''NIP-98: replay check unavailable''), r1))"

definition authorize_operator_request ::
    "operator_env \<Rightarrow> bridge_call \<Rightarrow> string \<Rightarrow> string \<Rightarrow> string option \<Rightarrow> bytes option \<Rightarrow> http_request \<Rightarrow> redis \<Rightarrow>
     (http_error, pubkey) result \<times> redis" where
  "authorize_operator_request env c http_method path raw_query body q r = (case oe_origin env of
     None \<Rightarrow> (Inl (internal_error ''operator API origin is not configured''), r)
   | Some origin \<Rightarrow>
       (let path_with_query = (case raw_query of
              Some s \<Rightarrow> if s = [] then path else path @ ''?'' @ s | None \<Rightarrow> path)
        in case verify_bridge_auth_with_options (xe_lib (oe_auth env)) (bc_now c) q http_method (origin @ path_with_query) body
               True (body \<noteq> None) of
             Inl e \<Rightarrow> (Inl e, r)
           | Inr (pk, eid) \<Rightarrow>
               (case check_operator_replay (au_nostr (xe_lib (oe_auth env))) (bc_replay c) eid r of
                  (Inl e, r1) \<Rightarrow> (Inl e, r1)
                | (Inr _, r1) \<Rightarrow>
                    if pubkey_to_hex (au_nostr (xe_lib (oe_auth env))) pk \<notin> set (oe_operators env)
                    then (Inl (ApiError 403 ''actor not authorized: not a relay operator''), r1)
                    else (Inr pk, r1))))"

record transfer_request =
  tq_community_id :: string
  tq_new_owner_pubkey :: string
  tq_expected_owner_pubkey :: string

definition pubkey_or :: "string \<Rightarrow> string \<Rightarrow> (http_error, string) result" where
  "pubkey_or name value = (case validate_pubkey_hex value of
     Some pk \<Rightarrow> Inr pk | None \<Rightarrow> Inl (ApiError 400 (''invalid '' @ name @ '': expected 64-char hex pubkey'')))"

text \<open>After authorization and the parsing of the body: the status, the previous owner, the announcements.  The
  text of the parser of identifiers is left out.\<close>

definition transfer_community ::
    "operator_env \<Rightarrow> db_call \<Rightarrow> transfer_request \<Rightarrow> (http_error, string \<times> string option \<times> announcement list) db_prog" where
  "transfer_community env c q =
     (case uuid_parse (au_nostr (xe_lib (oe_auth env))) (tq_community_id q) of
        None \<Rightarrow> db_fail (ApiError 400 ''invalid community_id'')
      | Some com \<Rightarrow>
          db_bind (db_lift (pubkey_or ''new_owner_pubkey'' (tq_new_owner_pubkey q))) (\<lambda>new_owner.
          db_bind (db_lift (pubkey_or ''expected_owner_pubkey'' (tq_expected_owner_pubkey q))) (\<lambda>expected_owner.
          db_bind (db_map_err internal_error (transfer_ownership (oe_owner_limit env) c 0 com new_owner expected_owner)) (\<lambda>res.
          db_bind (db_lift (case res of
              Transferred previous \<Rightarrow> Inr (''transferred'', previous)
            | AlreadyOwner \<Rightarrow> Inr (''already_owner'', None)
            | NoOwner \<Rightarrow> Inl (ApiError 404 ''community has no owner to transfer from'')
            | OwnerConflict \<Rightarrow>
                Inl (ApiError 409 ''owner_conflict: the current owner no longer matches expected_owner_pubkey'')
            | TransferLimitReached \<Rightarrow>
                Inl (ApiError 409 ''limit_reached: transferee already owns the maximum number of communities'')))
            (\<lambda>(status, previous).
          if \<not> oe_enforced env then db_return (status, previous, [])
          else db_bind (db_map_err internal_error (lookup_community_host c 1 com)) (\<lambda>host.
            db_return (status, previous, if host \<noteq> None then [MembershipList] else [])))))))"

definition EM_DASH :: string where
  "EM_DASH = [CHR 0xE2, CHR 0x80, CHR 0x94]"

text \<open>An archived community stays archived when the order to close its connections cannot be published.\<close>

definition archive_community ::
    "operator_env \<Rightarrow> db_call \<Rightarrow> string \<Rightarrow> string \<Rightarrow> (http_error, community_id \<times> string \<times> timestamp) db_prog" where
  "archive_community env c raw_host owner_pubkey =
     db_bind (db_lift (map_sum (ApiError 400) id (normalize_candidate_host (oe_authority env) raw_host))) (\<lambda>host.
     if host = oe_deployment_host env then db_fail (ApiError 409 ''the deployment community cannot be archived'')
     else db_bind (db_lift (pubkey_or ''owner_pubkey'' owner_pubkey)) (\<lambda>owner.
       db_bind (db_map_err internal_error (archive_community_owned_by c 0 host owner (oe_deployment_host env))) (\<lambda>record.
       case record of
         None \<Rightarrow> db_fail (ApiError 404 ''community not found'')
       | Some (com, name, at) \<Rightarrow>
           db_lift (case oe_disconnect_community env com name of
               Inr _ \<Rightarrow> Inr (com, name, at)
             | Inl _ \<Rightarrow> Inl (ApiError 503 (''connection propagation pending '' @ EM_DASH @ '' retry this request''))))))"

definition unarchive_community ::
    "operator_env \<Rightarrow> db_call \<Rightarrow> string \<Rightarrow> string \<Rightarrow> (http_error, community_id \<times> string) db_prog" where
  "unarchive_community env c raw_host owner_pubkey =
     db_bind (db_lift (map_sum (ApiError 400) id (normalize_candidate_host (oe_authority env) raw_host))) (\<lambda>host.
     db_bind (db_lift (pubkey_or ''owner_pubkey'' owner_pubkey)) (\<lambda>owner.
       db_bind (db_map_err internal_error (unarchive_community_owned_by c 0 host owner)) (\<lambda>record.
       case record of None \<Rightarrow> db_fail (ApiError 404 ''community not found'') | Some rec \<Rightarrow> db_return rec)))"

definition community_availability ::
    "operator_env \<Rightarrow> db_call \<Rightarrow> string \<Rightarrow> (http_error, string \<times> bool \<times> community_id option) db_prog" where
  "community_availability env c raw_host =
     db_bind (db_lift (map_sum (ApiError 400) id (normalize_candidate_host (oe_authority env) raw_host))) (\<lambda>host.
     db_bind (db_map_err internal_error (lookup_community_by_host_for_management c 0 host)) (\<lambda>existing.
     db_return (host, existing = None, map_option fst existing)))"

section \<open>The command line of the operator\<close>

text \<open>\<open>crates/punks-admin/src/main.rs\<close>: the commands that change members, with their exit codes.  The host is the
  authority of the configured relay, \<open>parse_pubkey\<close> reads a key (a parameter); the list that is published
  afterwards changes no row.\<close>

definition single_quoted :: "string \<Rightarrow> string" where
  "single_quoted s = [CHR 0x27] @ s @ [CHR 0x27]"

definition validate_role :: "string \<Rightarrow> (string, unit) result" where
  "validate_role role =
     (if role = ''member'' \<or> role = ''admin'' then Inr ()
      else if role = ''owner''
      then Inl (''role 'owner' cannot be set via CLI '' @ EM_DASH @ '' use RELAY_OWNER_PUBKEY config'')
      else Inl (''invalid role '' @ single_quoted role @ '': must be 'member' or '' @ single_quoted ''admin''))"

definition resolve_admin_tenant :: "db_call \<Rightarrow> nat \<Rightarrow> string \<Rightarrow> (string, community_id) db_prog" where
  "resolve_admin_tenant c k host = db_bind (lookup_community_by_host c k host) (\<lambda>record.
     case record of
       None \<Rightarrow> db_fail (''RELAY_URL host '' @ single_quoted host @ '' is not mapped to a community.'')
     | Some (com, _) \<Rightarrow> db_return com)"

text \<open>A failing statement ends the command with code 5.\<close>

definition or_exit_5 :: "(db_error, nat) db_prog \<Rightarrow> (string, nat) db_prog" where
  "or_exit_5 m d = (case m d of (Inl _, d1) \<Rightarrow> (Inr 5, d1) | (Inr code, d1) \<Rightarrow> (Inr code, d1))"

definition cmd_add_member ::
    "(string \<Rightarrow> (string, string) result) \<Rightarrow> db_call \<Rightarrow> string \<Rightarrow> string \<Rightarrow> string \<Rightarrow> (string, nat) db_prog" where
  "cmd_add_member parse_pubkey c host pubkey_arg role = (case validate_role role of
     Inl _ \<Rightarrow> db_return 1
   | Inr _ \<Rightarrow> (case parse_pubkey pubkey_arg of
       Inl _ \<Rightarrow> db_return 1
     | Inr pubkey_hex \<Rightarrow> db_bind (resolve_admin_tenant c 0 host) (\<lambda>com.
         or_exit_5 (db_bind (add_relay_member c 1 com pubkey_hex role None) (\<lambda>_. db_return 0)))))"

definition remove_exit_code :: "remove_result \<Rightarrow> nat" where
  "remove_exit_code res = (case res of Removed \<Rightarrow> 0 | NotFound \<Rightarrow> 2 | IsOwner \<Rightarrow> 3 | RoleMismatch \<Rightarrow> 4)"

definition cmd_remove_member ::
    "(string \<Rightarrow> (string, string) result) \<Rightarrow> db_call \<Rightarrow> string \<Rightarrow> string \<Rightarrow> string option \<Rightarrow> (string, nat) db_prog" where
  "cmd_remove_member parse_pubkey c host pubkey_arg role_filter =
     (case (case role_filter of Some role \<Rightarrow> validate_role role | None \<Rightarrow> Inr ()) of
     Inl _ \<Rightarrow> db_return 1
   | Inr _ \<Rightarrow> (case parse_pubkey pubkey_arg of
       Inl _ \<Rightarrow> db_return 1
     | Inr pubkey_hex \<Rightarrow> db_bind (resolve_admin_tenant c 0 host) (\<lambda>com.
         or_exit_5 (db_bind (case role_filter of
             Some role \<Rightarrow> remove_relay_member_if_role c 1 com pubkey_hex role
           | None \<Rightarrow> remove_relay_member c 1 com pubkey_hex) (\<lambda>res. db_return (remove_exit_code res))))))"

end
