(* ===== verification/Roster_Safety.thy ===== *)
theory Roster_Safety
  imports Relay_Admin
begin

text \<open>
  What every session keeps of the tables.  A relation that is reflexive and transitive and that other sessions
  respect is respected by a program as soon as it is respected by its steps (\<open>session_relation\<close>); the
  invariants of the tables, the protection of the owner and the bound on owned communities are such
  relations.
\<close>

section \<open>Requests\<close>

text \<open>Whatever writes the tables: commands carried by events, the routes of invitations and of the operator,
  the command line, start-up and the retention sweep.  The deletion of a whole community is not among them.\<close>

datatype tenant_request =
    AdminEvent community_id event
  | ModerationEvent community_id event
  | FileReport community_id new_report
  | Mint tenant_context pubkey bytes
  | ClaimCode community_id string claim_request
  | Provision pubkey provision_request
  | TransferTo transfer_request
  | ArchiveHost string string
  | UnarchiveHost string string
  | ReapInvites timestamp
  | Backfill community_id
  | StartupOwner community_id string
  | Leave community_id event
  | CliAddMember string string string
  | CliRemoveMember string string "string option"

record serve_env =
  sv_moderation :: moderation_env
  sv_invite :: invite_env
  sv_operator :: operator_env
  sv_write_allowed :: "tenant_db \<Rightarrow> community_id \<Rightarrow> bool"
  sv_parse_pubkey :: "string \<Rightarrow> (string, string) result"

definition serve :: "serve_env \<Rightarrow> invite_call \<Rightarrow> tenant_request \<Rightarrow> tenant_db \<Rightarrow> tenant_db" where
  "serve env c q d =
     (let db = ic_db c; now = ic_now c; lib = me_nostr (sv_moderation env); op = sv_operator env in
      case q of
        AdminEvent com e \<Rightarrow> snd (handle_relay_admin_event lib (oe_enforced op) db now com e d)
      | ModerationEvent com e \<Rightarrow> snd (handle_moderation_command (sv_moderation env) db now com e d)
      | FileReport com nr \<Rightarrow> snd (insert_report db 0 com nr d)
      | Mint tenant pk body \<Rightarrow> snd (mint_invite_authorized (sv_invite env) c tenant pk body d)
      | ClaimCode com pk rq \<Rightarrow>
          if starts_with (cq_code rq) V2_PREFIX then snd (claim_v2 (sv_invite env) c com pk rq d)
          else snd (claim_v1 (sv_invite env) c com pk rq d)
      | Provision pk rq \<Rightarrow> snd (provision_community_route op db pk rq d)
      | TransferTo rq \<Rightarrow> snd (transfer_community op db rq d)
      | ArchiveHost host pk \<Rightarrow> snd (archive_community op db host pk d)
      | UnarchiveHost host pk \<Rightarrow> snd (unarchive_community op db host pk d)
      | ReapInvites cutoff \<Rightarrow> snd (reap_expired_relay_invites (sv_write_allowed env) db 0 cutoff d)
      | Backfill com \<Rightarrow> snd (backfill_from_allowlist lib db 0 com d)
      | StartupOwner com pk \<Rightarrow> snd (bootstrap_owner db 0 com pk d)
      | Leave com e \<Rightarrow> snd (handle_leave_request lib (oe_enforced op) db now com e d)
      | CliAddMember host pk role \<Rightarrow> snd (cmd_add_member (sv_parse_pubkey env) db host pk role d)
      | CliRemoveMember host pk role \<Rightarrow> snd (cmd_remove_member (sv_parse_pubkey env) db host pk role d))"

text \<open>The requests that may not use the authority of the deployment's root.\<close>

definition within_limit :: "tenant_request \<Rightarrow> bool" where
  "within_limit q = (case q of
     Provision _ rq \<Rightarrow> pq_create_only rq
   | StartupOwner _ _ \<Rightarrow> False
   | _ \<Rightarrow> True)"

section \<open>Relations kept by a program\<close>

named_theorems keeps_intros \<open>programs that keep a relation\<close>
named_theorems db_prog_simps \<open>running a database program\<close>

definition keeps :: "(tenant_db \<Rightarrow> tenant_db \<Rightarrow> bool) \<Rightarrow> ('e, 'a) db_prog \<Rightarrow> bool" where
  "keeps R m \<longleftrightarrow> (\<forall>d. R d (snd (m d)))"

definition others_keep :: "(tenant_db \<Rightarrow> tenant_db \<Rightarrow> bool) \<Rightarrow> db_call \<Rightarrow> bool" where
  "others_keep R c \<longleftrightarrow> (\<forall>k d. R d (qc_between c k d))"

lemma db_return_run [simp]: "db_return x d = (Inr x, d)"
  by (simp add: db_return_def)

lemma db_fail_run [simp]: "db_fail e d = (Inl e, d)"
  by (simp add: db_fail_def)

lemma db_lift_run [simp]: "db_lift r d = (r, d)"
  by (simp add: db_lift_def)

lemma db_bind_run:
  "m d = (Inl e, d1) \<Longrightarrow> db_bind m f d = (Inl e, d1)"
  "m d = (Inr x, d1) \<Longrightarrow> db_bind m f d = f x d1"
  by (simp_all add: db_bind_def)

lemma db_bind_simps [simp]:
  "db_bind (db_return x) f = f x"
  "db_bind (db_fail e) f = db_fail e"
  "db_bind (db_lift (Inl e)) f = db_fail e"
  "db_bind (db_lift (Inr x)) f = f x"
  by (simp_all add: fun_eq_iff db_bind_def)

lemma db_map_err_run:
  "m d = (Inl e, d1) \<Longrightarrow> db_map_err g m d = (Inl (g e), d1)"
  "m d = (Inr x, d1) \<Longrightarrow> db_map_err g m d = (Inr x, d1)"
  by (simp_all add: db_map_err_def)

lemma snd_db_map_err [simp]: "snd (db_map_err g m d) = snd (m d)"
  by (simp add: db_map_err_def split: prod.split sum.split)

lemma fst_db_map_err [simp]: "fst (db_map_err g m d) = map_sum g id (fst (m d))"
  by (simp add: db_map_err_def split: prod.split sum.split)

lemma snd_db_bind:
  "snd (db_bind m f d) = (case fst (m d) of Inl e \<Rightarrow> snd (m d) | Inr x \<Rightarrow> snd (f x (snd (m d))))"
  by (simp add: db_bind_def split: prod.split sum.split)

lemma db_read_run:
  "db_read c k q d =
     (case qc_fault c k of Some (e, done) \<Rightarrow> Inl e | None \<Rightarrow> Inr (q (qc_between c k d)), qc_between c k d)"
  by (simp add: db_read_def db_exec_def Let_def split: option.split)

lemma db_write_run:
  "db_write c k f d =
     (let d0 = qc_between c k d in case qc_fault c k of
        Some (e, done) \<Rightarrow> (Inl e, if done then snd (f d0) else d0)
      | None \<Rightarrow> (Inr (fst (f d0)), snd (f d0)))"
  by (simp add: db_write_def db_exec_def Let_def split: option.split)

locale session_relation =
  fixes R :: "tenant_db \<Rightarrow> tenant_db \<Rightarrow> bool"
  assumes kept_refl: "R d d"
    and kept_trans: "R d d1 \<Longrightarrow> R d1 d2 \<Longrightarrow> R d d2"
begin

lemma keeps_return [keeps_intros]: "keeps R (db_return x)"
  by (simp add: keeps_def kept_refl)

lemma keeps_fail [keeps_intros]: "keeps R (db_fail e)"
  by (simp add: keeps_def kept_refl)

lemma keeps_lift [keeps_intros]: "keeps R (db_lift r)"
  by (simp add: keeps_def kept_refl)

lemma keeps_Pair [keeps_intros]: "keeps R (Pair r)"
  by (simp add: keeps_def kept_refl)

lemma keeps_bind [keeps_intros]: "keeps R m \<Longrightarrow> (\<And>x. keeps R (f x)) \<Longrightarrow> keeps R (db_bind m f)"
  unfolding keeps_def snd_db_bind by (auto split: sum.split intro: kept_trans)

lemma keeps_map_err [keeps_intros]: "keeps R m \<Longrightarrow> keeps R (db_map_err g m)"
  by (simp add: keeps_def)

lemma keeps_if: "keeps R m \<Longrightarrow> keeps R n \<Longrightarrow> keeps R (if b then m else n)"
  by simp

lemma keeps_exec: "others_keep R c \<Longrightarrow> (\<And>d. R d (snd (f d))) \<Longrightarrow> keeps R (db_exec c k f)"
  unfolding keeps_def others_keep_def db_exec_def
  by (auto simp: Let_def split: option.split prod.split intro: kept_trans) (metis kept_trans snd_conv)+

lemma keeps_read [keeps_intros]: "others_keep R c \<Longrightarrow> keeps R (db_read c k q)"
  by (simp add: keeps_def others_keep_def db_read_run)

lemma keeps_write: "others_keep R c \<Longrightarrow> (\<And>d. R d (snd (f d))) \<Longrightarrow> keeps R (db_write c k f)"
  unfolding db_write_def by (rule keeps_exec) simp_all

end

lemma verify_invite_role:
  assumes "verify_invite lib now key com code = Inr p"
  shows "ip_r p = ''member''"
proof -
  from assms obtain bs where "(case il_invite_from_json lib bs of
      None \<Rightarrow> Inl Malformed
    | Some p \<Rightarrow>
        if ip_e p < now then Inl InviteExpired
        else if ip_c p \<noteq> uuid_to_string (au_nostr (il_auth lib)) com then Inl WrongCommunity
        else if ip_r p \<noteq> ''member'' then Inl InvalidRole
        else Inr p) = Inr p"
    by (cases "length code > MAX_CODE_LEN"; cases "open_token lib key code") (simp_all add: verify_invite_def)
  then show ?thesis by (cases "il_invite_from_json lib bs") (simp_all split: if_split_asm)
qed

text \<open>The steps of a community's administration, of moderation and of invitations.\<close>

locale tenant_steps = session_relation +
  assumes insert_step: "role = ''admin'' \<or> role = ''member'' \<Longrightarrow> R d (snd (insert_member com pk role by now d))"
    and delete_step: "\<not> ok ''owner'' \<Longrightarrow> R d (snd (delete_member_if ok com pk d))"
    and role_step: "role = ''admin'' \<or> role = ''member'' \<Longrightarrow> R d (snd (set_role_unless_owner com pk role now d))"
    and policy_step: "R d (accept_join_policy com pk v d)"
    and community_step: "R d (d\<lparr>td_communities := AList.update com row (td_communities d)\<rparr>)"
    and ban_step: "R d (put_ban com key b d)"
    and close_step: "status = ''resolved'' \<or> status = ''dismissed'' \<Longrightarrow> R d (snd (close_report com i status actor act now d))"
    and report_step: "rr_status r = ''open'' \<Longrightarrow> map_of (td_reports d) (com, i) = None \<Longrightarrow>
      R d (d\<lparr>td_reports := AList.update (com, i) r (td_reports d)\<rparr>)"
    and action_step: "ar_action a \<in> set MODERATION_ACTION_CHECK_VOCAB \<Longrightarrow> map_of (td_actions d) (com, i) = None \<Longrightarrow>
      R d (d\<lparr>td_actions := AList.update (com, i) a (td_actions d)\<rparr>)"
    and mint_step: "iv_use_count row' = 0 \<Longrightarrow> (case iv_max_uses row' of Some n \<Rightarrow> 1 \<le> n \<and> n \<le> MAX_INVITE_USES | None \<Rightarrow> True) \<Longrightarrow>
      R d (snd (insert_invite com nid row' d))"
    and claim_step: "R d (snd (claim_invite_tx com token pk v now d))"
    and reap_step: "R d (d\<lparr>td_invites := filter P (td_invites d)\<rparr>)"
begin

lemma keeps_get_relay_member [keeps_intros]: "others_keep R c \<Longrightarrow> keeps R (get_relay_member c k com pk)"
  unfolding get_relay_member_def by (rule keeps_read)

lemma keeps_add_relay_member:
  "others_keep R c \<Longrightarrow> role = ''admin'' \<or> role = ''member'' \<Longrightarrow> keeps R (add_relay_member c k com pk role by)"
  unfolding add_relay_member_def by (rule keeps_exec) (simp_all add: insert_step)

lemma keeps_claim_relay_membership:
  assumes "others_keep R c"
  shows "keeps R (claim_relay_membership c k com pk ''member'' v)"
  unfolding claim_relay_membership_def
proof (rule keeps_exec [OF assms])
  fix d
  show "R d (snd (case insert_member com pk ''member'' (Some ''invite'') (qc_now c k) d of
      (Inl e, _) \<Rightarrow> (Inl e, d) | (Inr inserted, d1) \<Rightarrow> (Inr inserted, accept_join_policy com pk v d1)))"
    using insert_step [of "''member''" d com pk "Some ''invite''" "qc_now c k"] policy_step kept_trans kept_refl
    by (auto split: prod.split sum.split)
qed

lemma keeps_remove_relay_member [keeps_intros]: "others_keep R c \<Longrightarrow> keeps R (remove_relay_member c k com pk)"
  unfolding remove_relay_member_def
  by (intro keeps_intros keeps_write) (auto intro!: delete_step keeps_intros)

lemma keeps_remove_relay_member_if_role [keeps_intros]:
  "others_keep R c \<Longrightarrow> role \<noteq> ''owner'' \<Longrightarrow> keeps R (remove_relay_member_if_role c k com pk role)"
  unfolding remove_relay_member_if_role_def
  by (intro keeps_intros keeps_write) (auto intro!: delete_step keeps_intros)

lemma keeps_update_relay_member_role:
  "others_keep R c \<Longrightarrow> role = ''admin'' \<or> role = ''member'' \<Longrightarrow> keeps R (update_relay_member_role c k com pk role)"
  unfolding update_relay_member_role_def by (rule keeps_write) (simp_all add: role_step)

lemma keeps_set_community_icon [keeps_intros]: "others_keep R c \<Longrightarrow> keeps R (set_community_icon c k com icon)"
  unfolding set_community_icon_def
  by (rule keeps_write) (auto simp: kept_refl intro: community_step split: option.split)

lemma keeps_set_workspace_profile [keeps_intros]:
  "others_keep R c \<Longrightarrow> keeps R (set_workspace_profile enforced c k com role e)"
  unfolding set_workspace_profile_def has_admin_or_owner_def Let_def
  by (auto intro!: keeps_intros)

lemma keeps_admin_add_member [keeps_intros]:
  "others_keep R c \<Longrightarrow> keeps R (admin_add_member c k com sender role target e)"
  unfolding admin_add_member_def Let_def by (auto intro!: keeps_intros keeps_add_relay_member)

lemma keeps_admin_remove_member [keeps_intros]:
  "others_keep R c \<Longrightarrow> keeps R (admin_remove_member c k com sender role target)"
  unfolding admin_remove_member_def by (auto intro!: keeps_intros split: remove_result.split)

lemma keeps_admin_change_role [keeps_intros]:
  "others_keep R c \<Longrightarrow> keeps R (admin_change_role c k com sender role target e)"
  unfolding admin_change_role_def
  by (auto intro!: keeps_intros keeps_update_relay_member_role split: option.split)

lemma keeps_relay_admin_event [keeps_intros]:
  "others_keep R c \<Longrightarrow> keeps R (handle_relay_admin_event lib enforced c now com e)"
  unfolding handle_relay_admin_event_def execute_relay_admin_command_def moderation_restriction_state_def Let_def
  by (auto intro!: keeps_intros split: option.split)

lemma keeps_leave [keeps_intros]: "others_keep R c \<Longrightarrow> keeps R (handle_leave_request lib enforced c now com e)"
  unfolding handle_leave_request_def Let_def by (auto intro!: keeps_intros split: remove_result.split)

lemma keeps_or_exit_5 [keeps_intros]: "keeps R m \<Longrightarrow> keeps R (or_exit_5 m)"
  by (simp add: keeps_def or_exit_5_def split: prod.split sum.split) (metis snd_conv)

lemma keeps_admin_tenant [keeps_intros]: "others_keep R c \<Longrightarrow> keeps R (resolve_admin_tenant c k host)"
  unfolding resolve_admin_tenant_def lookup_community_by_host_def by (auto intro!: keeps_intros split: option.split prod.split)

lemma keeps_cmd_add_member [keeps_intros]: "others_keep R c \<Longrightarrow> keeps R (cmd_add_member parse c host pk role)"
  unfolding cmd_add_member_def
  by (auto intro!: keeps_intros keeps_add_relay_member simp: validate_role_def split: sum.split)

lemma keeps_cmd_remove_member [keeps_intros]: "others_keep R c \<Longrightarrow> keeps R (cmd_remove_member parse c host pk role)"
  unfolding cmd_remove_member_def
  by (auto intro!: keeps_intros simp: validate_role_def split: sum.split option.split)

lemma keeps_authorize [keeps_intros]:
  "others_keep R c \<Longrightarrow> keeps R (authorize_moderation_action env c k com actor ch target action)"
  unfolding authorize_moderation_action_def Let_def
  by (auto intro!: keeps_intros split: moderation_target.split option.split)

lemma keeps_insert_audit:
  "others_keep R c \<Longrightarrow> action \<in> set MODERATION_ACTION_CHECK_VOCAB \<Longrightarrow> keeps R (insert_audit c k com actor action tp te reason)"
  unfolding insert_audit_def insert_action_def
  by (intro keeps_map_err keeps_exec) (auto simp: kept_refl intro!: action_step)

lemma keeps_ban_member [keeps_intros]: "others_keep R c \<Longrightarrow> keeps R (ban_member c k com target actor reason exp)"
  unfolding ban_member_def by (rule keeps_write) (simp_all add: ban_step)

lemma keeps_timeout_member [keeps_intros]: "others_keep R c \<Longrightarrow> keeps R (timeout_member c k com target actor till reason)"
  unfolding timeout_member_def by (rule keeps_write) (simp_all add: ban_step)

lemma keeps_unban_member [keeps_intros]: "others_keep R c \<Longrightarrow> keeps R (unban_member c k com target actor)"
  unfolding unban_member_def lift_ban_def by (rule keeps_write) (auto simp: ban_step kept_refl split: option.split)

lemma keeps_untimeout_member [keeps_intros]: "others_keep R c \<Longrightarrow> keeps R (untimeout_member c k com target actor)"
  unfolding untimeout_member_def lift_timeout_def by (rule keeps_write) (auto simp: ban_step kept_refl split: option.split)

lemma keeps_resolve_report:
  "others_keep R c \<Longrightarrow> status = ''resolved'' \<or> status = ''dismissed'' \<Longrightarrow> keeps R (resolve_report c k com i status actor act)"
  unfolding resolve_report_def by (rule keeps_write) (simp_all add: close_step)

lemma keeps_handle_resolve [keeps_intros]: "others_keep R c \<Longrightarrow> keeps R (handle_resolve env c k com e actor)"
proof -
  assume c: "others_keep R c"
  have vocab: "keeps R (db_bind (db_lift (resolve_vocabulary status action)) (\<lambda>_. m))"
    if "(status = ''resolved'' \<or> status = ''dismissed'') \<and> action \<in> set RESOLVE_ACTIONS \<Longrightarrow> keeps R m"
    for status action and m :: "(string, moderation_effect list) db_prog"
    using that by (auto simp: resolve_vocabulary_def intro: keeps_fail)
  have audited: "action \<in> set RESOLVE_ACTIONS \<Longrightarrow> resolution_audit_action action \<in> set MODERATION_ACTION_CHECK_VOCAB" for action
    by (auto simp: RESOLVE_ACTIONS_def resolution_audit_action_def MODERATION_ACTION_CHECK_VOCAB_def)
  have "keeps R (record_resolution c j com actor status action reason found)"
    if "status = ''resolved'' \<or> status = ''dismissed''" "action \<in> set RESOLVE_ACTIONS" for j status action reason found
    using that unfolding record_resolution_def
    by (auto intro!: keeps_intros keeps_insert_audit keeps_resolve_report c audited split: prod.split)
  then show ?thesis
    unfolding handle_resolve_def get_report_by_event_def Let_def
    by (intro keeps_intros c vocab) auto
qed

lemma keeps_moderation_command [keeps_intros]:
  "others_keep R c \<Longrightarrow> keeps R (handle_moderation_command env c now com e)"
  unfolding handle_moderation_command_def handle_ban_def handle_unban_def handle_timeout_def handle_untimeout_def
    moderation_restriction_state_def Let_def
  by (auto intro!: keeps_intros keeps_insert_audit simp: MODERATION_ACTION_CHECK_VOCAB_def)

lemma keeps_insert_report [keeps_intros]: "others_keep R c \<Longrightarrow> keeps R (insert_report c k com nr)"
  unfolding insert_report_def
  by (rule keeps_exec) (auto simp: kept_refl intro!: report_step split: option.split)

lemma keeps_mint_relay_invite [keeps_intros]:
  "others_keep R c \<Longrightarrow> keeps R (mint_relay_invite lib classify secret c k com by ttl uses)"
  unfolding mint_relay_invite_def Let_def
  by (cases "validate_mint_inputs ttl uses")
    (auto simp: validate_mint_inputs_def split: if_splits option.splits
      intro!: keeps_intros keeps_exec mint_step)

lemma keeps_mint_invite_authorized [keeps_intros]:
  "others_keep R (ic_db c) \<Longrightarrow> keeps R (mint_invite_authorized env c tenant pk body)"
  unfolding mint_invite_authorized_def Let_def by (auto intro!: keeps_intros split: prod.split)

lemma keeps_claim_relay_invite [keeps_intros]: "others_keep R c \<Longrightarrow> keeps R (claim_relay_invite c k com token pk v)"
  unfolding claim_relay_invite_def by (rule keeps_exec) (simp_all add: claim_step)

lemma keeps_claim_v2 [keeps_intros]: "others_keep R (ic_db c) \<Longrightarrow> keeps R (claim_v2 env c com pk q)"
  unfolding claim_v2_def by (auto intro!: keeps_intros split: claim_outcome.split)

lemma keeps_claim_v1 [keeps_intros]: "others_keep R (ic_db c) \<Longrightarrow> keeps R (claim_v1 env c com pk q)"
  unfolding claim_v1_def
  by (auto intro!: keeps_intros keeps_claim_relay_membership simp: verify_invite_role split: sum.split invite_error.split)

lemma kept_mint_invite: "others_keep R (ic_db c) \<Longrightarrow> R (in_db n) (in_db (snd (mint_invite env c q n)))"
proof -
  assume "others_keep R (ic_db c)"
  then have db: "R d (snd (mint_invite_authorized env c tenant pk body d))" for tenant pk body d
    using keeps_mint_invite_authorized by (simp add: keeps_def)
  obtain res r where "authenticate_invite env c ''/api/invites'' q (in_redis n) = (res, r)" by fastforce
  then show ?thesis using db by (cases res) (auto simp: mint_invite_def kept_refl case_prod_beta Let_def)
qed

lemma kept_claim_invite: "others_keep R (ic_db c) \<Longrightarrow> R (in_db n) (in_db (snd (claim_invite env c q n)))"
proof -
  assume "others_keep R (ic_db c)"
  then have db: "R d (snd (claim_v1 env c com pk rq d))" "R d (snd (claim_v2 env c com pk rq d))" for com pk rq d
    using keeps_claim_v1 keeps_claim_v2 by (simp_all add: keeps_def)
  obtain res r where "authenticate_invite env c ''/api/invites/claim'' q (in_redis n) = (res, r)" by fastforce
  then show ?thesis
    using db by (cases res) (auto simp: claim_invite_def kept_refl case_prod_beta Let_def split: sum.split)
qed

lemma keeps_reap [keeps_intros]: "others_keep R c \<Longrightarrow> keeps R (reap_expired_relay_invites allowed c k cutoff)"
  unfolding reap_expired_relay_invites_def by (rule keeps_write) (simp_all add: Let_def reap_step)

lemma kept_insert_all: "R d (snd (insert_all rows com n d))"
proof (induction rows arbitrary: n d)
  case (Cons row rows)
  obtain pk t where row: "row = (pk, t)" by (metis prod.exhaust)
  obtain b d2 where ins: "insert_member com pk ''member'' None t d = (b, d2)" by fastforce
  then have "R d d2" using insert_step [of "''member''" d com pk None t] by simp
  with Cons.IH show ?case by (auto simp: row ins split: sum.split intro: kept_trans)
qed (simp add: kept_refl)

lemma kept_backfill_rows: "R d (snd (backfill_rows lib com d))"
  using kept_insert_all [where rows = "allowlist_rows lib com d" and com = com and n = 0 and d = d]
  by (auto simp: backfill_rows_def kept_refl split: prod.split sum.split)

lemma keeps_backfill [keeps_intros]: "others_keep R c \<Longrightarrow> keeps R (backfill_from_allowlist lib c k com)"
  unfolding backfill_from_allowlist_def by (auto intro!: keeps_intros keeps_exec kept_backfill_rows)

lemma keeps_archive [keeps_intros]: "others_keep R c \<Longrightarrow> keeps R (archive_community env c host owner)"
  unfolding archive_community_def archive_community_owned_by_def
  by (auto intro!: keeps_intros keeps_write community_step simp: kept_refl Let_def split: option.split)

lemma keeps_unarchive [keeps_intros]: "others_keep R c \<Longrightarrow> keeps R (unarchive_community env c host owner)"
  unfolding unarchive_community_def unarchive_community_owned_by_def
  by (auto intro!: keeps_intros keeps_write community_step simp: kept_refl Let_def split: option.split)

lemma kept_insert_community: "R d (snd (insert_community nid host now d))"
  by (auto simp: insert_community_def kept_refl intro: community_step)

end

text \<open>The statements and transactions of the program that write the tables, other than the bootstrap of an owner.
  \<open>limit\<close> is the number of communities a key may own.\<close>

inductive tenant_statement :: "int \<Rightarrow> tenant_db \<Rightarrow> tenant_db \<Rightarrow> bool" for limit :: int where
  ts_insert_member: "role = ''admin'' \<or> role = ''member'' \<Longrightarrow> tenant_statement limit d (snd (insert_member com pk role by now d))"
| ts_delete_member: "\<not> ok ''owner'' \<Longrightarrow> tenant_statement limit d (snd (delete_member_if ok com pk d))"
| ts_set_role: "role = ''admin'' \<or> role = ''member'' \<Longrightarrow>
    tenant_statement limit d (snd (set_role_unless_owner com pk role now d))"
| ts_accept_policy: "tenant_statement limit d (accept_join_policy com pk v d)"
| ts_write_community: "tenant_statement limit d (d\<lparr>td_communities := AList.update com row (td_communities d)\<rparr>)"
| ts_put_ban: "tenant_statement limit d (put_ban com key b d)"
| ts_close_report: "status = ''resolved'' \<or> status = ''dismissed'' \<Longrightarrow>
    tenant_statement limit d (snd (close_report com i status actor act now d))"
| ts_new_report: "rr_status r = ''open'' \<Longrightarrow> map_of (td_reports d) (com, i) = None \<Longrightarrow>
    tenant_statement limit d (d\<lparr>td_reports := AList.update (com, i) r (td_reports d)\<rparr>)"
| ts_new_action: "ar_action a \<in> set MODERATION_ACTION_CHECK_VOCAB \<Longrightarrow> map_of (td_actions d) (com, i) = None \<Longrightarrow>
    tenant_statement limit d (d\<lparr>td_actions := AList.update (com, i) a (td_actions d)\<rparr>)"
| ts_mint_invite: "iv_use_count invite = 0 \<Longrightarrow>
    (case iv_max_uses invite of Some n \<Rightarrow> 1 \<le> n \<and> n \<le> MAX_INVITE_USES | None \<Rightarrow> True) \<Longrightarrow>
    tenant_statement limit d (snd (insert_invite com nid invite d))"
| ts_claim_invite: "tenant_statement limit d (snd (claim_invite_tx com token pk v now d))"
| ts_reap_invites: "tenant_statement limit d (d\<lparr>td_invites := filter P (td_invites d)\<rparr>)"
| ts_transfer: "tenant_statement limit d (snd (transfer_owner_tx limit com pk expected now d))"
| ts_create: "tenant_statement limit d (snd (create_community_tx limit nid host pk now d))"

definition statements :: "int \<Rightarrow> tenant_db \<Rightarrow> tenant_db \<Rightarrow> bool" where
  "statements limit = (tenant_statement limit)\<^sup>*\<^sup>*"

text \<open>Other sessions execute such statements, any number of them, between the steps of a call.\<close>

definition others_run :: "int \<Rightarrow> db_call \<Rightarrow> bool" where
  "others_run limit c \<longleftrightarrow> others_keep (statements limit) c"

lemma statementsI: "tenant_statement limit d d' \<Longrightarrow> statements limit d d'"
  by (simp add: statements_def)

lemma statements_trans: "statements limit d d1 \<Longrightarrow> statements limit d1 d2 \<Longrightarrow> statements limit d d2"
  unfolding statements_def by (rule rtranclp_trans)

text \<open>The steps that hand out the role of an owner.\<close>

locale ownership_steps = tenant_steps +
  fixes limit :: int
  assumes transfer_step: "R d (snd (transfer_owner_tx limit com pk expected now d))"
    and create_step: "R d (snd (create_community_tx limit nid host pk now d))"
begin

lemma keeps_transfer [keeps_intros]:
  assumes "others_keep R c" "oe_owner_limit env = limit"
  shows "keeps R (transfer_community env c q)"
  unfolding transfer_community_def transfer_ownership_def lookup_community_host_def assms(2) using assms(1)
  by (auto intro!: keeps_intros keeps_exec transfer_step split: option.split prod.split transfer_result.split)

lemma keeps_create [keeps_intros]:
  "others_keep R c \<Longrightarrow> keeps R (create_community_with_owner limit c k host owner)"
  unfolding create_community_with_owner_def by (rule keeps_exec) (simp_all add: create_step)

lemma keeps_provision_create_only:
  assumes "others_keep R c" "oe_owner_limit env = limit" "pq_create_only q"
  shows "keeps R (provision_community env c operator q)"
  unfolding provision_community_def Let_def assms(2) using assms(1,3)
  by (auto intro!: keeps_intros split: option.split create_result.split)

lemma kept_serve_within_limit:
  assumes "others_keep R (ic_db c)" "oe_owner_limit (sv_operator env) = limit" "within_limit q"
  shows "R d (serve env c q d)"
proof -
  have k: "keeps R m \<Longrightarrow> R d (snd (m d))" for m :: "('e, 'a) db_prog" by (simp add: keeps_def)
  show ?thesis
    using assms
    by (cases q) (auto simp: serve_def Let_def within_limit_def provision_community_route_def
        intro!: k keeps_intros keeps_provision_create_only [OF _ assms(2)] keeps_transfer [OF _ assms(2)])
qed

lemma kept_statement: "tenant_statement limit d d' \<Longrightarrow> R d d'"
  by (erule tenant_statement.cases)
    (auto intro: insert_step delete_step role_step policy_step community_step ban_step close_step report_step action_step
      mint_step claim_step reap_step transfer_step create_step)

lemma kept_statements: "statements limit d d' \<Longrightarrow> R d d'"
  unfolding statements_def by (induction rule: rtranclp_induct) (auto intro: kept_refl kept_trans kept_statement)

lemma others_run_keep: "others_run limit c \<Longrightarrow> others_keep R c"
  by (simp add: others_run_def others_keep_def kept_statements)

end

text \<open>What a request does, with other sessions at work, is again a sequence of such statements.\<close>

interpretation programs: ownership_steps "statements limit" limit for limit
  by unfold_locales (auto intro: statementsI tenant_statement.intros statements_trans simp: statements_def [THEN fun_cong, THEN fun_cong])

locale bootstrap_steps = ownership_steps +
  assumes bootstrap_step: "upsert_allowed com pk d \<Longrightarrow> R d (demote_seen_owners seen com pk ''admin'' now (upsert_owner com pk now d))"
begin

lemma keeps_bootstrap [keeps_intros]: "others_keep R c \<Longrightarrow> keeps R (bootstrap_owner c k com owner)"
proof -
  assume c: "others_keep R c"
  have "keeps R (db_exec c (k + 1) (bootstrap_tx seen com pk now))" for seen pk now
    by (rule keeps_exec [OF c]) (simp add: bootstrap_tx_def bootstrap_step kept_refl)
  then show ?thesis
    using c unfolding keeps_def others_keep_def bootstrap_owner_def Let_def by (blast intro: kept_trans)
qed

lemma keeps_ensure [keeps_intros]: "others_keep R c \<Longrightarrow> keeps R (ensure_configured_community c k host)"
proof -
  assume c: "others_keep R c"
  have "R d (snd (case insert_community nid host now d of (Inl e, d1) \<Rightarrow> (Inl e, d1) | (Inr com, d1) \<Rightarrow> (Inr (com, host, True), d1)))"
    for d nid now
    using kept_insert_community [of d nid host now] by (auto split: prod.split sum.split)
  with c show ?thesis
    unfolding ensure_configured_community_def
    by (intro keeps_exec) (auto simp: kept_refl split: option.split)
qed

lemma keeps_provision [keeps_intros]:
  assumes "others_keep R c" "oe_owner_limit env = limit"
  shows "keeps R (provision_community env c operator q)"
  unfolding provision_community_def Let_def assms(2) using assms(1)
  by (auto intro!: keeps_intros split: option.split create_result.split prod.split)

lemma kept_serve:
  assumes "others_keep R (ic_db c)" "oe_owner_limit (sv_operator env) = limit"
  shows "R d (serve env c q d)"
proof (cases "within_limit q")
  case True
  with assms show ?thesis by (rule kept_serve_within_limit)
next
  case False
  have k: "keeps R m \<Longrightarrow> R d (snd (m d))" for m :: "('e, 'a) db_prog" by (simp add: keeps_def)
  from False show ?thesis
    using keeps_provision [OF assms] keeps_bootstrap [OF assms(1)]
    by (cases q) (auto simp: serve_def Let_def within_limit_def provision_community_route_def intro!: k)
qed

end

end
