(* ===== verification/Tenant_Safety.thy ===== *)
theory Tenant_Safety
  imports Roster_Safety
begin

text \<open>
  What holds of the tables whatever requests are served, in whatever interleaving: the rows are well-formed, a
  community has at most one owner and never loses it, and nobody is made the owner of more communities
  than the limit allows.
\<close>

section \<open>Owners\<close>

definition is_owner :: "tenant_db \<Rightarrow> community_id \<Rightarrow> string \<Rightarrow> bool" where
  "is_owner d com pk = (case member_of d com pk of Some m \<Rightarrow> is_owner_row m | None \<Rightarrow> False)"

text \<open>Distinct keys, and members refer to communities.\<close>

definition members_wf :: "tenant_db \<Rightarrow> bool" where
  "members_wf d \<longleftrightarrow> distinct (map fst (td_members d)) \<and>
     (\<forall>com pk. member_of d com pk \<noteq> None \<longrightarrow> community_exists d com)"

lemma owners_of_iff:
  assumes "distinct (map fst (td_members d))"
  shows "pk \<in> set (owners_of d com) \<longleftrightarrow> is_owner d com pk"
proof -
  have "pk \<in> set (owners_of d com) \<longleftrightarrow> (\<exists>m. ((com, pk), m) \<in> set (td_members d) \<and> is_owner_row m)"
    by (force simp: owners_of_def)
  then show ?thesis
    using map_of_distinct_iff [OF assms, of "(com, pk)"]
    by (cases "map_of (td_members d) (com, pk)") (simp_all add: is_owner_def member_of_def, metis option.inject)
qed

lemma distinct_owners_of: "distinct (map fst (td_members d)) \<Longrightarrow> distinct (owners_of d com)"
proof -
  assume d: "distinct (map fst (td_members d))"
  let ?rows = "filter (\<lambda>((com', _), m). com' = com \<and> is_owner_row m) (td_members d)"
  have "distinct (map fst ?rows)" using d by (rule distinct_map_filter)
  moreover have "inj_on snd (set (map fst ?rows))" by (auto simp: inj_on_def)
  ultimately have "distinct (map snd (map fst ?rows))" by (simp only: distinct_map)
  then show ?thesis by (simp add: owners_of_def comp_def)
qed

text \<open>What each step does to the owners.\<close>

lemma member_of_put [simp]:
  "member_of (put_member com pk m d) com' pk' = (if com' = com \<and> pk' = pk then Some m else member_of d com' pk')"
  by (simp add: member_of_def put_member_def)

lemma member_of_delete [simp]:
  "member_of (delete_member com pk d) com' pk' = (if com' = com \<and> pk' = pk then None else member_of d com' pk')"
  by (simp add: member_of_def delete_member_def)

lemma map_of_map_row: "map_of (map (\<lambda>(k, v). (k, f k v)) al) k = map_option (f k) (map_of al k)"
  by (induction al) auto

lemma member_of_demote:
  "member_of (demote_other_owners com pk role now d) com' pk' =
     map_option (\<lambda>m. if com' = com \<and> rm_role m = ''owner'' \<and> pk' \<noteq> pk
       then m\<lparr>rm_role := role, rm_updated_at := now\<rparr> else m) (member_of d com' pk')"
proof -
  have "td_members (demote_other_owners com pk role now d) =
      map (\<lambda>(k, m). (k, if fst k = com \<and> rm_role m = ''owner'' \<and> snd k \<noteq> pk
        then m\<lparr>rm_role := role, rm_updated_at := now\<rparr> else m)) (td_members d)"
    by (auto simp: demote_other_owners_def)
  then show ?thesis
    using map_of_map_row [of "\<lambda>k m. if fst k = com \<and> rm_role m = ''owner'' \<and> snd k \<noteq> pk
        then m\<lparr>rm_role := role, rm_updated_at := now\<rparr> else m" "td_members d" "(com', pk')"]
    by (simp only: member_of_def fst_conv snd_conv)
qed

lemma keys_put [simp]: "distinct (map fst (td_members d)) \<Longrightarrow> distinct (map fst (td_members (put_member com pk m d)))"
  by (simp add: put_member_def)

lemma keys_demote [simp]: "map fst (td_members (demote_other_owners com pk role now d)) = map fst (td_members d)"
  by (simp add: demote_other_owners_def case_prod_beta comp_def)

lemma keys_delete [simp]: "distinct (map fst (td_members d)) \<Longrightarrow> distinct (map fst (td_members (delete_member com pk d)))"
  by (simp add: delete_member_def)

lemma exists_put [simp]: "community_exists (put_member com pk m d) = community_exists d"
  by (simp add: community_exists_def put_member_def fun_eq_iff)

lemma exists_delete [simp]: "community_exists (delete_member com pk d) = community_exists d"
  by (simp add: community_exists_def delete_member_def fun_eq_iff)

lemma exists_demote [simp]: "community_exists (demote_other_owners com pk role now d) = community_exists d"
  by (simp add: community_exists_def demote_other_owners_def fun_eq_iff)

lemma is_owner_new_owner:
  "role \<noteq> ''owner'' \<Longrightarrow>
   is_owner (demote_other_owners com pk role now (upsert_owner com pk now d)) com' pk' \<longleftrightarrow>
     (if com' = com then pk' = pk else is_owner d com' pk')"
  by (auto simp: is_owner_def member_of_demote upsert_owner_def is_owner_row_def new_member_def split: option.split)

lemma members_wf_new_owner:
  "members_wf d \<Longrightarrow> upsert_allowed com pk d \<Longrightarrow>
   members_wf (demote_other_owners com pk role now (upsert_owner com pk now d))"
  by (auto simp: members_wf_def member_of_demote upsert_owner_def upsert_allowed_def split: option.split)

lemma is_owner_steps:
  "role \<noteq> ''owner'' \<Longrightarrow> is_owner (snd (insert_member com pk role by now d)) com' pk' = is_owner d com' pk'"
  "\<not> ok ''owner'' \<Longrightarrow> is_owner (snd (delete_member_if ok com pk d)) com' pk' = is_owner d com' pk'"
  "role \<noteq> ''owner'' \<Longrightarrow> is_owner (snd (set_role_unless_owner com pk role now d)) com' pk' = is_owner d com' pk'"
  by (auto simp: is_owner_def insert_member_def delete_member_if_def set_role_unless_owner_def is_owner_row_def new_member_def
      split: option.split)

lemma members_wf_steps:
  "members_wf d \<Longrightarrow> members_wf (snd (insert_member com pk role by now d))"
  "members_wf d \<Longrightarrow> members_wf (snd (delete_member_if ok com pk d))"
  "members_wf d \<Longrightarrow> members_wf (snd (set_role_unless_owner com pk role now d))"
  by (auto simp: members_wf_def insert_member_def delete_member_if_def set_role_unless_owner_def
      split: option.split if_splits)

text \<open>A step elsewhere: the members are as before, and no community is gone.\<close>

definition same_roster :: "tenant_db \<Rightarrow> tenant_db \<Rightarrow> bool" where
  "same_roster d d' \<longleftrightarrow> td_members d' = td_members d \<and> (\<forall>com. community_exists d com \<longrightarrow> community_exists d' com)"

lemma same_roster_is_owner: "same_roster d d' \<Longrightarrow> is_owner d' com pk = is_owner d com pk"
  by (simp add: same_roster_def is_owner_def member_of_def)

lemma same_roster_wf: "same_roster d d' \<Longrightarrow> members_wf d \<Longrightarrow> members_wf d'"
  by (auto simp: same_roster_def members_wf_def member_of_def)

lemma same_roster_steps:
  "same_roster d (accept_join_policy com pk v d)"
  "same_roster d (d\<lparr>td_communities := AList.update com row (td_communities d)\<rparr>)"
  "same_roster d (put_ban com key b d)"
  "same_roster d (snd (close_report com i status actor act now d))"
  "same_roster d (d\<lparr>td_reports := rs\<rparr>)"
  "same_roster d (d\<lparr>td_actions := as\<rparr>)"
  "same_roster d (d\<lparr>td_invites := ivs\<rparr>)"
  "same_roster d (snd (insert_invite com nid inv' d))"
  by (auto simp: same_roster_def accept_join_policy_def put_ban_def close_report_def insert_invite_def community_exists_def
      split: option.split)

text \<open>A claim changes the members as the insertion of a member does, or not at all.\<close>

lemma claim_tx_members:
  "same_roster d (snd (claim_invite_tx com token pk v now d)) \<or>
   same_roster (snd (insert_member com pk ''member'' (Some ''invite'') now d)) (snd (claim_invite_tx com token pk v now d))"
proof -
  have "same_roster (accept_join_policy com pk v d1) (accept_join_policy com pk v d1\<lparr>td_invites := ivs\<rparr>)" for d1 ivs
    by (rule same_roster_steps)
  then have r: "same_roster d1 (accept_join_policy com pk v d1\<lparr>td_invites := ivs\<rparr>)" for d1 ivs
    using same_roster_steps(1) [of d1 com pk v] by (auto simp: same_roster_def)
  have rr: "same_roster d d" for d by (simp add: same_roster_def)
  show ?thesis
    by (auto simp: claim_invite_tx_def Let_def rr r same_roster_steps(1) split: option.split prod.split sum.split)
qed

section \<open>One owner\<close>

definition single_owner :: "tenant_db \<Rightarrow> bool" where
  "single_owner d \<longleftrightarrow> (\<forall>com p q. is_owner d com p \<longrightarrow> is_owner d com q \<longrightarrow> p = q)"

definition owner_kept :: "tenant_db \<Rightarrow> tenant_db \<Rightarrow> bool" where
  "owner_kept d d' \<longleftrightarrow> (members_wf d \<and> single_owner d \<longrightarrow> members_wf d' \<and> single_owner d' \<and>
     (\<forall>com p. is_owner d com p \<longrightarrow> (\<exists>q. is_owner d' com q)))"

lemma owner_keptI:
  "(\<And>com p. is_owner d' com p = is_owner d com p) \<Longrightarrow> (members_wf d \<Longrightarrow> members_wf d') \<Longrightarrow> owner_kept d d'"
  by (auto simp: owner_kept_def single_owner_def)

lemma owner_kept_same: "same_roster d d' \<Longrightarrow> owner_kept d d'"
  using same_roster_is_owner same_roster_wf by (blast intro: owner_keptI)

lemma owner_kept_refl [simp]: "owner_kept d d"
  by (rule owner_keptI) simp_all

lemma owner_kept_trans: "owner_kept d d1 \<Longrightarrow> owner_kept d1 d2 \<Longrightarrow> owner_kept d d2"
  unfolding owner_kept_def by metis

lemma owner_kept_claim: "owner_kept d (snd (claim_invite_tx com token pk v now d))"
proof -
  have "owner_kept d (snd (insert_member com pk ''member'' (Some ''invite'') now d))"
    by (rule owner_keptI) (simp_all add: is_owner_steps members_wf_steps)
  with claim_tx_members [of d com token pk v now] show ?thesis
    by (auto intro: owner_kept_same owner_kept_trans)
qed

lemma owner_kept_new_owner:
  "upsert_allowed com pk d \<Longrightarrow> role \<noteq> ''owner'' \<Longrightarrow>
   owner_kept d (demote_other_owners com pk role now (upsert_owner com pk now d))"
  unfolding owner_kept_def single_owner_def using members_wf_new_owner is_owner_new_owner by metis

lemma owner_kept_transfer: "owner_kept d (snd (transfer_owner_tx limit com pk expected now d))"
  unfolding transfer_owner_tx_def Let_def by (simp add: owner_kept_new_owner)

lemma insert_community_ok:
  "insert_community nid host now d = (Inr com, d1) \<Longrightarrow> com = nid \<and> \<not> community_exists d com \<and> same_roster d d1"
  by (auto simp: insert_community_def community_exists_def same_roster_def split: if_splits)

text \<open>The owner of a new community has no predecessor.\<close>

lemma owner_kept_create: "owner_kept d (snd (create_community_tx limit nid host pk now d))"
proof (cases "fst (create_community_tx limit nid host pk now d)")
  case (Inr res)
  show ?thesis
  proof (cases "find_host (\<lambda>_. True) host d")
    case None
    then obtain com d1 where ins: "insert_community nid host now d = (Inr com, d1)"
      using Inr by (auto simp: create_community_tx_def split: prod.splits sum.splits)
    note d1 = insert_community_ok [OF ins]
    have "owner_kept d (put_member com pk (new_member pk ''owner'' None now) d1)" if "community_exists d1 com"
    proof -
      have no: "\<not> is_owner d com p" if "members_wf d" for p
        using that d1 by (auto simp: members_wf_def is_owner_def split: option.split)
      have own: "is_owner (put_member com pk (new_member pk ''owner'' None now) d1) com' p \<longleftrightarrow>
          com' = com \<and> p = pk \<or> is_owner d com' p" for com' p
        using same_roster_is_owner [of d d1 com' p] d1 by (auto simp: is_owner_def is_owner_row_def new_member_def)
      have wf: "members_wf d \<Longrightarrow> members_wf (put_member com pk (new_member pk ''owner'' None now) d1)"
        using same_roster_wf [of d d1] d1 that by (auto simp: members_wf_def) blast
      show ?thesis unfolding owner_kept_def single_owner_def using own no wf by metis
    qed
    then show ?thesis
      using None ins by (auto simp: create_community_tx_def insert_member_def split: option.split)
  qed (auto simp: create_community_tx_def split: option.split)
qed (auto simp: create_community_tx_def split: option.splits prod.splits sum.splits if_splits bool.splits)

interpretation owners: ownership_steps owner_kept limit for limit
  by unfold_locales
    (auto intro: owner_kept_trans owner_kept_claim owner_kept_transfer owner_kept_create owner_kept_new_owner
       owner_kept_same same_roster_steps owner_keptI simp: is_owner_steps members_wf_steps)

text \<open>Requests one after the other, each with other sessions at work between its steps.\<close>

definition serve_all :: "serve_env \<Rightarrow> (invite_call \<times> tenant_request) list \<Rightarrow> tenant_db \<Rightarrow> tenant_db" where
  "serve_all env reqs d = foldl (\<lambda>d (c, q). serve env c q d) d reqs"

lemma kept_serve_all:
  assumes "\<And>d. R d d" "\<And>d d1 d2. R d d1 \<Longrightarrow> R d1 d2 \<Longrightarrow> R d d2"
    and "\<And>c q d. (c, q) \<in> set reqs \<Longrightarrow> R d (serve env c q d)"
  shows "R d (serve_all env reqs d)"
  using assms(3) unfolding serve_all_def
proof (induction reqs arbitrary: d)
  case (Cons r reqs)
  obtain c q where r: "r = (c, q)" by fastforce
  have "R d (serve env c q d)" using Cons.prems by (simp add: r)
  moreover have "R (serve env c q d) (foldl (\<lambda>d (c, q). serve env c q d) (serve env c q d) reqs)"
    by (rule Cons.IH) (simp add: Cons.prems)
  ultimately show ?case by (simp add: r) (rule assms(2))
qed (simp add: assms(1))

lemma at_most_one:
  assumes "distinct xs" "\<And>x y. x \<in> set xs \<Longrightarrow> y \<in> set xs \<Longrightarrow> x = y"
  shows "length xs \<le> 1"
proof (rule ccontr)
  assume "\<not> length xs \<le> 1"
  then obtain x y ys where "xs = x # y # ys" by (cases xs; cases "tl xs") auto
  with assms(1) assms(2) [of x y] show False by simp
qed

text \<open>C3. A community has at most one owner, and once it has one it is never without: whatever requests are
  served -- commands of administrators and moderators, leave requests, invitations, the creation of communities,
  transfers, archiving, the command line -- in whatever order, whatever statements fail, and while other
  sessions execute any statements of the program between the steps.  The bootstrap of an owner (start-up,
  and provisioning that converges) is left out: two of them that overlap leave two owners.\<close>

theorem community_keeps_one_owner:
  assumes "members_wf d" "single_owner d"
    and "list_all (\<lambda>(c, q). within_limit q \<and> others_run (oe_owner_limit (sv_operator env)) (ic_db c)) reqs"
  shows "(length (owners_of (serve_all env reqs d) com) \<le> 1) \<and>
    (owners_of d com \<noteq> [] \<longrightarrow> owners_of (serve_all env reqs d) com \<noteq> [])"
proof (intro conjI)
  have "owner_kept d (serve_all env reqs d)"
  proof (rule kept_serve_all)
    fix c q d
    assume "(c, q) \<in> set reqs"
    with assms(3) have "others_keep owner_kept (ic_db c)" "within_limit q"
      by (auto simp: list_all_iff intro: owners.others_run_keep)
    then show "owner_kept d (serve env c q d)" using owners.kept_serve_within_limit [OF _ refl] by blast
  qed (simp, rule owner_kept_trans)
  with assms(1,2) have k: "members_wf (serve_all env reqs d)" "single_owner (serve_all env reqs d)"
    "\<And>p. is_owner d com p \<Longrightarrow> \<exists>q. is_owner (serve_all env reqs d) com q"
    unfolding owner_kept_def by blast+
  let ?os = "owners_of (serve_all env reqs d) com"
  have o: "x \<in> set ?os \<longleftrightarrow> is_owner (serve_all env reqs d) com x" for x
    using k(1) by (simp add: members_wf_def owners_of_iff)
  have "distinct ?os" using k(1) by (simp add: members_wf_def distinct_owners_of)
  moreover have "x \<in> set ?os \<Longrightarrow> y \<in> set ?os \<Longrightarrow> x = y" for x y
    unfolding o using k(2) unfolding single_owner_def by blast
  ultimately show "length ?os \<le> 1" by (rule at_most_one)
  show "owners_of d com \<noteq> [] \<longrightarrow> ?os \<noteq> []"
  proof
    assume "owners_of d com \<noteq> []"
    then have "hd (owners_of d com) \<in> set (owners_of d com)" by simp
    then have "is_owner d com (hd (owners_of d com))" using owners_of_iff assms(1) by (simp add: members_wf_def)
    from k(3) [OF this] obtain q where "q \<in> set ?os" using o by blast
    then show "?os \<noteq> []" by auto
  qed
qed

section \<open>The bootstrap of an owner\<close>

lemma member_of_demote_seen:
  "member_of (demote_seen_owners seen com pk role now d) com' pk' =
     map_option (\<lambda>m. if com' = com \<and> rm_role m = ''owner'' \<and> pk' \<noteq> pk \<and>
         map_option rm_role (member_of seen com pk') = Some ''owner''
       then m\<lparr>rm_role := role, rm_updated_at := now\<rparr> else m) (member_of d com' pk')"
proof -
  let ?f = "\<lambda>k m. if fst k = com \<and> rm_role m = ''owner'' \<and> snd k \<noteq> pk \<and>
      map_option rm_role (member_of seen com (snd k)) = Some ''owner''
    then m\<lparr>rm_role := role, rm_updated_at := now\<rparr> else m"
  have "td_members (demote_seen_owners seen com pk role now d) = map (\<lambda>(k, m). (k, ?f k m)) (td_members d)"
    by (auto simp: demote_seen_owners_def)
  then show ?thesis
    using map_of_map_row [of ?f "td_members d" "(com', pk')"] by (simp only: member_of_def fst_conv snd_conv)
qed

lemma keys_demote_seen [simp]: "map fst (td_members (demote_seen_owners seen com pk role now d)) = map fst (td_members d)"
  by (simp add: demote_seen_owners_def case_prod_beta comp_def)

text \<open>The owners that a start-up leaves: its own, and those its snapshot missed.\<close>

lemma is_owner_bootstrap:
  "is_owner (demote_seen_owners seen com pk ''admin'' now (upsert_owner com pk now d)) com pk' \<longleftrightarrow>
     pk' = pk \<or> is_owner d com pk' \<and> \<not> is_owner seen com pk'"
  by (cases "member_of d com pk'"; cases "pk' = pk"; cases "member_of seen com pk'")
    (auto simp: is_owner_def is_owner_row_def member_of_demote_seen upsert_owner_def new_member_def split: option.split)

lemma is_owner_bootstrap_run:
  assumes "qc_fault c (k + 1) = None" "community_exists (qc_between c (k + 1) (qc_between c k d)) com"
  shows "is_owner (snd (bootstrap_owner c k com pk d)) com pk' \<longleftrightarrow>
    pk' = map to_ascii_lower pk \<or>
    is_owner (qc_between c (k + 1) (qc_between c k d)) com pk' \<and> \<not> is_owner (qc_between c k d) com pk'"
  using assms by (simp add: bootstrap_owner_def db_exec_def bootstrap_tx_def upsert_allowed_def Let_def is_owner_bootstrap)

text \<open>A start-up that nobody interrupts leaves its owner only, however many there were.  When another one commits
  between its snapshot and its commit, both owners stay.\<close>

theorem bootstrap_race_two_owners:
  assumes "community_exists d com" "\<not> is_owner d com (map to_ascii_lower q)" "qc_fault c 1 = None"
    and "qc_fault c' 1 = None" "qc_between c 0 = id" "qc_between c' 0 = id" "qc_between c' 1 = id"
  shows "(qc_between c 1 = id \<longrightarrow>
      (\<forall>x. is_owner (snd (bootstrap_owner c 0 com p d)) com x \<longleftrightarrow> x = map to_ascii_lower p)) \<and>
    (qc_between c 1 = (\<lambda>d. snd (bootstrap_owner c' 0 com q d)) \<longrightarrow>
      (\<forall>x. is_owner (snd (bootstrap_owner c 0 com p d)) com x \<longleftrightarrow> x = map to_ascii_lower p \<or> x = map to_ascii_lower q))"
proof -
  have other: "is_owner (snd (bootstrap_owner c' 0 com q d)) com x \<longleftrightarrow> x = map to_ascii_lower q" for x
    using is_owner_bootstrap_run [of c' 0 d com q] assms by simp
  have "community_exists (snd (bootstrap_owner c' 0 com q d)) com"
    using assms by (simp add: bootstrap_owner_def db_exec_def bootstrap_tx_def demote_seen_owners_def upsert_owner_def
        upsert_allowed_def put_member_def community_exists_def split: option.split)
  then show ?thesis
    using is_owner_bootstrap_run [of c 0 d com p] assms other by auto
qed

section \<open>The limit on owned communities\<close>

definition owned_within :: "string \<Rightarrow> int \<Rightarrow> tenant_db \<Rightarrow> tenant_db \<Rightarrow> bool" where
  "owned_within pk limit d d' \<longleftrightarrow> owned_count d' pk \<le> max (owned_count d pk) limit"

lemma filter_update_length:
  "length (filter P (AList.update k v al)) \<le> length (filter P al) + (if P (k, v) then 1 else 0)"
  by (induction al) auto

lemma filter_delete_length: "length (filter P (AList.delete k al)) \<le> length (filter P al)"
  by (induction al) auto

lemma owned_count_put:
  "owned_count (put_member com pk m d) pk' \<le> owned_count d pk' + (if pk = pk' \<and> is_owner_row m then 1 else 0)"
  using filter_update_length [of "\<lambda>((_, p), m). p = pk' \<and> is_owner_row m" "(com, pk)" m "td_members d"]
  by (cases "pk = pk' \<and> is_owner_row m") (auto simp: owned_count_def put_member_def)

lemma owned_count_demote:
  "role \<noteq> ''owner'' \<Longrightarrow> owned_count (demote_other_owners com pk role now d) pk' \<le> owned_count d pk'"
proof -
  assume "role \<noteq> ''owner''"
  then have "length (filter (\<lambda>((_, p), m). p = pk' \<and> is_owner_row m) (map (\<lambda>((com', p), m).
      ((com', p), if com' = com \<and> rm_role m = ''owner'' \<and> p \<noteq> pk then m\<lparr>rm_role := role, rm_updated_at := now\<rparr> else m)) al))
    \<le> length (filter (\<lambda>((_, p), m). p = pk' \<and> is_owner_row m) al)" for al
    by (induction al) (auto simp: is_owner_row_def split: if_splits)
  then show ?thesis by (simp add: owned_count_def demote_other_owners_def)
qed

lemma owned_count_upsert: "owned_count (upsert_owner com pk now d) pk' \<le> owned_count d pk' + (if pk = pk' then 1 else 0)"
proof -
  have "owned_count (put_member com pk m d) pk' \<le> owned_count d pk' + (if pk = pk' then 1 else 0)" for m
    using owned_count_put [of com pk m d pk'] by (auto split: if_splits)
  then show ?thesis by (cases "member_of d com pk") (simp_all only: upsert_owner_def option.case)
qed

lemma owned_count_new_owner:
  "role \<noteq> ''owner'' \<Longrightarrow>
   owned_count (demote_other_owners com pk role now (upsert_owner com pk now d)) pk' \<le> owned_count d pk' + (if pk = pk' then 1 else 0)"
  using owned_count_demote owned_count_upsert by (meson order_trans)

lemma owned_count_same: "td_members d' = td_members d \<Longrightarrow> owned_count d' pk = owned_count d pk"
  by (simp add: owned_count_def)

lemma owned_count_put_le: "\<not> is_owner_row m \<Longrightarrow> owned_count (put_member com pk m d) pk' \<le> owned_count d pk'"
  using owned_count_put [of com pk m d pk'] by simp

lemma owned_count_insert: "role \<noteq> ''owner'' \<Longrightarrow> owned_count (snd (insert_member com pk role by now d)) pk' \<le> owned_count d pk'"
  by (simp add: insert_member_def owned_count_put_le is_owner_row_def new_member_def split: option.split)

lemma owned_count_delete: "owned_count (snd (delete_member_if ok com pk d)) pk' \<le> owned_count d pk'"
  using filter_delete_length [of "\<lambda>((_, p), m). p = pk' \<and> is_owner_row m" "(com, pk)" "td_members d"]
  by (simp add: delete_member_if_def delete_member_def owned_count_def split: option.split)

lemma owned_count_role: "role \<noteq> ''owner'' \<Longrightarrow> owned_count (snd (set_role_unless_owner com pk role now d)) pk' \<le> owned_count d pk'"
  by (simp add: set_role_unless_owner_def owned_count_put_le is_owner_row_def split: option.split)

lemma owned_within_le: "owned_count d' pk \<le> owned_count d pk \<Longrightarrow> owned_within pk limit d d'"
  by (simp add: owned_within_def)

lemma owned_within_same: "same_roster d d' \<Longrightarrow> owned_within pk limit d d'"
  unfolding same_roster_def by (rule owned_within_le) (simp add: owned_count_def)

lemma owned_within_trans: "owned_within pk limit d d1 \<Longrightarrow> owned_within pk limit d1 d2 \<Longrightarrow> owned_within pk limit d d2"
  unfolding owned_within_def le_max_iff_disj by linarith

lemma owned_within_claim: "owned_within pk limit d (snd (claim_invite_tx com token pk' v now d))"
proof -
  have "owned_within pk limit d (snd (insert_member com pk' ''member'' (Some ''invite'') now d))"
    by (rule owned_within_le) (simp add: owned_count_insert)
  with claim_tx_members [of d com token pk' v now] show ?thesis
    by (auto intro: owned_within_same owned_within_trans)
qed

lemma owned_within_refl [simp]: "owned_within pk limit d d"
  by (simp add: owned_within_def)

lemma owned_within_transfer: "owned_within pk limit d (snd (transfer_owner_tx limit com pk' expected now d))"
proof -
  have "owned_within pk limit d (demote_other_owners com pk' ''member'' now (upsert_owner com pk' now d))"
    if "\<not> limit \<le> owned_count d pk'"
    using that owned_count_new_owner [of "''member''" com pk' now d pk] by (auto simp: owned_within_def split: if_splits)
  then show ?thesis by (simp add: transfer_owner_tx_def Let_def)
qed

lemma owned_within_create: "owned_within pk limit d (snd (create_community_tx limit nid host pk' now d))"
proof -
  have "owned_within pk limit d (snd (insert_member com pk' ''owner'' None now d1))"
    if "insert_community nid host now d = (Inr com, d1)" "\<not> limit \<le> owned_count d1 pk'" for com d1
  proof -
    have same: "owned_count d1 p = owned_count d p" for p
      using insert_community_ok [OF that(1)] by (simp add: same_roster_def owned_count_def)
    have "owned_within pk limit d1 (snd (insert_member com pk' ''owner'' None now d1))"
      using that(2) owned_count_put [of com pk' "new_member pk' ''owner'' None now" d1 pk]
      by (auto simp: insert_member_def owned_within_def split: option.split if_splits)
    then show ?thesis by (simp add: owned_within_def same)
  qed
  then show ?thesis
    by (auto simp: create_community_tx_def split: option.split prod.split sum.split bool.split)
qed

interpretation limited: ownership_steps "owned_within pk limit" limit for pk limit
  by unfold_locales
    (auto intro: owned_within_trans owned_within_claim owned_within_transfer owned_within_create
       owned_within_same same_roster_steps owned_within_le owned_count_insert owned_count_delete owned_count_role)

text \<open>C20. No request that is not the authority of the deployment's root -- start-up, or provisioning that
  converges -- makes a key the owner of more communities than the limit: the number of communities it owns
  afterwards is at most the limit or what it was, whatever other sessions do, as long as they keep to this too.\<close>

theorem owned_communities_limited:
  assumes "list_all (\<lambda>(c, q). within_limit q \<and> others_keep (owned_within pk (oe_owner_limit (sv_operator env))) (ic_db c)) reqs"
  shows "owned_count (serve_all env reqs d) pk \<le> max (owned_count d pk) (oe_owner_limit (sv_operator env))"
proof -
  let ?L = "oe_owner_limit (sv_operator env)"
  have "owned_within pk ?L d (serve_all env reqs d)"
  proof (rule kept_serve_all)
    fix c q d
    assume "(c, q) \<in> set reqs"
    with assms have "others_keep (owned_within pk ?L) (ic_db c)" "within_limit q" by (auto simp: list_all_iff)
    then show "owned_within pk ?L d (serve env c q d)" using limited.kept_serve_within_limit [OF _ refl] by blast
  qed (simp, rule owned_within_trans)
  then show ?thesis by (simp add: owned_within_def)
qed

section \<open>Concrete tables\<close>

text \<open>Nothing fails and nobody interferes.\<close>

definition ex_db_call :: db_call where
  "ex_db_call = \<lparr>qc_fault = (\<lambda>_. None), qc_between = (\<lambda>_. id), qc_now = (\<lambda>_. 100), qc_uuid = (\<lambda>k. 70 + k)\<rparr>"

definition ex_invite_call :: "db_call \<Rightarrow> bridge_call \<Rightarrow> invite_call" where
  "ex_invite_call c b = \<lparr>ic_bridge = b, ic_db = c, ic_now = 100, ic_secret = [], ic_evicted = False\<rparr>"

definition ex_report :: report_record where
  "ex_report = \<lparr>rr_report_event_id = [64], rr_reporter_pubkey = [3], rr_target = ReportPubkey [2], rr_channel_id = None,
     rr_report_type = ''spam'', rr_note = None, rr_status = ''open'', rr_resolved_by = None, rr_resolved_at = None,
     rr_action_id = None, rr_created_at = 9\<rparr>"

definition ex_ban :: ban_row where
  "ex_ban = \<lparr>br_banned = True, br_ban_expires_at = None, br_ban_reason = None, br_muted_until = None, br_mute_reason = None,
     br_actor_pubkey = [97], br_updated_at = 9\<rparr>"

text \<open>A community with an owner \<open>a\<close>, an administrator \<open>b\<close> and a member \<open>c\<close>, an invite for one more, an open report,
  and a banned key.\<close>

definition ex_tables :: tenant_db where
  "ex_tables = \<lparr>td_communities = [(2, new_community ''r'' 5)],
     td_members = [((2, ''a''), new_member ''a'' ''owner'' None 5), ((2, ''b''), new_member ''b'' ''admin'' None 6),
       ((2, ''c''), new_member ''c'' ''member'' None 7)],
     td_acceptances = [],
     td_invites = [((2, 8), \<lparr>iv_token_hash = [8], iv_max_uses = Some 1, iv_use_count = 0, iv_expires_at = 200, iv_created_by = ''a''\<rparr>)],
     td_allowlist = None, td_bans = [((2, [100]), ex_ban)], td_reports = [((2, 3), ex_report)], td_actions = []\<rparr>"

text \<open>Other sessions make \<open>b\<close> the owner of the community, in a transaction of their own, and admit \<open>e\<close>.\<close>

definition ex_busy_call :: "int \<Rightarrow> db_call" where
  "ex_busy_call limit = ex_db_call\<lparr>qc_between := (\<lambda>_ d. snd (transfer_owner_tx limit 2 ''b'' ''a'' 60
     (snd (insert_member 2 ''e'' ''member'' None 50 d))))\<rparr>"

lemma ex_busy_run: "others_run limit (ex_busy_call limit)"
proof -
  have "statements limit d (snd (transfer_owner_tx limit 2 ''b'' ''a'' 60 (snd (insert_member 2 ''e'' ''member'' None 50 d))))" for d
    using ts_insert_member [of "''member''" limit d 2 "''e''" None 50] ts_transfer by (blast intro: statements_trans statementsI)
  then show ?thesis by (simp add: others_run_def others_keep_def ex_busy_call_def)
qed

lemma others_keep_quiet: "(\<And>d. R d d) \<Longrightarrow> others_keep R ex_db_call"
  by (simp add: others_keep_def ex_db_call_def)

lemma ex_members_wf: "members_wf ex_tables" "single_owner ex_tables"
proof -
  have m: "member_of ex_tables com pk = (if com = 2 \<and> pk = ''a'' then Some (new_member ''a'' ''owner'' None 5)
      else if com = 2 \<and> pk = ''b'' then Some (new_member ''b'' ''admin'' None 6)
      else if com = 2 \<and> pk = ''c'' then Some (new_member ''c'' ''member'' None 7) else None)" for com pk
    by (simp add: member_of_def ex_tables_def)
  have "community_exists ex_tables com" if "member_of ex_tables com pk \<noteq> None" for com pk
    using that unfolding m by (cases "com = 2") (simp_all add: community_exists_def ex_tables_def)
  moreover have "distinct (map fst (td_members ex_tables))" by (simp add: ex_tables_def)
  ultimately show "members_wf ex_tables" unfolding members_wf_def by blast
  have "is_owner ex_tables com pk \<longleftrightarrow> com = 2 \<and> pk = ''a''" for com pk
    by (simp add: is_owner_def m is_owner_row_def new_member_def)
  then show "single_owner ex_tables" by (simp add: single_owner_def)
qed

theorem community_keeps_one_owner_witness:
  "\<forall>env b e. let d = serve_all (env\<lparr>sv_operator := (sv_operator env)\<lparr>oe_owner_limit := 5\<rparr>\<rparr>)
       [(ex_invite_call (ex_busy_call 5) b, AdminEvent 2 e), (ex_invite_call (ex_busy_call 5) b, Leave 2 e)] ex_tables
     in length (owners_of d 2) \<le> 1 \<and> owners_of d 2 \<noteq> []"
proof (intro allI)
  fix env :: serve_env and b :: bridge_call and e :: event
  let ?env = "env\<lparr>sv_operator := (sv_operator env)\<lparr>oe_owner_limit := 5\<rparr>\<rparr>"
  let ?reqs = "[(ex_invite_call (ex_busy_call 5) b, AdminEvent 2 e), (ex_invite_call (ex_busy_call 5) b, Leave 2 e)]"
  have "list_all (\<lambda>(c, q). within_limit q \<and> others_run (oe_owner_limit (sv_operator ?env)) (ic_db c)) ?reqs"
    by (simp add: within_limit_def ex_invite_call_def ex_busy_run)
  moreover have "owners_of ex_tables 2 \<noteq> []" by (simp add: owners_of_def ex_tables_def is_owner_row_def new_member_def)
  ultimately show "let d = serve_all ?env ?reqs ex_tables in length (owners_of d 2) \<le> 1 \<and> owners_of d 2 \<noteq> []"
    unfolding Let_def using community_keeps_one_owner [OF ex_members_wf] by blast
qed

theorem owned_communities_limited_witness:
  "\<forall>env b t. owned_count (serve_all (env\<lparr>sv_operator := (sv_operator env)\<lparr>oe_owner_limit := 5\<rparr>\<rparr>)
     [(ex_invite_call ex_db_call b, TransferTo t), (ex_invite_call ex_db_call b, ReapInvites 7)] ex_tables) ''a'' \<le> 5"
proof (intro allI)
  fix env :: serve_env and b :: bridge_call and t :: transfer_request
  let ?env = "env\<lparr>sv_operator := (sv_operator env)\<lparr>oe_owner_limit := 5\<rparr>\<rparr>"
  have "list_all (\<lambda>(c, q). within_limit q \<and> others_keep (owned_within ''a'' (oe_owner_limit (sv_operator ?env))) (ic_db c))
      [(ex_invite_call ex_db_call b, TransferTo t), (ex_invite_call ex_db_call b, ReapInvites 7)]"
    by (simp add: within_limit_def ex_invite_call_def others_keep_quiet)
  from owned_communities_limited [OF this, of ex_tables]
  show "owned_count (serve_all ?env
     [(ex_invite_call ex_db_call b, TransferTo t), (ex_invite_call ex_db_call b, ReapInvites 7)] ex_tables) ''a'' \<le> 5"
    by (simp add: owned_count_def [of ex_tables]) (simp add: ex_tables_def is_owner_row_def new_member_def)
qed

end
