(* ===== verification/Moderation_Safety.thy ===== *)
theory Moderation_Safety
  imports Tenant_Safety
begin

text \<open>
  Moderation and administration: the shape of the rows, closed reports, the protection of owners and
  administrators, the effect of a ban on the banned, and what a command does on each of its branches.
\<close>

section \<open>The shape of the rows\<close>

definition role_typed :: "relay_member \<Rightarrow> bool" where
  "role_typed m \<longleftrightarrow> rm_role m \<in> {''owner'', ''admin'', ''member''}"

definition report_typed :: "report_record \<Rightarrow> bool" where
  "report_typed r \<longleftrightarrow> rr_status r \<in> {''open'', ''resolved'', ''dismissed''}"

definition invite_typed :: "invite_row \<Rightarrow> bool" where
  "invite_typed v \<longleftrightarrow> 0 \<le> iv_use_count v \<and>
     (case iv_max_uses v of None \<Rightarrow> True | Some m \<Rightarrow> 1 \<le> m \<and> m \<le> MAX_INVITE_USES \<and> iv_use_count v \<le> m)"

definition table_typed :: "('k \<times> 'v) list \<Rightarrow> ('v \<Rightarrow> bool) \<Rightarrow> bool" where
  "table_typed tbl P \<longleftrightarrow> distinct (map fst tbl) \<and> (\<forall>x \<in> set tbl. P (snd x))"

definition db_typed :: "tenant_db \<Rightarrow> bool" where
  "db_typed d \<longleftrightarrow> table_typed (td_communities d) (\<lambda>_. True) \<and> table_typed (td_members d) role_typed \<and>
     table_typed (td_invites d) invite_typed \<and> table_typed (td_bans d) (\<lambda>_. True) \<and>
     table_typed (td_reports d) report_typed \<and>
     table_typed (td_actions d) (\<lambda>a. ar_action a \<in> set MODERATION_ACTION_CHECK_VOCAB)"

lemma table_typed_update [simp]: "table_typed tbl P \<Longrightarrow> P v \<Longrightarrow> table_typed (AList.update k v tbl) P"
  unfolding table_typed_def by (auto simp: set_update_distinct)

lemma table_typed_delete [simp]: "table_typed tbl P \<Longrightarrow> table_typed (AList.delete k tbl) P"
  by (auto simp: table_typed_def set_delete)

lemma table_typed_filter [simp]: "table_typed tbl P \<Longrightarrow> table_typed (filter Q tbl) P"
  by (auto simp: table_typed_def distinct_map_filter)

lemma table_typed_lookup: "table_typed tbl P \<Longrightarrow> map_of tbl k = Some v \<Longrightarrow> P v"
  by (auto simp: table_typed_def dest: map_of_SomeD)

definition typed_kept :: "tenant_db \<Rightarrow> tenant_db \<Rightarrow> bool" where
  "typed_kept d d' \<longleftrightarrow> (db_typed d \<longrightarrow> db_typed d')"

lemma typed_kept_refl [simp]: "typed_kept d d"
  by (simp add: typed_kept_def)

lemma typed_put: "role_typed m \<Longrightarrow> typed_kept d (put_member com pk m d)"
  by (simp add: typed_kept_def db_typed_def put_member_def)

lemma typed_insert: "role \<in> {''owner'', ''admin'', ''member''} \<Longrightarrow> typed_kept d (snd (insert_member com pk role by now d))"
  by (auto simp: insert_member_def role_typed_def new_member_def split: option.split intro!: typed_put)

lemma typed_members:
  "table_typed (td_members d') role_typed \<Longrightarrow> typed_kept d (d\<lparr>td_members := td_members d', td_acceptances := as\<rparr>)"
  by (simp add: typed_kept_def db_typed_def)

lemma typed_delete: "typed_kept d (snd (delete_member_if ok com pk d))"
  by (simp add: typed_kept_def db_typed_def delete_member_if_def delete_member_def split: option.split)

lemma typed_role: "role \<in> {''owner'', ''admin'', ''member''} \<Longrightarrow> typed_kept d (snd (set_role_unless_owner com pk role now d))"
  by (auto simp: set_role_unless_owner_def role_typed_def split: option.split intro!: typed_put)

lemma typed_demote:
  assumes "role \<in> {''owner'', ''admin'', ''member''}"
  shows "typed_kept d (demote_other_owners com pk role now d)"
proof -
  have "table_typed (td_members d) role_typed \<Longrightarrow> table_typed (td_members (demote_other_owners com pk role now d)) role_typed"
    using assms unfolding table_typed_def keys_demote
    by (auto simp: demote_other_owners_def role_typed_def split: if_splits)
  then show ?thesis by (simp add: typed_kept_def db_typed_def) (simp add: demote_other_owners_def)
qed

lemma typed_demote_seen: "typed_kept d (demote_seen_owners seen com pk ''admin'' now d)"
proof -
  have "table_typed (td_members d) role_typed \<Longrightarrow> table_typed (td_members (demote_seen_owners seen com pk ''admin'' now d)) role_typed"
    unfolding table_typed_def keys_demote_seen
    by (auto simp: demote_seen_owners_def role_typed_def split: if_splits)
  then show ?thesis by (simp add: typed_kept_def db_typed_def) (simp add: demote_seen_owners_def)
qed

lemma typed_upsert: "typed_kept d (upsert_owner com pk now d)"
  by (auto simp: upsert_owner_def role_typed_def new_member_def split: option.split intro!: typed_put)

lemma typed_trans: "typed_kept d d1 \<Longrightarrow> typed_kept d1 d2 \<Longrightarrow> typed_kept d d2"
  by (simp add: typed_kept_def)

lemma typed_new_owner:
  "role \<in> {''owner'', ''admin'', ''member''} \<Longrightarrow> typed_kept d (demote_other_owners com pk role now (upsert_owner com pk now d))"
  using typed_upsert typed_demote typed_trans by blast

lemma typed_bootstrap: "typed_kept d (demote_seen_owners seen com pk ''admin'' now (upsert_owner com pk now d))"
  using typed_upsert typed_demote_seen typed_trans by blast

lemma typed_transfer: "typed_kept d (snd (transfer_owner_tx limit com pk expected now d))"
  by (simp add: transfer_owner_tx_def Let_def typed_new_owner)

lemma typed_community: "typed_kept d (d\<lparr>td_communities := AList.update com row (td_communities d)\<rparr>)"
  by (simp add: typed_kept_def db_typed_def)

lemma typed_create: "typed_kept d (snd (create_community_tx limit nid host pk now d))"
proof -
  have "typed_kept d (snd (insert_member com pk ''owner'' None now d1))"
    if "insert_community nid host now d = (Inr com, d1)" for com d1
  proof -
    have "typed_kept d d1" using that by (auto simp: insert_community_def typed_community split: if_splits)
    then show ?thesis using typed_insert [of "''owner''" d1 com pk None now] typed_trans by blast
  qed
  then show ?thesis by (auto simp: create_community_tx_def split: option.split prod.split sum.split bool.split)
qed

lemma typed_policy: "typed_kept d (accept_join_policy com pk v d)"
  by (simp add: accept_join_policy_def typed_kept_def db_typed_def split: option.split)

lemma typed_claim: "typed_kept d (snd (claim_invite_tx com token pk v now d))"
proof (cases "find_invite com token d")
  case (Some hit)
  obtain key invite where hit: "hit = (key, invite)" by fastforce
  have row: "(key, invite) \<in> set (td_invites d)"
    using Some hit by (auto simp: find_invite_def find_Some_iff in_set_conv_nth)
  have count: "typed_kept d1 (d1\<lparr>td_invites := AList.update key (invite\<lparr>iv_use_count := iv_use_count invite + 1\<rparr>) (td_invites d1)\<rparr>)"
    if "td_invites d1 = td_invites d" "\<not> (case iv_max_uses invite of Some m \<Rightarrow> iv_use_count invite \<ge> m | None \<Rightarrow> False)" for d1
  proof -
    have "db_typed d1 \<Longrightarrow> invite_typed invite"
      using row that(1) by (auto simp: db_typed_def table_typed_def)
    then have "db_typed d1 \<Longrightarrow> invite_typed (invite\<lparr>iv_use_count := iv_use_count invite + 1\<rparr>)"
      using that(2) by (auto simp: invite_typed_def split: option.splits)
    then show ?thesis by (simp add: typed_kept_def db_typed_def)
  qed
  have same: "td_invites (accept_join_policy com pk v (snd (insert_member com pk ''member'' (Some ''invite'') now d))) = td_invites d"
    by (simp add: accept_join_policy_def insert_member_def put_member_def split: option.split)
  have ins: "typed_kept d (accept_join_policy com pk v (snd (insert_member com pk ''member'' (Some ''invite'') now d)))"
    using typed_insert [of "''member''" d com pk "Some ''invite''" now] typed_policy typed_trans by blast
  obtain res d1 where i: "insert_member com pk ''member'' (Some ''invite'') now d = (res, d1)" by fastforce
  show ?thesis
    using ins count [OF same] typed_policy [of d com pk v]
    by (auto simp: claim_invite_tx_def Some hit i Let_def split: sum.split intro: typed_trans)
qed (simp add: claim_invite_tx_def)

lemma typed_other:
  "typed_kept d (put_ban com key b d)"
  "status = ''resolved'' \<or> status = ''dismissed'' \<Longrightarrow> typed_kept d (snd (close_report com i status actor act now d))"
  "rr_status r = ''open'' \<Longrightarrow> typed_kept d (d\<lparr>td_reports := AList.update (com, i) r (td_reports d)\<rparr>)"
  "ar_action a \<in> set MODERATION_ACTION_CHECK_VOCAB \<Longrightarrow>
   typed_kept d (d\<lparr>td_actions := AList.update (com, i) a (td_actions d)\<rparr>)"
  "iv_use_count v = 0 \<Longrightarrow> (case iv_max_uses v of Some n \<Rightarrow> 1 \<le> n \<and> n \<le> MAX_INVITE_USES | None \<Rightarrow> True) \<Longrightarrow>
   typed_kept d (snd (insert_invite com nid v d))"
  "typed_kept d (d\<lparr>td_invites := filter P (td_invites d)\<rparr>)"
  by (auto simp: typed_kept_def db_typed_def put_ban_def close_report_def insert_invite_def invite_typed_def
       report_typed_def split: option.splits)

interpretation typed: bootstrap_steps typed_kept limit for limit
proof unfold_locales
  fix d d1 d2
  assume "typed_kept d d1" "typed_kept d1 d2"
  then show "typed_kept d d2" by (rule typed_trans)
qed (auto intro: typed_insert typed_delete typed_role typed_policy typed_community typed_claim typed_transfer typed_create
       typed_new_owner typed_bootstrap typed_other)

text \<open>C21. The rows keep their shape whatever requests are served, in whatever order and interleaving and whatever
  fails: keys are unique in every table, roles, the states of reports and the names of actions are of their
  vocabularies, and an invite is never used more often than it allows.\<close>

theorem tables_stay_typed:
  assumes "db_typed d" "list_all (\<lambda>(c, q). others_keep typed_kept (ic_db c)) reqs"
  shows "db_typed (serve_all env reqs d)"
proof -
  have "typed_kept d (serve_all env reqs d)"
  proof (rule kept_serve_all)
    fix c q d
    assume "(c, q) \<in> set reqs"
    with assms have "others_keep typed_kept (ic_db c)" by (auto simp: list_all_iff)
    then show "typed_kept d (serve env c q d)" using refl by (rule typed.kept_serve)
  qed (simp, rule typed_trans)
  with assms(1) show ?thesis by (simp add: typed_kept_def)
qed

section \<open>Closed reports\<close>

text \<open>Keys of reports stay unique, and a report keeps the event it was made by; a closed report is kept as it is.\<close>

definition reports_named :: "tenant_db \<Rightarrow> tenant_db \<Rightarrow> bool" where
  "reports_named d d' \<longleftrightarrow> (distinct (map fst (td_reports d)) \<longrightarrow> distinct (map fst (td_reports d'))) \<and> (\<forall>com i r. map_of (td_reports d) (com, i) = Some r \<longrightarrow>
     (\<exists>r'. map_of (td_reports d') (com, i) = Some r' \<and> rr_report_event_id r' = rr_report_event_id r))"

definition reports_final :: "tenant_db \<Rightarrow> tenant_db \<Rightarrow> bool" where
  "reports_final d d' \<longleftrightarrow> reports_named d d' \<and> (\<forall>com i r. map_of (td_reports d) (com, i) = Some r \<longrightarrow>
     rr_status r \<noteq> ''open'' \<longrightarrow> map_of (td_reports d') (com, i) = Some r)"

lemma reports_final_same: "td_reports d' = td_reports d \<Longrightarrow> reports_final d d'"
  by (simp add: reports_final_def reports_named_def)

lemma reports_named_same: "td_reports d' = td_reports d \<Longrightarrow> reports_named d d'"
  by (simp add: reports_named_def)

lemma reports_named_trans: "reports_named d d1 \<Longrightarrow> reports_named d1 d2 \<Longrightarrow> reports_named d d2"
  unfolding reports_named_def by (intro conjI allI impI; fastforce)

lemma reports_final_trans: "reports_final d d1 \<Longrightarrow> reports_final d1 d2 \<Longrightarrow> reports_final d d2"
  unfolding reports_final_def using reports_named_trans [of d d1 d2] by simp

lemma reports_untouched:
  "td_reports (snd (insert_member com pk role by now d)) = td_reports d"
  "td_reports (snd (delete_member_if ok com pk d)) = td_reports d"
  "td_reports (snd (set_role_unless_owner com pk role now d)) = td_reports d"
  "td_reports (accept_join_policy com pk v d) = td_reports d"
  "td_reports (put_ban com key b d) = td_reports d"
  "td_reports (snd (insert_invite com nid w d)) = td_reports d"
  "td_reports (demote_other_owners com pk role now d) = td_reports d"
  "td_reports (upsert_owner com pk now d) = td_reports d"
  "td_reports (demote_seen_owners seen com pk role now d) = td_reports d"
  "td_reports (snd (insert_community nid host now d)) = td_reports d"
  by (auto simp: insert_member_def put_member_def delete_member_if_def delete_member_def set_role_unless_owner_def
      accept_join_policy_def put_ban_def insert_invite_def demote_other_owners_def demote_seen_owners_def upsert_owner_def insert_community_def
      split: option.split)

lemma reports_untouched_claim: "td_reports (snd (claim_invite_tx com token pk v now d)) = td_reports d"
proof -
  obtain res d1 where i: "insert_member com pk ''member'' (Some ''invite'') now d = (res, d1)" by fastforce
  with reports_untouched(1) [of com pk "''member''" "Some ''invite''" now d] show ?thesis
    by (simp add: claim_invite_tx_def Let_def reports_untouched split: option.split prod.split sum.split)
qed

lemma reports_untouched_ownership:
  "td_reports (snd (transfer_owner_tx limit com pk expected now d)) = td_reports d"
  "td_reports (snd (create_community_tx limit nid host pk now d)) = td_reports d"
proof -
  show "td_reports (snd (transfer_owner_tx limit com pk expected now d)) = td_reports d"
    by (simp add: transfer_owner_tx_def Let_def reports_untouched)
  obtain res d1 where i: "insert_community nid host now d = (res, d1)" by fastforce
  then have "td_reports d1 = td_reports d" using reports_untouched(10) [of nid host now d] by simp
  moreover have "td_reports d2 = td_reports d1" if "insert_member com pk ''owner'' None now d1 = (r, d2)" for com r d2
    using reports_untouched(1) [of com pk "''owner''" None now d1] that by simp
  ultimately show "td_reports (snd (create_community_tx limit nid host pk now d)) = td_reports d"
    by (auto simp: create_community_tx_def i split: option.split prod.split sum.split bool.split)
qed

lemma reports_final_close: "reports_final d (snd (close_report com i status actor act now d))"
  by (auto simp: reports_final_def reports_named_def close_report_def split: option.split)

lemma reports_final_new:
  "map_of (td_reports d) (com, i) = None \<Longrightarrow> reports_final d (d\<lparr>td_reports := AList.update (com, i) r (td_reports d)\<rparr>)"
  by (auto simp: reports_final_def reports_named_def)

interpretation final: bootstrap_steps reports_final limit for limit
proof unfold_locales
  fix d d1 d2
  assume "reports_final d d1" "reports_final d1 d2"
  then show "reports_final d d2" by (rule reports_final_trans)
qed (auto intro: reports_final_close reports_final_same reports_final_new
       simp: reports_untouched reports_untouched_claim reports_untouched_ownership)

lemmas final_steps = final.insert_step final.delete_step final.role_step final.policy_step final.community_step final.ban_step
  final.close_step final.report_step final.action_step final.mint_step final.claim_step final.reap_step final.transfer_step
  final.create_step final.bootstrap_step

lemma reports_named_final: "reports_final d d' \<Longrightarrow> reports_named d d'"
  by (simp add: reports_final_def)

interpretation named: bootstrap_steps reports_named limit for limit
  by unfold_locales (auto intro: reports_named_same reports_named_trans reports_named_final final_steps)

text \<open>A run of a call, whatever other sessions do: changes of theirs, and changes of its own that keep a
  relation.\<close>

inductive woven :: "(tenant_db \<Rightarrow> tenant_db \<Rightarrow> bool) \<Rightarrow> db_call \<Rightarrow> tenant_db \<Rightarrow> tenant_db \<Rightarrow> bool"
  for R :: "tenant_db \<Rightarrow> tenant_db \<Rightarrow> bool" and c :: db_call where
  woven_done: "woven R c d d"
| woven_own: "woven R c d d1 \<Longrightarrow> R d1 d2 \<Longrightarrow> woven R c d d2"
| woven_others: "woven R c d d1 \<Longrightarrow> woven R c d (qc_between c k d1)"

lemma woven_trans: "woven R c d1 d2 \<Longrightarrow> woven R c d d1 \<Longrightarrow> woven R c d d2"
  by (induction rule: woven.induct) (auto intro: woven.intros)

lemma woven_step: "R d d' \<Longrightarrow> woven R c d d'"
  by (rule woven_own [OF woven_done])

lemma woven_others_keep: "others_keep (woven R c) c"
  by (simp add: others_keep_def woven_others woven_done)

interpretation woven_final: bootstrap_steps "woven reports_final c" limit for c limit
proof unfold_locales
  fix d d1 d2
  assume "woven reports_final c d d1" "woven reports_final c d1 d2"
  then show "woven reports_final c d d2" by (blast intro: woven_trans)
qed (auto intro: woven_done woven_step final_steps)

text \<open>When a program succeeds.\<close>

lemma db_bind_ok: "db_bind m f d = (Inr y, d') \<longleftrightarrow> (\<exists>x d1. m d = (Inr x, d1) \<and> f x d1 = (Inr y, d'))"
  by (auto simp: db_bind_def split: prod.split sum.split)

lemma db_map_err_ok: "db_map_err g m d = (Inr x, d') \<longleftrightarrow> m d = (Inr x, d')"
  by (auto simp: db_map_err_def split: prod.split sum.split)

lemma db_exec_ok: "db_exec c k f d = (Inr x, d') \<longleftrightarrow> qc_fault c k = None \<and> f (qc_between c k d) = (Inr x, d')"
  by (auto simp: db_exec_def Let_def split: option.split prod.split)

lemma db_read_ok: "db_read c k q d = (Inr x, d') \<longleftrightarrow> qc_fault c k = None \<and> d' = qc_between c k d \<and> x = q d'"
  by (auto simp: db_read_def db_exec_ok)

lemma db_write_ok: "db_write c k f d = (Inr x, d') \<longleftrightarrow> qc_fault c k = None \<and> f (qc_between c k d) = (x, d')"
  by (cases "f (qc_between c k d)") (auto simp: db_write_def db_exec_ok)

lemma db_bindE:
  assumes "db_bind m f d = (Inr y, d')"
  obtains x d1 where "m d = (Inr x, d1)" "f x d1 = (Inr y, d')"
  using assms by (auto simp: db_bind_ok)

lemmas db_ok = db_bind_ok db_map_err_ok db_exec_ok db_read_ok db_write_ok

lemma or_invalid_ok: "or_invalid msg x = Inr v \<longleftrightarrow> x = Some v"
  by (simp add: or_invalid_def split: option.split)

text \<open>An accepted resolution closed the report that its event names, and found it open in the step that closes it.\<close>

lemma record_resolution_ok:
  assumes ok: "record_resolution c k com actor status action reason (i, report) d = (Inr effs, d')"
    and others: "others_keep reports_named c"
    and i: "map_of (td_reports d) (com, i) = Some report"
  shows "\<exists>a r. let d1 = qc_between c k d; d6 = qc_between c (k + 1) (d1\<lparr>td_actions := AList.update (com, qc_uuid c k) a (td_actions d1)\<rparr>)
     in map_of (td_reports d6) (com, i) = Some r \<and> rr_report_event_id r = rr_report_event_id report \<and> rr_status r = ''open'' \<and>
     d' = d6\<lparr>td_reports := AList.update (com, i) (r\<lparr>rr_status := status, rr_resolved_by := Some actor,
       rr_resolved_at := Some (qc_now c (k + 1)), rr_action_id := Some (qc_uuid c k)\<rparr>) (td_reports d6)\<rparr>"
proof -
  let ?d1 = "qc_between c k d"
  from ok have "rr_status report = ''open''" by (auto simp: record_resolution_def split: if_splits)
  with ok obtain aid d5 where audit: "insert_audit c k com actor (resolution_audit_action action) (fst (audited_target (rr_target report)))
      (snd (audited_target (rr_target report))) reason d = (Inr aid, d5)"
    and close: "resolve_report c (k + 1) com i status actor (Some aid) d5 = (Inr True, d')"
    unfolding record_resolution_def by (auto simp: db_map_err_ok split: if_splits elim!: db_bindE)
  from audit have "\<exists>a. (qc_uuid c k, ?d1\<lparr>td_actions := AList.update (com, qc_uuid c k) a (td_actions ?d1)\<rparr>) = (aid, d5)"
    unfolding insert_audit_def insert_action_def db_map_err_ok db_exec_ok by (simp split: if_split_asm) blast
  then obtain a where d5: "d5 = ?d1\<lparr>td_actions := AList.update (com, qc_uuid c k) a (td_actions ?d1)\<rparr>" and aid: "aid = qc_uuid c k"
    by blast
  have "reports_named d d5" using others by (simp add: d5 others_keep_def reports_named_def)
  then have "reports_named d (qc_between c (k + 1) d5)" using others reports_named_trans by (auto simp: others_keep_def)
  then obtain r where r: "map_of (td_reports (qc_between c (k + 1) d5)) (com, i) = Some r"
      "rr_report_event_id r = rr_report_event_id report"
    using i unfolding reports_named_def by blast
  have "close_report com i status actor (Some aid) (qc_now c (k + 1)) (qc_between c (k + 1) d5) = (True, d')"
    using close by (simp add: resolve_report_def db_write_ok)
  with r show ?thesis unfolding Let_def d5 [symmetric]
    by (intro exI [of _ a] exI [of _ r]) (auto simp: d5 aid close_report_def split: option.splits if_splits)
qed

lemma report_by_event_ok:
  assumes "report_by_event com eid d = Some (i, r)" "distinct (map fst (td_reports d))"
  shows "map_of (td_reports d) (com, i) = Some r" "rr_report_event_id r = eid"
proof -
  have "((com, i), r) \<in> set (td_reports d) \<and> rr_report_event_id r = eid"
    using assms(1) by (auto simp: report_by_event_def find_Some_iff in_set_conv_nth)
  then show "map_of (td_reports d) (com, i) = Some r" "rr_report_event_id r = eid"
    using assms(2) by (simp_all add: map_of_distinct_iff)
qed

text \<open>What the statement that closes a report did: \<open>d5\<close> are the tables when the action is recorded, \<open>d6\<close> those when the
  report is closed.\<close>

definition closes_named_report ::
    "moderation_env \<Rightarrow> db_call \<Rightarrow> nat \<Rightarrow> community_id \<Rightarrow> event \<Rightarrow> tenant_db \<Rightarrow> tenant_db \<Rightarrow> bool" where
  "closes_named_report env c k com e d5 d' \<longleftrightarrow> (\<exists>a i r rid status.
     let d6 = qc_between c (k + 1) (d5\<lparr>td_actions := AList.update (com, qc_uuid c k) a (td_actions d5)\<rparr>)
     in extract_report_tag env e = Some rid \<and> extract_tag_value e ''status'' = Some status \<and>
        map_of (td_reports d6) (com, i) = Some r \<and> rr_report_event_id r = rid \<and> rr_status r = ''open'' \<and>
        d' = d6\<lparr>td_reports := AList.update (com, i) (r\<lparr>rr_status := status, rr_resolved_by := Some (ev_pubkey e),
          rr_resolved_at := Some (qc_now c (k + 1)), rr_action_id := Some (qc_uuid c k)\<rparr>) (td_reports d6)\<rparr>)"

lemma authorize_resolve_ok:
  "authorize_moderation_action env c k com actor None target ResolveReport d = (Inr auth, da) \<Longrightarrow> da = qc_between c k d"
  by (auto simp: authorize_moderation_action_def get_relay_member_def db_ok db_return_def db_lift_def Let_def
      split: if_splits moderation_target.splits)

lemma handle_resolve_ok:
  assumes ok: "handle_resolve env c k com e (ev_pubkey e) d = (Inr effs, d')" and others: "others_keep reports_named c"
    and keys: "distinct (map fst (td_reports d))"
  shows "closes_named_report env c (k + 4) com e (qc_between c (k + 4) (qc_between c (k + 3) (qc_between c k d))) d'"
proof -
  from ok obtain rid status action auth da i report d4 where steps:
      "authorize_moderation_action env c k com (ev_pubkey e) None (TargetEvent rid) ResolveReport d = (Inr auth, da)"
      "extract_report_tag env e = Some rid" "extract_tag_value e ''status'' = Some status"
      "get_report_by_event c (k + 3) com rid da = (Inr (Some (i, report)), d4)"
      "record_resolution c (k + 4) com (ev_pubkey e) status action (extract_tag_value e ''reason'') (i, report) d4 = (Inr effs, d')"
    unfolding handle_resolve_def by (auto simp: db_map_err_ok or_invalid_ok Let_def elim!: db_bindE)
  have found: "report_by_event com rid d4 = Some (i, report)" and d4: "d4 = qc_between c (k + 3) da"
    using steps(4) by (simp_all add: get_report_by_event_def db_read_ok)
  have da: "da = qc_between c k d" by (rule authorize_resolve_ok [OF steps(1)])
  have "reports_named d d4" using others reports_named_trans unfolding d4 da others_keep_def by blast
  then have "distinct (map fst (td_reports d4))" using keys unfolding reports_named_def by blast
  note report = report_by_event_ok [OF found this]
  have eq: "d4 = qc_between c (k + 3) (qc_between c k d)" by (simp add: d4 da)
  show ?thesis using record_resolution_ok [OF steps(5) others report(1)] report(2) steps(2,3)
    unfolding closes_named_report_def eq [symmetric] Let_def by blast
qed

text \<open>C22. A report is closed once.  In a run of any request, whatever other sessions do, every change of its own
  keeps every report that is closed at that moment as it is, and no report is lost or given to another event.
  And a resolve command that succeeds changes two things only, between what other sessions do: it
  records an action in its fifth step, and in its sixth it closes the report that the event
  named by its report tag has, which was open at that moment, with the status the command states, the sender and the record
  of the action.  Other sessions may do what they like, as long as they do not lose reports or give them to other
  events.\<close>

theorem report_closed_once:
  assumes "others_keep reports_named c" "distinct (map fst (td_reports d))"
  shows "woven reports_final (ic_db ic) d0 (serve env ic q d0) \<and>
    (handle_moderation_command menv c now com e d = (Inr effs, d') \<longrightarrow> ev_kind e = KIND_MODERATION_RESOLVE_REPORT \<longrightarrow>
      closes_named_report menv c 5 com e (qc_between c 5 (qc_between c 4 (qc_between c 1 (qc_between c 0 d)))) d')"
proof (intro conjI impI)
  show "woven reports_final (ic_db ic) d0 (serve env ic q d0)"
    using woven_others_keep refl by (rule woven_final.kept_serve)
next
  assume h: "handle_moderation_command menv c now com e d = (Inr effs, d')" "ev_kind e = KIND_MODERATION_RESOLVE_REPORT"
  then have run: "handle_resolve menv c 1 com e (ev_pubkey e) (qc_between c 0 d) = (Inr effs, d')"
    unfolding handle_moderation_command_def
    by (auto simp: Let_def kind_consts moderation_restriction_state_def db_map_err_ok db_read_ok split: if_splits elim!: db_bindE)
  have "distinct (map fst (td_reports (qc_between c 0 d)))"
    using assms by (simp add: others_keep_def reports_named_def)
  from handle_resolve_ok [OF run assms(1) this]
  show "closes_named_report menv c 5 com e (qc_between c 5 (qc_between c 4 (qc_between c 1 (qc_between c 0 d)))) d'" by simp
qed

section \<open>Rank\<close>

text \<open>The rows of owners, and of owners and administrators.\<close>

definition owner_rows :: "tenant_db \<Rightarrow> community_id \<Rightarrow> string \<Rightarrow> relay_member option" where
  "owner_rows d com pk = (case member_of d com pk of
     Some m \<Rightarrow> if rm_role m = ''owner'' then Some m else None | None \<Rightarrow> None)"

definition ranked_rows :: "tenant_db \<Rightarrow> community_id \<Rightarrow> string \<Rightarrow> relay_member option" where
  "ranked_rows d com pk = (case member_of d com pk of
     Some m \<Rightarrow> if rm_role m = ''owner'' \<or> rm_role m = ''admin'' then Some m else None | None \<Rightarrow> None)"

text \<open>What a sender of a role may do to the tables in one step: the target's row only, never the row of an owner, and
  the row of an administrator only as the owner.\<close>

definition rank_respected :: "string \<Rightarrow> community_id \<Rightarrow> string \<Rightarrow> tenant_db \<Rightarrow> tenant_db \<Rightarrow> bool" where
  "rank_respected role com target d d' \<longleftrightarrow> (role = ''owner'' \<or> role = ''admin'') \<and>
     (\<forall>com' pk. (com', pk) \<noteq> (com, target) \<longrightarrow> member_of d' com' pk = member_of d com' pk) \<and>
     owner_rows d' = owner_rows d \<and> (role \<noteq> ''owner'' \<longrightarrow> ranked_rows d' = ranked_rows d)"

lemma rank_respected_steps:
  assumes "role = ''owner'' \<or> role = ''admin''"
  shows "new = ''member'' \<or> new = ''admin'' \<and> role = ''owner'' \<Longrightarrow>
      rank_respected role com pk d (snd (insert_member com pk new by now d))"
    and "rank_respected role com pk d (snd (delete_member_if (\<lambda>r. r = ''member'') com pk d))"
    and "role = ''owner'' \<Longrightarrow> rank_respected role com pk d (snd (delete_member_if (\<lambda>r. r \<noteq> ''owner'') com pk d))"
    and "role = ''owner'' \<Longrightarrow> new = ''member'' \<or> new = ''admin'' \<Longrightarrow>
      rank_respected role com pk d (snd (set_role_unless_owner com pk new now d))"
  using assms
  by (auto simp: rank_respected_def fun_eq_iff owner_rows_def ranked_rows_def insert_member_def delete_member_if_def
      set_role_unless_owner_def new_member_def split: option.split if_splits)

text \<open>A part of a command that changes members in its \<open>k\<close>-th step at most, and perhaps reads once more.\<close>

definition changes_members_at ::
    "db_call \<Rightarrow> nat \<Rightarrow> (tenant_db \<Rightarrow> tenant_db \<Rightarrow> bool) \<Rightarrow> tenant_db \<Rightarrow> tenant_db \<Rightarrow> bool" where
  "changes_members_at c k ok d d' \<longleftrightarrow>
     (\<exists>x \<in> {d, qc_between c k d, qc_between c (k + 1) d, qc_between c (k + 1) (qc_between c k d)}. td_members d' = td_members x) \<or>
     (\<exists>after. ok (qc_between c k d) after \<and> (d' = after \<or> d' = qc_between c (k + 1) after))"

lemma changes_none: "changes_members_at c k ok d d"
  by (auto simp: changes_members_at_def)

lemma exec_tables:
  "snd (db_exec c k f d) = qc_between c k d \<or> snd (db_exec c k f d) = snd (f (qc_between c k d))"
  by (simp add: db_exec_def Let_def split: option.split prod.split)

lemma changes_exec: "(\<And>x. ok x (snd (f x))) \<Longrightarrow> changes_members_at c k ok d (snd (db_exec c k f d))"
  using exec_tables [of c k f d] by (auto simp: changes_members_at_def)

lemma write_tables:
  assumes "\<And>x. ok x (snd (f x))"
  shows "snd (db_write c k f d) = qc_between c k d \<or> ok (qc_between c k d) (snd (db_write c k f d))"
  using exec_tables [of c k "\<lambda>d. (Inr (fst (f d)), snd (f d))" d] assms [of "qc_between c k d"] by (auto simp: db_write_def)

lemma changes_then_read:
  assumes "snd (m d) = qc_between c k d \<or> ok (qc_between c k d) (snd (m d))"
    and "\<And>v x. snd (g v x) = x \<or> snd (g v x) = qc_between c (k + 1) x"
  shows "changes_members_at c k ok d (snd (db_bind m g d))"
proof -
  have "snd (db_bind m g d) = snd (m d) \<or> snd (db_bind m g d) = qc_between c (k + 1) (snd (m d))"
    using assms(2) by (cases "fst (m d)") (auto simp: snd_db_bind)
  with assms(1) show ?thesis by (auto simp: changes_members_at_def)
qed

lemma changes_map_err: "changes_members_at c k ok d (snd (m d)) \<Longrightarrow> changes_members_at c k ok d (snd (db_map_err g m d))"
  by simp

lemma changes_bind:
  assumes "changes_members_at c k ok d (snd (m d))" "\<And>v x. snd (f v x) = x"
  shows "changes_members_at c k ok d (snd (db_bind m f d))"
  using assms by (auto simp: snd_db_bind split: sum.split)

lemma changes_add_member:
  "changes_members_at c k (rank_respected role com target) d (snd (admin_add_member c k com sender role target e d))"
  unfolding admin_add_member_def add_relay_member_def Let_def
  by (auto intro!: changes_none changes_bind changes_exec rank_respected_steps(1))

lemma changes_remove_if_role:
  "role = ''admin'' \<Longrightarrow>
   changes_members_at c k (rank_respected role com target) d (snd (remove_relay_member_if_role c k com target ''member'' d))"
  unfolding remove_relay_member_if_role_def
  by (rule changes_then_read [OF write_tables]) (auto intro!: rank_respected_steps(2) simp: snd_db_bind db_read_run split: sum.split)

lemma changes_remove:
  "role = ''owner'' \<Longrightarrow>
   changes_members_at c k (rank_respected role com target) d (snd (remove_relay_member c k com target d))"
  unfolding remove_relay_member_def
  by (rule changes_then_read [OF write_tables]) (auto intro!: rank_respected_steps(3) simp: snd_db_bind db_read_run split: sum.split)

lemma changes_remove_member:
  "changes_members_at c k (rank_respected role com target) d (snd (admin_remove_member c k com sender role target d))"
  unfolding admin_remove_member_def
  by (auto intro!: changes_none changes_bind changes_map_err changes_remove_if_role changes_remove split: remove_result.split)

lemma changes_change_role:
  "changes_members_at c k (rank_respected role com target) d (snd (admin_change_role c k com sender role target e d))"
proof -
  have "changes_members_at c k (rank_respected role com target) d
      (snd (db_bind (db_map_err admin_db_error (update_relay_member_role c k com target new)) (\<lambda>updated.
         if updated then db_return [MembershipList]
         else db_bind (db_map_err admin_db_error (get_relay_member c (k + 1) com target)) (\<lambda>exists.
           db_fail (if exists \<noteq> None then ''cannot change the relay owner's role'' else ''member not found: '' @ target))) d))"
    if "role = ''owner''" "new = ''member'' \<or> new = ''admin''" for new
  proof (rule changes_then_read)
    show "snd (db_map_err admin_db_error (update_relay_member_role c k com target new) d) = qc_between c k d \<or>
        rank_respected role com target (qc_between c k d)
          (snd (db_map_err admin_db_error (update_relay_member_role c k com target new) d))"
      unfolding update_relay_member_role_def snd_db_map_err
      by (rule write_tables, rule rank_respected_steps(4)) (simp_all add: that)
  qed (auto simp: snd_db_bind get_relay_member_def db_read_run split: sum.split)
  then show ?thesis
    unfolding admin_change_role_def by (auto intro!: changes_none split: option.split)
qed

lemma icon_members: "td_members (snd (set_community_icon c j com icon d)) = td_members (qc_between c j d)"
  by (simp add: set_community_icon_def db_write_run Let_def split: option.split)

lemma changes_read_first:
  assumes "snd (m d) = d \<or> snd (m d) = qc_between c k d"
    and "\<And>v x. td_members (snd (f v x)) = td_members x \<or> td_members (snd (f v x)) = td_members (qc_between c (k + 1) x)"
  shows "changes_members_at c k ok d (snd (db_bind m f d))"
proof (cases "fst (m d)")
  case (Inr v)
  then show ?thesis using assms(1) assms(2) [of v "snd (m d)"] by (auto simp: snd_db_bind changes_members_at_def)
qed (use assms(1) in \<open>auto simp: snd_db_bind changes_members_at_def\<close>)

lemma changes_profile: "changes_members_at c k ok d (snd (set_workspace_profile enforced c k com role e d))"
  unfolding set_workspace_profile_def
proof (rule changes_read_first)
  show "snd ((if enforced then db_return True else db_map_err admin_db_error (has_admin_or_owner c k com)) d) = d \<or>
      snd ((if enforced then db_return True else db_map_err admin_db_error (has_admin_or_owner c k com)) d) = qc_between c k d"
    by (simp add: has_admin_or_owner_def db_read_run)
qed (simp add: Let_def snd_db_bind icon_members split: sum.split)

lemma changes_mono:
  "changes_members_at c k ok d d' \<Longrightarrow> (\<And>b a. ok b a \<Longrightarrow> ok' b a) \<Longrightarrow> changes_members_at c k ok' d d'"
  unfolding changes_members_at_def by blast

text \<open>The role the sender has when the command reads it.\<close>

definition sender_role_read :: "nostr_lib \<Rightarrow> db_call \<Rightarrow> community_id \<Rightarrow> event \<Rightarrow> tenant_db \<Rightarrow> string" where
  "sender_role_read lib c com e d =
     (case member_of (qc_between c 1 (qc_between c 0 d)) com (pubkey_to_hex lib (ev_pubkey e)) of
        Some m \<Rightarrow> rm_role m | None \<Rightarrow> [])"

lemma changes_execute:
  fixes lib com e c k d
  defines "sender \<equiv> pubkey_to_hex lib (ev_pubkey e)"
  defines "role \<equiv> (case member_of (qc_between c k d) com sender of Some m \<Rightarrow> rm_role m | None \<Rightarrow> [])"
  defines "ok \<equiv> (\<lambda>b a. \<exists>target. extract_p_tag_hex e = Some target \<and> rank_respected role com (map to_ascii_lower target) b a)"
  shows "snd (execute_relay_admin_command lib enforced c k now com e d) = d \<or>
    changes_members_at c (k + 1) ok (qc_between c k d) (snd (execute_relay_admin_command lib enforced c k now com e d))"
proof -
  let ?d = "qc_between c k d"
  have parts: "changes_members_at c (k + 1) ok ?d (snd (admin_add_member c (k + 1) com sender role (map to_ascii_lower t) e ?d))"
      "changes_members_at c (k + 1) ok ?d (snd (admin_remove_member c (k + 1) com sender role (map to_ascii_lower t) ?d))"
      "changes_members_at c (k + 1) ok ?d (snd (admin_change_role c (k + 1) com sender role (map to_ascii_lower t) e ?d))"
    if "extract_p_tag_hex e = Some t" for t
    using that
    by (auto simp: ok_def intro: changes_mono [OF changes_add_member] changes_mono [OF changes_remove_member]
        changes_mono [OF changes_change_role])
  have read: "snd (db_bind (db_map_err admin_db_error (get_relay_member c k com sender)) f d) =
      (case qc_fault c k of None \<Rightarrow> snd (f (member_of ?d com sender) ?d) | Some _ \<Rightarrow> ?d)"
    for f :: "relay_member option \<Rightarrow> (string, announcement list) db_prog"
    by (simp add: snd_db_bind db_map_err_def get_relay_member_def db_read_run split: option.split)
  have "changes_members_at c (k + 1) ok ?d (snd (execute_relay_admin_command lib enforced c k now com e d))" if "\<not> command_stale e now"
    using that parts changes_profile [of c "k + 1" ok ?d enforced com role e]
    unfolding execute_relay_admin_command_def Let_def if_not_P [OF that] sender_def [symmetric] read
    by (auto simp: role_def [symmetric] changes_none split: option.split)
  then show ?thesis by (cases "command_stale e now") (simp_all add: execute_relay_admin_command_def Let_def)
qed

text \<open>C7. The commands of administrators respect rank also when other sessions change roles between the steps of
  the command, without any assumption on what they do.  A command reads the sender's role (the tables are d1
  then) and changes members in the step after that (d2), or not at all: the members in the end are those
  other sessions left at some step, or else the command changed d2, then
  the sender was an owner or an administrator when its role was read, the change is confined to the row of the
  target, no row that belongs to an owner in d2 is changed and no owner is created, and unless the sender was the
  owner no row that belongs to an administrator in d2 is changed and no administrator is created.\<close>

theorem admin_commands_respect_rank:
  "let d0 = qc_between c 0 d; d1 = qc_between c 1 d0; d2 = qc_between c 2 d1;
       final = snd (handle_relay_admin_event lib enforced c now com e d)
   in (\<exists>x \<in> {d0, d1, d2, qc_between c 3 d1, qc_between c 3 d2}. td_members final = td_members x) \<or>
      (\<exists>target after. extract_p_tag_hex e = Some target \<and>
         rank_respected (sender_role_read lib c com e d) com (map to_ascii_lower target) d2 after \<and>
         (final = after \<or> final = qc_between c 3 after))"
proof -
  define d0 d1 final where "d0 = qc_between c 0 d" and "d1 = qc_between c 1 d0"
    and "final = snd (handle_relay_admin_event lib enforced c now com e d)"
  note defs = this
  have "final = d0 \<or> final = snd (execute_relay_admin_command lib enforced c 1 now com e d0)"
    by (simp add: defs handle_relay_admin_event_def snd_db_bind moderation_restriction_state_def db_read_run
        admits_relay_admin_command_def guard_def split: option.split sum.split)
  moreover have "sender_role_read lib c com e d =
      (case member_of (qc_between c 1 d0) com (pubkey_to_hex lib (ev_pubkey e)) of Some m \<Rightarrow> rm_role m | None \<Rightarrow> [])"
    by (simp add: sender_role_read_def defs)
  ultimately have "final = d0 \<or> changes_members_at c 2 (\<lambda>b a. \<exists>target. extract_p_tag_hex e = Some target \<and>
      rank_respected (sender_role_read lib c com e d) com (map to_ascii_lower target) b a) d1 final"
    using changes_execute [of lib enforced c 1 now com e d0] by (auto simp: defs(2) numeral_2_eq_2)
  then show ?thesis unfolding Let_def defs(3) [symmetric] defs(1) [symmetric] defs(2) [symmetric]
    by (auto simp: changes_members_at_def numeral_3_eq_3)
qed

section \<open>Concrete commands\<close>

definition ex_name :: "bytes \<Rightarrow> string" where
  "ex_name b = (if b = [97] then ''a'' else if b = [98] then ''b'' else if b = [99] then ''c'' else ''d'')"

definition ex_names :: nostr_lib where
  "ex_names = ex_lib\<lparr>pubkey_to_hex := ex_name, hex_encode := ex_name\<rparr>"

text \<open>Hexadecimal text that stands for its length.\<close>

definition ex_moderation :: moderation_env where
  "ex_moderation = \<lparr>me_nostr = ex_names, me_hex_decode = (\<lambda>s. Some [word_of_nat (length s)]), me_timestamp_opt = Some,
     me_member_role = (\<lambda>_ _ _ _. None)\<rparr>"

definition ex_key :: string where
  "ex_key = replicate 64 (CHR ''e'')"

definition ex_command :: "kind \<Rightarrow> pubkey \<Rightarrow> tag list \<Rightarrow> event" where
  "ex_command k pk ts = \<lparr>ev_id = [1], ev_pubkey = pk, ev_created_at = 100, ev_kind = k, ev_tags = ts, ev_content = []\<rparr>"

lemma ex_call_run:
  "qc_fault ex_db_call k = None" "qc_between ex_db_call k = id" "qc_now ex_db_call k = 100" "qc_uuid ex_db_call k = 70 + k"
  by (simp_all add: ex_db_call_def)

lemma ex_key_hex: "is_hex64 ex_key" "length ex_key = 64"
  by (simp_all add: is_hex64_def ex_key_def list_all_iff is_ascii_hexdigit_def)

lemma ex_fresh: "\<not> command_stale (ex_command k pk ts) 100"
  by (simp add: command_stale_def event_skew_def ex_command_def i64_wrap_def MAX_COMMAND_SKEW_SECS_def)

theorem tables_stay_typed_witness:
  "\<forall>env b e. db_typed (serve_all env [(ex_invite_call ex_db_call b, ModerationEvent 2 e), (ex_invite_call ex_db_call b, Backfill 2)] ex_tables)"
proof (intro allI)
  fix env :: serve_env and b :: bridge_call and e :: event
  have "db_typed ex_tables"
    by (simp add: db_typed_def table_typed_def ex_tables_def role_typed_def invite_typed_def report_typed_def new_member_def
        ex_report_def MAX_INVITE_USES_def)
  moreover have "list_all (\<lambda>(c, q). others_keep typed_kept (ic_db c))
      [(ex_invite_call ex_db_call b, ModerationEvent 2 e), (ex_invite_call ex_db_call b, Backfill 2)]"
    by (simp add: ex_invite_call_def others_keep_quiet)
  ultimately show "db_typed (serve_all env [(ex_invite_call ex_db_call b, ModerationEvent 2 e), (ex_invite_call ex_db_call b, Backfill 2)] ex_tables)"
    by (rule tables_stay_typed)
qed

definition ex_resolve :: event where
  "ex_resolve = ex_command KIND_MODERATION_RESOLVE_REPORT [97] [[''report'', ex_key], [''status'', ''resolved''], [''action'', ''ban'']]"

lemmas ex_command_run = db_bind_def db_map_err_def db_read_run db_write_run db_exec_def ex_call_run

lemma ex_resolve_tags:
  "extract_report_tag ex_moderation ex_resolve = Some [64]" "extract_tag_value ex_resolve ''status'' = Some ''resolved''"
  "extract_tag_value ex_resolve ''action'' = Some ''ban''" "extract_tag_value ex_resolve ''reason'' = None"
  using ex_key_hex by (simp_all add: extract_report_tag_def extract_tag_value_def ex_resolve_def ex_command_def ex_moderation_def)

lemma ex_resolve_kind:
  "ev_kind ex_resolve = KIND_MODERATION_RESOLVE_REPORT" "ev_pubkey ex_resolve = [97]" "\<not> command_stale ex_resolve 100"
  using ex_fresh by (simp_all add: ex_resolve_def) (simp_all add: ex_command_def)

lemma ex_resolve_accepted: "is_ok (fst (handle_moderation_command ex_moderation ex_db_call 100 2 ex_resolve ex_tables))"
proof -
  have gate: "rx_banned (restriction_at 100 2 [97] ex_tables) = False" by (simp add: restriction_at_def ex_tables_def)
  have role: "member_of ex_tables 2 ''a'' = Some (new_member ''a'' ''owner'' None 5)" by (simp add: member_of_def ex_tables_def)
  have found: "report_by_event 2 [64] ex_tables = Some (3, ex_report)"
    by (simp add: report_by_event_def ex_tables_def ex_report_def)
  have acts: "td_actions ex_tables = []" by (simp add: ex_tables_def)
  have "fst (close_report 2 3 ''resolved'' [97] a now (ex_tables\<lparr>td_actions := as\<rparr>))" "rr_status ex_report = ''open''" for a now as
    by (simp_all add: close_report_def ex_tables_def ex_report_def)
  moreover have "handle_moderation_command ex_moderation ex_db_call 100 2 ex_resolve ex_tables =
      handle_resolve ex_moderation ex_db_call 1 2 ex_resolve [97] ex_tables"
    by (simp add: handle_moderation_command_def Let_def ex_command_run moderation_restriction_state_def gate
        ensure_actor_not_banned_def ex_resolve_kind guard_def) (simp add: kind_consts)
  moreover have "authorize_moderation_action ex_moderation ex_db_call 1 2 [97] None (TargetEvent [64]) ResolveReport ex_tables =
      (Inr CommunityOwner, ex_tables)"
    by (simp add: authorize_moderation_action_def get_relay_member_def ex_command_run ex_moderation_def ex_names_def ex_name_def role
        new_member_def decide_authority_def Let_def)
  ultimately show ?thesis
    by (simp add: handle_resolve_def ex_resolve_tags or_invalid_def resolve_vocabulary_def RESOLVE_ACTIONS_def Let_def
        get_report_by_event_def found acts record_resolution_def insert_audit_def insert_action_def resolve_report_def ex_command_run
        resolution_audit_action_def MODERATION_ACTION_CHECK_VOCAB_def split: prod.split)
qed

theorem report_closed_once_witness:
  "\<exists>i r. rr_status r = ''open'' \<and> rr_report_event_id r = [64] \<and> map_of (td_reports ex_tables) (2, i) = Some r \<and>
     map_of (td_reports (snd (handle_moderation_command ex_moderation ex_db_call 100 2 ex_resolve ex_tables))) (2, i) =
       Some (r\<lparr>rr_status := ''resolved'', rr_resolved_by := Some [97], rr_resolved_at := Some 100,
         rr_action_id := Some (qc_uuid ex_db_call 5)\<rparr>)"
proof -
  obtain effs d' where run: "handle_moderation_command ex_moderation ex_db_call 100 2 ex_resolve ex_tables = (Inr effs, d')"
    using ex_resolve_accepted
    by (cases "handle_moderation_command ex_moderation ex_db_call 100 2 ex_resolve ex_tables") (auto simp: is_ok_iff)
  have "others_keep reports_named ex_db_call" by (rule others_keep_quiet) (simp add: reports_named_same)
  moreover have "distinct (map fst (td_reports ex_tables))" by (simp add: ex_tables_def)
  ultimately have "closes_named_report ex_moderation ex_db_call 5 2 ex_resolve ex_tables d'"
    using report_closed_once [THEN conjunct2, THEN mp, THEN mp, OF _ _ run ex_resolve_kind(1)] by (simp add: ex_call_run)
  then show ?thesis unfolding closes_named_report_def Let_def run
    by (auto simp: ex_resolve_tags ex_call_run ex_resolve_kind)
qed

text \<open>An administrator removes a key that another session makes an administrator in between.\<close>

definition ex_promotion :: db_call where
  "ex_promotion = ex_db_call\<lparr>qc_between := (\<lambda>k d. if k = 2 then put_member 2 ex_key (new_member ex_key ''admin'' None 60) d else d)\<rparr>"

definition ex_removal :: event where
  "ex_removal = ex_command RELAY_ADMIN_REMOVE_MEMBER [98] [[''p'', ex_key]]"

theorem admin_commands_respect_rank_witness:
  "let d2 = put_member 2 ex_key (new_member ex_key ''admin'' None 60) ex_tables;
       final = snd (handle_relay_admin_event ex_names True ex_promotion 100 2 ex_removal ex_tables)
   in (\<exists>x \<in> {ex_tables, d2}. td_members final = td_members x) \<or>
      (\<exists>target after. extract_p_tag_hex ex_removal = Some target \<and>
         rank_respected ''admin'' 2 (map to_ascii_lower target) d2 after \<and> final = after)"
proof -
  have "sender_role_read ex_names ex_promotion 2 ex_removal ex_tables = ''admin''"
    by (simp add: sender_role_read_def ex_promotion_def ex_removal_def ex_command_def ex_names_def ex_name_def member_of_def
        ex_tables_def new_member_def)
  moreover have "qc_between ex_promotion 0 = id" "qc_between ex_promotion 1 = id" "qc_between ex_promotion 3 = id"
      "qc_between ex_promotion 2 = put_member 2 ex_key (new_member ex_key ''admin'' None 60)"
    by (simp_all add: ex_promotion_def fun_eq_iff)
  ultimately show ?thesis
    using admin_commands_respect_rank [of ex_promotion ex_tables ex_names True 100 2 ex_removal] by (simp add: Let_def) blast
qed

end
