(* ===== verification/Command_Safety.thy ===== *)
theory Command_Safety
  imports Moderation_Safety Auth_Safety
begin

text \<open>
  What single commands and routes do: the banned, the ban command, the freshness of commands, invitations and
  the receipts of the join policy.  A call is quiet when nothing fails and no other session interferes.
\<close>

section \<open>Quiet calls\<close>

definition quiet :: "db_call \<Rightarrow> bool" where
  "quiet c \<longleftrightarrow> (\<forall>k. qc_fault c k = None) \<and> (\<forall>k. qc_between c k = id)"

lemma quiet_run:
  assumes "quiet c"
  shows "db_exec c k f d = f d" "db_read c k q d = (Inr (q d), d)" "db_write c k g d = (Inr (fst (g d)), snd (g d))"
  using assms by (simp_all add: quiet_def db_exec_def db_read_run db_write_run Let_def)

section \<open>The banned\<close>

text \<open>C36. A command of a banned key changes nothing: neither a moderation command nor a command of an
  administrator goes beyond the look at the restrictions, whatever comes after.\<close>

theorem banned_actor_changes_nothing:
  assumes "rx_banned (restriction_at (qc_now c 0) com (ev_pubkey e) (qc_between c 0 d))"
  shows "(snd (handle_moderation_command env c now com e d) = qc_between c 0 d) \<and>
    (snd (handle_relay_admin_event lib enforced c now com e d) = qc_between c 0 d) \<and>
    (\<not> is_ok (fst (handle_moderation_command env c now com e d))) \<and>
    (\<not> is_ok (fst (handle_relay_admin_event lib enforced c now com e d))) \<and>
    (qc_fault c 0 = None \<longrightarrow>
      fst (handle_moderation_command env c now com e d) = Inl ''blocked: you are banned from this community'' \<and>
      fst (handle_relay_admin_event lib enforced c now com e d) = Inl AdminBanned)"
  using assms
  by (simp add: handle_moderation_command_def handle_relay_admin_event_def Let_def db_bind_def db_map_err_def
      moderation_restriction_state_def db_read_run ensure_actor_not_banned_def admits_relay_admin_command_def guard_def
      split: option.split)

section \<open>The ban command\<close>

definition role_of :: "moderation_env \<Rightarrow> tenant_db \<Rightarrow> community_id \<Rightarrow> bytes \<Rightarrow> string option" where
  "role_of env d com pk = map_option rm_role (member_of d com (hex_encode (me_nostr env) pk))"

text \<open>The owner may restrict everybody, an administrator everybody without a rank.\<close>

definition may_restrict :: "moderation_env \<Rightarrow> tenant_db \<Rightarrow> community_id \<Rightarrow> bytes \<Rightarrow> bytes \<Rightarrow> bool" where
  "may_restrict env d com actor target \<longleftrightarrow>
     role_of env d com actor = Some ''owner'' \<or>
     role_of env d com actor = Some ''admin'' \<and> role_of env d com target \<noteq> Some ''owner'' \<and>
       role_of env d com target \<noteq> Some ''admin''"

lemma authorize_restriction:
  assumes "quiet c" "action = Ban \<or> action = Timeout"
  shows "snd (authorize_moderation_action env c k com actor None (TargetPubkey target) action d) = d"
    and "is_ok (fst (authorize_moderation_action env c k com actor None (TargetPubkey target) action d)) \<longleftrightarrow>
      may_restrict env d com actor target"
proof -
  have "authorize_moderation_action env c k com actor None (TargetPubkey target) action d =
      (decide_authority (role_of env d com actor)
         (if role_of env d com actor = Some ''admin'' then role_of env d com target else None) None action, d)"
    using assms(2)
    by (auto simp: authorize_moderation_action_def get_relay_member_def role_of_def Let_def db_bind_def quiet_run [OF assms(1)])
  with assms(2) show "snd (authorize_moderation_action env c k com actor None (TargetPubkey target) action d) = d"
    and "is_ok (fst (authorize_moderation_action env c k com actor None (TargetPubkey target) action d)) \<longleftrightarrow>
      may_restrict env d com actor target"
    by (auto simp: decide_authority_def may_restrict_def)
qed

definition ban_accepted :: "moderation_env \<Rightarrow> db_call \<Rightarrow> timestamp \<Rightarrow> community_id \<Rightarrow> event \<Rightarrow> tenant_db \<Rightarrow> bool" where
  "ban_accepted env c now com e d \<longleftrightarrow>
     \<not> rx_banned (restriction_at (qc_now c 0) com (ev_pubkey e) d) \<and> \<not> command_stale e now \<and>
     is_ok (extract_expiration env e) \<and>
     (case extract_p_tag_bytes env e of Some target \<Rightarrow> may_restrict env d com (ev_pubkey e) target | None \<Rightarrow> False)"

definition ban_audit :: "event \<Rightarrow> bytes \<Rightarrow> timestamp \<Rightarrow> action_record" where
  "ban_audit e target now =
     \<lparr>ar_actor_pubkey = ev_pubkey e, ar_action = ''ban'', ar_target_pubkey = Some target, ar_target_event_id = None,
      ar_channel_id = None, ar_reason_code = None, ar_public_reason = extract_tag_value e ''reason'', ar_private_reason = None,
      ar_matched_principal = None, ar_created_at = now\<rparr>"

definition banned_row :: "db_call \<Rightarrow> community_id \<Rightarrow> event \<Rightarrow> bytes \<Rightarrow> int option \<Rightarrow> tenant_db \<Rightarrow> ban_row" where
  "banned_row c com e target expiry d =
     (ban_or_blank com target (ev_pubkey e) (qc_now c 4) d)
       \<lparr>br_banned := True, br_ban_expires_at := expiry, br_ban_reason := extract_tag_value e ''reason'',
        br_actor_pubkey := ev_pubkey e, br_updated_at := qc_now c 4\<rparr>"

lemma ban_dispatch:
  assumes "quiet c" "ev_kind e = KIND_MODERATION_BAN"
    "\<not> rx_banned (restriction_at (qc_now c 0) com (ev_pubkey e) d)" "\<not> command_stale e now"
  shows "handle_moderation_command env c now com e d = handle_ban env c 1 com e (ev_pubkey e) d"
  using assms(2-4)
  by (simp add: handle_moderation_command_def Let_def db_bind_def db_map_err_def moderation_restriction_state_def
      quiet_run [OF assms(1)] ensure_actor_not_banned_def)

text \<open>The ban is stored before the action is recorded.\<close>

lemma handle_ban_authorized:
  assumes others: "\<And>k. qc_between c k = id" and ok: "\<And>k. k < 5 \<Longrightarrow> qc_fault c k = None"
    and tags: "extract_p_tag_bytes env e = Some target" "extract_expiration env e = Inr expiry"
    and may: "may_restrict env d com (ev_pubkey e) target"
  shows "handle_ban env c 1 com e (ev_pubkey e) d =
    db_bind (insert_audit c 5 com (ev_pubkey e) ''ban'' (Some target) None (extract_tag_value e ''reason''))
      (\<lambda>action_id. db_return [Disconnect target (id_to_hex (me_nostr env) (ev_id e)) ''blocked: you are banned from this community'',
         RestrictionNotice target action_id ''ban'' (reason_text (extract_tag_value e ''reason''))])
      (put_ban com target (banned_row c com e target expiry d) d)"
proof -
  have auth: "\<exists>a. authorize_moderation_action env c 1 com (ev_pubkey e) None (TargetPubkey target) Ban d = (Inr a, d)"
    using may others ok
    by (auto simp: authorize_moderation_action_def get_relay_member_def role_of_def may_restrict_def Let_def db_bind_def
        db_read_run decide_authority_def)
  then obtain a where a: "db_map_err authz_denial
      (authorize_moderation_action env c 1 com (ev_pubkey e) None (TargetPubkey target) Ban) d = (Inr a, d)"
    by (auto simp: db_map_err_def)
  have ban: "db_map_err db_denial (ban_member c 4 com target (ev_pubkey e) (extract_tag_value e ''reason'') expiry) d =
      (Inr (), put_ban com target (banned_row c com e target expiry d) d)"
    using others ok by (simp add: db_map_err_def ban_member_def db_write_run banned_row_def)
  show ?thesis
    unfolding handle_ban_def tags or_invalid_def option.case db_bind_simps Let_def
    using a ban by (simp add: db_bind_def)
qed

definition ban_answer ::
    "moderation_env \<Rightarrow> db_call \<Rightarrow> community_id \<Rightarrow> event \<Rightarrow> bytes \<Rightarrow> int option \<Rightarrow> tenant_db \<Rightarrow>
     (string, moderation_effect list) result \<times> tenant_db" where
  "ban_answer env c com e target expiry d =
     (Inr [Disconnect target (id_to_hex (me_nostr env) (ev_id e)) ''blocked: you are banned from this community'',
           RestrictionNotice target (qc_uuid c 5) ''ban'' (reason_text (extract_tag_value e ''reason''))],
      (put_ban com target (banned_row c com e target expiry d) d)
        \<lparr>td_actions := AList.update (com, qc_uuid c 5) (ban_audit e target (qc_now c 5)) (td_actions d)\<rparr>)"

lemma ban_accepted_answer:
  assumes q: "quiet c" and kind: "ev_kind e = KIND_MODERATION_BAN" and fresh: "map_of (td_actions d) (com, qc_uuid c 5) = None"
    and acc: "ban_accepted env c now com e d" and tags: "extract_p_tag_bytes env e = Some target" "extract_expiration env e = Inr expiry"
  shows "handle_moderation_command env c now com e d = ban_answer env c com e target expiry d"
proof -
  have "may_restrict env d com (ev_pubkey e) target" using acc tags by (simp add: ban_accepted_def)
  then have "handle_ban env c 1 com e (ev_pubkey e) d =
      db_bind (insert_audit c 5 com (ev_pubkey e) ''ban'' (Some target) None (extract_tag_value e ''reason''))
      (\<lambda>action_id. db_return [Disconnect target (id_to_hex (me_nostr env) (ev_id e)) ''blocked: you are banned from this community'',
         RestrictionNotice target action_id ''ban'' (reason_text (extract_tag_value e ''reason''))])
      (put_ban com target (banned_row c com e target expiry d) d)"
    using q by (intro handle_ban_authorized tags) (simp_all add: quiet_def)
  moreover have "handle_moderation_command env c now com e d = handle_ban env c 1 com e (ev_pubkey e) d"
    using acc by (intro ban_dispatch q kind) (simp_all add: ban_accepted_def)
  moreover have "insert_audit c 5 com (ev_pubkey e) ''ban'' (Some target) None (extract_tag_value e ''reason'')
      (put_ban com target (banned_row c com e target expiry d) d) =
      (Inr (qc_uuid c 5), (put_ban com target (banned_row c com e target expiry d) d)
         \<lparr>td_actions := AList.update (com, qc_uuid c 5) (ban_audit e target (qc_now c 5)) (td_actions d)\<rparr>)"
    using fresh by (simp add: insert_audit_def insert_action_def db_map_err_def quiet_run [OF q] put_ban_def ban_audit_def
        MODERATION_ACTION_CHECK_VOCAB_def)
  ultimately show ?thesis
    by (simp add: ban_answer_def db_bind_def)
qed

lemma ban_refused:
  assumes q: "quiet c" and kind: "ev_kind e = KIND_MODERATION_BAN" and ref: "\<not> ban_accepted env c now com e d"
  shows "\<not> is_ok (fst (handle_moderation_command env c now com e d)) \<and> snd (handle_moderation_command env c now com e d) = d"
proof (cases "rx_banned (restriction_at (qc_now c 0) com (ev_pubkey e) d) \<or> command_stale e now")
  case True
  then show ?thesis
    by (auto simp: handle_moderation_command_def Let_def db_bind_def db_map_err_def moderation_restriction_state_def
        quiet_run [OF q] ensure_actor_not_banned_def guard_def)
next
  case False
  then have run: "handle_moderation_command env c now com e d = handle_ban env c 1 com e (ev_pubkey e) d"
    by (intro ban_dispatch q kind) simp_all
  show ?thesis
  proof (cases "extract_p_tag_bytes env e")
    case None
    then show ?thesis by (simp add: run handle_ban_def or_invalid_def)
  next
    case (Some target)
    show ?thesis
    proof (cases "extract_expiration env e")
      case (Inl x)
      then show ?thesis using Some by (simp add: run handle_ban_def or_invalid_def)
    next
      case (Inr expiry)
      then have "\<not> may_restrict env d com (ev_pubkey e) target" using Some ref False by (simp add: ban_accepted_def)
      then obtain x where "authorize_moderation_action env c 1 com (ev_pubkey e) None (TargetPubkey target) Ban d = (Inl x, d)"
        using authorize_restriction [OF q, of Ban env 1 com "ev_pubkey e" target d]
        by (cases "authorize_moderation_action env c 1 com (ev_pubkey e) None (TargetPubkey target) Ban d"; cases "fst (authorize_moderation_action env c 1 com (ev_pubkey e) None (TargetPubkey target) Ban d)") auto
      then show ?thesis using Some Inr by (simp add: run handle_ban_def or_invalid_def Let_def db_bind_def db_map_err_def)
    qed
  qed
qed

text \<open>C14. In a quiet call a ban command is accepted exactly when its sender is not banned, it is fresh, names a key and
  a valid expiry, and its sender may restrict that key: the owner anybody, an administrator anybody who is
  neither owner nor administrator, nobody else anybody.  Accepted, it bans the key until the expiry, records
  the action, closes the connections of the key and notifies it, and changes nothing else; refused, it
  changes nothing.\<close>

theorem ban_command_exact:
  assumes q: "quiet c" and kind: "ev_kind e = KIND_MODERATION_BAN" and fresh: "map_of (td_actions d) (com, qc_uuid c 5) = None"
  shows "(is_ok (fst (handle_moderation_command env c now com e d)) \<longleftrightarrow> ban_accepted env c now com e d) \<and>
    (\<not> ban_accepted env c now com e d \<longrightarrow> snd (handle_moderation_command env c now com e d) = d) \<and>
    (\<forall>target expiry. ban_accepted env c now com e d \<and> extract_p_tag_bytes env e = Some target \<and>
        extract_expiration env e = Inr expiry \<longrightarrow>
      handle_moderation_command env c now com e d = ban_answer env c com e target expiry d \<and>
      (\<forall>t. rx_banned (restriction_at t com target (snd (handle_moderation_command env c now com e d))) \<longleftrightarrow>
         expiry = None \<or> future t expiry))"
proof (intro conjI)
  note acc = ban_accepted_answer [OF q kind fresh]
  have "is_ok (fst (handle_moderation_command env c now com e d))" if a: "ban_accepted env c now com e d"
  proof -
    obtain target expiry where "extract_p_tag_bytes env e = Some target" "extract_expiration env e = Inr expiry"
      using a by (auto simp: ban_accepted_def is_ok_iff split: option.splits)
    from acc [OF a this] show ?thesis by (simp add: ban_answer_def)
  qed
  with ban_refused [OF q kind] show "is_ok (fst (handle_moderation_command env c now com e d)) \<longleftrightarrow> ban_accepted env c now com e d"
    and "\<not> ban_accepted env c now com e d \<longrightarrow> snd (handle_moderation_command env c now com e d) = d"
    by blast+
  have "rx_banned (restriction_at t com target (snd (ban_answer env c com e target expiry d))) \<longleftrightarrow> expiry = None \<or> future t expiry"
    for t target expiry
    by (simp add: ban_answer_def restriction_at_def put_ban_def ban_active_def banned_row_def)
  with acc show "\<forall>target expiry. ban_accepted env c now com e d \<and> extract_p_tag_bytes env e = Some target \<and>
        extract_expiration env e = Inr expiry \<longrightarrow>
      handle_moderation_command env c now com e d = ban_answer env c com e target expiry d \<and>
      (\<forall>t. rx_banned (restriction_at t com target (snd (handle_moderation_command env c now com e d))) \<longleftrightarrow>
         expiry = None \<or> future t expiry)"
    by metis
qed

text \<open>C39. The side effects of a ban are not one transaction: when only the record of the action cannot be written, the
  command is answered with an error and no connection is closed, although the ban is stored.\<close>

theorem ban_stands_without_record:
  assumes "\<forall>k. qc_between c k = id" "\<forall>k < 5. qc_fault c k = None" "qc_fault c 5 = Some (x, False)"
    and "ev_kind e = KIND_MODERATION_BAN" "ban_accepted env c now com e d"
    and "extract_p_tag_bytes env e = Some target" "extract_expiration env e = Inr expiry"
  shows "(handle_moderation_command env c now com e d =
    (Inl (error_text (''failed to write audit row: '' @ x)), put_ban com target (banned_row c com e target expiry d) d)) \<and>
    (rx_banned (restriction_at t com target (snd (handle_moderation_command env c now com e d))) \<longleftrightarrow> expiry = None \<or> future t expiry) \<and>
    (td_actions (snd (handle_moderation_command env c now com e d)) = td_actions d)"
proof (intro conjI)
  have may: "may_restrict env d com (ev_pubkey e) target" using assms(5,6) by (simp add: ban_accepted_def)
  have run: "handle_moderation_command env c now com e d = handle_ban env c 1 com e (ev_pubkey e) d"
    using assms(1,2,4,5)
    by (simp add: handle_moderation_command_def Let_def db_bind_def db_map_err_def moderation_restriction_state_def
        db_read_run ensure_actor_not_banned_def ban_accepted_def)
  have ban: "handle_ban env c 1 com e (ev_pubkey e) d =
      (Inl (error_text (''failed to write audit row: '' @ x)), put_ban com target (banned_row c com e target expiry d) d)"
    using assms(1-3) handle_ban_authorized [OF _ _ assms(6,7) may, of c]
    by (simp add: db_bind_def insert_audit_def insert_action_def db_map_err_def db_exec_def Let_def split: prod.split)
  show "handle_moderation_command env c now com e d =
    (Inl (error_text (''failed to write audit row: '' @ x)), put_ban com target (banned_row c com e target expiry d) d)"
    using run ban by simp
  then show "rx_banned (restriction_at t com target (snd (handle_moderation_command env c now com e d))) \<longleftrightarrow> expiry = None \<or> future t expiry"
    and "td_actions (snd (handle_moderation_command env c now com e d)) = td_actions d"
    by (simp_all add: restriction_at_def put_ban_def ban_active_def banned_row_def)
qed

section \<open>Freshness\<close>

lemma i64_wrap_small: "- (2 ^ 63) \<le> x \<Longrightarrow> x < 2 ^ 63 \<Longrightarrow> i64_wrap x = x"
  by (simp add: i64_wrap_def mod_pos_pos_trivial)

lemma i64_wrap_low: "- (2 ^ 63) - 2 ^ 64 \<le> x \<Longrightarrow> x < - (2 ^ 63) \<Longrightarrow> i64_wrap x = x + 2 ^ 64"
proof -
  assume "- (2 ^ 63) - 2 ^ 64 \<le> x" "x < - (2 ^ 63)"
  then have "(x + 2 ^ 63 + 2 ^ 64) mod 2 ^ 64 = x + 2 ^ 63 + 2 ^ 64" by (intro mod_pos_pos_trivial) simp_all
  moreover have "(x + 2 ^ 63 + 2 ^ 64) mod 2 ^ 64 = (x + 2 ^ 63) mod 2 ^ 64" by (rule mod_add_self2)
  ultimately show ?thesis by (simp only: i64_wrap_def)
qed

lemma as_i64_wrap: "as_i64 n = i64_wrap (int n)"
  by (simp add: as_i64_def i64_wrap_def signed_of_nat signed_take_bit_eq_take_bit_shift take_bit_eq_mod)

lemma i64_wrap_high: "2 ^ 63 \<le> x \<Longrightarrow> x < 2 ^ 64 \<Longrightarrow> i64_wrap x = x - 2 ^ 64"
proof -
  assume "2 ^ 63 \<le> x" "x < 2 ^ 64"
  then have "(x - 2 ^ 63) mod 2 ^ 64 = x - 2 ^ 63" by (intro mod_pos_pos_trivial) simp_all
  moreover have "(x + 2 ^ 63) mod 2 ^ 64 = (x - 2 ^ 63) mod 2 ^ 64"
    using mod_add_self2 [of "x - 2 ^ 63" "2 ^ 64"] by (simp add: add.commute)
  ultimately show ?thesis by (simp add: i64_wrap_def)
qed

lemma as_i64_value: "n < 2 ^ 64 \<Longrightarrow> as_i64 n = (if n < 2 ^ 63 then int n else int n - 2 ^ 64)"
  using i64_wrap_small [of "int n"] i64_wrap_high [of "int n"] by (auto simp: as_i64_wrap)

text \<open>C37. The freshness test of commands, for the years a clock can show: a command passes exactly when it is at most two
  minutes old or ahead -- or when its time is 2 to the power of 63 seconds ahead, where the absolute value
  of the difference overflows.\<close>

theorem command_freshness_exact:
  assumes "ev_created_at e < 2 ^ 64" "120 \<le> now" "now < 2 ^ 62"
  shows "\<not> command_stale e now \<longleftrightarrow>
    \<bar>int (ev_created_at e) - int now\<bar> \<le> 120 \<or> int (ev_created_at e) = int now + 2 ^ 63"
proof -
  let ?t = "int (ev_created_at e)" and ?n = "int now"
  have n: "as_i64 now = ?n" using assms(3) by (simp add: as_i64_value)
  have n': "120 \<le> ?n" "?n < 2 ^ 62" using assms(2,3) by simp_all
  show ?thesis
  proof (cases "ev_created_at e < 2 ^ 63")
    case True
    then have "?t < 2 ^ 63" by simp
    then have d: "- (2 ^ 63) \<le> ?t - ?n" "?t - ?n < 2 ^ 63" "\<bar>?t - ?n\<bar> < 2 ^ 63" using n' by simp_all
    have "event_skew e now = ?t - ?n" using True d n by (simp add: event_skew_def as_i64_value i64_wrap_small)
    then have "i64_wrap \<bar>event_skew e now\<bar> = \<bar>?t - ?n\<bar>" using d(3) by (simp add: i64_wrap_small)
    then show ?thesis using \<open>?t < 2 ^ 63\<close> n' by (auto simp: command_stale_def MAX_COMMAND_SKEW_SECS_def)
  next
    case False
    then have t: "2 ^ 63 \<le> ?t" "?t < 2 ^ 64" using assms(1) by simp_all
    have v: "as_i64 (ev_created_at e) = ?t - 2 ^ 64" using False assms(1) by (simp add: as_i64_value)
    consider "?t - 2 ^ 64 - ?n < - (2 ^ 63)" | "?t - 2 ^ 64 - ?n = - (2 ^ 63)" | "- (2 ^ 63) < ?t - 2 ^ 64 - ?n" by linarith
    then show ?thesis
    proof cases
      case 1
      then have "event_skew e now = ?t - ?n" using n v t n' by (simp add: event_skew_def i64_wrap_low)
      then show ?thesis using 1 t n' by (auto simp: command_stale_def MAX_COMMAND_SKEW_SECS_def i64_wrap_small)
    next
      case 2
      then have "event_skew e now = - (2 ^ 63)" using n v by (simp add: event_skew_def i64_wrap_def)
      then show ?thesis using 2 by (simp add: command_stale_def MAX_COMMAND_SKEW_SECS_def i64_wrap_def)
    next
      case 3
      then have "event_skew e now = ?t - 2 ^ 64 - ?n" using n v t n' by (simp add: event_skew_def i64_wrap_small)
      then show ?thesis using 3 t n' by (auto simp: command_stale_def MAX_COMMAND_SKEW_SECS_def i64_wrap_small)
    qed
  qed
qed

section \<open>Invitations and bans\<close>

definition with_bans :: "((community_id \<times> bytes) \<times> ban_row) list \<Rightarrow> tenant_db \<Rightarrow> tenant_db" where
  "with_bans b d = d\<lparr>td_bans := b\<rparr>"

text \<open>A program that neither reads nor writes the restrictions.\<close>

definition ban_blind :: "('e, 'a) db_prog \<Rightarrow> bool" where
  "ban_blind m \<longleftrightarrow> (\<forall>b d. m (with_bans b d) = (fst (m d), with_bans b (snd (m d))))"

lemma ban_blind_basic: "ban_blind (db_return x)" "ban_blind (db_fail e)" "ban_blind (db_lift r)"
  by (simp_all add: ban_blind_def)

lemma ban_blind_bind: "ban_blind m \<Longrightarrow> (\<And>x. ban_blind (f x)) \<Longrightarrow> ban_blind (db_bind m f)"
  unfolding ban_blind_def db_bind_def by (simp add: case_prod_beta split: sum.split)

lemma ban_blind_map_err: "ban_blind m \<Longrightarrow> ban_blind (db_map_err g m)"
  unfolding ban_blind_def db_map_err_def by (simp add: case_prod_beta split: sum.split)

lemma ban_blind_exec: "quiet c \<Longrightarrow> ban_blind f \<Longrightarrow> ban_blind (db_exec c k f)"
  by (simp add: ban_blind_def quiet_run)

lemma ban_blind_read: "quiet c \<Longrightarrow> (\<And>b d. q (with_bans b d) = q d) \<Longrightarrow> ban_blind (db_read c k q)"
  by (simp add: ban_blind_def quiet_run)

lemmas ban_blind_intros = ban_blind_basic ban_blind_bind ban_blind_map_err ban_blind_exec ban_blind_read

lemma with_bans_simps [simp]:
  "member_of (with_bans b d) com pk = member_of d com pk"
  "community_exists (with_bans b d) com = community_exists d com"
  "td_invites (with_bans b d) = td_invites d"
  "td_members (with_bans b d) = td_members d"
  "find_invite com token (with_bans b d) = find_invite com token d"
  "put_member com pk m (with_bans b d) = with_bans b (put_member com pk m d)"
  "accept_join_policy com pk v (with_bans b d) = with_bans b (accept_join_policy com pk v d)"
  "(with_bans b d)\<lparr>td_invites := ivs\<rparr> = with_bans b (d\<lparr>td_invites := ivs\<rparr>)"
  by (simp_all add: with_bans_def member_of_def community_exists_def find_invite_def put_member_def accept_join_policy_def
      split: option.split)

lemma ban_blind_insert_member: "ban_blind (insert_member com pk role by now)"
  by (simp add: ban_blind_def insert_member_def split: option.split)

lemma ban_blind_insert_invite: "ban_blind (insert_invite com nid row)"
  by (simp add: ban_blind_def insert_invite_def)

lemma ban_blind_claim_tx: "ban_blind (claim_invite_tx com token pk v now)"
  unfolding ban_blind_def
proof (intro allI)
  fix b d
  have i: "insert_member com pk ''member'' (Some ''invite'') now (with_bans b d) =
      (fst (insert_member com pk ''member'' (Some ''invite'') now d), with_bans b (snd (insert_member com pk ''member'' (Some ''invite'') now d)))"
    using ban_blind_insert_member by (simp add: ban_blind_def)
  obtain res d1 where "insert_member com pk ''member'' (Some ''invite'') now d = (res, d1)" by fastforce
  then show "claim_invite_tx com token pk v now (with_bans b d) =
      (fst (claim_invite_tx com token pk v now d), with_bans b (snd (claim_invite_tx com token pk v now d)))"
    by (simp add: claim_invite_tx_def i Let_def split: option.split sum.split)
qed

lemma ban_blind_claim_membership: "quiet c \<Longrightarrow> ban_blind (claim_relay_membership c k com pk role v)"
proof -
  assume q: "quiet c"
  have "ban_blind (\<lambda>d. case insert_member com pk role (Some ''invite'') now d of
      (Inl e, _) \<Rightarrow> (Inl e, d) | (Inr inserted, d1) \<Rightarrow> (Inr inserted, accept_join_policy com pk v d1))" for now
    using ban_blind_insert_member [of com pk role "Some ''invite''" now]
    by (simp add: ban_blind_def case_prod_beta split: sum.split)
  with q show ?thesis unfolding claim_relay_membership_def by (rule ban_blind_exec)
qed

lemma ban_blind_routes:
  assumes "quiet (ic_db c)"
  shows "ban_blind (mint_invite_authorized env c tenant pk body)" "ban_blind (claim_v2 env c com pkh rq)" "ban_blind (claim_v1 env c com pkh rq)"
  unfolding mint_invite_authorized_def claim_v2_def claim_v1_def mint_relay_invite_def get_relay_member_def claim_relay_invite_def Let_def
  using assms
  by (auto intro!: ban_blind_intros ban_blind_insert_invite ban_blind_claim_tx ban_blind_claim_membership
      split: claim_outcome.split sum.split invite_error.split prod.split)

text \<open>C38. Bans do not reach invitations: in a quiet call the routes that mint and that claim an invitation answer the same
  and change the members and the invites in the same way whatever bans are in force -- a banned administrator
  still invites, and a banned key still joins.\<close>

theorem bans_do_not_reach_invitations:
  assumes "quiet (ic_db c)"
  shows "(mint_invite env c q (n\<lparr>in_db := with_bans b (in_db n)\<rparr>) =
      (let (res, n') = mint_invite env c q n in (res, n'\<lparr>in_db := with_bans b (in_db n')\<rparr>))) \<and>
    (claim_invite env c q (n\<lparr>in_db := with_bans b (in_db n)\<rparr>) =
      (let (res, n') = claim_invite env c q n in (res, n'\<lparr>in_db := with_bans b (in_db n')\<rparr>)))"
proof (intro conjI)
  note r = ban_blind_routes [OF assms, unfolded ban_blind_def]
  show "mint_invite env c q (n\<lparr>in_db := with_bans b (in_db n)\<rparr>) =
      (let (res, n') = mint_invite env c q n in (res, n'\<lparr>in_db := with_bans b (in_db n')\<rparr>))"
    using r(1) [of env] by (simp add: mint_invite_def Let_def case_prod_beta split: sum.split prod.split)
  show "claim_invite env c q (n\<lparr>in_db := with_bans b (in_db n)\<rparr>) =
      (let (res, n') = claim_invite env c q n in (res, n'\<lparr>in_db := with_bans b (in_db n')\<rparr>))"
    using r(2,3) [of env] by (simp add: claim_invite_def Let_def case_prod_beta split: sum.split prod.split)
qed

section \<open>The uses of an invite\<close>

definition invite_uses :: "community_id \<Rightarrow> bytes \<Rightarrow> tenant_db \<Rightarrow> (int option \<times> int) option" where
  "invite_uses com token d = map_option (\<lambda>(_, r). (iv_max_uses r, iv_use_count r)) (find_invite com token d)"

text \<open>An invite may disappear, but not come back; its limit stays, and its uses only grow.\<close>

definition uses_grow :: "community_id \<Rightarrow> bytes \<Rightarrow> tenant_db \<Rightarrow> tenant_db \<Rightarrow> bool" where
  "uses_grow com token d d' \<longleftrightarrow> (distinct (map fst (td_invites d)) \<longrightarrow> distinct (map fst (td_invites d')) \<and>
     (case invite_uses com token d' of
        None \<Rightarrow> True
      | Some (m', n') \<Rightarrow> (case invite_uses com token d of None \<Rightarrow> False | Some (m, n) \<Rightarrow> m' = m \<and> n \<le> n')))"

text \<open>The keys of the members a step added.\<close>

definition new_members :: "tenant_db \<Rightarrow> tenant_db \<Rightarrow> (community_id \<times> string) list" where
  "new_members d d' = filter (\<lambda>k. map_of (td_members d) k = None) (map fst (td_members d'))"

text \<open>Claims of one code, one after the other: of each, the answer and the members that its own step added to the
  tables as it found them, whether it was answered or not.\<close>

fun claim_run ::
    "community_id \<Rightarrow> bytes \<Rightarrow> (db_call \<times> string \<times> string option) list \<Rightarrow> tenant_db \<Rightarrow>
     ((db_error, claim_outcome) result \<times> (community_id \<times> string) list) list" where
  "claim_run com token [] d = []"
| "claim_run com token ((c, pk, v) # cs) d =
     (let (res, d1) = claim_relay_invite c 0 com token pk v d
      in (res, new_members (qc_between c 0 d) d1) # claim_run com token cs d1)"

definition is_joined :: "(db_error, claim_outcome) result \<Rightarrow> bool" where
  "is_joined r = (case r of Inr (Joined _ _) \<Rightarrow> True | _ \<Rightarrow> False)"

text \<open>All members the claims of a run added.\<close>

definition admitted :: "((db_error, claim_outcome) result \<times> (community_id \<times> string) list) list \<Rightarrow> (community_id \<times> string) list" where
  "admitted run = concat (map snd run)"

lemma find_SomeD: "List.find P xs = Some x \<Longrightarrow> P x" "List.find P xs = Some x \<Longrightarrow> x \<in> set xs"
  by (auto simp: find_Some_iff)

lemma find_update:
  "distinct (map fst al) \<Longrightarrow> List.find P al = Some (k, v) \<Longrightarrow> P (k, v') \<Longrightarrow> List.find P (AList.update k v' al) = Some (k, v')"
  by (induction al) (auto split: if_splits dest: find_SomeD(2) simp: image_iff)

lemma uses_grow_refl: "uses_grow com token d d"
  by (simp add: uses_grow_def split: option.split)

lemma uses_grow_trans: "uses_grow com token d d1 \<Longrightarrow> uses_grow com token d1 d2 \<Longrightarrow> uses_grow com token d d2"
  by (auto simp: uses_grow_def split: option.splits)

lemma uses_grow_same: "td_invites d' = td_invites d \<Longrightarrow> uses_grow com token d d'"
  by (simp add: uses_grow_def invite_uses_def find_invite_def split: option.split)

lemma invites_untouched:
  "td_invites (accept_join_policy com pk v d) = td_invites d"
  "td_invites (snd (insert_member com pk role by now d)) = td_invites d"
  by (simp_all add: accept_join_policy_def insert_member_def put_member_def split: option.split)

lemma new_members_same: "td_members d' = td_members d \<Longrightarrow> new_members d d' = []"
  by (auto simp: new_members_def filter_empty_conv map_of_eq_None_iff)

lemma update_new: "map_of al k = None \<Longrightarrow> AList.update k v al = al @ [(k, v)]"
  by (induction al) (auto split: if_splits)

lemma new_members_put: "member_of d com pk = None \<Longrightarrow> new_members d (put_member com pk m d) = [(com, pk)]"
  using new_members_same [of d d] by (simp add: new_members_def put_member_def member_of_def update_new)

lemma new_members_cong: "td_members d1 = td_members d2 \<Longrightarrow> new_members d d1 = new_members d d2"
  by (simp add: new_members_def)

lemma policy_members [simp]: "td_members (accept_join_policy com pk v d) = td_members d"
  by (simp add: accept_join_policy_def split: option.split)

text \<open>A claim adds a member exactly when it answers that the claimant joined.\<close>

lemma claim_tx_admits:
  "new_members d (snd (claim_invite_tx com token pk v now d)) =
     (if is_joined (fst (claim_invite_tx com token pk v now d)) then [(com, pk)] else [])"
proof -
  have put: "new_members d (x\<lparr>td_invites := ivs\<rparr>) = [(com, pk)]"
    if "member_of d com pk = None" "td_members x = td_members (put_member com pk m d)" for x ivs m
    using new_members_put [OF that(1), of m] that(2) by (simp add: new_members_def)
  show ?thesis
    by (auto simp: claim_invite_tx_def insert_member_def Let_def is_joined_def new_members_same put split: option.split)
qed

lemma claim_tx_uses:
  assumes "distinct (map fst (td_invites d))"
  shows "uses_grow com token d (snd (claim_invite_tx com token pk v now d))"
    and "is_joined (fst (claim_invite_tx com token pk v now d)) \<Longrightarrow>
      \<exists>m n. invite_uses com token d = Some (m, n) \<and> (\<forall>l. m = Some l \<longrightarrow> n < l) \<and>
        invite_uses com token (snd (claim_invite_tx com token pk v now d)) = Some (m, n + 1)"
proof -
  obtain res d1 where i: "insert_member com pk ''member'' (Some ''invite'') now d = (res, d1)" by fastforce
  then have d1: "td_invites d1 = td_invites d" using invites_untouched(2) [of com pk "''member''" "Some ''invite''" now d] by simp
  let ?d2 = "accept_join_policy com pk v d1"
  have used: "invite_uses com token (?d2\<lparr>td_invites := AList.update key (r\<lparr>iv_use_count := iv_use_count r + 1\<rparr>) (td_invites ?d2)\<rparr>) =
      Some (iv_max_uses r, iv_use_count r + 1)" if f: "find_invite com token d = Some (key, r)" for key r
  proof -
    have "case (key, r) of ((com', _), r) \<Rightarrow> com' = com \<and> iv_token_hash r = token"
      using find_SomeD(1) [OF f [unfolded find_invite_def]] by (simp split: prod.splits)
    then have "List.find (\<lambda>((com', _), r). com' = com \<and> iv_token_hash r = token)
        (AList.update key (r\<lparr>iv_use_count := iv_use_count r + 1\<rparr>) (td_invites d)) = Some (key, r\<lparr>iv_use_count := iv_use_count r + 1\<rparr>)"
      using f assms by (intro find_update) (auto simp: find_invite_def split: prod.splits)
    then show ?thesis by (simp add: invite_uses_def find_invite_def invites_untouched d1)
  qed
  have "uses_grow com token d (?d2\<lparr>td_invites := AList.update key (r\<lparr>iv_use_count := iv_use_count r + 1\<rparr>) (td_invites ?d2)\<rparr>)"
    if "find_invite com token d = Some (key, r)" for key r
    using used [OF that] that assms by (simp add: uses_grow_def invite_uses_def [of _ _ d] invites_untouched d1)
  moreover have "uses_grow com token d (accept_join_policy com pk v d)"
    by (rule uses_grow_same) (rule invites_untouched)
  moreover have "uses_grow com token d (accept_join_policy com pk v d1)"
    by (rule uses_grow_same) (simp add: invites_untouched d1)
  ultimately show "uses_grow com token d (snd (claim_invite_tx com token pk v now d))"
    by (simp add: claim_invite_tx_def i Let_def uses_grow_refl split: option.split sum.split)
  assume "is_joined (fst (claim_invite_tx com token pk v now d))"
  then show "\<exists>m n. invite_uses com token d = Some (m, n) \<and> (\<forall>l. m = Some l \<longrightarrow> n < l) \<and>
        invite_uses com token (snd (claim_invite_tx com token pk v now d)) = Some (m, n + 1)"
    using used
    by (auto simp: claim_invite_tx_def i Let_def is_joined_def invite_uses_def [of _ _ d] split: option.splits sum.splits if_splits)
qed

lemma claim_relay_invite_uses:
  fixes com token pk v c d
  defines "new \<equiv> new_members (qc_between c 0 d) (snd (claim_relay_invite c 0 com token pk v d))"
  assumes "distinct (map fst (td_invites d))" "others_keep (uses_grow com token) c"
  shows "uses_grow com token d (snd (claim_relay_invite c 0 com token pk v d))"
    and "new = [] \<or> new = [(com, pk)]"
    and "is_joined (fst (claim_relay_invite c 0 com token pk v d)) \<Longrightarrow> new = [(com, pk)]"
    and "new \<noteq> [] \<Longrightarrow>
      \<exists>m n n'. invite_uses com token d = Some (m, n) \<and> n < n' \<and> (\<forall>l. m = Some l \<longrightarrow> n' \<le> l) \<and>
        invite_uses com token (snd (claim_relay_invite c 0 com token pk v d)) = Some (m, n')"
proof -
  let ?d = "qc_between c 0 d" and ?tx = "claim_invite_tx com token pk v (qc_now c 0) (qc_between c 0 d)"
  have grow: "uses_grow com token d ?d" using assms(3) by (simp add: others_keep_def)
  then have dist: "distinct (map fst (td_invites ?d))" using assms(2) by (simp add: uses_grow_def)
  note tx = claim_tx_uses [OF dist, of com token pk v "qc_now c 0"]
  have run: "snd (claim_relay_invite c 0 com token pk v d) = ?d \<or> snd (claim_relay_invite c 0 com token pk v d) = snd ?tx"
    unfolding claim_relay_invite_def by (rule exec_tables)
  then show "uses_grow com token d (snd (claim_relay_invite c 0 com token pk v d))"
    using uses_grow_trans [OF grow tx(1)] grow by auto
  have none: "new_members ?d ?d = []" by (simp add: new_members_same)
  then show "new = [] \<or> new = [(com, pk)]"
    using run claim_tx_admits [of ?d com token pk v "qc_now c 0"] by (auto simp: new_def split: if_splits)
  show "new = [(com, pk)]" if "is_joined (fst (claim_relay_invite c 0 com token pk v d))"
  proof -
    have "claim_relay_invite c 0 com token pk v d = ?tx"
      using that by (auto simp: claim_relay_invite_def db_exec_def Let_def is_joined_def split: option.splits prod.splits)
    with that show ?thesis using claim_tx_admits [of ?d com token pk v "qc_now c 0"] by (simp add: new_def)
  qed
  assume "new \<noteq> []"
  then have eq: "snd (claim_relay_invite c 0 com token pk v d) = snd ?tx" and j: "is_joined (fst ?tx)"
    using run none claim_tx_admits [of ?d com token pk v "qc_now c 0"] by (auto simp: new_def split: if_splits)
  from tx(2) [OF j] obtain m n where "invite_uses com token ?d = Some (m, n)" "\<forall>l. m = Some l \<longrightarrow> n < l"
      "invite_uses com token (snd (claim_relay_invite c 0 com token pk v d)) = Some (m, n + 1)"
    by (auto simp: eq)
  moreover from this(1) grow assms(2) obtain n0 where "invite_uses com token d = Some (m, n0)" "n0 \<le> n"
    by (auto simp: uses_grow_def split: option.splits)
  ultimately show "\<exists>m n n'. invite_uses com token d = Some (m, n) \<and> n < n' \<and> (\<forall>l. m = Some l \<longrightarrow> n' \<le> l) \<and>
        invite_uses com token (snd (claim_relay_invite c 0 com token pk v d)) = Some (m, n')"
    by (intro exI [of _ m] exI [of _ n0] exI [of _ "n + 1"]) auto
qed

lemma claim_run_admits:
  assumes "distinct (map fst (td_invites d))" "list_all (\<lambda>(c, _). others_keep (uses_grow com token) c) cs"
    and "admitted (claim_run com token cs d) \<noteq> []"
  shows "\<exists>m n. invite_uses com token d = Some (m, n) \<and>
    (\<forall>l. m = Some l \<longrightarrow> int (length (admitted (claim_run com token cs d))) \<le> l - n)"
  using assms
proof (induction cs arbitrary: d)
  case (Cons x cs)
  obtain c pk v where x: "x = (c, pk, v)" by (metis prod.exhaust)
  obtain res d1 where run: "claim_relay_invite c 0 com token pk v d = (res, d1)" by fastforce
  let ?new = "new_members (qc_between c 0 d) d1" and ?n = "int (length (admitted (claim_run com token cs d1)))"
  have others: "others_keep (uses_grow com token) c" using Cons.prems(2) by (simp add: x)
  note uses = claim_relay_invite_uses [OF Cons.prems(1) others, of pk v, unfolded run fst_conv snd_conv]
  have d1: "distinct (map fst (td_invites d1))" using uses(1) Cons.prems(1) by (simp add: uses_grow_def)
  have tail: "list_all (\<lambda>(c, _). others_keep (uses_grow com token) c) cs" using Cons.prems(2) by simp
  have all: "admitted (claim_run com token (x # cs) d) = ?new @ admitted (claim_run com token cs d1)"
    by (simp add: x run admitted_def)
  have IH: "\<exists>m n. invite_uses com token d1 = Some (m, n) \<and> (\<forall>l. m = Some l \<longrightarrow> ?n \<le> l - n)"
    if "admitted (claim_run com token cs d1) \<noteq> []"
    using Cons.IH [OF d1 tail that] .
  show ?case
  proof (cases "?new = []")
    case False
    with uses(4) obtain m n n' where m: "invite_uses com token d = Some (m, n)" "n < n'" "\<forall>l. m = Some l \<longrightarrow> n' \<le> l"
      "invite_uses com token d1 = Some (m, n')" by blast
    have "\<forall>l. m = Some l \<longrightarrow> ?n \<le> l - n'"
      using IH m(3,4) by (cases "admitted (claim_run com token cs d1)") auto
    moreover have "length ?new = 1" using False uses(2) by auto
    ultimately show ?thesis using m unfolding all by auto
  next
    case True
    then obtain m n where "invite_uses com token d1 = Some (m, n)" "\<forall>l. m = Some l \<longrightarrow> ?n \<le> l - n"
      using IH Cons.prems(3) unfolding all by auto
    moreover from this(1) uses(1) Cons.prems(1) obtain n0 where "invite_uses com token d = Some (m, n0)" "n0 \<le> n"
      by (auto simp: uses_grow_def split: option.splits)
    ultimately show ?thesis using True unfolding all by fastforce
  qed
qed (simp add: admitted_def)

lemma claim_run_joined:
  assumes "distinct (map fst (td_invites d))" "list_all (\<lambda>(c, _). others_keep (uses_grow com token) c) cs"
  shows "list_all2 (\<lambda>(_, pk, _) (res, new). (new = [] \<or> new = [(com, pk)]) \<and> (is_joined res \<longrightarrow> new = [(com, pk)]))
    cs (claim_run com token cs d)"
  using assms
proof (induction cs arbitrary: d)
  case (Cons x cs)
  obtain c pk v where x: "x = (c, pk, v)" by (metis prod.exhaust)
  obtain res d1 where run: "claim_relay_invite c 0 com token pk v d = (res, d1)" by fastforce
  have others: "others_keep (uses_grow com token) c" using Cons.prems(2) by (simp add: x)
  note uses = claim_relay_invite_uses [OF Cons.prems(1) others, of pk v, unfolded run fst_conv snd_conv]
  have "distinct (map fst (td_invites d1))" using uses(1) Cons.prems(1) by (simp add: uses_grow_def)
  with Cons.IH [of d1] Cons.prems(2) uses(2,3) show ?case by (simp add: x run)
qed simp

text \<open>C11. An invitation with a number of uses admits at most as many members as it has uses left: the members that the
  claims of its code really add to the tables, counted over a whole run of claims -- whoever claims, how
  often, and whatever fails, a claim whose answer was lost included -- are no more than the uses left at the
  beginning; each claim adds the claimant or nobody, and one that is answered with success added the
  claimant; nobody is added by a code that is not in the table.  Between the claims other sessions may do anything to the members; of the
  invitations it is assumed that they neither take back uses, nor change the limit, nor mint the
  same code again.\<close>

theorem invite_admits_at_most:
  assumes "distinct (map fst (td_invites d))" "list_all (\<lambda>(c, _). others_keep (uses_grow com token) c) cs"
  shows "(find_invite com token d = Some (key, r) \<longrightarrow> iv_max_uses r = Some m \<longrightarrow> iv_use_count r \<le> m \<longrightarrow>
      int (length (admitted (claim_run com token cs d))) \<le> m - iv_use_count r) \<and>
    (find_invite com token d = None \<longrightarrow> admitted (claim_run com token cs d) = []) \<and>
    list_all2 (\<lambda>(_, pk, _) (res, new). (new = [] \<or> new = [(com, pk)]) \<and> (is_joined res \<longrightarrow> new = [(com, pk)]))
      cs (claim_run com token cs d)"
proof (intro conjI)
  have j: "\<exists>m n. invite_uses com token d = Some (m, n) \<and>
      (\<forall>l. m = Some l \<longrightarrow> int (length (admitted (claim_run com token cs d))) \<le> l - n)"
    if "admitted (claim_run com token cs d) \<noteq> []"
    by (rule claim_run_admits [OF assms that])
  show "find_invite com token d = Some (key, r) \<longrightarrow> iv_max_uses r = Some m \<longrightarrow> iv_use_count r \<le> m \<longrightarrow>
      int (length (admitted (claim_run com token cs d))) \<le> m - iv_use_count r"
    using j by (cases "admitted (claim_run com token cs d) = []") (auto simp: invite_uses_def)
  show "find_invite com token d = None \<longrightarrow> admitted (claim_run com token cs d) = []"
    using j by (cases "admitted (claim_run com token cs d) = []") (auto simp: invite_uses_def)
qed (rule claim_run_joined [OF assms])

section \<open>Receipts\<close>

text \<open>What the encodings promise: they decode to what was encoded, and base64 has no dot.\<close>

definition receipt_lawful :: "invite_lib \<Rightarrow> bool" where
  "receipt_lawful lib \<longleftrightarrow>
     (\<forall>b. il_b64_decode lib (il_b64_encode lib b) = Some b \<and> CHR ''.'' \<notin> set (il_b64_encode lib b)) \<and>
     (\<forall>p. il_policy_from_json lib (il_policy_to_json lib p) = Some p)"

lemma split_once_app: "d \<notin> set a \<Longrightarrow> split_once d (a @ d # b) = Some (a, b)"
  by (induction a) auto

text \<open>C40. A receipt for the acceptance of the join policy is worth what it says and nothing else: it verifies for the
  code it was issued for and the policy it was issued under, up to a collision of the digest, and for ten
  minutes.\<close>

theorem policy_receipt_exact:
  assumes "receipt_lawful lib" "length (mint_policy_acceptance lib now key code version) \<le> 2048"
  shows "is_ok (verify_policy_acceptance lib now' key (mint_policy_acceptance lib now key code version) code' version') \<longleftrightarrow>
    now' \<le> now + 600 \<and> version' = version \<and> code_digest lib code' = code_digest lib code"
proof -
  let ?bs = "il_policy_to_json lib \<lparr>pp_c = code_digest lib code, pp_v = version, pp_e = now + 10 * 60\<rparr>"
  have "open_token lib key (mint_policy_acceptance lib now key code version) = Inr ?bs"
    using assms(1) by (simp add: open_token_def mint_policy_acceptance_def Let_def split_once_app receipt_lawful_def)
  then show ?thesis
    using assms by (auto simp: verify_policy_acceptance_def receipt_lawful_def)
qed

section \<open>Concrete runs\<close>

lemma ex_call_quiet: "quiet ex_db_call"
  by (simp add: quiet_def ex_call_run)

theorem banned_actor_changes_nothing_witness:
  "snd (handle_moderation_command ex_moderation ex_db_call 100 2 (ex_command KIND_MODERATION_BAN [100] []) ex_tables) = ex_tables \<and>
   fst (handle_relay_admin_event ex_names True ex_db_call 100 2 (ex_command RELAY_ADMIN_ADD_MEMBER [100] []) ex_tables) = Inl AdminBanned"
proof -
  have "rx_banned (restriction_at (qc_now ex_db_call 0) 2 (ev_pubkey (ex_command k [100] [])) (qc_between ex_db_call 0 ex_tables))" for k
    by (simp add: restriction_at_def ex_call_run ex_command_def ex_tables_def ban_active_def ex_ban_def)
  from banned_actor_changes_nothing [OF this] show ?thesis by (simp add: ex_call_run)
qed

definition ex_ban_command :: event where
  "ex_ban_command = ex_command KIND_MODERATION_BAN [98] [[''p'', ex_key], [''expiration'', ''300'']]"

lemma ex_ban_tags:
  "extract_p_tag_bytes ex_moderation ex_ban_command = Some [64]" "extract_expiration ex_moderation ex_ban_command = Inr (Some 300)"
proof -
  show "extract_p_tag_bytes ex_moderation ex_ban_command = Some [64]"
    using ex_key_hex by (simp add: extract_p_tag_bytes_def ex_ban_command_def ex_command_def ex_moderation_def)
  have "parse_i64 ''300'' = Some 300" by (simp add: parse_i64_def undecimal_def is_ascii_digit_def)
  then show "extract_expiration ex_moderation ex_ban_command = Inr (Some 300)"
    by (simp add: extract_expiration_def extract_tag_value_def ex_ban_command_def ex_command_def ex_moderation_def)
qed

lemma ex_ban_accepted: "qc_now c 0 = 100 \<Longrightarrow> ban_accepted ex_moderation c 100 2 ex_ban_command ex_tables"
proof -
  assume now: "qc_now c 0 = 100"
  have pk: "ev_pubkey ex_ban_command = [98]" by (simp add: ex_ban_command_def ex_command_def)
  have "may_restrict ex_moderation ex_tables 2 [98] [64]"
    by (simp add: may_restrict_def role_of_def ex_moderation_def ex_names_def ex_name_def member_of_def ex_tables_def new_member_def)
  moreover have "\<not> rx_banned (restriction_at 100 2 [98] ex_tables)" by (simp add: restriction_at_def ex_tables_def)
  moreover have "\<not> command_stale ex_ban_command 100" unfolding ex_ban_command_def by (rule ex_fresh)
  ultimately show ?thesis by (simp add: ban_accepted_def now pk ex_ban_tags)
qed

theorem ban_command_exact_witness:
  "let d = snd (handle_moderation_command ex_moderation ex_db_call 100 2 ex_ban_command ex_tables)
   in rx_banned (restriction_at 299 2 [64] d) \<and> \<not> rx_banned (restriction_at 300 2 [64] d)"
proof -
  have "ev_kind ex_ban_command = KIND_MODERATION_BAN" by (simp add: ex_ban_command_def ex_command_def)
  moreover have "map_of (td_actions ex_tables) (2, qc_uuid ex_db_call 5) = None" by (simp add: ex_tables_def)
  moreover have "ban_accepted ex_moderation ex_db_call 100 2 ex_ban_command ex_tables"
    by (rule ex_ban_accepted) (simp add: ex_call_run)
  ultimately have "\<forall>t. rx_banned (restriction_at t 2 [64] (snd (handle_moderation_command ex_moderation ex_db_call 100 2 ex_ban_command ex_tables))) \<longleftrightarrow>
      Some 300 = None \<or> future t (Some 300)"
    using ban_command_exact [OF ex_call_quiet] ex_ban_tags by blast
  then show ?thesis by (simp add: Let_def future_def)
qed

theorem ban_stands_without_record_witness:
  "let (res, d) = handle_moderation_command ex_moderation
     (ex_db_call\<lparr>qc_fault := (\<lambda>k. if k = 5 then Some (''lost'', False) else None)\<rparr>) 100 2 ex_ban_command ex_tables
   in res = Inl ''error: failed to write audit row: lost'' \<and> rx_banned (restriction_at 299 2 [64] d) \<and> td_actions d = []"
proof -
  let ?c = "ex_db_call\<lparr>qc_fault := (\<lambda>k. if k = 5 then Some (''lost'', False) else None)\<rparr>"
  have c: "\<forall>k. qc_between ?c k = id" "\<forall>k < 5. qc_fault ?c k = None" "qc_fault ?c 5 = Some (''lost'', False)"
    by (simp_all add: ex_call_run)
  have kind: "ev_kind ex_ban_command = KIND_MODERATION_BAN" by (simp add: ex_ban_command_def ex_command_def)
  have acc: "ban_accepted ex_moderation ?c 100 2 ex_ban_command ex_tables" by (rule ex_ban_accepted) (simp add: ex_call_run)
  note r = ban_stands_without_record [OF c kind acc ex_ban_tags]
  have "td_actions ex_tables = []" by (simp add: ex_tables_def)
  with r [of 299, THEN conjunct1] r [of 299, THEN conjunct2, THEN conjunct1] r [of 299, THEN conjunct2, THEN conjunct2]
  show ?thesis by (simp add: error_text_def future_def split: prod.split)
qed

theorem command_freshness_exact_witness:
  "\<not> command_stale ((ex_command KIND_MODERATION_BAN [98] [])\<lparr>ev_created_at := 2 ^ 63 + 200\<rparr>) 200"
  using command_freshness_exact [of "(ex_command KIND_MODERATION_BAN [98] [])\<lparr>ev_created_at := 2 ^ 63 + 200\<rparr>" 200] by simp

text \<open>A key that the tables ban is answered as if it were not.\<close>

theorem bans_do_not_reach_invitations_witness:
  "\<forall>env b q n. fst (claim_invite env (ex_invite_call ex_db_call b) q (n\<lparr>in_db := ex_tables\<rparr>)) =
     fst (claim_invite env (ex_invite_call ex_db_call b) q (n\<lparr>in_db := with_bans [] ex_tables\<rparr>))"
proof (intro allI)
  fix env b q and n :: invite_node
  have "quiet (ic_db (ex_invite_call ex_db_call b))" by (simp add: ex_invite_call_def ex_call_quiet)
  from bans_do_not_reach_invitations [OF this, where n = "n\<lparr>in_db := ex_tables\<rparr>" and b = "[]" and env = env and q = q]
  show "fst (claim_invite env (ex_invite_call ex_db_call b) q (n\<lparr>in_db := ex_tables\<rparr>)) =
     fst (claim_invite env (ex_invite_call ex_db_call b) q (n\<lparr>in_db := with_bans [] ex_tables\<rparr>))"
    by (simp add: Let_def case_prod_beta)
qed

theorem invite_admits_at_most_witness:
  "length (admitted (claim_run 2 [8] [(ex_db_call, ''e'', None), (ex_db_call, ''f'', None)] ex_tables)) \<le> 1 \<and>
   admitted (claim_run 2 [9] [(ex_db_call, ''e'', None)] ex_tables) = []"
proof -
  have d: "distinct (map fst (td_invites ex_tables))" by (simp add: ex_tables_def)
  have others: "others_keep (uses_grow com token) ex_db_call" for com token by (rule others_keep_quiet) (rule uses_grow_refl)
  have f: "find_invite 2 [8] ex_tables = Some ((2, 8), \<lparr>iv_token_hash = [8], iv_max_uses = Some 1, iv_use_count = 0, iv_expires_at = 200, iv_created_by = ''a''\<rparr>)"
    "find_invite 2 [9] ex_tables = None"
    by (simp_all add: find_invite_def ex_tables_def)
  have cs: "list_all (\<lambda>(c, _). others_keep (uses_grow com token) c) [(ex_db_call, ''e'', None), (ex_db_call, ''f'', None)]"
    "list_all (\<lambda>(c, _). others_keep (uses_grow com token) c) [(ex_db_call, ''e'', None)]" for com token
    using others by simp_all
  show ?thesis
    using invite_admits_at_most [OF d cs(1), THEN conjunct1, THEN mp, OF f(1), of 1]
      invite_admits_at_most [OF d cs(2), THEN conjunct2, THEN conjunct1, THEN mp, OF f(2)]
    by (simp del: claim_run.simps)
qed

text \<open>A text of two letters per byte, and records as lists of texts.\<close>

fun ex_unhex :: "string \<Rightarrow> bytes" where
  "ex_unhex (a # b # cs) = word_of_nat (16 * (of_char a - 97) + (of_char b - 97)) # ex_unhex cs"
| "ex_unhex _ = []"

lemma ex_unhex_hex: "ex_unhex (ex_hex bs) = bs"
proof (induction bs)
  case (Cons w ws)
  have n: "of_char (ex_nibble k) = 97 + k" if "k < 16" for k using that by (simp add: ex_nibble_def)
  have "word_of_nat (16 * (unat w div 16) + unat w mod 16) = w" by (simp only: mult_div_mod_eq) simp
  then show ?case using Cons n [OF u8_div16 [of w]] n [of "unat w mod 16"] by simp
qed simp

definition ex_invite_lib :: invite_lib where
  "ex_invite_lib = \<lparr>il_auth = ex_auth_lib, il_b64_encode = ex_hex, il_b64_decode = (\<lambda>s. Some (ex_unhex s)), il_hmac = (\<lambda>key bs. key),
     il_invite_from_json = (\<lambda>_. None),
     il_policy_to_json = (\<lambda>p. ex_untext (concat (map ex_marked [pp_c p, pp_v p, decimal (pp_e p)]))),
     il_policy_from_json = (\<lambda>bs. case ex_unmarked (ex_text bs) of
        [c, v, e] \<Rightarrow> Some \<lparr>pp_c = c, pp_v = v, pp_e = undecimal e\<rparr> | _ \<Rightarrow> None),
     il_mint_request = (\<lambda>_. Inl []), il_claim_request = (\<lambda>_. Inl []), il_accept_request = (\<lambda>_. Inl [])\<rparr>"

lemma ex_invite_lib_lawful: "receipt_lawful ex_invite_lib"
proof -
  have "CHR ''.'' \<notin> set (ex_hex bs)" for bs
  proof (induction bs)
    case (Cons w ws)
    have "ex_nibble k \<noteq> CHR ''.''" if "k < 16" for k
      using that by (simp add: ex_nibble_def char_of_eq_iff take_bit_nat_eq_self)
    with Cons show ?case using u8_div16 [of w] by (metis ex_hex.simps(2) mod_less_divisor set_ConsD zero_less_numeral)
  qed simp
  moreover have "ex_text (ex_untext s) = s" for s
    by (induction s) (simp_all add: ex_text_def ex_untext_def unsigned_of_nat take_bit_nat_eq_self)
  moreover have "ex_unmarked (ex_marked s) = [s]" for s using ex_unmarked_marked [of s "[]"] by simp
  ultimately show ?thesis
    by (simp add: receipt_lawful_def ex_invite_lib_def ex_unhex_hex ex_unmarked_marked undecimal_decimal)
qed

theorem policy_receipt_exact_witness:
  "is_ok (verify_policy_acceptance ex_invite_lib 700 [7] (mint_policy_acceptance ex_invite_lib 100 [7] ''x'' ''1'') ''x'' ''1'') \<and>
   \<not> is_ok (verify_policy_acceptance ex_invite_lib 701 [7] (mint_policy_acceptance ex_invite_lib 100 [7] ''x'' ''1'') ''x'' ''1'')"
proof -
  have "length (ex_hex bs) = 2 * length bs" for bs by (induction bs) simp_all
  moreover have "length (decimal 700) = 3" by (simp add: decimal.simps)
  ultimately have "length (mint_policy_acceptance ex_invite_lib 100 [7] ''x'' ''1'') \<le> 2048"
    by (simp add: mint_policy_acceptance_def Let_def ex_invite_lib_def ex_untext_def ex_marked_def code_digest_def ex_auth_lib_def
        ex_hex_lib_def as_bytes_def length_concat comp_def sum_list_triv)
  from policy_receipt_exact [OF ex_invite_lib_lawful this] show ?thesis by simp
qed

end
