(* ===== verification/Spec2Isabelle.thy ===== *)
theory Spec2Isabelle
  imports Topic_Refcounts Conformance Audio_Room_Safety Git_Push_Policy Pairing_Protocol Agent_Safety Tunnel_Safety Audit_Safety
    Admission_Safety Command_Safety
begin

text \<open>
  \<^bold>\<open>A verification of Punks: the relay and the agent harness.\<close>

  Punks is a chat system for people and agents on the Nostr protocol.  A relay (\<open>crates/punks-relay\<close>)
  serves many communities from one deployment; clients subscribe with filters over a WebSocket or query
  over HTTP, events are stored in PostgreSQL and travel between the nodes of a deployment over Redis.
  Agents run under a harness (\<open>crates/punks-acp\<close>) that listens to the relay, queues the events of each
  channel and hands them to agent processes.  This development models the logic between those systems:
  who may read, receive, write, push and speak, what is kept and in which order, and what happens when a
  part fails.

  \<^bold>\<open>The parts and where they are modelled.\<close>

  \<^item> \<^bold>\<open>Events and filters.\<close> \<open>Kinds\<close> is the registry of event kinds and their classes
    (\<open>punks-core/src/kind.rs\<close>); \<open>Nostr_Events\<close> holds events, filters, the matching of the one by the
    other and thread markers (\<open>event.rs\<close>, \<open>filter.rs\<close>).

  \<^item> \<^bold>\<open>Tenancy and authentication.\<close> \<open>Relay_Auth\<close> binds a host to a community (\<open>tenant.rs\<close>), verifies signed
    events, NIP-42 and NIP-98 (\<open>punks-auth\<close>), decides relay membership with owner attestation
    (\<open>api/mod.rs\<close>) and is the AUTH handler (\<open>handlers/auth.rs\<close>); \<open>Nip_OA\<close> is the attestation
    itself (\<open>punks-sdk/src/nip_oa.rs\<close>).  \<open>Admission\<close> holds the seen-set of NIP-98 event ids, the
    fixed-window rate limiter with its Lua script, and the gates of the HTTP bridge.  \<open>Auth_Safety\<close> and
    \<open>Admission_Safety\<close> prove when a connection is authenticated, how often a token is honoured and how
    many requests are admitted.

  \<^item> \<^bold>\<open>Communities, members and moderation.\<close> \<open>Roster\<close> holds the tables of communities and members with the
    statements on them (\<open>punks-db/src/relay_members.rs\<close>, \<open>community.rs\<close>); \<open>Relay_Invites\<close> the codes, the
    table and the routes of invitations (\<open>punks-core/src/invite.rs\<close>, \<open>invite_token.rs\<close>, \<open>relay_invite.rs\<close>,
    \<open>api/invites.rs\<close>); \<open>Moderation\<close> reports, bans, timeouts and the commands of kinds 9040 to 9044
    (\<open>punks-db/src/moderation.rs\<close>, \<open>moderation_authz.rs\<close>, \<open>moderation_commands.rs\<close>); \<open>Relay_Admin\<close> the commands of
    kinds 9030 to 9033, the leave request of NIP-43, the operator of the deployment and the member commands of the
    admin program (\<open>relay_admin.rs\<close>, \<open>ingest.rs\<close>, \<open>community_provisioning.rs\<close>, \<open>api/operator.rs\<close>,
    \<open>punks-admin/src/main.rs\<close>).  \<open>Roster_Safety\<close> collects all requests that write these tables and the contracts their
    steps meet; \<open>Tenant_Safety\<close> proves that a community has one owner at most and never loses it, that two
    bootstraps of an owner break this, and that nobody is
    handed more communities than the limit, \<open>Moderation_Safety\<close> that rows keep their shape, reports are closed
    once and commands respect ranks, \<open>Command_Safety\<close> what single commands and codes do.

  \<^item> \<^bold>\<open>Subscriptions.\<close> \<open>Subscriptions\<close> is the registry with its indexes (\<open>subscription.rs\<close>);
    \<open>Subscription_Routing\<close> proves the indexed fan-out equal to a scan.

  \<^item> \<^bold>\<open>Reading.\<close> \<open>Read_Gates\<close> holds the checks on filters and events and the translation of a filter to a
    database query (\<open>handlers/req.rs\<close>); \<open>Requests\<close> the handlers of REQ, COUNT and CLOSE, the search
    lane, the eviction of channel subscriptions and the end of a connection.  \<open>Request_Safety\<close> proves
    that a reader sees exactly what it may.

  \<^item> \<^bold>\<open>Live delivery.\<close> \<open>Live_Delivery\<close> is the dispatch of a stored event to local and remote subscribers
    through the access gate and its caches (\<open>handlers/event.rs\<close>, \<open>state.rs\<close>), with its guarantees in
    \<open>Delivery_Safety\<close>; \<open>Topics\<close> the Redis topics and their reference counts (\<open>punks-pubsub\<close>), and
    \<open>Topic_Refcounts\<close> that a node listens to what its subscriptions need, with the tasks of the handlers interleaved
    in any way.

  \<^item> \<^bold>\<open>Tunnels between relays.\<close> \<open>Session_Directory\<close> is the directory of session leases with its four Lua
    scripts (\<open>tunnel/directory.rs\<close>), \<open>Reliable_Tunnel\<close> the frames, streams and the renewal task
    (\<open>tunnel/reliable.rs\<close>); \<open>Session_Fencing\<close> and \<open>Tunnel_Safety\<close> prove that only the holder of the
    latest grant is heard.

  \<^item> \<^bold>\<open>Audio rooms.\<close> \<open>Audio_Room\<close> (\<open>audio/room.rs\<close>) and \<open>Audio_Room_Safety\<close>.

  \<^item> \<^bold>\<open>Git.\<close> \<open>Git_Perms\<close> is the permission engine (\<open>punks-core/src/git_perms.rs\<close>), \<open>Git_Push_Policy\<close> the
    endpoint the pre-receive hook asks (\<open>api/git/policy.rs\<close>).

  \<^item> \<^bold>\<open>Pairing of devices.\<close> \<open>Pairing\<close> (\<open>punks-core/src/pairing\<close>) and \<open>Pairing_Protocol\<close>.

  \<^item> \<^bold>\<open>Audit.\<close> \<open>Audit_Log\<close> is the per-community hash chain (\<open>punks-audit\<close>), \<open>Audit_Safety\<close> its
    integrity.

  \<^item> \<^bold>\<open>Conformance.\<close> \<open>Conformance\<close> is the checker of tenant isolation on traces (\<open>punks-conformance\<close>).

  \<^item> \<^bold>\<open>The agent harness.\<close> \<open>Event_Queue\<close> is the queue of channel events with retries and in-flight
    deadlines (\<open>punks-acp/src/queue.rs\<close>), \<open>Agent_Intake\<close> the path of an event from the relay to the
    queue (\<open>lib.rs\<close>, \<open>filter.rs\<close>), \<open>Agent_Dispatch\<close> the hand-over to agents and what becomes of
    finished and failed prompts (\<open>lib.rs\<close>, \<open>pool.rs\<close>); \<open>Event_Queue_Safety\<close> and \<open>Agent_Safety\<close> hold
    the theorems.

  \<open>Punks_Prelude\<close> has the types, the result type with its combinators, association lists, strings and
  decimal text, and words as bytes.

  \<^bold>\<open>How the parts meet.\<close>  The AUTH handler fixes the key of a connection that the request handlers and the
  access gate of live delivery read; the REQ handler registers in the registry that fan-out consults and
  holds the topics the bus subscribes to; leases, seen-set and rate limits share one model of Redis;
  attestations serve relay membership as well as the harness's author gate; the harness's intake feeds the
  queue that dispatch drains.

  \<^bold>\<open>How the code is rendered.\<close>  A struct is a record, an enum a datatype, a fallible function returns
  \<open>('e, 'a) result\<close> (an error on the left), a handler takes and returns the state it touches.  Concurrent
  maps are association lists and an operation that holds a lock is one step; interleavings are sequences
  of steps.  Operations of the subscription registry are one step each although the code changes several maps under
  locks of their own; a change of a topic's count and the command sent after it are one step.  The request handlers
  are tasks: they change the subscription table in one step and have a list of topic operations left
  (\<open>topic_op\<close>); \<open>handle_req\<close>, \<open>handle_close\<close> and the others run theirs to the end, and \<open>node_reachable\<close>
  (\<open>Topic_Refcounts\<close>) interleaves them one by one, also beyond the end of their connection.  Clocks, random bytes, and failures of a database, a Redis connection or a send buffer are
  arguments.  Unsigned counters are natural numbers where the code cannot overflow and words, or
  explicit wrap-around, where it can.  A Redis command is what its documentation says on a list of keys with expiry, and a Lua script is
  a composition of commands.  Error values keep the reason and, where a client does not see it, drop the
  wording.  Strings are lists of bytes, so \<open>trim\<close> and case folding concern ASCII characters only.

  The programs on the tables of communities and members are functions from the tables to a result and the
  tables; before each of their steps other sessions may change the tables, and each step may fail with or
  without effect.  A transaction whose row locks and advisory locks order it is one step.  The bootstrap of an owner
  holds no lock: it is two steps, the tables its demotion sees and its commit, and other sessions may commit in
  between.  What others do is left open, or it is a sequence of the statements of the modelled programs
  (\<open>others_run\<close>), or the relation that they keep is named in the theorem; \<open>woven\<close> describes a run whose own changes
  keep a relation while others do as they like.

  \<^bold>\<open>Parameters.\<close>  Code of other packages and the databases enter as records of functions: \<open>nostr_lib\<close>
  (hex and UUID text), \<open>relay_env\<close> and \<open>req_env\<close> (queries, publishing, send buffers), \<open>oa_lib\<close> and
  \<open>auth_lib\<close> (JSON, SHA-256, signatures, URLs), \<open>auth_env\<close> (configuration and queries of the
  gates), \<open>agent_env\<close> (profile and channel look-ups, the expression evaluator), \<open>dir_lib\<close> and
  \<open>tunnel_lib\<close> (hex, UUID bytes, Lua's number text), \<open>audit_lib\<close> (hash, times, JSON scalars, what the
  database keeps), \<open>invite_lib\<close>, \<open>moderation_env\<close> and \<open>authority_lib\<close> (Base64, HMAC, JSON, hexadecimal text, the
  range of times, URLs), and those of pairing, audio and git.  What a theorem needs of them is a named
  predicate (\<open>uuid_codec\<close>, \<open>key_lawful\<close>, \<open>oa_lawful\<close>, \<open>dir_lawful\<close>, \<open>tunnel_lawful\<close>, \<open>audit_lawful\<close>
  and others); each is met by a concrete instance in the witnesses.

  \<^bold>\<open>Interfaces.\<close>  Contracts between parts are locales, interpreted on the definitions of the model: what fan-out
  relies on of the registry (\<open>subscription_routing\<close>), caches that answer as the database would
  (\<open>read_through\<close> and \<open>read_through_filter\<close>, for memberships, visibility and accessible channels), linked
  records under the audit chain (\<open>hash_chain\<close>), and the counter in windows under the rate limiter
  (\<open>window_counter\<close>).  What every session keeps of the tables is a relation: \<open>session_relation\<close> gives the rules for
  programs, \<open>tenant_steps\<close>, \<open>ownership_steps\<close> and \<open>bootstrap_steps\<close>, each extending the one before, the laws of the
  steps and the conclusion for every request; they are interpreted for the single owner, the limit on
  owned communities, the shape of rows, the finality of reports, also in runs with arbitrary other sessions
  (\<open>woven\<close>), and for the statements of the programs themselves (\<open>statements\<close>), which shows that requests
  do nothing else.

  \<^bold>\<open>What the theorems show.\<close>  Safety of reading and delivery (only authorized events reach a reader, by
  history, count, search or live), equivalence of optimised and plain routines (fan-out, filters, push
  rules, the AUTH gate), invariants (bounded queues, rosters, generations, chains), what fences admit, how
  errors leave the state, termination and progress (dispatch, request streams, pairing), round trips of
  encodings, and bounds of the rate limiter and of retries.  Some theorems state behaviour the code has
  and its documentation excludes: an event delivered across nodes that its reader may not read, cancelled
  events lost when no agent is idle, the ignored time limit of an attestation, bans that HTTP and
  invitations do not see, a ban that stands although its record was refused, a command dated 2 to the power
  of 63 seconds ahead that passes as fresh, a topic that stays subscribed when a connection ends at the wrong moment,
  two owners after overlapping bootstraps; the witness of the theorem on NIP-98 tokens is a second use of one.

  \<^bold>\<open>Bounds.\<close>  Loops are structural recursions or carry the bound the code has: the search for a free peer
  index runs 255 steps, search pages are limited by \<open>MAX_SEARCH_PAGES\<close>, a round of dispatch by the idle
  agents.  Lease generations are exact below 10^14, where Lua prints integers in full; audit sequence
  numbers below 2^63.  Jitter of retries is an exact rational.

  \<^bold>\<open>Not modelled.\<close>  The ingest pipeline with its side effects (but for the leave request), the deletion of a
  whole community, the commands on channels and the workflow
  engine are transactions over the tables of events, channels and runs, which exist here only as queries
  of the parts that read them; the relay's notices, the text of prompts and the command-line programs (but for the member
  commands of the admin program) are text and calls.  SQL, full-text search, QUIC, media and speech codecs, language models, clusters,
  processes, files and windows belong to other systems: what the modelled logic needs of them is a
  parameter, and the programs around them (desktop, voice, push gateway, generated contracts) are left
  out.  Of the modelled parts the listing of a key's communities and pages of HTML are left out.
\<close>

end
